(* ===== verification/Prelude.thy ===== *)
theory Prelude
  imports Main "HOL-Library.Word" "HOL-Library.Sublist"
begin

text \<open>
  Shared vocabulary of the development: the types every component uses, the parts of Go's
  \<^verbatim>\<open>strings\<close>, \<^verbatim>\<open>bytes\<close> and \<^verbatim>\<open>unicode/utf8\<close> packages the source calls, and
  the list and map lemmas the component theories share.

  A Go \<^verbatim>\<open>string\<close> is a sequence of bytes, and so is an Isabelle \<^typ>\<open>string\<close>
  (a \<^typ>\<open>char\<close> is one byte): \<^term>\<open>length\<close> is Go's \<^verbatim>\<open>len\<close>. A \<^verbatim>\<open>[]byte\<close>
  is a \<^typ>\<open>8 word list\<close>. A \<^verbatim>\<open>time.Time\<close> is a number of nanoseconds, where 0 is Go's zero
  time.
\<close>

section \<open>Types and theorem collections\<close>

type_synonym byte = "8 word"
type_synonym bytes = "byte list"
type_synonym time = int

named_theorems wf_intro \<open>rules that establish a component's invariant\<close>
named_theorems frame_simp \<open>what an operation leaves alone\<close>

definition string_of_bytes :: "bytes \<Rightarrow> string" where
  "string_of_bytes bs = map (\<lambda>b. char_of (unat b)) bs"

definition bytes_of_string :: "string \<Rightarrow> bytes" where
  "bytes_of_string s = map (\<lambda>c. word_of_nat (of_char c)) s"

section \<open>Lists\<close>

text \<open>The last \<open>n\<close> elements: what every bounded log of the program keeps.\<close>

definition last_n :: "nat \<Rightarrow> 'a list \<Rightarrow> 'a list" where
  "last_n n xs = drop (length xs - n) xs"

lemma length_last_n [simp]: "length (last_n n xs) = min n (length xs)"
  by (simp add: last_n_def min_def)

lemma last_n_all [simp]: "length xs \<le> n \<Longrightarrow> last_n n xs = xs"
  by (simp add: last_n_def)

lemma last_n_0 [simp]: "last_n 0 xs = []"
  by (simp add: last_n_def)

lemma last_n_Nil [simp]: "last_n n [] = []"
  by (simp add: last_n_def)

lemma set_last_n: "set (last_n n xs) \<subseteq> set xs"
  by (simp add: last_n_def set_drop_subset)

lemma last_n_snoc: "0 < n \<Longrightarrow> last_n n (xs @ [x]) = last_n (n - 1) xs @ [x]"
  by (cases "n \<le> length xs") (simp_all add: last_n_def)

lemma last_n_last_n_snoc: "last_n n (last_n n xs @ [x]) = last_n n (xs @ [x])"
proof (cases "length xs \<le> n")
  case False
  then have "last_n n xs @ [x] = drop (length xs - n) (xs @ [x])"
    by (simp add: last_n_def)
  with False show ?thesis
    by (simp add: last_n_def drop_drop Suc_diff_le)
qed simp

lemma last_n_suffix: "suffix (last_n n xs) xs"
  by (simp add: last_n_def suffix_drop)

lemma sorted_wrt_last_n: "sorted_wrt P xs \<Longrightarrow> sorted_wrt P (last_n n xs)"
  by (simp add: last_n_def sorted_wrt_drop)

text \<open>Dropping duplicates, keeping the first occurrence, as \<^verbatim>\<open>dedupe\<close> loops do.\<close>

fun dedupe_seen :: "'b set \<Rightarrow> ('a \<Rightarrow> 'b) \<Rightarrow> 'a list \<Rightarrow> 'a list" where
  "dedupe_seen seen f [] = []"
| "dedupe_seen seen f (x # xs) =
     (if f x \<in> seen then dedupe_seen seen f xs
      else x # dedupe_seen (insert (f x) seen) f xs)"

lemma dedupe_seen_image: "f ` set (dedupe_seen seen f xs) = f ` set xs - seen"
  by (induction xs arbitrary: seen) auto

lemma dedupe_seen_subset: "set (dedupe_seen seen f xs) \<subseteq> set xs"
  by (induction xs arbitrary: seen) auto

lemma dedupe_seen_distinct: "distinct (map f (dedupe_seen seen f xs))"
proof (induction xs arbitrary: seen)
  case (Cons x xs)
  have "f x \<notin> f ` set (dedupe_seen (insert (f x) seen) f xs)"
    by (simp add: dedupe_seen_image)
  with Cons.IH show ?case by simp
qed simp

lemma dedupe_seen_id:
  "distinct (map f xs) \<Longrightarrow> f ` set xs \<inter> seen = {} \<Longrightarrow> dedupe_seen seen f xs = xs"
  by (induction xs arbitrary: seen) auto

text \<open>Results: \<^const>\<open>Inl\<close> is an error, \<^const>\<open>Inr\<close> a value.\<close>

lemma map_sum_id_eq_Inr [simp]: "map_sum id f x = Inr y \<longleftrightarrow> (\<exists>z. x = Inr z \<and> y = f z)"
  by (cases x) auto

lemma map_sum_id_eq_Inl [simp]: "map_sum id f x = Inl e \<longleftrightarrow> x = Inl e"
  by (cases x) auto

section \<open>Splitting and joining\<close>

text \<open>
  \<^verbatim>\<open>strings.Split(s, sep)\<close> for a one-byte separator: always at least one part.
  \<^verbatim>\<open>strings.Join\<close> is its inverse.
\<close>

fun split_on :: "'a \<Rightarrow> 'a list \<Rightarrow> 'a list list" where
  "split_on c [] = [[]]"
| "split_on c (x # xs) =
     (if x = c then [] # split_on c xs
      else (case split_on c xs of [] \<Rightarrow> [[x]] | y # ys \<Rightarrow> (x # y) # ys))"

fun join_with :: "'a \<Rightarrow> 'a list list \<Rightarrow> 'a list" where
  "join_with c [] = []"
| "join_with c [x] = x"
| "join_with c (x # y # ys) = x @ c # join_with c (y # ys)"

lemma split_on_not_Nil [simp]: "split_on c xs \<noteq> []"
  by (induction xs) (auto split: list.splits)

lemma join_with_Cons: "ys \<noteq> [] \<Longrightarrow> join_with c (x # ys) = x @ c # join_with c ys"
  by (cases ys) auto

lemma join_split [simp]: "join_with c (split_on c xs) = xs"
proof (induction xs)
  case (Cons x xs)
  obtain y ys where s: "split_on c xs = y # ys"
    by (cases "split_on c xs") simp_all
  show ?case
  proof (cases "x = c")
    case True
    with Cons.IH show ?thesis by (simp add: join_with_Cons)
  next
    case False
    with Cons.IH s show ?thesis by (cases ys) auto
  qed
qed simp

lemma split_on_parts: "p \<in> set (split_on c xs) \<Longrightarrow> c \<notin> set p"
proof (induction xs arbitrary: p)
  case (Cons x xs)
  obtain y ys where s: "split_on c xs = y # ys"
    by (cases "split_on c xs") simp_all
  then have "c \<notin> set y" using Cons.IH by simp
  with Cons s show ?case by (auto split: if_splits)
qed simp

lemma split_on_none: "c \<notin> set xs \<Longrightarrow> split_on c xs = [xs]"
  by (induction xs) auto

lemma split_on_append: "c \<notin> set xs \<Longrightarrow> split_on c (xs @ c # ys) = xs # split_on c ys"
  by (induction xs) auto

lemma split_join:
  "ps \<noteq> [] \<Longrightarrow> (\<And>p. p \<in> set ps \<Longrightarrow> c \<notin> set p) \<Longrightarrow> split_on c (join_with c ps) = ps"
proof (induction c ps rule: join_with.induct)
  case (2 c x)
  then show ?case by (simp add: split_on_none)
next
  case (3 c x y ys)
  then show ?case by (simp add: split_on_append)
qed simp

lemma split_on_inj: "split_on c xs = split_on c ys \<Longrightarrow> xs = ys"
  by (metis join_split)

text \<open>What splits into a single empty part is the empty string.\<close>

lemma split_on_single_empty: "split_on c xs = [[]] \<longleftrightarrow> xs = []"
  by (metis join_split join_with.simps(2) split_on.simps(1))

section \<open>Prefixes, searching, trimming\<close>

definition trim_prefix :: "string \<Rightarrow> string \<Rightarrow> string" where
  "trim_prefix p s = (if prefix p s then drop (length p) s else s)"

definition cut_prefix :: "string \<Rightarrow> string \<Rightarrow> string option" where
  "cut_prefix p s = (if prefix p s then Some (drop (length p) s) else None)"

definition trim_suffix :: "string \<Rightarrow> string \<Rightarrow> string" where
  "trim_suffix p s = (if suffix p s then take (length s - length p) s else s)"

definition contains_any :: "string \<Rightarrow> string \<Rightarrow> bool" where
  "contains_any s cs \<longleftrightarrow> (\<exists>c \<in> set s. c \<in> set cs)"

text \<open>\<^verbatim>\<open>strings.Contains\<close>.\<close>

fun contains_sub :: "string \<Rightarrow> string \<Rightarrow> bool" where
  "contains_sub [] p = (p = [])"
| "contains_sub (c # cs) p = (prefix p (c # cs) \<or> contains_sub cs p)"

lemma contains_sub_iff: "contains_sub s p \<longleftrightarrow> (\<exists>u v. s = u @ p @ v)"
proof (induction s)
  case (Cons c cs)
  show ?case
  proof
    assume "contains_sub (c # cs) p"
    then show "\<exists>u v. c # cs = u @ p @ v"
    proof (cases "prefix p (c # cs)")
      case True
      then obtain v where "c # cs = [] @ p @ v" by (auto simp: prefix_def)
      then show ?thesis by blast
    next
      case False
      with \<open>contains_sub (c # cs) p\<close> Cons.IH obtain u v where "cs = u @ p @ v" by auto
      then have "c # cs = (c # u) @ p @ v" by simp
      then show ?thesis by blast
    qed
  next
    assume "\<exists>u v. c # cs = u @ p @ v"
    then obtain u v where uv: "c # cs = u @ p @ v" by blast
    show "contains_sub (c # cs) p"
    proof (cases u)
      case Nil
      with uv have "prefix p (c # cs)" by simp
      then show ?thesis by simp
    next
      case (Cons a u')
      with uv have "cs = u' @ p @ v" by simp
      with Cons.IH show ?thesis by auto
    qed
  qed
qed simp

text \<open>\<^verbatim>\<open>strings.ToLower\<close> on ASCII; letters beyond ASCII are left as they are.\<close>

definition lower_char :: "char \<Rightarrow> char" where
  "lower_char c =
     (let n = (of_char c :: nat) in if 65 \<le> n \<and> n \<le> 90 then char_of (n + 32) else c)"

definition to_lower :: "string \<Rightarrow> string" where
  "to_lower s = map lower_char s"

text \<open>
  \<^verbatim>\<open>strings.TrimSpace\<close> removes every rune \<^verbatim>\<open>unicode.IsSpace\<close> accepts; these are the
  UTF-8 encodings of all of them. A trailing rune is recognised on the reversed string.
\<close>

definition space_runes :: "string list" where
  "space_runes =
     [[CHR 0x09], [CHR 0x0A], [CHR 0x0B], [CHR 0x0C], [CHR 0x0D], [CHR 0x20],
      [CHR 0xC2, CHR 0x85], [CHR 0xC2, CHR 0xA0], [CHR 0xE1, CHR 0x9A, CHR 0x80],
      [CHR 0xE2, CHR 0x80, CHR 0x80], [CHR 0xE2, CHR 0x80, CHR 0x81],
      [CHR 0xE2, CHR 0x80, CHR 0x82], [CHR 0xE2, CHR 0x80, CHR 0x83],
      [CHR 0xE2, CHR 0x80, CHR 0x84], [CHR 0xE2, CHR 0x80, CHR 0x85],
      [CHR 0xE2, CHR 0x80, CHR 0x86], [CHR 0xE2, CHR 0x80, CHR 0x87],
      [CHR 0xE2, CHR 0x80, CHR 0x88], [CHR 0xE2, CHR 0x80, CHR 0x89],
      [CHR 0xE2, CHR 0x80, CHR 0x8A], [CHR 0xE2, CHR 0x80, CHR 0xA8],
      [CHR 0xE2, CHR 0x80, CHR 0xA9], [CHR 0xE2, CHR 0x80, CHR 0xAF],
      [CHR 0xE2, CHR 0x81, CHR 0x9F], [CHR 0xE3, CHR 0x80, CHR 0x80]]"

function trim_left_of :: "'a list list \<Rightarrow> 'a list \<Rightarrow> 'a list" where
  "trim_left_of rs s =
     (case find (\<lambda>r. r \<noteq> [] \<and> prefix r s) rs of
        None \<Rightarrow> s
      | Some r \<Rightarrow> trim_left_of rs (drop (length r) s))"
  by pat_completeness auto
termination
  by (relation "measure (\<lambda>(rs, s). length s)")
    (auto simp: find_Some_iff prefix_def)

declare trim_left_of.simps [simp del]

lemma trim_left_of_stop: "find (\<lambda>r. r \<noteq> [] \<and> prefix r s) rs = None \<Longrightarrow> trim_left_of rs s = s"
  by (simp add: trim_left_of.simps)

lemma trim_left_of_done:
  "find (\<lambda>r. r \<noteq> [] \<and> prefix r (trim_left_of rs s)) rs = None"
proof (induction rs s rule: trim_left_of.induct)
  case (1 rs s)
  show ?case
  proof (cases "find (\<lambda>r. r \<noteq> [] \<and> prefix r s) rs")
    case None
    then show ?thesis by (simp add: trim_left_of_stop)
  next
    case (Some r)
    with "1.IH" [OF Some] show ?thesis by (subst trim_left_of.simps) simp
  qed
qed

lemma trim_left_of_idem [simp]: "trim_left_of rs (trim_left_of rs s) = trim_left_of rs s"
  by (rule trim_left_of_stop) (rule trim_left_of_done)

lemma trim_left_of_suffix: "suffix (trim_left_of rs s) s"
proof (induction rs s rule: trim_left_of.induct)
  case (1 rs s)
  show ?case
  proof (cases "find (\<lambda>r. r \<noteq> [] \<and> prefix r s) rs")
    case None
    then show ?thesis by (simp add: trim_left_of_stop)
  next
    case (Some r)
    have "suffix (drop (length r) s) s" by (rule suffix_drop)
    with "1.IH" [OF Some] Some show ?thesis
      by (subst trim_left_of.simps) (auto intro: suffix_order.trans)
  qed
qed

text \<open>\<^verbatim>\<open>strings.Trim\<close> with one ASCII character.\<close>

definition trim_char :: "char \<Rightarrow> string \<Rightarrow> string" where
  "trim_char c s = rev (dropWhile (\<lambda>x. x = c) (rev (dropWhile (\<lambda>x. x = c) s)))"

definition trim_space_left :: "string \<Rightarrow> string" where
  "trim_space_left s = trim_left_of space_runes s"

definition trim_space_right :: "string \<Rightarrow> string" where
  "trim_space_right s = rev (trim_left_of (map rev space_runes) (rev s))"

definition trim_space :: "string \<Rightarrow> string" where
  "trim_space s = trim_space_right (trim_space_left s)"

lemma trim_space_fixed_left: "trim_space_left (trim_space s) = trim_space s"
proof -
  let ?t = "trim_space_left s"
  have "suffix (trim_left_of (map rev space_runes) (rev ?t)) (rev ?t)"
    by (rule trim_left_of_suffix)
  then have pre: "prefix (trim_space s) ?t"
    by (simp add: trim_space_def trim_space_right_def suffix_to_prefix)
  have "find (\<lambda>r. r \<noteq> [] \<and> prefix r ?t) space_runes = None"
    unfolding trim_space_left_def by (rule trim_left_of_done)
  with pre have "find (\<lambda>r. r \<noteq> [] \<and> prefix r (trim_space s)) space_runes = None"
    by (auto simp: find_None_iff intro: prefix_order.trans)
  then show ?thesis unfolding trim_space_left_def by (rule trim_left_of_stop)
qed

lemma trim_space_idem [simp]: "trim_space (trim_space s) = trim_space s"
proof -
  have "trim_space (trim_space s) = trim_space_right (trim_space s)"
    using trim_space_fixed_left [of s] by (subst trim_space_def) simp
  then show ?thesis by (simp add: trim_space_def trim_space_right_def)
qed

section \<open>UTF-8\<close>

text \<open>
  One rune off the front of a byte sequence, by the acceptance table of Go's
  \<^verbatim>\<open>unicode/utf8\<close>: overlong forms, surrogates and values beyond U+10FFFF are refused.
\<close>

definition cont_byte :: "nat \<Rightarrow> bool" where
  "cont_byte b \<longleftrightarrow> 0x80 \<le> b \<and> b \<le> 0xBF"

fun decode_rune :: "nat list \<Rightarrow> (nat \<times> nat list) option" where
  "decode_rune [] = None"
| "decode_rune (a # r) =
     (if a < 0x80 then Some (a, r)
      else if 0xC2 \<le> a \<and> a \<le> 0xDF then
        (case r of
           b # r' \<Rightarrow> if cont_byte b then Some ((a - 0xC0) * 64 + (b - 0x80), r') else None
         | _ \<Rightarrow> None)
      else if 0xE0 \<le> a \<and> a \<le> 0xEF then
        (case r of
           b # c # r' \<Rightarrow>
             if cont_byte b \<and> cont_byte c \<and> (a = 0xE0 \<longrightarrow> 0xA0 \<le> b) \<and> (a = 0xED \<longrightarrow> b \<le> 0x9F)
             then Some ((a - 0xE0) * 4096 + (b - 0x80) * 64 + (c - 0x80), r') else None
         | _ \<Rightarrow> None)
      else if 0xF0 \<le> a \<and> a \<le> 0xF4 then
        (case r of
           b # c # d # r' \<Rightarrow>
             if cont_byte b \<and> cont_byte c \<and> cont_byte d \<and>
                (a = 0xF0 \<longrightarrow> 0x90 \<le> b) \<and> (a = 0xF4 \<longrightarrow> b \<le> 0x8F)
             then Some ((a - 0xF0) * 262144 + (b - 0x80) * 4096 + (c - 0x80) * 64 + (d - 0x80), r')
             else None
         | _ \<Rightarrow> None)
      else None)"

lemma decode_rune_shorter: "decode_rune bs = Some (r, rest) \<Longrightarrow> length rest < length bs"
  by (cases bs) (auto split: if_splits list.splits)

function runes_of :: "nat list \<Rightarrow> nat list option" where
  "runes_of bs =
     (if bs = [] then Some []
      else (case decode_rune bs of
              None \<Rightarrow> None
            | Some (r, rest) \<Rightarrow> map_option (\<lambda>rs. r # rs) (runes_of rest)))"
  by pat_completeness auto
termination
  by (relation "measure length") (auto dest: decode_rune_shorter)

declare runes_of.simps [simp del]

definition valid_utf8 :: "string \<Rightarrow> bool" where
  "valid_utf8 s \<longleftrightarrow> runes_of (map of_char s) \<noteq> None"

text \<open>Plain ASCII is valid UTF-8, and its runes are its bytes.\<close>

lemma runes_of_ascii: "(\<forall>b \<in> set bs. b < 128) \<Longrightarrow> runes_of bs = Some bs"
proof (induction bs)
  case Nil
  show ?case by (simp add: runes_of.simps)
next
  case (Cons b bs)
  then show ?case by (subst runes_of.simps) simp
qed

lemma valid_utf8_ascii: "(\<forall>c \<in> set s. (of_char c :: nat) < 128) \<Longrightarrow> valid_utf8 s"
  by (simp add: valid_utf8_def runes_of_ascii)

end
