(* ===== verification/Topic.thy ===== *)
theory Topic
  imports Prelude
begin

text \<open>
  \<^verbatim>\<open>internal/mqttc/topic.go\<close>: checking topic names and subscription filters, and matching
  one against the other. The matcher is compared with an inductive reading of the MQTT rules
  (\<open>mqtt_matches\<close>), which is the contract every consumer of the matcher relies on: the hub, the
  topic tree, the message history and the plugin runtime.
\<close>

section \<open>The code\<close>

abbreviation slash :: char where "slash \<equiv> CHR 0x2F"

definition maxTopicBytes :: nat where
  "maxTopicBytes = 65535"

datatype topic_error =
    Topic_Empty | Topic_TooLong | Topic_NotUtf8 | Topic_Wildcard | Topic_Null
  | Filter_Empty | Filter_TooLong | Filter_NotUtf8 | Filter_Null
  | Filter_HashNotLast | Filter_PartialWildcard

definition ValidateTopic :: "string \<Rightarrow> topic_error + unit" where
  "ValidateTopic topic =
     (if topic = [] then Inl Topic_Empty
      else if length topic > maxTopicBytes then Inl Topic_TooLong
      else if \<not> valid_utf8 topic then Inl Topic_NotUtf8
      else if contains_any topic ''+#'' then Inl Topic_Wildcard
      else if CHR 0x00 \<in> set topic then Inl Topic_Null
      else Inr ())"

text \<open>The loop over the levels of a filter; \<open>rest \<noteq> []\<close> is the code's \<open>i \<noteq> len(levels)-1\<close>.\<close>

fun check_levels :: "string list \<Rightarrow> topic_error + unit" where
  "check_levels [] = Inr ()"
| "check_levels (level # rest) =
     (if level = ''#'' then (if rest \<noteq> [] then Inl Filter_HashNotLast else check_levels rest)
      else if level = ''+'' then check_levels rest
      else if contains_any level ''+#'' then Inl Filter_PartialWildcard
      else check_levels rest)"

definition ValidateFilter :: "string \<Rightarrow> topic_error + unit" where
  "ValidateFilter flt =
     (if flt = [] then Inl Filter_Empty
      else if length flt > maxTopicBytes then Inl Filter_TooLong
      else if \<not> valid_utf8 flt then Inl Filter_NotUtf8
      else if CHR 0x00 \<in> set flt then Inl Filter_Null
      else check_levels (split_on slash flt))"

text \<open>The loop of \<^verbatim>\<open>MatchFilter\<close>, which walks both level lists with one index.\<close>

fun match_levels :: "string list \<Rightarrow> string list \<Rightarrow> bool" where
  "match_levels [] ts = (ts = [])"
| "match_levels (f # fl) ts =
     (if f = ''#'' then True
      else (case ts of
              [] \<Rightarrow> False
            | t # ts' \<Rightarrow> if f \<noteq> ''+'' \<and> f \<noteq> t then False else match_levels fl ts'))"

definition MatchFilter :: "string \<Rightarrow> string \<Rightarrow> bool" where
  "MatchFilter flt topic =
     (if flt = topic then True
      else
        let fl = split_on slash flt; ts = split_on slash topic
        in if ts \<noteq> [] \<and> prefix ''$'' (hd ts) \<and> fl \<noteq> [] \<and> (hd fl = ''#'' \<or> hd fl = ''+'')
           then False
           else match_levels fl ts)"

section \<open>The MQTT matching rules\<close>

text \<open>
  Section 4.7 of the MQTT specification, level by level: \<open>#\<close> stands for any number of levels,
  none included (so \<open>sport/#\<close> matches \<open>sport\<close>); \<open>+\<close> for exactly one; any other level for itself.
\<close>

inductive mqtt_matches :: "string list \<Rightarrow> string list \<Rightarrow> bool" where
  finished: "mqtt_matches [] []"
| hash: "mqtt_matches [''#''] ts"
| plus: "mqtt_matches fs ts \<Longrightarrow> mqtt_matches (''+'' # fs) (t # ts)"
| level: "f \<noteq> ''+'' \<Longrightarrow> f \<noteq> ''#'' \<Longrightarrow> mqtt_matches fs ts \<Longrightarrow> mqtt_matches (f # fs) (f # ts)"

inductive_simps mqtt_matches_NilL [simp]: "mqtt_matches [] ts"
inductive_simps mqtt_matches_ConsNil: "mqtt_matches (f # fs) []"
inductive_simps mqtt_matches_ConsCons: "mqtt_matches (f # fs) (t # ts)"

text \<open>A topic in a namespace reserved by the broker, such as \<open>$SYS\<close>.\<close>

definition reserved_topic :: "string \<Rightarrow> bool" where
  "reserved_topic topic \<longleftrightarrow> prefix ''$'' topic"

definition wild_first_level :: "string \<Rightarrow> bool" where
  "wild_first_level flt \<longleftrightarrow> hd (split_on slash flt) \<in> {''#'', ''+''}"

section \<open>Lemmas\<close>

lemma check_levels_Cons_OK:
  "check_levels (f # fs) = Inr () \<Longrightarrow>
     (f = ''#'' \<longrightarrow> fs = []) \<and> (f = ''#'' \<or> f = ''+'' \<or> \<not> contains_any f ''+#'') \<and>
     check_levels fs = Inr ()"
  by (auto split: if_splits)

lemma match_levels_iff_mqtt:
  "check_levels fs = Inr () \<Longrightarrow> match_levels fs ts \<longleftrightarrow> mqtt_matches fs ts"
proof (induction fs ts rule: match_levels.induct)
  case (2 f fs ts)
  from check_levels_Cons_OK [OF "2.prems"] have f: "f = ''#'' \<longrightarrow> fs = []" and ok: "check_levels fs = Inr ()"
    by auto
  show ?case
  proof (cases ts)
    case Nil
    with f show ?thesis by (auto simp: mqtt_matches_ConsNil)
  next
    case (Cons t ts')
    with f "2.IH" [of t ts'] ok show ?thesis by (auto simp: mqtt_matches_ConsCons)
  qed
qed simp

lemma mqtt_matches_self: "(\<And>f. f \<in> set fs \<Longrightarrow> f \<noteq> ''+'' \<and> f \<noteq> ''#'') \<Longrightarrow> mqtt_matches fs fs"
  by (induction fs) (auto intro: mqtt_matches.intros)

lemma match_levels_self: "match_levels fs fs"
  by (induction fs) auto

lemma set_split_on_sub: "p \<in> set (split_on c xs) \<Longrightarrow> set p \<subseteq> set xs"
proof (induction xs arbitrary: p)
  case (Cons x xs)
  obtain y ys where s: "split_on c xs = y # ys" by (cases "split_on c xs") simp_all
  with Cons.IH [of y] have "set y \<subseteq> set xs" by simp
  moreover have "set p \<subseteq> set xs" if "p \<in> set ys"
    using Cons.IH [of p] s that by simp
  ultimately show ?case using Cons.prems s by (auto split: if_splits)
qed simp

lemma ValidateTopic_no_wildcard:
  assumes "ValidateTopic topic = Inr ()"
  shows "CHR 0x2B \<notin> set topic" and "CHR 0x23 \<notin> set topic"
  using assms by (auto simp: ValidateTopic_def contains_any_def split: if_splits)

lemma ValidateTopic_levels:
  assumes "ValidateTopic topic = Inr ()" and "l \<in> set (split_on slash topic)"
  shows "l \<noteq> ''+'' \<and> l \<noteq> ''#''"
  using ValidateTopic_no_wildcard [OF assms(1)] set_split_on_sub [OF assms(2)] by auto

lemma hd_split_prefix:
  "c \<noteq> d \<Longrightarrow> prefix [d] (hd (split_on c xs)) \<longleftrightarrow> prefix [d] xs"
  by (cases xs) (auto split: list.splits)

lemma ValidateFilter_levels: "ValidateFilter f = Inr () \<Longrightarrow> check_levels (split_on slash f) = Inr ()"
  by (auto simp: ValidateFilter_def split: if_splits)

text \<open>A filter without wildcards matches its own topic and no other.\<close>

lemma match_levels_exact:
  "(\<And>f. f \<in> set fs \<Longrightarrow> f \<noteq> ''+'' \<and> f \<noteq> ''#'') \<Longrightarrow> match_levels fs ts \<longleftrightarrow> fs = ts"
proof (induction fs ts rule: match_levels.induct)
  case (2 f fs ts)
  then show ?case by (cases ts) auto
qed auto

lemma MatchFilter_exact:
  assumes "ValidateTopic f = Inr ()"
  shows "MatchFilter f t \<longleftrightarrow> f = t"
proof -
  have m: "match_levels (split_on slash f) ts \<longleftrightarrow> split_on slash f = ts" for ts
    by (rule match_levels_exact) (rule ValidateTopic_levels [OF assms])
  have "hd (split_on slash f) \<noteq> ''+'' \<and> hd (split_on slash f) \<noteq> ''#''"
    by (rule ValidateTopic_levels [OF assms]) (simp add: hd_in_set)
  then show ?thesis by (auto simp: MatchFilter_def m dest: split_on_inj)
qed

text \<open>A filter ending in \<open>/#\<close> matches the parent topic and everything below it.\<close>

lemma match_levels_hash:
  "(\<And>f. f \<in> set fs \<Longrightarrow> f \<noteq> ''+'' \<and> f \<noteq> ''#'') \<Longrightarrow>
     match_levels (fs @ [''#'']) ts \<longleftrightarrow> prefix fs ts"
proof (induction fs arbitrary: ts)
  case (Cons f fs)
  then show ?case by (cases ts) auto
qed simp

section \<open>Properties\<close>

text \<open>
  C1. For a filter and a topic the code's own checks accept, \<^verbatim>\<open>MatchFilter\<close> decides exactly the
  MQTT matching relation, with the one exception the specification makes: a filter that starts
  with a wildcard level never matches a topic in a reserved (\<open>$\<close>) namespace.
\<close>

theorem MatchFilter_implements_mqtt:
  assumes f: "ValidateFilter flt = Inr ()" and t: "ValidateTopic topic = Inr ()"
  shows "MatchFilter flt topic \<longleftrightarrow>
           mqtt_matches (split_on slash flt) (split_on slash topic) \<and>
           \<not> (reserved_topic topic \<and> wild_first_level flt)"
proof (cases "flt = topic")
  case True
  have "hd (split_on slash topic) \<noteq> ''+'' \<and> hd (split_on slash topic) \<noteq> ''#''"
    by (rule ValidateTopic_levels [OF t]) (simp add: hd_in_set)
  moreover have "mqtt_matches (split_on slash topic) (split_on slash topic)"
    by (rule mqtt_matches_self) (rule ValidateTopic_levels [OF t])
  ultimately show ?thesis using True by (simp add: MatchFilter_def wild_first_level_def)
next
  case False
  have p: "prefix ''$'' (hd (split_on slash topic)) \<longleftrightarrow> prefix ''$'' topic"
    by (rule hd_split_prefix) simp
  have m: "match_levels (split_on slash flt) (split_on slash topic)
             \<longleftrightarrow> mqtt_matches (split_on slash flt) (split_on slash topic)"
    by (rule match_levels_iff_mqtt) (rule ValidateFilter_levels [OF f])
  from False show ?thesis
    unfolding MatchFilter_def reserved_topic_def wild_first_level_def Let_def m p by auto
qed

theorem MatchFilter_implements_mqtt_witness:
  "MatchFilter ''home/+/#'' ''home/kitchen'' \<longleftrightarrow>
     mqtt_matches (split_on slash ''home/+/#'') (split_on slash ''home/kitchen'') \<and>
     \<not> (reserved_topic ''home/kitchen'' \<and> wild_first_level ''home/+/#'')"
  by (rule MatchFilter_implements_mqtt)
    (simp_all add: ValidateFilter_def ValidateTopic_def maxTopicBytes_def valid_utf8_ascii contains_any_def)

end
