(* ===== verification/Numbers.thy ===== *)
theory Numbers
  imports Prelude
begin

text \<open>
  What the source uses of Go's \<^verbatim>\<open>strconv\<close> on whole numbers: rendering in base ten
  (\<^verbatim>\<open>FormatInt\<close>, \<^verbatim>\<open>FormatUint\<close>, \<^verbatim>\<open>Itoa\<close>, the verb \<open>%d\<close>) and reading a 64-bit number
  back (\<^verbatim>\<open>ParseInt(s, 10, 64)\<close>, \<^verbatim>\<open>Atoi\<close>), errors as \<^const>\<open>None\<close>.
\<close>

fun nat_string :: "nat \<Rightarrow> string" where
  "nat_string n =
     (if n < 10 then [char_of (48 + n)] else nat_string (n div 10) @ [char_of (48 + n mod 10)])"

declare nat_string.simps [simp del]

definition int_string :: "int \<Rightarrow> string" where
  "int_string i = (if i < 0 then CHR 0x2D # nat_string (nat (- i)) else nat_string (nat i))"

definition digit_val :: "char \<Rightarrow> nat option" where
  "digit_val c =
     (let n = (of_char c :: nat) in if 48 \<le> n \<and> n \<le> 57 then Some (n - 48) else None)"

fun parse_digits :: "nat \<Rightarrow> string \<Rightarrow> nat option" where
  "parse_digits acc [] = Some acc"
| "parse_digits acc (c # cs) =
     (case digit_val c of None \<Rightarrow> None | Some d \<Rightarrow> parse_digits (10 * acc + d) cs)"

definition parse_nat :: "string \<Rightarrow> nat option" where
  "parse_nat s = (if s = [] then None else parse_digits 0 s)"

definition ParseInt :: "string \<Rightarrow> int option" where
  "ParseInt s =
     (case s of
        [] \<Rightarrow> None
      | c # cs \<Rightarrow>
          if c = CHR 0x2D then
            (case parse_nat cs of
               None \<Rightarrow> None | Some n \<Rightarrow> if n \<le> 2 ^ 63 then Some (- int n) else None)
          else
            (case parse_nat (if c = CHR 0x2B then cs else s) of
               None \<Rightarrow> None | Some n \<Rightarrow> if n < 2 ^ 63 then Some (int n) else None))"

text \<open>\<^verbatim>\<open>strconv.ParseBool\<close>.\<close>

definition ParseBool :: "string \<Rightarrow> bool option" where
  "ParseBool s =
     (if s \<in> {''1'', ''t'', ''T'', ''true'', ''TRUE'', ''True''} then Some True
      else if s \<in> {''0'', ''f'', ''F'', ''false'', ''FALSE'', ''False''} then Some False else None)"

lemma digit_val_digit [simp]: "d < 10 \<Longrightarrow> digit_val (char_of (48 + d)) = Some d"
  by (simp add: digit_val_def)

lemma parse_digits_append:
  "parse_digits acc (xs @ ys) = Option.bind (parse_digits acc xs) (\<lambda>n. parse_digits n ys)"
  by (induction xs arbitrary: acc) (auto split: option.splits)

lemma nat_string_not_Nil [simp]: "nat_string n \<noteq> []"
  by (subst nat_string.simps) simp

lemma parse_digits_nat_string [simp]: "parse_digits 0 (nat_string n) = Some n"
proof (induction n rule: nat_string.induct)
  case (1 n)
  then show ?case
    by (subst nat_string.simps) (simp add: parse_digits_append)
qed

lemma parse_nat_string [simp]: "parse_nat (nat_string n) = Some n"
  by (simp add: parse_nat_def)

lemma nat_string_inj: "nat_string m = nat_string n \<Longrightarrow> m = n"
  by (metis option.inject parse_nat_string)

text \<open>Every character of a rendered number is a digit.\<close>

lemma nat_string_digits: "c \<in> set (nat_string n) \<Longrightarrow> digit_val c \<noteq> None"
proof (induction n rule: nat_string.induct)
  case (1 n)
  then show ?case
    by (subst (asm) (2) nat_string.simps) (auto split: if_splits)
qed

lemma nat_string_hd: "nat_string n = c # cs \<Longrightarrow> c \<noteq> CHR 0x2D \<and> c \<noteq> CHR 0x2B"
  using nat_string_digits [of c n] by (auto simp: digit_val_def)

text \<open>Reading a rendered 64-bit number gives the number back.\<close>

lemma ParseInt_int_string:
  assumes "- (2 ^ 63) \<le> i" and "i < 2 ^ 63"
  shows "ParseInt (int_string i) = Some i"
proof (cases "i < 0")
  case True
  with assms have "nat (- i) \<le> 2 ^ 63" by simp
  with True show ?thesis by (simp add: ParseInt_def int_string_def)
next
  case False
  obtain c cs where c: "nat_string (nat i) = c # cs" by (cases "nat_string (nat i)") simp_all
  with nat_string_hd [OF c] have "ParseInt (nat_string (nat i)) =
      (if nat i < 2 ^ 63 then Some (int (nat i)) else None)"
    using parse_nat_string [of "nat i"] by (simp add: ParseInt_def)
  with False assms show ?thesis by (simp add: int_string_def nat_less_iff)
qed

lemma ParseInt_range: "ParseInt s = Some i \<Longrightarrow> - (2 ^ 63) \<le> i \<and> i < 2 ^ 63"
  by (auto simp: ParseInt_def split: list.splits if_splits option.splits)

end
