(* ===== verification/Message.thy ===== *)
theory Message
  imports Topic Numbers
begin

text \<open>
  \<^verbatim>\<open>internal/mqttc/types.go\<close>: the data every other component passes around (messages,
  subscriptions, connection definitions, connection status), the
  normalisation of which is in the theory \<open>Spec\<close>.

  Parsing and printing URLs is Go's \<^verbatim>\<open>net/url\<close>; what uses it takes the two functions as
  arguments. \<^verbatim>\<open>URL.Port\<close> is modelled.
\<close>

section \<open>Protocol versions\<close>

type_synonym Version = int

definition V31 :: Version where "V31 = 3"
definition V311 :: Version where "V311 = 4"
definition V5 :: Version where "V5 = 5"

definition ParseVersion :: "string \<Rightarrow> string + Version" where
  "ParseVersion s =
     (let t = trim_space s in
      if t \<in> {''3'', ''3.1'', ''v3'', ''v3.1''} then Inr V31
      else if t \<in> {''4'', ''3.1.1'', ''v4'', ''v3.1.1'', []} then Inr V311
      else if t \<in> {''5'', ''5.0'', ''v5'', ''v5.0''} then Inr V5
      else Inl s)"

definition Version_String :: "Version \<Rightarrow> string" where
  "Version_String v =
     (if v = V31 then ''3.1'' else if v = V311 then ''3.1.1'' else if v = V5 then ''5.0''
      else ''unknown('' @ int_string v @ '')'')"

definition Version_Valid :: "Version \<Rightarrow> bool" where
  "Version_Valid v \<longleftrightarrow> v = V31 \<or> v = V311 \<or> v = V5"

section \<open>Subscriptions, TLS, wills, connection definitions\<close>

record Subscription =
  sub_filter :: string
  sub_qos :: nat
  sub_noLocal :: bool
  sub_retainAsPublished :: bool
  sub_retainHandling :: nat

record TLSSpec =
  tls_insecureSkipVerify :: bool
  tls_serverName :: string
  tls_caPEM :: string
  tls_clientCertPEM :: string
  tls_clientKeyPEM :: string
  tls_minVersion :: string
  tls_alpn :: "string list"

record Will =
  will_topic :: string
  will_payload :: string
  will_qos :: nat
  will_retain :: bool
  will_delayInterval :: nat

record ConnectionSpec =
  cs_id :: string
  cs_name :: string
  cs_url :: string
  cs_version :: Version
  cs_clientID :: string
  cs_username :: string
  cs_password :: string
  cs_keepAlive :: int
  cs_cleanStart :: bool
  cs_sessionExpiry :: nat
  cs_connectTimeout :: int
  cs_tls :: TLSSpec
  cs_will :: "Will option"
  cs_subscriptions :: "Subscription list"
  cs_autoConnect :: bool
  cs_sysStats :: bool
  cs_recordToDisk :: bool
  cs_recordKeep :: int
  cs_historySize :: int
  cs_topicLogEntries :: int
  cs_topicLogBudget :: int

section \<open>Messages and status\<close>

record MessageProps =
  mp_contentType :: string
  mp_responseTopic :: string
  mp_correlationData :: bytes
  mp_payloadFormat :: "nat option"
  mp_messageExpiry :: "nat option"
  mp_user :: "string \<rightharpoonup> string"

record Message =
  msg_connectionID :: string
  msg_topic :: string
  msg_payload :: bytes
  msg_qos :: nat
  msg_retain :: bool
  msg_duplicate :: bool
  msg_receivedAt :: time
  msg_seq :: nat
  msg_truncated :: bool
  msg_props :: "MessageProps option"

text \<open>The zero value of the struct, which fills the slots of a ring nothing was written to.\<close>

definition zero_message :: Message where
  "zero_message = \<lparr>msg_connectionID = [], msg_topic = [], msg_payload = [], msg_qos = 0,
     msg_retain = False, msg_duplicate = False, msg_receivedAt = 0, msg_seq = 0,
     msg_truncated = False, msg_props = None\<rparr>"

record PublishRequest =
  pub_topic :: string
  pub_payload :: bytes
  pub_qos :: nat
  pub_retain :: bool
  pub_props :: "MessageProps option"

datatype State = StateDisconnected | StateConnecting | StateConnected | StateError

record Status =
  st_connectionID :: string
  st_state :: State
  st_since :: time
  st_connectedAt :: "time option"
  st_lastError :: string
  st_attempts :: nat
  st_received :: nat
  st_sent :: nat
  st_sessionPresent :: bool
  st_version :: string

section \<open>Schemes, ports\<close>

datatype spec_error =
    Spec_NameRequired | Spec_UrlRequired | Spec_UrlParse | Spec_Scheme string | Spec_NoHost
  | Spec_Version int | Spec_UnixV5 | Spec_KeepAlive
  | Spec_Filter topic_error | Spec_SubQos string | Spec_RetainHandling string
  | Spec_WillTopic topic_error | Spec_WillQos | Spec_TlsMinVersion | Spec_TlsPair

definition normalizeScheme :: "string \<Rightarrow> spec_error + string" where
  "normalizeScheme scheme =
     (let l = to_lower scheme in
      if l \<in> {[], ''mqtt'', ''tcp''} then Inr ''tcp''
      else if l \<in> {''mqtts'', ''ssl'', ''tls'', ''tcps'', ''mqtt+ssl''} then Inr ''ssl''
      else if l = ''ws'' then Inr ''ws''
      else if l = ''wss'' then Inr ''wss''
      else if l = ''unix'' then Inr ''unix''
      else Inl (Spec_Scheme scheme))"

definition defaultPort :: "string \<Rightarrow> string" where
  "defaultPort scheme =
     (if scheme = ''ssl'' then ''8883'' else if scheme = ''ws'' then ''8083''
      else if scheme = ''wss'' then ''8084'' else ''1883'')"

text \<open>
  The parts of a \<^verbatim>\<open>url.URL\<close> the code reads or writes; \<open>u_rest\<close> is everything else (path, query,
  fragment), which it leaves alone. \<open>url_port\<close> is \<^verbatim>\<open>URL.Port\<close>: what follows the last colon of
  the host, if those characters are all digits.
\<close>

record Url =
  u_scheme :: string
  u_user :: "(string \<times> string option) option"
  u_host :: string
  u_rest :: string

definition url_port :: "string \<Rightarrow> string" where
  "url_port host =
     (let after = takeWhile (\<lambda>c. c \<noteq> CHR 0x3A) (rev host) in
      if CHR 0x3A \<in> set host \<and> (\<forall>c \<in> set after. digit_val c \<noteq> None) then rev after else [])"

definition spec_scheme :: "(string \<Rightarrow> Url option) \<Rightarrow> ConnectionSpec \<Rightarrow> string" where
  "spec_scheme parse s = (case parse (cs_url s) of None \<Rightarrow> [] | Some u \<Rightarrow> u_scheme u)"

definition UsesTLS :: "(string \<Rightarrow> Url option) \<Rightarrow> ConnectionSpec \<Rightarrow> bool" where
  "UsesTLS parse s =
     (let scheme = spec_scheme parse s in scheme = ''ssl'' \<or> scheme = ''wss'')"

end
