(* ===== verification/Spec.thy ===== *)
theory Spec
  imports Message
begin

text \<open>
  \<^verbatim>\<open>ConnectionSpec.Normalize\<close> of \<^verbatim>\<open>internal/mqttc/types.go\<close>, in the stages the code has: name, URL,
  version and numbers, subscriptions, will and TLS. \<open>sane_spec\<close> is what the rest of the package
  assumes of a definition that has been through it.
\<close>

section \<open>The code\<close>

text \<open>
  The URL stage: a missing scheme becomes \<open>mqtt\<close>, the scheme is made canonical, a missing port is
  filled in, and credentials move out of the URL. \<open>parse\<close> and \<open>render\<close> are \<^verbatim>\<open>url.Parse\<close> and
  \<^verbatim>\<open>URL.String\<close>. The result carries the scheme, which later checks read.
\<close>

definition normalize_url ::
  "(string \<Rightarrow> Url option) \<Rightarrow> (Url \<Rightarrow> string) \<Rightarrow> ConnectionSpec \<Rightarrow> spec_error + (ConnectionSpec \<times> string)"
where
  "normalize_url parse render s =
     (let url = trim_space (cs_url s) in
      if url = [] then Inl Spec_UrlRequired
      else
        let url = (if contains_sub url ''://'' then url else ''mqtt://'' @ url) in
        case parse url of
          None \<Rightarrow> Inl Spec_UrlParse
        | Some u \<Rightarrow>
           (case normalizeScheme (u_scheme u) of
              Inl e \<Rightarrow> Inl e
            | Inr scheme \<Rightarrow>
               if u_host u = [] \<and> scheme \<noteq> ''unix'' then Inl Spec_NoHost
               else
                 let host = (if url_port (u_host u) = [] \<and> scheme \<noteq> ''unix''
                             then u_host u @ '':'' @ defaultPort scheme else u_host u);
                     (user, pw) =
                       (case u_user u of
                          None \<Rightarrow> (cs_username s, cs_password s)
                        | Some (name, p) \<Rightarrow>
                            (if cs_username s = [] then name else cs_username s,
                             (case p of
                                None \<Rightarrow> cs_password s
                              | Some p' \<Rightarrow> if cs_password s = [] then p' else cs_password s)));
                     u' = u\<lparr>u_scheme := scheme, u_host := host, u_user := None\<rparr>
                 in Inr (s\<lparr>cs_url := render u', cs_username := user, cs_password := pw\<rparr>, scheme)))"

text \<open>Versions and numbers. \<open>fresh\<close> is the random suffix \<^verbatim>\<open>shortID\<close> returns.\<close>

definition normalize_numbers :: "string \<Rightarrow> string \<Rightarrow> ConnectionSpec \<Rightarrow> spec_error + ConnectionSpec" where
  "normalize_numbers fresh scheme s =
     (let version = (if cs_version s = 0 then V311 else cs_version s) in
      if \<not> Version_Valid version then Inl (Spec_Version version)
      else if version = V5 \<and> scheme = ''unix'' then Inl Spec_UnixV5
      else
        let clientID = (if cs_clientID s = [] then ''mqttview-'' @ fresh else cs_clientID s);
            keepAlive = (if cs_keepAlive s \<le> 0 then 60 else cs_keepAlive s)
        in if keepAlive > 65535 then Inl Spec_KeepAlive
           else
             let timeout = (if cs_connectTimeout s \<le> 0 then 10 else cs_connectTimeout s)
             in Inr (s\<lparr>cs_version := version, cs_clientID := clientID, cs_keepAlive := keepAlive,
                       cs_connectTimeout := timeout\<rparr>))"

text \<open>The loop over the subscriptions; \<open>seen\<close> is the code's set of filters already kept.\<close>

fun normalize_subs :: "string set \<Rightarrow> Subscription list \<Rightarrow> spec_error + Subscription list" where
  "normalize_subs seen [] = Inr []"
| "normalize_subs seen (sub # rest) =
     (let f = trim_space (sub_filter sub) in
      if f = [] then normalize_subs seen rest
      else case ValidateFilter f of
        Inl e \<Rightarrow> Inl (Spec_Filter e)
      | Inr _ \<Rightarrow>
         if sub_qos sub > 2 then Inl (Spec_SubQos f)
         else if sub_retainHandling sub > 2 then Inl (Spec_RetainHandling f)
         else if f \<in> seen then normalize_subs seen rest
         else map_sum id (\<lambda>subs. sub\<lparr>sub_filter := f\<rparr> # subs)
                (normalize_subs (insert f seen) rest))"

definition check_will_tls :: "ConnectionSpec \<Rightarrow> spec_error + unit" where
  "check_will_tls s =
     (case (case cs_will s of
              None \<Rightarrow> Inr ()
            | Some w \<Rightarrow>
                (case ValidateTopic (will_topic w) of
                   Inl e \<Rightarrow> Inl (Spec_WillTopic e)
                 | Inr _ \<Rightarrow> if will_qos w > 2 then Inl Spec_WillQos else Inr ())) of
        Inl e \<Rightarrow> Inl e
      | Inr _ \<Rightarrow>
         if tls_minVersion (cs_tls s) \<notin> {[], ''1.2'', ''1.3''} then Inl Spec_TlsMinVersion
         else if (tls_clientCertPEM (cs_tls s) = []) \<noteq> (tls_clientKeyPEM (cs_tls s) = [])
         then Inl Spec_TlsPair
         else Inr ())"

definition Normalize ::
  "(string \<Rightarrow> Url option) \<Rightarrow> (Url \<Rightarrow> string) \<Rightarrow> string \<Rightarrow> ConnectionSpec \<Rightarrow> spec_error + ConnectionSpec"
where
  "Normalize parse render fresh s =
     (let s = s\<lparr>cs_name := trim_space (cs_name s)\<rparr> in
      if cs_name s = [] then Inl Spec_NameRequired
      else case normalize_url parse render s of
        Inl e \<Rightarrow> Inl e
      | Inr (s, scheme) \<Rightarrow>
         (case normalize_numbers fresh scheme s of
            Inl e \<Rightarrow> Inl e
          | Inr s \<Rightarrow>
             (case normalize_subs {} (cs_subscriptions s) of
                Inl e \<Rightarrow> Inl e
              | Inr subs \<Rightarrow>
                 (let s = s\<lparr>cs_subscriptions := subs\<rparr> in
                  case check_will_tls s of Inl e \<Rightarrow> Inl e | Inr _ \<Rightarrow> Inr s))))"

section \<open>What a normalised definition is\<close>

definition sane_sub :: "Subscription \<Rightarrow> bool" where
  "sane_sub sub \<longleftrightarrow>
     trim_space (sub_filter sub) = sub_filter sub \<and> sub_filter sub \<noteq> [] \<and>
     ValidateFilter (sub_filter sub) = Inr () \<and> sub_qos sub \<le> 2 \<and> sub_retainHandling sub \<le> 2"

definition sane_will :: "Will option \<Rightarrow> bool" where
  "sane_will w \<longleftrightarrow>
     (case w of None \<Rightarrow> True | Some w \<Rightarrow> ValidateTopic (will_topic w) = Inr () \<and> will_qos w \<le> 2)"

definition sane_tls :: "TLSSpec \<Rightarrow> bool" where
  "sane_tls t \<longleftrightarrow>
     tls_minVersion t \<in> {[], ''1.2'', ''1.3''} \<and>
     (tls_clientCertPEM t = [] \<longleftrightarrow> tls_clientKeyPEM t = [])"

definition sane_spec :: "ConnectionSpec \<Rightarrow> bool" where
  "sane_spec s \<longleftrightarrow>
     cs_name s \<noteq> [] \<and> trim_space (cs_name s) = cs_name s \<and>
     Version_Valid (cs_version s) \<and> cs_clientID s \<noteq> [] \<and>
     1 \<le> cs_keepAlive s \<and> cs_keepAlive s \<le> 65535 \<and> 1 \<le> cs_connectTimeout s \<and>
     (\<forall>sub \<in> set (cs_subscriptions s). sane_sub sub) \<and>
     distinct (map sub_filter (cs_subscriptions s)) \<and>
     sane_will (cs_will s) \<and> sane_tls (cs_tls s)"

section \<open>Lemmas\<close>

lemma check_will_tls_OK: "check_will_tls s = Inr () \<longleftrightarrow> sane_will (cs_will s) \<and> sane_tls (cs_tls s)"
  by (auto simp: check_will_tls_def sane_will_def sane_tls_def split: option.splits sum.splits if_splits)

lemma normalize_subs_ConsD:
  assumes "normalize_subs seen (sub # rest) = Inr subs'"
  shows "normalize_subs seen rest = Inr subs' \<or>
    (\<exists>sub' subs''. sane_sub sub' \<and> sub_filter sub' \<notin> seen \<and> subs' = sub' # subs'' \<and>
       normalize_subs (insert (sub_filter sub') seen) rest = Inr subs'')"
  using assms by (force simp: Let_def sane_sub_def split: if_splits sum.splits)

lemma normalize_subs_sane:
  "normalize_subs seen subs = Inr subs' \<Longrightarrow>
     (\<forall>sub \<in> set subs'. sane_sub sub) \<and> distinct (map sub_filter subs') \<and>
     sub_filter ` set subs' \<inter> seen = {}"
proof (induction subs arbitrary: seen subs')
  case (Cons sub rest)
  from normalize_subs_ConsD [OF Cons.prems] show ?case
    by (elim disjE exE conjE) (auto dest!: Cons.IH)
qed simp

lemma normalize_subs_id:
  "(\<forall>sub \<in> set subs. sane_sub sub) \<Longrightarrow> distinct (map sub_filter subs) \<Longrightarrow>
     sub_filter ` set subs \<inter> seen = {} \<Longrightarrow> normalize_subs seen subs = Inr subs"
proof (induction subs arbitrary: seen)
  case (Cons sub subs)
  then have "normalize_subs (insert (sub_filter sub) seen) subs = Inr subs"
    by (intro Cons.IH) auto
  with Cons.prems show ?case by (auto simp: sane_sub_def)
qed simp

lemma normalize_numbers_sane:
  "normalize_numbers fresh scheme s = Inr s' \<Longrightarrow>
     Version_Valid (cs_version s') \<and> cs_clientID s' \<noteq> [] \<and> 1 \<le> cs_keepAlive s' \<and>
     cs_keepAlive s' \<le> 65535 \<and> 1 \<le> cs_connectTimeout s' \<and>
     cs_name s' = cs_name s \<and> cs_subscriptions s' = cs_subscriptions s"
  by (auto simp: normalize_numbers_def Let_def split: if_splits)

lemma normalize_url_frame:
  "normalize_url parse render s = Inr (s', scheme) \<Longrightarrow>
     cs_name s' = cs_name s \<and> cs_subscriptions s' = cs_subscriptions s"
  by (auto simp: normalize_url_def Let_def split: if_splits option.splits sum.splits prod.splits)

text \<open>\<^verbatim>\<open>Normalize\<close> taken apart: what each stage was given and returned.\<close>

lemma Normalize_stages:
  assumes "Normalize parse render fresh s = Inr s'"
  obtains s1 s2 scheme subs where
    "trim_space (cs_name s) \<noteq> []"
    "normalize_url parse render (s\<lparr>cs_name := trim_space (cs_name s)\<rparr>) = Inr (s1, scheme)"
    "normalize_numbers fresh scheme s1 = Inr s2"
    "normalize_subs {} (cs_subscriptions s2) = Inr subs"
    "s' = s2\<lparr>cs_subscriptions := subs\<rparr>" "check_will_tls s' = Inr ()"
  using assms by (auto simp: Normalize_def Let_def split: if_splits sum.splits)

lemma normalizeScheme_idem: "normalizeScheme a = Inr b \<Longrightarrow> normalizeScheme b = Inr b"
  by (auto simp: normalizeScheme_def Let_def to_lower_def lower_char_def split: if_splits)

lemma url_port_append:
  "(\<forall>c \<in> set p. digit_val c \<noteq> None) \<Longrightarrow> url_port (h @ '':'' @ p) = p"
proof -
  assume d: "\<forall>c \<in> set p. digit_val c \<noteq> None"
  have "digit_val CHR 0x3A = None" by (simp add: digit_val_def)
  with d have ne: "\<forall>c \<in> set (rev p). c \<noteq> CHR 0x3A" by auto
  then have "takeWhile (\<lambda>c. c \<noteq> CHR 0x3A) (rev p @ CHR 0x3A # rev h) = rev p"
    by (subst takeWhile_append2) auto
  with d show ?thesis by (simp add: url_port_def)
qed

lemma url_port_default: "url_port (h @ '':'' @ defaultPort scheme) = defaultPort scheme"
  by (rule url_port_append) (simp add: defaultPort_def digit_val_def)

lemma defaultPort_not_Nil [simp]: "defaultPort scheme \<noteq> []"
  by (simp add: defaultPort_def)

text \<open>What the URL stage leaves behind: canonical scheme, no credentials, a host with a port.\<close>

definition sane_url :: "Url \<Rightarrow> bool" where
  "sane_url u \<longleftrightarrow>
     u_user u = None \<and> normalizeScheme (u_scheme u) = Inr (u_scheme u) \<and>
     (u_scheme u \<noteq> ''unix'' \<longrightarrow> u_host u \<noteq> [] \<and> url_port (u_host u) \<noteq> [])"

lemma normalize_url_sane:
  assumes "normalize_url parse render s = Inr (s', scheme)"
  obtains u where "sane_url u" "u_scheme u = scheme" "cs_url s' = render u"
proof -
  have pair: "(case x of (a, b) \<Rightarrow> Inr (f a b, c)) = Inr (r, d) \<Longrightarrow> \<exists>a b. r = f a b \<and> c = d"
    for x :: "string \<times> string" and f :: "_ \<Rightarrow> _ \<Rightarrow> ConnectionSpec" and c d :: string and r
    by (cases x) auto
  from assms obtain u where u: "normalizeScheme (u_scheme u) = Inr scheme"
      "\<not> (u_host u = [] \<and> scheme \<noteq> ''unix'')"
      "cs_url s' = render (u\<lparr>u_scheme := scheme,
         u_host := if url_port (u_host u) = [] \<and> scheme \<noteq> ''unix''
                   then u_host u @ '':'' @ defaultPort scheme else u_host u,
         u_user := None\<rparr>)"
    by (fastforce simp: normalize_url_def Let_def dest!: pair split: if_splits option.splits sum.splits)
  show thesis
    by (rule that [OF _ _ u(3)])
      (use u(1,2) in \<open>auto simp: sane_url_def normalizeScheme_idem url_port_default [simplified]\<close>)
qed

lemma normalize_url_fixed:
  assumes "sane_url u" and "cs_url s = render u" and "parse (render u) = Some u"
    and "trim_space (render u) = render u" and "contains_sub (render u) ''://''"
  shows "normalize_url parse render s = Inr (s, u_scheme u)"
proof -
  have ne: "render u \<noteq> []" using assms(5) by auto
  obtain sc h r where u: "u = \<lparr>u_scheme = sc, u_user = None, u_host = h, u_rest = r\<rparr>"
    using assms(1) by (cases u) (simp add: sane_url_def)
  have s: "s\<lparr>cs_url := render u\<rparr> = s"
    using assms(2) by (cases s) simp
  from assms(1) have sane: "normalizeScheme sc = Inr sc" "sc = ''unix'' \<or> h \<noteq> [] \<and> url_port h \<noteq> []"
    by (auto simp: sane_url_def u)
  show ?thesis
    using sane ne s assms(2-5) by (auto simp: normalize_url_def u)
qed

lemma normalize_numbers_fixed:
  assumes "sane_spec s" and "\<not> (cs_version s = V5 \<and> scheme = ''unix'')"
  shows "normalize_numbers fresh scheme s = Inr s"
proof -
  have "cs_version s \<noteq> 0"
    using assms(1) by (auto simp: sane_spec_def Version_Valid_def V31_def V311_def V5_def)
  with assms show ?thesis by (simp add: normalize_numbers_def sane_spec_def Let_def)
qed

section \<open>Properties\<close>

text \<open>
  C2. Whatever \<^verbatim>\<open>Normalize\<close> accepts is a sane definition: a trimmed, non-empty name, a protocol
  version the clients speak, a client identifier, a keep-alive in 1..65535, subscriptions that are
  valid, trimmed, within range and pairwise distinct, a valid will and consistent TLS material.
\<close>

theorem Normalize_sane:
  assumes "Normalize parse render fresh s = Inr s'"
  shows "sane_spec s'"
proof -
  from assms obtain s1 s2 scheme subs where st:
    "trim_space (cs_name s) \<noteq> []"
    "normalize_url parse render (s\<lparr>cs_name := trim_space (cs_name s)\<rparr>) = Inr (s1, scheme)"
    "normalize_numbers fresh scheme s1 = Inr s2"
    "normalize_subs {} (cs_subscriptions s2) = Inr subs"
    "s' = s2\<lparr>cs_subscriptions := subs\<rparr>" "check_will_tls s' = Inr ()"
    by (rule Normalize_stages)
  from normalize_url_frame [OF st(2)] normalize_numbers_sane [OF st(3)] normalize_subs_sane [OF st(4)]
    st(1,5,6)
  show ?thesis by (simp add: sane_spec_def check_will_tls_OK)
qed

text \<open>
  \<^verbatim>\<open>Normalize\<close> is idempotent, so calling it on every save and again before every connect, as the
  code does, never changes a definition a second time. The hypotheses are what \<^verbatim>\<open>net/url\<close>
  documents of the URL that was stored: it parses back to the URL it was printed from, and it has
  a scheme and no surrounding space.
\<close>

theorem Normalize_idempotent:
  assumes norm: "Normalize parse render fresh s = Inr s'"
    and parse_render: "\<And>u. sane_url u \<Longrightarrow> render u = cs_url s' \<Longrightarrow> parse (cs_url s') = Some u"
    and trimmed: "trim_space (cs_url s') = cs_url s'" and absolute: "contains_sub (cs_url s') ''://''"
  shows "Normalize parse render fresh' s' = Inr s'"
proof -
  from norm obtain s1 s2 scheme subs where st:
    "trim_space (cs_name s) \<noteq> []"
    "normalize_url parse render (s\<lparr>cs_name := trim_space (cs_name s)\<rparr>) = Inr (s1, scheme)"
    "normalize_numbers fresh scheme s1 = Inr s2"
    "normalize_subs {} (cs_subscriptions s2) = Inr subs"
    "s' = s2\<lparr>cs_subscriptions := subs\<rparr>" "check_will_tls s' = Inr ()"
    by (rule Normalize_stages)
  have sane: "sane_spec s'"
    using Normalize_stages [OF norm] normalize_url_frame [OF st(2)] normalize_numbers_sane [OF st(3)]
      normalize_subs_sane [OF st(4)] st(1,5,6)
    by (simp add: sane_spec_def check_will_tls_OK)
  obtain u where u: "sane_url u" "u_scheme u = scheme" "cs_url s1 = render u"
    using normalize_url_sane [OF st(2)] .
  have url: "cs_url s' = render u" and v5: "\<not> (cs_version s' = V5 \<and> scheme = ''unix'')"
    using st(3,5) u(3) by (auto simp: normalize_numbers_def Let_def split: if_splits)
  have "s'\<lparr>cs_name := trim_space (cs_name s')\<rparr> = s'" using sane by (simp add: sane_spec_def)
  moreover have "normalize_url parse render s' = Inr (s', scheme)"
    using normalize_url_fixed [of u s' render parse] u(1,2) parse_render [OF u(1)] trimmed absolute url
    by simp
  moreover have "normalize_subs {} (cs_subscriptions s') = Inr (cs_subscriptions s')"
    using sane by (intro normalize_subs_id) (auto simp: sane_spec_def)
  ultimately show ?thesis
    using sane normalize_numbers_fixed [OF sane v5] st(6) by (simp add: Normalize_def sane_spec_def)
qed

text \<open>A concrete definition, for the witnesses: a bare host name and a duplicated subscription.\<close>

definition ex_url :: Url where
  "ex_url = \<lparr>u_scheme = ''mqtt'', u_user = None, u_host = ''h'', u_rest = []\<rparr>"

definition ex_url' :: Url where
  "ex_url' = \<lparr>u_scheme = ''tcp'', u_user = None, u_host = ''h:1883'', u_rest = []\<rparr>"

definition ex_parse :: "string \<Rightarrow> Url option" where
  "ex_parse s = (if s = ''mqtt://h'' then Some ex_url
                 else if s = ''tcp://h:1883'' then Some ex_url' else None)"

definition ex_render :: "Url \<Rightarrow> string" where
  "ex_render u = (if u = ex_url' then ''tcp://h:1883'' else [])"

definition ex_sub :: "string \<Rightarrow> Subscription" where
  "ex_sub f = \<lparr>sub_filter = f, sub_qos = 1, sub_noLocal = False, sub_retainAsPublished = False,
                sub_retainHandling = 0\<rparr>"

definition ex_tls :: TLSSpec where
  "ex_tls = \<lparr>tls_insecureSkipVerify = False, tls_serverName = [], tls_caPEM = [],
     tls_clientCertPEM = [], tls_clientKeyPEM = [], tls_minVersion = ''1.2'', tls_alpn = []\<rparr>"

definition ex_spec :: ConnectionSpec where
  "ex_spec = \<lparr>cs_id = ''c1'', cs_name = '' home '', cs_url = ''h'', cs_version = 0, cs_clientID = [],
     cs_username = [], cs_password = [], cs_keepAlive = 0, cs_cleanStart = True,
     cs_sessionExpiry = 0, cs_connectTimeout = 0, cs_tls = ex_tls, cs_will = None,
     cs_subscriptions = [ex_sub ''a/#'', ex_sub '' a/# ''], cs_autoConnect = False,
     cs_sysStats = False, cs_recordToDisk = False, cs_recordKeep = 0, cs_historySize = 0,
     cs_topicLogEntries = 0, cs_topicLogBudget = 0\<rparr>"

definition ex_spec' :: ConnectionSpec where
  "ex_spec' = ex_spec\<lparr>cs_name := ''home'', cs_url := ''tcp://h:1883'', cs_version := 4,
     cs_clientID := ''mqttview-ab'', cs_keepAlive := 60, cs_connectTimeout := 10,
     cs_subscriptions := [ex_sub ''a/#'']\<rparr>"

lemma ex_trims:
  "trim_space '' home '' = ''home''" "trim_space ''h'' = ''h''" "trim_space ''a/#'' = ''a/#''"
  "trim_space '' a/# '' = ''a/#''" "trim_space ''tcp://h:1883'' = ''tcp://h:1883''"
  by code_simp+

lemma ex_stored_trims: "url_port ''h:1883'' = ''1883''" "normalizeScheme ''tcp'' = Inr ''tcp''" "trim_space ''home'' = ''home''"
  by code_simp+

lemma ex_filter: "ValidateFilter ''a/#'' = Inr ()"
  by (simp add: ValidateFilter_def maxTopicBytes_def valid_utf8_ascii contains_any_def)

lemma ex_ports: "url_port ''h'' = []" "normalizeScheme ''mqtt'' = Inr ''tcp''"
  by code_simp+

lemma ex_Normalize: "Normalize ex_parse ex_render ''ab'' ex_spec = Inr ex_spec'"
  by (simp add: Normalize_def normalize_url_def normalize_numbers_def check_will_tls_def
      Version_Valid_def V31_def V311_def V5_def defaultPort_def ex_trims ex_filter ex_ports ex_spec_def ex_spec'_def
      ex_parse_def ex_render_def ex_url_def ex_url'_def ex_sub_def ex_tls_def)

theorem Normalize_sane_witness: "sane_spec ex_spec'"
  by (rule Normalize_sane [OF ex_Normalize])

theorem Normalize_idempotent_witness:
  "Normalize ex_parse ex_render ''cd'' ex_spec' = Inr ex_spec'"
proof (rule Normalize_idempotent [OF ex_Normalize])
  show "ex_parse (cs_url ex_spec') = Some u" if "ex_render u = cs_url ex_spec'" for u
    using that by (auto simp: ex_spec'_def ex_render_def ex_parse_def split: if_splits)
  show "trim_space (cs_url ex_spec') = cs_url ex_spec'" by (simp add: ex_spec'_def ex_trims)
  show "contains_sub (cs_url ex_spec') ''://''" by (simp add: ex_spec'_def)
qed

end
