(* ===== verification/Ring.thy ===== *)
theory Ring
  imports Prelude
begin

text \<open>
  The program keeps three fixed-size rings that are written the same way: the message history of
  a connection, the log of one topic, and the buffer behind the log view. The locale \<open>ring\<close> is
  that shared contract (a slot array, the slot to write next, and whether the ring has wrapped),
  and its lemmas say what such a ring holds after any number of writes.
\<close>

text \<open>
  The contents, oldest first, as both \<^verbatim>\<open>chronological\<close> methods of the source compute them: the
  written prefix before the ring has wrapped, the two halves in order after.
\<close>

definition ring_contents :: "'a list \<Rightarrow> nat \<Rightarrow> bool \<Rightarrow> 'a list" where
  "ring_contents buf next filled = (if \<not> filled then take next buf else drop next buf @ take next buf)"

locale ring =
  fixes buf :: "'s \<Rightarrow> 'a list" and next_slot :: "'s \<Rightarrow> nat" and filled :: "'s \<Rightarrow> bool"
    and push :: "'a \<Rightarrow> 's \<Rightarrow> 's"
  assumes buf_push: "buf (push x s) = (buf s)[next_slot s := x]"
    and next_push: "next_slot (push x s) = (next_slot s + 1) mod length (buf s)"
    and filled_push: "filled (push x s) = (filled s \<or> next_slot (push x s) = 0)"
begin

definition ring_ok :: "'s \<Rightarrow> bool" where
  "ring_ok s \<longleftrightarrow> next_slot s < length (buf s)"

definition contents :: "'s \<Rightarrow> 'a list" where
  "contents s = ring_contents (buf s) (next_slot s) (filled s)"

lemma ring_ok_push [wf_intro]: "ring_ok s \<Longrightarrow> ring_ok (push x s)"
  by (cases "length (buf s)") (simp_all add: ring_ok_def buf_push next_push)

lemma length_buf_push [simp]: "length (buf (push x s)) = length (buf s)"
  by (simp add: buf_push)

lemma length_contents:
  "ring_ok s \<Longrightarrow> length (contents s) = (if filled s then length (buf s) else next_slot s)"
  by (auto simp: ring_ok_def contents_def ring_contents_def)

text \<open>One write appends, dropping the oldest entry once the ring is full.\<close>

lemma contents_push:
  assumes "ring_ok s"
  shows "contents (push x s) = last_n (length (buf s)) (contents s @ [x])"
proof -
  let ?b = "buf s" and ?n = "next_slot s"
  from assms have n: "?n < length ?b" by (simp add: ring_ok_def)
  have tk: "take (Suc ?n) (?b[?n := x]) = take ?n ?b @ [x]"
    using n by (simp add: take_Suc_conv_app_nth)
  have dr: "drop (Suc ?n) (?b[?n := x]) = drop (Suc ?n) ?b" by simp
  have split: "drop ?n ?b = ?b ! ?n # drop (Suc ?n) ?b"
    using n by (simp add: Cons_nth_drop_Suc)
  show ?thesis
  proof (cases "Suc ?n = length ?b")
    case True
    then have wrap: "next_slot (push x s) = 0" by (simp add: next_push)
    have whole: "?b[?n := x] = take ?n ?b @ [x]"
      using tk True by (metis length_list_update order_refl take_all)
    have lhs: "contents (push x s) = take ?n ?b @ [x]"
      using wrap whole by (simp add: contents_def ring_contents_def filled_push buf_push)
    have "drop (Suc ?n) ?b = []" using True by simp
    with split have "contents s @ [x] = (if filled s then ?b ! ?n # take ?n ?b else take ?n ?b) @ [x]"
      by (simp add: contents_def ring_contents_def)
    with lhs True show ?thesis by (auto simp: last_n_def)
  next
    case False
    with n have nxt: "next_slot (push x s) = Suc ?n" by (simp add: next_push)
    then have f: "filled (push x s) = filled s" by (simp add: filled_push)
    show ?thesis
    proof (cases "filled s")
      case True
      then have "contents (push x s) = drop (Suc ?n) ?b @ take ?n ?b @ [x]"
        using nxt f tk dr by (simp add: contents_def ring_contents_def buf_push)
      moreover have "contents s = ?b ! ?n # drop (Suc ?n) ?b @ take ?n ?b"
        using True split by (simp add: contents_def ring_contents_def)
      moreover have "Suc (Suc (length ?b - Suc 0)) - length ?b = Suc 0" using n by simp
      ultimately show ?thesis using n by (simp add: last_n_def)
    next
      case not_filled: False
      then have "contents (push x s) = take ?n ?b @ [x]"
        using nxt f tk by (simp add: contents_def ring_contents_def buf_push)
      with not_filled n show ?thesis by (simp add: contents_def ring_contents_def)
    qed
  qed
qed

text \<open>Any number of writes: the last \<open>length buf\<close> entries, whatever was there first.\<close>

lemma ring_ok_pushes: "ring_ok s \<Longrightarrow> ring_ok (fold push xs s)"
  by (induction xs arbitrary: s) (auto intro: wf_intro)

lemma length_buf_pushes [simp]: "length (buf (fold push xs s)) = length (buf s)"
  by (induction xs arbitrary: s) auto

lemma contents_pushes:
  "ring_ok s \<Longrightarrow> contents (fold push xs s) = last_n (length (buf s)) (contents s @ xs)"
proof (induction xs rule: rev_induct)
  case Nil
  then show ?case using length_contents [OF Nil] by (simp add: ring_ok_def)
next
  case (snoc x xs)
  then show ?case
    by (simp add: contents_push ring_ok_pushes last_n_last_n_snoc flip: append_assoc)
qed

text \<open>The slot about to be overwritten holds the oldest entry of a ring that has wrapped.\<close>

lemma contents_filled:
  "ring_ok s \<Longrightarrow> filled s \<Longrightarrow> contents s = buf s ! next_slot s # tl (contents s)"
  by (simp add: ring_ok_def contents_def ring_contents_def flip: Cons_nth_drop_Suc)

lemma contents_push_filled:
  "ring_ok s \<Longrightarrow> filled s \<Longrightarrow> contents (push x s) = tl (contents s) @ [x]"
  by (cases "buf s") (auto simp: contents_push last_n_def length_contents drop_Suc ring_ok_def)

lemma contents_push_open:
  "ring_ok s \<Longrightarrow> \<not> filled s \<Longrightarrow> contents (push x s) = contents s @ [x]"
  by (simp add: contents_push length_contents ring_ok_def)

lemma contents_push_last: "ring_ok s \<Longrightarrow> contents (push x s) \<noteq> [] \<and> last (contents (push x s)) = x"
  by (cases "filled s") (simp_all add: contents_push_filled contents_push_open)

lemma contents_empty: "\<not> filled s \<Longrightarrow> next_slot s = 0 \<Longrightarrow> contents s = []"
  by (simp add: contents_def ring_contents_def)

end

end
