(* ===== verification/History.thy ===== *)
theory History
  imports Ring Message
begin

text \<open>
  \<^verbatim>\<open>internal/mqttc/history.go\<close>: the ring of recent messages of a connection, the backing store of
  the live message stream. \<open>history_add\<close> interprets the locale \<open>ring\<close>; \<open>Recent\<close> is compared
  with a one-line specification over the ring's contents.
\<close>

section \<open>The code\<close>

definition DefaultHistorySize :: int where "DefaultHistorySize = 2000"
definition maxHistoryPayload :: nat where "maxHistoryPayload = 64 * 1024"
definition MaxHistorySize :: int where "MaxHistorySize = 100000"

record History =
  hist_buf :: "Message list"
  hist_next :: nat
  hist_filled :: bool

definition history_size :: "int \<Rightarrow> int" where
  "history_size sz =
     (let sz = (if sz \<le> 0 then DefaultHistorySize else sz)
      in if sz > MaxHistorySize then MaxHistorySize else sz)"

definition NewHistory :: "int \<Rightarrow> History" where
  "NewHistory sz =
     (let sz = history_size sz in \<lparr>hist_buf = replicate (nat sz) zero_message, hist_next = 0, hist_filled = False\<rparr>)"

text \<open>Clipping the payload to a bound, as the history does it: the flag of the message is not set.\<close>

definition history_clip :: "Message \<Rightarrow> Message" where
  "history_clip m =
     (if length (msg_payload m) > maxHistoryPayload
      then m\<lparr>msg_payload := take maxHistoryPayload (msg_payload m)\<rparr> else m)"

definition history_write :: "Message \<Rightarrow> History \<Rightarrow> History" where
  "history_write m h =
     (let nxt = (hist_next h + 1) mod length (hist_buf h) in
      h\<lparr>hist_buf := (hist_buf h)[hist_next h := m], hist_next := nxt,
        hist_filled := (if nxt = 0 then True else hist_filled h)\<rparr>)"

definition history_add :: "Message \<Rightarrow> History \<Rightarrow> History" where
  "history_add m h = history_write (history_clip m) h"

definition history_len :: "History \<Rightarrow> nat" where
  "history_len h = (if hist_filled h then length (hist_buf h) else hist_next h)"

text \<open>
  The loop of \<^verbatim>\<open>Recent\<close>: \<open>i\<close> steps back from the slot written last, \<open>out\<close> is what has been
  collected. An unwritten slot has an empty topic and is skipped.
\<close>

function recent_loop :: "History \<Rightarrow> nat \<Rightarrow> nat \<Rightarrow> string \<Rightarrow> nat \<Rightarrow> Message list \<Rightarrow> Message list" where
  "recent_loop h count limit flt i out =
     (if i < count \<and> length out < limit then
        let len = length (hist_buf h);
            idx = nat ((int (hist_next h) - 1 - int i + int len * 2) mod int len);
            m = hist_buf h ! idx
        in if msg_topic m = [] then recent_loop h count limit flt (Suc i) out
           else if flt \<noteq> [] \<and> \<not> MatchFilter flt (msg_topic m)
           then recent_loop h count limit flt (Suc i) out
           else recent_loop h count limit flt (Suc i) (out @ [m])
      else out)"
  by pat_completeness auto
termination
  by (relation "measure (\<lambda>(h, count, limit, flt, i, out). count - i)") auto

declare recent_loop.simps [simp del]

definition Recent :: "int \<Rightarrow> string \<Rightarrow> History \<Rightarrow> Message list" where
  "Recent limit flt h =
     (let limit = (if limit \<le> 0 then 200 else limit)
      in recent_loop h (history_len h) (nat limit) flt 0 [])"

definition history_clear :: "History \<Rightarrow> History" where
  "history_clear h =
     h\<lparr>hist_buf := replicate (length (hist_buf h)) zero_message, hist_next := 0, hist_filled := False\<rparr>"

section \<open>The ring\<close>

interpretation hist: ring hist_buf hist_next hist_filled history_write
  by unfold_locales (simp_all add: history_write_def Let_def)

lemma length_NewHistory: "length (hist_buf (NewHistory sz)) = nat (history_size sz)"
  by (simp add: NewHistory_def Let_def)

lemma history_size_bounds: "1 \<le> history_size sz \<and> history_size sz \<le> MaxHistorySize"
  by (simp add: history_size_def DefaultHistorySize_def MaxHistorySize_def Let_def)

lemma NewHistory_ok [wf_intro]: "hist.ring_ok (NewHistory sz)"
  using history_size_bounds [of sz] by (simp add: hist.ring_ok_def NewHistory_def Let_def)

lemma NewHistory_empty [simp]: "hist.contents (NewHistory sz) = []"
  by (rule hist.contents_empty) (simp_all add: NewHistory_def Let_def)

lemma fold_history_add: "fold history_add ms h = fold history_write (map history_clip ms) h"
  by (induction ms arbitrary: h) (simp_all add: history_add_def)

lemma history_len_contents: "hist.ring_ok h \<Longrightarrow> history_len h = length (hist.contents h)"
  by (simp add: history_len_def hist.length_contents)

text \<open>The slot the loop of \<^verbatim>\<open>Recent\<close> reads at step \<open>i\<close> holds the \<open>i\<close>-th newest entry.\<close>

lemma recent_slot:
  assumes ok: "hist.ring_ok h" and i: "i < history_len h"
  defines "len \<equiv> length (hist_buf h)"
  shows "hist_buf h ! nat ((int (hist_next h) - 1 - int i + int len * 2) mod int len)
           = rev (hist.contents h) ! i"
proof -
  let ?n = "hist_next h"
  have n: "?n < len" using ok by (simp add: hist.ring_ok_def len_def)
  show ?thesis
  proof (cases "i < ?n")
    case True
    have "(int ?n - 1 - int i + int len * 2) mod int len = (int (?n - 1 - i) + int len * 2) mod int len"
      using True by (simp add: of_nat_diff algebra_simps)
    also have "\<dots> = int (?n - 1 - i)" using n by simp
    finally have idx: "nat ((int ?n - 1 - int i + int len * 2) mod int len) = ?n - 1 - i" by simp
    have "rev (hist.contents h) ! i = hist_buf h ! (?n - 1 - i)"
      using True n
      by (simp add: hist.contents_def ring_contents_def rev_nth nth_append len_def)
    with idx show ?thesis by simp
  next
    case False
    with i have f: "hist_filled h" and il: "i < len"
      by (auto simp: history_len_def len_def split: if_splits)
    have "(int ?n - 1 - int i + int len * 2) mod int len = (int (?n + len - 1 - i) + int len * 1) mod int len"
      using False n il by (simp add: of_nat_diff algebra_simps)
    also have "\<dots> = int (?n + len - 1 - i)"
    proof -
      have "(int k + int len * 1) mod int len = int k" if "k < len" for k using that by simp
      from this [of "?n + len - 1 - i"] show ?thesis using False n il by linarith
    qed
    finally have idx: "nat ((int ?n - 1 - int i + int len * 2) mod int len) = ?n + len - 1 - i" by simp
    have "rev (hist.contents h) ! i = hist_buf h ! (?n + len - 1 - i)"
      using False n il f
      by (simp add: hist.contents_def ring_contents_def rev_nth nth_append len_def)
    with idx show ?thesis by simp
  qed
qed

definition recent_match :: "string \<Rightarrow> Message \<Rightarrow> bool" where
  "recent_match flt m \<longleftrightarrow> msg_topic m \<noteq> [] \<and> (flt = [] \<or> MatchFilter flt (msg_topic m))"

lemma recent_loop_spec:
  assumes "hist.ring_ok h" and "i \<le> history_len h"
  shows "recent_loop h (history_len h) limit flt i out =
           out @ take (limit - length out)
                   (filter (recent_match flt) (drop i (rev (hist.contents h))))"
  using assms(2)
proof (induction "history_len h - i" arbitrary: i out)
  case 0
  then show ?case
    by (subst recent_loop.simps) (simp add: history_len_contents assms(1))
next
  case (Suc k)
  then have i: "i < history_len h" by simp
  let ?c = "rev (hist.contents h)" and ?m = "rev (hist.contents h) ! i"
  have d: "drop i ?c = ?m # drop (Suc i) ?c"
    using i by (simp add: Cons_nth_drop_Suc history_len_contents assms(1))
  have IH: "recent_loop h (history_len h) limit flt (Suc i) o' =
      o' @ take (limit - length o') (filter (recent_match flt) (drop (Suc i) ?c))" for o'
    using Suc by simp
  show ?case
  proof (cases "length out < limit")
    case True
    then obtain r where r: "limit - length out = Suc r" by (metis Suc_diff_Suc)
    have "recent_loop h (history_len h) limit flt i out =
        recent_loop h (history_len h) limit flt (Suc i) (if recent_match flt ?m then out @ [?m] else out)"
      using i True recent_slot [OF assms(1) i]
      by (subst recent_loop.simps) (auto simp: Let_def recent_match_def)
    moreover have "limit - Suc (length out) = r" using r by simp
    ultimately show ?thesis using r by (auto simp: d IH)
  next
    case False
    then show ?thesis by (subst recent_loop.simps) simp
  qed
qed

section \<open>Properties\<close>

text \<open>
  C3. After any sequence of messages on a fresh connection, the history holds the most recent
  \<open>n\<close> of them, payloads clipped, and \<^verbatim>\<open>Recent\<close> answers with the newest ones first that match the
  filter, at most the limit asked for (200 when none is given).
\<close>

theorem Recent_newest_first:
  "Recent limit flt (fold history_add ms (NewHistory sz)) =
           take (nat (if limit \<le> 0 then 200 else limit))
             (filter (recent_match flt)
               (rev (last_n (nat (history_size sz)) (map history_clip ms))))"
proof -
  let ?h = "fold history_add ms (NewHistory sz)"
  have ok: "hist.ring_ok ?h"
    unfolding fold_history_add by (intro hist.ring_ok_pushes wf_intro)
  have "hist.contents ?h = last_n (nat (history_size sz)) (map history_clip ms)"
    unfolding fold_history_add by (simp add: hist.contents_pushes NewHistory_ok length_NewHistory)
  with recent_loop_spec [OF ok, of 0] show ?thesis by (simp add: Recent_def Let_def)
qed

end
