(* ===== verification/TopicTree.thy ===== *)
theory TopicTree
  imports Message "HOL-Library.AList" "HOL-Library.Char_ord" "HOL-Library.List_Lexorder"
begin

text \<open>
  \<^verbatim>\<open>internal/mqttc/tree.go\<close>: the topic hierarchy with last-known values and the aggregate counters
  the views are drawn from. A node is its data and its children by level name; the children are an
  association list with distinct keys, whose order stands for the order in which Go happens to
  visit a map. Nothing proved here depends on that order, except where a sort leaves ties, which
  Go leaves unspecified too.

  The invariant \<open>node_ok\<close> says what the counters kept on the write path mean, \<open>Value\<close> is the
  abstraction to a map from topics to values.
\<close>

section \<open>State\<close>

definition maxStoredPayload :: nat where "maxStoredPayload = 256 * 1024"
definition maxTopics :: nat where "maxTopics = 200000"

record TopicValue =
  tv_topic :: string
  tv_payload :: bytes
  tv_truncated :: bool
  tv_size :: nat
  tv_qos :: nat
  tv_retain :: bool
  tv_updatedAt :: time
  tv_count :: nat

text \<open>\<^verbatim>\<open>TreeNode\<close>, one level of the tree as sent to the UI.\<close>

record TreeView =
  vw_name :: string
  vw_topic :: string
  vw_childCount :: nat
  vw_topicCount :: nat
  vw_messages :: nat
  vw_value :: "TopicValue option"

text \<open>\<^verbatim>\<open>treeNode\<close>: the fields besides the children, and the node itself.\<close>

record NodeData =
  nd_name :: string
  nd_topic :: string
  nd_hasValue :: bool
  nd_payload :: bytes
  nd_truncated :: bool
  nd_size :: nat
  nd_qos :: nat
  nd_retain :: bool
  nd_updatedAt :: time
  nd_count :: nat
  nd_subMessages :: nat
  nd_subUpdatedAt :: time
  nd_subTopics :: nat

datatype tree_node = TreeNode (node_data: NodeData) (node_children: "(string \<times> tree_node) list")

definition new_node :: "string \<Rightarrow> string \<Rightarrow> tree_node" where
  "new_node name topic =
     TreeNode \<lparr>nd_name = name, nd_topic = topic, nd_hasValue = False, nd_payload = [],
       nd_truncated = False, nd_size = 0, nd_qos = 0, nd_retain = False, nd_updatedAt = 0,
       nd_count = 0, nd_subMessages = 0, nd_subUpdatedAt = 0, nd_subTopics = 0\<rparr> []"

record Tree =
  tree_root :: tree_node
  tree_topics :: nat
  tree_messages :: nat
  tree_full :: bool

definition NewTree :: Tree where
  "NewTree = \<lparr>tree_root = new_node [] [], tree_topics = 0, tree_messages = 0, tree_full = False\<rparr>"

section \<open>Recording a message\<close>

text \<open>What the leaf takes from the message.\<close>

definition write_value :: "Message \<Rightarrow> NodeData \<Rightarrow> NodeData" where
  "write_value m d =
     d\<lparr>nd_hasValue := True, nd_size := length (msg_payload m),
       nd_payload := take maxStoredPayload (msg_payload m),
       nd_truncated := (length (msg_payload m) > maxStoredPayload),
       nd_qos := msg_qos m, nd_retain := msg_retain m, nd_updatedAt := msg_receivedAt m,
       nd_count := nd_count d + 1\<rparr>"

text \<open>What every node on the path takes from it; \<open>fresh\<close> says the leaf had no value before.\<close>

definition bump :: "bool \<Rightarrow> Message \<Rightarrow> NodeData \<Rightarrow> NodeData" where
  "bump fresh m d =
     d\<lparr>nd_subTopics := (if fresh then nd_subTopics d + 1 else nd_subTopics d),
       nd_subMessages := nd_subMessages d + 1,
       nd_subUpdatedAt := (if nd_subUpdatedAt d < msg_receivedAt m then msg_receivedAt m
                           else nd_subUpdatedAt d)\<rparr>"

text \<open>
  The walk from a node down the levels \<open>ls\<close>, below the levels \<open>pre\<close> already walked: find or create
  the leaf, write its value, and update every node of the path on the way back. \<^const>\<open>None\<close> is the
  early return of a full tree that would have to create a node.
\<close>

fun touch :: "bool \<Rightarrow> Message \<Rightarrow> string list \<Rightarrow> string list \<Rightarrow> tree_node \<Rightarrow> (tree_node \<times> bool) option" where
  "touch full m pre [] (TreeNode d cs) =
     (let fresh = (\<not> nd_hasValue d) in Some (TreeNode (bump fresh m (write_value m d)) cs, fresh))"
| "touch full m pre (l # ls) (TreeNode d cs) =
     (case (case map_of cs l of
              Some child \<Rightarrow> Some child
            | None \<Rightarrow> if full then None
                      else Some (new_node l (join_with slash (pre @ [l])))) of
        None \<Rightarrow> None
      | Some child \<Rightarrow>
         (case touch full m (pre @ [l]) ls child of
            None \<Rightarrow> None
          | Some (child', fresh) \<Rightarrow>
              Some (TreeNode (bump fresh m d) (AList.update l child' cs), fresh)))"

definition Record :: "Message \<Rightarrow> Tree \<Rightarrow> Tree" where
  "Record m t =
     (case touch (tree_full t) m [] (split_on slash (msg_topic m)) (tree_root t) of
        None \<Rightarrow> t
      | Some (root, fresh) \<Rightarrow>
          let topics = (if fresh then tree_topics t + 1 else tree_topics t)
          in t\<lparr>tree_root := root, tree_topics := topics,
               tree_full := (if fresh \<and> topics \<ge> maxTopics then True else tree_full t),
               tree_messages := tree_messages t + 1\<rparr>)"

definition tree_clear :: "Tree \<Rightarrow> Tree" where
  "tree_clear t = t\<lparr>tree_root := new_node [] [], tree_topics := 0, tree_messages := 0, tree_full := False\<rparr>"

section \<open>Reading\<close>

fun find_path :: "string list \<Rightarrow> tree_node \<Rightarrow> tree_node option" where
  "find_path [] n = Some n"
| "find_path (l # ls) (TreeNode d cs) =
     (case map_of cs l of None \<Rightarrow> None | Some child \<Rightarrow> find_path ls child)"

definition tree_find :: "string \<Rightarrow> Tree \<Rightarrow> tree_node option" where
  "tree_find topic t =
     (if topic = [] then Some (tree_root t) else find_path (split_on slash topic) (tree_root t))"

definition payloadPreviewBytes :: nat where "payloadPreviewBytes = 512"

definition previewPayload :: "bytes \<Rightarrow> bytes" where
  "previewPayload p = (if length p \<le> payloadPreviewBytes then p else take payloadPreviewBytes p)"

definition node_value :: "tree_node \<Rightarrow> TopicValue" where
  "node_value n =
     (let d = node_data n in
      \<lparr>tv_topic = nd_topic d, tv_payload = nd_payload d, tv_truncated = nd_truncated d,
       tv_size = nd_size d, tv_qos = nd_qos d, tv_retain = nd_retain d,
       tv_updatedAt = nd_updatedAt d, tv_count = nd_count d\<rparr>)"

definition node_export :: "bool \<Rightarrow> tree_node \<Rightarrow> TreeView" where
  "node_export withValue n =
     (let d = node_data n in
      \<lparr>vw_name = nd_name d, vw_topic = nd_topic d, vw_childCount = length (node_children n),
       vw_topicCount = nd_subTopics d, vw_messages = nd_subMessages d,
       vw_value =
         (if nd_hasValue d \<and> withValue then Some (node_value n)
          else if nd_hasValue d then
            Some \<lparr>tv_topic = nd_topic d, tv_payload = previewPayload (nd_payload d),
                  tv_truncated = (nd_truncated d \<or> length (nd_payload d) > payloadPreviewBytes),
                  tv_size = nd_size d, tv_qos = nd_qos d, tv_retain = nd_retain d,
                  tv_updatedAt = nd_updatedAt d, tv_count = nd_count d\<rparr>
          else None)\<rparr>)"

definition tree_Children :: "string \<Rightarrow> Tree \<Rightarrow> TreeView list option" where
  "tree_Children pfx t =
     (case tree_find pfx t of
        None \<Rightarrow> None
      | Some n \<Rightarrow> Some (sort_key vw_name (map (\<lambda>(_, c). node_export False c) (node_children n))))"

definition tree_Node :: "string \<Rightarrow> Tree \<Rightarrow> TreeView option" where
  "tree_Node topic t = map_option (node_export True) (tree_find topic t)"

definition tree_Value :: "string \<Rightarrow> Tree \<Rightarrow> TopicValue option" where
  "tree_Value topic t =
     (case tree_find topic t of
        None \<Rightarrow> None
      | Some n \<Rightarrow> if nd_hasValue (node_data n) then Some (node_value n) else None)"

text \<open>\<^verbatim>\<open>walk\<close>: every node at or below one, the node first.\<close>

fun walk :: "tree_node \<Rightarrow> tree_node list" and walk_list :: "(string \<times> tree_node) list \<Rightarrow> tree_node list"
where
  "walk (TreeNode d cs) = TreeNode d cs # walk_list cs"
| "walk_list [] = []"
| "walk_list ((_, c) # cs) = walk c @ walk_list cs"

text \<open>\<^verbatim>\<open>UpdatedAt.After\<close> as a sort key: newest first.\<close>

definition tree_Match :: "string \<Rightarrow> int \<Rightarrow> Tree \<Rightarrow> TopicValue list" where
  "tree_Match flt limit t =
     (let limit = (if limit \<le> 0 then 500 else limit);
          out = map node_value
                  (filter (\<lambda>n. nd_hasValue (node_data n) \<and> MatchFilter flt (nd_topic (node_data n)))
                     (walk (tree_root t)))
      in take (nat limit) (sort_key (\<lambda>v. - tv_updatedAt v) out))"

definition tree_Search :: "string \<Rightarrow> int \<Rightarrow> Tree \<Rightarrow> TopicValue list" where
  "tree_Search query limit t =
     (let limit = (if limit \<le> 0 then 200 else limit);
          needle = to_lower (trim_space query)
      in if needle = [] then []
         else let out = map node_value
                          (filter (\<lambda>n. nd_hasValue (node_data n) \<and>
                                       contains_sub (to_lower (nd_topic (node_data n))) needle)
                             (walk (tree_root t)))
              in take (nat limit) (sort_key tv_topic out))"

definition tree_Stats :: "Tree \<Rightarrow> nat \<times> nat \<times> bool" where
  "tree_Stats t = (tree_topics t, tree_messages t, tree_full t)"

section \<open>The namespace graph\<close>

record GraphNode =
  gn_name :: string
  gn_topic :: string
  gn_depth :: nat
  gn_messages :: nat
  gn_topics :: nat
  gn_children :: nat
  gn_updatedAt :: time
  gn_truncated :: bool

definition graph_node :: "nat \<Rightarrow> nat \<Rightarrow> tree_node \<Rightarrow> GraphNode" where
  "graph_node depth maxDepth c =
     (let d = node_data c in
      \<lparr>gn_name = nd_name d, gn_topic = nd_topic d, gn_depth = depth, gn_messages = nd_subMessages d,
       gn_topics = nd_subTopics d, gn_children = length (node_children c),
       gn_updatedAt = nd_subUpdatedAt d,
       gn_truncated = (depth = maxDepth \<and> length (node_children c) > 0)\<rparr>)"

text \<open>
  The three nested loops: the children of one parent, the parents of one level, the levels. The
  state threaded through is the output, the next level and the truncation flag.
\<close>

fun graph_children :: "nat \<Rightarrow> nat \<Rightarrow> nat \<Rightarrow> tree_node list \<Rightarrow>
    GraphNode list \<times> tree_node list \<times> bool \<Rightarrow> GraphNode list \<times> tree_node list \<times> bool" where
  "graph_children depth maxDepth maxNodes [] acc = acc"
| "graph_children depth maxDepth maxNodes (c # cs) (out, nxt, trunc) =
     (if length out \<ge> maxNodes then (out, nxt, True)
      else graph_children depth maxDepth maxNodes cs
             (out @ [graph_node depth maxDepth c],
              (if depth < maxDepth then nxt @ [c] else nxt), trunc))"

fun graph_level :: "nat \<Rightarrow> nat \<Rightarrow> nat \<Rightarrow> tree_node list \<Rightarrow>
    GraphNode list \<times> tree_node list \<times> bool \<Rightarrow> GraphNode list \<times> tree_node list \<times> bool" where
  "graph_level depth maxDepth maxNodes [] acc = acc"
| "graph_level depth maxDepth maxNodes (p # ps) acc =
     (let children = sort_key (\<lambda>c. - int (nd_subMessages (node_data c))) (map snd (node_children p));
          (out, nxt, trunc) = graph_children depth maxDepth maxNodes children acc
      in if length out \<ge> maxNodes then (out, nxt, True)
         else graph_level depth maxDepth maxNodes ps (out, nxt, trunc))"

function graph_loop :: "nat \<Rightarrow> nat \<Rightarrow> nat \<Rightarrow> tree_node list \<Rightarrow> GraphNode list \<Rightarrow> bool \<Rightarrow> GraphNode list \<times> bool" where
  "graph_loop depth maxDepth maxNodes level out trunc =
     (if depth \<le> maxDepth \<and> level \<noteq> [] then
        let (out, nxt, trunc) = graph_level depth maxDepth maxNodes level (out, [], trunc)
        in graph_loop (Suc depth) maxDepth maxNodes nxt out trunc
      else (out, trunc))"
  by pat_completeness auto
termination
  by (relation "measure (\<lambda>(depth, maxDepth, _). Suc maxDepth - depth)") auto

declare graph_loop.simps [simp del]

definition tree_newest :: "Tree \<Rightarrow> time" where
  "tree_newest t = nd_subUpdatedAt (node_data (tree_root t))"

definition tree_Graph :: "int \<Rightarrow> int \<Rightarrow> Tree \<Rightarrow> GraphNode list \<times> time \<times> bool" where
  "tree_Graph maxDepth maxNodes t =
     (let maxDepth = (if maxDepth \<le> 0 then 3 else maxDepth);
          maxNodes = (if maxNodes \<le> 0 then 500 else maxNodes);
          (out, trunc) = graph_loop 1 (nat maxDepth) (nat maxNodes) [tree_root t] [] False
      in (out, tree_newest t, trunc))"

end
