(* ===== verification/TreeFacts.thy ===== *)
theory TreeFacts
  imports TopicTree
begin

text \<open>
  What holds of the topic tree: the invariant \<open>node_ok\<close> and its preservation, the values a tree
  denotes, and what the readers return in terms of those values.
\<close>

section \<open>The invariant\<close>

abbreviation sum_children :: "(NodeData \<Rightarrow> nat) \<Rightarrow> (string \<times> tree_node) list \<Rightarrow> nat" where
  "sum_children f cs \<equiv> sum_list (map (\<lambda>p. f (node_data (snd p))) cs)"

text \<open>
  \<open>node_ok pre n\<close>, for a node reached through the levels \<open>pre\<close>: it has a value exactly when a message
  arrived at it, its two counters are its own share plus those of its children, and names and
  topics spell the path.
\<close>

fun node_ok :: "string list \<Rightarrow> tree_node \<Rightarrow> bool"
  and children_ok :: "string list \<Rightarrow> (string \<times> tree_node) list \<Rightarrow> bool" where
  "node_ok pre (TreeNode d cs) \<longleftrightarrow>
     (nd_hasValue d \<longleftrightarrow> 0 < nd_count d) \<and> nd_topic d = join_with slash pre \<and>
     nd_subTopics d = (if nd_hasValue d then 1 else 0) + sum_children nd_subTopics cs \<and>
     nd_subMessages d = nd_count d + sum_children nd_subMessages cs \<and>
     distinct (map fst cs) \<and> children_ok pre cs"
| "children_ok pre [] = True"
| "children_ok pre ((l, c) # cs) \<longleftrightarrow>
     nd_name (node_data c) = l \<and> node_ok (pre @ [l]) c \<and> children_ok pre cs"

definition tree_ok :: "Tree \<Rightarrow> bool" where
  "tree_ok t \<longleftrightarrow>
     node_ok [] (tree_root t) \<and> \<not> nd_hasValue (node_data (tree_root t)) \<and>
     tree_topics t = nd_subTopics (node_data (tree_root t)) \<and>
     tree_messages t = nd_subMessages (node_data (tree_root t)) \<and>
     (maxTopics \<le> tree_topics t \<longrightarrow> tree_full t)"

lemma children_ok_lookup:
  "children_ok pre cs \<Longrightarrow> map_of cs l = Some c \<Longrightarrow> nd_name (node_data c) = l \<and> node_ok (pre @ [l]) c"
  by (induction cs) (auto split: if_splits)

lemma children_ok_iff:
  "children_ok pre cs \<longleftrightarrow> (\<forall>(l, c) \<in> set cs. nd_name (node_data c) = l \<and> node_ok (pre @ [l]) c)"
  by (induction cs) auto

lemma children_ok_update:
  "children_ok pre cs \<Longrightarrow> nd_name (node_data c) = l \<Longrightarrow> node_ok (pre @ [l]) c \<Longrightarrow>
     children_ok pre (AList.update l c cs)"
  by (induction cs) auto

lemma distinct_update [simp]: "distinct (map fst cs) \<Longrightarrow> distinct (map fst (AList.update l c cs))"
  by (rule distinct_update)

lemma sum_children_update:
  "distinct (map fst cs) \<Longrightarrow>
     sum_children f (AList.update l c cs) + (case map_of cs l of None \<Rightarrow> 0 | Some c0 \<Rightarrow> f (node_data c0)) =
     sum_children f cs + f (node_data c)"
proof (induction cs)
  case (Cons p cs)
  have "map_of cs l = None" if "fst p = l" using Cons.prems that by (auto simp: map_of_eq_None_iff)
  with Cons show ?case by (cases p) (auto split: option.splits)
qed simp

lemma node_ok_new: "node_ok (pre @ [l]) (new_node l (join_with slash (pre @ [l])))"
  by (simp add: new_node_def)

lemma node_data_new [simp]:
  "nd_name (node_data (new_node l t)) = l" "nd_subTopics (node_data (new_node l t)) = 0"
  "nd_subMessages (node_data (new_node l t)) = 0" "nd_hasValue (node_data (new_node l t)) = False"
  "nd_count (node_data (new_node l t)) = 0" "nd_topic (node_data (new_node l t)) = t"
  "node_children (new_node l t) = []"
  by (simp_all add: new_node_def)

text \<open>The child \<^const>\<open>touch\<close> goes on with.\<close>

lemma touch_Cons:
  "touch full m pre (l # ls) (TreeNode d cs) = Some (n', fresh) \<longleftrightarrow>
     (\<exists>child child'. (map_of cs l = Some child \<or>
          map_of cs l = None \<and> \<not> full \<and> child = new_node l (join_with slash (pre @ [l]))) \<and>
        touch full m (pre @ [l]) ls child = Some (child', fresh) \<and>
        n' = TreeNode (bump fresh m d) (AList.update l child' cs))"
  by (auto split: option.splits)

lemma touch_ok:
  "touch full m pre ls n = Some (n', fresh) \<Longrightarrow> node_ok pre n \<Longrightarrow>
     node_ok pre n' \<and> nd_name (node_data n') = nd_name (node_data n) \<and>
     nd_subTopics (node_data n') = nd_subTopics (node_data n) + (if fresh then 1 else 0) \<and>
     nd_subMessages (node_data n') = nd_subMessages (node_data n) + 1 \<and>
     (ls \<noteq> [] \<longrightarrow> nd_hasValue (node_data n') = nd_hasValue (node_data n))"
proof (induction ls arbitrary: pre n n')
  case Nil
  then show ?case by (cases n) (auto simp: Let_def bump_def write_value_def)
next
  case (Cons l ls)
  obtain d cs where n: "n = TreeNode d cs" by (cases n)
  from Cons.prems(1) [unfolded n] obtain child child' where
      child: "map_of cs l = Some child \<or>
          map_of cs l = None \<and> child = new_node l (join_with slash (pre @ [l]))"
      and rec: "touch full m (pre @ [l]) ls child = Some (child', fresh)"
      and n': "n' = TreeNode (bump fresh m d) (AList.update l child' cs)"
    unfolding touch_Cons by blast
  have ok: "node_ok (pre @ [l]) child" and name: "nd_name (node_data child) = l"
    using child Cons.prems(2) children_ok_lookup [of pre cs l child] node_ok_new [of pre l]
    by (auto simp: n)
  note IH = Cons.IH [OF rec ok]
  have dist: "distinct (map fst cs)" using Cons.prems(2) by (simp add: n)
  have sums: "sum_children f (AList.update l child' cs) + f (node_data child) =
      sum_children f cs + f (node_data child')" if "f = nd_subTopics \<or> f = nd_subMessages" for f
    using sum_children_update [OF dist, of f l child'] child that by auto
  show ?case
    using IH name Cons.prems(2) sums [of nd_subTopics] sums [of nd_subMessages]
    by (auto simp: n n' bump_def intro!: children_ok_update)
qed

lemma Record_cases:
  obtains (refused) "touch (tree_full t) m [] (split_on slash (msg_topic m)) (tree_root t) = None"
      "Record m t = t"
  | (recorded) root fresh where
      "touch (tree_full t) m [] (split_on slash (msg_topic m)) (tree_root t) = Some (root, fresh)"
      "tree_root (Record m t) = root"
      "tree_topics (Record m t) = tree_topics t + (if fresh then 1 else 0)"
      "tree_messages (Record m t) = tree_messages t + 1"
      "tree_full (Record m t) = (tree_full t \<or> fresh \<and> tree_topics t + 1 \<ge> maxTopics)"
  by (cases "touch (tree_full t) m [] (split_on slash (msg_topic m)) (tree_root t)")
    (auto simp: Record_def Let_def)

lemma Record_ok [wf_intro]: "tree_ok t \<Longrightarrow> tree_ok (Record m t)"
proof (cases m t rule: Record_cases)
  case (recorded root fresh)
  assume ok: "tree_ok t"
  then have "node_ok [] (tree_root t)" by (simp add: tree_ok_def)
  from touch_ok [OF recorded(1) this] ok recorded show ?thesis
    by (auto simp: tree_ok_def split: if_splits)
qed simp

lemma NewTree_ok [wf_intro]: "tree_ok NewTree"
  by (simp add: tree_ok_def NewTree_def new_node_def maxTopics_def)

lemma Records_ok: "tree_ok t \<Longrightarrow> tree_ok (fold Record ms t)"
  by (induction ms arbitrary: t) (auto intro: wf_intro)

lemma clear_ok [wf_intro]: "tree_ok (tree_clear t)"
  by (simp add: tree_ok_def tree_clear_def new_node_def maxTopics_def)

lemma find_path_ok:
  "find_path ks n = Some x \<Longrightarrow> node_ok pre n \<Longrightarrow> node_ok (pre @ ks) x"
proof (induction ks n arbitrary: pre rule: find_path.induct)
  case (2 l ls d cs)
  from "2.prems"(1) obtain c where c: "map_of cs l = Some c" "find_path ls c = Some x"
    by (auto split: option.splits)
  from "2.prems"(2) have "node_ok (pre @ [l]) c" using children_ok_lookup [OF _ c(1)] by simp
  from "2.IH" [OF c this] show ?case by simp
qed simp

section \<open>The counters count\<close>

lemma walk_counts:
  "node_ok pre n \<Longrightarrow>
     nd_subTopics (node_data n) = length (filter (\<lambda>x. nd_hasValue (node_data x)) (walk n)) \<and>
     nd_subMessages (node_data n) = sum_list (map (\<lambda>x. nd_count (node_data x)) (walk n))"
  "children_ok pre cs \<Longrightarrow>
     sum_children nd_subTopics cs = length (filter (\<lambda>x. nd_hasValue (node_data x)) (walk_list cs)) \<and>
     sum_children nd_subMessages cs = sum_list (map (\<lambda>x. nd_count (node_data x)) (walk_list cs))"
  by (induction n and cs arbitrary: pre and pre rule: walk_walk_list.induct) auto

lemma tree_find_ok:
  assumes "tree_ok t" and "tree_find p t = Some n"
  shows "\<exists>pre. node_ok pre n"
  using assms find_path_ok [of "split_on slash p" "tree_root t" n "[]"]
  by (auto simp: tree_find_def tree_ok_def split: if_splits)

end
