(* ===== verification/TreeValues.thy ===== *)
theory TreeValues
  imports TreeFacts
begin

text \<open>
  The tree as a map from topics to last-known values: \<open>val_at\<close> reads the value at a path, and
  recording a message updates it at one path. The properties of the topic tree end the theory.
\<close>

section \<open>The value at a path\<close>

definition val_at :: "string list \<Rightarrow> tree_node \<Rightarrow> TopicValue option" where
  "val_at ks n =
     (case find_path ks n of
        None \<Rightarrow> None
      | Some x \<Rightarrow> if nd_hasValue (node_data x) then Some (node_value x) else None)"

definition msg_value :: "string \<Rightarrow> Message \<Rightarrow> nat \<Rightarrow> TopicValue" where
  "msg_value topic m count =
     \<lparr>tv_topic = topic, tv_payload = take maxStoredPayload (msg_payload m),
      tv_truncated = (length (msg_payload m) > maxStoredPayload), tv_size = length (msg_payload m),
      tv_qos = msg_qos m, tv_retain = msg_retain m, tv_updatedAt = msg_receivedAt m, tv_count = count\<rparr>"

definition val_count :: "TopicValue option \<Rightarrow> nat" where
  "val_count v = (case v of None \<Rightarrow> 0 | Some v \<Rightarrow> tv_count v)"

lemma val_at_Nil: "val_at [] (TreeNode d cs) =
    (if nd_hasValue d then Some (node_value (TreeNode d cs)) else None)"
  by (simp add: val_at_def)

lemma val_at_Cons: "val_at (k # ks) (TreeNode d cs) =
    (case map_of cs k of None \<Rightarrow> None | Some c \<Rightarrow> val_at ks c)"
  by (simp add: val_at_def split: option.splits)

lemma val_at_new [simp]: "val_at ks (new_node l t) = None"
  by (cases ks) (simp_all add: val_at_def new_node_def)

lemma node_value_bump: "node_value (TreeNode (bump fresh m d) cs) = node_value (TreeNode d cs')"
  by (simp add: node_value_def bump_def)

lemma node_value_write:
  "node_value (TreeNode (write_value m d) cs) = msg_value (nd_topic d) m (nd_count d + 1)"
  by (simp add: node_value_def write_value_def msg_value_def)

lemma node_data_bump [simp]:
  "nd_hasValue (bump fresh m d) = nd_hasValue d" "nd_count (bump fresh m d) = nd_count d"
  by (simp_all add: bump_def)

text \<open>Recording writes the value at its own path and leaves every other value alone.\<close>

lemma touch_val_at:
  "touch full m pre ls n = Some (n', fresh) \<Longrightarrow> node_ok pre n \<Longrightarrow>
     val_at ks n' = (if ks = ls then Some (msg_value (join_with slash (pre @ ls)) m (val_count (val_at ls n) + 1))
                     else val_at ks n)"
proof (induction ls arbitrary: pre n n' ks)
  case Nil
  obtain d cs where n: "n = TreeNode d cs" by (cases n)
  with Nil have n': "n' = TreeNode (bump fresh m (write_value m d)) cs" by (auto simp: Let_def)
  have c: "val_count (val_at [] n) = nd_count d" using Nil.prems(2)
    by (auto simp: n val_at_Nil val_count_def node_value_def)
  show ?case
  proof (cases ks)
    case Nil
    have "nd_topic d = join_with slash pre" using \<open>node_ok pre n\<close> n by simp
    then have "node_value n' = msg_value (join_with slash pre) m (nd_count d + 1)"
      by (simp add: n' node_value_bump [of _ _ _ _ cs] node_value_write)
    moreover have "val_at [] n' = Some (node_value n')"
      by (simp add: n' val_at_Nil write_value_def)
    ultimately show ?thesis using Nil c by simp
  next
    case (Cons k ks')
    then show ?thesis by (simp add: n n' val_at_Cons)
  qed
next
  case (Cons l ls)
  obtain d cs where n: "n = TreeNode d cs" by (cases n)
  from Cons.prems(1) [unfolded n] obtain child child' where
      child: "map_of cs l = Some child \<or>
          map_of cs l = None \<and> child = new_node l (join_with slash (pre @ [l]))"
      and rec: "touch full m (pre @ [l]) ls child = Some (child', fresh)"
      and n': "n' = TreeNode (bump fresh m d) (AList.update l child' cs)"
    unfolding touch_Cons by blast
  have ok: "node_ok (pre @ [l]) child"
    using child Cons.prems(2) children_ok_lookup [of pre cs l child] node_ok_new [of pre l]
    by (auto simp: n)
  note IH = Cons.IH [OF rec ok]
  have old: "val_at (l # ls') n = val_at ls' child" for ls'
    using child by (auto simp: n val_at_Cons)
  show ?case
  proof (cases ks)
    case Nil
    then show ?thesis by (simp add: n n' val_at_Nil node_value_bump [of _ _ _ _ cs])
  next
    case (Cons k ks')
    then show ?thesis
      using IH [of ks'] old [of ks'] old [of ls]
      by (cases "k = l") (simp_all add: n n' val_at_Cons update_conv)
  qed
qed

text \<open>A tree that is not full records everything; a full one what it has a node for already.\<close>

lemma touch_room: "touch False m pre ls n \<noteq> None"
proof (induction ls arbitrary: pre n)
  case Nil
  then show ?case by (cases n) (simp add: Let_def)
next
  case (Cons l ls)
  obtain d cs where n: "n = TreeNode d cs" by (cases n)
  let ?c = "case map_of cs l of Some c \<Rightarrow> c | None \<Rightarrow> new_node l (join_with slash (pre @ [l]))"
  have "touch False m (pre @ [l]) ls ?c \<noteq> None" by (rule Cons.IH)
  then obtain c' f where "touch False m (pre @ [l]) ls ?c = Some (c', f)" by auto
  then show ?case by (auto simp: n split: option.splits)
qed

lemma touch_None: "touch full m pre ls n = None \<longleftrightarrow> full \<and> find_path ls n = None"
proof (induction ls arbitrary: pre n)
  case Nil
  then show ?case by (cases n) (simp add: Let_def)
next
  case (Cons l ls)
  obtain d cs where n: "n = TreeNode d cs" by (cases n)
  show ?case
  proof (cases "map_of cs l")
    case None
    with touch_room [of m pre "l # ls" n] show ?thesis by (cases full) (auto simp: n)
  next
    case (Some c)
    with Cons.IH [of "pre @ [l]" c] show ?thesis by (auto simp: n split: option.splits)
  qed
qed

lemma Record_val_at:
  assumes ok: "tree_ok t" and room: "\<not> tree_full t"
  shows "val_at ks (tree_root (Record m t)) =
           (if ks = split_on slash (msg_topic m)
            then Some (msg_value (msg_topic m) m (val_count (val_at ks (tree_root t)) + 1))
            else val_at ks (tree_root t))"
proof (cases m t rule: Record_cases)
  case refused
  with room show ?thesis by (simp add: touch_None)
next
  case (recorded root fresh)
  have "node_ok [] (tree_root t)" using ok by (simp add: tree_ok_def)
  from touch_val_at [OF recorded(1) this, of ks] recorded(2) show ?thesis by auto
qed

lemma Record_topics_le: "tree_topics (Record m t) \<le> tree_topics t + 1"
  by (cases m t rule: Record_cases) auto

lemma Record_full: "tree_full (Record m t) \<Longrightarrow> tree_full t \<or> maxTopics \<le> tree_topics (Record m t)"
  by (cases m t rule: Record_cases) auto

lemma Records_room:
  assumes "length ms < maxTopics"
  shows "\<not> tree_full (fold Record ms NewTree) \<and> tree_topics (fold Record ms NewTree) \<le> length ms"
  using assms
proof (induction ms rule: rev_induct)
  case Nil
  then show ?case by (simp add: NewTree_def)
next
  case (snoc m ms)
  then show ?case
    using Record_topics_le [of m "fold Record ms NewTree"] Record_full [of m "fold Record ms NewTree"]
    by auto
qed

lemma val_at_NewTree [simp]: "val_at ks (tree_root NewTree) = None"
  by (simp add: NewTree_def)

text \<open>The messages a topic has received decide its value.\<close>

definition last_value :: "string \<Rightarrow> Message list \<Rightarrow> TopicValue option" where
  "last_value topic ms =
     (let own = filter (\<lambda>m. msg_topic m = topic) ms
      in if own = [] then None else Some (msg_value topic (last own) (length own)))"

lemma val_count_last_value: "val_count (last_value topic ms) = length (filter (\<lambda>m. msg_topic m = topic) ms)"
  by (simp add: val_count_def last_value_def msg_value_def Let_def)

lemma last_value_snoc:
  "last_value topic (ms @ [m]) =
     (if msg_topic m = topic then Some (msg_value topic m (val_count (last_value topic ms) + 1))
      else last_value topic ms)"
  unfolding val_count_last_value by (simp add: last_value_def Let_def)

lemma Records_val_at:
  "length ms \<le> maxTopics \<Longrightarrow>
     val_at (split_on slash topic) (tree_root (fold Record ms NewTree)) = last_value topic ms"
proof (induction ms rule: rev_induct)
  case Nil
  then show ?case by (simp add: last_value_def)
next
  case (snoc m ms)
  then have room: "\<not> tree_full (fold Record ms NewTree)" using Records_room [of ms] by simp
  have ok: "tree_ok (fold Record ms NewTree)" by (intro Records_ok wf_intro)
  from Record_val_at [OF ok room] snoc show ?case
    by (auto simp: last_value_snoc dest: split_on_inj)
qed

lemma tree_Value_val_at: "topic \<noteq> [] \<Longrightarrow> tree_Value topic t = val_at (split_on slash topic) (tree_root t)"
  by (simp add: tree_Value_def tree_find_def val_at_def)

section \<open>Properties\<close>

text \<open>
  C4. Last-known values: after any messages (fewer than the cap on topics), reading a topic gives
  the last message on exactly that topic, with its payload cut to the stored maximum and the
  number of messages that arrived on it; a topic nothing arrived on has no value.
\<close>

theorem tree_Value_last_message:
  assumes "topic \<noteq> []" and "length ms \<le> maxTopics"
  shows "tree_Value topic (fold Record ms NewTree) = last_value topic ms"
  using assms by (simp add: tree_Value_val_at Records_val_at)

definition ex_msg :: "string \<Rightarrow> bytes \<Rightarrow> time \<Rightarrow> Message" where
  "ex_msg topic payload at =
     zero_message\<lparr>msg_topic := topic, msg_payload := payload, msg_receivedAt := at\<rparr>"

theorem tree_Value_last_message_witness:
  "tree_Value ''a/b'' (fold Record [ex_msg ''a/b'' [1] 5, ex_msg ''a'' [9] 6, ex_msg ''a/b'' [2] 7] NewTree) =
     Some (msg_value ''a/b'' (ex_msg ''a/b'' [2] 7) 2)"
proof -
  have "length [ex_msg ''a/b'' [1] 5, ex_msg ''a'' [9] 6, ex_msg ''a/b'' [2] 7] \<le> maxTopics"
    by (simp add: maxTopics_def)
  then show ?thesis
    by (subst tree_Value_last_message) (simp_all add: last_value_def ex_msg_def numeral_2_eq_2)
qed

text \<open>
  C5. The aggregate counters kept on the write path are right in every tree the program can build:
  for any node the UI asks for, the topic count is the number of nodes with a value at or below
  it, and the message count is the number of messages those nodes received, in the same tree.
\<close>

theorem tree_counters_recount:
  assumes "tree_find p (fold Record ms NewTree) = Some n"
  shows "nd_subTopics (node_data n) = length (filter (\<lambda>x. nd_hasValue (node_data x)) (walk n)) \<and>
         nd_subMessages (node_data n) = sum_list (map (\<lambda>x. nd_count (node_data x)) (walk n))"
proof -
  have "tree_ok (fold Record ms NewTree)" by (intro Records_ok wf_intro)
  from tree_find_ok [OF this assms] obtain pre where "node_ok pre n" by blast
  then show ?thesis by (rule walk_counts(1))
qed

theorem tree_counters_recount_witness:
  "\<exists>n. tree_find ''a'' (fold Record [ex_msg ''a/b'' [1] 5, ex_msg ''a'' [9] 6] NewTree) = Some n \<and>
     nd_subTopics (node_data n) = length (filter (\<lambda>x. nd_hasValue (node_data x)) (walk n)) \<and>
     nd_subMessages (node_data n) = sum_list (map (\<lambda>x. nd_count (node_data x)) (walk n))"
proof -
  let ?t = "fold Record [ex_msg ''a/b'' [1] 5, ex_msg ''a'' [9] 6] NewTree"
  have "tree_find ''a'' ?t \<noteq> None"
    by (simp add: Record_def ex_msg_def zero_message_def NewTree_def new_node_def tree_find_def maxTopics_def Let_def)
  then obtain n where "tree_find ''a'' ?t = Some n" by blast
  with tree_counters_recount [OF this] show ?thesis by blast
qed

end
