(* ===== verification/TreeViews.thy ===== *)
theory TreeViews
  imports TreeValues
begin

text \<open>
  What the readers of the topic tree return: \<^verbatim>\<open>Match\<close> against the values the tree denotes, and
  \<^verbatim>\<open>Graph\<close>, whose breadth-first budget is shown to bound the output and to lose nothing it does
  not report.
\<close>

section \<open>Sorting and cutting\<close>

lemma take_sort_key_least:
  assumes "x \<in> set xs" and "x \<notin> set (take n (sort_key f xs))" and "y \<in> set (take n (sort_key f xs))"
  shows "f y \<le> f x" and "length (take n (sort_key f xs)) = n"
proof -
  let ?s = "sort_key f xs"
  have "x \<in> set (drop n ?s)" using assms(1,2) by (metis append_take_drop_id set_sort Un_iff set_append)
  moreover have "sorted (map f (take n ?s) @ map f (drop n ?s))"
    by (simp flip: map_append)
  then have "\<forall>a \<in> set (map f (take n ?s)). \<forall>b \<in> set (map f (drop n ?s)). a \<le> b"
    unfolding sorted_append by blast
  ultimately show "f y \<le> f x" using assms(3) by fastforce
  from \<open>x \<in> set (drop n ?s)\<close> have "n < length ?s" by (metis drop_all empty_iff list.set(1) not_le)
  then show "length (take n ?s) = n" by simp
qed

section \<open>Walking finds what paths find\<close>

lemma walk_find:
  "node_ok pre n \<Longrightarrow> x \<in> set (walk n) \<longleftrightarrow> (\<exists>ks. find_path ks n = Some x)"
  "children_ok pre cs \<Longrightarrow> distinct (map fst cs) \<Longrightarrow>
     x \<in> set (walk_list cs) \<longleftrightarrow> (\<exists>l ks c. map_of cs l = Some c \<and> find_path ks c = Some x)"
proof (induction n and cs arbitrary: pre and pre rule: walk_walk_list.induct)
  case (1 d cs)
  have "(\<exists>ks. find_path ks (TreeNode d cs) = Some x) \<longleftrightarrow>
      TreeNode d cs = x \<or> (\<exists>l ks c. map_of cs l = Some c \<and> find_path ks c = Some x)"
  proof
    assume "\<exists>ks. find_path ks (TreeNode d cs) = Some x"
    then obtain ks where "find_path ks (TreeNode d cs) = Some x" ..
    then show "TreeNode d cs = x \<or> (\<exists>l ks c. map_of cs l = Some c \<and> find_path ks c = Some x)"
      by (cases ks) (auto split: option.splits)
  next
    assume "TreeNode d cs = x \<or> (\<exists>l ks c. map_of cs l = Some c \<and> find_path ks c = Some x)"
    then show "\<exists>ks. find_path ks (TreeNode d cs) = Some x"
    proof (elim disjE exE conjE)
      assume "TreeNode d cs = x"
      then have "find_path [] (TreeNode d cs) = Some x" by simp
      then show ?thesis ..
    next
      fix l ks c assume "map_of cs l = Some c" "find_path ks c = Some x"
      then have "find_path (l # ks) (TreeNode d cs) = Some x" by simp
      then show ?thesis ..
    qed
  qed
  with 1 show ?case by auto
next
  case (3 l c cs)
  have none: "map_of cs l = None" using 3 by (simp add: map_of_eq_None_iff)
  have "(\<exists>k ks d. map_of ((l, c) # cs) k = Some d \<and> find_path ks d = Some x) \<longleftrightarrow>
      (\<exists>ks. find_path ks c = Some x) \<or> (\<exists>k ks d. map_of cs k = Some d \<and> find_path ks d = Some x)"
    (is "?L = ?R")
  proof
    assume ?L
    then show ?R by (auto split: if_splits)
  next
    assume ?R
    then show ?L
    proof (elim disjE exE conjE)
      fix ks assume "find_path ks c = Some x"
      then have "map_of ((l, c) # cs) l = Some c \<and> find_path ks c = Some x" by simp
      then show ?L by blast
    next
      fix k ks d assume d: "map_of cs k = Some d" "find_path ks d = Some x"
      with none have "map_of ((l, c) # cs) k = Some d" by auto
      with d show ?L by blast
    qed
  qed
  moreover have "x \<in> set (walk c) \<longleftrightarrow> (\<exists>ks. find_path ks c = Some x)"
    using 3 by auto
  moreover have "x \<in> set (walk_list cs) \<longleftrightarrow> (\<exists>k ks d. map_of cs k = Some d \<and> find_path ks d = Some x)"
    using 3 by auto
  ultimately show ?case by simp
qed simp

lemma find_path_topic:
  "find_path ks n = Some x \<Longrightarrow> node_ok pre n \<Longrightarrow> nd_topic (node_data x) = join_with slash (pre @ ks)"
  using find_path_ok [of ks n x pre] by (cases x) simp

section \<open>Match\<close>

definition matched :: "string \<Rightarrow> Tree \<Rightarrow> TopicValue list" where
  "matched flt t = map node_value
     (filter (\<lambda>n. nd_hasValue (node_data n) \<and> MatchFilter flt (nd_topic (node_data n))) (walk (tree_root t)))"

lemma tree_Match_matched:
  "tree_Match flt limit t =
     take (nat (if limit \<le> 0 then 500 else limit)) (sort_key (\<lambda>v. - tv_updatedAt v) (matched flt t))"
  by (simp add: tree_Match_def matched_def Let_def)

lemma set_matched:
  assumes "tree_ok t"
  shows "v \<in> set (matched flt t) \<longleftrightarrow>
           (\<exists>ks. val_at ks (tree_root t) = Some v) \<and> MatchFilter flt (tv_topic v)"
proof -
  have ok: "node_ok [] (tree_root t)" using assms by (simp add: tree_ok_def)
  have "v \<in> set (matched flt t) \<longleftrightarrow>
      (\<exists>x ks. find_path ks (tree_root t) = Some x \<and> nd_hasValue (node_data x) \<and>
              MatchFilter flt (nd_topic (node_data x)) \<and> v = node_value x)"
    using walk_find(1) [OF ok] by (auto simp: matched_def)
  moreover have "tv_topic (node_value x) = nd_topic (node_data x)" for x
    by (simp add: node_value_def Let_def)
  moreover have "val_at ks (tree_root t) = Some v \<longleftrightarrow>
      (\<exists>x. find_path ks (tree_root t) = Some x \<and> nd_hasValue (node_data x) \<and> v = node_value x)" for ks
    by (auto simp: val_at_def split: option.splits if_splits)
  ultimately show ?thesis by auto
qed

text \<open>Every value the tree holds is that of a message, and is found under the levels of its topic.\<close>

lemma stored_from_message:
  "val_at ks (tree_root (fold Record ms NewTree)) = Some w \<Longrightarrow>
     \<exists>m \<in> set ms. \<exists>n. ks = split_on slash (msg_topic m) \<and> w = msg_value (msg_topic m) m n"
proof (induction ms rule: rev_induct)
  case (snoc m ms)
  let ?t = "fold Record ms NewTree"
  have "tree_ok ?t" by (intro Records_ok wf_intro)
  then have ok: "node_ok [] (tree_root ?t)" by (simp add: tree_ok_def)
  show ?case
  proof (cases m ?t rule: Record_cases)
    case refused
    with snoc show ?thesis by auto
  next
    case (recorded root fresh)
    from touch_val_at [OF recorded(1) ok, of ks] recorded(2) snoc show ?thesis
      by (auto split: if_splits)
  qed
qed simp

text \<open>
  C6. \<^verbatim>\<open>Match\<close> returns, newest first and within the limit, stored last-known values of matching topics only: each
  is the value the tree holds for its topic, made of a message that was received on that topic. It leaves a
  matching value out only when the limit is full of values at least as new.
\<close>

theorem tree_Match_newest:
  fixes ms :: "Message list" and flt :: string and limit :: int
  defines "t \<equiv> fold Record ms NewTree" and "n \<equiv> nat (if limit \<le> 0 then 500 else limit)"
  assumes stored: "val_at ks (tree_root t) = Some v" and match: "MatchFilter flt (tv_topic v)"
  shows "length (tree_Match flt limit t) \<le> n \<and>
         sorted_wrt (\<lambda>x y. tv_updatedAt x \<ge> tv_updatedAt y) (tree_Match flt limit t) \<and>
         (\<forall>w \<in> set (tree_Match flt limit t). MatchFilter flt (tv_topic w) \<and>
            val_at (split_on slash (tv_topic w)) (tree_root t) = Some w \<and>
            (\<exists>m \<in> set ms. \<exists>k. msg_topic m = tv_topic w \<and> w = msg_value (msg_topic m) m k)) \<and>
         (v \<in> set (tree_Match flt limit t) \<or>
            length (tree_Match flt limit t) = n \<and>
            (\<forall>w \<in> set (tree_Match flt limit t). tv_updatedAt v \<le> tv_updatedAt w))"
proof -
  let ?f = "\<lambda>v. - tv_updatedAt v" and ?m = "matched flt t"
  have ok: "tree_ok t" unfolding t_def by (intro Records_ok wf_intro)
  have eq: "tree_Match flt limit t = take n (sort_key ?f ?m)" by (simp add: tree_Match_matched n_def)
  have "sorted (map ?f (sort_key ?f ?m))" by simp
  then have "sorted_wrt (\<lambda>x y. tv_updatedAt x \<ge> tv_updatedAt y) (sort_key ?f ?m)"
    by (simp add: sorted_map)
  then have sorted: "sorted_wrt (\<lambda>x y. tv_updatedAt x \<ge> tv_updatedAt y) (tree_Match flt limit t)"
    unfolding eq by (rule sorted_wrt_take)
  have sub: "set (tree_Match flt limit t) \<subseteq> set ?m"
    unfolding eq by (metis set_sort set_take_subset)
  have v: "v \<in> set ?m" using set_matched [OF ok] stored match by blast
  have "length (tree_Match flt limit t) = n \<and> (\<forall>w \<in> set (tree_Match flt limit t). tv_updatedAt v \<le> tv_updatedAt w)"
    if out: "v \<notin> set (tree_Match flt limit t)"
  proof (cases "set (tree_Match flt limit t) = {}")
    case True
    then have "n = 0 \<or> ?m = []" by (simp add: eq) (metis length_0_conv length_sort)
    with v True show ?thesis by (auto simp: eq)
  next
    case False
    with take_sort_key_least [OF v out [unfolded eq]] show ?thesis by (fastforce simp: eq)
  qed
  moreover have "val_at (split_on slash (tv_topic w)) (tree_root t) = Some w \<and>
      (\<exists>m \<in> set ms. \<exists>k. msg_topic m = tv_topic w \<and> w = msg_value (msg_topic m) m k)" if "w \<in> set (tree_Match flt limit t)" for w
  proof -
    from that sub set_matched [OF ok] obtain ls where ls: "val_at ls (tree_root t) = Some w" by blast
    from stored_from_message [OF this [unfolded t_def]] obtain m k where
      "m \<in> set ms" "ls = split_on slash (msg_topic m)" "w = msg_value (msg_topic m) m k" by blast
    moreover from this have "tv_topic w = msg_topic m" by (simp add: msg_value_def Let_def)
    ultimately show ?thesis using ls by auto
  qed
  ultimately show ?thesis using sorted sub set_matched [OF ok, of _ flt] by (auto simp: eq)
qed

theorem tree_Match_newest_witness:
  "length (tree_Match ''a/#'' 1 (fold Record [ex_msg ''a/b'' [1] 5, ex_msg ''a'' [9] 6] NewTree)) \<le> 1"
proof -
  let ?ms = "[ex_msg ''a/b'' [1] 5, ex_msg ''a'' [9] 6]"
  have "val_at (split_on slash ''a'') (tree_root (fold Record ?ms NewTree)) = last_value ''a'' ?ms"
    by (rule Records_val_at) (simp add: maxTopics_def)
  also have "\<dots> = Some (msg_value ''a'' (ex_msg ''a'' [9] 6) 1)"
    by (simp add: last_value_def ex_msg_def)
  finally have v: "val_at (split_on slash ''a'') (tree_root (fold Record ?ms NewTree)) =
      Some (msg_value ''a'' (ex_msg ''a'' [9] 6) 1)" .
  have "MatchFilter ''a/#'' (tv_topic (msg_value ''a'' (ex_msg ''a'' [9] 6) 1))"
    by (simp add: msg_value_def MatchFilter_def)
  from tree_Match_newest [OF v this, of 1] show ?thesis by simp
qed

section \<open>Graph\<close>

definition kids :: "tree_node \<Rightarrow> tree_node set" where
  "kids n = snd ` set (node_children n)"

lemma graph_children_bound:
  "graph_children depth maxDepth maxNodes cs (out, nxt, trunc) = (out', nxt', trunc') \<Longrightarrow>
     length out \<le> maxNodes \<Longrightarrow> length out' \<le> maxNodes"
  by (induction cs arbitrary: out nxt trunc) (auto split: if_splits)

lemma graph_level_bound:
  "graph_level depth maxDepth maxNodes ps (out, nxt, trunc) = (out', nxt', trunc') \<Longrightarrow>
     length out \<le> maxNodes \<Longrightarrow> length out' \<le> maxNodes"
proof (induction ps arbitrary: out nxt trunc)
  case (Cons p ps)
  then show ?case
    by (auto simp: Let_def split: prod.splits if_splits dest!: graph_children_bound)
qed simp

lemma graph_loop_bound:
  "length out \<le> maxNodes \<Longrightarrow> length (fst (graph_loop depth maxDepth maxNodes level out trunc)) \<le> maxNodes"
proof (induction depth maxDepth maxNodes level out trunc rule: graph_loop.induct)
  case (1 depth maxDepth maxNodes level out trunc)
  show ?case
  proof (cases "depth \<le> maxDepth \<and> level \<noteq> []")
    case True
    obtain out' nxt trunc' where l: "graph_level depth maxDepth maxNodes level (out, [], trunc) = (out', nxt, trunc')"
      by (metis prod_cases3)
    from "1.IH" [OF True l [symmetric] refl] graph_level_bound [OF l "1.prems"] True l show ?thesis
      by (subst graph_loop.simps) simp
  next
    case False
    then have "graph_loop depth maxDepth maxNodes level out trunc = (out, trunc)"
      by (subst graph_loop.simps) auto
    with "1.prems" show ?thesis by simp
  qed
qed

text \<open>The flag is never cleared, and while it is not set nothing has been dropped.\<close>

lemma graph_children_all:
  "graph_children depth maxDepth maxNodes cs (out, nxt, trunc) = (out', nxt', False) \<Longrightarrow>
     \<not> trunc \<and> out' = out @ map (graph_node depth maxDepth) cs \<and>
     nxt' = nxt @ (if depth < maxDepth then cs else [])"
proof (induction cs arbitrary: out nxt)
  case (Cons c cs)
  from Cons.prems have "graph_children depth maxDepth maxNodes cs
      (out @ [graph_node depth maxDepth c], if depth < maxDepth then nxt @ [c] else nxt, trunc) = (out', nxt', False)"
    by (simp split: if_splits)
  from Cons.IH [OF this] show ?case by simp
qed simp

lemma graph_level_all:
  "graph_level depth maxDepth maxNodes ps (out, nxt, trunc) = (out', nxt', False) \<Longrightarrow>
     \<not> trunc \<and> set out' = set out \<union> graph_node depth maxDepth ` (\<Union>p \<in> set ps. kids p) \<and>
     set nxt' = set nxt \<union> (if depth < maxDepth then \<Union>p \<in> set ps. kids p else {})"
proof (induction ps arbitrary: out nxt trunc)
  case (Cons p ps)
  let ?k = "sort_key (\<lambda>c. - int (nd_subMessages (node_data c))) (map snd (node_children p))"
  obtain o1 n1 t1 where c: "graph_children depth maxDepth maxNodes ?k (out, nxt, trunc) = (o1, n1, t1)"
    by (metis prod_cases3)
  from Cons.prems c have rest: "graph_level depth maxDepth maxNodes ps (o1, n1, t1) = (out', nxt', False)"
    by (auto simp: Let_def split: if_splits)
  from Cons.IH [OF rest] have t1: "\<not> t1" by simp
  with c have "graph_children depth maxDepth maxNodes ?k (out, nxt, trunc) = (o1, n1, False)" by simp
  note ch = graph_children_all [OF this]
  have k: "set ?k = kids p" by (simp add: kids_def)
  have "set out' = (set out \<union> graph_node depth maxDepth ` kids p) \<union>
      graph_node depth maxDepth ` (\<Union>q \<in> set ps. kids q)"
    using ch Cons.IH [OF rest] k by simp
  moreover have "set nxt' = (set nxt \<union> (if depth < maxDepth then kids p else {})) \<union>
      (if depth < maxDepth then \<Union>q \<in> set ps. kids q else {})"
    using ch Cons.IH [OF rest] k by simp
  ultimately show ?case using ch by (auto simp: image_Un)
qed simp

text \<open>The nodes \<open>d\<close> levels below a set of nodes.\<close>

fun below :: "nat \<Rightarrow> tree_node set \<Rightarrow> tree_node set" where
  "below 0 N = N"
| "below (Suc d) N = below d (\<Union>n \<in> N. kids n)"

lemma below_empty [simp]: "below d {} = {}"
  by (induction d) auto

lemma graph_loop_all:
  "graph_loop depth maxDepth maxNodes level out trunc = (out', False) \<Longrightarrow> 1 \<le> depth \<Longrightarrow>
     \<not> trunc \<and> set out' =
       set out \<union> (\<Union>d \<in> {depth..maxDepth}. graph_node d maxDepth ` below (Suc d - depth) (set level))"
proof (induction depth maxDepth maxNodes level out trunc rule: graph_loop.induct)
  case (1 depth maxDepth maxNodes level out trunc)
  show ?case
  proof (cases "depth \<le> maxDepth \<and> level \<noteq> []")
    case True
    obtain o1 nxt t1 where l: "graph_level depth maxDepth maxNodes level (out, [], trunc) = (o1, nxt, t1)"
      by (metis prod_cases3)
    with True "1.prems" have rest: "graph_loop (Suc depth) maxDepth maxNodes nxt o1 t1 = (out', False)"
      by (subst (asm) graph_loop.simps) simp
    note IH = "1.IH" [OF True l [symmetric] refl refl rest]
    then have "\<not> t1" by simp
    with l have l': "graph_level depth maxDepth maxNodes level (out, [], trunc) = (o1, nxt, False)" by simp
    note lev = graph_level_all [OF l']
    have "{depth..maxDepth} = insert depth {Suc depth..maxDepth}" using True by auto
    moreover have "below (Suc d - depth) (set level) = below (Suc d - Suc depth) (\<Union>p \<in> set level. kids p)"
      if "d \<in> {Suc depth..maxDepth}" for d
      using that by (simp add: Suc_diff_le)
    moreover have "set nxt = (\<Union>p \<in> set level. kids p)" if "Suc depth \<le> maxDepth" using lev that by simp
    ultimately show ?thesis using IH lev by (auto simp: Suc_diff_le)
  next
    case False
    then have "graph_loop depth maxDepth maxNodes level out trunc = (out, trunc)"
      by (subst graph_loop.simps) auto
    moreover have "(\<Union>d \<in> {depth..maxDepth}. graph_node d maxDepth ` below (Suc d - depth) (set level)) = {}"
    proof (cases "level = []")
      case False
      with \<open>\<not> (depth \<le> maxDepth \<and> level \<noteq> [])\<close> show ?thesis by simp
    qed simp
    ultimately show ?thesis using "1.prems" by simp
  qed
qed

text \<open>
  The picture of the namespace never exceeds its node budget, and when it does not say it was
  truncated it holds every node of the tree down to the depth asked for, and no other.
\<close>

theorem tree_Graph_complete:
  assumes "tree_Graph maxDepth maxNodes t = (out, newest, truncated)"
  shows "length out \<le> nat (if maxNodes \<le> 0 then 500 else maxNodes) \<and>
    (truncated \<or>
     set out = (let D = nat (if maxDepth \<le> 0 then 3 else maxDepth)
                in \<Union>d \<in> {1..D}. graph_node d D ` below d {tree_root t}))"
proof -
  let ?D = "nat (if maxDepth \<le> 0 then 3 else maxDepth)"
  let ?N = "nat (if maxNodes \<le> 0 then 500 else maxNodes)"
  have l: "graph_loop 1 ?D ?N [tree_root t] [] False = (out, truncated)"
    using assms by (auto simp: tree_Graph_def Let_def split: prod.splits)
  have "length out \<le> ?N" using graph_loop_bound [of "[]" ?N 1 ?D "[tree_root t]" False] l by simp
  moreover have "set out = (\<Union>d \<in> {1..?D}. graph_node d ?D ` below d {tree_root t})" if "\<not> truncated"
    using graph_loop_all [of 1 ?D ?N "[tree_root t]" "[]" False out] l that by simp
  ultimately show ?thesis unfolding Let_def by blast
qed

theorem tree_Graph_complete_witness:
  "length (fst (tree_Graph 2 5 (Record (ex_msg ''a/b'' [1] 5) NewTree))) \<le> 5"
proof -
  obtain out newest truncated where
    "tree_Graph 2 5 (Record (ex_msg ''a/b'' [1] 5) NewTree) = (out, newest, truncated)"
    by (metis prod_cases3)
  from tree_Graph_complete [OF this] this show ?thesis by simp
qed

section \<open>Two things the comments do not say\<close>

text \<open>
  A full tree still gains topics: the cap refuses new nodes, not a first value on a node that is
  already there as somebody's parent.
\<close>

lemma full_tree_gains_topic:
  assumes "tree_full t" and "find_path (split_on slash (msg_topic m)) (tree_root t) = Some n"
    and "\<not> nd_hasValue (node_data n)" and "tree_ok t"
  shows "tree_topics (Record m t) = tree_topics t + 1"
proof (cases m t rule: Record_cases)
  case refused
  with assms(2) show ?thesis by (simp add: touch_None)
next
  case (recorded root fresh)
  have "touch full m pre ls x = Some (x', fresh) \<Longrightarrow> find_path ls x = Some n \<Longrightarrow> fresh" for full pre ls x x'
    using assms(3)
  proof (induction ls arbitrary: pre x x')
    case Nil
    then show ?case by (cases x) (auto simp: Let_def)
  next
    case (Cons l ls)
    then show ?case by (cases x) (auto split: option.splits if_splits)
  qed
  from this [OF recorded(1) assms(2)] recorded(3) show ?thesis by simp
qed

text \<open>A picture that holds the whole namespace says it is truncated when the budget is just met.\<close>

lemma graph_exact_budget_truncated:
  "tree_Graph 3 1 (Record (ex_msg ''a'' [1] 5) NewTree) =
     ([graph_node 1 3 (the (tree_find ''a'' (Record (ex_msg ''a'' [1] 5) NewTree)))], 5, True)"
  by (simp add: tree_Graph_def graph_loop.simps Record_def ex_msg_def zero_message_def NewTree_def
      new_node_def tree_find_def tree_newest_def bump_def maxTopics_def Let_def graph_node_def
      write_value_def)

end
