(* ===== verification/TopicLog.thy ===== *)
theory TopicLog
  imports Ring Message
begin

text \<open>
  \<^verbatim>\<open>internal/mqttc/topiclog.go\<close>: a ring of recent messages per topic under one byte budget, whole
  topics being evicted least recently used first. The element list \<^verbatim>\<open>order\<close> is a list of rings,
  front first; the map \<^verbatim>\<open>rings\<close> from a topic to its list element is the search \<open>find_ring\<close> in
  that list. Locks are not modelled: each operation is atomic.
\<close>

section \<open>The code\<close>

definition DefaultTopicLogEntries :: int where "DefaultTopicLogEntries = 100"
definition MaxTopicLogEntries :: int where "MaxTopicLogEntries = 10000"
definition DefaultTopicLogBudget :: int where "DefaultTopicLogBudget = 33554432"
definition maxTopicLogPayload :: nat where "maxTopicLogPayload = 8192"

record topicRing =
  tr_topic :: string
  tr_buf :: "Message list"
  tr_next :: nat
  tr_filled :: bool
  tr_bytes :: int

record TopicLog =
  tl_perTopic :: nat
  tl_budget :: int
  tl_bytes :: int
  tl_order :: "topicRing list"
  tl_evicted :: nat

definition topiclog_entries :: "int \<Rightarrow> int" where
  "topiclog_entries entries =
     (let entries = (if entries \<le> 0 then DefaultTopicLogEntries else entries)
      in if entries > MaxTopicLogEntries then MaxTopicLogEntries else entries)"

definition NewTopicLog :: "int \<Rightarrow> int \<Rightarrow> TopicLog" where
  "NewTopicLog entries budget =
     \<lparr>tl_perTopic = nat (topiclog_entries entries),
      tl_budget = (if budget \<le> 0 then DefaultTopicLogBudget else budget),
      tl_bytes = 0, tl_order = [], tl_evicted = 0\<rparr>"

definition topiclog_clip :: "Message \<Rightarrow> Message" where
  "topiclog_clip m =
     (if length (msg_payload m) > maxTopicLogPayload
      then m\<lparr>msg_payload := take maxTopicLogPayload (msg_payload m), msg_truncated := True\<rparr> else m)"

definition new_ring :: "nat \<Rightarrow> string \<Rightarrow> topicRing" where
  "new_ring n topic = \<lparr>tr_topic = topic, tr_buf = replicate n zero_message, tr_next = 0,
     tr_filled = False, tr_bytes = 0\<rparr>"

definition find_ring :: "string \<Rightarrow> TopicLog \<Rightarrow> topicRing option" where
  "find_ring topic l = find (\<lambda>r. tr_topic r = topic) (tl_order l)"

definition without_ring :: "string \<Rightarrow> topicRing list \<Rightarrow> topicRing list" where
  "without_ring topic rs = filter (\<lambda>r. tr_topic r \<noteq> topic) rs"

text \<open>The bytes of the slot about to be overwritten, which stop counting.\<close>

definition freed_bytes :: "topicRing \<Rightarrow> int" where
  "freed_bytes r = (if tr_filled r then int (length (msg_payload (tr_buf r ! tr_next r))) else 0)"

definition ring_write :: "Message \<Rightarrow> topicRing \<Rightarrow> topicRing" where
  "ring_write m r =
     (let nxt = (tr_next r + 1) mod length (tr_buf r) in
      r\<lparr>tr_bytes := tr_bytes r - freed_bytes r + int (length (msg_payload m)),
        tr_buf := (tr_buf r)[tr_next r := m],
        tr_next := nxt,
        tr_filled := (if nxt = 0 then True else tr_filled r)\<rparr>)"

function evictLocked :: "TopicLog \<Rightarrow> TopicLog" where
  "evictLocked l =
     (if tl_bytes l > tl_budget l \<and> tl_order l \<noteq> [] \<and> length (tl_order l) \<noteq> 1 then
        evictLocked (l\<lparr>tl_bytes := tl_bytes l - tr_bytes (last (tl_order l)),
                       tl_order := butlast (tl_order l),
                       tl_evicted := tl_evicted l + 1\<rparr>)
      else l)"
  by pat_completeness auto
termination by (relation "measure (\<lambda>l. length (tl_order l))") auto

declare evictLocked.simps [simp del]

definition topiclog_write :: "Message \<Rightarrow> TopicLog \<Rightarrow> TopicLog" where
  "topiclog_write m l =
     (let r = (case find_ring (msg_topic m) l of
                 None \<Rightarrow> new_ring (tl_perTopic l) (msg_topic m) | Some r \<Rightarrow> r)
      in l\<lparr>tl_order := ring_write m r # without_ring (msg_topic m) (tl_order l),
           tl_bytes := tl_bytes l - freed_bytes r + int (length (msg_payload m))\<rparr>)"

definition topiclog_Add :: "Message \<Rightarrow> TopicLog \<Rightarrow> TopicLog" where
  "topiclog_Add m l = evictLocked (topiclog_write (topiclog_clip m) l)"

definition chronological :: "topicRing \<Rightarrow> Message list" where
  "chronological r =
     (if \<not> tr_filled r then take (tr_next r) (tr_buf r)
      else drop (tr_next r) (tr_buf r) @ take (tr_next r) (tr_buf r))"

definition Entries :: "string \<Rightarrow> int \<Rightarrow> TopicLog \<Rightarrow> Message list \<times> TopicLog" where
  "Entries topic limit l =
     (case find_ring topic l of
        None \<Rightarrow> ([], l)
      | Some r \<Rightarrow>
          let l = l\<lparr>tl_order := r # without_ring topic (tl_order l)\<rparr>;
              out = chronological r;
              out = (if limit > 0 \<and> int (length out) > limit
                     then drop (length out - nat limit) out else out)
          in (out, l))"

definition Previous :: "string \<Rightarrow> TopicLog \<Rightarrow> Message option \<times> TopicLog" where
  "Previous topic l =
     (let (entries, l) = Entries topic 2 l
      in (if length entries < 2 then None else Some (entries ! 0), l))"

record TopicLogStats =
  ts_topics :: nat
  ts_bytes :: int
  ts_budget :: int
  ts_entriesPer :: nat
  ts_evicted :: nat

definition topiclog_Stats :: "TopicLog \<Rightarrow> TopicLogStats" where
  "topiclog_Stats l = \<lparr>ts_topics = length (tl_order l), ts_bytes = tl_bytes l, ts_budget = tl_budget l,
     ts_entriesPer = tl_perTopic l, ts_evicted = tl_evicted l\<rparr>"

definition topiclog_Topics :: "TopicLog \<Rightarrow> nat" where
  "topiclog_Topics l = length (tl_order l)"

definition topiclog_Clear :: "TopicLog \<Rightarrow> TopicLog" where
  "topiclog_Clear l = l\<lparr>tl_order := [], tl_bytes := 0\<rparr>"

definition Span :: "string \<Rightarrow> TopicLog \<Rightarrow> (time \<times> time \<times> nat) option \<times> TopicLog" where
  "Span topic l =
     (let (entries, l) = Entries topic 0 l
      in (if entries = [] then None
          else Some (msg_receivedAt (entries ! 0), msg_receivedAt (entries ! (length entries - 1)), length entries),
          l))"

section \<open>One ring\<close>

interpretation tlog: ring tr_buf tr_next tr_filled ring_write
  by unfold_locales (simp_all add: ring_write_def Let_def)

lemma chronological_contents: "chronological r = tlog.contents r"
  by (simp add: chronological_def tlog.contents_def ring_contents_def)

lemma ring_write_topic [simp]: "tr_topic (ring_write m r) = tr_topic r"
  by (simp add: ring_write_def Let_def)

definition payload_sum :: "Message list \<Rightarrow> int" where
  "payload_sum ms = (\<Sum>m\<leftarrow>ms. int (length (msg_payload m)))"

lemma payload_sum_simps [simp]:
  "payload_sum [] = 0"
  "payload_sum (m # ms) = int (length (msg_payload m)) + payload_sum ms"
  "payload_sum (ms @ ns) = payload_sum ms + payload_sum ns"
  by (simp_all add: payload_sum_def)

lemma payload_sum_nonneg [simp]: "0 \<le> payload_sum ms"
  by (induction ms) auto

definition tring_ok :: "nat \<Rightarrow> topicRing \<Rightarrow> bool" where
  "tring_ok n r \<longleftrightarrow> tlog.ring_ok r \<and> length (tr_buf r) = n \<and> tr_bytes r = payload_sum (chronological r)"

lemma new_ring_ok [wf_intro]: "0 < n \<Longrightarrow> tring_ok n (new_ring n t)"
  by (simp add: tring_ok_def new_ring_def tlog.ring_ok_def chronological_def)

lemma new_ring_empty: "chronological (new_ring n t) = []" "tr_topic (new_ring n t) = t"
  by (simp_all add: new_ring_def chronological_def)

lemma ring_write_contents:
  "tring_ok n r \<Longrightarrow> chronological (ring_write m r) = last_n n (chronological r @ [m])"
  by (auto simp: tring_ok_def chronological_contents tlog.contents_push)

lemma ring_write_ok [wf_intro]:
  assumes "tring_ok n r" shows "tring_ok n (ring_write m r)"
proof -
  have ok: "tlog.ring_ok r" using assms by (simp add: tring_ok_def)
  have b: "tr_bytes (ring_write m r) = tr_bytes r - freed_bytes r + int (length (msg_payload m))"
    by (simp add: ring_write_def Let_def)
  have "payload_sum (chronological (ring_write m r)) =
      payload_sum (chronological r) - freed_bytes r + int (length (msg_payload m))"
  proof (cases "tr_filled r")
    case True
    from tlog.contents_filled [OF ok True]
    have "payload_sum (chronological r) = freed_bytes r + payload_sum (tl (chronological r))"
      unfolding chronological_contents by (metis True freed_bytes_def payload_sum_simps(2))
    then show ?thesis
      by (simp add: chronological_contents tlog.contents_push_filled [OF ok True])
  next
    case False
    then show ?thesis
      by (simp add: freed_bytes_def chronological_contents tlog.contents_push_open [OF ok False])
  qed
  with b assms ok show ?thesis by (simp add: tring_ok_def tlog.ring_ok_push)
qed

lemma last_ring_write: "tring_ok n r \<Longrightarrow> chronological (ring_write m r) \<noteq> [] \<and> last (chronological (ring_write m r)) = m"
  by (simp add: tring_ok_def chronological_contents tlog.contents_push_last)


section \<open>The log\<close>

definition topiclog_ok :: "TopicLog \<Rightarrow> bool" where
  "topiclog_ok l \<longleftrightarrow>
     0 < tl_perTopic l \<and> distinct (map tr_topic (tl_order l)) \<and>
     (\<forall>r \<in> set (tl_order l). tring_ok (tl_perTopic l) r) \<and>
     tl_bytes l = (\<Sum>r\<leftarrow>tl_order l. tr_bytes r)"

definition within_budget :: "TopicLog \<Rightarrow> bool" where
  "within_budget l \<longleftrightarrow> tl_bytes l \<le> tl_budget l \<or> length (tl_order l) \<le> 1"

lemma find_ring_Some:
  "find_ring t l = Some r \<Longrightarrow> r \<in> set (tl_order l) \<and> tr_topic r = t"
  by (auto simp: find_ring_def find_Some_iff)

lemma find_ring_iff:
  "distinct (map tr_topic (tl_order l)) \<Longrightarrow>
     find_ring t l = Some r \<longleftrightarrow> r \<in> set (tl_order l) \<and> tr_topic r = t"
proof (unfold find_ring_def, induction "tl_order l" arbitrary: l)
  case (Cons a rs)
  from Cons.hyps(1) [of "l\<lparr>tl_order := rs\<rparr>"] Cons.prems show ?case
    by (auto simp flip: Cons.hyps(2))
qed simp

lemma sum_without_ring:
  fixes g :: "topicRing \<Rightarrow> int"
  shows "distinct (map tr_topic rs) \<Longrightarrow>
     sum_list (map g (without_ring t rs)) =
       sum_list (map g rs) - (case find (\<lambda>r. tr_topic r = t) rs of None \<Rightarrow> 0 | Some r \<Rightarrow> g r)"
proof (induction rs)
  case (Cons a rs)
  show ?case
  proof (cases "tr_topic a = t")
    case True
    then have "find (\<lambda>r. tr_topic r = t) rs = None" using Cons.prems by (force simp: find_None_iff image_iff)
    with Cons True show ?thesis by (simp add: without_ring_def)
  next
    case False
    with Cons show ?thesis by (simp add: without_ring_def)
  qed
qed (simp add: without_ring_def)

lemma distinct_without_ring: "distinct (map tr_topic rs) \<Longrightarrow> distinct (map tr_topic (without_ring t rs))"
  by (simp add: without_ring_def distinct_map_filter)

lemma set_without_ring: "set (without_ring t rs) = {r \<in> set rs. tr_topic r \<noteq> t}"
  by (simp add: without_ring_def)

lemma NewTopicLog_ok [wf_intro]: "topiclog_ok (NewTopicLog e b)"
  by (simp add: topiclog_ok_def NewTopicLog_def topiclog_entries_def DefaultTopicLogEntries_def
      MaxTopicLogEntries_def Let_def)

lemma Clear_ok [wf_intro]: "topiclog_ok l \<Longrightarrow> topiclog_ok (topiclog_Clear l)"
  by (simp add: topiclog_ok_def topiclog_Clear_def)

lemma Entries_ok [wf_intro]:
  assumes "topiclog_ok l" shows "topiclog_ok (snd (Entries t n l))"
proof (cases "find_ring t l")
  case (Some r)
  with assms find_ring_Some [OF Some] sum_without_ring [of "tl_order l" tr_bytes t] show ?thesis
    by (auto simp: topiclog_ok_def Entries_def Let_def set_without_ring distinct_without_ring find_ring_def)
qed (use assms in \<open>simp add: Entries_def\<close>)

text \<open>The ring a message is written to.\<close>

definition ring_for :: "string \<Rightarrow> TopicLog \<Rightarrow> topicRing" where
  "ring_for t l = (case find_ring t l of None \<Rightarrow> new_ring (tl_perTopic l) t | Some r \<Rightarrow> r)"

lemma ring_for_ok: "topiclog_ok l \<Longrightarrow> tring_ok (tl_perTopic l) (ring_for t l) \<and> tr_topic (ring_for t l) = t"
  by (auto simp: ring_for_def topiclog_ok_def new_ring_empty intro: new_ring_ok dest!: find_ring_Some split: option.splits)

lemma topiclog_write_ring:
  "topiclog_write m l =
     l\<lparr>tl_order := ring_write m (ring_for (msg_topic m) l) # without_ring (msg_topic m) (tl_order l),
       tl_bytes := tl_bytes l - freed_bytes (ring_for (msg_topic m) l) + int (length (msg_payload m))\<rparr>"
  by (simp add: topiclog_write_def ring_for_def Let_def)

lemma topiclog_write_ok [wf_intro]:
  assumes "topiclog_ok l" shows "topiclog_ok (topiclog_write m l)"
proof -
  let ?r = "ring_for (msg_topic m) l"
  have r: "tring_ok (tl_perTopic l) ?r" "tr_topic ?r = msg_topic m"
    using ring_for_ok [OF assms] by auto
  have b: "tr_bytes (ring_write m ?r) = tr_bytes ?r - freed_bytes ?r + int (length (msg_payload m))"
    by (simp add: ring_write_def Let_def)
  have new: "tr_bytes (new_ring n t) = 0" for n t by (simp add: new_ring_def)
  have "sum_list (map tr_bytes (without_ring (msg_topic m) (tl_order l))) = tl_bytes l - tr_bytes ?r"
    using sum_without_ring [of "tl_order l" tr_bytes "msg_topic m"] assms
    by (auto simp: topiclog_ok_def ring_for_def find_ring_def new split: option.splits)
  with b r assms show ?thesis
    by (auto simp: topiclog_ok_def topiclog_write_ring set_without_ring distinct_without_ring ring_write_ok)
qed

section \<open>Eviction\<close>

text \<open>
  Eviction keeps a prefix of the order: the most recently used topics. It never drops the front
  topic, and whatever it drops it had to: one topic more would still have been over budget.
\<close>

lemma evict_prefix:
  "topiclog_ok l \<Longrightarrow> \<exists>k. tl_order (evictLocked l) = take k (tl_order l) \<and> k \<le> length (tl_order l) \<and>
     (tl_order l \<noteq> [] \<longrightarrow> 0 < k) \<and>
     tl_evicted (evictLocked l) = tl_evicted l + (length (tl_order l) - k) \<and>
     (k < length (tl_order l) \<longrightarrow> (\<Sum>r\<leftarrow>take (Suc k) (tl_order l). tr_bytes r) > tl_budget l)"
proof (induction l rule: evictLocked.induct)
  case (1 l)
  show ?case
  proof (cases "tl_bytes l > tl_budget l \<and> tl_order l \<noteq> [] \<and> length (tl_order l) \<noteq> 1")
    case True
    let ?l = "l\<lparr>tl_bytes := tl_bytes l - tr_bytes (last (tl_order l)),
                tl_order := butlast (tl_order l), tl_evicted := tl_evicted l + 1\<rparr>"
    obtain rs x where o: "tl_order l = rs @ [x]" using True by (metis append_butlast_last_id)
    with True have rs: "rs \<noteq> []" by auto
    have "topiclog_ok ?l" using "1.prems" by (simp add: topiclog_ok_def o)
    from "1.IH" [OF True this] obtain k where
      "tl_order (evictLocked ?l) = take k rs \<and> k \<le> length rs \<and> 0 < k \<and>
       tl_evicted (evictLocked ?l) = tl_evicted l + 1 + (length rs - k) \<and>
       (k < length rs \<longrightarrow> (\<Sum>r\<leftarrow>take (Suc k) rs. tr_bytes r) > tl_budget l)"
      using rs unfolding o by auto
    then have k: "tl_order (evictLocked ?l) = take k rs" "k \<le> length rs" "0 < k"
      "tl_evicted (evictLocked ?l) = tl_evicted l + 1 + (length rs - k)"
      "k < length rs \<longrightarrow> (\<Sum>r\<leftarrow>take (Suc k) rs. tr_bytes r) > tl_budget l"
      by simp_all
    have e: "evictLocked l = evictLocked ?l" using True by (subst evictLocked.simps) simp
    have "(\<Sum>r\<leftarrow>take (Suc k) (tl_order l). tr_bytes r) > tl_budget l"
    proof (cases "k < length rs")
      case True
      with k(5) show ?thesis by (simp add: o)
    next
      case False
      with k(2) True "1.prems" show ?thesis by (simp add: o topiclog_ok_def)
    qed
    with k show ?thesis by (intro exI [of _ k]) (simp add: e o)
  next
    case False
    then have "evictLocked l = l" by (subst evictLocked.simps) auto
    then show ?thesis by (intro exI [of _ "length (tl_order l)"]) simp
  qed
qed

lemma evict_noop: "tl_bytes l \<le> tl_budget l \<Longrightarrow> evictLocked l = l"
  by (subst evictLocked.simps) simp

lemma evict_fields [simp]:
  "tl_perTopic (evictLocked l) = tl_perTopic l"
  "tl_budget (evictLocked l) = tl_budget l"
  by (induction l rule: evictLocked.induct; subst evictLocked.simps; simp)+

lemma evict_ok [wf_intro]: "topiclog_ok l \<Longrightarrow> topiclog_ok (evictLocked l)"
proof (induction l rule: evictLocked.induct)
  case (1 l)
  show ?case
  proof (cases "tl_bytes l > tl_budget l \<and> tl_order l \<noteq> [] \<and> length (tl_order l) \<noteq> 1")
    case True
    then obtain rs x where o: "tl_order l = rs @ [x]" by (metis append_butlast_last_id)
    with "1.prems" have "topiclog_ok (l\<lparr>tl_bytes := tl_bytes l - tr_bytes (last (tl_order l)),
                tl_order := butlast (tl_order l), tl_evicted := tl_evicted l + 1\<rparr>)"
      by (simp add: topiclog_ok_def)
    from "1.IH" [OF True this] True show ?thesis by (subst evictLocked.simps) simp
  next
    case False
    then have "evictLocked l = l" by (subst evictLocked.simps) auto
    with "1.prems" show ?thesis by simp
  qed
qed

lemma evict_within: "within_budget (evictLocked l)"
proof (induction l rule: evictLocked.induct)
  case (1 l)
  show ?case
  proof (cases "tl_bytes l > tl_budget l \<and> tl_order l \<noteq> [] \<and> length (tl_order l) \<noteq> 1")
    case True
    from "1.IH" [OF True] True show ?thesis by (subst evictLocked.simps) simp
  next
    case False
    then have "evictLocked l = l" by (subst evictLocked.simps) auto
    with False show ?thesis by (auto simp: within_budget_def)
  qed
qed


section \<open>Any sequence of operations\<close>

datatype topiclog_op = TL_Add Message | TL_Read string int | TL_Clear

fun topiclog_step :: "topiclog_op \<Rightarrow> TopicLog \<Rightarrow> TopicLog" where
  "topiclog_step (TL_Add m) l = topiclog_Add m l"
| "topiclog_step (TL_Read t n) l = snd (Entries t n l)"
| "topiclog_step TL_Clear l = topiclog_Clear l"

definition topiclog_run :: "topiclog_op list \<Rightarrow> int \<Rightarrow> int \<Rightarrow> TopicLog" where
  "topiclog_run ops entries budget = fold topiclog_step ops (NewTopicLog entries budget)"

lemma topiclog_run_simps [simp]:
  "topiclog_run [] e b = NewTopicLog e b"
  "topiclog_run (ops @ [x]) e b = topiclog_step x (topiclog_run ops e b)"
  by (simp_all add: topiclog_run_def)

lemma topiclog_step_ok [wf_intro]: "topiclog_ok l \<Longrightarrow> topiclog_ok (topiclog_step x l)"
  by (cases x) (auto simp: topiclog_Add_def intro: wf_intro)

lemma topiclog_run_ok [wf_intro]: "topiclog_ok (topiclog_run ops e b)"
  by (induction ops rule: rev_induct) (auto intro: wf_intro)

lemma Entries_frame [frame_simp]:
  "tl_perTopic (snd (Entries t n l)) = tl_perTopic l"
  "tl_budget (snd (Entries t n l)) = tl_budget l"
  "tl_bytes (snd (Entries t n l)) = tl_bytes l"
  by (simp_all add: Entries_def Let_def split: option.splits)

lemma topiclog_step_frame [frame_simp]:
  "tl_perTopic (topiclog_step x l) = tl_perTopic l"
  "tl_budget (topiclog_step x l) = tl_budget l"
  by (cases x; simp add: topiclog_Add_def topiclog_write_def topiclog_Clear_def Let_def frame_simp)+

lemma topiclog_run_frame [frame_simp]:
  "tl_perTopic (topiclog_run ops e b) = nat (topiclog_entries e)"
  "tl_budget (topiclog_run ops e b) = (if b \<le> 0 then DefaultTopicLogBudget else b)"
  by (induction ops rule: rev_induct; simp add: NewTopicLog_def frame_simp)+

lemma length_without_find:
  "distinct (map tr_topic rs) \<Longrightarrow> find (\<lambda>r. tr_topic r = t) rs = Some r \<Longrightarrow>
     Suc (length (without_ring t rs)) = length rs"
proof (induction rs)
  case (Cons a rs)
  show ?case
  proof (cases "tr_topic a = t")
    case True
    with Cons.prems(1) have "\<forall>r \<in> set rs. tr_topic r \<noteq> t" by (auto simp: image_iff)
    with True show ?thesis by (simp add: without_ring_def)
  qed (use Cons in \<open>simp add: without_ring_def\<close>)
qed simp

lemma Entries_length:
  "topiclog_ok l \<Longrightarrow> length (tl_order (snd (Entries t n l))) = length (tl_order l)"
  by (auto simp: Entries_def Let_def topiclog_ok_def find_ring_def length_without_find split: option.splits)

lemma Entries_within:
  "topiclog_ok l \<Longrightarrow> within_budget l \<Longrightarrow> within_budget (snd (Entries t n l))"
  by (simp add: within_budget_def Entries_length frame_simp)

lemma topiclog_run_within: "within_budget (topiclog_run ops e b)"
proof (induction ops rule: rev_induct)
  case (snoc x ops)
  then show ?case
    by (cases x)
      (simp_all add: topiclog_Add_def evict_within Entries_within topiclog_run_ok,
       simp add: topiclog_Clear_def within_budget_def)
qed (simp add: NewTopicLog_def within_budget_def)

text \<open>
  C7. However a topic log is used, the bytes it reports are the payload bytes it holds, no topic
  holds more than its share of entries, no topic is held twice, and the total is within the
  budget except when one topic alone exceeds it.
\<close>

theorem topiclog_memory_bounded:
  "topiclog_ok (topiclog_run ops entries budget) \<and>
   ts_bytes (topiclog_Stats (topiclog_run ops entries budget)) =
     (\<Sum>r\<leftarrow>tl_order (topiclog_run ops entries budget). payload_sum (chronological r)) \<and>
   (ts_bytes (topiclog_Stats (topiclog_run ops entries budget)) > (if budget \<le> 0 then DefaultTopicLogBudget else budget) \<longrightarrow>
      ts_topics (topiclog_Stats (topiclog_run ops entries budget)) = 1) \<and>
   (\<forall>r \<in> set (tl_order (topiclog_run ops entries budget)).
      length (chronological r) \<le> nat (topiclog_entries entries))"
proof -
  let ?l = "topiclog_run ops entries budget"
  have ok: "topiclog_ok ?l" by (rule topiclog_run_ok)
  have sums: "(\<Sum>r\<leftarrow>rs. tr_bytes r) = (\<Sum>r\<leftarrow>rs. payload_sum (chronological r))"
    if "\<forall>r \<in> set rs. tring_ok n r" for rs n
    using that by (induction rs) (auto simp: tring_ok_def)
  have bytes: "tl_bytes ?l = (\<Sum>r\<leftarrow>tl_order ?l. payload_sum (chronological r))"
    using ok sums [of "tl_order ?l" "tl_perTopic ?l"] by (simp add: topiclog_ok_def)
  moreover have "length (tl_order ?l) = 1"
    if "tl_bytes ?l > (if budget \<le> 0 then DefaultTopicLogBudget else budget)"
  proof -
    have "tl_order ?l \<noteq> []"
    proof
      assume "tl_order ?l = []"
      then have "tl_bytes ?l = 0" using bytes by simp
      with that show False by (simp add: DefaultTopicLogBudget_def split: if_splits)
    qed
    moreover have "length (tl_order ?l) \<le> 1"
      using that topiclog_run_within [of ops entries budget]
      by (auto simp: within_budget_def frame_simp split: if_splits)
    ultimately show ?thesis by (cases "tl_order ?l") auto
  qed
  moreover have "length (chronological r) \<le> nat (topiclog_entries entries)"
    if "r \<in> set (tl_order ?l)" for r
  proof -
    have "tring_ok (nat (topiclog_entries entries)) r"
      using ok that by (auto simp: topiclog_ok_def frame_simp)
    then show ?thesis
      by (auto simp: tring_ok_def chronological_contents tlog.length_contents tlog.ring_ok_def)
  qed
  ultimately show ?thesis using ok by (simp add: topiclog_Stats_def)
qed


theorem topiclog_memory_bounded_witness:
  "ts_bytes (topiclog_Stats (topiclog_run [TL_Add (zero_message\<lparr>msg_topic := ''a''\<rparr>), TL_Clear] 2 9)) = 0"
proof -
  let ?ops = "[TL_Add (zero_message\<lparr>msg_topic := ''a''\<rparr>), TL_Clear]"
  have "tl_order (topiclog_run ?ops 2 9) = []" by (simp add: topiclog_run_def topiclog_Clear_def)
  with topiclog_memory_bounded [of "?ops" 2 9] show ?thesis by simp
qed

section \<open>What a topic holds\<close>

definition held :: "string \<Rightarrow> TopicLog \<Rightarrow> Message list" where
  "held t l = (case find_ring t l of None \<Rightarrow> [] | Some r \<Rightarrow> chronological r)"

lemma Entries_held:
  "fst (Entries t n l) = (if n > 0 \<and> int (length (held t l)) > n then last_n (nat n) (held t l) else held t l)"
  by (simp add: Entries_def held_def last_n_def Let_def split: option.splits)

lemma held_write:
  assumes "topiclog_ok l"
  shows "held t (topiclog_write m l) =
           (if t = msg_topic m then last_n (tl_perTopic l) (held t l @ [m]) else held t l)"
proof (cases "t = msg_topic m")
  case True
  have r: "tring_ok (tl_perTopic l) (ring_for t l)" "tr_topic (ring_for t l) = t"
    using ring_for_ok [OF assms] by auto
  have "chronological (ring_for t l) = held t l"
    by (simp add: ring_for_def held_def new_ring_empty split: option.splits)
  with r True ring_write_contents [OF r(1), of m] show ?thesis
    by (simp add: held_def topiclog_write_ring find_ring_def)
next
  case False
  have "find (\<lambda>r. tr_topic r = t) (without_ring u rs) = find (\<lambda>r. tr_topic r = t) rs" if "t \<noteq> u" for rs u
    using that by (induction rs) (auto simp: without_ring_def)
  from this [OF False] False ring_for_ok [OF assms, of "msg_topic m"] show ?thesis
    by (simp add: held_def find_ring_def topiclog_write_ring)
qed

lemma held_evict:
  assumes "topiclog_ok l"
  shows "held t (evictLocked l) = held t l \<or> held t (evictLocked l) = []"
    and "tl_evicted (evictLocked l) = tl_evicted l \<Longrightarrow> held t (evictLocked l) = held t l"
    and "tl_order l = r # rs \<Longrightarrow> tr_topic r = t \<Longrightarrow> held t (evictLocked l) = held t l"
proof -
  obtain k where k: "tl_order (evictLocked l) = take k (tl_order l)" "k \<le> length (tl_order l)"
    "tl_order l \<noteq> [] \<longrightarrow> 0 < k" "tl_evicted (evictLocked l) = tl_evicted l + (length (tl_order l) - k)"
    using evict_prefix [OF assms] by blast
  have "find P (take j rs) = find P rs \<or> find P (take j rs) = None" for P j and rs :: "topicRing list"
    by (induction rs arbitrary: j) (auto simp: take_Cons split: nat.splits)
  from this [of "\<lambda>r. tr_topic r = t" k "tl_order l"] k(1)
  show "held t (evictLocked l) = held t l \<or> held t (evictLocked l) = []"
    by (auto simp: held_def find_ring_def)
  show "held t (evictLocked l) = held t l" if "tl_evicted (evictLocked l) = tl_evicted l"
    using that k by (simp add: held_def find_ring_def)
  show "held t (evictLocked l) = held t l" if "tl_order l = r # rs" "tr_topic r = t"
    using that k by (cases k) (simp_all add: held_def find_ring_def)
qed

lemma held_Add_suffix:
  assumes "topiclog_ok l"
  shows "suffix (held t (topiclog_Add m l)) (held t l @ (if msg_topic m = t then [topiclog_clip m] else []))"
proof -
  have [simp]: "msg_topic (topiclog_clip m) = msg_topic m" by (simp add: topiclog_clip_def)
  let ?w = "topiclog_write (topiclog_clip m) l"
  have "suffix (held t ?w) (held t l @ (if msg_topic m = t then [topiclog_clip m] else []))"
    using last_n_suffix [of "tl_perTopic l" "held t l @ [topiclog_clip m]"]
    by (auto simp: held_write [OF assms])
  then show ?thesis
    using held_evict(1) [OF topiclog_write_ok [OF assms], of t "topiclog_clip m"]
    by (auto simp: topiclog_Add_def)
qed

lemma held_Add_last:
  assumes "topiclog_ok l"
  shows "held (msg_topic m) (topiclog_Add m l) = last_n (tl_perTopic l) (held (msg_topic m) l @ [topiclog_clip m])"
proof -
  have [simp]: "msg_topic (topiclog_clip m) = msg_topic m" by (simp add: topiclog_clip_def)
  have "\<exists>r rs. tl_order (topiclog_write (topiclog_clip m) l) = r # rs \<and> tr_topic r = msg_topic m"
    using ring_for_ok [OF assms, of "msg_topic m"] by (simp add: topiclog_write_ring)
  then show ?thesis
    using held_evict(3) [OF topiclog_write_ok [OF assms]] held_write [OF assms]
    by (auto simp: topiclog_Add_def)
qed

lemma held_Read: "topiclog_ok l \<Longrightarrow> held t (snd (Entries u n l)) = held t l"
proof (cases "find_ring u l")
  case (Some r)
  assume ok: "topiclog_ok l"
  have ru: "tr_topic r = u" using find_ring_Some [OF Some] by simp
  have "find (\<lambda>r. tr_topic r = t) (without_ring u rs) = find (\<lambda>r. tr_topic r = t) rs" if "t \<noteq> u" for rs
    using that by (induction rs) (auto simp: without_ring_def)
  with ru Some show ?thesis
    by (cases "t = u") (auto simp: held_def Entries_def find_ring_def Let_def)
qed (simp add: Entries_def)

text \<open>The messages a topic has received since the log was last cleared, clipped.\<close>

fun sent_step :: "string \<Rightarrow> topiclog_op \<Rightarrow> Message list \<Rightarrow> Message list" where
  "sent_step t (TL_Add m) ms = (if msg_topic m = t then ms @ [topiclog_clip m] else ms)"
| "sent_step t (TL_Read u n) ms = ms"
| "sent_step t TL_Clear ms = []"

definition sent_on :: "string \<Rightarrow> topiclog_op list \<Rightarrow> Message list" where
  "sent_on t ops = fold (sent_step t) ops []"

lemma held_suffix: "suffix (held t (topiclog_run ops e b)) (sent_on t ops)"
proof (induction ops rule: rev_induct)
  case Nil
  then show ?case by (simp add: held_def find_ring_def NewTopicLog_def)
next
  case (snoc x ops)
  show ?case
  proof (cases x)
    case (TL_Add m)
    have "suffix (held t (topiclog_run ops e b) @ (if msg_topic m = t then [topiclog_clip m] else []))
       (sent_on t (ops @ [x]))"
      using snoc by (simp add: TL_Add sent_on_def)
    then show ?thesis
      unfolding TL_Add topiclog_run_simps topiclog_step.simps
      by (rule suffix_order.trans [OF held_Add_suffix [OF topiclog_run_ok]])
  next
    case (TL_Read u n)
    with snoc show ?thesis by (simp add: held_Read topiclog_run_ok sent_on_def)
  next
    case TL_Clear
    then show ?thesis by (simp add: topiclog_Clear_def held_def find_ring_def)
  qed
qed

lemma evicted_mono: "topiclog_ok l \<Longrightarrow> tl_evicted l \<le> tl_evicted (topiclog_step x l)"
proof (cases x)
  case (TL_Add m)
  assume "topiclog_ok l"
  from evict_prefix [OF topiclog_write_ok [OF this, of "topiclog_clip m"]] TL_Add show ?thesis
    by (auto simp: topiclog_Add_def topiclog_write_def Let_def)
qed (auto simp: Entries_def topiclog_Clear_def Let_def split: option.splits)

lemma held_exact:
  "tl_evicted (topiclog_run ops e b) = 0 \<Longrightarrow>
     held t (topiclog_run ops e b) = last_n (nat (topiclog_entries e)) (sent_on t ops)"
proof (induction ops rule: rev_induct)
  case Nil
  then show ?case by (simp add: held_def find_ring_def NewTopicLog_def sent_on_def)
next
  case (snoc x ops)
  let ?l = "topiclog_run ops e b"
  have ok: "topiclog_ok ?l" by (rule topiclog_run_ok)
  have "tl_evicted ?l = 0" using snoc.prems evicted_mono [OF ok, of x] by simp
  note IH = snoc.IH [OF this]
  show ?case
  proof (cases x)
    case (TL_Add m)
    have [simp]: "msg_topic (topiclog_clip m) = msg_topic m" by (simp add: topiclog_clip_def)
    have "tl_evicted (topiclog_write n ?l) = tl_evicted ?l" for n by (simp add: topiclog_write_def Let_def)
    then have "held t (topiclog_Add m ?l) = held t (topiclog_write (topiclog_clip m) ?l)"
      using snoc.prems \<open>tl_evicted ?l = 0\<close> held_evict(2) [OF topiclog_write_ok [OF ok]]
      by (simp add: TL_Add topiclog_Add_def)
    then show ?thesis
      using IH by (auto simp: TL_Add held_write [OF ok] sent_on_def frame_simp last_n_last_n_snoc)
  next
    case (TL_Read u n)
    with IH show ?thesis by (simp add: held_Read ok sent_on_def)
  next
    case TL_Clear
    then show ?thesis by (simp add: topiclog_Clear_def held_def find_ring_def sent_on_def)
  qed
qed

text \<open>
  What the log shows of a topic is always an unbroken end of what the topic received: a
  timeline with no hole in it. While nothing was evicted it is exactly the last entries, and a
  message just written is always there, whatever the budget.
\<close>

theorem topiclog_no_holes:
  "suffix (fst (Entries t limit (topiclog_run ops entries budget))) (sent_on t ops) \<and>
   (ts_evicted (topiclog_Stats (topiclog_run ops entries budget)) = 0 \<longrightarrow>
      fst (Entries t 0 (topiclog_run ops entries budget)) =
        last_n (nat (topiclog_entries entries)) (sent_on t ops)) \<and>
   (fst (Entries (msg_topic m) 0 (topiclog_run (ops @ [TL_Add m]) entries budget)) \<noteq> [] \<and>
    last (fst (Entries (msg_topic m) 0 (topiclog_run (ops @ [TL_Add m]) entries budget))) = topiclog_clip m)"
proof -
  have "suffix (fst (Entries t limit (topiclog_run ops entries budget))) (held t (topiclog_run ops entries budget))"
    by (simp add: Entries_held last_n_suffix)
  then have "suffix (fst (Entries t limit (topiclog_run ops entries budget))) (sent_on t ops)"
    using held_suffix suffix_order.trans by blast
  moreover have "held (msg_topic m) (topiclog_run (ops @ [TL_Add m]) entries budget) =
      last_n (nat (topiclog_entries entries) - 1) (held (msg_topic m) (topiclog_run ops entries budget)) @
      [topiclog_clip m]"
    using topiclog_run_ok [of ops entries budget]
    by (simp add: held_Add_last last_n_snoc topiclog_ok_def frame_simp)
  ultimately show ?thesis by (simp add: Entries_held held_exact topiclog_Stats_def)
qed

theorem topiclog_no_holes_witness:
  "fst (Entries ''a'' 0 (topiclog_run [TL_Add (zero_message\<lparr>msg_topic := ''a''\<rparr>), TL_Read ''a'' 0] 2 9)) =
     [zero_message\<lparr>msg_topic := ''a''\<rparr>]"
proof -
  let ?m = "zero_message\<lparr>msg_topic := ''a''\<rparr>" and ?ops = "[TL_Add (zero_message\<lparr>msg_topic := ''a''\<rparr>), TL_Read ''a'' 0]"
  have "ts_evicted (topiclog_Stats (topiclog_run ?ops 2 9)) = 0"
    by (simp add: topiclog_run_def topiclog_Stats_def topiclog_Add_def topiclog_write_def find_ring_def
        NewTopicLog_def evict_noop Entries_def Let_def new_ring_def ring_write_def freed_bytes_def
        topiclog_clip_def zero_message_def maxTopicLogPayload_def)
  with topiclog_no_holes [of "''a''" 0 "?ops" 2 9] show ?thesis
    by (simp add: sent_on_def topiclog_entries_def MaxTopicLogEntries_def topiclog_clip_def
      maxTopicLogPayload_def zero_message_def)
qed

end
