(* ===== verification/Diagnose.thy ===== *)
theory Diagnose
  imports Message
begin

text \<open>
  \<^verbatim>\<open>internal/mqttc/diagnose.go\<close>: the hint put on a failed connect. A Go error is what the code can
  see of it: its text, whether the chain already holds a \<^verbatim>\<open>ConnectError\<close>, and which of the typed
  errors it looks for with \<^verbatim>\<open>errors.As\<close> and \<^verbatim>\<open>errors.Is\<close> the chain holds. \<^verbatim>\<open>url.Parse\<close> is an
  argument, and so is \<open>quote\<close>, Go's \<^verbatim>\<open>%q\<close>.
\<close>

section \<open>The code\<close>

record GoError =
  ge_text :: string
  ge_connectError :: bool
  ge_unknownCA :: bool
  ge_hostname :: "string option"
  ge_expired :: bool
  ge_dns :: "string option"
  ge_deadline :: bool

definition plain_error :: "string \<Rightarrow> GoError" where
  "plain_error text = \<lparr>ge_text = text, ge_connectError = False, ge_unknownCA = False, ge_hostname = None,
     ge_expired = False, ge_dns = None, ge_deadline = False\<rparr>"

definition em_dash :: string where "em_dash = '' '' @ [CHR 0xE2, CHR 0x80, CHR 0x94] @ '' ''"
definition arrow :: string where "arrow = '' '' @ [CHR 0xE2, CHR 0x86, CHR 0x92] @ '' ''"

definition hostPort :: "(string \<Rightarrow> Url option) \<Rightarrow> string \<Rightarrow> string" where
  "hostPort parse raw =
     (case parse raw of None \<Rightarrow> raw | Some u \<Rightarrow> if u_host u = [] then raw else u_host u)"

definition tlsHint :: "(string \<Rightarrow> Url option) \<Rightarrow> (string \<Rightarrow> string) \<Rightarrow> ConnectionSpec \<Rightarrow> GoError \<Rightarrow> string" where
  "tlsHint parse quote spec err =
     (let msg = ge_text err; says = contains_sub msg; tls = UsesTLS parse spec in
      if says ''legacy Common Name field'' then
        ''the broker's certificate has no Subject Alternative Name, only a Common Name, and Go refuses those '' @
        ''even with the right CA; reissue the certificate with a SAN, or enable Skip certificate verification''
      else if ge_unknownCA err then
        ''the broker's certificate is not signed by a CA this server trusts; '' @
        ''paste the CA certificate under TLS'' @ arrow @ ''CA certificate, or enable Skip certificate verification''
      else case ge_hostname err of
        Some host \<Rightarrow>
          ''the certificate is not valid for '' @ quote host @ ''; set TLS'' @ arrow @
          ''Server name to a name the certificate covers, or enable Skip certificate verification''
      | None \<Rightarrow>
      if ge_expired err then ''the broker's certificate has expired; renew it on the broker''
      else if says ''tls: certificate required'' then
        ''the broker requires a client certificate (mutual TLS); supply one under TLS'' @ arrow @
        ''Client certificate and key''
      else if says ''tls: bad certificate'' \<or> says ''tls: unknown certificate'' then
        ''the broker rejected our client certificate; check it is signed by the CA the broker trusts and has not expired''
      else if says ''first record does not look like a TLS handshake'' then
        ''that port speaks plain MQTT, not TLS; use an mqtt:// URL or point mqtts:// at the TLS port (usually 8883)''
      else if says ''protocol version not supported'' \<or> says ''handshake failure'' then
        ''TLS handshake was refused; the broker may require a different TLS version or cipher''
      else if tls \<and> says ''connection reset by peer'' then
        ''the broker closed the TLS connection without an alert; requiring a client certificate (mutual TLS) '' @
        ''is the usual reason, so try supplying one under TLS'' @ arrow @ ''Client certificate and key''
      else if \<not> tls \<and> (says ''connection reset by peer'' \<or> says ''EOF'') then
        ''the broker closed the connection immediately, which usually means it expects TLS; try mqtts:// on port 8883''
      else [])"

definition networkHint :: "(string \<Rightarrow> Url option) \<Rightarrow> (string \<Rightarrow> string) \<Rightarrow> ConnectionSpec \<Rightarrow> GoError \<Rightarrow> string" where
  "networkHint parse quote spec err =
     (case ge_dns err of
        Some name \<Rightarrow> ''hostname '' @ quote name @ '' did not resolve; check the name and this server's DNS''
      | None \<Rightarrow>
        let says = contains_sub (ge_text err); hp = hostPort parse (cs_url spec) in
        if says ''connection refused'' then
          ''nothing is listening on '' @ hp @ ''; check the port and that the broker's listener is bound to an '' @
          ''address reachable from this server''
        else if says ''no route to host'' \<or> says ''network is unreachable'' then
          hp @ '' is filtered or unroutable from this server; a firewall between the two is the usual cause''
        else if says ''i/o timeout'' \<or> ge_deadline err then
          ''no reply from '' @ hp @
          '' within the connect timeout; the packets are most likely being dropped by a firewall''
        else [])"

definition connackHint :: "GoError \<Rightarrow> string" where
  "connackHint err =
     (let says = contains_sub (to_lower (ge_text err)) in
      if says ''bad user name or password'' \<or> says ''bad username or password'' then
        ''the broker rejected the credentials; check the username and password''
      else if says ''not authorized'' \<or> says ''not authorised'' then
        ''the broker accepted the connection but refused this client; check its ACL for the username or client ID''
      else if says ''identifier rejected'' then ''the broker rejected the client ID; try a different one''
      else if says ''server unavailable'' then ''the broker is up but not accepting connections yet''
      else [])"

definition connectHint :: "(string \<Rightarrow> Url option) \<Rightarrow> (string \<Rightarrow> string) \<Rightarrow> ConnectionSpec \<Rightarrow> GoError \<Rightarrow> string" where
  "connectHint parse quote spec err =
     (if tlsHint parse quote spec err \<noteq> [] then tlsHint parse quote spec err
      else if networkHint parse quote spec err \<noteq> [] then networkHint parse quote spec err
      else connackHint err)"

text \<open>\<^verbatim>\<open>ConnectError.Error\<close>: the original text, and the hint after it when there is one.\<close>

definition ConnectError_Error :: "string \<Rightarrow> string \<Rightarrow> string \<Rightarrow> string" where
  "ConnectError_Error url err hint =
     (let msg = ''connect to '' @ url @ '': '' @ err in if hint \<noteq> [] then msg @ em_dash @ hint else msg)"

definition explainConnectError ::
    "(string \<Rightarrow> Url option) \<Rightarrow> (string \<Rightarrow> string) \<Rightarrow> ConnectionSpec \<Rightarrow> GoError option \<Rightarrow> GoError option" where
  "explainConnectError parse quote spec err =
     (case err of
        None \<Rightarrow> None
      | Some e \<Rightarrow>
          if ge_connectError e then Some e
          else Some (e\<lparr>ge_text := ConnectError_Error (cs_url spec) (ge_text e) (connectHint parse quote spec e),
                       ge_connectError := True\<rparr>))"

section \<open>Properties\<close>

text \<open>
  Explaining a connect failure never hides it: no error stays no error, the original text is
  still in what is shown, the typed errors underneath are still found, and explaining twice adds
  nothing.
\<close>

theorem explain_keeps_error:
  "(explainConnectError parse quote spec err = None \<longleftrightarrow> err = None) \<and>
   explainConnectError parse quote spec' (explainConnectError parse quote spec err) =
     explainConnectError parse quote spec err \<and>
   (case (err, explainConnectError parse quote spec err) of
      (Some e, Some e') \<Rightarrow>
        contains_sub (ge_text e') (ge_text e) \<and> ge_connectError e' \<and>
        (ge_unknownCA e', ge_hostname e', ge_expired e', ge_dns e', ge_deadline e') =
        (ge_unknownCA e, ge_hostname e, ge_expired e, ge_dns e, ge_deadline e)
    | _ \<Rightarrow> True)"
proof -
  have "contains_sub (ConnectError_Error url t h) t" for url t h
  proof -
    have "ConnectError_Error url t h =
        (''connect to '' @ url @ '': '') @ t @ (if h \<noteq> [] then em_dash @ h else [])"
      by (simp add: ConnectError_Error_def Let_def)
    then show ?thesis unfolding contains_sub_iff by blast
  qed
  moreover have "contains_sub t t" for t
    unfolding contains_sub_iff by (metis append_Nil append_Nil2)
  ultimately show ?thesis
    by (auto simp: explainConnectError_def split: option.splits)
qed

end
