(* ===== verification/Conn.thy ===== *)
theory Conn
  imports Diagnose Spec History TopicTree TopicLog
begin

text \<open>
  The connection half of \<^verbatim>\<open>internal/mqttc/manager.go\<close>, and of \<^verbatim>\<open>client_v3.go\<close> the part a connection
  relies on: the set of subscriptions a client remembers and replays on every reconnect.

  The MQTT library, the network and the clock are not under \<open>src/\<close>: what one call meets is an
  \<open>Env\<close>, the outcome of each library call the operation makes and the time it reads. Clients live in
  a store, since a connection that is still dialling and the connection's field refer to the same
  one. Whatever a connection tells its manager's observers is appended to \<open>cn_out\<close>. A critical
  section under \<^verbatim>\<open>c.mu\<close> is one definition; operations made of several are compositions, so that
  the theory \<open>ConnRace\<close> can interleave them.
\<close>

section \<open>Clients\<close>

record Client =
  cl_subs :: "string \<rightharpoonup> Subscription"
  cl_closed :: bool

definition client_new :: "ConnectionSpec \<Rightarrow> Client" where
  "client_new spec =
     \<lparr>cl_subs = fold (\<lambda>s m. m(sub_filter s \<mapsto> s)) (cs_subscriptions spec) Map.empty, cl_closed = False\<rparr>"

definition client_Subscribe :: "Subscription list \<Rightarrow> Client \<Rightarrow> Client" where
  "client_Subscribe subs cl = cl\<lparr>cl_subs := fold (\<lambda>s m. m(sub_filter s \<mapsto> s)) subs (cl_subs cl)\<rparr>"

definition client_Unsubscribe :: "string list \<Rightarrow> Client \<Rightarrow> Client" where
  "client_Unsubscribe filters cl = cl\<lparr>cl_subs := fold (\<lambda>f m. m(f := None)) filters (cl_subs cl)\<rparr>"

definition client_Disconnect :: "Client \<Rightarrow> Client" where
  "client_Disconnect cl = cl\<lparr>cl_closed := True\<rparr>"

section \<open>Connections\<close>

datatype ConnEvent = EmitStatus Status | EmitMessage Message

record Conn =
  cn_spec :: ConnectionSpec
  cn_client :: "nat option"
  cn_status :: Status
  cn_wantConnect :: bool
  cn_tree :: Tree
  cn_history :: History
  cn_topicLog :: TopicLog
  cn_ephemeral :: "(string \<times> Subscription) list"
  cn_seq :: nat
  cn_received :: nat
  cn_sent :: nat
  cn_clients :: "nat \<Rightarrow> Client option"
  cn_nextClient :: nat
  cn_out :: "ConnEvent list"

record Env =
  env_now :: time
  env_parse :: "string \<Rightarrow> Url option"
  env_quote :: "string \<Rightarrow> string"
  env_newErr :: "GoError option"
  env_dialErr :: "GoError option"
  env_ups :: "bool list"
  env_subErr :: "GoError option"
  env_unsubErr :: "GoError option"
  env_pubErr :: "GoError option"
  env_discErr :: "GoError option"

definition explain :: "Env \<Rightarrow> ConnectionSpec \<Rightarrow> GoError option \<Rightarrow> GoError option" where
  "explain env spec err = explainConnectError (env_parse env) (env_quote env) spec err"

definition newConn :: "Env \<Rightarrow> ConnectionSpec \<Rightarrow> Conn" where
  "newConn env spec =
     \<lparr>cn_spec = spec, cn_client = None,
      cn_status = \<lparr>st_connectionID = cs_id spec, st_state = StateDisconnected, st_since = env_now env,
        st_connectedAt = None, st_lastError = [], st_attempts = 0, st_received = 0, st_sent = 0,
        st_sessionPresent = False, st_version = Version_String (cs_version spec)\<rparr>,
      cn_wantConnect = False,
      cn_tree = NewTree, cn_history = NewHistory (cs_historySize spec),
      cn_topicLog = NewTopicLog (cs_topicLogEntries spec) (cs_topicLogBudget spec),
      cn_ephemeral = [], cn_seq = 0, cn_received = 0, cn_sent = 0,
      cn_clients = Map.empty, cn_nextClient = 0, cn_out = []\<rparr>"

definition conn_Status :: "Conn \<Rightarrow> Status" where
  "conn_Status c = (cn_status c)\<lparr>st_received := cn_received c, st_sent := cn_sent c\<rparr>"

definition setSpec :: "ConnectionSpec \<Rightarrow> Conn \<Rightarrow> Conn" where
  "setSpec spec c =
     c\<lparr>cn_spec := spec, cn_status := (cn_status c)\<lparr>st_version := Version_String (cs_version spec)\<rparr>\<rparr>"

definition setState :: "Env \<Rightarrow> State \<Rightarrow> GoError option \<Rightarrow> Conn \<Rightarrow> Conn" where
  "setState env state err c =
     (let st = cn_status c;
          st = (if st_state st \<noteq> state then st\<lparr>st_state := state, st_since := env_now env\<rparr> else st);
          st = (if state = StateConnected then st\<lparr>st_connectedAt := Some (env_now env), st_lastError := []\<rparr>
                else case err of
                  Some e \<Rightarrow> st\<lparr>st_lastError := ge_text e\<rparr>
                | None \<Rightarrow> if state = StateDisconnected then st\<lparr>st_connectedAt := None, st_lastError := []\<rparr>
                          else st);
          c = c\<lparr>cn_status := st\<rparr>
      in c\<lparr>cn_out := cn_out c @ [EmitStatus (conn_Status c)]\<rparr>)"

text \<open>A call on the client a handle refers to.\<close>

definition on_client :: "(Client \<Rightarrow> Client) \<Rightarrow> nat \<Rightarrow> Conn \<Rightarrow> Conn" where
  "on_client f i c = c\<lparr>cn_clients := (cn_clients c)(i := map_option f (cn_clients c i))\<rparr>"

section \<open>Which edits need a new session\<close>

definition tlsChanged :: "TLSSpec \<Rightarrow> TLSSpec \<Rightarrow> bool" where
  "tlsChanged a b \<longleftrightarrow>
     (if tls_insecureSkipVerify a \<noteq> tls_insecureSkipVerify b \<or> tls_serverName a \<noteq> tls_serverName b \<or>
         tls_caPEM a \<noteq> tls_caPEM b \<or> tls_clientCertPEM a \<noteq> tls_clientCertPEM b \<or>
         tls_clientKeyPEM a \<noteq> tls_clientKeyPEM b \<or> tls_minVersion a \<noteq> tls_minVersion b \<or>
         length (tls_alpn a) \<noteq> length (tls_alpn b)
      then True else tls_alpn a \<noteq> tls_alpn b)"

definition willChanged :: "Will option \<Rightarrow> Will option \<Rightarrow> bool" where
  "willChanged a b \<longleftrightarrow>
     (case (a, b) of (None, None) \<Rightarrow> False | (Some x, Some y) \<Rightarrow> x \<noteq> y | _ \<Rightarrow> True)"

definition needsRestart :: "ConnectionSpec \<Rightarrow> Conn \<Rightarrow> bool" where
  "needsRestart nxt c \<longleftrightarrow>
     (let cur = cn_spec c in
      cs_url cur \<noteq> cs_url nxt \<or> cs_version cur \<noteq> cs_version nxt \<or> cs_clientID cur \<noteq> cs_clientID nxt \<or>
      cs_username cur \<noteq> cs_username nxt \<or> cs_password cur \<noteq> cs_password nxt \<or>
      cs_keepAlive cur \<noteq> cs_keepAlive nxt \<or> cs_cleanStart cur \<noteq> cs_cleanStart nxt \<or>
      cs_sessionExpiry cur \<noteq> cs_sessionExpiry nxt \<or> tlsChanged (cs_tls cur) (cs_tls nxt) \<or>
      willChanged (cs_will cur) (cs_will nxt))"

section \<open>Subscriptions\<close>

definition SysFilter :: string where "SysFilter = ''$SYS/#''"

definition wantedSubscriptions :: "Conn \<Rightarrow> Subscription list" where
  "wantedSubscriptions c =
     cs_subscriptions (cn_spec c) @ map snd (cn_ephemeral c) @
     (if cs_sysStats (cn_spec c)
      then [\<lparr>sub_filter = SysFilter, sub_qos = 0, sub_noLocal = False, sub_retainAsPublished = False,
             sub_retainHandling = 0\<rparr>]
      else [])"

definition wantsSys :: "Conn \<Rightarrow> bool" where
  "wantsSys c \<longleftrightarrow> cs_sysStats (cn_spec c) \<or> (\<exists>s \<in> set (cs_subscriptions (cn_spec c)). sub_filter s = SysFilter)"

fun validate_subs :: "bool \<Rightarrow> Subscription list \<Rightarrow> (string option) option" where
  "validate_subs checkQos [] = None"
| "validate_subs checkQos (s # ss) =
     (case ValidateFilter (sub_filter s) of
        Inl e \<Rightarrow> Some None
      | Inr _ \<Rightarrow> if checkQos \<and> sub_qos s > 2 then Some (Some (sub_filter s)) else validate_subs checkQos ss)"

text \<open>Errors of an operation: a bad filter, a bad QoS, no client, or what the library returned.\<close>

datatype conn_error = BadFilter | BadSubQos string | BadTopic | BadQos | NotConnected | LibError GoError

definition of_lib :: "GoError option \<Rightarrow> conn_error + unit" where
  "of_lib e = (case e of None \<Rightarrow> Inr () | Some x \<Rightarrow> Inl (LibError x))"

fun put_ephemeral :: "Subscription \<Rightarrow> (string \<times> Subscription) list \<Rightarrow> (string \<times> Subscription) list" where
  "put_ephemeral s [] = [(sub_filter s, s)]"
| "put_ephemeral s ((f, x) # es) = (if f = sub_filter s then (f, s) # es else (f, x) # put_ephemeral s es)"

text \<open>A client answers a call with nothing to do without asking the library.\<close>

definition sub_result :: "Env \<Rightarrow> Subscription list \<Rightarrow> conn_error + unit" where
  "sub_result env subs = of_lib (if subs = [] then None else env_subErr env)"

definition unsub_result :: "Env \<Rightarrow> string list \<Rightarrow> conn_error + unit" where
  "unsub_result env filters = of_lib (if filters = [] then None else env_unsubErr env)"

definition SubscribeEphemeral :: "Env \<Rightarrow> Subscription list \<Rightarrow> Conn \<Rightarrow> (conn_error + unit) \<times> Conn" where
  "SubscribeEphemeral env subs c =
     (if validate_subs False subs \<noteq> None then (Inl BadFilter, c)
      else let c = c\<lparr>cn_ephemeral := fold put_ephemeral subs (cn_ephemeral c)\<rparr> in
        case cn_client c of
          None \<Rightarrow> (Inr (), c)
        | Some i \<Rightarrow> (sub_result env subs, on_client (client_Subscribe subs) i c))"

definition UnsubscribeEphemeral :: "Env \<Rightarrow> string list \<Rightarrow> Conn \<Rightarrow> (conn_error + unit) \<times> Conn" where
  "UnsubscribeEphemeral env filters c =
     (let keep = map sub_filter (cs_subscriptions (cn_spec c));
          drp = filter (\<lambda>f. f \<notin> set keep) filters;
          c = c\<lparr>cn_ephemeral := filter (\<lambda>(f, s). f \<notin> set filters) (cn_ephemeral c)\<rparr>
      in case cn_client c of
           None \<Rightarrow> (Inr (), c)
         | Some i \<Rightarrow>
             if drp = [] then (Inr (), c)
             else (unsub_result env drp, on_client (client_Unsubscribe drp) i c))"

text \<open>One subscription put into the definition's list: in place of one with the same filter, or at the end.\<close>

fun put_sub :: "Subscription \<Rightarrow> Subscription list \<Rightarrow> Subscription list" where
  "put_sub s [] = [s]"
| "put_sub s (x # xs) = (if sub_filter x = sub_filter s then s # xs else x # put_sub s xs)"

definition conn_Subscribe :: "Env \<Rightarrow> Subscription list \<Rightarrow> Conn \<Rightarrow> (conn_error + unit) \<times> Conn" where
  "conn_Subscribe env subs c =
     (case validate_subs True subs of
        Some None \<Rightarrow> (Inl BadFilter, c)
      | Some (Some f) \<Rightarrow> (Inl (BadSubQos f), c)
      | None \<Rightarrow>
          let c = c\<lparr>cn_spec := (cn_spec c)\<lparr>cs_subscriptions := fold put_sub subs (cs_subscriptions (cn_spec c))\<rparr>\<rparr> in
          case cn_client c of
            None \<Rightarrow> (Inr (), c)
          | Some i \<Rightarrow> (sub_result env subs, on_client (client_Subscribe subs) i c))"

definition conn_Unsubscribe :: "Env \<Rightarrow> string list \<Rightarrow> Conn \<Rightarrow> (conn_error + unit) \<times> Conn" where
  "conn_Unsubscribe env filters c =
     (let c = c\<lparr>cn_spec := (cn_spec c)\<lparr>cs_subscriptions :=
                  filter (\<lambda>s. sub_filter s \<notin> set filters) (cs_subscriptions (cn_spec c))\<rparr>\<rparr>
      in case cn_client c of
           None \<Rightarrow> (Inr (), c)
         | Some i \<Rightarrow> (unsub_result env filters, on_client (client_Unsubscribe filters) i c))"

text \<open>A failed \<^verbatim>\<open>Unsubscribe\<close> is only logged here.\<close>

definition syncSubscriptions :: "Env \<Rightarrow> Conn \<Rightarrow> (conn_error + unit) \<times> Conn" where
  "syncSubscriptions env c =
     (case cn_client c of
        None \<Rightarrow> (Inr (), c)
      | Some i \<Rightarrow>
          let c = (if \<not> wantsSys c then on_client (client_Unsubscribe [SysFilter]) i c else c)
          in (sub_result env (wantedSubscriptions c), on_client (client_Subscribe (wantedSubscriptions c)) i c))"

section \<open>Connecting and disconnecting\<close>

datatype begin_result = AlreadyRunning | NewFailed GoError | Dialling nat ConnectionSpec

text \<open>The critical section that opens a connect.\<close>

definition connect_begin :: "Env \<Rightarrow> Conn \<Rightarrow> begin_result \<times> Conn" where
  "connect_begin env c =
     (let c = c\<lparr>cn_wantConnect := True\<rparr> in
      if cn_client c \<noteq> None then (AlreadyRunning, c)
      else case env_newErr env of
        Some e \<Rightarrow> (NewFailed e, c)
      | None \<Rightarrow>
          let i = cn_nextClient c in
          (Dialling i (cn_spec c),
           c\<lparr>cn_client := Some i, cn_nextClient := i + 1,
             cn_clients := (cn_clients c)(i \<mapsto> client_new (cn_spec c)),
             cn_status := (cn_status c)\<lparr>st_attempts := st_attempts (cn_status c) + 1\<rparr>\<rparr>))"

text \<open>The critical section that gives up a dial, and closing the client after it.\<close>

definition connect_drop :: "Conn \<Rightarrow> Conn" where
  "connect_drop c = c\<lparr>cn_client := None\<rparr>"

definition connect_fail :: "Env \<Rightarrow> nat \<Rightarrow> ConnectionSpec \<Rightarrow> GoError \<Rightarrow> Conn \<Rightarrow> (conn_error + unit) \<times> Conn" where
  "connect_fail env i spec e c =
     (let c = on_client client_Disconnect i (connect_drop c);
          explained = the (explain env spec (Some e))
      in (Inl (LibError explained), setState env StateError (Some explained) c))"

definition connect_ok :: "Env \<Rightarrow> nat \<Rightarrow> Conn \<Rightarrow> (conn_error + unit) \<times> Conn" where
  "connect_ok env i c =
     (let c = setState env StateConnected None c
      in (Inr (), on_client (client_Subscribe (wantedSubscriptions c)) i c))"

definition event_Up :: "Env \<Rightarrow> bool \<Rightarrow> Conn \<Rightarrow> Conn" where
  "event_Up env sessionPresent c =
     setState env StateConnected None
       (c\<lparr>cn_status := (cn_status c)\<lparr>st_sessionPresent := sessionPresent\<rparr>\<rparr>)"

definition event_Down :: "Env \<Rightarrow> GoError option \<Rightarrow> Conn \<Rightarrow> Conn" where
  "event_Down env err c = setState env StateError (explain env (cn_spec c) err) c"

definition event_Error :: "GoError option \<Rightarrow> Conn \<Rightarrow> Conn" where
  "event_Error err c =
     (case err of None \<Rightarrow> c
      | Some e \<Rightarrow> c\<lparr>cn_status := (cn_status c)\<lparr>st_lastError := ge_text e\<rparr>\<rparr>)"

text \<open>
  The whole of \<^verbatim>\<open>connect\<close>. While the client dials it may report itself up any number of times
  before the dial returns (\<open>env_ups\<close>).
\<close>

definition connect :: "Env \<Rightarrow> Conn \<Rightarrow> (conn_error + unit) \<times> Conn" where
  "connect env c =
     (case connect_begin env c of
        (AlreadyRunning, c) \<Rightarrow> (Inr (), c)
      | (NewFailed e, c) \<Rightarrow> (Inl (LibError e), setState env StateError (Some e) c)
      | (Dialling i spec, c) \<Rightarrow>
          let c = fold (event_Up env) (env_ups env) (setState env StateConnecting None c)
          in case env_dialErr env of
               Some e \<Rightarrow> connect_fail env i spec e c
             | None \<Rightarrow> connect_ok env i c)"

definition disconnect_begin :: "Conn \<Rightarrow> nat option \<times> Conn" where
  "disconnect_begin c = (cn_client c, c\<lparr>cn_wantConnect := False, cn_client := None\<rparr>)"

definition disconnect_end :: "Env \<Rightarrow> nat option \<Rightarrow> Conn \<Rightarrow> (conn_error + unit) \<times> Conn" where
  "disconnect_end env client c =
     (case client of
        None \<Rightarrow> (Inr (), setState env StateDisconnected None c)
      | Some i \<Rightarrow> (of_lib (env_discErr env), setState env StateDisconnected None (on_client client_Disconnect i c)))"

definition disconnect :: "Env \<Rightarrow> Conn \<Rightarrow> (conn_error + unit) \<times> Conn" where
  "disconnect env c = (let (client, c) = disconnect_begin c in disconnect_end env client c)"

section \<open>Messages\<close>

definition conn_Publish :: "Env \<Rightarrow> PublishRequest \<Rightarrow> Conn \<Rightarrow> (conn_error + unit) \<times> Conn" where
  "conn_Publish env req c =
     (if ValidateTopic (pub_topic req) \<noteq> Inr () then (Inl BadTopic, c)
      else if pub_qos req > 2 then (Inl BadQos, c)
      else case cn_client c of
        None \<Rightarrow> (Inl NotConnected, c)
      | Some i \<Rightarrow>
          case env_pubErr env of
            Some e \<Rightarrow> (Inl (LibError e), c)
          | None \<Rightarrow> (Inr (), c\<lparr>cn_sent := cn_sent c + 1\<rparr>))"

definition ClearState :: "Conn \<Rightarrow> Conn" where
  "ClearState c =
     c\<lparr>cn_tree := tree_clear (cn_tree c), cn_history := history_clear (cn_history c),
       cn_topicLog := topiclog_Clear (cn_topicLog c)\<rparr>"

definition stamp :: "time \<Rightarrow> nat \<Rightarrow> Message \<Rightarrow> Message" where
  "stamp now n m =
     m\<lparr>msg_seq := n, msg_receivedAt := (if msg_receivedAt m = 0 then now else msg_receivedAt m)\<rparr>"

text \<open>
  A message handled while nothing else happens to the connection. The code holds no lock over it; \<^verbatim>\<open>MsgRace\<close> has the
  calls it is made of one by one, with others in between.
\<close>

definition handleMessage :: "time \<Rightarrow> Message \<Rightarrow> Conn \<Rightarrow> Conn" where
  "handleMessage now m c =
     (let m = stamp now (cn_seq c + 1) m in
      c\<lparr>cn_seq := cn_seq c + 1, cn_received := cn_received c + 1, cn_tree := Record m (cn_tree c),
        cn_history := history_add m (cn_history c), cn_topicLog := topiclog_Add m (cn_topicLog c),
        cn_out := cn_out c @ [EmitMessage m]\<rparr>)"

end
