(* ===== verification/ConnFacts.thy ===== *)
theory ConnFacts
  imports Conn TreeValues
begin

text \<open>
  What one connection guarantees when its operations run one after the other: the client it holds is
  open and wanted, the subscriptions the client replays cover everything that is wanted, and every
  message is numbered, counted and stored once.
\<close>

section \<open>Frames\<close>

lemma setState_frame [simp]:
  "cn_spec (setState env st e c) = cn_spec c" "cn_client (setState env st e c) = cn_client c"
  "cn_wantConnect (setState env st e c) = cn_wantConnect c" "cn_tree (setState env st e c) = cn_tree c"
  "cn_history (setState env st e c) = cn_history c" "cn_topicLog (setState env st e c) = cn_topicLog c"
  "cn_ephemeral (setState env st e c) = cn_ephemeral c" "cn_seq (setState env st e c) = cn_seq c"
  "cn_received (setState env st e c) = cn_received c" "cn_sent (setState env st e c) = cn_sent c"
  "cn_clients (setState env st e c) = cn_clients c" "cn_nextClient (setState env st e c) = cn_nextClient c"
  "st_state (cn_status (setState env st e c)) = st"
  "st_attempts (cn_status (setState env st e c)) = st_attempts (cn_status c)"
  by (simp_all add: setState_def Let_def split: option.splits)

lemma on_client_frame [simp]:
  "cn_spec (on_client f i c) = cn_spec c" "cn_client (on_client f i c) = cn_client c"
  "cn_wantConnect (on_client f i c) = cn_wantConnect c" "cn_tree (on_client f i c) = cn_tree c"
  "cn_history (on_client f i c) = cn_history c" "cn_topicLog (on_client f i c) = cn_topicLog c"
  "cn_ephemeral (on_client f i c) = cn_ephemeral c" "cn_seq (on_client f i c) = cn_seq c"
  "cn_received (on_client f i c) = cn_received c" "cn_sent (on_client f i c) = cn_sent c"
  "cn_status (on_client f i c) = cn_status c" "cn_out (on_client f i c) = cn_out c"
  "cn_nextClient (on_client f i c) = cn_nextClient c"
  "cn_clients (on_client f i c) = (cn_clients c)(i := map_option f (cn_clients c i))"
  by (simp_all add: on_client_def)

lemma event_Up_frame [simp]:
  "cn_spec (event_Up env b c) = cn_spec c" "cn_client (event_Up env b c) = cn_client c"
  "cn_wantConnect (event_Up env b c) = cn_wantConnect c" "cn_tree (event_Up env b c) = cn_tree c"
  "cn_history (event_Up env b c) = cn_history c" "cn_topicLog (event_Up env b c) = cn_topicLog c"
  "cn_ephemeral (event_Up env b c) = cn_ephemeral c" "cn_seq (event_Up env b c) = cn_seq c"
  "cn_received (event_Up env b c) = cn_received c" "cn_sent (event_Up env b c) = cn_sent c"
  "cn_clients (event_Up env b c) = cn_clients c" "cn_nextClient (event_Up env b c) = cn_nextClient c"
  by (simp_all add: event_Up_def)

lemma fold_Up_frame [simp]:
  "cn_spec (fold (event_Up env) us c) = cn_spec c" "cn_client (fold (event_Up env) us c) = cn_client c"
  "cn_wantConnect (fold (event_Up env) us c) = cn_wantConnect c" "cn_tree (fold (event_Up env) us c) = cn_tree c"
  "cn_history (fold (event_Up env) us c) = cn_history c" "cn_topicLog (fold (event_Up env) us c) = cn_topicLog c"
  "cn_ephemeral (fold (event_Up env) us c) = cn_ephemeral c" "cn_seq (fold (event_Up env) us c) = cn_seq c"
  "cn_received (fold (event_Up env) us c) = cn_received c" "cn_sent (fold (event_Up env) us c) = cn_sent c"
  "cn_clients (fold (event_Up env) us c) = cn_clients c" "cn_nextClient (fold (event_Up env) us c) = cn_nextClient c"
  by (induction us arbitrary: c) simp_all

lemma wanted_cong:
  "cn_spec c = cn_spec d \<Longrightarrow> cn_ephemeral c = cn_ephemeral d \<Longrightarrow> wantedSubscriptions c = wantedSubscriptions d"
  by (simp add: wantedSubscriptions_def)

lemma wanted_setState [simp]: "wantedSubscriptions (setState env st e c) = wantedSubscriptions c"
  by (rule wanted_cong) simp_all

lemma wanted_on_client [simp]: "wantedSubscriptions (on_client f i c) = wantedSubscriptions c"
  by (rule wanted_cong) simp_all

lemma wanted_updates [simp]:
  "wantedSubscriptions (c\<lparr>cn_client := x\<rparr>) = wantedSubscriptions c"
  "wantedSubscriptions (c\<lparr>cn_clients := cs\<rparr>) = wantedSubscriptions c"
  "wantedSubscriptions (c\<lparr>cn_wantConnect := b\<rparr>) = wantedSubscriptions c"
  "wantedSubscriptions (c\<lparr>cn_nextClient := n\<rparr>) = wantedSubscriptions c"
  "wantedSubscriptions (c\<lparr>cn_status := st\<rparr>) = wantedSubscriptions c"
  by (simp_all add: wantedSubscriptions_def)

lemma wanted_fold_Up [simp]: "wantedSubscriptions (fold (event_Up env) us c) = wantedSubscriptions c"
  by (rule wanted_cong) simp_all

section \<open>What a client remembers\<close>

definition wanted_filters :: "Conn \<Rightarrow> string set" where
  "wanted_filters c = sub_filter ` set (wantedSubscriptions c)"

definition held_filters :: "Client \<Rightarrow> string set" where
  "held_filters cl = dom (cl_subs cl)"

lemma dom_fold_put: "dom (fold (\<lambda>s m. m(sub_filter s \<mapsto> s)) subs m) = sub_filter ` set subs \<union> dom m"
  by (induction subs arbitrary: m) auto

lemma dom_fold_del: "dom (fold (\<lambda>f m. m(f := None)) fs m) = dom m - set fs"
  by (induction fs arbitrary: m) auto

lemma held_Subscribe [simp]: "held_filters (client_Subscribe subs cl) = sub_filter ` set subs \<union> held_filters cl"
  by (simp add: held_filters_def client_Subscribe_def dom_fold_put)

lemma held_Unsubscribe [simp]: "held_filters (client_Unsubscribe fs cl) = held_filters cl - set fs"
  by (simp add: held_filters_def client_Unsubscribe_def dom_fold_del)

lemma closed_simps [simp]:
  "cl_closed (client_Subscribe subs cl) = cl_closed cl" "cl_closed (client_Unsubscribe fs cl) = cl_closed cl"
  "cl_closed (client_new spec) = False" "cl_closed (client_Disconnect cl)"
  by (simp_all add: client_Subscribe_def client_Unsubscribe_def client_new_def client_Disconnect_def)

text \<open>Every plugin-held filter is filed under its own name.\<close>

definition ephemeral_ok :: "Conn \<Rightarrow> bool" where
  "ephemeral_ok c \<longleftrightarrow> (\<forall>(f, s) \<in> set (cn_ephemeral c). sub_filter s = f) \<and> distinct (map fst (cn_ephemeral c))"

text \<open>The connection's client, if it has one, is open, wanted, and replays all that is wanted.\<close>

definition client_ok :: "Conn \<Rightarrow> bool" where
  "client_ok c \<longleftrightarrow>
     (case cn_client c of
        None \<Rightarrow> True
      | Some i \<Rightarrow>
          (\<exists>cl. cn_clients c i = Some cl \<and> \<not> cl_closed cl) \<and> cn_wantConnect c \<and> i < cn_nextClient c \<and>
          st_state (cn_status c) \<noteq> StateDisconnected)"

definition covered :: "Conn \<Rightarrow> bool" where
  "covered c \<longleftrightarrow>
     (\<forall>i cl. cn_client c = Some i \<longrightarrow> cn_clients c i = Some cl \<longrightarrow> wanted_filters c \<subseteq> held_filters cl)"

section \<open>Every operation on one connection\<close>

text \<open>The part of \<^verbatim>\<open>Manager.Upsert\<close> that meets a connection already there.\<close>

definition upsert_existing :: "Env \<Rightarrow> ConnectionSpec \<Rightarrow> Conn \<Rightarrow> (conn_error + unit) \<times> Conn" where
  "upsert_existing env spec c =
     (let wasRunning = st_state (cn_status c) \<noteq> StateDisconnected;
          restart = wasRunning \<and> needsRestart spec c;
          c = (if restart then snd (disconnect env c) else c);
          c = setSpec spec c
      in if restart then connect env c
         else if wasRunning then syncSubscriptions env c
         else (Inr (), c))"

datatype conn_op =
    OpConnect Env | OpDisconnect Env | OpUpsert Env ConnectionSpec
  | OpSubscribe Env "Subscription list" | OpUnsubscribe Env "string list"
  | OpSubscribeEphemeral Env "Subscription list" | OpUnsubscribeEphemeral Env "string list"
  | OpPublish Env PublishRequest | OpClear | OpMessage time Message
  | OpUp Env bool | OpDown Env "GoError option" | OpError "GoError option"

fun conn_step :: "conn_op \<Rightarrow> Conn \<Rightarrow> Conn" where
  "conn_step (OpConnect env) c = snd (connect env c)"
| "conn_step (OpDisconnect env) c = snd (disconnect env c)"
| "conn_step (OpUpsert env spec) c = snd (upsert_existing env spec c)"
| "conn_step (OpSubscribe env subs) c = snd (conn_Subscribe env subs c)"
| "conn_step (OpUnsubscribe env fs) c = snd (conn_Unsubscribe env fs c)"
| "conn_step (OpSubscribeEphemeral env subs) c = snd (SubscribeEphemeral env subs c)"
| "conn_step (OpUnsubscribeEphemeral env fs) c = snd (UnsubscribeEphemeral env fs c)"
| "conn_step (OpPublish env req) c = snd (conn_Publish env req c)"
| "conn_step OpClear c = ClearState c"
| "conn_step (OpMessage now m) c = handleMessage now m c"
| "conn_step (OpUp env b) c = event_Up env b c"
| "conn_step (OpDown env e) c = event_Down env e c"
| "conn_step (OpError e) c = event_Error e c"

text \<open>
  The operations after which the client may stop replaying something still wanted: the user's
  unsubscribe of a filter that a plugin or the broker statistics also want, and a plugin's
  unsubscribe of \<^verbatim>\<open>$SYS/#\<close> while the statistics are on and the user does not hold it.
\<close>

fun drops_wanted :: "conn_op \<Rightarrow> Conn \<Rightarrow> bool" where
  "drops_wanted (OpUnsubscribe env fs) c =
     ((\<exists>(f, s) \<in> set (cn_ephemeral c). f \<in> set fs) \<or> cs_sysStats (cn_spec c) \<and> SysFilter \<in> set fs)"
| "drops_wanted (OpUnsubscribeEphemeral env fs) c =
     (cs_sysStats (cn_spec c) \<and> SysFilter \<in> set fs \<and>
      SysFilter \<notin> sub_filter ` set (cs_subscriptions (cn_spec c)))"
| "drops_wanted op c = False"


section \<open>The client is open and wanted\<close>

lemma client_ok_new [wf_intro]: "client_ok (newConn env spec)"
  by (simp add: client_ok_def newConn_def)

lemma client_ok_None: "cn_client c = None \<Longrightarrow> client_ok c"
  by (simp add: client_ok_def)

lemma client_ok_setState [wf_intro]:
  "client_ok c \<Longrightarrow> st \<noteq> StateDisconnected \<Longrightarrow> client_ok (setState env st e c)"
  by (simp add: client_ok_def split: option.splits)

text \<open>Calls that do not close the client keep it.\<close>

lemma client_ok_on_client [wf_intro]:
  "client_ok c \<Longrightarrow> (\<And>cl. cl_closed (f cl) = cl_closed cl) \<Longrightarrow> client_ok (on_client f i c)"
  by (auto simp: client_ok_def split: option.splits)

lemma client_ok_cong:
  "client_ok c \<Longrightarrow> cn_client d = cn_client c \<Longrightarrow> cn_clients d = cn_clients c \<Longrightarrow>
     cn_wantConnect d = cn_wantConnect c \<Longrightarrow> cn_nextClient d = cn_nextClient c \<Longrightarrow>
     st_state (cn_status d) = st_state (cn_status c) \<Longrightarrow> client_ok d"
  by (simp add: client_ok_def split: option.splits)

lemma connect_begin_cases:
  obtains (running) i where "cn_client c = Some i" "connect_begin env c = (AlreadyRunning, c\<lparr>cn_wantConnect := True\<rparr>)"
  | (failed) e where "cn_client c = None" "env_newErr env = Some e"
      "connect_begin env c = (NewFailed e, c\<lparr>cn_wantConnect := True\<rparr>)"
  | (dialling) "cn_client c = None" "env_newErr env = None"
      "connect_begin env c = (Dialling (cn_nextClient c) (cn_spec c),
         c\<lparr>cn_wantConnect := True, cn_client := Some (cn_nextClient c), cn_nextClient := cn_nextClient c + 1,
           cn_clients := (cn_clients c)(cn_nextClient c \<mapsto> client_new (cn_spec c)),
           cn_status := (cn_status c)\<lparr>st_attempts := st_attempts (cn_status c) + 1\<rparr>\<rparr>)"
proof (cases "cn_client c")
  case (Some i)
  then show ?thesis by (intro running [of i]) (simp_all add: connect_begin_def)
next
  case None
  show ?thesis
  proof (cases "env_newErr env")
    case (Some e)
    with None show ?thesis by (intro failed [of e]) (simp_all add: connect_begin_def)
  next
    case None
    with \<open>cn_client c = None\<close> show ?thesis by (intro dialling) (simp_all add: connect_begin_def Let_def)
  qed
qed

lemma fold_Up_state:
  "st_state (cn_status c) \<noteq> StateDisconnected \<Longrightarrow>
     st_state (cn_status (fold (event_Up env) us c)) \<noteq> StateDisconnected"
  by (induction us arbitrary: c) (simp_all add: event_Up_def)

lemma connect_client_ok [wf_intro]:
  assumes "client_ok c" shows "client_ok (snd (connect env c))"
proof (cases rule: connect_begin_cases [of c env])
  case (running i)
  with assms show ?thesis by (simp add: connect_def client_ok_def)
next
  case (failed e)
  then show ?thesis by (simp add: connect_def client_ok_def)
next
  case dialling
  then show ?thesis
    by (cases "env_dialErr env")
      (simp_all add: connect_def connect_fail_def connect_ok_def connect_drop_def client_ok_def Let_def)
qed

lemma disconnect_client_None [simp]: "cn_client (snd (disconnect env c)) = None"
  by (simp add: disconnect_def disconnect_begin_def disconnect_end_def split: option.splits)

lemma disconnect_state [simp]: "st_state (cn_status (snd (disconnect env c))) = StateDisconnected"
  by (simp add: disconnect_def disconnect_begin_def disconnect_end_def split: option.splits)

lemma setSpec_frame [simp]:
  "cn_client (setSpec spec c) = cn_client c" "cn_clients (setSpec spec c) = cn_clients c"
  "cn_wantConnect (setSpec spec c) = cn_wantConnect c" "cn_nextClient (setSpec spec c) = cn_nextClient c"
  "cn_ephemeral (setSpec spec c) = cn_ephemeral c" "cn_spec (setSpec spec c) = spec"
  "st_state (cn_status (setSpec spec c)) = st_state (cn_status c)"
  "cn_tree (setSpec spec c) = cn_tree c" "cn_history (setSpec spec c) = cn_history c"
  "cn_topicLog (setSpec spec c) = cn_topicLog c" "cn_seq (setSpec spec c) = cn_seq c"
  "cn_received (setSpec spec c) = cn_received c" "cn_sent (setSpec spec c) = cn_sent c"
  "cn_out (setSpec spec c) = cn_out c"
  by (simp_all add: setSpec_def)

lemma client_ok_setSpec [wf_intro]: "client_ok c \<Longrightarrow> client_ok (setSpec spec c)"
  by (erule client_ok_cong) simp_all

lemma sync_client_ok [wf_intro]: "client_ok c \<Longrightarrow> client_ok (snd (syncSubscriptions env c))"
  by (auto simp: syncSubscriptions_def Let_def split: option.splits intro!: wf_intro)

lemma upsert_client_ok [wf_intro]:
  assumes "client_ok c" shows "client_ok (snd (upsert_existing env spec c))"
proof (cases "st_state (cn_status c) \<noteq> StateDisconnected \<and> needsRestart spec c")
  case True
  have "client_ok (setSpec spec (snd (disconnect env c)))" by (rule client_ok_None) simp
  with True show ?thesis by (simp add: upsert_existing_def Let_def connect_client_ok)
next
  case False
  with assms show ?thesis
    by (auto simp: upsert_existing_def Let_def intro!: wf_intro)
qed

lemma conn_step_client_ok [wf_intro]: "client_ok c \<Longrightarrow> client_ok (conn_step op c)"
proof (cases op)
  case (OpSubscribe env subs)
  assume c: "client_ok c"
  show ?thesis
  proof (cases "validate_subs True subs")
    case None
    with c OpSubscribe show ?thesis
      by (auto simp: conn_Subscribe_def Let_def client_ok_def split: option.splits)
  next
    case (Some x)
    with c OpSubscribe show ?thesis by (cases x) (simp_all add: conn_Subscribe_def)
  qed
next
  case (OpDisconnect env)
  then show ?thesis by (simp add: client_ok_None)
next
  case (OpConnect env)
  assume "client_ok c"
  with OpConnect show ?thesis by (simp add: connect_client_ok)
next
  case (OpUpsert env spec)
  assume "client_ok c"
  with OpUpsert show ?thesis by (simp add: upsert_client_ok)
qed (auto simp: conn_Unsubscribe_def SubscribeEphemeral_def UnsubscribeEphemeral_def conn_Publish_def
    ClearState_def handleMessage_def event_Up_def event_Down_def event_Error_def Let_def client_ok_def
    split: option.splits)


section \<open>The client replays what is wanted\<close>

lemma set_put_sub: "sub_filter ` set (put_sub s xs) = insert (sub_filter s) (sub_filter ` set xs)"
  by (induction xs) auto

lemma set_fold_put_sub:
  "sub_filter ` set (fold put_sub subs xs) = sub_filter ` set subs \<union> sub_filter ` set xs"
  by (induction subs arbitrary: xs) (auto simp: set_put_sub)

lemma fst_put_ephemeral: "fst ` set (put_ephemeral s es) = insert (sub_filter s) (fst ` set es)"
proof (induction s es rule: put_ephemeral.induct)
  case (2 s f x es)
  then show ?case by (cases "f = sub_filter s") (simp_all add: insert_commute)
qed simp

lemma put_ephemeral_ok:
  assumes "\<forall>(f, s) \<in> set es. sub_filter s = f" and "distinct (map fst es)"
  shows "(\<forall>(f, s) \<in> set (put_ephemeral s' es). sub_filter s = f) \<and> distinct (map fst (put_ephemeral s' es)) \<and>
     fst ` set (put_ephemeral s' es) = insert (sub_filter s') (fst ` set es)"
  using assms
proof (induction s' es rule: put_ephemeral.induct)
  case (2 s f x es)
  then show ?case
    by (cases "f = sub_filter s") (auto simp: fst_put_ephemeral)
qed simp

lemma fold_put_ephemeral_ok:
  assumes "\<forall>(f, s) \<in> set es. sub_filter s = f" and "distinct (map fst es)"
  shows "(\<forall>(f, s) \<in> set (fold put_ephemeral subs es). sub_filter s = f) \<and>
     distinct (map fst (fold put_ephemeral subs es)) \<and>
     fst ` set (fold put_ephemeral subs es) = sub_filter ` set subs \<union> fst ` set es"
  using assms
proof (induction subs arbitrary: es)
  case (Cons s subs)
  note p = put_ephemeral_ok [OF Cons.prems, of s]
  from Cons.IH [of "put_ephemeral s es"] p show ?case by auto
qed simp

lemma ephemeral_filters: "ephemeral_ok c \<Longrightarrow> sub_filter ` set (map snd (cn_ephemeral c)) = fst ` set (cn_ephemeral c)"
  by (force simp: ephemeral_ok_def image_iff)

lemma wanted_filters_eq:
  "ephemeral_ok c \<Longrightarrow> wanted_filters c =
     sub_filter ` set (cs_subscriptions (cn_spec c)) \<union> fst ` set (cn_ephemeral c) \<union>
     (if cs_sysStats (cn_spec c) then {SysFilter} else {})"
  using ephemeral_filters [of c] by (auto simp: wanted_filters_def wantedSubscriptions_def image_Un)

lemma ephemeral_ok_cong: "ephemeral_ok c \<Longrightarrow> cn_ephemeral d = cn_ephemeral c \<Longrightarrow> ephemeral_ok d"
  by (simp add: ephemeral_ok_def)

lemma connect_frame [frame_simp]:
  "cn_ephemeral (snd (connect env c)) = cn_ephemeral c" "cn_spec (snd (connect env c)) = cn_spec c"
  "cn_tree (snd (connect env c)) = cn_tree c" "cn_history (snd (connect env c)) = cn_history c"
  "cn_topicLog (snd (connect env c)) = cn_topicLog c" "cn_seq (snd (connect env c)) = cn_seq c"
  "cn_received (snd (connect env c)) = cn_received c" "cn_sent (snd (connect env c)) = cn_sent c"
  by (cases rule: connect_begin_cases [of c env]; cases "env_dialErr env";
      simp add: connect_def connect_fail_def connect_ok_def connect_drop_def Let_def)+

lemma disconnect_frame [frame_simp]:
  "cn_ephemeral (snd (disconnect env c)) = cn_ephemeral c" "cn_spec (snd (disconnect env c)) = cn_spec c"
  "cn_tree (snd (disconnect env c)) = cn_tree c" "cn_history (snd (disconnect env c)) = cn_history c"
  "cn_topicLog (snd (disconnect env c)) = cn_topicLog c" "cn_seq (snd (disconnect env c)) = cn_seq c"
  "cn_received (snd (disconnect env c)) = cn_received c" "cn_sent (snd (disconnect env c)) = cn_sent c"
  by (simp_all add: disconnect_def disconnect_begin_def disconnect_end_def split: option.splits)

lemma sync_frame [frame_simp]:
  "cn_ephemeral (snd (syncSubscriptions env c)) = cn_ephemeral c" "cn_spec (snd (syncSubscriptions env c)) = cn_spec c"
  "cn_tree (snd (syncSubscriptions env c)) = cn_tree c" "cn_history (snd (syncSubscriptions env c)) = cn_history c"
  "cn_topicLog (snd (syncSubscriptions env c)) = cn_topicLog c" "cn_seq (snd (syncSubscriptions env c)) = cn_seq c"
  "cn_received (snd (syncSubscriptions env c)) = cn_received c" "cn_sent (snd (syncSubscriptions env c)) = cn_sent c"
  "cn_client (snd (syncSubscriptions env c)) = cn_client c" "cn_status (snd (syncSubscriptions env c)) = cn_status c"
  "cn_out (snd (syncSubscriptions env c)) = cn_out c"
  by (simp_all add: syncSubscriptions_def Let_def split: option.splits)

lemma upsert_frame [frame_simp]:
  "cn_ephemeral (snd (upsert_existing env spec c)) = cn_ephemeral c"
  "cn_spec (snd (upsert_existing env spec c)) = spec"
  "cn_tree (snd (upsert_existing env spec c)) = cn_tree c" "cn_history (snd (upsert_existing env spec c)) = cn_history c"
  "cn_topicLog (snd (upsert_existing env spec c)) = cn_topicLog c" "cn_seq (snd (upsert_existing env spec c)) = cn_seq c"
  "cn_received (snd (upsert_existing env spec c)) = cn_received c" "cn_sent (snd (upsert_existing env spec c)) = cn_sent c"
  by (simp_all add: upsert_existing_def Let_def frame_simp)

lemma ephemeral_ok_step [wf_intro]: "ephemeral_ok c \<Longrightarrow> ephemeral_ok (conn_step op c)"
proof (cases op)
  case (OpSubscribeEphemeral env subs)
  assume "ephemeral_ok c"
  with OpSubscribeEphemeral fold_put_ephemeral_ok [of "cn_ephemeral c" subs] show ?thesis
    by (auto simp: ephemeral_ok_def SubscribeEphemeral_def Let_def split: option.splits)
next
  case (OpUnsubscribeEphemeral env fs)
  assume c: "ephemeral_ok c"
  have "cn_ephemeral (conn_step op c) = filter (\<lambda>(f, s). f \<notin> set fs) (cn_ephemeral c)"
    by (simp add: OpUnsubscribeEphemeral UnsubscribeEphemeral_def Let_def split: option.splits)
  with c show ?thesis by (auto simp: ephemeral_ok_def distinct_map_filter)
next
  case (OpSubscribe env subs)
  assume "ephemeral_ok c"
  then show ?thesis
    by (rule ephemeral_ok_cong)
      (simp add: OpSubscribe conn_Subscribe_def Let_def split: option.splits)
qed (erule ephemeral_ok_cong, auto simp: frame_simp conn_Unsubscribe_def conn_Publish_def
    ClearState_def handleMessage_def event_Up_def event_Down_def event_Error_def Let_def
    split: option.splits)+

lemma connect_covered:
  assumes "covered c" shows "covered (snd (connect env c))"
proof (cases rule: connect_begin_cases [of c env])
  case (running i)
  with assms show ?thesis
    by (simp add: connect_def covered_def wanted_filters_def)
next
  case (failed e)
  then show ?thesis by (simp add: connect_def covered_def)
next
  case dialling
  then show ?thesis
    by (cases "env_dialErr env")
      (auto simp: connect_def connect_fail_def connect_ok_def connect_drop_def covered_def Let_def
        wanted_filters_def)
qed

lemma sync_covered: "covered (snd (syncSubscriptions env c))"
  by (auto simp: syncSubscriptions_def covered_def Let_def wanted_filters_def
      split: option.splits)

lemma covered_None: "cn_client c = None \<Longrightarrow> covered c"
  by (simp add: covered_def)

lemma upsert_covered:
  assumes "client_ok c" shows "covered (snd (upsert_existing env spec c))"
proof (cases "st_state (cn_status c) = StateDisconnected")
  case True
  then have "cn_client c = None" using assms by (simp add: client_ok_def split: option.splits)
  with True show ?thesis by (simp add: upsert_existing_def Let_def covered_None)
next
  case False
  then show ?thesis
    by (simp add: upsert_existing_def Let_def sync_covered connect_covered covered_None)
qed

lemma covered_cong:
  "covered c \<Longrightarrow> cn_client d = cn_client c \<Longrightarrow> cn_clients d = cn_clients c \<Longrightarrow>
     cn_spec d = cn_spec c \<Longrightarrow> cn_ephemeral d = cn_ephemeral c \<Longrightarrow> covered d"
  by (simp add: covered_def wanted_filters_def wantedSubscriptions_def)

text \<open>
  An operation that changes both what is wanted and what the client holds keeps the cover when
  it adds no more to the first, and takes no more of it from the second, than it should.
\<close>

lemma covered_mono:
  assumes "covered c" and "cn_client d = cn_client c"
    and "\<And>i cl'. cn_client c = Some i \<Longrightarrow> cn_clients d i = Some cl' \<Longrightarrow>
          \<exists>cl. cn_clients c i = Some cl \<and> wanted_filters d \<subseteq> held_filters cl' \<union> (wanted_filters c - held_filters cl)"
  shows "covered d"
  unfolding covered_def
proof (intro allI impI)
  fix i cl' assume d: "cn_client d = Some i" "cn_clients d i = Some cl'"
  with assms(2,3) obtain cl where cl: "cn_clients c i = Some cl"
    "wanted_filters d \<subseteq> held_filters cl' \<union> (wanted_filters c - held_filters cl)" by metis
  moreover have "wanted_filters c \<subseteq> held_filters cl" using assms(1,2) d(1) cl(1) unfolding covered_def by metis
  ultimately show "wanted_filters d \<subseteq> held_filters cl'" by blast
qed


lemma covered_step:
  assumes cov: "covered c" and cl: "client_ok c" and eph: "ephemeral_ok c" and keeps: "\<not> drops_wanted op c"
  shows "covered (conn_step op c)"
proof (cases op)
  case (OpConnect env)
  then show ?thesis by (simp add: connect_covered cov)
next
  case (OpDisconnect env)
  then show ?thesis by (simp add: covered_None)
next
  case (OpUpsert env spec)
  then show ?thesis by (simp add: upsert_covered cl)
next
  case (OpSubscribe env subs)
  have "covered (conn_step op c)" if v: "validate_subs True subs = None"
  proof (rule covered_mono [OF cov])
    show "cn_client (conn_step op c) = cn_client c"
      using v by (simp add: OpSubscribe conn_Subscribe_def Let_def split: option.splits)
    fix i cl' assume i: "cn_client c = Some i" "cn_clients (conn_step op c) i = Some cl'"
    then obtain cl where c: "cn_clients c i = Some cl" "cl' = client_Subscribe subs cl"
      using v by (auto simp: OpSubscribe conn_Subscribe_def Let_def)
    have "wanted_filters (conn_step op c) = sub_filter ` set subs \<union> wanted_filters c"
      using v i(1) set_fold_put_sub [of subs "cs_subscriptions (cn_spec c)"]
      by (auto simp: OpSubscribe conn_Subscribe_def Let_def wanted_filters_def wantedSubscriptions_def image_Un)
    with c show "\<exists>cl. cn_clients c i = Some cl \<and>
        wanted_filters (conn_step op c) \<subseteq> held_filters cl' \<union> (wanted_filters c - held_filters cl)" by auto
  qed
  with cov show ?thesis by (auto simp: OpSubscribe conn_Subscribe_def split: option.splits)
next
  case (OpUnsubscribe env fs)
  have eph': "ephemeral_ok (conn_step op c)" using eph by (rule ephemeral_ok_step)
  show ?thesis
  proof (rule covered_mono [OF cov])
    show "cn_client (conn_step op c) = cn_client c"
      by (simp add: OpUnsubscribe conn_Unsubscribe_def Let_def split: option.splits)
    fix i cl' assume i: "cn_client c = Some i" "cn_clients (conn_step op c) i = Some cl'"
    then obtain cl where c: "cn_clients c i = Some cl" "cl' = client_Unsubscribe fs cl"
      by (auto simp: OpUnsubscribe conn_Unsubscribe_def Let_def)
    have "cn_ephemeral (conn_step op c) = cn_ephemeral c"
      "cs_sysStats (cn_spec (conn_step op c)) = cs_sysStats (cn_spec c)"
      "cs_subscriptions (cn_spec (conn_step op c)) =
         filter (\<lambda>s. sub_filter s \<notin> set fs) (cs_subscriptions (cn_spec c))"
      using i(1) by (simp_all add: OpUnsubscribe conn_Unsubscribe_def Let_def)
    then have "wanted_filters (conn_step op c) \<subseteq> wanted_filters c - set fs"
      using keeps unfolding wanted_filters_eq [OF eph] wanted_filters_eq [OF eph']
      by (auto simp: OpUnsubscribe)
    with c show "\<exists>cl. cn_clients c i = Some cl \<and>
        wanted_filters (conn_step op c) \<subseteq> held_filters cl' \<union> (wanted_filters c - held_filters cl)" by auto
  qed
next
  case (OpSubscribeEphemeral env subs)
  have eph': "ephemeral_ok (conn_step op c)" using eph by (rule ephemeral_ok_step)
  have "covered (conn_step op c)" if v: "validate_subs False subs = None"
  proof (rule covered_mono [OF cov])
    show "cn_client (conn_step op c) = cn_client c"
      using v by (simp add: OpSubscribeEphemeral SubscribeEphemeral_def Let_def split: option.splits)
    fix i cl' assume i: "cn_client c = Some i" "cn_clients (conn_step op c) i = Some cl'"
    then obtain cl where c: "cn_clients c i = Some cl" "cl' = client_Subscribe subs cl"
      using v by (auto simp: OpSubscribeEphemeral SubscribeEphemeral_def Let_def)
    have "cn_ephemeral (conn_step op c) = fold put_ephemeral subs (cn_ephemeral c)"
      "cn_spec (conn_step op c) = cn_spec c"
      using v i(1) by (simp_all add: OpSubscribeEphemeral SubscribeEphemeral_def Let_def)
    then have "wanted_filters (conn_step op c) \<subseteq> wanted_filters c \<union> sub_filter ` set subs"
      using fold_put_ephemeral_ok [of "cn_ephemeral c" subs] eph
      unfolding wanted_filters_eq [OF eph] wanted_filters_eq [OF eph'] by (auto simp: ephemeral_ok_def)
    with c show "\<exists>cl. cn_clients c i = Some cl \<and>
        wanted_filters (conn_step op c) \<subseteq> held_filters cl' \<union> (wanted_filters c - held_filters cl)" by auto
  qed
  with cov show ?thesis by (auto simp: OpSubscribeEphemeral SubscribeEphemeral_def)
next
  case (OpUnsubscribeEphemeral env fs)
  have eph': "ephemeral_ok (conn_step op c)" using eph by (rule ephemeral_ok_step)
  let ?own = "sub_filter ` set (cs_subscriptions (cn_spec c))"
  show ?thesis
  proof (rule covered_mono [OF cov])
    show "cn_client (conn_step op c) = cn_client c"
      by (simp add: OpUnsubscribeEphemeral UnsubscribeEphemeral_def Let_def split: option.splits)
    fix i cl' assume i: "cn_client c = Some i" "cn_clients (conn_step op c) i = Some cl'"
    then obtain cl where c: "cn_clients c i = Some cl" "held_filters cl' = held_filters cl - {f \<in> set fs. f \<notin> ?own}"
      by (auto simp: OpUnsubscribeEphemeral UnsubscribeEphemeral_def Let_def split: if_splits)
        (metis (mono_tags, lifting) Diff_empty Collect_empty_eq filter_empty_conv)
    have "cn_ephemeral (conn_step op c) = filter (\<lambda>(f, s). f \<notin> set fs) (cn_ephemeral c)"
      "cn_spec (conn_step op c) = cn_spec c"
      using i(1) by (simp_all add: OpUnsubscribeEphemeral UnsubscribeEphemeral_def Let_def)
    then have "wanted_filters (conn_step op c) \<subseteq> wanted_filters c - (set fs - ?own)"
      using keeps unfolding wanted_filters_eq [OF eph] wanted_filters_eq [OF eph']
      by (auto simp: OpUnsubscribeEphemeral)
    with c show "\<exists>cl. cn_clients c i = Some cl \<and>
        wanted_filters (conn_step op c) \<subseteq> held_filters cl' \<union> (wanted_filters c - held_filters cl)" by auto
  qed
qed (rule covered_cong [OF cov], auto simp: conn_Publish_def ClearState_def handleMessage_def
    event_Down_def event_Error_def Let_def split: option.splits)+

section \<open>Runs\<close>

fun never_drops :: "conn_op list \<Rightarrow> Conn \<Rightarrow> bool" where
  "never_drops [] c = True"
| "never_drops (op # ops) c = (\<not> drops_wanted op c \<and> never_drops ops (conn_step op c))"

definition conn_run :: "conn_op list \<Rightarrow> Conn \<Rightarrow> Conn" where
  "conn_run ops c = fold conn_step ops c"

lemma newConn_ok [wf_intro]: "covered (newConn env spec)" "ephemeral_ok (newConn env spec)"
  by (simp_all add: covered_def ephemeral_ok_def newConn_def)

lemma conn_run_client_ok: "client_ok c \<Longrightarrow> client_ok (conn_run ops c)"
  unfolding conn_run_def by (induction ops arbitrary: c) (auto intro: wf_intro)

lemma conn_run_covered:
  "covered c \<Longrightarrow> client_ok c \<Longrightarrow> ephemeral_ok c \<Longrightarrow> never_drops ops c \<Longrightarrow> covered (conn_run ops c)"
  unfolding conn_run_def
  by (induction ops arbitrary: c) (auto intro: covered_step wf_intro)

text \<open>
  C9. However a connection is used, one operation after another, a client it holds is open, wanted,
  and shown as something other than disconnected; and as long as no unsubscribe names a filter
  that someone else still wants, that client replays after every reconnect all that the user, the
  plugins and the broker statistics want.
\<close>

theorem conn_client_covers_wanted:
  assumes "cn_client (conn_run ops (newConn env spec)) = Some i"
  shows "cn_wantConnect (conn_run ops (newConn env spec)) \<and>
    st_state (conn_Status (conn_run ops (newConn env spec))) \<noteq> StateDisconnected \<and>
    (\<exists>cl. cn_clients (conn_run ops (newConn env spec)) i = Some cl \<and> \<not> cl_closed cl \<and>
      (never_drops ops (newConn env spec) \<longrightarrow>
         sub_filter ` set (wantedSubscriptions (conn_run ops (newConn env spec))) \<subseteq> dom (cl_subs cl)))"
proof -
  let ?c = "conn_run ops (newConn env spec)"
  have "client_ok ?c" by (intro conn_run_client_ok wf_intro)
  with assms obtain cl where cl: "cn_clients ?c i = Some cl" "\<not> cl_closed cl" "cn_wantConnect ?c"
    "st_state (cn_status ?c) \<noteq> StateDisconnected" by (auto simp: client_ok_def)
  have "sub_filter ` set (wantedSubscriptions ?c) \<subseteq> dom (cl_subs cl)" if "never_drops ops (newConn env spec)"
  proof -
    have "covered ?c" using that by (intro conn_run_covered wf_intro)
    with assms cl(1) show ?thesis by (auto simp: covered_def wanted_filters_def held_filters_def)
  qed
  with cl show ?thesis by (auto simp: conn_Status_def)
qed


definition ex_env :: Env where
  "ex_env = \<lparr>env_now = 1, env_parse = (\<lambda>s. None), env_quote = (\<lambda>s. s), env_newErr = None, env_dialErr = None,
     env_ups = [False], env_subErr = None, env_unsubErr = None, env_pubErr = None, env_discErr = None\<rparr>"

definition qos0_sub :: "string \<Rightarrow> Subscription" where
  "qos0_sub f = \<lparr>sub_filter = f, sub_qos = 0, sub_noLocal = False, sub_retainAsPublished = False, sub_retainHandling = 0\<rparr>"

definition ex_conn_spec :: ConnectionSpec where
  "ex_conn_spec = \<lparr>cs_id = ''c1'', cs_name = ''home'', cs_url = ''tcp://h:1883'', cs_version = 4, cs_clientID = ''x'',
     cs_username = [], cs_password = [], cs_keepAlive = 30, cs_cleanStart = True, cs_sessionExpiry = 0,
     cs_connectTimeout = 10,
     cs_tls = \<lparr>tls_insecureSkipVerify = False, tls_serverName = [], tls_caPEM = [], tls_clientCertPEM = [],
       tls_clientKeyPEM = [], tls_minVersion = [], tls_alpn = []\<rparr>,
     cs_will = None, cs_subscriptions = [], cs_autoConnect = True, cs_sysStats = True,
     cs_recordToDisk = False, cs_recordKeep = 0, cs_historySize = 2, cs_topicLogEntries = 2, cs_topicLogBudget = 100\<rparr>"

lemmas ex_conn_defs = ex_env_def qos0_sub_def ex_conn_spec_def
lemmas conn_defs = connect_def connect_begin_def connect_ok_def connect_fail_def connect_drop_def
  disconnect_def disconnect_begin_def disconnect_end_def conn_Subscribe_def conn_Unsubscribe_def
  SubscribeEphemeral_def UnsubscribeEphemeral_def event_Up_def setState_def on_client_def newConn_def
  conn_run_def client_new_def client_Subscribe_def client_Unsubscribe_def client_Disconnect_def
  wantedSubscriptions_def SysFilter_def sub_result_def unsub_result_def of_lib_def Let_def

theorem conn_client_covers_wanted_witness:
  "\<exists>cl. cn_clients (conn_run [OpConnect ex_env, OpUnsubscribe ex_env [''b'']] (newConn ex_env ex_conn_spec)) 0 = Some cl \<and>
     ''$SYS/#'' \<in> dom (cl_subs cl)"
proof -
  let ?ops = "[OpConnect ex_env, OpUnsubscribe ex_env [''b'']]"
  have i: "cn_client (conn_run ?ops (newConn ex_env ex_conn_spec)) = Some 0"
    and n: "never_drops ?ops (newConn ex_env ex_conn_spec)"
    and w: "''$SYS/#'' \<in> sub_filter ` set (wantedSubscriptions (conn_run ?ops (newConn ex_env ex_conn_spec)))"
    by (simp_all add: ex_conn_defs conn_defs)
  from conn_client_covers_wanted [OF i] n w show ?thesis by blast
qed

text \<open>
  The premise on unsubscribes is needed: the user's unsubscribe takes a filter a plugin still wants
  away from the client, and a plugin's unsubscribe of \<^verbatim>\<open>$SYS/#\<close> takes the statistics away.
\<close>

lemma unsubscribe_drops_plugin_filter:
  "let c = conn_run [OpConnect ex_env, OpSubscribeEphemeral ex_env [qos0_sub ''a''], OpUnsubscribe ex_env [''a'']]
             (newConn ex_env ex_conn_spec)
   in ''a'' \<in> wanted_filters c \<and> map_option (\<lambda>cl. cl_subs cl ''a'') (cn_clients c 0) = Some None"
  by (simp add: ex_conn_defs conn_defs wanted_filters_def ValidateFilter_def valid_utf8_ascii contains_any_def
      maxTopicBytes_def)

lemma unsubscribe_plugin_drops_sys:
  "let c = conn_run [OpConnect ex_env, OpUnsubscribeEphemeral ex_env [''$SYS/#'']] (newConn ex_env ex_conn_spec)
   in ''$SYS/#'' \<in> wanted_filters c \<and> map_option (\<lambda>cl. cl_subs cl ''$SYS/#'') (cn_clients c 0) = Some None"
  by (simp add: ex_conn_defs conn_defs wanted_filters_def)

text \<open>A subscription added at runtime is checked less than a stored one, which \<^verbatim>\<open>Normalize\<close> then refuses.\<close>

lemma subscribe_stores_refused_sub:
  "let s = (qos0_sub ''a'')\<lparr>sub_retainHandling := 3\<rparr>; c = snd (conn_Subscribe ex_env [s] (newConn ex_env ex_conn_spec))
   in cs_subscriptions (cn_spec c) = [s] \<and> \<not> sane_spec (cn_spec c)"
  by (simp add: ex_conn_defs conn_defs ValidateFilter_def valid_utf8_ascii contains_any_def maxTopicBytes_def
      sane_spec_def sane_sub_def)

section \<open>Messages\<close>

text \<open>The messages of a run as the connection numbers and stamps them.\<close>

fun stamped :: "nat \<Rightarrow> conn_op list \<Rightarrow> Message list" where
  "stamped n [] = []"
| "stamped n (OpMessage now m # ops) = stamp now (n + 1) m # stamped (n + 1) ops"
| "stamped n (op # ops) = stamped n ops"

fun emitted_messages :: "ConnEvent list \<Rightarrow> Message list" where
  "emitted_messages [] = []"
| "emitted_messages (EmitMessage m # es) = m # emitted_messages es"
| "emitted_messages (EmitStatus st # es) = emitted_messages es"

lemma emitted_append [simp]: "emitted_messages (es @ fs) = emitted_messages es @ emitted_messages fs"
  by (induction es rule: emitted_messages.induct) simp_all

lemma emitted_setState [simp]:
  "emitted_messages (cn_out (setState env st e c)) = emitted_messages (cn_out c)"
  by (simp add: setState_def Let_def)

lemma emitted_fold_Up [simp]:
  "emitted_messages (cn_out (fold (event_Up env) us c)) = emitted_messages (cn_out c)"
  by (induction us arbitrary: c) (simp_all add: event_Up_def)

definition same_data :: "Conn \<Rightarrow> Conn \<Rightarrow> bool" where
  "same_data c d \<longleftrightarrow> cn_tree d = cn_tree c \<and> cn_history d = cn_history c \<and> cn_topicLog d = cn_topicLog c \<and>
     cn_seq d = cn_seq c \<and> cn_received d = cn_received c \<and>
     emitted_messages (cn_out d) = emitted_messages (cn_out c)"

lemma connect_same_data: "same_data c (snd (connect env c))"
  by (cases rule: connect_begin_cases [of c env]; cases "env_dialErr env")
    (simp_all add: connect_def connect_fail_def connect_ok_def connect_drop_def Let_def same_data_def)

lemma disconnect_same_data: "same_data c (snd (disconnect env c))"
  by (simp add: disconnect_def disconnect_begin_def disconnect_end_def same_data_def split: option.splits)

lemma same_data_trans: "same_data c d \<Longrightarrow> same_data d e \<Longrightarrow> same_data c e"
  by (simp add: same_data_def)

lemma upsert_same_data: "same_data c (snd (upsert_existing env spec c))"
proof -
  have s: "same_data d (setSpec spec d)" for d by (simp add: same_data_def)
  have y: "same_data d (snd (syncSubscriptions env d))" for d by (simp add: same_data_def frame_simp)
  show ?thesis
    by (simp add: upsert_existing_def Let_def)
      (metis connect_same_data disconnect_same_data s same_data_trans y)
qed

lemma conn_step_same_data:
  "op \<noteq> OpClear \<Longrightarrow> (\<And>now m. op \<noteq> OpMessage now m) \<Longrightarrow> same_data c (conn_step op c)"
  by (cases op) (simp_all add: connect_same_data disconnect_same_data upsert_same_data, auto simp: same_data_def
      conn_Subscribe_def conn_Unsubscribe_def SubscribeEphemeral_def UnsubscribeEphemeral_def conn_Publish_def
      event_Down_def event_Up_def event_Error_def Let_def frame_simp
      split: option.splits)

lemma stamped_other: "(\<And>now m. op \<noteq> OpMessage now m) \<Longrightarrow> stamped n (op # ops) = stamped n ops"
  by (cases op) auto

lemma conn_run_data:
  "OpClear \<notin> set ops \<Longrightarrow> cn_seq c = n \<Longrightarrow>
     cn_tree (conn_run ops c) = fold Record (stamped n ops) (cn_tree c) \<and>
     cn_history (conn_run ops c) = fold history_add (stamped n ops) (cn_history c) \<and>
     cn_topicLog (conn_run ops c) = fold topiclog_Add (stamped n ops) (cn_topicLog c) \<and>
     cn_received (conn_run ops c) = cn_received c + length (stamped n ops) \<and>
     emitted_messages (cn_out (conn_run ops c)) = emitted_messages (cn_out c) @ stamped n ops"
proof (induction ops arbitrary: c n)
  case Nil
  then show ?case by (simp add: conn_run_def)
next
  case (Cons op ops)
  have run: "conn_run (op # ops) c = conn_run ops (conn_step op c)" by (simp add: conn_run_def)
  show ?case
  proof (cases "\<exists>now m. op = OpMessage now m")
    case True
    then obtain now m where op: "op = OpMessage now m" by auto
    have "cn_seq (conn_step op c) = n + 1" using Cons.prems by (simp add: op handleMessage_def Let_def)
    from Cons.IH [OF _ this] Cons.prems run show ?thesis
      by (simp add: op handleMessage_def Let_def)
  next
    case False
    then have d: "same_data c (conn_step op c)" using Cons.prems by (intro conn_step_same_data) auto
    then have "cn_seq (conn_step op c) = n" using Cons.prems by (simp add: same_data_def)
    from Cons.IH [OF _ this] Cons.prems run d stamped_other [of op n ops] False show ?thesis
      by (simp add: same_data_def)
  qed
qed

lemma stamped_seq: "map msg_seq (stamped n ops) = [Suc n..<Suc n + length (stamped n ops)]"
proof (induction n ops rule: stamped.induct)
  case (2 n now m ops)
  then show ?case by (simp add: stamp_def upt_conv_Cons del: upt_Suc)
qed (simp_all del: upt_Suc)

text \<open>
  Whatever else happens to a connection, reconnects and edits included, every message it
  receives is numbered in order from 1, counted once, stored once in the tree, the history and the
  per-topic log, and told to the observers once, in order.
\<close>

theorem conn_messages_once:
  assumes "OpClear \<notin> set ops"
  shows "cn_tree (conn_run ops (newConn env spec)) = fold Record (stamped 0 ops) NewTree \<and>
     cn_history (conn_run ops (newConn env spec)) =
       fold history_add (stamped 0 ops) (NewHistory (cs_historySize spec)) \<and>
     cn_topicLog (conn_run ops (newConn env spec)) =
       fold topiclog_Add (stamped 0 ops) (NewTopicLog (cs_topicLogEntries spec) (cs_topicLogBudget spec)) \<and>
     st_received (conn_Status (conn_run ops (newConn env spec))) = length (stamped 0 ops) \<and>
     map msg_seq (stamped 0 ops) = [1..<Suc (length (stamped 0 ops))] \<and>
     emitted_messages (cn_out (conn_run ops (newConn env spec))) = stamped 0 ops"
  using conn_run_data [OF assms, of "newConn env spec" 0] stamped_seq [of 0 ops]
  by (simp add: newConn_def conn_Status_def)

theorem conn_messages_once_witness:
  "st_received (conn_Status (conn_run [OpMessage 3 (ex_msg ''a'' [1] 0), OpConnect ex_env, OpDisconnect ex_env,
      OpMessage 4 (ex_msg ''b'' [2] 0)] (newConn ex_env ex_conn_spec))) = 2"
  using conn_messages_once [of "[OpMessage 3 (ex_msg ''a'' [1] 0), OpConnect ex_env, OpDisconnect ex_env,
      OpMessage 4 (ex_msg ''b'' [2] 0)]" ex_env ex_conn_spec] by simp

end
