(* ===== verification/ConnRace.thy ===== *)
theory ConnRace
  imports ConnFacts
begin

text \<open>
  The same operations of \<^verbatim>\<open>manager.go\<close> when callers overlap. \<^verbatim>\<open>connect\<close> and \<^verbatim>\<open>disconnect\<close> hold the
  connection's mutex only in short sections and talk to the broker between them, so a call in
  progress is a thread parked between two sections, and a step of the system runs one section of
  one of them, or a callback of a client.
\<close>

section \<open>Threads and steps\<close>

text \<open>
  Where a call is parked: before reporting that it connects, while the client dials, after giving
  the dial up and before closing that client, and between taking a client away and closing it.
\<close>

datatype thread =
    TConnecting nat ConnectionSpec
  | TDialling nat ConnectionSpec
  | TDropped nat ConnectionSpec GoError
  | TDisconnecting "nat option"

type_synonym race = "Conn \<times> thread list"

inductive race_step :: "race \<Rightarrow> race \<Rightarrow> bool" where
  begin_running: "connect_begin env c = (AlreadyRunning, c') \<Longrightarrow> race_step (c, ts) (c', ts)"
| begin_failed: "connect_begin env c = (NewFailed e, c') \<Longrightarrow>
    race_step (c, ts) (setState env StateError (Some e) c', ts)"
| begin_dial: "connect_begin env c = (Dialling i spec, c') \<Longrightarrow>
    race_step (c, ts) (c', TConnecting i spec # ts)"
| connecting: "TConnecting i spec \<in> set ts \<Longrightarrow>
    race_step (c, ts) (setState env StateConnecting None c, TDialling i spec # remove1 (TConnecting i spec) ts)"
| dial_ok: "TDialling i spec \<in> set ts \<Longrightarrow>
    race_step (c, ts) (snd (connect_ok env i c), remove1 (TDialling i spec) ts)"
| dial_fail: "TDialling i spec \<in> set ts \<Longrightarrow>
    race_step (c, ts) (connect_drop c, TDropped i spec e # remove1 (TDialling i spec) ts)"
| dropped: "TDropped i spec e \<in> set ts \<Longrightarrow>
    race_step (c, ts) (setState env StateError (explain env spec (Some e)) (on_client client_Disconnect i c),
                       remove1 (TDropped i spec e) ts)"
| disc_begin: "disconnect_begin c = (i, c') \<Longrightarrow> race_step (c, ts) (c', TDisconnecting i # ts)"
| disc_end: "TDisconnecting i \<in> set ts \<Longrightarrow>
    race_step (c, ts) (snd (disconnect_end env i c), remove1 (TDisconnecting i) ts)"
| up: "race_step (c, ts) (event_Up env b c, ts)"
| down: "race_step (c, ts) (event_Down env e c, ts)"

inductive reachable :: "Conn \<Rightarrow> race \<Rightarrow> bool" for c0 where
  start: "reachable c0 (c0, [])"
| step: "reachable c0 s \<Longrightarrow> race_step s s' \<Longrightarrow> reachable c0 s'"

section \<open>What no interleaving breaks\<close>

text \<open>The client a parked thread is about to close.\<close>

fun closing :: "thread \<Rightarrow> nat option" where
  "closing (TDropped i spec e) = Some i"
| "closing (TDisconnecting i) = i"
| "closing (TConnecting i spec) = None"
| "closing (TDialling i spec) = None"

fun dialled :: "thread \<Rightarrow> nat option" where
  "dialled (TConnecting i spec) = Some i"
| "dialled (TDialling i spec) = Some i"
| "dialled t = None"

definition race_ok :: "race \<Rightarrow> bool" where
  "race_ok s \<longleftrightarrow>
     (case s of (c, ts) \<Rightarrow>
        (\<forall>i. cn_clients c i \<noteq> None \<longleftrightarrow> i < cn_nextClient c) \<and>
        st_attempts (cn_status c) = cn_nextClient c \<and>
        (\<forall>t \<in> set ts. \<forall>i. closing t = Some i \<or> dialled t = Some i \<longrightarrow> i < cn_nextClient c) \<and>
        (\<forall>t \<in> set ts. \<forall>i. closing t = Some i \<longrightarrow> cn_client c \<noteq> Some i) \<and>
        (\<forall>i. cn_client c = Some i \<longrightarrow>
           cn_wantConnect c \<and> (\<exists>cl. cn_clients c i = Some cl \<and> \<not> cl_closed cl)))"

lemmas race_frames = connect_ok_def connect_drop_def disconnect_end_def disconnect_begin_def event_Up_def event_Down_def Let_def

lemma set_remove1_mem: "t \<in> set (remove1 x ts) \<Longrightarrow> t \<in> set ts"
  by (meson notin_set_remove1)

lemma race_ok_start: "race_ok (newConn env spec, [])"
  by (simp add: race_ok_def newConn_def)

lemma race_ok_step:
  assumes "race_step s s'" and "race_ok s" shows "race_ok s'"
  using assms
proof (induction rule: race_step.induct)
  case (begin_running env c c' ts)
  then show ?case by (cases rule: connect_begin_cases [of c env]) (auto simp: race_ok_def)
next
  case (begin_failed env c e c' ts)
  then show ?case by (cases rule: connect_begin_cases [of c env]) (auto simp: race_ok_def)
next
  case (begin_dial env c i spec c' ts)
  then have ok: "race_ok (c, ts)" and b: "connect_begin env c = (Dialling i spec, c')" by auto
  have known: "cn_clients c j \<noteq> None \<longleftrightarrow> j < cn_nextClient c" for j using ok by (simp add: race_ok_def)
  have free: "\<forall>t \<in> set ts. closing t \<noteq> Some (cn_nextClient c)" using ok unfolding race_ok_def by auto
  have below: "\<forall>t \<in> set ts. \<forall>j. closing t = Some j \<or> dialled t = Some j \<longrightarrow> j < Suc (cn_nextClient c)"
    using ok unfolding race_ok_def by (auto intro: less_SucI)
  from b ok show ?case
  proof (cases rule: connect_begin_cases [of c env])
    case dialling
    with b have i: "i = cn_nextClient c" and c': "c' = c\<lparr>cn_wantConnect := True, cn_client := Some i,
        cn_nextClient := i + 1, cn_clients := (cn_clients c)(i \<mapsto> client_new (cn_spec c)),
        cn_status := (cn_status c)\<lparr>st_attempts := st_attempts (cn_status c) + 1\<rparr>\<rparr>" by auto
    have "st_attempts (cn_status c) = i" using ok by (simp add: race_ok_def i)
    moreover have "cn_clients c' j \<noteq> None \<longleftrightarrow> j < Suc i" for j
      using known [of j] by (auto simp: c' i less_Suc_eq)
    ultimately show ?thesis using free below by (auto simp: race_ok_def c' i)
  qed simp_all
next
  case (connecting i spec ts c env)
  then show ?case by (auto simp: race_ok_def dest: set_remove1_mem)
next
  case (dial_ok i spec ts c env)
  then show ?case by (auto simp: race_ok_def race_frames dest: set_remove1_mem)
next
  case (dial_fail i spec ts c e)
  then show ?case by (auto simp: race_ok_def race_frames dest: set_remove1_mem)
next
  case (dropped i spec e ts c env)
  then show ?case by (auto simp: race_ok_def race_frames dest: set_remove1_mem)
next
  case (disc_begin c i c' ts)
  then show ?case by (auto simp: race_ok_def race_frames dest: set_remove1_mem)
next
  case (disc_end i ts c env)
  then show ?case by (auto simp: race_ok_def race_frames dest: set_remove1_mem split: option.splits)
next
  case (up c ts env b)
  then show ?case by (simp add: race_ok_def race_frames)
next
  case (down c ts env e)
  then show ?case by (simp add: race_ok_def race_frames)
qed

lemma reachable_ok: "reachable (newConn env spec) s \<Longrightarrow> race_ok s"
  by (induction rule: reachable.induct) (auto intro: race_ok_start race_ok_step)


text \<open>
  C11. Whatever the interleaving of connects, disconnects, dials and client callbacks, the client a
  connection holds has not been closed, is one the user wants, and is not one a parked call is
  about to close; every client ever made was counted as an attempt.
\<close>

theorem race_client_open:
  assumes "reachable (newConn env spec) (c, ts)"
  shows "st_attempts (conn_Status c) = cn_nextClient c \<and>
    (case cn_client c of
       None \<Rightarrow> True
     | Some i \<Rightarrow> cn_wantConnect c \<and> (\<exists>cl. cn_clients c i = Some cl \<and> \<not> cl_closed cl) \<and>
         TDisconnecting (Some i) \<notin> set ts)"
proof -
  have ok: "race_ok (c, ts)" using assms by (rule reachable_ok)
  then have "TDisconnecting (Some i) \<notin> set ts" if "cn_client c = Some i" for i
    using that unfolding race_ok_def by fastforce
  with ok show ?thesis by (auto simp: race_ok_def conn_Status_def split: option.splits)
qed

section \<open>What an interleaving can do\<close>

lemma reachable_step: "reachable c0 s \<Longrightarrow> race_step s s' \<Longrightarrow> reachable c0 s'"
  by (rule reachable.step)

definition ex_start :: Conn where "ex_start = newConn ex_env ex_conn_spec"

text \<open>A dial that returns after the user disconnected.\<close>

definition ex_dialling :: Conn where
  "ex_dialling = setState ex_env StateConnecting None (snd (connect_begin ex_env ex_start))"

definition ex_abandoned :: Conn where
  "ex_abandoned = snd (disconnect_end ex_env (Some 0) (snd (disconnect_begin ex_dialling)))"

lemma reach_dialling: "reachable ex_start (ex_dialling, [TDialling 0 ex_conn_spec])"
proof -
  have b: "connect_begin ex_env ex_start = (Dialling 0 ex_conn_spec, snd (connect_begin ex_env ex_start))"
    by (simp add: connect_begin_def ex_start_def newConn_def ex_env_def Let_def)
  have "reachable ex_start (snd (connect_begin ex_env ex_start), [TConnecting 0 ex_conn_spec])"
    using reachable.start begin_dial [OF b] by (rule reachable_step)
  from reachable_step [OF this connecting [of 0 ex_conn_spec]] show ?thesis
    by (simp add: ex_dialling_def)
qed

lemma reach_abandoned: "reachable ex_start (ex_abandoned, [TDialling 0 ex_conn_spec])"
proof -
  have b: "disconnect_begin ex_dialling = (Some 0, snd (disconnect_begin ex_dialling))"
    by (simp add: disconnect_begin_def ex_dialling_def connect_begin_def ex_start_def newConn_def ex_env_def Let_def)
  have "reachable ex_start (snd (disconnect_begin ex_dialling), [TDisconnecting (Some 0), TDialling 0 ex_conn_spec])"
    using reach_dialling disc_begin [OF b] by (rule reachable_step)
  from reachable_step [OF this disc_end [of "Some 0"]] show ?thesis by (simp add: ex_abandoned_def)
qed

text \<open>
  A dial that completes after a disconnect leaves the connection reported as connected although
  it has no client, the user wants it down, and no call is left that would correct the report.
\<close>

lemma race_connected_without_client:
  "\<exists>c. reachable (newConn ex_env ex_conn_spec) (c, []) \<and>
     st_state (conn_Status c) = StateConnected \<and> cn_client c = None \<and> \<not> cn_wantConnect c"
proof -
  let ?c = "snd (connect_ok ex_env 0 ex_abandoned)"
  have "reachable ex_start (?c, [])"
    using reachable_step [OF reach_abandoned dial_ok [of 0 ex_conn_spec]] by simp
  moreover have "st_state (conn_Status ?c) = StateConnected \<and> cn_client ?c = None \<and> \<not> cn_wantConnect ?c"
    by (simp add: connect_ok_def conn_Status_def ex_abandoned_def disconnect_end_def disconnect_begin_def Let_def)
  ultimately show ?thesis unfolding ex_start_def by blast
qed

definition ex_second :: Conn where
  "ex_second = setState ex_env StateConnecting None (snd (connect_begin ex_env ex_abandoned))"

lemma reach_second: "reachable ex_start (ex_second, [TDialling 1 ex_conn_spec, TDialling 0 ex_conn_spec])"
proof -
  have b: "connect_begin ex_env ex_abandoned = (Dialling 1 ex_conn_spec, snd (connect_begin ex_env ex_abandoned))"
    by (simp add: connect_begin_def ex_abandoned_def ex_dialling_def ex_start_def newConn_def ex_env_def Let_def
        disconnect_end_def disconnect_begin_def)
  have "reachable ex_start (snd (connect_begin ex_env ex_abandoned),
      [TConnecting 1 ex_conn_spec, TDialling 0 ex_conn_spec])"
    using reach_abandoned begin_dial [OF b] by (rule reachable_step)
  from reachable_step [OF this connecting [of 1 ex_conn_spec]] show ?thesis by (simp add: ex_second_def)
qed

text \<open>
  A connect, a disconnect and a second connect overlapping can leave an open client running that
  the connection no longer holds: the first dial, failing late, takes away the second one's client,
  so no later disconnect can close it.
\<close>

lemma race_leaks_client:
  "\<exists>c i cl. reachable (newConn ex_env ex_conn_spec) (c, []) \<and> cn_wantConnect c \<and> cn_client c = None \<and>
     cn_clients c i = Some cl \<and> \<not> cl_closed cl"
proof -
  let ?e = "plain_error ''late''"
  let ?d = "setState ex_env StateError (explain ex_env ex_conn_spec (Some ?e))
              (on_client client_Disconnect 0 (connect_drop ex_second))"
  let ?c = "snd (connect_ok ex_env 1 ?d)"
  have "reachable ex_start (connect_drop ex_second, [TDropped 0 ex_conn_spec ?e, TDialling 1 ex_conn_spec])"
    using reachable_step [OF reach_second dial_fail [of 0 ex_conn_spec]] by simp
  then have "reachable ex_start (?d, [TDialling 1 ex_conn_spec])"
    using reachable_step [OF _ dropped [of 0 ex_conn_spec ?e]] by fastforce
  then have "reachable ex_start (?c, [])"
    using reachable_step [OF _ dial_ok [of 1 ex_conn_spec]] by fastforce
  moreover have "cn_wantConnect ?c \<and> cn_client ?c = None"
    by (simp add: connect_ok_def connect_drop_def ex_second_def connect_begin_def ex_abandoned_def ex_dialling_def
        ex_start_def newConn_def ex_env_def disconnect_end_def disconnect_begin_def Let_def)
  moreover have "\<exists>cl. cn_clients ?c 1 = Some cl \<and> \<not> cl_closed cl"
    by (simp add: connect_ok_def connect_drop_def ex_second_def connect_begin_def ex_abandoned_def ex_dialling_def
        ex_start_def newConn_def ex_env_def disconnect_end_def disconnect_begin_def Let_def)
  ultimately show ?thesis unfolding ex_start_def by blast
qed

theorem race_client_open_witness:
  "st_attempts (conn_Status ex_dialling) = 1 \<and> TDisconnecting (Some 0) \<notin> set [TDialling 0 ex_conn_spec]"
  using race_client_open [OF reach_dialling [unfolded ex_start_def]]
  by (simp add: ex_dialling_def connect_begin_def ex_start_def newConn_def ex_env_def Let_def)

end
