(* ===== verification/MsgRace.thy ===== *)
theory MsgRace
  imports ConnRace "HOL-Library.Multiset"
begin

text \<open>
  Messages when they overlap. \<^verbatim>\<open>handleMessage\<close> of \<^verbatim>\<open>manager.go\<close> holds no lock of its own, and the client for MQTT 3
  lets its handlers run at the same time: a message in hand is parked between two of the calls the handler makes, each
  of which is atomic, and others are numbered, stored and told meanwhile. So are the connection's other calls.
\<close>

section \<open>Handlers and steps\<close>

text \<open>
  Where a handler is: before it has a number, and after each of the calls it makes: numbered, counted, in the tree, in
  the history, in the per-topic log.
\<close>

datatype handler =
    HArrived Message | HNumbered Message | HCounted Message | HInTree Message | HInHistory Message | HInLog Message

type_synonym reception = "Conn \<times> thread list \<times> handler list"

text \<open>
  One call of one handler, one of the three calls of \<^verbatim>\<open>ClearState\<close>, a section of a connect or a disconnect, or another
  call of the connection. With \<open>serial\<close> the client gives one message at a time; without \<open>clears\<close> nobody clears.
\<close>

inductive rx_step :: "bool \<Rightarrow> bool \<Rightarrow> reception \<Rightarrow> reception \<Rightarrow> bool" for serial clears where
  arrive: "(serial \<Longrightarrow> hs = []) \<Longrightarrow> rx_step serial clears (c, ts, hs) (c, ts, HArrived m # hs)"
| number: "rx_step serial clears (c, ts, xs @ HArrived m # ys)
    (c\<lparr>cn_seq := cn_seq c + 1\<rparr>, ts, xs @ HNumbered (stamp now (cn_seq c + 1) m) # ys)"
| count: "rx_step serial clears (c, ts, xs @ HNumbered m # ys)
    (c\<lparr>cn_received := cn_received c + 1\<rparr>, ts, xs @ HCounted m # ys)"
| to_tree: "rx_step serial clears (c, ts, xs @ HCounted m # ys) (c\<lparr>cn_tree := Record m (cn_tree c)\<rparr>, ts, xs @ HInTree m # ys)"
| to_history: "rx_step serial clears (c, ts, xs @ HInTree m # ys)
    (c\<lparr>cn_history := history_add m (cn_history c)\<rparr>, ts, xs @ HInHistory m # ys)"
| to_log: "rx_step serial clears (c, ts, xs @ HInHistory m # ys)
    (c\<lparr>cn_topicLog := topiclog_Add m (cn_topicLog c)\<rparr>, ts, xs @ HInLog m # ys)"
| tell: "rx_step serial clears (c, ts, xs @ HInLog m # ys) (c\<lparr>cn_out := cn_out c @ [EmitMessage m]\<rparr>, ts, xs @ ys)"
| clear_tree: "clears \<Longrightarrow> rx_step serial clears (c, ts, hs) (c\<lparr>cn_tree := tree_clear (cn_tree c)\<rparr>, ts, hs)"
| clear_history: "clears \<Longrightarrow> rx_step serial clears (c, ts, hs) (c\<lparr>cn_history := history_clear (cn_history c)\<rparr>, ts, hs)"
| clear_log: "clears \<Longrightarrow> rx_step serial clears (c, ts, hs) (c\<lparr>cn_topicLog := topiclog_Clear (cn_topicLog c)\<rparr>, ts, hs)"
| part: "race_step (c, ts) (c', ts') \<Longrightarrow> rx_step serial clears (c, ts, hs) (c', ts', hs)"
| other: "op \<noteq> OpClear \<Longrightarrow> (\<And>now m. op \<noteq> OpMessage now m) \<Longrightarrow> rx_step serial clears (c, ts, hs) (conn_step op c, ts, hs)"

inductive receives :: "bool \<Rightarrow> bool \<Rightarrow> Conn \<Rightarrow> reception \<Rightarrow> bool" for serial clears c0 where
  nothing_yet: "receives serial clears c0 (c0, [], [])"
| goes_on: "receives serial clears c0 s \<Longrightarrow> rx_step serial clears s s' \<Longrightarrow> receives serial clears c0 s'"

text \<open>A handler that nobody comes in between of is \<^const>\<open>handleMessage\<close>.\<close>

lemma alone: "(rx_step serial clears)\<^sup>*\<^sup>* (c, ts, []) (handleMessage now m c, ts, [])"
proof -
  let ?m = "stamp now (cn_seq c + 1) m"
  let ?R = "rx_step serial clears"
  let ?c1 = "c\<lparr>cn_seq := cn_seq c + 1\<rparr>" let ?c2 = "?c1\<lparr>cn_received := cn_received ?c1 + 1\<rparr>"
  let ?c3 = "?c2\<lparr>cn_tree := Record ?m (cn_tree ?c2)\<rparr>" let ?c4 = "?c3\<lparr>cn_history := history_add ?m (cn_history ?c3)\<rparr>"
  let ?c5 = "?c4\<lparr>cn_topicLog := topiclog_Add ?m (cn_topicLog ?c4)\<rparr>" let ?c6 = "?c5\<lparr>cn_out := cn_out ?c5 @ [EmitMessage ?m]\<rparr>"
  have s: "?R (c, ts, []) (c, ts, [HArrived m])" "?R (c, ts, [HArrived m]) (?c1, ts, [HNumbered ?m])"
    "?R (?c1, ts, [HNumbered ?m]) (?c2, ts, [HCounted ?m])" "?R (?c2, ts, [HCounted ?m]) (?c3, ts, [HInTree ?m])"
    "?R (?c3, ts, [HInTree ?m]) (?c4, ts, [HInHistory ?m])" "?R (?c4, ts, [HInHistory ?m]) (?c5, ts, [HInLog ?m])"
    "?R (?c5, ts, [HInLog ?m]) (?c6, ts, [])"
    using arrive [of serial "[]" clears c ts m] number [of serial clears c ts "[]" m "[]" now]
      count [of serial clears ?c1 ts "[]" ?m "[]"] to_tree [of serial clears ?c2 ts "[]" ?m "[]"]
      to_history [of serial clears ?c3 ts "[]" ?m "[]"] to_log [of serial clears ?c4 ts "[]" ?m "[]"]
      tell [of serial clears ?c5 ts "[]" ?m "[]"]
    by simp_all
  note step = converse_rtranclp_into_rtranclp
  have "?R\<^sup>*\<^sup>* (c, ts, []) (?c6, ts, [])"
    by (rule step [OF s(1) step [OF s(2) step [OF s(3) step [OF s(4) step [OF s(5) step [OF s(6) r_into_rtranclp [of ?R, OF s(7)]]]]]]])
  moreover have "?c6 = handleMessage now m c" by (simp add: handleMessage_def Let_def)
  ultimately show ?thesis by simp
qed

section \<open>What is in hand\<close>

fun stage :: "handler \<Rightarrow> nat \<times> Message" where
  "stage (HArrived m) = (0, m)"
| "stage (HNumbered m) = (1, m)"
| "stage (HCounted m) = (2, m)"
| "stage (HInTree m) = (3, m)"
| "stage (HInHistory m) = (4, m)"
| "stage (HInLog m) = (5, m)"

text \<open>The messages that have a number and have not reached the stage \<open>k\<close>.\<close>

definition waiting :: "nat \<Rightarrow> handler list \<Rightarrow> Message list" where
  "waiting k hs = [m. (i, m) \<leftarrow> map stage hs, 1 \<le> i \<and> i < k]"

lemma waiting_simps [simp]:
  "waiting k [] = []" "waiting k (xs @ ys) = waiting k xs @ waiting k ys"
  "waiting k (h # hs) = (if 1 \<le> fst (stage h) \<and> fst (stage h) < k then [snd (stage h)] else []) @ waiting k hs"
  by (simp_all add: waiting_def split: prod.split)

text \<open>
  A store that has been given the messages \<open>X\<close>, of which \<open>X'\<close> since it was last cleared: together with those that wait
  for it they are the ones numbered, each once; and one at a time they come in the order of their numbers.
\<close>

definition given :: "bool \<Rightarrow> bool \<Rightarrow> Message list \<Rightarrow> Message list \<Rightarrow> Message list \<Rightarrow> Message list \<Rightarrow> bool" where
  "given serial clears S X X' W \<longleftrightarrow>
     mset X + mset W = mset S \<and> (\<exists>gone. X = gone @ X') \<and> (\<not> clears \<longrightarrow> X' = X) \<and> (serial \<longrightarrow> X @ W = S)"

lemma given_start: "given serial clears [] [] [] []"
  by (simp add: given_def)

lemma given_number:
  "given serial clears S X X' (a @ b) \<Longrightarrow> (serial \<Longrightarrow> b = []) \<Longrightarrow> given serial clears (S @ [m]) X X' (a @ m # b)"
  by (auto simp: given_def)

lemma given_put:
  "given serial clears S X X' (a @ m # b) \<Longrightarrow> (serial \<Longrightarrow> a = []) \<Longrightarrow> given serial clears S (X @ [m]) (X' @ [m]) (a @ b)"
  by (auto simp: given_def)

lemma given_clear: "given serial clears S X X' W \<Longrightarrow> clears \<Longrightarrow> given serial clears S X [] W"
  by (auto simp: given_def)

section \<open>What stays the same\<close>

lemma history_add_length: "length (hist_buf (history_add m h)) = length (hist_buf h)"
  by (simp add: history_add_def history_write_def Let_def)

lemma history_cleared: "history_clear (fold history_add H (NewHistory n)) = NewHistory n"
proof -
  have "length (hist_buf (fold history_add H h)) = length (hist_buf h)" for h
    by (induction H arbitrary: h) (simp_all add: history_add_length)
  then show ?thesis by (simp add: history_clear_def NewHistory_def Let_def)
qed

lemma tree_cleared [simp]: "tree_clear t = NewTree"
  by (simp add: tree_clear_def NewTree_def)

definition log_from :: "ConnectionSpec \<Rightarrow> nat \<Rightarrow> TopicLog" where
  "log_from spec n = (NewTopicLog (cs_topicLogEntries spec) (cs_topicLogBudget spec))\<lparr>tl_evicted := n\<rparr>"

lemma topiclog_sizes: "tl_perTopic (topiclog_Add m l) = tl_perTopic l" "tl_budget (topiclog_Add m l) = tl_budget l"
  by (simp_all add: topiclog_Add_def topiclog_write_def Let_def frame_simp)

lemma log_cleared: "\<exists>n'. topiclog_Clear (fold topiclog_Add L (log_from spec n)) = log_from spec n'"
proof -
  have "tl_perTopic (fold topiclog_Add L l) = tl_perTopic l \<and> tl_budget (fold topiclog_Add L l) = tl_budget l" for l
    by (induction L arbitrary: l) (simp_all add: topiclog_sizes)
  moreover have "topiclog_Clear l = log_from spec (tl_evicted l)"
    if "tl_perTopic l = tl_perTopic (log_from spec n)" "tl_budget l = tl_budget (log_from spec n)" for l
    using that by (cases l) (simp add: topiclog_Clear_def log_from_def NewTopicLog_def)
  ultimately show ?thesis by blast
qed

lemma race_same_data:
  assumes "race_step (c, ts) (c', ts')" shows "same_data c c'"
  using assms
proof cases
  case (begin_running env)
  then show ?thesis by (cases rule: connect_begin_cases [of c env]) (auto simp: same_data_def)
next
  case (begin_failed env e d)
  then show ?thesis by (cases rule: connect_begin_cases [of c env]) (auto simp: same_data_def)
next
  case (begin_dial env i spec)
  then show ?thesis by (cases rule: connect_begin_cases [of c env]) (auto simp: same_data_def)
qed (auto simp: same_data_def race_frames split: option.splits)

text \<open>
  \<open>S\<close> are the messages numbered, \<open>T\<close>, \<open>H\<close> and \<open>L\<close> what the tree, the history and the log were given, and the primed
  ones what they hold the effect of.
\<close>

definition received_as ::
    "bool \<Rightarrow> bool \<Rightarrow> ConnectionSpec \<Rightarrow> reception \<Rightarrow> Message list \<Rightarrow> Message list \<Rightarrow> Message list \<Rightarrow> Message list \<Rightarrow>
     Message list \<Rightarrow> Message list \<Rightarrow> Message list \<Rightarrow> bool" where
  "received_as serial clears spec s S T T' H H' L L' \<longleftrightarrow>
     (case s of (c, ts, hs) \<Rightarrow>
        map msg_seq S = [1..<Suc (length S)] \<and> cn_seq c = length S \<and>
        cn_received c + length (waiting 2 hs) = length S \<and>
        given serial clears S T T' (waiting 3 hs) \<and> cn_tree c = fold Record T' NewTree \<and>
        given serial clears S H H' (waiting 4 hs) \<and> cn_history c = fold history_add H' (NewHistory (cs_historySize spec)) \<and>
        given serial clears S L L' (waiting 5 hs) \<and> (\<exists>n. cn_topicLog c = fold topiclog_Add L' (log_from spec n)) \<and>
        given serial clears S (emitted_messages (cn_out c)) (emitted_messages (cn_out c)) (waiting 6 hs) \<and>
        (serial \<longrightarrow> length hs \<le> 1))"

lemma received_start: "received_as serial clears spec (newConn env spec, [], []) [] [] [] [] [] [] []"
  by (auto simp: received_as_def newConn_def given_start log_from_def NewTopicLog_def)

lemma received_frame:
  "received_as serial clears spec (c, ts, hs) S T T' H H' L L' \<Longrightarrow> same_data c c' \<Longrightarrow>
     received_as serial clears spec (c', ts', hs) S T T' H H' L L'"
  by (simp add: received_as_def same_data_def)

lemma received_step:
  assumes "rx_step serial clears s s'" and "received_as serial clears spec s S T T' H H' L L'"
  shows "\<exists>S T T' H H' L L'. received_as serial clears spec s' S T T' H H' L L'"
  using assms
proof (cases rule: rx_step.cases)
  case (arrive hs c ts m)
  with assms(2) have "received_as serial clears spec s' S T T' H H' L L'" by (auto simp: received_as_def)
  then show ?thesis by blast
next
  case (number c ts xs m ys now)
  let ?m = "stamp now (cn_seq c + 1) m"
  have one: "serial \<Longrightarrow> xs = [] \<and> ys = []" and seq: "cn_seq c = length S"
    using assms(2) number(1) by (auto simp: received_as_def)
  have "map msg_seq (S @ [?m]) = [1..<Suc (length (S @ [?m]))]"
    using assms(2) seq by (simp add: number(1) received_as_def stamp_def)
  moreover have "given serial clears (S @ [?m]) X X' (waiting k (xs @ HNumbered ?m # ys))"
    if "given serial clears S X X' (waiting k (xs @ HArrived m # ys))" "1 < k" for X X' k
    using given_number [of serial clears S X X' "waiting k xs" "waiting k ys" ?m] that one by auto
  ultimately have "received_as serial clears spec s' (S @ [?m]) T T' H H' L L'"
    using assms(2) by (auto simp: number received_as_def simp del: waiting_simps(2,3)) (simp_all add: number)
  then show ?thesis by blast
next
  case (count c ts xs m ys)
  with assms(2) have "received_as serial clears spec s' S T T' H H' L L'" by (auto simp: received_as_def)
  then show ?thesis by blast
next
  case (to_tree c ts xs m ys)
  have one: "serial \<Longrightarrow> xs = []" using assms(2) to_tree(1) by (auto simp: received_as_def)
  have "given serial clears S (T @ [m]) (T' @ [m]) (waiting 3 (xs @ HInTree m # ys))"
    using assms(2) one given_put [of serial clears S T T' "waiting 3 xs" m "waiting 3 ys"] by (auto simp: to_tree received_as_def)
  with assms(2) have "received_as serial clears spec s' S (T @ [m]) (T' @ [m]) H H' L L'" by (auto simp: to_tree received_as_def)
  then show ?thesis by blast
next
  case (to_history c ts xs m ys)
  have one: "serial \<Longrightarrow> xs = []" using assms(2) to_history(1) by (auto simp: received_as_def)
  have "given serial clears S (H @ [m]) (H' @ [m]) (waiting 4 (xs @ HInHistory m # ys))"
    using assms(2) one given_put [of serial clears S H H' "waiting 4 xs" m "waiting 4 ys"] by (auto simp: to_history received_as_def)
  with assms(2) have "received_as serial clears spec s' S T T' (H @ [m]) (H' @ [m]) L L'" by (auto simp: to_history received_as_def)
  then show ?thesis by blast
next
  case (to_log c ts xs m ys)
  have one: "serial \<Longrightarrow> xs = []" using assms(2) to_log(1) by (auto simp: received_as_def)
  have "given serial clears S (L @ [m]) (L' @ [m]) (waiting 5 (xs @ HInLog m # ys))"
    using assms(2) one given_put [of serial clears S L L' "waiting 5 xs" m "waiting 5 ys"] by (auto simp: to_log received_as_def)
  with assms(2) have "received_as serial clears spec s' S T T' H H' (L @ [m]) (L' @ [m])" by (auto simp: to_log received_as_def)
  then show ?thesis by blast
next
  case (tell c ts xs m ys)
  let ?O = "emitted_messages (cn_out c)"
  have one: "serial \<Longrightarrow> xs = []" using assms(2) tell(1) by (auto simp: received_as_def)
  have "given serial clears S (?O @ [m]) (?O @ [m]) (waiting 6 (xs @ ys))"
    using assms(2) one given_put [of serial clears S ?O ?O "waiting 6 xs" m "waiting 6 ys"] by (auto simp: tell received_as_def)
  with assms(2) have "received_as serial clears spec s' S T T' H H' L L'" by (auto simp: tell received_as_def)
  then show ?thesis by blast
next
  case (clear_tree c ts hs)
  with assms(2) have "received_as serial clears spec s' S T [] H H' L L'"
    by (auto simp: received_as_def intro: given_clear)
  then show ?thesis by blast
next
  case (clear_history c ts hs)
  with assms(2) have "received_as serial clears spec s' S T T' H [] L L'"
    by (auto simp: received_as_def history_cleared intro: given_clear)
  then show ?thesis by blast
next
  case (clear_log c ts hs)
  with assms(2) log_cleared [of L' spec] have "received_as serial clears spec s' S T T' H H' L []"
    by (auto simp: received_as_def intro: given_clear)
  then show ?thesis by blast
next
  case (part c ts c' ts' hs)
  show ?thesis using received_frame [OF assms(2) [unfolded part(1)] race_same_data [OF part(3)]] unfolding part(2) by blast
next
  case (other op c ts hs)
  show ?thesis using received_frame [OF assms(2) [unfolded other(1)] conn_step_same_data [OF other(3,4)]] unfolding other(2) by blast
qed

lemma received:
  "receives serial clears (newConn env spec) s \<Longrightarrow> \<exists>S T T' H H' L L'. received_as serial clears spec s S T T' H H' L L'"
proof (induction rule: receives.induct)
  case nothing_yet
  then show ?case using received_start by blast
next
  case (goes_on s s')
  then show ?case using received_step by blast
qed

section \<open>Every message once\<close>


section \<open>Overtaking\<close>

lemma receives_steps: "(rx_step serial clears)\<^sup>*\<^sup>* s s' \<Longrightarrow> receives serial clears c0 s \<Longrightarrow> receives serial clears c0 s'"
  by (induction rule: rtranclp_induct) (auto intro: goes_on)

text \<open>A numbered message, run to its end while the others stand still.\<close>

lemma runs_out:
  "\<exists>c'. (rx_step serial clears)\<^sup>*\<^sup>* (c, ts, xs @ HNumbered m # ys) (c', ts, xs @ ys) \<and>
     emitted_messages (cn_out c') = emitted_messages (cn_out c) @ [m]"
proof -
  let ?R = "rx_step serial clears"
  let ?c2 = "c\<lparr>cn_received := cn_received c + 1\<rparr>" let ?c3 = "?c2\<lparr>cn_tree := Record m (cn_tree ?c2)\<rparr>"
  let ?c4 = "?c3\<lparr>cn_history := history_add m (cn_history ?c3)\<rparr>" let ?c5 = "?c4\<lparr>cn_topicLog := topiclog_Add m (cn_topicLog ?c4)\<rparr>"
  let ?c6 = "?c5\<lparr>cn_out := cn_out ?c5 @ [EmitMessage m]\<rparr>"
  note step = converse_rtranclp_into_rtranclp
  have "?R\<^sup>*\<^sup>* (c, ts, xs @ HNumbered m # ys) (?c6, ts, xs @ ys)"
    by (rule step [OF count step [OF to_tree step [OF to_history step [OF to_log r_into_rtranclp [of ?R, OF tell]]]]])
  then show ?thesis by (intro exI [of _ ?c6]) simp
qed

text \<open>The second of two messages overtakes the first: observers get number two before number one.\<close>

lemma overtaken:
  "\<exists>c. receives False False (newConn ex_env ex_conn_spec) (c, [], []) \<and> map msg_seq (emitted_messages (cn_out c)) = [2, 1]"
proof -
  let ?a = "ex_msg ''a'' [1] 5" and ?b = "ex_msg ''b'' [2] 5" and ?c = "newConn ex_env ex_conn_spec"
  let ?a' = "stamp 5 1 ?a" and ?b' = "stamp 5 2 ?b"
  let ?c1 = "?c\<lparr>cn_seq := 1\<rparr>" let ?c2 = "?c\<lparr>cn_seq := 2\<rparr>"
  have "receives False False ?c (?c, [], [HArrived ?b, HArrived ?a])"
    by (intro goes_on [OF goes_on [OF nothing_yet arrive] arrive]) simp_all
  then have "receives False False ?c (?c1, [], [HArrived ?b, HNumbered ?a'])"
    using goes_on number [of False False ?c "[]" "[HArrived ?b]" ?a "[]" 5] by (fastforce simp: newConn_def)
  then have "receives False False ?c (?c2, [], [] @ HNumbered ?b' # [HNumbered ?a'])"
    using goes_on number [of False False ?c1 "[]" "[]" ?b "[HNumbered ?a']" 5] by (fastforce simp: numeral_2_eq_2)
  moreover obtain c3 where c3: "(rx_step False False)\<^sup>*\<^sup>* (?c2, [], [] @ HNumbered ?b' # [HNumbered ?a']) (c3, [], [] @ [HNumbered ?a'])"
      "emitted_messages (cn_out c3) = [?b']"
    using runs_out [of False False ?c2 "[]" "[]" ?b' "[HNumbered ?a']"] by (auto simp: newConn_def)
  ultimately have "receives False False ?c (c3, [], [] @ HNumbered ?a' # [])" using receives_steps by fastforce
  moreover obtain c4 where "(rx_step False False)\<^sup>*\<^sup>* (c3, [], [] @ HNumbered ?a' # []) (c4, [], [] @ [])"
      "emitted_messages (cn_out c4) = [?b', ?a']"
    using runs_out [of False False c3 "[]" "[]" ?a' "[]"] c3(2) by auto
  ultimately have "receives False False ?c (c4, [], []) \<and> map msg_seq (emitted_messages (cn_out c4)) = [2, 1]"
    using receives_steps by (fastforce simp: stamp_def)
  then show ?thesis by (rule exI)
qed


end
