(* ===== verification/Manager.thy ===== *)
theory Manager
  imports ConnFacts
begin

text \<open>
  The manager half of \<^verbatim>\<open>internal/mqttc/manager.go\<close>: the connections by ID, the observers, adding,
  editing and removing definitions, and the auto-connect retry loop. Go's map of connections is an
  association list; what a connection emits is delivered to every observer that has a callback for
  it, in the order of the list of observers (the code ranges over a map, in no fixed order).
\<close>

section \<open>The code\<close>

record Observer =
  ob_onMessage :: bool
  ob_onStatus :: bool

record Manager =
  mg_conns :: "(string \<times> Conn) list"
  mg_obs :: "(nat \<times> Observer) list"
  mg_nextObs :: nat
  mg_delivered :: "(nat \<times> ConnEvent) list"

definition NewManager :: Manager where
  "NewManager = \<lparr>mg_conns = [], mg_obs = [], mg_nextObs = 0, mg_delivered = []\<rparr>"

definition AddObserver :: "Observer \<Rightarrow> Manager \<Rightarrow> nat \<times> Manager" where
  "AddObserver o' m =
     (mg_nextObs m, m\<lparr>mg_obs := mg_obs m @ [(mg_nextObs m, o')], mg_nextObs := mg_nextObs m + 1\<rparr>)"

definition RemoveObserver :: "nat \<Rightarrow> Manager \<Rightarrow> Manager" where
  "RemoveObserver i m = m\<lparr>mg_obs := filter (\<lambda>(j, ob). j \<noteq> i) (mg_obs m)\<rparr>"

definition emit :: "ConnEvent \<Rightarrow> Manager \<Rightarrow> Manager" where
  "emit e m =
     (let wants = (case e of EmitMessage _ \<Rightarrow> ob_onMessage | EmitStatus _ \<Rightarrow> ob_onStatus)
      in m\<lparr>mg_delivered := mg_delivered m @ map (\<lambda>(i, _). (i, e)) (filter (\<lambda>(i, ob). wants ob) (mg_obs m))\<rparr>)"

definition Get :: "string \<Rightarrow> Manager \<Rightarrow> Conn option" where
  "Get id' m = map_of (mg_conns m) id'"

fun put_conn :: "string \<Rightarrow> Conn \<Rightarrow> (string \<times> Conn) list \<Rightarrow> (string \<times> Conn) list" where
  "put_conn k c [] = [(k, c)]"
| "put_conn k c ((k', c') # cs) = (if k = k' then (k, c) # cs else (k', c') # put_conn k c cs)"

text \<open>An operation on the connection filed under an ID; what it emits goes to the observers.\<close>

definition store_conn :: "string \<Rightarrow> Conn \<Rightarrow> Manager \<Rightarrow> Manager" where
  "store_conn k c m =
     fold emit (cn_out c) (m\<lparr>mg_conns := put_conn k (c\<lparr>cn_out := []\<rparr>) (mg_conns m)\<rparr>)"

datatype mgr_error = ErrNotFound | ErrSpec spec_error | ErrConn conn_error

definition lift_conn :: "conn_error + unit \<Rightarrow> mgr_error + unit" where
  "lift_conn r = (case r of Inl e \<Rightarrow> Inl (ErrConn e) | Inr _ \<Rightarrow> Inr ())"

definition Upsert ::
    "(Url \<Rightarrow> string) \<Rightarrow> string \<Rightarrow> Env \<Rightarrow> ConnectionSpec \<Rightarrow> Manager \<Rightarrow> (mgr_error + unit) \<times> Manager" where
  "Upsert render fresh env spec m =
     (case Normalize (env_parse env) render fresh spec of
        Inl e \<Rightarrow> (Inl (ErrSpec e), m)
      | Inr spec \<Rightarrow>
          case Get (cs_id spec) m of
            None \<Rightarrow> (Inr (), store_conn (cs_id spec) (newConn env spec) m)
          | Some c \<Rightarrow> let (r, c) = upsert_existing env spec c in (lift_conn r, store_conn (cs_id spec) c m))"

text \<open>The connection is forgotten before it is disconnected; its last status still goes out.\<close>

definition Remove :: "Env \<Rightarrow> string \<Rightarrow> Manager \<Rightarrow> (mgr_error + unit) \<times> Manager" where
  "Remove env k m =
     (case Get k m of
        None \<Rightarrow> (Inl ErrNotFound, m)
      | Some c \<Rightarrow>
          let m = m\<lparr>mg_conns := filter (\<lambda>(j, _). j \<noteq> k) (mg_conns m)\<rparr>;
              (r, c) = disconnect env c
          in (lift_conn r, fold emit (cn_out c) m))"

definition with_conn ::
    "(Conn \<Rightarrow> (conn_error + unit) \<times> Conn) \<Rightarrow> string \<Rightarrow> Manager \<Rightarrow> (mgr_error + unit) \<times> Manager" where
  "with_conn f k m =
     (case Get k m of
        None \<Rightarrow> (Inl ErrNotFound, m)
      | Some c \<Rightarrow> let (r, c) = f c in (lift_conn r, store_conn k c m))"

definition mgr_Connect :: "Env \<Rightarrow> string \<Rightarrow> Manager \<Rightarrow> (mgr_error + unit) \<times> Manager" where
  "mgr_Connect env = with_conn (connect env)"

definition mgr_Disconnect :: "Env \<Rightarrow> string \<Rightarrow> Manager \<Rightarrow> (mgr_error + unit) \<times> Manager" where
  "mgr_Disconnect env = with_conn (disconnect env)"

definition mgr_Publish :: "Env \<Rightarrow> PublishRequest \<Rightarrow> string \<Rightarrow> Manager \<Rightarrow> (mgr_error + unit) \<times> Manager" where
  "mgr_Publish env req = with_conn (conn_Publish env req)"

definition mgr_List :: "Manager \<Rightarrow> Conn list" where
  "mgr_List m = sort_key (\<lambda>c. cs_name (cn_spec c)) (map snd (mg_conns m))"

definition Shutdown :: "Env \<Rightarrow> Manager \<Rightarrow> Manager" where
  "Shutdown env m =
     fold (\<lambda>(k, c) m. snd (mgr_Disconnect env k m)) (sort_key (\<lambda>(k, c). cs_name (cn_spec c)) (mg_conns m)) m"

section \<open>The auto-connect retry loop\<close>

definition autoConnectBackoff :: int where "autoConnectBackoff = 60"
definition first_backoff :: int where "first_backoff = 5"

definition next_backoff :: "int \<Rightarrow> int" where
  "next_backoff b = (if b < autoConnectBackoff then b * 2 else b)"

text \<open>
  One round of the loop: whether it has been asked to stop, what the attempt meets, what others do
  to the connection before the loop looks at it again, and whether the wait is cut short.
\<close>

record round =
  rd_stop :: bool
  rd_env :: Env
  rd_others :: "Conn \<Rightarrow> Conn"
  rd_cancelled :: bool

datatype supervised = Sup_Stopped | Sup_Connected | Sup_Unwanted | Sup_Retrying

text \<open>The waits, in seconds, are collected in order.\<close>

fun supervise :: "round list \<Rightarrow> int \<Rightarrow> Conn \<Rightarrow> supervised \<times> int list \<times> Conn" where
  "supervise [] backoff c = (Sup_Retrying, [], c)"
| "supervise (r # rs) backoff c =
     (if rd_stop r then (Sup_Stopped, [], c)
      else case connect (rd_env r) c of
        (Inr _, c) \<Rightarrow> (Sup_Connected, [], c)
      | (Inl e, c) \<Rightarrow>
          let c = rd_others r c in
          if \<not> cn_wantConnect c then (Sup_Unwanted, [], c)
          else if rd_cancelled r then (Sup_Stopped, [backoff], c)
          else let (out, waits, c) = supervise rs (next_backoff backoff) c in (out, backoff # waits, c))"


section \<open>Lemmas\<close>

lemma emit_conns [simp]: "mg_conns (emit e m) = mg_conns m"
  by (simp add: emit_def Let_def)

lemma fold_emit_conns [simp]: "mg_conns (fold emit es m) = mg_conns m"
  by (induction es arbitrary: m) simp_all

lemma map_of_put_conn: "map_of (put_conn k c cs) j = (if j = k then Some c else map_of cs j)"
  by (induction k c cs rule: put_conn.induct) auto

lemma keys_put_conn: "map fst (put_conn k c cs) = (if k \<in> set (map fst cs) then map fst cs else map fst cs @ [k])"
  by (induction k c cs rule: put_conn.induct) auto

lemma Get_store: "Get j (store_conn k c m) = (if j = k then Some (c\<lparr>cn_out := []\<rparr>) else Get j m)"
  by (simp add: Get_def store_conn_def map_of_put_conn)

lemma keys_store: "map fst (mg_conns (store_conn k c m)) =
    (if k \<in> set (map fst (mg_conns m)) then map fst (mg_conns m) else map fst (mg_conns m) @ [k])"
  by (simp add: store_conn_def keys_put_conn)

lemma Get_keys: "Get k m = Some c \<Longrightarrow> k \<in> set (map fst (mg_conns m))"
  unfolding Get_def by (metis domI dom_map_of_conv_image_fst image_set)

definition mgr_ok :: "Manager \<Rightarrow> bool" where
  "mgr_ok m \<longleftrightarrow> distinct (map fst (mg_conns m)) \<and> (\<forall>k c. Get k m = Some c \<longrightarrow> client_ok c \<and> cn_out c = [])"

lemma client_ok_out [simp]: "client_ok (c\<lparr>cn_out := es\<rparr>) = client_ok c"
  by (simp add: client_ok_def split: option.splits)

lemma store_ok [wf_intro]: "mgr_ok m \<Longrightarrow> client_ok c \<Longrightarrow> mgr_ok (store_conn k c m)"
  by (auto simp: mgr_ok_def Get_store keys_store simp del: map_map)

lemma NewManager_ok [wf_intro]: "mgr_ok NewManager"
  by (simp add: mgr_ok_def NewManager_def Get_def)

lemma with_conn_ok [wf_intro]:
  "mgr_ok m \<Longrightarrow> (\<And>c. client_ok c \<Longrightarrow> client_ok (snd (f c))) \<Longrightarrow> mgr_ok (snd (with_conn f k m))"
  by (auto simp: with_conn_def mgr_ok_def Get_store keys_store split: option.splits prod.splits)
    (metis snd_conv)

section \<open>Any use of the manager\<close>

datatype mgr_op =
    MUpsert "Url \<Rightarrow> string" string Env ConnectionSpec | MRemove Env string
  | MConn string conn_op | MShutdown Env | MAddObserver Observer | MRemoveObserver nat

fun mgr_step :: "mgr_op \<Rightarrow> Manager \<Rightarrow> Manager" where
  "mgr_step (MUpsert render fresh env spec) m = snd (Upsert render fresh env spec m)"
| "mgr_step (MRemove env k) m = snd (Remove env k m)"
| "mgr_step (MConn k op) m = snd (with_conn (\<lambda>c. (Inr (), conn_step op c)) k m)"
| "mgr_step (MShutdown env) m = Shutdown env m"
| "mgr_step (MAddObserver ob) m = snd (AddObserver ob m)"
| "mgr_step (MRemoveObserver i) m = RemoveObserver i m"

definition mgr_run :: "mgr_op list \<Rightarrow> Manager" where
  "mgr_run ops = fold mgr_step ops NewManager"

lemma disconnect_client_ok [wf_intro]: "client_ok (snd (disconnect env c))"
  by (rule client_ok_None) simp

lemma Shutdown_loop_ok:
  "mgr_ok m \<Longrightarrow> mgr_ok (fold (\<lambda>(k, c) m. snd (mgr_Disconnect env k m)) ks m)"
proof (induction ks arbitrary: m)
  case (Cons p ks)
  then show ?case
    by (cases p) (simp add: mgr_Disconnect_def with_conn_ok disconnect_client_ok)
qed simp

lemma Upsert_ok [wf_intro]: "mgr_ok m \<Longrightarrow> mgr_ok (snd (Upsert render fresh env spec m))"
proof -
  assume m: "mgr_ok m"
  show ?thesis
  proof (cases "Normalize (env_parse env) render fresh spec")
    case (Inl e)
    with m show ?thesis by (simp add: Upsert_def)
  next
    case (Inr spec')
    show ?thesis
    proof (cases "Get (cs_id spec') m")
      case None
      with m Inr show ?thesis by (simp add: Upsert_def store_ok client_ok_new)
    next
      case (Some c)
      then have "client_ok (snd (upsert_existing env spec' c))"
        using m by (intro upsert_client_ok) (simp add: mgr_ok_def)
      with m Inr Some show ?thesis
        by (cases "upsert_existing env spec' c") (simp add: Upsert_def store_ok)
    qed
  qed
qed

lemma map_of_filter_key: "map_of (filter (\<lambda>(j, _). j \<noteq> k) xs) i = (if i = k then None else map_of xs i)"
  by (induction xs) auto

lemma Remove_conns: "mg_conns (snd (Remove env k m)) = (if Get k m = None then mg_conns m
    else filter (\<lambda>(j, _). j \<noteq> k) (mg_conns m))"
  by (simp add: Remove_def Let_def split: option.splits prod.splits)

lemma mgr_step_ok [wf_intro]: "mgr_ok m \<Longrightarrow> mgr_ok (mgr_step op m)"
proof (cases op)
  case (MUpsert render fresh env spec)
  assume "mgr_ok m"
  with MUpsert show ?thesis by (simp add: Upsert_ok)
next
  case (MRemove env k)
  assume "mgr_ok m"
  then show ?thesis
    by (auto simp: MRemove mgr_ok_def Get_def Remove_conns map_of_filter_key distinct_map_filter split: if_splits)
next
  case (MConn k cop)
  assume "mgr_ok m"
  with MConn show ?thesis by (simp add: with_conn_ok conn_step_client_ok)
next
  case (MShutdown env)
  assume "mgr_ok m"
  with MShutdown show ?thesis by (simp add: Shutdown_def Shutdown_loop_ok)
qed (simp_all add: mgr_ok_def Get_def AddObserver_def RemoveObserver_def)

lemma mgr_run_ok: "mgr_ok (mgr_run ops)"
  unfolding mgr_run_def by (induction ops rule: rev_induct) (auto intro: wf_intro)


section \<open>Editing a connection\<close>

text \<open>What decides the MQTT session: an edit that leaves all of this alone keeps the session.\<close>

definition session_fields where
  "session_fields s = (cs_url s, cs_version s, cs_clientID s, cs_username s, cs_password s, cs_keepAlive s,
     cs_cleanStart s, cs_sessionExpiry s, cs_tls s, cs_will s)"

lemma tlsChanged_iff: "tlsChanged a b \<longleftrightarrow> a \<noteq> b"
  by (cases a; cases b) (auto simp: tlsChanged_def)

lemma willChanged_iff: "willChanged a b \<longleftrightarrow> a \<noteq> b"
  by (auto simp: willChanged_def split: option.splits)

lemma needsRestart_iff: "needsRestart spec c \<longleftrightarrow> session_fields (cn_spec c) \<noteq> session_fields spec"
  by (simp add: needsRestart_def session_fields_def Let_def tlsChanged_iff willChanged_iff)

lemma disconnect_closes:
  "cn_client c = Some i \<Longrightarrow> cn_clients (snd (disconnect env c)) =
     (cn_clients c)(i := map_option client_Disconnect (cn_clients c i))"
  "cn_nextClient (snd (disconnect env c)) = cn_nextClient c"
  by (simp_all add: disconnect_def disconnect_begin_def disconnect_end_def split: option.splits)

lemma connect_new_client:
  assumes "cn_client c = None" and "i < cn_nextClient c"
  shows "cn_client (snd (connect env c)) \<noteq> Some i \<and> cn_clients (snd (connect env c)) i = cn_clients c i"
proof (cases rule: connect_begin_cases [of c env])
  case dialling
  with assms show ?thesis
    by (cases "env_dialErr env")
      (auto simp: connect_def connect_fail_def connect_ok_def connect_drop_def Let_def)
qed (use assms in \<open>simp_all add: connect_def\<close>)

text \<open>
  Saving a connection replaces its definition and touches nothing else of the manager. A running
  connection keeps its client, without a status change, exactly when no session setting changed;
  otherwise its client is closed and no longer held. Either way its topics, history, log and counters
  stay. A definition that does not normalise changes nothing.
\<close>

theorem Upsert_running_connection:
  assumes "Normalize (env_parse env) render fresh spec = Inr spec'"
    and "Get (cs_id spec') (mgr_run ops) = Some c" and "cn_client c = Some i"
  shows "\<exists>c'. Get (cs_id spec') (snd (Upsert render fresh env spec (mgr_run ops))) = Some c' \<and>
    cn_spec c' = spec' \<and> cn_ephemeral c' = cn_ephemeral c \<and>
    (cn_tree c', cn_history c', cn_topicLog c', cn_seq c', cn_received c', cn_sent c') =
      (cn_tree c, cn_history c, cn_topicLog c, cn_seq c, cn_received c, cn_sent c) \<and>
    (\<forall>k. k \<noteq> cs_id spec' \<longrightarrow> Get k (snd (Upsert render fresh env spec (mgr_run ops))) = Get k (mgr_run ops)) \<and>
    (if session_fields (cn_spec c) = session_fields spec'
     then cn_client c' = Some i \<and>
       mg_delivered (snd (Upsert render fresh env spec (mgr_run ops))) = mg_delivered (mgr_run ops)
     else cn_client c' \<noteq> Some i \<and> (\<exists>cl. cn_clients c' i = Some cl \<and> cl_closed cl))"
proof -
  let ?m = "mgr_run ops"
  obtain r d where d: "upsert_existing env spec' c = (r, d)" by (cases "upsert_existing env spec' c")
  have ok: "client_ok c" "cn_out c = []" using mgr_run_ok [of ops] assms(2) by (auto simp: mgr_ok_def)
  then obtain cl where cl: "cn_clients c i = Some cl" "i < cn_nextClient c"
    "st_state (cn_status c) \<noteq> StateDisconnected" using assms(3) by (auto simp: client_ok_def)
  have up: "snd (Upsert render fresh env spec ?m) = store_conn (cs_id spec') d ?m"
    using assms(1,2) d by (simp add: Upsert_def)
  have kept: "cn_client d = Some i \<and> cn_out d = []" if "\<not> needsRestart spec' c"
  proof -
    have "d = snd (syncSubscriptions env (setSpec spec' c))"
      using d that cl(3) by (simp add: upsert_existing_def Let_def)
    then show ?thesis using assms(3) ok(2) by (simp add: frame_simp)
  qed
  have swapped: "cn_client d \<noteq> Some i \<and> (\<exists>cl. cn_clients d i = Some cl \<and> cl_closed cl)" if "needsRestart spec' c"
  proof -
    let ?e = "setSpec spec' (snd (disconnect env c))"
    have "d = snd (connect env ?e)" using d that cl(3) by (simp add: upsert_existing_def Let_def)
    moreover have "cn_clients ?e i = Some (client_Disconnect cl)"
      using cl(1) by (simp add: disconnect_closes(1) [OF assms(3)])
    ultimately show ?thesis
      using connect_new_client [of ?e i env] cl(2) by (simp add: disconnect_closes(2))
  qed
  have fr: "cn_spec d = spec'" "cn_ephemeral d = cn_ephemeral c" "cn_tree d = cn_tree c"
    "cn_history d = cn_history c" "cn_topicLog d = cn_topicLog c" "cn_seq d = cn_seq c"
    "cn_received d = cn_received c" "cn_sent d = cn_sent c"
    using upsert_frame [of env spec' c] d by simp_all
  have del: "cn_out d = [] \<Longrightarrow> mg_delivered (store_conn (cs_id spec') d ?m) = mg_delivered ?m"
    by (simp add: store_conn_def)
  show ?thesis
    using kept swapped fr del unfolding up
    by (intro exI [of _ "d\<lparr>cn_out := []\<rparr>"]) (auto simp: Get_store needsRestart_iff)
qed


section \<open>Shutting down\<close>

lemma with_conn_Get: "Get j (snd (with_conn f k m)) =
    (if j = k then map_option (\<lambda>c. (snd (f c))\<lparr>cn_out := []\<rparr>) (Get k m) else Get j m)"
  by (simp add: with_conn_def Get_store split: option.splits prod.splits)

lemma disconnect_wants [simp]: "\<not> cn_wantConnect (snd (disconnect env c))"
  by (simp add: disconnect_def disconnect_begin_def disconnect_end_def split: option.splits)

definition down :: "Conn \<Rightarrow> bool" where
  "down c \<longleftrightarrow> cn_client c = None \<and> \<not> cn_wantConnect c \<and> st_state (cn_status c) = StateDisconnected"

lemma down_disconnect [simp]: "down ((snd (disconnect env c))\<lparr>cn_out := es\<rparr>)"
  by (simp add: down_def)

lemma Shutdown_loop_down:
  "k \<in> fst ` set ks \<or> (case Get k m of None \<Rightarrow> True | Some c \<Rightarrow> down c) \<Longrightarrow>
     case Get k (fold (\<lambda>(k, c) m. snd (mgr_Disconnect env k m)) ks m) of None \<Rightarrow> True | Some c \<Rightarrow> down c"
proof (induction ks arbitrary: m)
  case (Cons p ks)
  obtain j d where p: "p = (j, d)" by fastforce
  have "k \<in> fst ` set ks \<or>
      (case Get k (snd (mgr_Disconnect env j m)) of None \<Rightarrow> True | Some c \<Rightarrow> down c)"
    using Cons.prems by (auto simp: p mgr_Disconnect_def with_conn_Get split: option.splits)
  from Cons.IH [OF this] show ?case by (simp add: p)
qed simp


text \<open>
  After a shutdown no connection of the manager holds a client or is wanted up, and each is
  reported as disconnected.
\<close>

theorem Shutdown_disconnects_all:
  assumes "Get k (Shutdown env (mgr_run ops)) = Some c"
  shows "cn_client c = None \<and> \<not> cn_wantConnect c \<and> st_state (conn_Status c) = StateDisconnected"
proof -
  let ?m = "mgr_run ops" and ?ks = "sort_key (\<lambda>(k, c). cs_name (cn_spec c)) (mg_conns (mgr_run ops))"
  have "k \<in> fst ` set ?ks \<or> (case Get k ?m of None \<Rightarrow> True | Some c \<Rightarrow> down c)"
    by (cases "Get k ?m") (auto dest: Get_keys)
  from Shutdown_loop_down [OF this, of env] assms show ?thesis
    by (simp add: Shutdown_def down_def conn_Status_def)
qed

lemma mgr_run_snoc: "mgr_run (ops @ [op]) = mgr_step op (mgr_run ops)"
  by (simp add: mgr_run_def)

definition mgr_env :: Env where "mgr_env = ex_env\<lparr>env_parse := ex_parse\<rparr>"

definition mgr_conn :: Conn where
  "mgr_conn = (snd (connect mgr_env (newConn mgr_env ex_spec')))\<lparr>cn_out := []\<rparr>"

definition ex_ops :: "mgr_op list" where
  "ex_ops = [MUpsert ex_render ''ab'' mgr_env ex_spec, MConn ''c1'' (OpConnect mgr_env)]"

lemma mgr_Normalize: "Normalize (env_parse mgr_env) ex_render ''ab'' ex_spec = Inr ex_spec'"
  using ex_Normalize by (simp add: mgr_env_def)

lemma ex_id [simp]: "cs_id ex_spec' = ''c1''" "cs_id ex_spec = ''c1''"
  by (simp_all add: ex_spec'_def ex_spec_def)

lemma ex_Get: "Get ''c1'' (mgr_run ex_ops) = Some mgr_conn"
proof -
  have "Get ''c1'' (snd (Upsert ex_render ''ab'' mgr_env ex_spec NewManager)) = Some (newConn mgr_env ex_spec')"
  proof -
    have "Get ''c1'' NewManager = None" by (simp add: Get_def NewManager_def)
    then have "snd (Upsert ex_render ''ab'' mgr_env ex_spec NewManager) = store_conn ''c1'' (newConn mgr_env ex_spec') NewManager"
      by (simp add: Upsert_def mgr_Normalize)
    then show ?thesis by (simp add: Get_store newConn_def)
  qed
  then show ?thesis by (simp add: ex_ops_def mgr_run_def with_conn_Get mgr_conn_def)
qed

lemma mgr_conn_client: "cn_client mgr_conn = Some 0"
  by (simp add: mgr_conn_def connect_def connect_begin_def connect_ok_def newConn_def mgr_env_def ex_env_def Let_def)

theorem Shutdown_disconnects_all_witness:
  "\<exists>c. Get ''c1'' (Shutdown mgr_env (mgr_run ex_ops)) = Some c \<and> cn_client c = None"
proof -
  have keys: "mg_conns (mgr_run ex_ops) = [(''c1'', mgr_conn)]"
    using ex_Get
    by (simp add: ex_ops_def mgr_run_def with_conn_def Get_def Upsert_def mgr_Normalize NewManager_def store_conn_def)
  have "Get ''c1'' (Shutdown mgr_env (mgr_run ex_ops)) = Some ((snd (disconnect mgr_env mgr_conn))\<lparr>cn_out := []\<rparr>)"
    by (simp add: Shutdown_def keys mgr_Disconnect_def with_conn_Get ex_Get)
  with Shutdown_disconnects_all [OF this] show ?thesis by blast
qed

theorem Upsert_running_connection_witness:
  "\<exists>c'. Get ''c1'' (snd (Upsert ex_render ''ab'' mgr_env ex_spec (mgr_run ex_ops))) = Some c' \<and> cn_spec c' = ex_spec'"
  using Upsert_running_connection [OF mgr_Normalize, of ex_ops mgr_conn 0] ex_Get mgr_conn_client by auto

section \<open>The retry loop\<close>

definition nth_wait :: "nat \<Rightarrow> int" where
  "nth_wait n = (next_backoff ^^ n) first_backoff"

lemma backoff_values:
  "nth_wait 0 = 5" "nth_wait 1 = 10" "nth_wait 2 = 20" "nth_wait 3 = 40" "nth_wait (n + 4) = 80"
proof -
  have "nth_wait 4 = 80"
    by (simp add: nth_wait_def next_backoff_def autoConnectBackoff_def first_backoff_def eval_nat_numeral)
  moreover have "(next_backoff ^^ n) 80 = 80"
    by (induction n) (simp_all add: next_backoff_def autoConnectBackoff_def)
  ultimately show "nth_wait (n + 4) = 80"
    unfolding nth_wait_def by (simp only: funpow_add o_apply)
qed (simp_all add: nth_wait_def next_backoff_def autoConnectBackoff_def first_backoff_def eval_nat_numeral)

lemma supervise_waits:
  "supervise rs b c = (out, waits, c') \<Longrightarrow> n < length waits \<Longrightarrow> waits ! n = (next_backoff ^^ n) b"
proof (induction rs b c arbitrary: out waits c' n rule: supervise.induct)
  case (2 r rs b c)
  obtain res d where con: "connect (rd_env r) c = (res, d)" by (cases "connect (rd_env r) c")
  obtain out1 waits1 d1 where rec: "supervise rs (next_backoff b) (rd_others r d) = (out1, waits1, d1)"
    by (cases "supervise rs (next_backoff b) (rd_others r d)")
  consider (none) "waits = []" | (one) "waits = [b]"
    | (more) e where "\<not> rd_stop r" "res = Inl e" "cn_wantConnect (rd_others r d)" "\<not> rd_cancelled r" "waits = b # waits1"
    using "2.prems"(1) con rec by (auto simp: Let_def split: if_splits sum.splits)
  then show ?case
  proof cases
    case more
    show ?thesis
    proof (cases n)
      case (Suc k)
      with more "2.prems"(2) "2.IH" [OF _ con [symmetric] more(2) refl _ _ rec] more show ?thesis
        by (simp add: funpow_swap1)
    qed (use more in simp)
  qed (use "2.prems"(2) in simp_all)
qed simp

lemma supervise_outcome:
  "supervise rs b c = (out, waits, c') \<Longrightarrow>
     (out = Sup_Connected \<longrightarrow> cn_client c' \<noteq> None \<and> cn_wantConnect c') \<and>
     (out = Sup_Unwanted \<longrightarrow> \<not> cn_wantConnect c')"
proof (induction rs b c arbitrary: out waits c' rule: supervise.induct)
  case (2 r rs b c)
  obtain res d where con: "connect (rd_env r) c = (res, d)" by (cases "connect (rd_env r) c")
  have up: "cn_client d \<noteq> None \<and> cn_wantConnect d" if "res = Inr ()"
    using con that
    by (cases rule: connect_begin_cases [of c "rd_env r"]; cases "env_dialErr (rd_env r)")
      (auto simp: connect_def connect_fail_def connect_ok_def Let_def)
  obtain out1 waits1 d1 where rec: "supervise rs (next_backoff b) (rd_others r d) = (out1, waits1, d1)"
    by (cases "supervise rs (next_backoff b) (rd_others r d)")
  show ?case
  proof (cases res)
    case (Inr u)
    with "2.prems" con up show ?thesis by (auto split: if_splits)
  next
    case (Inl e)
    show ?thesis
    proof (cases "rd_stop r \<or> \<not> cn_wantConnect (rd_others r d) \<or> rd_cancelled r")
      case True
      with "2.prems" con Inl show ?thesis by (auto simp: Let_def split: if_splits)
    next
      case False
      with "2.prems" con Inl rec have "out = out1" "c' = d1" by (auto simp: Let_def)
      with "2.IH" [OF _ con [symmetric] Inl refl _ _ rec] False show ?thesis by simp
    qed
  qed
qed simp

text \<open>
  The retry loop ends with the connection up, or because somebody no longer wants it up or asked
  it to stop. Between attempts it waits 5, 10, 20 and 40 seconds, and from then on 80, which is more
  than the minute its cap is named for.
\<close>

theorem supervise_backoff:
  assumes "supervise rs first_backoff c = (out, waits, c')"
  shows "(out = Sup_Connected \<longrightarrow> cn_client c' \<noteq> None \<and> cn_wantConnect c') \<and>
    (out = Sup_Unwanted \<longrightarrow> \<not> cn_wantConnect c') \<and>
    (\<forall>n < length waits. waits ! n = (if n < 4 then 5 * 2 ^ n else 80)) \<and> autoConnectBackoff < 80"
proof -
  have "(next_backoff ^^ n) first_backoff = (if n < 4 then 5 * 2 ^ n else 80)" for n
  proof (cases "n < 4")
    case True
    then consider "n = 0" | "n = 1" | "n = 2" | "n = 3" by linarith
    then show ?thesis using backoff_values by cases (simp_all add: nth_wait_def)
  next
    case False
    then obtain k where "n = k + 4" by (metis add.commute le_iff_add not_less)
    with backoff_values(5) [of k] show ?thesis by (simp add: nth_wait_def)
  qed
  with supervise_waits [OF assms] supervise_outcome [OF assms] show ?thesis
    by (simp add: autoConnectBackoff_def)
qed

definition failing_round :: round where
  "failing_round = \<lparr>rd_stop = False, rd_env = ex_env\<lparr>env_newErr := Some (plain_error ''tls'')\<rparr>,
     rd_others = id, rd_cancelled = False\<rparr>"

theorem supervise_backoff_witness:
  "fst (snd (supervise [failing_round] first_backoff (newConn ex_env ex_conn_spec))) = [5]"
proof -
  obtain out waits c' where s: "supervise [failing_round] first_backoff (newConn ex_env ex_conn_spec) =
      (out, waits, c')" by (metis prod_cases3)
  have "length (fst (snd (supervise [failing_round] first_backoff (newConn ex_env ex_conn_spec)))) = 1"
    by (simp add: failing_round_def connect_def connect_begin_def ex_env_def newConn_def)
  with s have l: "length waits = 1" by simp
  with supervise_backoff [OF s] have "waits ! 0 = 5" by simp
  with l s show ?thesis by (cases waits) auto
qed

end
