(* ===== verification/SysStats.thy ===== *)
theory SysStats
  imports TreeViews
begin

text \<open>
  \<^verbatim>\<open>internal/mqttc/sysstats.go\<close>: the broker's own statistics, read out of the topic tree. The maps
  \<^verbatim>\<open>Raw\<close> and \<^verbatim>\<open>Load\<close> are Isabelle maps. \<^verbatim>\<open>strconv.ParseFloat\<close> and the conversion of a float64 to
  int64 are arguments, over a type \<open>'f\<close> of floats.
\<close>

section \<open>The code\<close>

definition SysPrefix :: string where "SysPrefix = ''$SYS/''"
definition sysFilter :: string where "sysFilter = ''$SYS/#''"
definition maxSysTopics :: int where "maxSysTopics = 2000"

record 'f BrokerStats =
  bs_available :: bool
  bs_version :: string
  bs_uptime :: "int option"
  bs_description :: string
  bs_clients_connected :: "int option"
  bs_clients_total :: "int option"
  bs_clients_maximum :: "int option"
  bs_clients_disconnected :: "int option"
  bs_clients_expired :: "int option"
  bs_messages_received :: "int option"
  bs_messages_sent :: "int option"
  bs_messages_stored :: "int option"
  bs_messages_dropped :: "int option"
  bs_bytes_received :: "int option"
  bs_bytes_sent :: "int option"
  bs_subscriptions :: "int option"
  bs_retained :: "int option"
  bs_heap_current :: "int option"
  bs_heap_maximum :: "int option"
  bs_load :: "string \<rightharpoonup> 'f"
  bs_raw :: "string \<rightharpoonup> string"
  bs_updatedAt :: time

definition parseCounter :: "(string \<Rightarrow> 'f option) \<Rightarrow> ('f \<Rightarrow> int) \<Rightarrow> string \<Rightarrow> int option" where
  "parseCounter parseFloat toInt text =
     (let trimmed = trim_space text in
      case ParseInt trimmed of
        Some n \<Rightarrow> Some n
      | None \<Rightarrow> map_option toInt (parseFloat trimmed))"

text \<open>\<^verbatim>\<open>strings.Fields(text)[0]\<close>: what is left of the text after leading space, up to the next space.\<close>

fun until_space :: "string \<Rightarrow> string" where
  "until_space [] = []"
| "until_space (c # cs) =
     (if find (\<lambda>r. prefix r (c # cs)) space_runes \<noteq> None then [] else c # until_space cs)"

definition first_field :: "string \<Rightarrow> string option" where
  "first_field text = (let s = until_space (trim_space_left text) in if s = [] then None else Some s)"

definition leadingInt :: "string \<Rightarrow> int option" where
  "leadingInt text = (case first_field text of None \<Rightarrow> None | Some f \<Rightarrow> ParseInt f)"

fun first_raw :: "(string \<rightharpoonup> string) \<Rightarrow> string list \<Rightarrow> string" where
  "first_raw raw [] = []"
| "first_raw raw (k # ks) = (case raw k of Some v \<Rightarrow> v | None \<Rightarrow> first_raw raw ks)"

fun firstInt :: "(string \<Rightarrow> 'f option) \<Rightarrow> ('f \<Rightarrow> int) \<Rightarrow> (string \<rightharpoonup> string) \<Rightarrow> string list \<Rightarrow> int option" where
  "firstInt pf ti raw [] = None"
| "firstInt pf ti raw (k # ks) =
     (case raw k of
        None \<Rightarrow> firstInt pf ti raw ks
      | Some v \<Rightarrow> case parseCounter pf ti v of Some n \<Rightarrow> Some n | None \<Rightarrow> firstInt pf ti raw ks)"

definition sys_key :: "TopicValue \<Rightarrow> string" where
  "sys_key v = trim_prefix SysPrefix (tv_topic v)"

definition sys_text :: "TopicValue \<Rightarrow> string" where
  "sys_text v = trim_space (string_of_bytes (tv_payload v))"

text \<open>The first pass over the values: raw text, latest time, load averages.\<close>

fun sys_pass :: "(string \<Rightarrow> 'f option) \<Rightarrow> TopicValue list \<Rightarrow>
    (string \<rightharpoonup> string) \<times> time \<times> (string \<rightharpoonup> 'f) \<Rightarrow> (string \<rightharpoonup> string) \<times> time \<times> (string \<rightharpoonup> 'f)" where
  "sys_pass pf [] acc = acc"
| "sys_pass pf (v # vs) (raw, at, load) =
     (let key = sys_key v; text = sys_text v;
          load = (case cut_prefix ''load/'' (trim_prefix ''broker/'' key) of
                    None \<Rightarrow> load
                  | Some rest \<Rightarrow> case pf text of None \<Rightarrow> load | Some f \<Rightarrow> load(rest \<mapsto> f))
      in sys_pass pf vs (raw(key \<mapsto> text), if tv_updatedAt v > at then tv_updatedAt v else at, load))"

definition empty_stats :: "'f BrokerStats" where
  "empty_stats = \<lparr>bs_available = False, bs_version = [], bs_uptime = None, bs_description = [],
     bs_clients_connected = None, bs_clients_total = None, bs_clients_maximum = None,
     bs_clients_disconnected = None, bs_clients_expired = None, bs_messages_received = None,
     bs_messages_sent = None, bs_messages_stored = None, bs_messages_dropped = None,
     bs_bytes_received = None, bs_bytes_sent = None, bs_subscriptions = None, bs_retained = None,
     bs_heap_current = None, bs_heap_maximum = None, bs_load = Map.empty, bs_raw = Map.empty, bs_updatedAt = 0\<rparr>"

definition brokerStatsFrom :: "(string \<Rightarrow> 'f option) \<Rightarrow> ('f \<Rightarrow> int) \<Rightarrow> TopicValue list \<Rightarrow> 'f BrokerStats" where
  "brokerStatsFrom pf ti values =
     (if values = [] then empty_stats
      else let (raw, at, load) = sys_pass pf values (Map.empty, 0, Map.empty);
               fst_of = first_raw raw; int_of = firstInt pf ti raw
      in \<lparr>bs_available = True,
          bs_version = fst_of [''broker/version''],
          bs_uptime = leadingInt (fst_of [''broker/uptime'']),
          bs_description = fst_of [''broker/sysdescr'', ''broker/description''],
          bs_clients_connected = int_of [''broker/clients/connected'', ''broker/clients/active''],
          bs_clients_total = int_of [''broker/clients/total''],
          bs_clients_maximum = int_of [''broker/clients/maximum''],
          bs_clients_disconnected = int_of [''broker/clients/disconnected'', ''broker/clients/inactive''],
          bs_clients_expired = int_of [''broker/clients/expired''],
          bs_messages_received = int_of [''broker/messages/received''],
          bs_messages_sent = int_of [''broker/messages/sent''],
          bs_messages_stored = int_of [''broker/messages/stored'', ''broker/store/messages/count''],
          bs_messages_dropped = int_of [''broker/messages/dropped'', ''broker/publish/messages/dropped''],
          bs_bytes_received = int_of [''broker/bytes/received''],
          bs_bytes_sent = int_of [''broker/bytes/sent''],
          bs_subscriptions = int_of [''broker/subscriptions/count''],
          bs_retained = int_of [''broker/retained messages/count''],
          bs_heap_current = int_of [''broker/heap/current'', ''broker/heap/current size''],
          bs_heap_maximum = int_of [''broker/heap/maximum'', ''broker/heap/maximum size''],
          bs_load = load, bs_raw = raw, bs_updatedAt = at\<rparr>)"

definition conn_BrokerStats :: "(string \<Rightarrow> 'f option) \<Rightarrow> ('f \<Rightarrow> int) \<Rightarrow> Tree \<Rightarrow> 'f BrokerStats" where
  "conn_BrokerStats pf ti t = brokerStatsFrom pf ti (tree_Match sysFilter maxSysTopics t)"

section \<open>The first pass\<close>

lemma sys_pass_raw:
  "sys_pass pf vs (raw, at, load) = (raw', at', load') \<Longrightarrow>
     raw' k = (case find (\<lambda>v. sys_key v = k) (rev vs) of None \<Rightarrow> raw k | Some v \<Rightarrow> Some (sys_text v))"
proof (induction vs arbitrary: raw at load)
  case (Cons v vs)
  have app: "find P (xs @ [y]) = (case find P xs of None \<Rightarrow> if P y then Some y else None | Some x \<Rightarrow> Some x)"
    for P xs and y :: TopicValue by (induction xs) auto
  from Cons.prems Cons.IH show ?case
    by (auto simp: Let_def app split: option.splits)
qed simp

lemma find_mem: "find P xs = Some x \<Longrightarrow> x \<in> set xs \<and> P x"
  by (induction xs) (auto split: if_splits)

lemma sys_pass_unique:
  assumes "sys_pass pf vs (Map.empty, at, load) = (raw', at', load')" and "v \<in> set vs"
    and "\<And>w. w \<in> set vs \<Longrightarrow> sys_key w = sys_key v \<Longrightarrow> w = v"
  shows "raw' (sys_key v) = Some (sys_text v)"
proof -
  obtain w where w: "find (\<lambda>u. sys_key u = sys_key v) (rev vs) = Some w"
    using assms(2) by (cases "find (\<lambda>u. sys_key u = sys_key v) (rev vs)") (auto simp: find_None_iff)
  then have "w \<in> set vs" "sys_key w = sys_key v" by (auto dest!: find_mem)
  with assms(3) have "w = v" by blast
  with sys_pass_raw [OF assms(1)] w show ?thesis by simp
qed

section \<open>Properties\<close>

text \<open>The path of a value is its topic.\<close>

lemma Records_paths:
  "val_at ks (tree_root (fold Record ms NewTree)) = Some w \<Longrightarrow> length ms < maxTopics \<Longrightarrow>
     ks = split_on slash (tv_topic w)"
proof (induction ms arbitrary: w rule: rev_induct)
  case (snoc m ms)
  have ok: "tree_ok (fold Record ms NewTree)" by (intro Records_ok wf_intro)
  have room: "\<not> tree_full (fold Record ms NewTree)" using Records_room [of ms] snoc.prems(2) by simp
  show ?case
    using snoc Record_val_at [OF ok room, of ks m]
    by (auto simp: msg_value_def split: if_splits)
qed simp

lemma sys_key_inj:
  assumes "MatchFilter sysFilter (tv_topic v)" "MatchFilter sysFilter (tv_topic w)"
    and "sys_key v = sys_key w" "sys_key v \<noteq> ''$SYS''"
  shows "tv_topic v = tv_topic w"
proof -
  have pre: "tv_topic x = ''$SYS'' \<or> prefix SysPrefix (tv_topic x)" if m: "MatchFilter sysFilter (tv_topic x)" for x
  proof -
    obtain y ys where s: "split_on slash (tv_topic x) = y # ys" by (cases "split_on slash (tv_topic x)") simp_all
    have "y = ''$SYS''" using m s
      by (cases "tv_topic x = ''$SYS/#''") (auto simp: MatchFilter_def sysFilter_def Let_def split: if_splits)
    moreover have "tv_topic x = join_with slash (y # ys)" using join_split [of slash "tv_topic x"] s by simp
    ultimately show ?thesis by (cases ys) (auto simp: SysPrefix_def)
  qed
  have sys: "sys_key x = ''$SYS''" if "tv_topic x = ''$SYS''" for x
    by (simp add: that sys_key_def trim_prefix_def SysPrefix_def)
  have under: "tv_topic x = SysPrefix @ sys_key x" if "prefix SysPrefix (tv_topic x)" for x
    using that by (auto simp: sys_key_def trim_prefix_def prefix_def)
  show ?thesis
    using pre [OF assms(1)] pre [OF assms(2)] assms(3,4) sys under by metis
qed

text \<open>Fewer than 2000 values: every matching one is read.\<close>

lemma length_filter_conj: "length (filter (\<lambda>x. P x \<and> Q x) xs) \<le> length (filter P xs)"
  by (induction xs) auto

lemma length_matched: "tree_ok t \<Longrightarrow> length (matched flt t) \<le> nd_subTopics (node_data (tree_root t))"
  using walk_counts(1) [of "[]" "tree_root t"] by (simp add: matched_def tree_ok_def length_filter_conj)

lemma Match_all:
  assumes "tree_ok t" and "nd_subTopics (node_data (tree_root t)) \<le> 2000"
  shows "set (tree_Match sysFilter maxSysTopics t) = set (matched sysFilter t)"
proof -
  have "length (matched sysFilter t) \<le> 2000" using length_matched [OF assms(1)] assms(2) le_trans by blast
  then show ?thesis by (simp add: tree_Match_matched maxSysTopics_def)
qed

lemma brokerStatsFrom_fields:
  assumes "values \<noteq> []" and "sys_pass pf values (Map.empty, 0, Map.empty) = (raw, upd, load)"
  shows "bs_available (brokerStatsFrom pf ti values)" "bs_raw (brokerStatsFrom pf ti values) = raw"
    "bs_clients_connected (brokerStatsFrom pf ti values) =
       firstInt pf ti raw [''broker/clients/connected'', ''broker/clients/active'']"
  unfolding brokerStatsFrom_def using assms by (simp_all add: Let_def del: firstInt.simps first_raw.simps)

lemma firstInt_two:
  "raw k = Some v \<Longrightarrow> firstInt pf ti raw [k, j] =
     (case parseCounter pf ti v of Some n \<Rightarrow> Some n | None \<Rightarrow> Option.bind (raw j) (parseCounter pf ti))"
  by (auto split: option.splits simp: bind_eq_None_conv)

text \<open>
  As long as the tree holds no more topics than the statistics read, each statistic is the broker's
  own: the raw text of a topic is the payload of its last message, and the number shown is the
  first of the names for it that was published and holds a number, absent when none does.
\<close>

theorem BrokerStats_last_messages:
  assumes "length ms \<le> 2000" and "topic = SysPrefix @ key" and "key \<noteq> ''$SYS''"
    and own: "filter (\<lambda>m. msg_topic m = topic) ms \<noteq> []"
    and "MatchFilter sysFilter topic"
  shows "bs_available (conn_BrokerStats pf ti (fold Record ms NewTree)) \<and>
    bs_raw (conn_BrokerStats pf ti (fold Record ms NewTree)) key =
      Some (trim_space (string_of_bytes
        (take maxStoredPayload (msg_payload (last (filter (\<lambda>m. msg_topic m = topic) ms)))))) \<and>
    (key = ''broker/clients/connected'' \<longrightarrow>
       bs_clients_connected (conn_BrokerStats pf ti (fold Record ms NewTree)) =
         (case parseCounter pf ti (the (bs_raw (conn_BrokerStats pf ti (fold Record ms NewTree)) key)) of
            Some n \<Rightarrow> Some n
          | None \<Rightarrow> Option.bind (bs_raw (conn_BrokerStats pf ti (fold Record ms NewTree)) ''broker/clients/active'')
                      (parseCounter pf ti)))"
proof -
  let ?t = "fold Record ms NewTree"
  define v where "v = msg_value topic (last (filter (\<lambda>m. msg_topic m = topic) ms))
     (length (filter (\<lambda>m. msg_topic m = topic) ms))"
  have room: "length ms < maxTopics" using assms(1) by (simp add: maxTopics_def)
  have ok: "tree_ok ?t" by (intro Records_ok wf_intro)
  have at: "val_at (split_on slash topic) (tree_root ?t) = Some v"
    using room own by (simp add: Records_val_at last_value_def Let_def v_def)
  have "tree_topics ?t \<le> length ms" using Records_room [OF room] by simp
  then have few: "nd_subTopics (node_data (tree_root ?t)) \<le> 2000"
    using ok assms(1) by (simp add: tree_ok_def)
  let ?vs = "tree_Match sysFilter maxSysTopics ?t"
  have vs: "set ?vs = set (matched sysFilter ?t)" using ok few by (rule Match_all)
  have topic_v: "tv_topic v = topic" by (simp add: msg_value_def v_def)
  have v: "v \<in> set ?vs"
    unfolding vs set_matched [OF ok] using at assms(5) topic_v by auto
  have key: "sys_key v = key" by (simp add: sys_key_def topic_v assms(2) trim_prefix_def)
  have unique: "w = v" if "w \<in> set ?vs" "sys_key w = sys_key v" for w
  proof -
    have "w \<in> set (matched sysFilter ?t)" using that(1) unfolding vs .
    with set_matched [OF ok, of w sysFilter] obtain ks
      where ks: "val_at ks (tree_root ?t) = Some w" and m: "MatchFilter sysFilter (tv_topic w)" by fastforce
    have "tv_topic w = topic"
      using sys_key_inj [OF m, of v] that(2) assms(3,5) key topic_v by simp
    then have "ks = split_on slash topic" using Records_paths [OF ks] room by simp
    with at ks show ?thesis by simp
  qed
  obtain raw upd load where p: "sys_pass pf ?vs (Map.empty, 0, Map.empty) = (raw, upd, load)"
    by (metis prod_cases3)
  have raw: "raw key = Some (sys_text v)" using sys_pass_unique [OF p v unique] key by simp
  have ne: "?vs \<noteq> []" using v by auto
  have shown: "sys_text v = trim_space (string_of_bytes (take maxStoredPayload (msg_payload (last (filter (\<lambda>m. msg_topic m = topic) ms)))))"
    by (simp add: sys_text_def msg_value_def v_def)
  note fields = brokerStatsFrom_fields [OF ne p, of ti, folded conn_BrokerStats_def]
  have "bs_clients_connected (conn_BrokerStats pf ti ?t) =
      (case parseCounter pf ti (sys_text v) of Some n \<Rightarrow> Some n
       | None \<Rightarrow> Option.bind (raw ''broker/clients/active'') (parseCounter pf ti))"
    if "key = ''broker/clients/connected''"
    unfolding fields(3) by (rule firstInt_two) (use raw that in simp)
  then show ?thesis unfolding fields(2) raw option.sel shown [symmetric] using fields(1) by blast
qed

definition sys_msgs :: "Message list" where
  "sys_msgs = [ex_msg ''$SYS/broker/clients/connected'' [0x37] 1, ex_msg ''a'' [1] 2,
     ex_msg ''$SYS/broker/clients/connected'' [0x38] 3]"

theorem BrokerStats_last_messages_witness:
  "bs_raw (conn_BrokerStats (\<lambda>s. None) (\<lambda>f. f) (fold Record sys_msgs NewTree)) ''broker/clients/connected'' = Some ''8''"
proof -
  let ?t = "''$SYS/broker/clients/connected''" and ?k = "''broker/clients/connected''"
  have f: "filter (\<lambda>m. msg_topic m = ?t) sys_msgs \<noteq> []" and l: "length sys_msgs \<le> 2000"
    and v: "last (filter (\<lambda>m. msg_topic m = ?t) sys_msgs) = ex_msg ?t [0x38] 3"
    by (simp_all add: sys_msgs_def ex_msg_def zero_message_def)
  have m: "MatchFilter sysFilter ?t" by (simp add: sysFilter_def MatchFilter_def)
  have t: "trim_space ''8'' = ''8''" by code_simp
  have b: "string_of_bytes (take maxStoredPayload [0x38]) = ''8''"
    by (simp add: string_of_bytes_def maxStoredPayload_def) code_simp
  from BrokerStats_last_messages [OF l _ _ f m, of ?k "\<lambda>s. None" "\<lambda>f. f"] show ?thesis
    by (simp add: v t b ex_msg_def SysPrefix_def)
qed

end
