(* ===== verification/Protowire.thy ===== *)
theory Protowire
  imports Prelude
begin

unbundle bit_operations_syntax

text \<open>
  \<^verbatim>\<open>internal/payload/protowire.go\<close>: the protobuf wire reader under the Sparkplug decoder. The
  reader's \<^verbatim>\<open>buf[pos:]\<close> is a byte list, and each read returns what is left. An encoder that
  follows the protobuf specification is the reference the reader is compared with.
\<close>

section \<open>The code\<close>

datatype proto_error = ErrTruncated | ErrFieldZero | ErrVarintOverflow | ErrGroup | ErrWireType

fun varint_loop :: "nat \<Rightarrow> 64 word \<Rightarrow> bytes \<Rightarrow> proto_error + 64 word \<times> bytes" where
  "varint_loop shift v [] = Inl ErrTruncated"
| "varint_loop shift v (b # bs) =
     (if shift \<ge> 64 then Inl ErrVarintOverflow
      else let v = v OR push_bit shift (ucast (b AND 0x7F)) in
        if b < 0x80 then Inr (v, bs) else varint_loop (shift + 7) v bs)"

definition read_varint :: "bytes \<Rightarrow> proto_error + 64 word \<times> bytes" where
  "read_varint bs = varint_loop 0 0 bs"

definition read_tag :: "bytes \<Rightarrow> proto_error + (nat \<times> nat) \<times> bytes" where
  "read_tag bs =
     (case read_varint bs of
        Inl e \<Rightarrow> Inl e
      | Inr (v, r) \<Rightarrow>
          let field = unat (drop_bit 3 v); wire = unat (v AND 7)
          in if field = 0 then Inl ErrFieldZero else Inr ((field, wire), r))"

text \<open>\<^verbatim>\<open>binary.LittleEndian\<close>.\<close>

fun little_endian :: "bytes \<Rightarrow> nat" where
  "little_endian [] = 0"
| "little_endian (b # bs) = unat b + 256 * little_endian bs"

definition read_fixed32 :: "bytes \<Rightarrow> proto_error + 32 word \<times> bytes" where
  "read_fixed32 bs =
     (if length bs < 4 then Inl ErrTruncated else Inr (word_of_nat (little_endian (take 4 bs)), drop 4 bs))"

definition read_fixed64 :: "bytes \<Rightarrow> proto_error + 64 word \<times> bytes" where
  "read_fixed64 bs =
     (if length bs < 8 then Inl ErrTruncated else Inr (word_of_nat (little_endian (take 8 bs)), drop 8 bs))"

definition read_bytes :: "bytes \<Rightarrow> proto_error + bytes \<times> bytes" where
  "read_bytes bs =
     (case read_varint bs of
        Inl e \<Rightarrow> Inl e
      | Inr (n, r) \<Rightarrow> if unat n > length r then Inl ErrTruncated else Inr (take (unat n) r, drop (unat n) r))"

text \<open>
  A field's value as its wire type says to read it. Whether a decoder wants the field or
  \<^verbatim>\<open>skip\<close>s it, it makes the same read, so one function models both.
\<close>

datatype wire_value = WVarint "64 word" | WI64 "64 word" | WBytes bytes | WI32 "32 word"

definition read_wire :: "nat \<Rightarrow> bytes \<Rightarrow> proto_error + wire_value \<times> bytes" where
  "read_wire wire bs =
     (if wire = 0 then map_sum id (\<lambda>(v, r). (WVarint v, r)) (read_varint bs)
      else if wire = 1 then map_sum id (\<lambda>(v, r). (WI64 v, r)) (read_fixed64 bs)
      else if wire = 2 then map_sum id (\<lambda>(v, r). (WBytes v, r)) (read_bytes bs)
      else if wire = 5 then map_sum id (\<lambda>(v, r). (WI32 v, r)) (read_fixed32 bs)
      else if wire = 3 \<or> wire = 4 then Inl ErrGroup
      else Inl ErrWireType)"

section \<open>Reads consume\<close>

text \<open>A varint takes at most ten bytes, and never more than there are.\<close>

lemma varint_loop_consumes:
  "varint_loop shift v bs = Inr (w, r) \<Longrightarrow>
     \<exists>k. 0 < k \<and> k \<le> length bs \<and> r = drop k bs \<and> shift + 7 * (k - 1) < 64"
proof (induction shift v bs rule: varint_loop.induct)
  case (2 shift v b bs)
  show ?case
  proof (cases "b < 0x80")
    case True
    with 2 show ?thesis by (intro exI [of _ 1]) (auto simp: Let_def split: if_splits)
  next
    case False
    with 2 obtain k where "0 < k" "k \<le> length bs" "r = drop k bs" "shift + 7 + 7 * (k - 1) < 64"
      by (auto simp: Let_def split: if_splits)
    then show ?thesis by (intro exI [of _ "Suc k"]) (cases k, auto)
  qed
qed simp

lemma read_varint_consumes:
  assumes "read_varint bs = Inr (w, r)"
  shows "\<exists>k. 0 < k \<and> k \<le> 10 \<and> k \<le> length bs \<and> r = drop k bs"
proof -
  from varint_loop_consumes [OF assms [unfolded read_varint_def]] obtain k where
    "0 < k" "k \<le> length bs" "r = drop k bs" "7 * (k - 1) < 64" by auto
  then show ?thesis by (intro exI [of _ k]) auto
qed

lemma read_varint_shorter: "read_varint bs = Inr (w, r) \<Longrightarrow> length r < length bs"
  using read_varint_consumes by fastforce

lemma read_tag_shorter: "read_tag bs = Inr (t, r) \<Longrightarrow> length r < length bs"
  by (auto simp: read_tag_def Let_def dest: read_varint_shorter split: sum.splits prod.splits if_splits)

lemma read_wire_shorter: "read_wire wire bs = Inr (w, r) \<Longrightarrow> length r < length bs"
  by (auto simp: read_wire_def read_fixed32_def read_fixed64_def read_bytes_def
      dest!: read_varint_shorter split: if_splits sum.splits prod.splits)

section \<open>The decoding loop\<close>

text \<open>
  Both decoders are the same loop over fields, ended by the first error; what has been decoded by
  then is returned with it.
\<close>

function decode_msg :: "(nat \<Rightarrow> wire_value \<Rightarrow> 's \<Rightarrow> 's \<times> proto_error option) \<Rightarrow> bytes \<Rightarrow> 's \<Rightarrow> 's \<times> proto_error option" where
  "decode_msg h bs s =
     (if bs = [] then (s, None)
      else case read_tag bs of
        Inl e \<Rightarrow> (s, Some e)
      | Inr ((field, wire), r) \<Rightarrow>
          case read_wire wire r of
            Inl e \<Rightarrow> (s, Some e)
          | Inr (w, r') \<Rightarrow>
              case h field w s of
                (s', Some e) \<Rightarrow> (s', Some e)
              | (s', None) \<Rightarrow> decode_msg h r' s')"
  by pat_completeness auto
termination
  by (relation "measure (\<lambda>(h, bs, s). length bs)")
    (auto dest!: read_tag_shorter read_wire_shorter)

declare decode_msg.simps [simp del]

section \<open>The reference encoder\<close>

function varint_bytes :: "nat \<Rightarrow> bytes" where
  "varint_bytes n = (if n < 128 then [word_of_nat n] else word_of_nat (n mod 128 + 128) # varint_bytes (n div 128))"
  by pat_completeness auto
termination by (relation "measure id") auto

declare varint_bytes.simps [simp del]

fun le_bytes :: "nat \<Rightarrow> nat \<Rightarrow> bytes" where
  "le_bytes 0 n = []"
| "le_bytes (Suc k) n = word_of_nat (n mod 256) # le_bytes k (n div 256)"

fun wire_type :: "wire_value \<Rightarrow> nat" where
  "wire_type (WVarint v) = 0"
| "wire_type (WI64 v) = 1"
| "wire_type (WBytes b) = 2"
| "wire_type (WI32 v) = 5"

fun enc_value :: "wire_value \<Rightarrow> bytes" where
  "enc_value (WVarint v) = varint_bytes (unat v)"
| "enc_value (WI64 v) = le_bytes 8 (unat v)"
| "enc_value (WBytes b) = varint_bytes (length b) @ b"
| "enc_value (WI32 v) = le_bytes 4 (unat v)"

definition enc_field :: "nat \<times> wire_value \<Rightarrow> bytes" where
  "enc_field fw = varint_bytes (fst fw * 8 + wire_type (snd fw)) @ enc_value (snd fw)"

definition enc_msg :: "(nat \<times> wire_value) list \<Rightarrow> bytes" where
  "enc_msg fs = concat (map enc_field fs)"

text \<open>Field numbers are 29-bit numbers from 1, and a byte string's length fits 64 bits.\<close>

definition field_ok :: "nat \<times> wire_value \<Rightarrow> bool" where
  "field_ok fw \<longleftrightarrow> 0 < fst fw \<and> fst fw < 2 ^ 29 \<and> (case snd fw of WBytes b \<Rightarrow> length b < 2 ^ 63 | _ \<Rightarrow> True)"

text \<open>What a decoder makes of a list of fields.\<close>

fun run_fields :: "(nat \<Rightarrow> wire_value \<Rightarrow> 's \<Rightarrow> 's \<times> proto_error option) \<Rightarrow> (nat \<times> wire_value) list \<Rightarrow> 's \<Rightarrow> 's \<times> proto_error option" where
  "run_fields h [] s = (s, None)"
| "run_fields h ((f, w) # fs) s =
     (case h f w s of (s', Some e) \<Rightarrow> (s', Some e) | (s', None) \<Rightarrow> run_fields h fs s')"

section \<open>Reading what was written\<close>

lemma low_bits: "(ucast (b AND 0x7F) :: 64 word) = word_of_nat (unat (b :: byte) mod 128)"
proof -
  have "(0x7F :: byte) = mask 7" by (simp add: mask_eq_exp_minus_1)
  then have "b AND 0x7F = take_bit 7 b" by (simp add: take_bit_eq_mask)
  then have "unat (b AND 0x7F) = unat b mod 128" by (simp add: take_bit_eq_mod unat_mod)
  then show ?thesis by (metis of_nat_unat)
qed

lemma or_shifted:
  fixes w :: "64 word"
  assumes "unat w < 2 ^ k"
  shows "w OR push_bit k x = w + push_bit k x"
proof -
  have "\<not> bit w i \<or> \<not> bit (push_bit k x) i" for i
  proof (cases "i < k")
    case True
    then show ?thesis by (simp add: bit_push_bit_iff)
  next
    case False
    then have "(2 :: nat) ^ k \<le> 2 ^ i" by (intro power_increasing) auto
    with assms have "unat w < 2 ^ i" by (rule order.strict_trans2)
    then have "unat w div 2 ^ i = 0" by (rule div_less)
    then have "\<not> bit (unat w) i" by (simp add: bit_iff_odd)
    then show ?thesis by (simp add: bit_unsigned_iff)
  qed
  then show ?thesis by (intro disjunctive_add [symmetric]) blast
qed

lemma unat_byte: "n < 256 \<Longrightarrow> unat (word_of_nat n :: byte) = n"
  by (simp add: unat_of_nat)

lemma varint_loop_bytes:
  assumes "shift < 64" and "unat v < 2 ^ shift" and "unat v + n * 2 ^ shift < 2 ^ 64"
  shows "varint_loop shift v (varint_bytes n @ rest) = Inr (word_of_nat (unat v + n * 2 ^ shift), rest)"
  using assms
proof (induction n arbitrary: shift v rule: varint_bytes.induct)
  case (1 n)
  have step: "v OR push_bit shift (ucast (word_of_nat m AND 0x7F :: byte)) =
      (word_of_nat (unat v + m mod 128 * 2 ^ shift) :: 64 word)" if "m < 256" for m
    using or_shifted [OF "1.prems"(2), of "word_of_nat (m mod 128)"] that
    by (simp add: low_bits unat_byte push_bit_eq_mult)
  show ?case
  proof (cases "n < 128")
    case True
    then have "(word_of_nat n :: byte) < 0x80" by (simp add: word_less_nat_alt unat_byte)
    with True step [of n] "1.prems"(1) show ?thesis
      by (subst varint_bytes.simps) (simp add: Let_def)
  next
    case False
    let ?m = "n mod 128 + 128" and ?v = "word_of_nat (unat v + n mod 128 * 2 ^ shift) :: 64 word"
    have m: "?m < 256" by simp
    then have big: "\<not> (word_of_nat ?m :: byte) < 0x80" by (simp add: word_less_nat_alt unat_byte del: of_nat_add)
    have n: "n = n div 128 * 128 + n mod 128" by simp
    have "2 ^ shift * 128 \<le> n * 2 ^ shift" using False by simp
    moreover have "(2 :: nat) ^ (shift + 7) = 2 ^ shift * 128" by (simp add: power_add)
    ultimately have "(2 :: nat) ^ (shift + 7) < 2 ^ 64" using "1.prems"(3) by linarith
    then have s: "shift + 7 < 64" by (rule power_less_imp_less_exp [rotated]) simp
    have split: "unat v + n mod 128 * 2 ^ shift + n div 128 * 2 ^ (shift + 7) = unat v + n * 2 ^ shift"
    proof -
      have "n mod 128 * 2 ^ shift + n div 128 * 2 ^ (shift + 7) = (n div 128 * 128 + n mod 128) * 2 ^ shift"
        by (simp only: power_add distrib_right mult.assoc) simp
      also have "n div 128 * 128 + n mod 128 = n" by (rule div_mult_mod_eq)
      finally show ?thesis by simp
    qed
    then have uv: "unat ?v = unat v + n mod 128 * 2 ^ shift"
      using "1.prems"(3) by (simp add: unat_of_nat del: of_nat_add)
    have "n mod 128 * 2 ^ shift \<le> 127 * 2 ^ shift" by (intro mult_right_mono) auto
    moreover have "(2 :: nat) ^ (shift + 7) = 2 ^ shift * 128" by (simp add: power_add)
    ultimately have lt: "unat ?v < 2 ^ (shift + 7)"
      unfolding uv using "1.prems"(2) by linarith
    have "varint_loop shift v (varint_bytes n @ rest) = varint_loop (shift + 7) ?v (varint_bytes (n div 128) @ rest)"
      using False big step [OF m] "1.prems"(1)
      by (subst varint_bytes.simps) (simp add: Let_def del: of_nat_add)
    also have "\<dots> = Inr (word_of_nat (unat ?v + n div 128 * 2 ^ (shift + 7)), rest)"
      using "1.IH" [OF False s lt] split uv "1.prems"(3) by simp
    finally show ?thesis by (simp only: uv split)
  qed
qed

lemma read_varint_bytes: "n < 2 ^ 64 \<Longrightarrow> read_varint (varint_bytes n @ rest) = Inr (word_of_nat n, rest)"
  using varint_loop_bytes [of 0 0 n rest] by (simp add: read_varint_def)

lemma length_le_bytes [simp]: "length (le_bytes k n) = k"
  by (induction k arbitrary: n) simp_all

lemma little_endian_le_bytes: "little_endian (le_bytes k n) = n mod 256 ^ k"
proof (induction k arbitrary: n)
  case (Suc k)
  have "unat (word_of_nat (n mod 256) :: byte) = n mod 256" by (simp add: unat_byte)
  with Suc show ?case by (simp add: mod_mult2_eq)
qed simp

lemma read_wire_enc:
  assumes "case w of WBytes b \<Rightarrow> length b < 2 ^ 63 | _ \<Rightarrow> True"
  shows "read_wire (wire_type w) (enc_value w @ rest) = Inr (w, rest)"
proof (cases w)
  case (WVarint v)
  with read_varint_bytes [of "unat v" rest] unsigned_less [of v, where 'a = nat] show ?thesis by (simp add: read_wire_def)
next
  case (WI64 v)
  have "unat v < 256 ^ 8" using unsigned_less [of v, where 'a = nat] by simp
  with WI64 show ?thesis by (simp add: read_wire_def read_fixed64_def little_endian_le_bytes)
next
  case (WI32 v)
  have "unat v < 256 ^ 4" using unsigned_less [of v, where 'a = nat] by simp
  with WI32 show ?thesis by (simp add: read_wire_def read_fixed32_def little_endian_le_bytes)
next
  case (WBytes b)
  with assms have l: "length b < 2 ^ 64" by simp
  then have "unat (word_of_nat (length b) :: 64 word) = length b" by (simp add: unat_of_nat)
  with WBytes l read_varint_bytes [OF l, of "b @ rest"] show ?thesis by (simp add: read_wire_def read_bytes_def)
qed

lemma wire_type_bound: "wire_type w < 8"
  by (cases w) simp_all

lemma read_tag_enc:
  assumes "0 < f" and "f < 2 ^ 29" and "t < 8"
  shows "read_tag (varint_bytes (f * 8 + t) @ rest) = Inr ((f, t), rest)"
proof -
  let ?n = "f * 8 + t"
  have n: "?n < 2 ^ 64" using assms by simp
  then have u: "unat (word_of_nat ?n :: 64 word) = ?n" by (simp add: unat_of_nat del: of_nat_add)
  have "unat (drop_bit 3 (word_of_nat ?n :: 64 word)) = f"
    using assms(3) u by (simp add: unat_drop_bit_eq drop_bit_eq_div unat_div del: of_nat_add)
  moreover have "unat ((word_of_nat ?n :: 64 word) AND 7) = t"
  proof -
    have "(7 :: 64 word) = mask 3" by (simp add: mask_eq_exp_minus_1)
    then have "(word_of_nat ?n :: 64 word) AND 7 = take_bit 3 (word_of_nat ?n)" by (simp only: take_bit_eq_mask)
    then show ?thesis using assms(3) u by (simp add: take_bit_eq_mod unat_mod del: of_nat_add)
  qed
  ultimately show ?thesis
    using assms(1) by (simp add: read_tag_def read_varint_bytes [OF n] Let_def del: of_nat_add)
qed

lemma decode_msg_enc:
  "\<forall>fw \<in> set fs. field_ok fw \<Longrightarrow> decode_msg h (enc_msg fs) s = run_fields h fs s"
proof (induction fs arbitrary: s)
  case Nil
  then show ?case by (simp add: enc_msg_def decode_msg.simps)
next
  case (Cons fw fs)
  obtain f w where fw: "fw = (f, w)" by fastforce
  have ok: "0 < f" "f < 2 ^ 29" "case w of WBytes b \<Rightarrow> length b < 2 ^ 63 | _ \<Rightarrow> True"
    using Cons.prems by (auto simp: fw field_ok_def)
  have e: "enc_msg (fw # fs) = varint_bytes (f * 8 + wire_type w) @ enc_value w @ enc_msg fs"
    by (simp add: enc_msg_def enc_field_def fw)
  have ne: "enc_msg (fw # fs) \<noteq> []" unfolding e varint_bytes.simps [of "f * 8 + wire_type w"] by simp
  have IH: "decode_msg h (enc_msg fs) t = run_fields h fs t" for t using Cons by simp
  have "decode_msg h (enc_msg (fw # fs)) s =
      (case h f w s of (s', Some e) \<Rightarrow> (s', Some e) | (s', None) \<Rightarrow> decode_msg h (enc_msg fs) s')"
    unfolding decode_msg.simps [of h "enc_msg (fw # fs)"] if_not_P [OF ne]
    by (simp add: e read_tag_enc [OF ok(1,2) wire_type_bound] read_wire_enc [OF ok(3)])
  then show ?case by (auto simp: fw IH split: prod.splits option.splits)
qed

text \<open>
  The tenth byte of a varint carries one bit; the reader accepts more and drops what does not fit.
\<close>

lemma varint_tenth_byte_wraps: "read_varint (replicate 9 0x80 @ [0x02]) = Inr (0, [])"
  by code_simp

end
