(* ===== verification/Sparkplug.thy ===== *)
theory Sparkplug
  imports Protowire Topic Numbers
begin

unbundle bit_operations_syntax

text \<open>
  \<^verbatim>\<open>internal/payload/sparkplug.go\<close> and \<^verbatim>\<open>detect.go\<close>: the Sparkplug B decoder and what decides how a
  payload is shown. Printing floats and timestamps and checking JSON are Go's library and are
  arguments; a \<open>Render\<close> holds the printers.
\<close>

section \<open>The topic namespace\<close>

definition SparkplugTopicPrefix :: string where "SparkplugTopicPrefix = ''spBv1.0/''"

record SparkplugTopic =
  sp_group :: string
  sp_messageType :: string
  sp_edgeNode :: string
  sp_device :: string

definition ParseSparkplugTopic :: "string \<Rightarrow> SparkplugTopic option" where
  "ParseSparkplugTopic topic =
     (case cut_prefix SparkplugTopicPrefix topic of
        None \<Rightarrow> None
      | Some rest \<Rightarrow>
          let parts = split_on slash rest in
          if length parts < 3 \<or> length parts > 4 then None
          else let t = \<lparr>sp_group = parts ! 0, sp_messageType = parts ! 1, sp_edgeNode = parts ! 2,
                        sp_device = (if length parts = 4 then parts ! 3 else [])\<rparr>
            in if sp_group t = [] \<or> sp_messageType t = [] \<or> sp_edgeNode t = [] then None else Some t)"

definition LooksLikeSparkplug :: "string \<Rightarrow> bool" where
  "LooksLikeSparkplug topic \<longleftrightarrow> ParseSparkplugTopic topic \<noteq> None"

section \<open>Metrics\<close>

record SparkplugMetric =
  mt_name :: string
  mt_alias :: "64 word"
  mt_hasAlias :: bool
  mt_dataType :: string
  mt_value :: string
  mt_note :: string
  mt_isNull :: bool
  mt_isHistorical :: bool
  mt_isTransient :: bool
  mt_timestamp :: "time option"

record SparkplugPayload =
  pl_timestamp :: "time option"
  pl_seq :: "64 word option"
  pl_uuid :: string
  pl_metrics :: "SparkplugMetric list"
  pl_bodyBytes :: nat

record Render =
  rd_float32 :: "32 word \<Rightarrow> string"
  rd_float64 :: "64 word \<Rightarrow> string"
  rd_time :: "time \<Rightarrow> string"

definition dataTypeNames :: "string list" where
  "dataTypeNames =
     [''Unknown'', ''Int8'', ''Int16'', ''Int32'', ''Int64'', ''UInt8'', ''UInt16'', ''UInt32'', ''UInt64'',
      ''Float'', ''Double'', ''Boolean'', ''String'', ''DateTime'', ''Text'', ''UUID'', ''DataSet'', ''Bytes'',
      ''File'', ''Template'', ''PropertySet'', ''PropertySetList'', ''Int8Array'', ''Int16Array'',
      ''Int32Array'', ''Int64Array'', ''UInt8Array'', ''UInt16Array'', ''UInt32Array'', ''UInt64Array'',
      ''FloatArray'', ''DoubleArray'', ''BooleanArray'', ''StringArray'', ''DateTimeArray'']"

definition dataTypeName :: "32 word \<Rightarrow> string" where
  "dataTypeName dt =
     (if unat dt < length dataTypeNames then dataTypeNames ! unat dt
      else ''datatype '' @ nat_string (unat dt))"

text \<open>\<^verbatim>\<open>millis\<close>: milliseconds to a time, an absurd number to the epoch.\<close>

definition millis :: "64 word \<Rightarrow> time" where
  "millis v = (if unat v > 2 ^ 53 then 0 else int (unat v) * 1000000)"

definition byteCount :: "nat \<Rightarrow> string" where
  "byteCount n = (if n = 1 then ''1 byte'' else nat_string n @ '' bytes'')"

definition unknownTypeNote :: "32 word \<Rightarrow> string" where
  "unknownTypeNote dt = ''datatype '' @ nat_string (unat dt) @ '' is not one this build knows''"

text \<open>
  Whichever arm of the oneof arrived. The fields other than the arm's own have their zero value,
  and \<open>mv_kind\<close> is the arm's field number.
\<close>

record metricValue =
  mv_kind :: nat
  mv_u32 :: "32 word"
  mv_u64 :: "64 word"
  mv_f32 :: "32 word"
  mv_f64 :: "64 word"
  mv_str :: string
  mv_blob :: bytes
  mv_nested :: string

definition zero_value :: "nat \<Rightarrow> metricValue" where
  "zero_value kind = \<lparr>mv_kind = kind, mv_u32 = 0, mv_u64 = 0, mv_f32 = 0, mv_f64 = 0, mv_str = [],
     mv_blob = [], mv_nested = []\<rparr>"

definition bool_string :: "bool \<Rightarrow> string" where
  "bool_string b = (if b then ''true'' else ''false'')"

definition renderValue :: "Render \<Rightarrow> 32 word \<Rightarrow> metricValue \<Rightarrow> string \<times> string" where
  "renderValue rd dt v =
     (let d = unat dt in
      if d = 1 then (int_string (sint (ucast (mv_u32 v) :: 8 word)), [])
      else if d = 2 then (int_string (sint (ucast (mv_u32 v) :: 16 word)), [])
      else if d = 3 then (int_string (sint (mv_u32 v)), [])
      else if d = 4 then (int_string (sint (mv_u64 v)), [])
      else if d = 5 \<or> d = 6 \<or> d = 7 then (nat_string (unat (mv_u32 v)), [])
      else if d = 8 then (nat_string (unat (mv_u64 v)), [])
      else if d = 9 then (rd_float32 rd (mv_f32 v), [])
      else if d = 10 then (rd_float64 rd (mv_f64 v), [])
      else if d = 11 then (bool_string (mv_u64 v \<noteq> 0), [])
      else if d = 12 \<or> d = 14 \<or> d = 15 then (mv_str v, [])
      else if d = 13 then (rd_time rd (millis (mv_u64 v)), [])
      else if d = 17 \<or> d = 18 then ([], byteCount (length (mv_blob v)) @ '', not shown'')
      else if d = 16 then ([], ''a dataset ('' @ mv_nested v @ ''), not expanded'')
      else if d = 19 then ([], ''a template ('' @ mv_nested v @ ''), not expanded'')
      else if mv_kind v = 10 then (nat_string (unat (mv_u32 v)), unknownTypeNote dt)
      else if mv_kind v = 11 then (nat_string (unat (mv_u64 v)), unknownTypeNote dt)
      else if mv_kind v = 12 then (rd_float32 rd (mv_f32 v), unknownTypeNote dt)
      else if mv_kind v = 13 then (rd_float64 rd (mv_f64 v), unknownTypeNote dt)
      else if mv_kind v = 14 then (bool_string (mv_u64 v \<noteq> 0), unknownTypeNote dt)
      else if mv_kind v = 15 then (mv_str v, unknownTypeNote dt)
      else if mv_kind v = 16 then ([], byteCount (length (mv_blob v)) @ '', '' @ unknownTypeNote dt)
      else ([], unknownTypeNote dt))"

text \<open>What the metric loop threads through: the metric, the datatype and the value, if any.\<close>

type_synonym metric_state = "SparkplugMetric \<times> 32 word \<times> metricValue option"

definition zero_metric :: SparkplugMetric where
  "zero_metric = \<lparr>mt_name = [], mt_alias = 0, mt_hasAlias = False, mt_dataType = [], mt_value = [], mt_note = [],
     mt_isNull = False, mt_isHistorical = False, mt_isTransient = False, mt_timestamp = None\<rparr>"

definition metric_field :: "nat \<Rightarrow> wire_value \<Rightarrow> metric_state \<Rightarrow> metric_state \<times> proto_error option" where
  "metric_field f w s =
     (case s of (m, dt, val) \<Rightarrow>
      (case w of
         WBytes b \<Rightarrow>
           if f = 1 then (m\<lparr>mt_name := string_of_bytes b\<rparr>, dt, val)
           else if f = 15 then (m, dt, Some ((zero_value 15)\<lparr>mv_str := string_of_bytes b\<rparr>))
           else if f = 16 then (m, dt, Some ((zero_value 16)\<lparr>mv_blob := b\<rparr>))
           else if f = 17 then (m, dt, Some ((zero_value 17)\<lparr>mv_nested := byteCount (length b)\<rparr>))
           else if f = 18 then (m, dt, Some ((zero_value 18)\<lparr>mv_nested := byteCount (length b)\<rparr>))
           else s
       | WVarint v \<Rightarrow>
           if f = 2 then (m\<lparr>mt_alias := v, mt_hasAlias := True\<rparr>, dt, val)
           else if f = 3 then (m\<lparr>mt_timestamp := Some (millis v)\<rparr>, dt, val)
           else if f = 4 then (m, ucast v, val)
           else if f = 5 then (m\<lparr>mt_isHistorical := (v \<noteq> 0)\<rparr>, dt, val)
           else if f = 6 then (m\<lparr>mt_isTransient := (v \<noteq> 0)\<rparr>, dt, val)
           else if f = 7 then (m\<lparr>mt_isNull := (v \<noteq> 0)\<rparr>, dt, val)
           else if f = 10 then (m, dt, Some ((zero_value 10)\<lparr>mv_u32 := ucast v\<rparr>))
           else if f = 11 then (m, dt, Some ((zero_value 11)\<lparr>mv_u64 := v\<rparr>))
           else if f = 14 then (m, dt, Some ((zero_value 14)\<lparr>mv_u64 := v\<rparr>))
           else s
       | WI32 v \<Rightarrow> if f = 12 then (m, dt, Some ((zero_value 12)\<lparr>mv_f32 := v\<rparr>)) else s
       | WI64 v \<Rightarrow> if f = 13 then (m, dt, Some ((zero_value 13)\<lparr>mv_f64 := v\<rparr>)) else s),
      None)"

definition finish_metric :: "Render \<Rightarrow> metric_state \<Rightarrow> SparkplugMetric" where
  "finish_metric rd s =
     (case s of (m, dt, val) \<Rightarrow>
        let m = m\<lparr>mt_dataType := dataTypeName dt\<rparr> in
        if mt_isNull m then m\<lparr>mt_note := ''null''\<rparr>
        else case val of
          None \<Rightarrow> m\<lparr>mt_note := ''no value in this message''\<rparr>
        | Some v \<Rightarrow> m\<lparr>mt_value := fst (renderValue rd dt v), mt_note := snd (renderValue rd dt v)\<rparr>)"

definition decodeMetric :: "Render \<Rightarrow> bytes \<Rightarrow> proto_error + SparkplugMetric" where
  "decodeMetric rd raw =
     (case decode_msg metric_field raw (zero_metric, 0, None) of
        (s, Some e) \<Rightarrow> Inl e
      | (s, None) \<Rightarrow> Inr (finish_metric rd s))"

definition payload_field :: "Render \<Rightarrow> nat \<Rightarrow> wire_value \<Rightarrow> SparkplugPayload \<Rightarrow> SparkplugPayload \<times> proto_error option" where
  "payload_field rd f w p =
     (case w of
        WVarint v \<Rightarrow>
          (if f = 1 then p\<lparr>pl_timestamp := Some (millis v)\<rparr>
           else if f = 3 then p\<lparr>pl_seq := Some v\<rparr> else p, None)
      | WBytes b \<Rightarrow>
          if f = 2 then
            case decodeMetric rd b of
              Inl e \<Rightarrow> (p, Some e)
            | Inr m \<Rightarrow> (p\<lparr>pl_metrics := pl_metrics p @ [m]\<rparr>, None)
          else if f = 4 then (p\<lparr>pl_uuid := string_of_bytes b\<rparr>, None)
          else if f = 5 then (p\<lparr>pl_bodyBytes := length b\<rparr>, None)
          else (p, None)
      | _ \<Rightarrow> (p, None))"

definition zero_payload :: SparkplugPayload where
  "zero_payload = \<lparr>pl_timestamp = None, pl_seq = None, pl_uuid = [], pl_metrics = [], pl_bodyBytes = 0\<rparr>"

text \<open>The payload decoded so far comes back with an error, as in the code.\<close>

definition DecodeSparkplug :: "Render \<Rightarrow> bytes \<Rightarrow> SparkplugPayload \<times> proto_error option" where
  "DecodeSparkplug rd raw = decode_msg (payload_field rd) raw zero_payload"

section \<open>Detecting what a payload is\<close>

datatype Kind = KindEmpty | KindJSON | KindText | KindImage | KindSparkplug | KindBinary

record Detected =
  dt_kind :: Kind
  dt_mediaType :: string
  dt_size :: nat

definition imageSignatures :: "(string \<times> bytes \<times> bytes option) list" where
  "imageSignatures =
     [(''image/png'', [0x89, 0x50, 0x4E, 0x47, 0x0D, 0x0A, 0x1A, 0x0A], None),
      (''image/jpeg'', [0xFF, 0xD8, 0xFF], None),
      (''image/gif'', [0x47, 0x49, 0x46, 0x38, 0x37, 0x61], None),
      (''image/gif'', [0x47, 0x49, 0x46, 0x38, 0x39, 0x61], None),
      (''image/bmp'', [0x42, 0x4D], None),
      (''image/webp'', [0x52, 0x49, 0x46, 0x46], Some [0x57, 0x45, 0x42, 0x50])]"

fun image_loop :: "(string \<times> bytes \<times> bytes option) list \<Rightarrow> bytes \<Rightarrow> string option" where
  "image_loop [] raw = None"
| "image_loop ((media, pre, at12) # sigs) raw =
     (if \<not> prefix pre raw then image_loop sigs raw
      else case at12 of
        Some mark \<Rightarrow>
          if length raw < 12 + length mark \<or> take 4 (drop 8 raw) \<noteq> mark then image_loop sigs raw else Some media
      | None \<Rightarrow> Some media)"

definition ImageMediaType :: "bytes \<Rightarrow> string option" where
  "ImageMediaType raw = image_loop imageSignatures raw"

definition isJSON :: "(string \<Rightarrow> bool) \<Rightarrow> bytes \<Rightarrow> bool" where
  "isJSON jsonValid raw =
     (let trimmed = trim_space (string_of_bytes raw) in
      if trimmed = [] then False
      else if hd trimmed \<noteq> CHR 0x7B \<and> hd trimmed \<noteq> CHR 0x5B then False
      else jsonValid trimmed)"

definition isText :: "bytes \<Rightarrow> bool" where
  "isText raw =
     (case runes_of (map unat raw) of
        None \<Rightarrow> False
      | Some rs \<Rightarrow> \<forall>r \<in> set rs. r \<in> {9, 10, 13} \<or> \<not> (r < 0x20 \<or> r = 0x7F))"

definition Detect :: "(string \<Rightarrow> bool) \<Rightarrow> string \<Rightarrow> bytes \<Rightarrow> Detected" where
  "Detect jsonValid topic raw =
     (let d = (\<lambda>k media. \<lparr>dt_kind = k, dt_mediaType = media, dt_size = length raw\<rparr>) in
      if raw = [] then d KindEmpty []
      else if LooksLikeSparkplug topic then d KindSparkplug []
      else case ImageMediaType raw of
        Some media \<Rightarrow> d KindImage media
      | None \<Rightarrow>
          if isJSON jsonValid raw then d KindJSON []
          else if isText raw then d KindText []
          else d KindBinary [])"

definition SafeMediaType :: "bytes \<Rightarrow> string" where
  "SafeMediaType raw = (case ImageMediaType raw of Some media \<Rightarrow> media | None \<Rightarrow> ''application/octet-stream'')"


section \<open>Decoding what a publisher encoded\<close>

lemma metric_field_total: "snd (metric_field f w s) = None"
  by (simp add: metric_field_def split: prod.splits wire_value.splits)

text \<open>The metric fields never fail, so a metric is the fold of its fields.\<close>

definition metric_of :: "Render \<Rightarrow> (nat \<times> wire_value) list \<Rightarrow> SparkplugMetric" where
  "metric_of rd fs = finish_metric rd (fold (\<lambda>(f, w) s. fst (metric_field f w s)) fs (zero_metric, 0, None))"

lemma run_metric: "run_fields metric_field fs s = (fold (\<lambda>(f, w) s. fst (metric_field f w s)) fs s, None)"
proof (induction fs arbitrary: s)
  case (Cons fw fs)
  obtain f w where fw: "fw = (f, w)" by fastforce
  have "metric_field f w s = (fst (metric_field f w s), None)"
    using metric_field_total [of f w s] by (metis prod.collapse)
  then show ?case
    by (metis (no_types, lifting) Cons.IH case_prod_conv fold_Cons comp_apply fw option.simps(4) run_fields.simps(2))
qed simp

lemma decodeMetric_enc:
  "\<forall>fw \<in> set fs. field_ok fw \<Longrightarrow> decodeMetric rd (enc_msg fs) = Inr (metric_of rd fs)"
  by (simp add: decodeMetric_def decode_msg_enc run_metric metric_of_def)

text \<open>
  The parts of a payload as a publisher sends them: the fields of the format, in any order and any number, and fields
  that are none of them, by number or by wire type.
\<close>

datatype payload_item =
    ITime "64 word" | ISeq "64 word" | IMetric "(nat \<times> wire_value) list" | IUuid bytes | IBody bytes | IOther nat wire_value

fun item_field :: "payload_item \<Rightarrow> nat \<times> wire_value" where
  "item_field (ITime t) = (1, WVarint t)"
| "item_field (IMetric ms) = (2, WBytes (enc_msg ms))"
| "item_field (ISeq n) = (3, WVarint n)"
| "item_field (IUuid b) = (4, WBytes b)"
| "item_field (IBody b) = (5, WBytes b)"
| "item_field (IOther f w) = (f, w)"

definition item_ok :: "payload_item \<Rightarrow> bool" where
  "item_ok it \<longleftrightarrow> field_ok (item_field it) \<and>
     (case it of
        IMetric ms \<Rightarrow> \<forall>fw \<in> set ms. field_ok fw
      | IOther f w \<Rightarrow> (case w of WVarint _ \<Rightarrow> f \<notin> {1, 3} | WBytes _ \<Rightarrow> f \<notin> {2, 4, 5} | _ \<Rightarrow> True)
      | _ \<Rightarrow> True)"

definition last_of :: "'a list \<Rightarrow> 'a option" where
  "last_of xs = (if xs = [] then None else Some (last xs))"

lemma last_of_snoc [simp]: "last_of [] = None" "last_of (xs @ [x]) = Some x"
  by (simp_all add: last_of_def)

text \<open>What a payload says: all its metrics in order, and of what it may say once the last.\<close>

definition said :: "Render \<Rightarrow> payload_item list \<Rightarrow> SparkplugPayload" where
  "said rd items =
     \<lparr>pl_timestamp = map_option millis (last_of [t. ITime t \<leftarrow> items]), pl_seq = last_of [n. ISeq n \<leftarrow> items],
      pl_uuid = (case last_of [b. IUuid b \<leftarrow> items] of None \<Rightarrow> [] | Some b \<Rightarrow> string_of_bytes b),
      pl_metrics = [metric_of rd ms. IMetric ms \<leftarrow> items],
      pl_bodyBytes = (case last_of [b. IBody b \<leftarrow> items] of None \<Rightarrow> 0 | Some b \<Rightarrow> length b)\<rparr>"

definition say :: "Render \<Rightarrow> payload_item \<Rightarrow> SparkplugPayload \<Rightarrow> SparkplugPayload" where
  "say rd it p = fst (case item_field it of (f, w) \<Rightarrow> payload_field rd f w p)"

lemma item_total: "item_ok it \<Longrightarrow> (case item_field it of (f, w) \<Rightarrow> payload_field rd f w p) = (say rd it p, None)"
  by (cases it) (auto simp: say_def payload_field_def item_ok_def decodeMetric_enc split: wire_value.splits)

lemma run_items:
  "\<forall>it \<in> set items. item_ok it \<Longrightarrow>
     run_fields (payload_field rd) (map item_field items) p = (fold (say rd) items p, None)"
proof (induction items arbitrary: p)
  case (Cons it items)
  obtain f w where fw: "item_field it = (f, w)" by fastforce
  with item_total [of it rd p] Cons.prems have "payload_field rd f w p = (say rd it p, None)" by simp
  with Cons fw show ?case by simp
qed simp

lemma fold_say: "\<forall>it \<in> set items. item_ok it \<Longrightarrow> fold (say rd) items zero_payload = said rd items"
proof (induction items rule: rev_induct)
  case (snoc it items)
  then have ok: "item_ok it" and IH: "fold (say rd) items zero_payload = said rd items" by auto
  have "say rd it (said rd items) = said rd (items @ [it])"
    using ok by (cases it) (auto simp: say_def said_def payload_field_def item_ok_def decodeMetric_enc split: wire_value.splits)
  with IH show ?case by simp
qed (simp add: said_def zero_payload_def)

text \<open>
  C12. A payload encoded by the protobuf rules, its fields in any order, missing or repeated, and whatever other fields
  stand between them, decodes without error to all its metrics in order, each read from its own fields, and to the last
  time, sequence number, identifier and body it has.
\<close>

theorem DecodeSparkplug_encoded:
  assumes "\<forall>it \<in> set items. item_ok it"
  shows "DecodeSparkplug rd (enc_msg (map item_field items)) = (said rd items, None)"
proof -
  have "\<forall>fw \<in> set (map item_field items). field_ok fw" using assms by (auto simp: item_ok_def)
  then show ?thesis
    using run_items [OF assms, of rd zero_payload] fold_say [OF assms, of rd]
    by (simp add: DecodeSparkplug_def decode_msg_enc)
qed

definition ex_render_fields :: Render where
  "ex_render_fields = \<lparr>rd_float32 = (\<lambda>w. []), rd_float64 = (\<lambda>w. []), rd_time = (\<lambda>t. [])\<rparr>"

definition ex_metric :: "(nat \<times> wire_value) list" where
  "ex_metric = [(1, WBytes [0x74]), (4, WVarint 3), (10, WVarint 4294967291)]"

lemma ex_metric_ok: "\<forall>fw \<in> set ex_metric. field_ok fw"
  by (simp add: ex_metric_def field_ok_def)

theorem DecodeSparkplug_encoded_witness:
  "DecodeSparkplug ex_render_fields
      (enc_msg (map item_field [ITime 0, IMetric ex_metric, IOther 9 (WVarint 7), ISeq 1, IUuid [0x75], IMetric ex_metric])) =
   (\<lparr>pl_timestamp = Some (millis 0), pl_seq = Some 1, pl_uuid = ''u'',
     pl_metrics = [metric_of ex_render_fields ex_metric, metric_of ex_render_fields ex_metric], pl_bodyBytes = 0\<rparr>, None)"
proof -
  have l: "length (enc_msg ex_metric) < 2 ^ 63"
    by (simp add: ex_metric_def enc_msg_def enc_field_def varint_bytes.simps)
  have "\<forall>it \<in> set [ITime 0, IMetric ex_metric, IOther 9 (WVarint 7), ISeq 1, IUuid [0x75], IMetric ex_metric]. item_ok it"
    using ex_metric_ok l by (simp add: item_ok_def field_ok_def)
  moreover have "string_of_bytes [0x75] = ''u''" by code_simp
  ultimately show ?thesis
    using DecodeSparkplug_encoded [of "[ITime 0, IMetric ex_metric, IOther 9 (WVarint 7), ISeq 1, IUuid [0x75], IMetric ex_metric]"
      ex_render_fields]
    by (simp add: said_def last_of_def)
qed

section \<open>Signed readings\<close>

lemma sint_small:
  "- 128 \<le> i \<Longrightarrow> i < 128 \<Longrightarrow> sint (word_of_int i :: 8 word) = i"
  "- 32768 \<le> i \<Longrightarrow> i < 32768 \<Longrightarrow> sint (word_of_int i :: 16 word) = i"
  "- 2147483648 \<le> i \<Longrightarrow> i < 2147483648 \<Longrightarrow> sint (word_of_int i :: 32 word) = i"
  "- 9223372036854775808 \<le> i \<Longrightarrow> i < 9223372036854775808 \<Longrightarrow> sint (word_of_int i :: 64 word) = i"
  by (simp_all add: int_word_sint)

lemma ucast_down:
  "(ucast (word_of_int i :: 32 word) :: 8 word) = word_of_int i"
  "(ucast (word_of_int i :: 32 word) :: 16 word) = word_of_int i"
  by (transfer, simp)+

text \<open>The bits a signed datatype keeps of the reading.\<close>

definition signed_bits :: "nat \<Rightarrow> nat" where
  "signed_bits d = (if d = 1 then 8 else if d = 2 then 16 else if d = 3 then 32 else 64)"

text \<open>
  A signed reading shows as the number the publisher meant: an 8, 16 or 32-bit integer travels as the
  low 32 bits of a varint, a 64-bit one as the whole of it, and minus five comes out as minus five
  whichever of the two ways a publisher extends it.
\<close>

theorem metric_signed_value:
  assumes "d \<in> {1, 2, 3, 4}" and "- (2 ^ (signed_bits d - 1)) \<le> i" and "i < 2 ^ (signed_bits d - 1)"
    and "if d = 4 then w = word_of_int i else (ucast w :: 32 word) = word_of_int i"
    and "length name < 2 ^ 63"
  shows "\<exists>m. decodeMetric rd (enc_msg [(1, WBytes name), (4, WVarint (word_of_nat d)),
             (if d = 4 then 11 else 10, WVarint w)]) = Inr m \<and>
           mt_value m = int_string i \<and> mt_note m = [] \<and> mt_name m = string_of_bytes name \<and> \<not> mt_isNull m"
proof -
  let ?fs = "[(1, WBytes name), (4, WVarint (word_of_nat d)), (if d = 4 then 11 else 10, WVarint w)]"
  have "\<forall>fw \<in> set ?fs. field_ok fw" using assms(5) by (simp add: field_ok_def)
  then have dec: "decodeMetric rd (enc_msg ?fs) = Inr (metric_of rd ?fs)" by (rule decodeMetric_enc)
  have "mt_value (metric_of rd ?fs) = int_string i \<and> mt_note (metric_of rd ?fs) = [] \<and>
      mt_name (metric_of rd ?fs) = string_of_bytes name \<and> \<not> mt_isNull (metric_of rd ?fs)"
    using assms(1)
  proof (elim insertE emptyE)
    assume "d = 1"
    with assms(2-4) show ?thesis
      by (simp add: metric_of_def metric_field_def finish_metric_def renderValue_def zero_metric_def zero_value_def
          signed_bits_def ucast_down sint_small Let_def)
  next
    assume "d = 2"
    with assms(2-4) show ?thesis
      by (simp add: metric_of_def metric_field_def finish_metric_def renderValue_def zero_metric_def zero_value_def
          signed_bits_def ucast_down sint_small Let_def)
  next
    assume "d = 3"
    with assms(2-4) show ?thesis
      by (simp add: metric_of_def metric_field_def finish_metric_def renderValue_def zero_metric_def zero_value_def
          signed_bits_def sint_small Let_def)
  next
    assume "d = 4"
    with assms(2-4) show ?thesis
      by (simp add: metric_of_def metric_field_def finish_metric_def renderValue_def zero_metric_def zero_value_def
          signed_bits_def sint_small Let_def)
  qed
  with dec show ?thesis by blast
qed

theorem metric_signed_value_witness:
  "\<exists>m. decodeMetric ex_render_fields (enc_msg [(1, WBytes [0x74]), (4, WVarint 3), (10, WVarint 4294967291)]) = Inr m \<and>
     mt_value m = ''-5''"
proof -
  have "int_string (- 5) = ''-5''" by code_simp
  with metric_signed_value [of 3 "- 5" 4294967291 "[0x74]" ex_render_fields] show ?thesis
    by (auto simp: signed_bits_def)
qed

text \<open>
  The other direction does not hold: a datatype whose reading arrives in another arm of the oneof is
  shown as nought, not as the number that arrived.
\<close>

lemma wrong_arm_reads_zero:
  "renderValue rd 7 ((zero_value 11)\<lparr>mv_u64 := 42\<rparr>) = (''0'', [])"
proof -
  have "nat_string 0 = ''0''" by code_simp
  then show ?thesis by (simp add: renderValue_def zero_value_def Let_def)
qed

section \<open>Media types\<close>

definition image_media_types :: "string set" where
  "image_media_types = {''image/png'', ''image/jpeg'', ''image/gif'', ''image/bmp'', ''image/webp''}"

lemma image_loop_media: "image_loop sigs raw = Some media \<Longrightarrow> media \<in> fst ` set sigs"
  by (induction sigs raw rule: image_loop.induct) (auto split: if_splits option.splits)

lemma ImageMediaType_media: "ImageMediaType raw = Some media \<Longrightarrow> media \<in> image_media_types"
  using image_loop_media [of imageSignatures raw media]
  by (auto simp: ImageMediaType_def imageSignatures_def image_media_types_def)

text \<open>
  No payload, under any topic, is ever served as a document: what it is echoed back as is one of the
  five image formats or opaque bytes, and it is an image format exactly when detection says image
  for it outside the Sparkplug namespace.
\<close>

theorem media_type_safe:
  "SafeMediaType raw \<in> insert ''application/octet-stream'' image_media_types \<and>
   dt_mediaType (Detect jsonValid topic raw) \<in> insert [] image_media_types \<and>
   dt_size (Detect jsonValid topic raw) = length raw \<and>
   (dt_kind (Detect jsonValid topic raw) = KindImage \<longleftrightarrow>
      \<not> LooksLikeSparkplug topic \<and> SafeMediaType raw \<in> image_media_types) \<and>
   (dt_kind (Detect jsonValid topic raw) = KindImage \<longrightarrow> dt_mediaType (Detect jsonValid topic raw) = SafeMediaType raw)"
proof (cases "ImageMediaType raw")
  case None
  moreover have "''application/octet-stream'' \<notin> image_media_types" by (simp add: image_media_types_def)
  ultimately show ?thesis by (simp add: SafeMediaType_def Detect_def Let_def)
next
  case (Some media)
  moreover have "raw \<noteq> []"
    using Some by (auto simp: ImageMediaType_def imageSignatures_def)
  ultimately show ?thesis
    using ImageMediaType_media [OF Some] by (simp add: SafeMediaType_def Detect_def Let_def)
qed

theorem media_type_safe_witness:
  "dt_mediaType (Detect (\<lambda>s. True) ''a'' [0x42, 0x4D, 0x00]) = ''image/bmp''"
proof -
  have "SafeMediaType [0x42, 0x4D, 0x00] = ''image/bmp''" by code_simp
  moreover have "\<not> LooksLikeSparkplug ''a''" by code_simp
  ultimately show ?thesis
    using media_type_safe [of "[0x42, 0x4D, 0x00]" "\<lambda>s. True" "''a''"] by (simp add: image_media_types_def)
qed

end
