(* ===== verification/AuthStore.thy ===== *)
theory AuthStore
  imports Prelude
begin

text \<open>
  \<^verbatim>\<open>internal/store/users.go\<close>, \<^verbatim>\<open>sessions.go\<close> and \<^verbatim>\<open>twofactor.go\<close>: the tables of accounts, login
  sessions and recovery codes. SQLite is not under \<open>src/\<close>; a table is a list of rows, a statement is
  the function its SQL denotes, with the schema's keys, unique indexes and cascades, and the only
  failures are the ones the schema and the statements define. Times are numbers: the text order the
  expiry sweep compares timestamps in is taken to be the order of the times, from which it differs
  only within one second.
\<close>

section \<open>Roles\<close>

type_synonym Role = string

definition RoleAdmin :: Role where "RoleAdmin = ''admin''"
definition RoleOperator :: Role where "RoleOperator = ''operator''"
definition RoleViewer :: Role where "RoleViewer = ''viewer''"

definition ValidRole :: "Role \<Rightarrow> bool" where
  "ValidRole r \<longleftrightarrow> r = RoleAdmin \<or> r = RoleOperator \<or> r = RoleViewer"

definition role_rank :: "Role \<Rightarrow> nat" where
  "role_rank r = (if r = RoleViewer then 1 else if r = RoleOperator then 2 else if r = RoleAdmin then 3 else 0)"

definition AtLeast :: "Role \<Rightarrow> Role \<Rightarrow> bool" where
  "AtLeast r want \<longleftrightarrow> role_rank r \<ge> role_rank want"

section \<open>Rows\<close>

definition ProviderLocal :: string where "ProviderLocal = ''local''"

record User =
  us_id :: string
  us_email :: string
  us_name :: string
  us_passwordHash :: string
  us_role :: Role
  us_provider :: string
  us_providerSubject :: string
  us_disabled :: bool
  us_createdAt :: time
  us_lastLoginAt :: "time option"
  us_totpSecretEnc :: string
  us_totpConfirmedAt :: "time option"

definition TwoFactorEnabled :: "User \<Rightarrow> bool" where
  "TwoFactorEnabled u \<longleftrightarrow> us_totpSecretEnc u \<noteq> [] \<and> us_totpConfirmedAt u \<noteq> None"

record Session =
  ss_id :: string
  ss_userID :: string
  ss_createdAt :: time
  ss_expiresAt :: time
  ss_userAgent :: string
  ss_ip :: string

record RecoveryCode =
  rc_id :: string
  rc_userID :: string
  rc_hash :: string
  rc_usedAt :: "time option"

record AuthStore =
  db_users :: "User list"
  db_sessions :: "Session list"
  db_codes :: "RecoveryCode list"

datatype store_error = ErrNotFound | ErrConflict | ErrEmailRequired | ErrInvalidRole | ErrSessionFields | ErrConstraint

section \<open>Users\<close>

definition NormalizeEmail :: "string \<Rightarrow> string" where
  "NormalizeEmail email = to_lower (trim_space email)"

text \<open>The unique columns: the id, the address, and the provider's subject where there is one.\<close>

definition user_clash :: "User \<Rightarrow> User \<Rightarrow> bool" where
  "user_clash u v \<longleftrightarrow> us_id u = us_id v \<or> us_email u = us_email v \<or>
     us_providerSubject u \<noteq> [] \<and> us_provider u = us_provider v \<and> us_providerSubject u = us_providerSubject v"

text \<open>What is returned for a new account; the row does not take a login or confirmation time from it.\<close>

definition created_user :: "time \<Rightarrow> User \<Rightarrow> User" where
  "created_user now u =
     (let u = u\<lparr>us_email := NormalizeEmail (us_email u)\<rparr>;
          u = (if us_provider u = [] then u\<lparr>us_provider := ProviderLocal\<rparr> else u)
      in if us_createdAt u = 0 then u\<lparr>us_createdAt := now\<rparr> else u)"

definition CreateUser :: "time \<Rightarrow> User \<Rightarrow> AuthStore \<Rightarrow> (store_error + User) \<times> AuthStore" where
  "CreateUser now u db =
     (let u = created_user now u; row = u\<lparr>us_lastLoginAt := None, us_totpConfirmedAt := None\<rparr> in
      if us_email u = [] then (Inl ErrEmailRequired, db)
      else if \<not> ValidRole (us_role u) then (Inl ErrInvalidRole, db)
      else if \<exists>v \<in> set (db_users db). user_clash row v then (Inl ErrConflict, db)
      else (Inr u, db\<lparr>db_users := db_users db @ [row]\<rparr>))"

definition lookup :: "(User \<Rightarrow> bool) \<Rightarrow> AuthStore \<Rightarrow> store_error + User" where
  "lookup P db = (case find P (db_users db) of None \<Rightarrow> Inl ErrNotFound | Some u \<Rightarrow> Inr u)"

definition GetUser :: "string \<Rightarrow> AuthStore \<Rightarrow> store_error + User" where
  "GetUser i = lookup (\<lambda>u. us_id u = i)"

definition GetUserByEmail :: "string \<Rightarrow> AuthStore \<Rightarrow> store_error + User" where
  "GetUserByEmail email = lookup (\<lambda>u. us_email u = NormalizeEmail email)"

definition GetUserByProviderSubject :: "string \<Rightarrow> string \<Rightarrow> AuthStore \<Rightarrow> store_error + User" where
  "GetUserByProviderSubject provider subject =
     lookup (\<lambda>u. us_provider u = provider \<and> us_providerSubject u = subject)"

definition CountUsers :: "AuthStore \<Rightarrow> nat" where
  "CountUsers db = length (db_users db)"

definition is_admin :: "User \<Rightarrow> bool" where
  "is_admin u \<longleftrightarrow> us_role u = RoleAdmin \<and> \<not> us_disabled u"

definition CountAdmins :: "AuthStore \<Rightarrow> nat" where
  "CountAdmins db = length (filter is_admin (db_users db))"

text \<open>\<^verbatim>\<open>UPDATE users SET ... WHERE id = ?\<close>, refused when no row has the id.\<close>

definition update_user :: "string \<Rightarrow> (User \<Rightarrow> User) \<Rightarrow> AuthStore \<Rightarrow> (store_error + unit) \<times> AuthStore" where
  "update_user i f db =
     (if \<forall>u \<in> set (db_users db). us_id u \<noteq> i then (Inl ErrNotFound, db)
      else (Inr (), db\<lparr>db_users := map (\<lambda>u. if us_id u = i then f u else u) (db_users db)\<rparr>))"

text \<open>The same, where the columns written are part of a unique index.\<close>

definition update_unique :: "string \<Rightarrow> (User \<Rightarrow> User) \<Rightarrow> AuthStore \<Rightarrow> (store_error + unit) \<times> AuthStore" where
  "update_unique i f db =
     (if \<exists>u \<in> set (db_users db). us_id u = i \<and>
         (\<exists>v \<in> set (db_users db). us_id v \<noteq> i \<and> user_clash (f u) v)
      then (Inl ErrConflict, db) else update_user i f db)"

definition UpdateUser :: "User \<Rightarrow> AuthStore \<Rightarrow> (store_error + unit) \<times> AuthStore" where
  "UpdateUser u db =
     (if \<not> ValidRole (us_role u) then (Inl ErrInvalidRole, db)
      else update_unique (us_id u)
        (\<lambda>v. v\<lparr>us_email := NormalizeEmail (us_email u), us_name := us_name u, us_role := us_role u,
               us_disabled := us_disabled u\<rparr>) db)"

definition SetPasswordHash :: "string \<Rightarrow> string \<Rightarrow> AuthStore \<Rightarrow> (store_error + unit) \<times> AuthStore" where
  "SetPasswordHash i hash = update_user i (\<lambda>u. u\<lparr>us_passwordHash := hash\<rparr>)"

definition LinkProvider :: "string \<Rightarrow> string \<Rightarrow> string \<Rightarrow> AuthStore \<Rightarrow> (store_error + unit) \<times> AuthStore" where
  "LinkProvider i provider subject =
     update_unique i (\<lambda>u. u\<lparr>us_provider := provider, us_providerSubject := subject\<rparr>)"

definition TouchLogin :: "time \<Rightarrow> string \<Rightarrow> AuthStore \<Rightarrow> (store_error + unit) \<times> AuthStore" where
  "TouchLogin now i = update_user i (\<lambda>u. u\<lparr>us_lastLoginAt := Some now\<rparr>)"

text \<open>Deleting an account takes its sessions and recovery codes with it.\<close>

definition DeleteUser :: "string \<Rightarrow> AuthStore \<Rightarrow> (store_error + unit) \<times> AuthStore" where
  "DeleteUser i db =
     (if \<forall>u \<in> set (db_users db). us_id u \<noteq> i then (Inl ErrNotFound, db)
      else (Inr (), \<lparr>db_users = filter (\<lambda>u. us_id u \<noteq> i) (db_users db),
                     db_sessions = filter (\<lambda>s. ss_userID s \<noteq> i) (db_sessions db),
                     db_codes = filter (\<lambda>c. rc_userID c \<noteq> i) (db_codes db)\<rparr>))"

section \<open>Sessions\<close>

definition CreateSession :: "time \<Rightarrow> Session \<Rightarrow> AuthStore \<Rightarrow> (store_error + unit) \<times> AuthStore" where
  "CreateSession now s db =
     (if ss_id s = [] \<or> ss_userID s = [] then (Inl ErrSessionFields, db)
      else if (\<exists>t \<in> set (db_sessions db). ss_id t = ss_id s) \<or> (\<forall>u \<in> set (db_users db). us_id u \<noteq> ss_userID s)
      then (Inl ErrConstraint, db)
      else (Inr (), db\<lparr>db_sessions := db_sessions db @
              [if ss_createdAt s = 0 then s\<lparr>ss_createdAt := now\<rparr> else s]\<rparr>))"

definition DeleteSession :: "string \<Rightarrow> AuthStore \<Rightarrow> AuthStore" where
  "DeleteSession i db = db\<lparr>db_sessions := filter (\<lambda>s. ss_id s \<noteq> i) (db_sessions db)\<rparr>"

definition DeleteUserSessions :: "string \<Rightarrow> AuthStore \<Rightarrow> AuthStore" where
  "DeleteUserSessions i db = db\<lparr>db_sessions := filter (\<lambda>s. ss_userID s \<noteq> i) (db_sessions db)\<rparr>"

definition PurgeExpiredSessions :: "time \<Rightarrow> AuthStore \<Rightarrow> nat \<times> AuthStore" where
  "PurgeExpiredSessions now db =
     (length (filter (\<lambda>s. ss_expiresAt s < now) (db_sessions db)),
      db\<lparr>db_sessions := filter (\<lambda>s. \<not> ss_expiresAt s < now) (db_sessions db)\<rparr>)"

text \<open>The join of a session and its user; an expired session is deleted on the way.\<close>

definition SessionUser :: "time \<Rightarrow> string \<Rightarrow> AuthStore \<Rightarrow> (store_error + Session \<times> User) \<times> AuthStore" where
  "SessionUser now i db =
     (case find (\<lambda>s. ss_id s = i) (db_sessions db) of
        None \<Rightarrow> (Inl ErrNotFound, db)
      | Some s \<Rightarrow>
          case GetUser (ss_userID s) db of
            Inl e \<Rightarrow> (Inl ErrNotFound, db)
          | Inr u \<Rightarrow>
              if now > ss_expiresAt s then (Inl ErrNotFound, DeleteSession i db)
              else if us_disabled u then (Inl ErrNotFound, db)
              else (Inr (s, u), db))"

section \<open>Two-factor state\<close>

definition drop_codes :: "string \<Rightarrow> AuthStore \<Rightarrow> AuthStore" where
  "drop_codes i db = db\<lparr>db_codes := filter (\<lambda>c. rc_userID c \<noteq> i) (db_codes db)\<rparr>"

text \<open>An update of one user that is not told when there is no such row.\<close>

definition set_user :: "string \<Rightarrow> (User \<Rightarrow> User) \<Rightarrow> AuthStore \<Rightarrow> AuthStore" where
  "set_user i f db = snd (update_user i f db)"

definition SetTOTPSecret :: "string \<Rightarrow> string \<Rightarrow> AuthStore \<Rightarrow> AuthStore" where
  "SetTOTPSecret i secretEnc db =
     drop_codes i (set_user i (\<lambda>u. u\<lparr>us_totpSecretEnc := secretEnc, us_totpConfirmedAt := None\<rparr>) db)"

definition ConfirmTOTP :: "string \<Rightarrow> time \<Rightarrow> AuthStore \<Rightarrow> (store_error + unit) \<times> AuthStore" where
  "ConfirmTOTP i at db =
     (if \<forall>u \<in> set (db_users db). \<not> (us_id u = i \<and> us_totpSecretEnc u \<noteq> [] \<and> us_totpConfirmedAt u = None)
      then (Inl ErrNotFound, db)
      else (Inr (), db\<lparr>db_users :=
              map (\<lambda>u. if us_id u = i \<and> us_totpSecretEnc u \<noteq> [] \<and> us_totpConfirmedAt u = None
                       then u\<lparr>us_totpConfirmedAt := Some at\<rparr> else u) (db_users db)\<rparr>))"

definition DisableTOTP :: "string \<Rightarrow> AuthStore \<Rightarrow> AuthStore" where
  "DisableTOTP i db =
     drop_codes i (set_user i (\<lambda>u. u\<lparr>us_totpSecretEnc := [], us_totpConfirmedAt := None\<rparr>) db)"

text \<open>
  The new rows get fresh identifiers, one per hash. A row for an account that is not there, or with an
  identifier in use, fails the transaction, which is then rolled back.
\<close>

definition ReplaceRecoveryCodes :: "string list \<Rightarrow> string \<Rightarrow> string list \<Rightarrow> AuthStore \<Rightarrow> (store_error + unit) \<times> AuthStore" where
  "ReplaceRecoveryCodes fresh i hashes db =
     (let cleared = drop_codes i db;
          rows = map (\<lambda>(k, h). \<lparr>rc_id = k, rc_userID = i, rc_hash = h, rc_usedAt = None\<rparr>) (zip fresh hashes)
      in if rows \<noteq> [] \<and> (\<forall>u \<in> set (db_users db). us_id u \<noteq> i) \<or> \<not> distinct (map rc_id (db_codes cleared @ rows))
         then (Inl ErrConstraint, db)
         else (Inr (), cleared\<lparr>db_codes := db_codes cleared @ rows\<rparr>))"

definition RecoveryCodeHashes :: "string \<Rightarrow> AuthStore \<Rightarrow> (string \<times> string) list" where
  "RecoveryCodeHashes i db =
     map (\<lambda>c. (rc_id c, rc_hash c)) (filter (\<lambda>c. rc_userID c = i \<and> rc_usedAt c = None) (db_codes db))"

definition UseRecoveryCode :: "string \<Rightarrow> time \<Rightarrow> AuthStore \<Rightarrow> (store_error + unit) \<times> AuthStore" where
  "UseRecoveryCode k at db =
     (if \<forall>c \<in> set (db_codes db). \<not> (rc_id c = k \<and> rc_usedAt c = None) then (Inl ErrNotFound, db)
      else (Inr (), db\<lparr>db_codes :=
              map (\<lambda>c. if rc_id c = k \<and> rc_usedAt c = None then c\<lparr>rc_usedAt := Some at\<rparr> else c) (db_codes db)\<rparr>))"

definition CountUnusedRecoveryCodes :: "string \<Rightarrow> AuthStore \<Rightarrow> nat" where
  "CountUnusedRecoveryCodes i db = length (RecoveryCodeHashes i db)"

end
