(* ===== verification/AuthService.thy ===== *)
theory AuthService
  imports AuthStore "HOL-Library.AList"
begin

unbundle bit_operations_syntax

text \<open>
  \<^verbatim>\<open>internal/auth\<close>: the attempt limiter, password sign-in, one-time codes, recovery codes, sessions,
  the request checks (\<^verbatim>\<open>service.go\<close>, \<^verbatim>\<open>totp.go\<close>, \<^verbatim>\<open>twofactor.go\<close>). Hashing, HMAC, base32,
  argon2 and the box that encrypts secrets are not modelled: the record \<open>Crypto\<close> holds them
  as functions. Times are in seconds.
\<close>

section \<open>Surroundings\<close>

record Crypto =
  cr_verify :: "string \<Rightarrow> string \<Rightarrow> bool option"
  cr_hmac :: "bytes \<Rightarrow> bytes \<Rightarrow> bytes"
  cr_base32 :: "string \<Rightarrow> bytes option"
  cr_open :: "string \<Rightarrow> string option"
  cr_sha :: "string \<Rightarrow> string"

record AuthConfig =
  ac_allowLocal :: bool
  ac_requireTwoFactor :: bool
  ac_trustProxyHeaders :: bool
  ac_sessionTTLHours :: int

datatype auth_error =
    ErrLocalLoginDisabled | ErrTooManyAttempts | ErrInvalidCredentials
  | ErrTwoFactorNotPending | ErrTwoFactorAlreadyOn | ErrInvalidTOTP | ErrRecoveryCodeInvalid
  | ErrBadSecret | ErrUnauthorized | ErrForbidden | ErrStore store_error

section \<open>The attempt limiter\<close>

record attemptLimiter =
  al_max :: nat
  al_window :: time
  al_entries :: "(string \<times> nat \<times> time) list"

definition newAttemptLimiter :: "nat \<Rightarrow> time \<Rightarrow> attemptLimiter" where
  "newAttemptLimiter mx window = \<lparr>al_max = mx, al_window = window, al_entries = []\<rparr>"

definition limiter_allow :: "time \<Rightarrow> string \<Rightarrow> attemptLimiter \<Rightarrow> bool \<times> attemptLimiter" where
  "limiter_allow now key l =
     (let es = filter (\<lambda>(k, n, start). \<not> now - start > al_window l) (al_entries l) in
      case map_of es key of
        None \<Rightarrow> (True, l\<lparr>al_entries := AList.update key (1, now) es\<rparr>)
      | Some (n, start) \<Rightarrow>
          if now - start > al_window l then (True, l\<lparr>al_entries := AList.update key (1, now) es\<rparr>)
          else (n + 1 \<le> al_max l, l\<lparr>al_entries := AList.update key (n + 1, start) es\<rparr>))"

definition limiter_reset :: "string \<Rightarrow> attemptLimiter \<Rightarrow> attemptLimiter" where
  "limiter_reset key l = l\<lparr>al_entries := AList.delete key (al_entries l)\<rparr>"

section \<open>One-time codes\<close>

definition totpDigits :: nat where "totpDigits = 6"
definition totpPeriod :: nat where "totpPeriod = 30"

definition to_upper :: "string \<Rightarrow> string" where
  "to_upper s = map (\<lambda>c. let n = (of_char c :: nat) in if 97 \<le> n \<and> n \<le> 122 then char_of (n - 32) else c) s"

fun big_endian :: "nat \<Rightarrow> nat \<Rightarrow> bytes" where
  "big_endian 0 n = []"
| "big_endian (Suc k) n = big_endian k (n div 256) @ [word_of_nat (n mod 256)]"

fun read_big_endian :: "nat \<Rightarrow> bytes \<Rightarrow> nat" where
  "read_big_endian acc [] = acc"
| "read_big_endian acc (b # bs) = read_big_endian (256 * acc + unat b) bs"

text \<open>\<^verbatim>\<open>fmt.Sprintf("%0*d", digits, n)\<close>.\<close>

fun pad_digits :: "nat \<Rightarrow> nat \<Rightarrow> string" where
  "pad_digits 0 n = []"
| "pad_digits (Suc k) n = pad_digits k (n div 10) @ [char_of (48 + n mod 10)]"

definition totpCode :: "Crypto \<Rightarrow> string \<Rightarrow> nat \<Rightarrow> auth_error + string" where
  "totpCode cr secret counter =
     (case cr_base32 cr (to_upper (trim_space secret)) of
        None \<Rightarrow> Inl ErrBadSecret
      | Some key \<Rightarrow>
          let sum = cr_hmac cr key (big_endian 8 counter);
              offset = unat (last sum AND 0x0F);
              value = read_big_endian 0 (take 4 (drop offset sum)) mod 2 ^ 31
          in Inr (pad_digits totpDigits (value mod 10 ^ totpDigits)))"

fun totp_loop :: "Crypto \<Rightarrow> string \<Rightarrow> string \<Rightarrow> nat list \<Rightarrow> auth_error + unit" where
  "totp_loop cr secret code [] = Inl ErrInvalidTOTP"
| "totp_loop cr secret code (c # cs) =
     (case totpCode cr secret c of
        Inl e \<Rightarrow> Inl e
      | Inr want \<Rightarrow> if want = code then Inr () else totp_loop cr secret code cs)"

text \<open>The steps either side of now that are accepted; the first is skipped at the epoch.\<close>

definition totp_steps :: "time \<Rightarrow> nat list" where
  "totp_steps now = (let c = nat now div totpPeriod in (if c < 1 then [] else [c - 1]) @ [c, c + 1])"

definition VerifyTOTP :: "Crypto \<Rightarrow> string \<Rightarrow> string \<Rightarrow> time \<Rightarrow> auth_error + unit" where
  "VerifyTOTP cr secret code now =
     (let code = trim_space code in
      if length code \<noteq> totpDigits then Inl ErrInvalidTOTP
      else totp_loop cr secret code (totp_steps now))"

section \<open>The service\<close>

record Service =
  sv_db :: AuthStore
  sv_limiter :: attemptLimiter

definition isAllDigits :: "string \<Rightarrow> bool" where
  "isAllDigits s \<longleftrightarrow> (\<forall>c \<in> set s. 48 \<le> (of_char c :: nat) \<and> (of_char c :: nat) \<le> 57) \<and> s \<noteq> []"

definition hashRecoveryCode :: "Crypto \<Rightarrow> string \<Rightarrow> string" where
  "hashRecoveryCode cr code =
     (let norm = to_lower (trim_space code);
          norm = filter (\<lambda>c. c \<noteq> CHR 0x2D) norm;
          norm = filter (\<lambda>c. c \<noteq> CHR 0x20) norm
      in cr_sha cr (''mqttview-recovery:'' @ norm))"

definition useRecoveryCode :: "Crypto \<Rightarrow> time \<Rightarrow> User \<Rightarrow> string \<Rightarrow> AuthStore \<Rightarrow> (auth_error + unit) \<times> AuthStore" where
  "useRecoveryCode cr now u code db =
     (case find (\<lambda>(k, h). h = hashRecoveryCode cr code) (rev (RecoveryCodeHashes (us_id u) db)) of
        None \<Rightarrow> (Inl ErrRecoveryCodeInvalid, db)
      | Some (k, h) \<Rightarrow>
          case UseRecoveryCode k now db of
            (Inl e, db) \<Rightarrow> (Inl ErrRecoveryCodeInvalid, db)
          | (Inr _, db) \<Rightarrow> (Inr (), db))"

definition VerifySecondFactor :: "Crypto \<Rightarrow> time \<Rightarrow> User \<Rightarrow> string \<Rightarrow> AuthStore \<Rightarrow> (auth_error + unit) \<times> AuthStore" where
  "VerifySecondFactor cr now u code db =
     (let code = trim_space code in
      if \<not> TwoFactorEnabled u then (Inl ErrTwoFactorNotPending, db)
      else if length code = totpDigits \<and> isAllDigits code then
        case cr_open cr (us_totpSecretEnc u) of
          None \<Rightarrow> (Inl ErrBadSecret, db)
        | Some secret \<Rightarrow> (VerifyTOTP cr secret code now, db)
      else useRecoveryCode cr now u code db)"

datatype login_result = LoginOK User | LoginTwoFactor User | LoginFailed auth_error

definition login_key :: "string \<Rightarrow> string \<Rightarrow> string" where
  "login_key email ip = to_lower (trim_space email) @ ''|'' @ ip"

definition touchLogin :: "time \<Rightarrow> User \<Rightarrow> Service \<Rightarrow> Service" where
  "touchLogin now u s = s\<lparr>sv_db := snd (TouchLogin now (us_id u) (sv_db s))\<rparr>"

definition Login :: "Crypto \<Rightarrow> AuthConfig \<Rightarrow> time \<Rightarrow> string \<Rightarrow> string \<Rightarrow> string \<Rightarrow> Service \<Rightarrow> login_result \<times> Service" where
  "Login cr cfg now email password ip s =
     (if \<not> ac_allowLocal cfg then (LoginFailed ErrLocalLoginDisabled, s)
      else
        let key = login_key email ip; (ok, l) = limiter_allow now key (sv_limiter s); s = s\<lparr>sv_limiter := l\<rparr> in
        if \<not> ok then (LoginFailed ErrTooManyAttempts, s)
        else case GetUserByEmail email (sv_db s) of
          Inl e \<Rightarrow> (LoginFailed ErrInvalidCredentials, s)
        | Inr u \<Rightarrow>
            if us_disabled u \<or> us_passwordHash u = [] then (LoginFailed ErrInvalidCredentials, s)
            else case cr_verify cr (us_passwordHash u) password of
              None \<Rightarrow> (LoginFailed ErrInvalidCredentials, s)
            | Some False \<Rightarrow> (LoginFailed ErrInvalidCredentials, s)
            | Some True \<Rightarrow>
                if TwoFactorEnabled u then (LoginTwoFactor u, s)
                else (LoginOK u, touchLogin now u (s\<lparr>sv_limiter := limiter_reset key (sv_limiter s)\<rparr>)))"

definition CompleteLogin :: "Crypto \<Rightarrow> AuthConfig \<Rightarrow> time \<Rightarrow> string \<Rightarrow> string \<Rightarrow> string \<Rightarrow> string \<Rightarrow> Service \<Rightarrow> (auth_error + User) \<times> Service" where
  "CompleteLogin cr cfg now email password code ip s =
     (case Login cr cfg now email password ip s of
        (LoginFailed e, s) \<Rightarrow> (Inl e, s)
      | (LoginOK u, s) \<Rightarrow> (Inr u, s)
      | (LoginTwoFactor u, s) \<Rightarrow>
          case VerifySecondFactor cr now u code (sv_db s) of
            (Inl e, db) \<Rightarrow> (Inl e, s\<lparr>sv_db := db\<rparr>)
          | (Inr _, db) \<Rightarrow>
              (Inr u, touchLogin now u (s\<lparr>sv_db := db, sv_limiter := limiter_reset (login_key email ip) (sv_limiter s)\<rparr>)))"

section \<open>Two-factor enrolment\<close>

definition TwoFactorRequired :: "AuthConfig \<Rightarrow> User \<Rightarrow> bool" where
  "TwoFactorRequired cfg u \<longleftrightarrow> ac_requireTwoFactor cfg \<and> us_provider u = ProviderLocal"

definition BeginTwoFactorEnrolment :: "string \<Rightarrow> User \<Rightarrow> AuthStore \<Rightarrow> (auth_error + unit) \<times> AuthStore" where
  "BeginTwoFactorEnrolment enc u db =
     (if TwoFactorEnabled u then (Inl ErrTwoFactorAlreadyOn, db) else (Inr (), SetTOTPSecret (us_id u) enc db))"

definition ConfirmTwoFactorEnrolment ::
    "Crypto \<Rightarrow> time \<Rightarrow> string list \<Rightarrow> string list \<Rightarrow> User \<Rightarrow> string \<Rightarrow> AuthStore \<Rightarrow> (auth_error + unit) \<times> AuthStore" where
  "ConfirmTwoFactorEnrolment cr now fresh codes u code db =
     (if TwoFactorEnabled u then (Inl ErrTwoFactorAlreadyOn, db)
      else if us_totpSecretEnc u = [] then (Inl ErrTwoFactorNotPending, db)
      else case cr_open cr (us_totpSecretEnc u) of
        None \<Rightarrow> (Inl ErrBadSecret, db)
      | Some secret \<Rightarrow>
          case VerifyTOTP cr secret code now of
            Inl e \<Rightarrow> (Inl e, db)
          | Inr _ \<Rightarrow>
              case ConfirmTOTP (us_id u) now db of
                (Inl e, db) \<Rightarrow> (Inl (ErrStore e), db)
              | (Inr _, db) \<Rightarrow>
                  case ReplaceRecoveryCodes fresh (us_id u) (map (hashRecoveryCode cr) codes) db of
                    (Inl e, db) \<Rightarrow> (Inl (ErrStore e), db)
                  | (Inr _, db) \<Rightarrow> (Inr (), db))"

definition RegenerateRecoveryCodes ::
    "Crypto \<Rightarrow> string list \<Rightarrow> string list \<Rightarrow> User \<Rightarrow> AuthStore \<Rightarrow> (auth_error + unit) \<times> AuthStore" where
  "RegenerateRecoveryCodes cr fresh codes u db =
     (if \<not> TwoFactorEnabled u then (Inl ErrTwoFactorNotPending, db)
      else case ReplaceRecoveryCodes fresh (us_id u) (map (hashRecoveryCode cr) codes) db of
        (Inl e, db) \<Rightarrow> (Inl (ErrStore e), db)
      | (Inr _, db) \<Rightarrow> (Inr (), db))"

section \<open>Sessions and requests\<close>

text \<open>What of an HTTP request the checks read; a missing header is the empty string.\<close>

record Request =
  rq_method :: string
  rq_sessionCookie :: "string option"
  rq_csrfCookie :: "string option"
  rq_csrfHeader :: string
  rq_forwardedFor :: string
  rq_remoteAddr :: string
  rq_userAgent :: string

text \<open>\<^verbatim>\<open>net.SplitHostPort\<close> is an argument.\<close>

definition ClientIP :: "(string \<Rightarrow> string option) \<Rightarrow> AuthConfig \<Rightarrow> Request \<Rightarrow> string" where
  "ClientIP splitHost cfg r =
     (if ac_trustProxyHeaders cfg \<and> rq_forwardedFor r \<noteq> []
      then trim_space (takeWhile (\<lambda>c. c \<noteq> CHR 0x2C) (rq_forwardedFor r))
      else case splitHost (rq_remoteAddr r) of None \<Rightarrow> rq_remoteAddr r | Some host \<Rightarrow> host)"

definition IssueSession ::
    "Crypto \<Rightarrow> AuthConfig \<Rightarrow> time \<Rightarrow> (string \<Rightarrow> string option) \<Rightarrow> string \<Rightarrow> Request \<Rightarrow> User \<Rightarrow> AuthStore \<Rightarrow> (auth_error + unit) \<times> AuthStore" where
  "IssueSession cr cfg now splitHost token r u db =
     (case CreateSession now \<lparr>ss_id = cr_sha cr token, ss_userID = us_id u, ss_createdAt = 0,
             ss_expiresAt = now + ac_sessionTTLHours cfg * 3600, ss_userAgent = take 255 (rq_userAgent r),
             ss_ip = ClientIP splitHost cfg r\<rparr> db of
        (Inl e, db) \<Rightarrow> (Inl (ErrStore e), db)
      | (Inr _, db) \<Rightarrow> (Inr (), db))"

definition Logout :: "Crypto \<Rightarrow> Request \<Rightarrow> AuthStore \<Rightarrow> AuthStore" where
  "Logout cr r db =
     (case rq_sessionCookie r of None \<Rightarrow> db | Some token \<Rightarrow> if token = [] then db else DeleteSession (cr_sha cr token) db)"

definition Authenticate :: "Crypto \<Rightarrow> time \<Rightarrow> Request \<Rightarrow> AuthStore \<Rightarrow> (auth_error + User) \<times> AuthStore" where
  "Authenticate cr now r db =
     (case rq_sessionCookie r of
        None \<Rightarrow> (Inl ErrUnauthorized, db)
      | Some token \<Rightarrow>
          if token = [] then (Inl ErrUnauthorized, db)
          else case SessionUser now (cr_sha cr token) db of
            (Inl e, db) \<Rightarrow> (Inl ErrUnauthorized, db)
          | (Inr (s, u), db) \<Rightarrow> (Inr u, db))"

definition RequireRole :: "Role \<Rightarrow> User option \<Rightarrow> auth_error + User" where
  "RequireRole mn u =
     (case u of None \<Rightarrow> Inl ErrUnauthorized
      | Some u \<Rightarrow> if \<not> AtLeast (us_role u) mn then Inl ErrForbidden else Inr u)"

definition CSRF :: "Request \<Rightarrow> bool" where
  "CSRF r \<longleftrightarrow>
     (if rq_method r \<in> {''GET'', ''HEAD'', ''OPTIONS''} then True
      else case rq_csrfCookie r of
        None \<Rightarrow> False
      | Some c \<Rightarrow> \<not> (c = [] \<or> rq_csrfHeader r = [] \<or> c \<noteq> rq_csrfHeader r))"


section \<open>The first account\<close>

definition ValidatePassword :: "string \<Rightarrow> bool" where
  "ValidatePassword password \<longleftrightarrow> \<not> length password < 10 \<and> \<not> length password > 1024"

text \<open>\<^verbatim>\<open>hash\<close> is argon2id with a fresh salt.\<close>

definition HashPassword :: "(string \<Rightarrow> string) \<Rightarrow> string \<Rightarrow> string option" where
  "HashPassword hash password = (if ValidatePassword password then Some (hash password) else None)"

definition BootstrapAdmin ::
    "(string \<Rightarrow> string) \<Rightarrow> time \<Rightarrow> string \<Rightarrow> string \<Rightarrow> string \<Rightarrow> string \<Rightarrow> AuthStore \<Rightarrow>
       (auth_error + bool \<times> string) \<times> AuthStore" where
  "BootstrapAdmin hash now fresh token email password db =
     (if CountUsers db > 0 then (Inr (False, []), db)
      else
        let email = (if email = [] then ''admin@localhost'' else email);
            generated = (if password = [] then token else []);
            password = (if password = [] then token else password)
        in case HashPassword hash password of
             None \<Rightarrow> (Inl ErrBadSecret, db)
           | Some h \<Rightarrow>
               case CreateUser now \<lparr>us_id = fresh, us_email = email, us_name = ''Administrator'',
                      us_passwordHash = h, us_role = RoleAdmin, us_provider = ProviderLocal,
                      us_providerSubject = [], us_disabled = False, us_createdAt = 0, us_lastLoginAt = None,
                      us_totpSecretEnc = [], us_totpConfirmedAt = None\<rparr> db of
                 (Inl e, db) \<Rightarrow> (Inl (ErrStore e), db)
               | (Inr u, db) \<Rightarrow> (Inr (True, generated), db))"

end
