(* ===== verification/AuthApi.thy ===== *)
theory AuthApi
  imports AuthService
begin

text \<open>
  The account handlers of the HTTP interface (\<^verbatim>\<open>internal/api/users.go\<close>, \<^verbatim>\<open>internal/api/auth.go\<close>), the sign-in of
  a Home Assistant identity (\<^verbatim>\<open>internal/auth/ingress.go\<close>) and of a federated one (\<^verbatim>\<open>internal/auth/oidc.go\<close>,
  \<^verbatim>\<open>saml.go\<close>). A handler is a function from the request and the tables to the status it answers
  with and the tables it leaves; a body that is not JSON is \<^verbatim>\<open>None\<close>. The address parser of the mail
  library and the password hash are arguments.
\<close>

section \<open>Managing accounts\<close>

record userRequest =
  ur_email :: string
  ur_name :: string
  ur_role :: Role
  ur_password :: string
  ur_disabled :: bool

definition blank_user :: User where
  "blank_user = \<lparr>us_id = [], us_email = [], us_name = [], us_passwordHash = [], us_role = [], us_provider = [],
     us_providerSubject = [], us_disabled = False, us_createdAt = 0, us_lastLoginAt = None, us_totpSecretEnc = [],
     us_totpConfirmedAt = None\<rparr>"

definition ValidEmail :: "(string \<Rightarrow> string option) \<Rightarrow> string \<Rightarrow> bool" where
  "ValidEmail parseAddress email \<longleftrightarrow> parseAddress (NormalizeEmail email) = Some (NormalizeEmail email)"

text \<open>How a failed insert or update is answered.\<close>

definition write_status :: "store_error \<Rightarrow> nat" where
  "write_status e = (if e = ErrConflict then 409 else 500)"

definition handleCreateUser ::
    "(string \<Rightarrow> string option) \<Rightarrow> (string \<Rightarrow> string) \<Rightarrow> time \<Rightarrow> string \<Rightarrow> userRequest option \<Rightarrow> AuthStore \<Rightarrow> nat \<times> AuthStore" where
  "handleCreateUser parseAddress hash now fresh req db =
     (case req of
        None \<Rightarrow> (400, db)
      | Some req \<Rightarrow>
          if \<not> ValidEmail parseAddress (ur_email req) then (400, db)
          else if NormalizeEmail (ur_email req) = [] then (400, db)
          else
            let role = (if ur_role req = [] then RoleViewer else ur_role req) in
            if \<not> ValidRole role then (400, db)
            else case (if ur_password req = [] then Some [] else HashPassword hash (ur_password req)) of
              None \<Rightarrow> (400, db)
            | Some h \<Rightarrow>
                case CreateUser now (blank_user\<lparr>us_id := fresh, us_email := ur_email req, us_name := ur_name req,
                       us_role := role, us_passwordHash := h, us_provider := ''local''\<rparr>) db of
                  (Inl e, db) \<Rightarrow> (write_status e, db)
                | (Inr u, db) \<Rightarrow> (201, db))"

definition handleUpdateUser ::
    "(string \<Rightarrow> string option) \<Rightarrow> User \<Rightarrow> string \<Rightarrow> userRequest option \<Rightarrow> AuthStore \<Rightarrow> nat \<times> AuthStore" where
  "handleUpdateUser parseAddress actor i req db =
     (case req of
        None \<Rightarrow> (400, db)
      | Some req \<Rightarrow>
          if \<not> ValidRole (ur_role req) then (400, db)
          else case GetUser i db of
            Inl e \<Rightarrow> (404, db)
          | Inr existing \<Rightarrow>
              let losingAdmin = us_role existing = RoleAdmin \<and> \<not> us_disabled existing \<and>
                    (ur_role req \<noteq> RoleAdmin \<or> ur_disabled req)
              in if losingAdmin \<and> CountAdmins db \<le> 1 then (409, db)
                 else if us_id actor = i \<and> ur_disabled req then (409, db)
                 else if \<not> ValidEmail parseAddress (ur_email req) then (400, db)
                 else
                   case UpdateUser (existing\<lparr>us_email := ur_email req, us_name := ur_name req, us_role := ur_role req,
                          us_disabled := ur_disabled req\<rparr>) db of
                     (Inl e, db) \<Rightarrow> (write_status e, db)
                   | (Inr _, db) \<Rightarrow> (200, if ur_disabled req then DeleteUserSessions i db else db))"

definition handleResetPassword ::
    "(string \<Rightarrow> string) \<Rightarrow> string \<Rightarrow> string option \<Rightarrow> AuthStore \<Rightarrow> nat \<times> AuthStore" where
  "handleResetPassword hash i req db =
     (case req of
        None \<Rightarrow> (400, db)
      | Some password \<Rightarrow>
          case HashPassword hash password of
            None \<Rightarrow> (400, db)
          | Some h \<Rightarrow>
              case SetPasswordHash i h db of
                (Inl e, db) \<Rightarrow> (if e = ErrNotFound then 404 else 500, db)
              | (Inr _, db) \<Rightarrow> (200, DeleteUserSessions i db))"

definition handleDeleteUser :: "User \<Rightarrow> string \<Rightarrow> AuthStore \<Rightarrow> nat \<times> AuthStore" where
  "handleDeleteUser actor i db =
     (if us_id actor = i then (409, db)
      else case GetUser i db of
        Inl e \<Rightarrow> (404, db)
      | Inr existing \<Rightarrow>
          if us_role existing = RoleAdmin \<and> \<not> us_disabled existing \<and> CountAdmins db \<le> 1 then (409, db)
          else case DeleteUser i db of
            (Inl e, db) \<Rightarrow> (500, db)
          | (Inr _, db) \<Rightarrow> (204, db))"

definition handleClearTwoFactor :: "User option \<Rightarrow> string \<Rightarrow> AuthStore \<Rightarrow> nat \<times> AuthStore" where
  "handleClearTwoFactor actor i db =
     (case actor of
        None \<Rightarrow> (401, db)
      | Some _ \<Rightarrow>
          case GetUser i db of
            Inl e \<Rightarrow> (404, db)
          | Inr target \<Rightarrow> (200, DisableTOTP (us_id target) db))"

section \<open>A person's own account\<close>

text \<open>\<^verbatim>\<open>handleLogin\<close>. A limiter that refuses and every unexpected error answer 429.\<close>

definition login_status :: "auth_error \<Rightarrow> nat" where
  "login_status e =
     (case e of
        ErrLocalLoginDisabled \<Rightarrow> 403
      | ErrInvalidTOTP \<Rightarrow> 401
      | ErrRecoveryCodeInvalid \<Rightarrow> 401
      | ErrInvalidCredentials \<Rightarrow> 401
      | _ \<Rightarrow> 429)"

record loginRequest =
  lr_email :: string
  lr_password :: string
  lr_code :: string

definition handleLogin ::
    "Crypto \<Rightarrow> AuthConfig \<Rightarrow> time \<Rightarrow> (string \<Rightarrow> string option) \<Rightarrow> string \<Rightarrow> Request \<Rightarrow> loginRequest option \<Rightarrow> Service \<Rightarrow> nat \<times> Service" where
  "handleLogin cr cfg now splitHost token r req s =
     (case req of
        None \<Rightarrow> (400, s)
      | Some req \<Rightarrow>
          case CompleteLogin cr cfg now (lr_email req) (lr_password req) (lr_code req) (ClientIP splitHost cfg r) s of
            (Inl e, s) \<Rightarrow> (login_status e, s)
          | (Inr u, s) \<Rightarrow>
              case IssueSession cr cfg now splitHost token r u (sv_db s) of
                (Inl e, db) \<Rightarrow> (500, s\<lparr>sv_db := db\<rparr>)
              | (Inr _, db) \<Rightarrow> (200, s\<lparr>sv_db := db\<rparr>))"

definition handleLogout :: "Crypto \<Rightarrow> Request \<Rightarrow> AuthStore \<Rightarrow> nat \<times> AuthStore" where
  "handleLogout cr r db = (200, Logout cr r db)"

definition handleChangePassword ::
    "Crypto \<Rightarrow> AuthConfig \<Rightarrow> (string \<Rightarrow> string) \<Rightarrow> time \<Rightarrow> (string \<Rightarrow> string option) \<Rightarrow> string \<Rightarrow> Request \<Rightarrow> User \<Rightarrow>
       (string \<times> string) option \<Rightarrow> AuthStore \<Rightarrow> nat \<times> AuthStore" where
  "handleChangePassword cr cfg hash now splitHost token r u req db =
     (case req of
        None \<Rightarrow> (400, db)
      | Some (current, new) \<Rightarrow>
          if us_passwordHash u = [] then (409, db)
          else if cr_verify cr (us_passwordHash u) current \<noteq> Some True then (401, db)
          else case HashPassword hash new of
            None \<Rightarrow> (400, db)
          | Some h \<Rightarrow>
              case SetPasswordHash (us_id u) h db of
                (Inl e, db) \<Rightarrow> (500, db)
              | (Inr _, db) \<Rightarrow> (200, snd (IssueSession cr cfg now splitHost token r u (DeleteUserSessions (us_id u) db))))"

definition handleTwoFactorEnrol :: "string \<Rightarrow> User \<Rightarrow> AuthStore \<Rightarrow> nat \<times> AuthStore" where
  "handleTwoFactorEnrol enc u db =
     (case BeginTwoFactorEnrolment enc u db of
        (Inl e, db) \<Rightarrow> (if e = ErrTwoFactorAlreadyOn then 409 else 500, db)
      | (Inr _, db) \<Rightarrow> (200, db))"

definition handleTwoFactorConfirm ::
    "Crypto \<Rightarrow> time \<Rightarrow> string list \<Rightarrow> string list \<Rightarrow> User \<Rightarrow> string option \<Rightarrow> AuthStore \<Rightarrow> nat \<times> AuthStore" where
  "handleTwoFactorConfirm cr now fresh codes u req db =
     (case req of
        None \<Rightarrow> (400, db)
      | Some code \<Rightarrow>
          case ConfirmTwoFactorEnrolment cr now fresh codes u code db of
            (Inl e, db) \<Rightarrow>
              (case e of ErrInvalidTOTP \<Rightarrow> 401 | ErrTwoFactorNotPending \<Rightarrow> 409 | ErrTwoFactorAlreadyOn \<Rightarrow> 409 | _ \<Rightarrow> 500, db)
          | (Inr _, db) \<Rightarrow> (200, db))"

definition handleTwoFactorDisable ::
    "Crypto \<Rightarrow> AuthConfig \<Rightarrow> time \<Rightarrow> string \<Rightarrow> User \<Rightarrow> (string \<times> string) option \<Rightarrow> Service \<Rightarrow> nat \<times> Service" where
  "handleTwoFactorDisable cr cfg now ip u req s =
     (if TwoFactorRequired cfg u then (403, s)
      else case req of
        None \<Rightarrow> (400, s)
      | Some (password, code) \<Rightarrow>
          case CompleteLogin cr cfg now (us_email u) password code ip s of
            (Inl e, s) \<Rightarrow> (401, s)
          | (Inr _, s) \<Rightarrow> (200, s\<lparr>sv_db := DisableTOTP (us_id u) (sv_db s)\<rparr>))"

definition handleRegenerateRecoveryCodes ::
    "Crypto \<Rightarrow> time \<Rightarrow> string list \<Rightarrow> string list \<Rightarrow> User \<Rightarrow> string option \<Rightarrow> AuthStore \<Rightarrow> nat \<times> AuthStore" where
  "handleRegenerateRecoveryCodes cr now fresh codes u req db =
     (case req of
        None \<Rightarrow> (400, db)
      | Some code \<Rightarrow>
          case VerifySecondFactor cr now u code db of
            (Inl e, db) \<Rightarrow> (401, db)
          | (Inr _, db) \<Rightarrow>
              case RegenerateRecoveryCodes cr fresh codes u db of
                (Inl e, db) \<Rightarrow> (500, db)
              | (Inr _, db) \<Rightarrow> (200, db))"

end
