(* ===== verification/Identity.thy ===== *)
theory Identity
  imports AuthService
begin

text \<open>
  Who a request speaks for when no password is involved: the Home Assistant identity headers
  (\<^verbatim>\<open>internal/auth/ingress.go\<close>) and an identity provider's answer (\<^verbatim>\<open>internal/auth/oidc.go\<close>,
  \<^verbatim>\<open>saml.go\<close>), and the account each is mapped to. Parsing addresses and networks, opening sealed
  cookies, the token exchange and the verification of tokens and assertions are arguments.
\<close>

definition equal_fold :: "string \<Rightarrow> string \<Rightarrow> bool" where
  "equal_fold s t \<longleftrightarrow> to_lower s = to_lower t"

definition trim_chars :: "string \<Rightarrow> string \<Rightarrow> string" where
  "trim_chars cs s = rev (dropWhile (\<lambda>c. c \<in> set cs) (rev (dropWhile (\<lambda>c. c \<in> set cs) s)))"

section \<open>Home Assistant\<close>

definition ingressProvider :: string where "ingressProvider = ''homeassistant''"
definition ingressEmailDomain :: string where "ingressEmailDomain = ''homeassistant.local''"

record IngressConfig =
  ic_trustedProxies :: "string list"
  ic_fallbackUser :: string
  ic_adminUsers :: "string list"
  ic_defaultRole :: string

record ingressIdentity =
  ii_subject :: string
  ii_username :: string
  ii_displayName :: string

record 'ip Net =
  nt_splitHost :: "string \<Rightarrow> string option"
  nt_parseIP :: "string \<Rightarrow> 'ip option"
  nt_parseCIDR :: "string \<Rightarrow> ('ip \<Rightarrow> bool) option"

fun trusted_loop :: "'ip Net \<Rightarrow> 'ip \<Rightarrow> string list \<Rightarrow> bool" where
  "trusted_loop net ip [] = False"
| "trusted_loop net ip (t # ts) =
     (case nt_parseCIDR net t of
        Some contains \<Rightarrow> if contains ip then True else trusted_loop net ip ts
      | None \<Rightarrow> if nt_parseIP net t = Some ip then True else trusted_loop net ip ts)"

definition checkIngressSource :: "'ip Net \<Rightarrow> IngressConfig \<Rightarrow> string \<Rightarrow> bool" where
  "checkIngressSource net cfg remoteAddr =
     (let host = (case nt_splitHost net remoteAddr of None \<Rightarrow> remoteAddr | Some h \<Rightarrow> h) in
      case nt_parseIP net (trim_chars ''[]'' host) of
        None \<Rightarrow> False
      | Some ip \<Rightarrow> trusted_loop net ip (ic_trustedProxies cfg))"

definition ingressIdentityOf :: "IngressConfig \<Rightarrow> string \<Rightarrow> string \<Rightarrow> string \<Rightarrow> ingressIdentity option" where
  "ingressIdentityOf cfg userID userName display =
     (let i = \<lparr>ii_subject = trim_space userID, ii_username = trim_space userName, ii_displayName = trim_space display\<rparr>;
          i = (if ii_subject i = [] then i\<lparr>ii_subject := ii_username i\<rparr> else i)
      in if ii_subject i \<noteq> [] then Some i
         else if ic_fallbackUser cfg \<noteq> []
         then Some \<lparr>ii_subject = ''fallback:'' @ ic_fallbackUser cfg, ii_username = ic_fallbackUser cfg,
                    ii_displayName = ic_fallbackUser cfg\<rparr>
         else None)"

fun admin_loop :: "ingressIdentity \<Rightarrow> string list \<Rightarrow> bool" where
  "admin_loop i [] = False"
| "admin_loop i (a # as) =
     (if trim_space a = [] then admin_loop i as
      else if equal_fold (trim_space a) (ii_subject i) \<or> equal_fold (trim_space a) (ii_username i) then True
      else admin_loop i as)"

definition ingressRoleFor :: "IngressConfig \<Rightarrow> ingressIdentity \<Rightarrow> Role" where
  "ingressRoleFor cfg i =
     (if admin_loop i (ic_adminUsers cfg) then RoleAdmin
      else if \<not> ValidRole (ic_defaultRole cfg) then RoleViewer else ic_defaultRole cfg)"

text \<open>The runes a Go \<^verbatim>\<open>range\<close> loop sees: a byte that starts no rune is U+FFFD.\<close>

function go_runes :: "nat list \<Rightarrow> nat list" where
  "go_runes bs =
     (if bs = [] then []
      else case decode_rune bs of
        None \<Rightarrow> 0xFFFD # go_runes (drop 1 bs)
      | Some (r, rest) \<Rightarrow> r # go_runes rest)"
  by pat_completeness auto
termination
  by (relation "measure length") (auto dest: decode_rune_shorter)

declare go_runes.simps [simp del]

definition email_rune :: "nat \<Rightarrow> char" where
  "email_rune r =
     (if 97 \<le> r \<and> r \<le> 122 \<or> 48 \<le> r \<and> r \<le> 57 \<or> r = 46 \<or> r = 45 \<or> r = 95 then char_of r else CHR 0x2D)"

definition sanitizeEmailLocal :: "string \<Rightarrow> string" where
  "sanitizeEmailLocal s = trim_chars ''-.'' (map email_rune (go_runes (map of_char (to_lower s))))"

definition ingressEmail :: "ingressIdentity \<Rightarrow> string" where
  "ingressEmail i =
     (let local = sanitizeEmailLocal (trim_prefix ''fallback:'' (ii_subject i));
          local = (if local = [] then ''user'' else local)
      in local @ ''@'' @ ingressEmailDomain)"

datatype identity_error =
    ErrNotFromProxy | ErrNoIdentity | ErrDisabled | ErrLinkedElsewhere | ErrNoSignup | ErrIdentityStore store_error

text \<open>The role is derived anew on each request, except that the last administrator keeps it.\<close>

definition resolveIngressUser ::
    "IngressConfig \<Rightarrow> time \<Rightarrow> string \<Rightarrow> ingressIdentity \<Rightarrow> AuthStore \<Rightarrow> (identity_error + User) \<times> AuthStore" where
  "resolveIngressUser cfg now fresh i db =
     (let role = (if CountAdmins db = 0 then RoleAdmin else ingressRoleFor cfg i) in
      case GetUserByProviderSubject ingressProvider (ii_subject i) db of
        Inr u \<Rightarrow>
          if us_disabled u then (Inl ErrDisabled, db)
          else if us_role u \<noteq> role then
            if us_role u = RoleAdmin \<and> role \<noteq> RoleAdmin \<and> CountAdmins db \<le> 1 then (Inr u, db)
            else case UpdateUser (u\<lparr>us_role := role\<rparr>) db of
              (Inl e, db) \<Rightarrow> (Inl (ErrIdentityStore e), db)
            | (Inr _, db) \<Rightarrow> (Inr (u\<lparr>us_role := role\<rparr>), db)
          else (Inr u, db)
      | Inl e \<Rightarrow>
          let name = (if ii_displayName i = [] then ii_username i else ii_displayName i);
              name = (if name = [] then ''Home Assistant user'' else name)
          in case CreateUser now \<lparr>us_id = fresh, us_email = ingressEmail i, us_name = name, us_passwordHash = [],
                    us_role = role, us_provider = ingressProvider, us_providerSubject = ii_subject i, us_disabled = False,
                    us_createdAt = 0, us_lastLoginAt = None, us_totpSecretEnc = [], us_totpConfirmedAt = None\<rparr> db of
               (Inl e, db) \<Rightarrow> (Inl (ErrIdentityStore e), db)
             | (Inr u, db) \<Rightarrow> (Inr u, db))"

definition AuthenticateIngress ::
    "'ip Net \<Rightarrow> IngressConfig \<Rightarrow> time \<Rightarrow> string \<Rightarrow> string \<Rightarrow> string \<Rightarrow> string \<Rightarrow> string \<Rightarrow> AuthStore \<Rightarrow> (identity_error + User) \<times> AuthStore" where
  "AuthenticateIngress net cfg now fresh remoteAddr userID userName display db =
     (if \<not> checkIngressSource net cfg remoteAddr then (Inl ErrNotFromProxy, db)
      else case ingressIdentityOf cfg userID userName display of
        None \<Rightarrow> (Inl ErrNoIdentity, db)
      | Some i \<Rightarrow> resolveIngressUser cfg now fresh i db)"

text \<open>The prefix the panel is served under: segments of a fixed alphabet, each after one slash.\<close>

definition path_char :: "char \<Rightarrow> bool" where
  "path_char c \<longleftrightarrow> (let n = (of_char c :: nat) in
     65 \<le> n \<and> n \<le> 90 \<or> 97 \<le> n \<and> n \<le> 122 \<or> 48 \<le> n \<and> n \<le> 57 \<or> c \<in> set ''._~-'')"

definition path_segment :: "string \<Rightarrow> bool" where
  "path_segment s \<longleftrightarrow> s \<noteq> [] \<and> (\<forall>c \<in> set s. path_char c)"

text \<open>\<^verbatim>\<open>^(/[A-Za-z0-9._~-]+)+/?$\<close>, on the parts between the slashes.\<close>

definition ingress_path_matches :: "string \<Rightarrow> bool" where
  "ingress_path_matches raw =
     (case split_on (CHR 0x2F) raw of
        p # ps \<Rightarrow> p = [] \<and> (let qs = (if ps \<noteq> [] \<and> last ps = [] then butlast ps else ps) in qs \<noteq> [] \<and> list_all path_segment qs)
      | [] \<Rightarrow> False)"

definition IngressPath :: "string \<Rightarrow> string" where
  "IngressPath raw =
     (if \<not> ingress_path_matches raw then [] else rev (dropWhile (\<lambda>c. c = CHR 0x2F) (rev raw)))"

text \<open>The double-submit check of this mode; the second component is whether a fresh cookie is set.\<close>

definition IngressCSRF :: "Request \<Rightarrow> bool \<times> bool" where
  "IngressCSRF r =
     (if rq_method r \<in> {''GET'', ''HEAD'', ''OPTIONS''} then (True, rq_csrfCookie r = None) else (CSRF r, False))"

section \<open>Identity providers\<close>

definition cut_at :: "string \<Rightarrow> string \<times> string" where
  "cut_at s = (takeWhile (\<lambda>c. c \<noteq> CHR 0x40) s, drop 1 (dropWhile (\<lambda>c. c \<noteq> CHR 0x40) s))"

definition resolveFederatedUser ::
    "bool \<Rightarrow> time \<Rightarrow> string \<Rightarrow> string \<Rightarrow> string \<Rightarrow> string \<Rightarrow> string \<Rightarrow> string list \<Rightarrow> AuthStore \<Rightarrow> (identity_error + User) \<times> AuthStore" where
  "resolveFederatedUser allowSignup now fresh providerID subject email name adminEmails db =
     (case GetUserByProviderSubject providerID subject db of
        Inr u \<Rightarrow> if us_disabled u then (Inl ErrDisabled, db) else (Inr u, db)
      | Inl e \<Rightarrow>
          case GetUserByEmail email db of
            Inr u \<Rightarrow>
              if us_disabled u then (Inl ErrDisabled, db)
              else if us_providerSubject u \<noteq> [] \<and> us_providerSubject u \<noteq> subject then (Inl ErrLinkedElsewhere, db)
              else (case LinkProvider (us_id u) providerID subject db of
                      (Inl e, db) \<Rightarrow> (Inl (ErrIdentityStore e), db)
                    | (Inr _, db) \<Rightarrow> (Inr (u\<lparr>us_provider := providerID, us_providerSubject := subject\<rparr>), db))
          | Inl e \<Rightarrow>
              if \<not> allowSignup then (Inl ErrNoSignup, db)
              else
                let role = (if \<exists>a \<in> set adminEmails. NormalizeEmail a = email then RoleAdmin else RoleViewer);
                    name = (if name = [] then fst (cut_at email) else name)
                in case CreateUser now \<lparr>us_id = fresh, us_email = email, us_name = name, us_passwordHash = [],
                          us_role = role, us_provider = providerID, us_providerSubject = subject, us_disabled = False,
                          us_createdAt = 0, us_lastLoginAt = None, us_totpSecretEnc = [], us_totpConfirmedAt = None\<rparr> db of
                     (Inl e, db) \<Rightarrow> (Inl (ErrIdentityStore e), db)
                   | (Inr u, db) \<Rightarrow> (Inr u, db))"

definition checkDomain :: "string \<Rightarrow> string list \<Rightarrow> bool" where
  "checkDomain email allowed \<longleftrightarrow>
     allowed = [] \<or> (\<exists>d \<in> set allowed. equal_fold (trim_space d) (snd (cut_at email)))"

definition sanitizeNext :: "string \<Rightarrow> string" where
  "sanitizeNext path =
     (if path = [] \<or> \<not> prefix ''/'' path \<or> prefix ''//'' path then ''/'' else path)"

section \<open>The provider's answer\<close>

datatype sso_error =
    ErrStateMissing | ErrStateMalformed | ErrStateSealed | ErrTooLong | ErrOtherProvider | ErrStateMismatch
  | ErrRejected | ErrNoCode | ErrProvider | ErrExchange | ErrIDToken | ErrNonce | ErrNoSubject | ErrNoEmail
  | ErrUnverified | ErrDomain | ErrAssertion | ErrIdentity identity_error | ErrSession auth_error

record oidcState =
  os_provider :: string
  os_state :: string
  os_nonce :: string
  os_verifier :: string
  os_next :: string
  os_expires :: time

record samlState =
  sa_provider :: string
  sa_requestID :: string
  sa_next :: string
  sa_expires :: time

record claims =
  cl_subject :: string
  cl_email :: string
  cl_emailVerified :: "bool option"
  cl_name :: string

record providerConfig =
  pv_allowedDomains :: "string list"
  pv_adminEmails :: "string list"
  pv_emailAttribute :: string
  pv_nameAttribute :: string

text \<open>
  What the flow calls: decoding and opening the state cookie, the configured providers, the exchange of a
  code (with its verifier) for a raw ID token, and the verification of a token, which gives its nonce
  and claims. The state is what \<^verbatim>\<open>StartSSO\<close> sealed.
\<close>

record OIDC =
  oi_decode :: "string \<Rightarrow> string option"
  oi_unseal :: "string \<Rightarrow> string option"
  oi_state :: "string \<Rightarrow> oidcState option"
  oi_provider :: "string \<Rightarrow> providerConfig option"
  oi_exchange :: "string \<Rightarrow> string \<Rightarrow> string \<Rightarrow> string option"
  oi_verify :: "string \<Rightarrow> string \<Rightarrow> (string \<times> claims) option"

record Callback =
  cb_stateCookie :: "string option"
  cb_state :: string
  cb_error :: string
  cb_code :: string

definition StartSSO :: "string \<Rightarrow> string \<Rightarrow> string \<Rightarrow> string \<Rightarrow> string \<Rightarrow> time \<Rightarrow> oidcState" where
  "StartSSO provider state nonce verifier path now =
     \<lparr>os_provider = provider, os_state = state, os_nonce = nonce, os_verifier = verifier,
      os_next = sanitizeNext path, os_expires = now + 600\<rparr>"

text \<open>The cookie, the state it holds and the checks before the provider is asked anything.\<close>

definition callback_state :: "OIDC \<Rightarrow> time \<Rightarrow> string \<Rightarrow> Callback \<Rightarrow> sso_error + oidcState" where
  "callback_state oi now provider cb =
     (case cb_stateCookie cb of
        None \<Rightarrow> Inl ErrStateMissing
      | Some c \<Rightarrow>
          case oi_decode oi c of
            None \<Rightarrow> Inl ErrStateMalformed
          | Some sealed \<Rightarrow>
              case oi_unseal oi sealed of
                None \<Rightarrow> Inl ErrStateSealed
              | Some plain \<Rightarrow>
                  case oi_state oi plain of
                    None \<Rightarrow> Inl ErrStateMalformed
                  | Some st \<Rightarrow>
                      if now > os_expires st then Inl ErrTooLong
                      else if os_provider st \<noteq> provider then Inl ErrOtherProvider
                      else if cb_state cb = [] \<or> cb_state cb \<noteq> os_state st then Inl ErrStateMismatch
                      else if cb_error cb \<noteq> [] then Inl ErrRejected
                      else if cb_code cb = [] then Inl ErrNoCode
                      else Inr st)"

text \<open>The provider's answer, from the code to an identity it vouches for.\<close>

definition verified_claims :: "OIDC \<Rightarrow> string \<Rightarrow> oidcState \<Rightarrow> string \<Rightarrow> sso_error + providerConfig \<times> claims" where
  "verified_claims oi provider st code =
     (case oi_provider oi provider of
        None \<Rightarrow> Inl ErrProvider
      | Some pc \<Rightarrow>
          case oi_exchange oi provider code (os_verifier st) of
            None \<Rightarrow> Inl ErrExchange
          | Some raw \<Rightarrow>
              if raw = [] then Inl ErrExchange
              else case oi_verify oi provider raw of
                None \<Rightarrow> Inl ErrIDToken
              | Some (nonce, cl) \<Rightarrow>
                  if nonce \<noteq> os_nonce st then Inl ErrNonce
                  else if cl_subject cl = [] then Inl ErrNoSubject
                  else if NormalizeEmail (cl_email cl) = [] then Inl ErrNoEmail
                  else if cl_emailVerified cl \<noteq> Some True then Inl ErrUnverified
                  else if \<not> checkDomain (NormalizeEmail (cl_email cl)) (pv_allowedDomains pc) then Inl ErrDomain
                  else Inr (pc, cl))"

text \<open>The account, its login time and its session; the end both protocols share.\<close>

record Signin =
  sg_crypto :: Crypto
  sg_config :: AuthConfig
  sg_allowSignup :: bool
  sg_splitHost :: "string \<Rightarrow> string option"
  sg_freshID :: string
  sg_token :: string

definition finish_signin ::
    "Signin \<Rightarrow> time \<Rightarrow> Request \<Rightarrow> string \<Rightarrow> string \<Rightarrow> string \<Rightarrow> string \<Rightarrow> string list \<Rightarrow> string \<Rightarrow> AuthStore \<Rightarrow>
       (sso_error + User \<times> string) \<times> AuthStore" where
  "finish_signin sg now r provider subject email name adminEmails path db =
     (case resolveFederatedUser (sg_allowSignup sg) now (sg_freshID sg) provider subject email name adminEmails db of
        (Inl e, db) \<Rightarrow> (Inl (ErrIdentity e), db)
      | (Inr u, db) \<Rightarrow>
          let db = snd (TouchLogin now (us_id u) db) in
          case IssueSession (sg_crypto sg) (sg_config sg) now (sg_splitHost sg) (sg_token sg) r u db of
            (Inl e, db) \<Rightarrow> (Inl (ErrSession e), db)
          | (Inr _, db) \<Rightarrow> (Inr (u, if path = [] then ''/'' else path), db))"

definition CompleteSSO ::
    "OIDC \<Rightarrow> Signin \<Rightarrow> time \<Rightarrow> string \<Rightarrow> Callback \<Rightarrow> Request \<Rightarrow> AuthStore \<Rightarrow> (sso_error + User \<times> string) \<times> AuthStore" where
  "CompleteSSO oi sg now provider cb r db =
     (case callback_state oi now provider cb of
        Inl e \<Rightarrow> (Inl e, db)
      | Inr st \<Rightarrow>
          case verified_claims oi provider st (cb_code cb) of
            Inl e \<Rightarrow> (Inl e, db)
          | Inr (pc, cl) \<Rightarrow>
              finish_signin sg now r provider (cl_subject cl) (NormalizeEmail (cl_email cl)) (cl_name cl)
                (pv_adminEmails pc) (os_next st) db)"

section \<open>Assertions\<close>

text \<open>An attribute: its name, its friendly name and its values; the subject's NameID where there is one.\<close>

type_synonym saml_attribute = "string \<times> string \<times> string list"

record Assertion =
  as_nameID :: "string option"
  as_attributes :: "saml_attribute list"

definition put_attribute :: "saml_attribute \<Rightarrow> (string \<rightharpoonup> string) \<Rightarrow> (string \<rightharpoonup> string)" where
  "put_attribute a m =
     (case a of (name, friendly, values) \<Rightarrow>
        (case find (\<lambda>v. v \<noteq> []) values of
           None \<Rightarrow> m
         | Some v \<Rightarrow>
             let m = (if name = [] then m else m(name \<mapsto> v)) in
             if friendly = [] then m else m(friendly \<mapsto> v)))"

definition emailAttributeNames :: "string list" where
  "emailAttributeNames =
     [''urn:oid:0.9.2342.19200300.100.1.3'', ''http://schemas.xmlsoap.org/ws/2005/05/identity/claims/emailaddress'',
      ''email'', ''mail'', ''emailAddress'', ''Email'', ''urn:oasis:names:tc:SAML:attribute:subject-id'']"

definition nameAttributeNames :: "string list" where
  "nameAttributeNames =
     [''urn:oid:2.16.840.1.113730.3.1.241'', ''http://schemas.xmlsoap.org/ws/2005/05/identity/claims/name'',
      ''displayName'', ''name'', ''cn'', ''givenName'']"

definition attribute :: "(string \<rightharpoonup> string) \<Rightarrow> string \<Rightarrow> string" where
  "attribute attrs k = (case attrs k of None \<Rightarrow> [] | Some v \<Rightarrow> trim_space v)"

definition pickAttribute :: "(string \<rightharpoonup> string) \<Rightarrow> string \<Rightarrow> string list \<Rightarrow> string" where
  "pickAttribute attrs configured candidates =
     (if configured \<noteq> [] then attribute attrs configured
      else case find (\<lambda>v. v \<noteq> []) (map (attribute attrs) candidates) of None \<Rightarrow> [] | Some v \<Rightarrow> v)"

definition samlIdentity :: "Assertion \<Rightarrow> providerConfig \<Rightarrow> string \<times> string \<times> string" where
  "samlIdentity a cfg =
     (let attrs = fold put_attribute (as_attributes a) Map.empty;
          email = pickAttribute attrs (pv_emailAttribute cfg) emailAttributeNames;
          name = pickAttribute attrs (pv_nameAttribute cfg) nameAttributeNames;
          subject = (case as_nameID a of None \<Rightarrow> [] | Some v \<Rightarrow> trim_space v);
          email = (if email = [] \<and> CHR 0x40 \<in> set subject then subject else email);
          subject = (if subject = [] then email else subject)
      in (subject, email, name))"

record SAML =
  sm_decode :: "string \<Rightarrow> string option"
  sm_unseal :: "string \<Rightarrow> string option"
  sm_state :: "string \<Rightarrow> samlState option"
  sm_provider :: "string \<Rightarrow> providerConfig option"
  sm_parse :: "string \<Rightarrow> Request \<Rightarrow> string list \<Rightarrow> Assertion option"

definition StartSAML :: "string \<Rightarrow> string \<Rightarrow> string \<Rightarrow> time \<Rightarrow> samlState" where
  "StartSAML provider requestID path now =
     \<lparr>sa_provider = provider, sa_requestID = requestID, sa_next = sanitizeNext path, sa_expires = now + 600\<rparr>"

definition saml_state :: "SAML \<Rightarrow> time \<Rightarrow> string \<Rightarrow> string option \<Rightarrow> sso_error + samlState" where
  "saml_state sm now provider cookie =
     (case cookie of
        None \<Rightarrow> Inl ErrStateMissing
      | Some c \<Rightarrow>
          case sm_decode sm c of
            None \<Rightarrow> Inl ErrStateMalformed
          | Some sealed \<Rightarrow>
              case sm_unseal sm sealed of
                None \<Rightarrow> Inl ErrStateSealed
              | Some plain \<Rightarrow>
                  case sm_state sm plain of
                    None \<Rightarrow> Inl ErrStateMalformed
                  | Some st \<Rightarrow>
                      if now > sa_expires st then Inl ErrTooLong
                      else if sa_provider st \<noteq> provider then Inl ErrOtherProvider
                      else Inr st)"

definition CompleteSAML ::
    "SAML \<Rightarrow> Signin \<Rightarrow> time \<Rightarrow> string \<Rightarrow> string option \<Rightarrow> Request \<Rightarrow> AuthStore \<Rightarrow> (sso_error + User \<times> string) \<times> AuthStore" where
  "CompleteSAML sm sg now provider cookie r db =
     (case saml_state sm now provider cookie of
        Inl e \<Rightarrow> (Inl e, db)
      | Inr st \<Rightarrow>
          case sm_provider sm provider of
            None \<Rightarrow> (Inl ErrProvider, db)
          | Some pc \<Rightarrow>
              case sm_parse sm provider r [sa_requestID st] of
                None \<Rightarrow> (Inl ErrAssertion, db)
              | Some a \<Rightarrow>
                  case samlIdentity a pc of
                    (subject, email, name) \<Rightarrow>
                      if subject = [] then (Inl ErrNoSubject, db)
                      else if NormalizeEmail email = [] then (Inl ErrNoEmail, db)
                      else if \<not> checkDomain (NormalizeEmail email) (pv_allowedDomains pc) then (Inl ErrDomain, db)
                      else finish_signin sg now r provider subject (NormalizeEmail email) name
                             (pv_adminEmails pc) (sa_next st) db)"

end
