(* ===== verification/AuthFacts.thy ===== *)
theory AuthFacts
  imports AuthService
begin

text \<open>
  What the account tables and the sign-in code guarantee: the integrity of the tables under every
  operation, what a successful sign-in proves, how many attempts the limiter lets through, that a
  recovery code works once, and when a session cookie is worth something.
\<close>

section \<open>Integrity of the tables\<close>

definition users_ok :: "User list \<Rightarrow> bool" where
  "users_ok us \<longleftrightarrow> distinct (map us_id us) \<and>
     (\<forall>u \<in> set us. \<forall>v \<in> set us. user_clash u v \<longrightarrow> us_id u = us_id v) \<and>
     (\<forall>u \<in> set us. ValidRole (us_role u) \<and> (us_totpConfirmedAt u \<noteq> None \<longrightarrow> us_totpSecretEnc u \<noteq> []))"

definition store_ok :: "AuthStore \<Rightarrow> bool" where
  "store_ok db \<longleftrightarrow> users_ok (db_users db) \<and>
     distinct (map ss_id (db_sessions db)) \<and> distinct (map rc_id (db_codes db)) \<and>
     ss_userID ` set (db_sessions db) \<subseteq> us_id ` set (db_users db) \<and>
     rc_userID ` set (db_codes db) \<subseteq> us_id ` set (db_users db)"

definition empty_store :: AuthStore where
  "empty_store = \<lparr>db_users = [], db_sessions = [], db_codes = []\<rparr>"

datatype store_op =
    SCreateUser time User | SUpdateUser User | SSetPassword string string | SLinkProvider string string string
  | STouchLogin time string | SDeleteUser string
  | SCreateSession time Session | SDeleteSession string | SDeleteUserSessions string | SPurge time
  | SLoadSession time string
  | SSetTOTP string string | SConfirmTOTP string time | SDisableTOTP string
  | SReplaceCodes "string list" string "string list" | SUseCode string time

fun store_step :: "store_op \<Rightarrow> AuthStore \<Rightarrow> AuthStore" where
  "store_step (SCreateUser now u) db = snd (CreateUser now u db)"
| "store_step (SUpdateUser u) db = snd (UpdateUser u db)"
| "store_step (SSetPassword i h) db = snd (SetPasswordHash i h db)"
| "store_step (SLinkProvider i p s) db = snd (LinkProvider i p s db)"
| "store_step (STouchLogin now i) db = snd (TouchLogin now i db)"
| "store_step (SDeleteUser i) db = snd (DeleteUser i db)"
| "store_step (SCreateSession now s) db = snd (CreateSession now s db)"
| "store_step (SDeleteSession i) db = DeleteSession i db"
| "store_step (SDeleteUserSessions i) db = DeleteUserSessions i db"
| "store_step (SPurge now) db = snd (PurgeExpiredSessions now db)"
| "store_step (SLoadSession now i) db = snd (SessionUser now i db)"
| "store_step (SSetTOTP i enc) db = SetTOTPSecret i enc db"
| "store_step (SConfirmTOTP i at) db = snd (ConfirmTOTP i at db)"
| "store_step (SDisableTOTP i) db = DisableTOTP i db"
| "store_step (SReplaceCodes fresh i hs) db = snd (ReplaceRecoveryCodes fresh i hs db)"
| "store_step (SUseCode k at) db = snd (UseRecoveryCode k at db)"

definition store_run :: "store_op list \<Rightarrow> AuthStore" where
  "store_run ops = fold store_step ops empty_store"

text \<open>A change to the rows with one id that keeps the id, the role and the two-factor rule.\<close>

lemma users_ok_map:
  assumes "users_ok us" and "\<And>u. us_id (f u) = us_id u"
    and "\<And>u v. u \<in> set us \<Longrightarrow> v \<in> set us \<Longrightarrow> user_clash (f u) (f v) \<Longrightarrow> us_id u = us_id v"
    and "\<And>u. u \<in> set us \<Longrightarrow> ValidRole (us_role (f u)) \<and> (us_totpConfirmedAt (f u) \<noteq> None \<longrightarrow> us_totpSecretEnc (f u) \<noteq> [])"
  shows "users_ok (map f us)"
  using assms by (simp add: users_ok_def comp_def)

lemma user_clash_sym: "user_clash u v \<longleftrightarrow> user_clash v u"
  by (auto simp: user_clash_def)

lemma users_ok_update:
  assumes "users_ok us" and "\<And>u. us_id (f u) = us_id u"
    and free: "\<And>u v. u \<in> set us \<Longrightarrow> v \<in> set us \<Longrightarrow> us_id u = i \<Longrightarrow> us_id v \<noteq> i \<Longrightarrow> \<not> user_clash (f u) v"
    and row: "\<And>u. u \<in> set us \<Longrightarrow> us_id u = i \<Longrightarrow>
      ValidRole (us_role (f u)) \<and> (us_totpConfirmedAt (f u) \<noteq> None \<longrightarrow> us_totpSecretEnc (f u) \<noteq> [])"
  shows "users_ok (map (\<lambda>u. if us_id u = i then f u else u) us)"
proof (rule users_ok_map [OF assms(1)])
  show "us_id (if us_id u = i then f u else u) = us_id u" for u by (simp add: assms(2))
  fix u assume u: "u \<in> set us"
  then show "ValidRole (us_role (if us_id u = i then f u else u)) \<and>
      (us_totpConfirmedAt (if us_id u = i then f u else u) \<noteq> None \<longrightarrow> us_totpSecretEnc (if us_id u = i then f u else u) \<noteq> [])"
    using assms(1) row by (simp add: users_ok_def)
  fix v assume v: "v \<in> set us" and c: "user_clash (if us_id u = i then f u else u) (if us_id v = i then f v else v)"
  show "us_id u = us_id v"
  proof (cases "us_id u = i \<longleftrightarrow> us_id v = i")
    case True
    with c u v assms(1) show ?thesis by (auto simp: users_ok_def split: if_splits)
  next
    case False
    with c u v free show ?thesis by (auto simp: user_clash_sym split: if_splits)
  qed
qed

lemma update_user_ok:
  assumes "store_ok db" and "\<And>u. us_id (f u) = us_id u"
    and "\<And>u v. u \<in> set (db_users db) \<Longrightarrow> v \<in> set (db_users db) \<Longrightarrow> us_id u = i \<Longrightarrow> us_id v \<noteq> i \<Longrightarrow> \<not> user_clash (f u) v"
    and "\<And>u. u \<in> set (db_users db) \<Longrightarrow> us_id u = i \<Longrightarrow>
      ValidRole (us_role (f u)) \<and> (us_totpConfirmedAt (f u) \<noteq> None \<longrightarrow> us_totpSecretEnc (f u) \<noteq> [])"
  shows "store_ok (snd (update_user i f db))"
proof -
  let ?g = "\<lambda>u. if us_id u = i then f u else u"
  have us: "users_ok (map ?g (db_users db))"
    by (rule users_ok_update) (use assms in \<open>auto simp: store_ok_def\<close>)
  have g: "us_id (?g u) = us_id u" for u by (simp add: assms(2))
  have ids: "us_id ` set (map ?g (db_users db)) = us_id ` set (db_users db)"
    unfolding set_map image_image g ..
  show ?thesis
    using us ids assms(1) unfolding update_user_def store_ok_def by (simp del: set_map)
qed

lemma update_unique_ok:
  assumes "store_ok db" and "\<And>u. us_id (f u) = us_id u"
    and "\<And>u. u \<in> set (db_users db) \<Longrightarrow> us_id u = i \<Longrightarrow>
      ValidRole (us_role (f u)) \<and> (us_totpConfirmedAt (f u) \<noteq> None \<longrightarrow> us_totpSecretEnc (f u) \<noteq> [])"
  shows "store_ok (snd (update_unique i f db))"
proof (cases "\<exists>u \<in> set (db_users db). us_id u = i \<and> (\<exists>v \<in> set (db_users db). us_id v \<noteq> i \<and> user_clash (f u) v)")
  case True
  with assms(1) show ?thesis by (simp add: update_unique_def)
next
  case False
  then have "store_ok (snd (update_user i f db))" by (intro update_user_ok assms) auto
  then show ?thesis by (simp only: update_unique_def False if_False)
qed

lemma store_row: "store_ok db \<Longrightarrow> u \<in> set (db_users db) \<Longrightarrow>
    ValidRole (us_role u) \<and> (us_totpConfirmedAt u \<noteq> None \<longrightarrow> us_totpSecretEnc u \<noteq> [])"
  by (simp add: store_ok_def users_ok_def)

lemma store_clash: "store_ok db \<Longrightarrow> u \<in> set (db_users db) \<Longrightarrow> v \<in> set (db_users db) \<Longrightarrow>
    user_clash u v \<Longrightarrow> us_id u = us_id v"
  by (simp add: store_ok_def users_ok_def)

text \<open>Writing columns no unique index covers.\<close>

lemma update_plain_ok:
  assumes "store_ok db" and "\<And>u. us_id (f u) = us_id u \<and> us_email (f u) = us_email u \<and> us_provider (f u) = us_provider u \<and>
      us_providerSubject (f u) = us_providerSubject u \<and> us_role (f u) = us_role u"
    and "\<And>u. u \<in> set (db_users db) \<Longrightarrow> us_totpConfirmedAt (f u) \<noteq> None \<Longrightarrow> us_totpSecretEnc (f u) \<noteq> []"
  shows "store_ok (snd (update_user i f db))"
proof (rule update_user_ok [OF assms(1)])
  show "us_id (f u) = us_id u" for u using assms(2) by blast
  show "\<not> user_clash (f u) v" if "u \<in> set (db_users db)" "v \<in> set (db_users db)" "us_id u = i" "us_id v \<noteq> i" for u v
  proof
    assume "user_clash (f u) v"
    then have "user_clash u v" using assms(2) [of u] by (simp add: user_clash_def)
    with store_clash [OF assms(1) that(1,2)] that(3,4) show False by simp
  qed
  show "ValidRole (us_role (f u)) \<and> (us_totpConfirmedAt (f u) \<noteq> None \<longrightarrow> us_totpSecretEnc (f u) \<noteq> [])"
    if "u \<in> set (db_users db)" "us_id u = i" for u
    using assms(2,3) that store_row [OF assms(1)] by auto
qed

lemma drop_codes_ok: "store_ok db \<Longrightarrow> store_ok (drop_codes i db)"
  by (auto simp: store_ok_def drop_codes_def distinct_map_filter)

lemma create_ok:
  assumes ok: "store_ok db" shows "store_ok (snd (CreateUser now u db))"
proof -
  define row where "row = (created_user now u)\<lparr>us_lastLoginAt := None, us_totpConfirmedAt := None\<rparr>"
  let ?u = "created_user now u"
  have role: "us_role row = us_role ?u" "us_totpConfirmedAt row = None" by (simp_all add: row_def)
  consider (refused) "snd (CreateUser now u db) = db"
    | (stored) "ValidRole (us_role ?u)" "\<forall>v \<in> set (db_users db). \<not> user_clash row v"
        "snd (CreateUser now u db) = db\<lparr>db_users := db_users db @ [row]\<rparr>"
    unfolding CreateUser_def Let_def row_def [symmetric]
    by (cases "us_email ?u = []"; cases "ValidRole (us_role ?u)";
        cases "\<exists>v \<in> set (db_users db). user_clash row v") auto
  then show ?thesis
  proof cases
    case refused
    with ok show ?thesis by simp
  next
    case stored
    have "us_id row \<notin> us_id ` set (db_users db)"
      using stored(2) unfolding user_clash_def by (metis image_iff)
    moreover have "\<not> user_clash v row" if "v \<in> set (db_users db)" for v
      using stored(2) that user_clash_sym by blast
    ultimately have "users_ok (db_users db @ [row])"
      using ok stored(1,2) role by (auto simp: store_ok_def users_ok_def)
    with ok stored(3) show ?thesis by (auto simp: store_ok_def)
  qed
qed

lemma store_step_ok: "store_ok db \<Longrightarrow> store_ok (store_step op db)"
proof (cases op)
  case (SCreateUser now u)
  assume "store_ok db"
  with SCreateUser show ?thesis by (simp add: create_ok)
next
  case (SUpdateUser u)
  assume ok: "store_ok db"
  show ?thesis
  proof (cases "ValidRole (us_role u)")
    case True
    then have "store_ok (snd (UpdateUser u db))"
      unfolding UpdateUser_def by (simp, intro update_unique_ok ok) (auto dest: store_row [OF ok])
    then show ?thesis by (simp add: SUpdateUser)
  qed (use ok in \<open>simp add: SUpdateUser UpdateUser_def\<close>)
next
  case (SSetPassword i h)
  assume ok: "store_ok db"
  show ?thesis unfolding SSetPassword store_step.simps SetPasswordHash_def
    by (rule update_plain_ok [OF ok]) (auto dest: store_row [OF ok])
next
  case (SLinkProvider i p s)
  assume ok: "store_ok db"
  show ?thesis unfolding SLinkProvider store_step.simps LinkProvider_def
    by (rule update_unique_ok [OF ok]) (auto dest: store_row [OF ok])
next
  case (STouchLogin now i)
  assume ok: "store_ok db"
  show ?thesis unfolding STouchLogin store_step.simps TouchLogin_def
    by (rule update_plain_ok [OF ok]) (auto dest: store_row [OF ok])
next
  case (SDeleteUser i)
  assume ok: "store_ok db"
  then show ?thesis
    by (auto simp: SDeleteUser DeleteUser_def store_ok_def users_ok_def distinct_map_filter)
next
  case (SCreateSession now s)
  assume ok: "store_ok db"
  then show ?thesis
    by (auto simp: SCreateSession CreateSession_def store_ok_def) (metis image_eqI)+
next
  case (SLoadSession now i)
  assume ok: "store_ok db"
  then have "store_ok (DeleteSession i db)" by (auto simp: DeleteSession_def store_ok_def distinct_map_filter)
  with ok show ?thesis by (simp add: SLoadSession SessionUser_def split: option.splits sum.splits)
next
  case (SSetTOTP i enc)
  assume ok: "store_ok db"
  show ?thesis unfolding SSetTOTP store_step.simps SetTOTPSecret_def set_user_def
    by (rule drop_codes_ok, rule update_plain_ok [OF ok]) auto
next
  case (SConfirmTOTP i at)
  assume ok: "store_ok db"
  let ?c = "\<lambda>u. us_id u = i \<and> us_totpSecretEnc u \<noteq> [] \<and> us_totpConfirmedAt u = None"
  let ?g = "\<lambda>u. if ?c u then u\<lparr>us_totpConfirmedAt := Some at\<rparr> else u"
  have "users_ok (map ?g (db_users db))"
  proof (rule users_ok_map)
    show "users_ok (db_users db)" using ok by (simp add: store_ok_def)
    fix u v assume u: "u \<in> set (db_users db)" and v: "v \<in> set (db_users db)" and c: "user_clash (?g u) (?g v)"
    have "user_clash u v = user_clash (?g u) (?g v)" by (simp add: user_clash_def)
    with c u v ok show "us_id u = us_id v" by (simp add: store_ok_def users_ok_def)
  qed (use ok in \<open>simp_all add: store_ok_def users_ok_def\<close>)
  moreover have "us_id ` set (map ?g (db_users db)) = us_id ` set (db_users db)"
    unfolding set_map image_image by (rule image_cong) auto
  ultimately show ?thesis
    using ok by (simp add: SConfirmTOTP ConfirmTOTP_def store_ok_def del: set_map)
next
  case (SDisableTOTP i)
  assume ok: "store_ok db"
  show ?thesis unfolding SDisableTOTP store_step.simps DisableTOTP_def set_user_def
    by (rule drop_codes_ok, rule update_plain_ok [OF ok]) auto
next
  case (SReplaceCodes fresh i hs)
  assume ok: "store_ok db"
  define rows where "rows = map (\<lambda>(k, h). \<lparr>rc_id = k, rc_userID = i, rc_hash = h, rc_usedAt = None\<rparr>) (zip fresh hs)"
  have own: "rc_userID ` set rows \<subseteq> {i}" by (auto simp: rows_def)
  have eq: "ReplaceRecoveryCodes fresh i hs db =
      (if rows \<noteq> [] \<and> (\<forall>u \<in> set (db_users db). us_id u \<noteq> i) \<or> \<not> distinct (map rc_id (db_codes (drop_codes i db) @ rows))
       then (Inl ErrConstraint, db) else (Inr (), (drop_codes i db)\<lparr>db_codes := db_codes (drop_codes i db) @ rows\<rparr>))"
    unfolding ReplaceRecoveryCodes_def Let_def rows_def ..
  show ?thesis
  proof (cases "rows \<noteq> [] \<and> (\<forall>u \<in> set (db_users db). us_id u \<noteq> i) \<or> \<not> distinct (map rc_id (db_codes (drop_codes i db) @ rows))")
    case True
    with ok show ?thesis unfolding SReplaceCodes store_step.simps eq by (simp only: if_True snd_conv)
  next
    case False
    then have "rc_userID ` set rows \<subseteq> us_id ` set (db_users db)" using own by (cases "rows = []") auto
    moreover have "rc_userID ` set (db_codes (drop_codes i db)) \<subseteq> us_id ` set (db_users db)"
      using ok by (auto simp: drop_codes_def store_ok_def)
    ultimately have "rc_userID ` set (db_codes (drop_codes i db) @ rows) \<subseteq> us_id ` set (db_users db)"
      by (simp only: set_append image_Un Un_subset_iff)
    moreover have "snd (ReplaceRecoveryCodes fresh i hs db) = db\<lparr>db_codes := db_codes (drop_codes i db) @ rows\<rparr>"
      unfolding eq if_not_P [OF False] by (simp add: drop_codes_def)
    ultimately show ?thesis
      using ok False by (simp only: SReplaceCodes store_step.simps store_ok_def) simp
  qed
next
  case (SUseCode k at)
  assume ok: "store_ok db"
  let ?g = "\<lambda>c. if rc_id c = k \<and> rc_usedAt c = None then c\<lparr>rc_usedAt := Some at\<rparr> else c"
  have "map rc_id (map ?g (db_codes db)) = map rc_id (db_codes db)" by simp
  moreover have "rc_userID ` set (map ?g (db_codes db)) = rc_userID ` set (db_codes db)"
    unfolding set_map image_image by (rule image_cong) auto
  ultimately show ?thesis
    using ok by (simp add: SUseCode UseRecoveryCode_def store_ok_def del: set_map map_map)
qed (auto simp: DeleteSession_def DeleteUserSessions_def PurgeExpiredSessions_def store_ok_def distinct_map_filter)

lemma store_run_ok: "store_ok (store_run ops)"
  unfolding store_run_def
  by (induction ops rule: rev_induct)
    (auto simp: store_step_ok, simp add: store_ok_def users_ok_def empty_store_def)

text \<open>
  C13. However the account tables are used, no two accounts share an id, an address or a provider identity,
  every role is a known one, a confirmed second factor always has its secret, and every session and
  recovery code belongs to an account that exists and is filed once.
\<close>

theorem store_integrity:
  "store_ok (store_run ops)"
  by (rule store_run_ok)


section \<open>What a sign-in proves\<close>

lemma lookup_Inr: "lookup P db = Inr u \<Longrightarrow> u \<in> set (db_users db) \<and> P u"
  by (auto simp: lookup_def find_Some_iff split: option.splits)

lemma totp_loop_Inr: "totp_loop cr secret code cs = Inr () \<Longrightarrow> \<exists>c \<in> set cs. totpCode cr secret c = Inr code"
  by (induction cs) (auto split: sum.splits if_splits)

lemma VerifyTOTP_Inr:
  "VerifyTOTP cr secret code now = Inr () \<Longrightarrow> \<exists>c \<in> set (totp_steps now). totpCode cr secret c = Inr (trim_space code)"
  by (auto simp: VerifyTOTP_def Let_def dest: totp_loop_Inr split: if_splits)

lemma UseRecoveryCode_spent:
  assumes "UseRecoveryCode k now db = (Inr (), db')"
  shows "RecoveryCodeHashes i db' = filter (\<lambda>(j, h). j \<noteq> k) (RecoveryCodeHashes i db)"
    and "db_users db' = db_users db" and "db_sessions db' = db_sessions db"
proof -
  let ?g = "\<lambda>c. if rc_id c = k \<and> rc_usedAt c = None then c\<lparr>rc_usedAt := Some now\<rparr> else c"
  have db': "db' = db\<lparr>db_codes := map ?g (db_codes db)\<rparr>"
    using assms by (auto simp: UseRecoveryCode_def split: if_splits)
  have "map (\<lambda>c. (rc_id c, rc_hash c)) (filter (\<lambda>c. rc_userID c = i \<and> rc_usedAt c = None) (map ?g cs)) =
     filter (\<lambda>(j, h). j \<noteq> k) (map (\<lambda>c. (rc_id c, rc_hash c)) (filter (\<lambda>c. rc_userID c = i \<and> rc_usedAt c = None) cs))" for cs
    by (induction cs) auto
  then show "RecoveryCodeHashes i db' = filter (\<lambda>(j, h). j \<noteq> k) (RecoveryCodeHashes i db)"
    by (simp add: RecoveryCodeHashes_def db')
qed (use assms in \<open>auto simp: UseRecoveryCode_def split: if_splits\<close>)

lemma useRecoveryCode_Inr:
  assumes "useRecoveryCode cr now u code db = (Inr (), db')"
  shows "\<exists>k. (k, hashRecoveryCode cr code) \<in> set (RecoveryCodeHashes (us_id u) db) \<and>
     RecoveryCodeHashes i db' = filter (\<lambda>(j, h). j \<noteq> k) (RecoveryCodeHashes i db) \<and>
     db_users db' = db_users db \<and> db_sessions db' = db_sessions db"
proof -
  obtain k h where f: "find (\<lambda>(k, h). h = hashRecoveryCode cr code) (rev (RecoveryCodeHashes (us_id u) db)) = Some (k, h)"
    and use: "UseRecoveryCode k now db = (Inr (), db')"
    using assms by (auto simp: useRecoveryCode_def split: option.splits prod.splits sum.splits)
  from f have "(k, hashRecoveryCode cr code) \<in> set (RecoveryCodeHashes (us_id u) db)"
    by (auto simp: find_Some_iff) (metis length_rev nth_mem set_rev)
  with UseRecoveryCode_spent [OF use] show ?thesis by blast
qed

lemma useRecoveryCode_Inl: "useRecoveryCode cr now u code db = (Inl e, db') \<Longrightarrow> db' = db"
  by (auto simp: useRecoveryCode_def UseRecoveryCode_def split: option.splits prod.splits sum.splits if_splits)

text \<open>A second factor: a code of one of the accepted steps, or a recovery code that is then gone.\<close>

definition second_factor :: "Crypto \<Rightarrow> time \<Rightarrow> User \<Rightarrow> string \<Rightarrow> AuthStore \<Rightarrow> AuthStore \<Rightarrow> bool" where
  "second_factor cr now u code db db' \<longleftrightarrow>
     (\<exists>secret. cr_open cr (us_totpSecretEnc u) = Some secret \<and> db' = db \<and>
        (\<exists>c \<in> set (totp_steps now). totpCode cr secret c = Inr (trim_space code))) \<or>
     (\<exists>k. (k, hashRecoveryCode cr (trim_space code)) \<in> set (RecoveryCodeHashes (us_id u) db) \<and>
        RecoveryCodeHashes (us_id u) db' = filter (\<lambda>(j, h). j \<noteq> k) (RecoveryCodeHashes (us_id u) db))"

lemma VerifySecondFactor_Inr:
  assumes "VerifySecondFactor cr now u code db = (Inr (), db')"
  shows "second_factor cr now u code db db' \<and> TwoFactorEnabled u \<and> db_users db' = db_users db"
proof (cases "length (trim_space code) = totpDigits \<and> isAllDigits (trim_space code)")
  case True
  with assms show ?thesis
    by (fastforce simp: VerifySecondFactor_def second_factor_def Let_def dest: VerifyTOTP_Inr
        split: if_splits option.splits)
next
  case False
  then have "useRecoveryCode cr now u (trim_space code) db = (Inr (), db')" "TwoFactorEnabled u"
    using assms by (auto simp: VerifySecondFactor_def Let_def split: if_splits)
  with useRecoveryCode_Inr [OF this(1), of "us_id u"] show ?thesis unfolding second_factor_def by blast
qed

lemma VerifySecondFactor_Inl: "VerifySecondFactor cr now u code db = (Inl e, db') \<Longrightarrow> db' = db"
  by (auto simp: VerifySecondFactor_def Let_def dest: useRecoveryCode_Inl split: if_splits option.splits)

lemma touch_codes: "db_codes (snd (TouchLogin now i db)) = db_codes db"
  by (simp add: TouchLogin_def update_user_def)

lemma Login_cases:
  assumes "Login cr cfg now email password ip s = (res, s')"
  obtains (failed) e where "res = LoginFailed e" "sv_db s' = sv_db s"
  | (passed) u where "ac_allowLocal cfg" "fst (limiter_allow now (login_key email ip) (sv_limiter s))"
      "u \<in> set (db_users (sv_db s))" "us_email u = NormalizeEmail email" "\<not> us_disabled u"
      "us_passwordHash u \<noteq> []" "cr_verify cr (us_passwordHash u) password = Some True"
      "res = (if TwoFactorEnabled u then LoginTwoFactor u else LoginOK u)"
      "TwoFactorEnabled u \<Longrightarrow> sv_db s' = sv_db s"
      "db_codes (sv_db s') = db_codes (sv_db s)"
proof (cases "ac_allowLocal cfg \<and> fst (limiter_allow now (login_key email ip) (sv_limiter s))")
  case False
  with assms that(1) show ?thesis by (auto simp: Login_def Let_def split: prod.splits if_splits)
next
  case True
  note allowed = True
  from True obtain l where l: "limiter_allow now (login_key email ip) (sv_limiter s) = (True, l)"
    by (metis prod.collapse)
  note eq = assms [unfolded Login_def Let_def l]
  show ?thesis
  proof (cases "GetUserByEmail email (sv_db s)")
    case (Inl e)
    with eq True that(1) show ?thesis by auto
  next
    case (Inr u)
    note u = lookup_Inr [OF Inr [unfolded GetUserByEmail_def]]
    show ?thesis
    proof (cases "\<not> us_disabled u \<and> us_passwordHash u \<noteq> [] \<and> cr_verify cr (us_passwordHash u) password = Some True")
      case True
      have s': "res = (if TwoFactorEnabled u then LoginTwoFactor u else LoginOK u)"
          "sv_db s' = (if TwoFactorEnabled u then sv_db s else snd (TouchLogin now (us_id u) (sv_db s)))"
        using eq Inr True allowed by (auto simp: touchLogin_def)
      show ?thesis
        by (rule that(2) [of u])
          (use True Inr u s' allowed in \<open>simp_all add: touch_codes\<close>)
    next
      case False
      with eq Inr that(1) allowed show ?thesis by (auto split: if_splits option.splits bool.splits)
    qed
  qed
qed

text \<open>
  C14. A sign-in succeeds only for an enabled local account whose stored hash the password matches, while
  password login is on and the limiter lets the attempt through; and if the account has a second
  factor, only with a code of the current time step or a neighbour, or with an unused recovery
  code, which is spent by it. A sign-in that fails changes no table.
\<close>

theorem CompleteLogin_sound:
  "case CompleteLogin cr cfg now email password code ip s of
     (Inl e, s') \<Rightarrow> sv_db s' = sv_db s
   | (Inr u, s') \<Rightarrow>
       ac_allowLocal cfg \<and> fst (limiter_allow now (login_key email ip) (sv_limiter s)) \<and>
       u \<in> set (db_users (sv_db s)) \<and> us_email u = NormalizeEmail email \<and> \<not> us_disabled u \<and>
       us_passwordHash u \<noteq> [] \<and> cr_verify cr (us_passwordHash u) password = Some True \<and>
       (if TwoFactorEnabled u
        then \<exists>db'. second_factor cr now u code (sv_db s) db' \<and> db_codes (sv_db s') = db_codes db'
        else db_codes (sv_db s') = db_codes (sv_db s))"
proof -
  obtain res s1 where login: "Login cr cfg now email password ip s = (res, s1)" by fastforce
  show ?thesis
    using login
  proof (cases rule: Login_cases)
    case (failed e)
    with login show ?thesis by (simp add: CompleteLogin_def)
  next
    case (passed u)
    show ?thesis
    proof (cases "TwoFactorEnabled u")
      case False
      with passed login show ?thesis by (simp add: CompleteLogin_def)
    next
      case True
      obtain r db' where v: "VerifySecondFactor cr now u code (sv_db s1) = (r, db')" by fastforce
      show ?thesis
      proof (cases r)
        case (Inl e)
        with True passed login v VerifySecondFactor_Inl [OF v [unfolded Inl]] show ?thesis
          by (simp add: CompleteLogin_def)
      next
        case (Inr x)
        with VerifySecondFactor_Inr [of cr now u code "sv_db s1" db'] v
        have "second_factor cr now u code (sv_db s1) db'" by simp
        with True Inr passed login v show ?thesis by (auto simp: CompleteLogin_def touchLogin_def touch_codes)
      qed
    qed
  qed
qed


section \<open>The attempt limiter\<close>

datatype limiter_event = Attempt time string | Cleared string

fun limiter_run :: "limiter_event list \<Rightarrow> attemptLimiter \<Rightarrow> attemptLimiter" where
  "limiter_run [] l = l"
| "limiter_run (Attempt now k # es) l = limiter_run es (snd (limiter_allow now k l))"
| "limiter_run (Cleared k # es) l = limiter_run es (limiter_reset k l)"

text \<open>How many attempts of one key a run lets through.\<close>

fun let_through :: "string \<Rightarrow> limiter_event list \<Rightarrow> attemptLimiter \<Rightarrow> nat" where
  "let_through key [] l = 0"
| "let_through key (Attempt now k # es) l =
     (if k = key \<and> fst (limiter_allow now k l) then 1 else 0) + let_through key es (snd (limiter_allow now k l))"
| "let_through key (Cleared k # es) l = let_through key es (limiter_reset k l)"

definition limiter_entry :: "string \<Rightarrow> attemptLimiter \<Rightarrow> (nat \<times> time) option" where
  "limiter_entry key l = map_of (al_entries l) key"

definition live :: "time \<Rightarrow> time \<Rightarrow> (nat \<times> time) option \<Rightarrow> (nat \<times> time) option" where
  "live window now e = (case e of None \<Rightarrow> None | Some (n, start) \<Rightarrow> if now - start > window then None else e)"

definition limiter_ok :: "attemptLimiter \<Rightarrow> bool" where
  "limiter_ok l \<longleftrightarrow> distinct (map fst (al_entries l))"

lemma map_of_live:
  "distinct (map fst es) \<Longrightarrow>
     map_of (filter (\<lambda>(k, n, start). \<not> now - start > window) es) key = live window now (map_of es key)"
  by (induction es) (auto simp: live_def map_of_eq_None_iff rev_image_eqI split: option.splits)

lemma limiter_allow_entry:
  assumes "limiter_ok l"
  shows "limiter_entry key (snd (limiter_allow now k l)) =
      (if k = key then Some (case live (al_window l) now (limiter_entry k l) of None \<Rightarrow> (1, now) | Some (n, start) \<Rightarrow> (n + 1, start))
       else live (al_window l) now (limiter_entry key l))"
    and "fst (limiter_allow now k l) \<longleftrightarrow>
      (case live (al_window l) now (limiter_entry k l) of None \<Rightarrow> True | Some (n, start) \<Rightarrow> n + 1 \<le> al_max l)"
    and "al_max (snd (limiter_allow now k l)) = al_max l" and "al_window (snd (limiter_allow now k l)) = al_window l"
    and "limiter_ok (snd (limiter_allow now k l))"
proof -
  let ?es = "filter (\<lambda>(k, n, start). \<not> now - start > al_window l) (al_entries l)"
  have es: "map_of ?es j = live (al_window l) now (limiter_entry j l)" for j
    using assms by (simp add: map_of_live limiter_ok_def limiter_entry_def)
  have d: "distinct (map fst ?es)" using assms by (simp add: limiter_ok_def distinct_map_filter)
  have fresh: "\<not> now - start > al_window l" if "live (al_window l) now (limiter_entry k l) = Some (n, start)" for n start
    using that by (auto simp: live_def split: option.splits if_splits)
  note def = limiter_allow_def Let_def es
  show "limiter_entry key (snd (limiter_allow now k l)) =
      (if k = key then Some (case live (al_window l) now (limiter_entry k l) of None \<Rightarrow> (1, now) | Some (n, start) \<Rightarrow> (n + 1, start))
       else live (al_window l) now (limiter_entry key l))"
    unfolding def using fresh
    by (auto simp: limiter_entry_def update_conv' es [unfolded limiter_entry_def] split: option.splits)
  show "fst (limiter_allow now k l) \<longleftrightarrow>
      (case live (al_window l) now (limiter_entry k l) of None \<Rightarrow> True | Some (n, start) \<Rightarrow> n + 1 \<le> al_max l)"
    unfolding def using fresh by (auto split: option.splits)
  show "al_max (snd (limiter_allow now k l)) = al_max l" "al_window (snd (limiter_allow now k l)) = al_window l"
    unfolding def by (auto split: option.splits)
  show "limiter_ok (snd (limiter_allow now k l))"
    unfolding def limiter_ok_def using d by (auto simp: distinct_update split: option.splits)
qed

lemma limiter_reset_entry:
  "limiter_ok l \<Longrightarrow> limiter_entry key (limiter_reset k l) = (if k = key then None else limiter_entry key l)"
  "limiter_ok l \<Longrightarrow> limiter_ok (limiter_reset k l)"
  "al_max (limiter_reset k l) = al_max l" "al_window (limiter_reset k l) = al_window l"
  by (auto simp: limiter_reset_def limiter_entry_def limiter_ok_def delete_conv' distinct_delete)

lemma limiter_run_ok:
  "limiter_ok l \<Longrightarrow> limiter_ok (limiter_run es l) \<and> al_max (limiter_run es l) = al_max l \<and> al_window (limiter_run es l) = al_window l"
  by (induction es l rule: limiter_run.induct) (simp_all add: limiter_allow_entry limiter_reset_entry)

text \<open>What an entry still lets through between \<open>t\<close> and the end of a window that starts there.\<close>

definition allowance :: "nat \<Rightarrow> time \<Rightarrow> (nat \<times> time) option \<Rightarrow> nat" where
  "allowance mx t e = (case e of None \<Rightarrow> mx | Some (n, start) \<Rightarrow> if start \<ge> t then mx - n else (mx - n) + mx)"

lemma allowance_live: "t \<le> now \<Longrightarrow> now \<le> t + window \<Longrightarrow> allowance mx t (live window now e) \<le> allowance mx t e"
  by (auto simp: allowance_def live_def split: option.splits)

lemma let_through_allowance:
  assumes "limiter_ok l" "0 < al_max l"
    and "\<forall>e \<in> set es. case e of Attempt now k \<Rightarrow> t \<le> now \<and> now \<le> t + al_window l | Cleared k \<Rightarrow> k \<noteq> key"
  shows "let_through key es l \<le> allowance (al_max l) t (limiter_entry key l)"
  using assms
proof (induction key es l rule: let_through.induct)
  case (2 key now k es l)
  let ?e = "live (al_window l) now (limiter_entry key l)"
  note a = limiter_allow_entry [OF 2(2), where now = now and k = k]
  have time: "t \<le> now" "now \<le> t + al_window l" using 2(4) by auto
  have IH: "let_through key es (snd (limiter_allow now k l)) \<le>
      allowance (al_max l) t (limiter_entry key (snd (limiter_allow now k l)))"
    using 2(1) [OF a(5)] 2(3,4) unfolding a(3,4) by simp
  have le: "allowance (al_max l) t ?e \<le> allowance (al_max l) t (limiter_entry key l)"
    by (rule allowance_live [OF time])
  show ?case
  proof (cases "k = key")
    case True
    have "(if fst (limiter_allow now k l) then 1 else 0) +
        allowance (al_max l) t (limiter_entry key (snd (limiter_allow now k l))) \<le> allowance (al_max l) t ?e"
    proof (cases ?e)
      case None
      with True 2(3) time a(1) [of key] a(2) show ?thesis by (simp add: allowance_def)
    next
      case (Some p)
      obtain n start where "?e = Some (n, start)" using Some by (cases p) simp
      with True 2(3) time a(1) [of key] a(2) show ?thesis by (auto simp: allowance_def)
    qed
    with IH le True show ?thesis by simp
  next
    case False
    with IH le show ?thesis by (simp add: a)
  qed
next
  case (3 key k es l)
  note r = limiter_reset_entry(1) [OF 3(2), of key k] limiter_reset_entry(2) [OF 3(2), of k] limiter_reset_entry(3,4) [of k l]
  have "let_through key es (limiter_reset k l) \<le> allowance (al_max l) t (limiter_entry key (limiter_reset k l))"
    using 3(1) [OF r(2)] 3(3,4) unfolding r(3,4) by simp
  with r(1) 3(4) show ?case by simp
qed simp

text \<open>
  C15. However the limiter has been used before, in any stretch of time no longer than its window, and with
  no sign-in of that key in it that clears its count, at most twice the maximum attempts of one key are
  let through; and at most the maximum, if nothing is held of the key when the stretch begins.
\<close>

theorem limiter_bounds_attempts:
  assumes "0 < mx"
    and "\<forall>e \<in> set es. case e of Attempt now k \<Rightarrow> t \<le> now \<and> now \<le> t + window | Cleared k \<Rightarrow> k \<noteq> key"
    and "l = limiter_run before (newAttemptLimiter mx window)"
  shows "let_through key es l \<le> (if limiter_entry key l = None then mx else 2 * mx)"
proof -
  have "limiter_ok (newAttemptLimiter mx window)" by (simp add: limiter_ok_def newAttemptLimiter_def)
  note l = limiter_run_ok [OF this, of before, folded assms(3)]
  have mx: "al_max l = mx" "al_window l = window" using l by (simp_all add: newAttemptLimiter_def)
  have "let_through key es l \<le> allowance mx t (limiter_entry key l)"
    by (rule let_through_allowance [of l es t key, unfolded mx])
      (use l assms in \<open>simp_all add: mx\<close>)
  also have "\<dots> \<le> (if limiter_entry key l = None then mx else 2 * mx)"
    by (auto simp: allowance_def split: option.splits)
  finally show ?thesis .
qed

theorem limiter_bounds_attempts_witness:
  "let_through ''a'' [Attempt 100 ''a'', Attempt 100 ''a'', Attempt 101 ''a''] (newAttemptLimiter 2 60) \<le> 2"
proof -
  have "let_through ''a'' [Attempt 100 ''a'', Attempt 100 ''a'', Attempt 101 ''a''] (limiter_run [] (newAttemptLimiter 2 60)) \<le>
      (if limiter_entry ''a'' (limiter_run [] (newAttemptLimiter 2 60)) = None then 2 else 2 * 2)"
    by (rule limiter_bounds_attempts [where t = 100 and window = 60 and before = "[]"]) simp_all
  then show ?thesis by (simp add: limiter_entry_def newAttemptLimiter_def)
qed


section \<open>Recovery codes\<close>

lemma filter_other_id:
  "distinct (map fst hs) \<Longrightarrow> (k, h) \<in> set hs \<Longrightarrow> length hs = Suc (length (filter (\<lambda>(j, g). j \<noteq> k) hs))"
proof (induction hs)
  case (Cons p hs)
  show ?case
  proof (cases "fst p = k")
    case True
    then have "filter (\<lambda>(j, g). j \<noteq> k) hs = hs" using Cons(2) by (intro filter_True ballI) (auto simp: image_iff split: prod.splits)
    with True show ?thesis by (cases p) simp
  qed (use Cons in \<open>auto split: prod.splits\<close>)
qed simp

lemma RecoveryCodeHashes_distinct: "store_ok db \<Longrightarrow> distinct (map fst (RecoveryCodeHashes i db))"
  by (simp add: store_ok_def RecoveryCodeHashes_def comp_def distinct_map_filter)

lemma useRecoveryCode_unknown:
  "hashRecoveryCode cr code \<notin> snd ` set (RecoveryCodeHashes (us_id u) db) \<Longrightarrow>
     useRecoveryCode cr now u code db = (Inl ErrRecoveryCodeInvalid, db)"
proof -
  assume "hashRecoveryCode cr code \<notin> snd ` set (RecoveryCodeHashes (us_id u) db)"
  then have "find (\<lambda>(k, h). h = hashRecoveryCode cr code) (rev (RecoveryCodeHashes (us_id u) db)) = None"
    by (force simp: find_None_iff)
  then show ?thesis by (simp add: useRecoveryCode_def)
qed

text \<open>
  A recovery code works once: using it succeeds only with a code the account has not used, leaves the
  account one unused code fewer and every other account what it had, and when no two unused codes of the
  account have the same hash, the same code is refused ever after.
\<close>

theorem recovery_code_single_use:
  assumes "useRecoveryCode cr now u code (store_run ops) = (Inr (), db')"
  shows "CountUnusedRecoveryCodes (us_id u) (store_run ops) = Suc (CountUnusedRecoveryCodes (us_id u) db') \<and>
    (distinct (map snd (RecoveryCodeHashes (us_id u) (store_run ops))) \<longrightarrow>
      useRecoveryCode cr later u code db' = (Inl ErrRecoveryCodeInvalid, db'))"
proof -
  let ?hs = "RecoveryCodeHashes (us_id u) (store_run ops)"
  obtain k where k: "(k, hashRecoveryCode cr code) \<in> set ?hs"
    "RecoveryCodeHashes (us_id u) db' = filter (\<lambda>(j, h). j \<noteq> k) ?hs"
    using useRecoveryCode_Inr [OF assms, of "us_id u"] by blast
  have ids: "distinct (map fst ?hs)" by (rule RecoveryCodeHashes_distinct [OF store_run_ok])
  have "CountUnusedRecoveryCodes (us_id u) (store_run ops) = Suc (CountUnusedRecoveryCodes (us_id u) db')"
    using filter_other_id [OF ids k(1)] k(2) by (simp add: CountUnusedRecoveryCodes_def)
  moreover have "useRecoveryCode cr later u code db' = (Inl ErrRecoveryCodeInvalid, db')" if d: "distinct (map snd ?hs)"
  proof (rule useRecoveryCode_unknown)
    have "j = k" if "(j, hashRecoveryCode cr code) \<in> set ?hs" for j
      using d that k(1) unfolding distinct_map inj_on_def by fastforce
    with k(2) show "hashRecoveryCode cr code \<notin> snd ` set (RecoveryCodeHashes (us_id u) db')" by force
  qed
  ultimately show ?thesis by blast
qed

text \<open>An account, a session and a crypto box to try things on: hashes are the texts themselves.\<close>

definition ex_crypto :: Crypto where
  "ex_crypto = \<lparr>cr_verify = (\<lambda>hash pw. Some (hash = pw)), cr_hmac = (\<lambda>k m. m), cr_base32 = (\<lambda>s. Some []),
     cr_open = (\<lambda>s. Some s), cr_sha = (\<lambda>s. s)\<rparr>"

definition ex_user :: User where
  "ex_user = \<lparr>us_id = ''u'', us_email = ''u'', us_name = ''U'', us_passwordHash = ''secret'', us_role = ''admin'',
     us_provider = ''local'', us_providerSubject = [], us_disabled = False, us_createdAt = 1, us_lastLoginAt = None,
     us_totpSecretEnc = [], us_totpConfirmedAt = None\<rparr>"

definition ex_session :: Session where
  "ex_session = \<lparr>ss_id = ''token'', ss_userID = ''u'', ss_createdAt = 1, ss_expiresAt = 100, ss_userAgent = [], ss_ip = []\<rparr>"

definition ex_request :: Request where
  "ex_request = \<lparr>rq_method = ''GET'', rq_sessionCookie = Some ''token'', rq_csrfCookie = None, rq_csrfHeader = [],
     rq_forwardedFor = [], rq_remoteAddr = [], rq_userAgent = []\<rparr>"

lemma ex_user_stored: "store_run [SCreateUser 1 ex_user] = \<lparr>db_users = [ex_user], db_sessions = [], db_codes = []\<rparr>"
  by code_simp

theorem recovery_code_single_use_witness:
  "CountUnusedRecoveryCodes ''u'' (store_run [SCreateUser 1 ex_user, SReplaceCodes [''k''] ''u'' [''mqttview-recovery:abcd'']]) = 1"
proof -
  let ?ops = "[SCreateUser 1 ex_user, SReplaceCodes [''k''] ''u'' [''mqttview-recovery:abcd'']]"
  have "fst (useRecoveryCode ex_crypto 5 ex_user ''ab-CD'' (store_run ?ops)) = Inr ()" by code_simp
  then have "useRecoveryCode ex_crypto 5 ex_user ''ab-CD'' (store_run ?ops) =
      (Inr (), snd (useRecoveryCode ex_crypto 5 ex_user ''ab-CD'' (store_run ?ops)))" by (metis prod.collapse)
  from recovery_code_single_use [OF this]
  have "CountUnusedRecoveryCodes (us_id ex_user) (store_run ?ops) =
      Suc (CountUnusedRecoveryCodes (us_id ex_user) (snd (useRecoveryCode ex_crypto 5 ex_user ''ab-CD'' (store_run ?ops))))"
    by blast
  moreover have "CountUnusedRecoveryCodes (us_id ex_user) (snd (useRecoveryCode ex_crypto 5 ex_user ''ab-CD'' (store_run ?ops))) = 0"
    by code_simp
  moreover have "us_id ex_user = ''u''" by (simp add: ex_user_def)
  ultimately show ?thesis by simp
qed

section \<open>Sessions\<close>

lemma lookup_find: "lookup P db = Inr u \<longleftrightarrow> find P (db_users db) = Some u"
  by (simp add: lookup_def split: option.splits)

lemma find_Some_set: "find P xs = Some x \<Longrightarrow> x \<in> set xs \<and> P x"
  by (metis find_Some_iff nth_mem)

text \<open>What a cookie must be for the request to be someone's.\<close>

definition signed_in :: "Crypto \<Rightarrow> time \<Rightarrow> Request \<Rightarrow> AuthStore \<Rightarrow> User \<Rightarrow> bool" where
  "signed_in cr now r db u \<longleftrightarrow>
     (\<exists>token s. rq_sessionCookie r = Some token \<and> token \<noteq> [] \<and> s \<in> set (db_sessions db) \<and> ss_id s = cr_sha cr token \<and>
        now \<le> ss_expiresAt s \<and> u \<in> set (db_users db) \<and> us_id u = ss_userID s \<and> \<not> us_disabled u)"

lemma Authenticate_Inr: "Authenticate cr now r db = (Inr u, db') \<Longrightarrow> signed_in cr now r db u \<and> db' = db"
proof -
  assume a: "Authenticate cr now r db = (Inr u, db')"
  then obtain token s where t: "rq_sessionCookie r = Some token" "token \<noteq> []"
      and su: "SessionUser now (cr_sha cr token) db = (Inr (s, u), db')"
    by (auto simp: Authenticate_def split: option.splits if_splits prod.splits sum.splits)
  then have f: "find (\<lambda>s. ss_id s = cr_sha cr token) (db_sessions db) = Some s" "GetUser (ss_userID s) db = Inr u"
      and "\<not> now > ss_expiresAt s" "\<not> us_disabled u" "db' = db"
    by (auto simp: SessionUser_def split: option.splits if_splits sum.splits)
  moreover note find_Some_set [OF f(1)] lookup_Inr [OF f(2) [unfolded GetUser_def]]
  ultimately show ?thesis using t unfolding signed_in_def by auto
qed

lemma unique_find: "distinct (map f xs) \<Longrightarrow> x \<in> set xs \<Longrightarrow> find (\<lambda>y. f y = f x) xs = Some x"
  by (induction xs) auto

lemma signed_in_Authenticate:
  assumes "store_ok db" and "signed_in cr now r db u"
  shows "Authenticate cr now r db = (Inr u, db)"
proof -
  obtain token s where t: "rq_sessionCookie r = Some token" "token \<noteq> []" and s: "s \<in> set (db_sessions db)" "ss_id s = cr_sha cr token"
      and u: "now \<le> ss_expiresAt s" "u \<in> set (db_users db)" "us_id u = ss_userID s" "\<not> us_disabled u"
    using assms(2) unfolding signed_in_def by blast
  have "find (\<lambda>s. ss_id s = cr_sha cr token) (db_sessions db) = Some s"
    using unique_find [of ss_id "db_sessions db" s] assms(1) s by (simp add: store_ok_def)
  moreover have "GetUser (ss_userID s) db = Inr u"
    using unique_find [of us_id "db_users db" u] assms(1) u by (simp add: GetUser_def lookup_find store_ok_def users_ok_def)
  ultimately show ?thesis using t u by (simp add: Authenticate_def SessionUser_def)
qed

lemma Authenticate_Inl: "fst (Authenticate cr now r db) = Inl e \<Longrightarrow> e = ErrUnauthorized"
  by (auto simp: Authenticate_def split: option.splits if_splits prod.splits sum.splits)

text \<open>
  A request is taken to be a user's exactly when its cookie hashes to the id of a stored session of that
  user which has not expired, and the account is there and enabled.
\<close>

theorem Authenticate_exact:
  "fst (Authenticate cr now r (store_run ops)) = Inr u \<longleftrightarrow> signed_in cr now r (store_run ops) u"
proof
  assume "fst (Authenticate cr now r (store_run ops)) = Inr u"
  then show "signed_in cr now r (store_run ops) u" by (metis Authenticate_Inr prod.collapse)
qed (simp add: signed_in_Authenticate store_run_ok)

text \<open>The ways a session ends before its time.\<close>

definition revoked :: "Crypto \<Rightarrow> Request \<Rightarrow> User \<Rightarrow> AuthStore \<Rightarrow> AuthStore \<Rightarrow> bool" where
  "revoked cr r u db db' \<longleftrightarrow>
     db' = Logout cr r db \<or> db' = DeleteUserSessions (us_id u) db \<or> DeleteUser (us_id u) db = (Inr (), db') \<or>
     (\<exists>v. us_id v = us_id u \<and> us_disabled v \<and> UpdateUser v db = (Inr (), db'))"

lemma UpdateUser_Inr:
  assumes "UpdateUser v db = (Inr (), db')"
  shows "db_sessions db' = db_sessions db \<and> db_codes db' = db_codes db \<and> db_users db' =
    map (\<lambda>w. if us_id w = us_id v then w\<lparr>us_email := NormalizeEmail (us_email v), us_name := us_name v,
      us_role := us_role v, us_disabled := us_disabled v\<rparr> else w) (db_users db)"
  using assms by (auto simp: UpdateUser_def update_unique_def update_user_def split: if_splits)

lemma signed_in_revoked:
  assumes ok: "store_ok db" and u: "signed_in cr now r db u" and rev: "revoked cr r u db db'"
  shows "\<not> signed_in cr later r db' v"
proof
  assume v: "signed_in cr later r db' v"
  obtain token s where t: "rq_sessionCookie r = Some token" "token \<noteq> []" and s: "s \<in> set (db_sessions db)" "ss_id s = cr_sha cr token"
      and us: "us_id u = ss_userID s" using u unfolding signed_in_def by blast
  obtain s' where s': "s' \<in> set (db_sessions db')" "ss_id s' = cr_sha cr token"
      and vs: "us_id v = ss_userID s'" "v \<in> set (db_users db')" "\<not> us_disabled v"
    using v t(1) unfolding signed_in_def by auto
  have same: "s' = s" if "s' \<in> set (db_sessions db)"
    using ok that s s'(2) unfolding store_ok_def distinct_map inj_on_def by force
  from rev consider (logout) "db' = Logout cr r db" | (sessions) "db' = DeleteUserSessions (us_id u) db"
    | (deleted) "DeleteUser (us_id u) db = (Inr (), db')"
    | (disabled) w where "us_id w = us_id u" "us_disabled w" "UpdateUser w db = (Inr (), db')"
    unfolding revoked_def by blast
  then show False
  proof cases
    case logout
    with s' t show False by (simp add: Logout_def DeleteSession_def)
  next
    case sessions
    with s' us same show False by (auto simp: DeleteUserSessions_def)
  next
    case deleted
    with s' us same show False by (auto simp: DeleteUser_def split: if_splits)
  next
    case disabled
    note w = UpdateUser_Inr [OF disabled(3)]
    with s'(1) same us vs(1) disabled(1) have "us_id v = us_id w" by simp
    with w vs disabled(2) show False by (auto split: if_splits)
  qed
qed

text \<open>
  Signing out, removing the account's sessions, deleting the account or disabling it ends the session of a
  signed-in request at once: its cookie is refused from then on.
\<close>

theorem session_revocation:
  assumes "fst (Authenticate cr now r (store_run ops)) = Inr u" and "revoked cr r u (store_run ops) db"
  shows "fst (Authenticate cr later r db) = Inl ErrUnauthorized"
proof (cases "fst (Authenticate cr later r db)")
  case (Inl e)
  with Authenticate_Inl [OF Inl] show ?thesis by simp
next
  case (Inr v)
  then have "signed_in cr later r db v" by (metis Authenticate_Inr prod.collapse)
  moreover have "signed_in cr now r (store_run ops) u" using assms(1) by (metis Authenticate_Inr prod.collapse)
  ultimately show ?thesis using signed_in_revoked [OF store_run_ok] assms(2) by blast
qed

theorem session_revocation_witness:
  "fst (Authenticate ex_crypto 6 ex_request (DeleteUserSessions ''u'' (store_run [SCreateUser 1 ex_user, SCreateSession 1 ex_session])))
     = Inl ErrUnauthorized"
proof -
  have "fst (Authenticate ex_crypto 5 ex_request (store_run [SCreateUser 1 ex_user, SCreateSession 1 ex_session])) = Inr ex_user"
    by code_simp
  moreover have "us_id ex_user = ''u''" by (simp add: ex_user_def)
  then have "revoked ex_crypto ex_request ex_user (store_run [SCreateUser 1 ex_user, SCreateSession 1 ex_session])
      (DeleteUserSessions ''u'' (store_run [SCreateUser 1 ex_user, SCreateSession 1 ex_session]))"
    by (simp add: revoked_def)
  ultimately show ?thesis by (rule session_revocation)
qed

end
