(* ===== verification/IdentityFacts.thy ===== *)
theory IdentityFacts
  imports AuthApi Identity AuthFacts
begin

text \<open>
  What the account handlers and the identity flows guarantee together: an installation that has an enabled
  administrator keeps one, the first person through Home Assistant becomes one, an identity provider
  signs in only whom it vouches for, and a forwarded path cannot leave the origin.
\<close>

section \<open>The last administrator\<close>

definition has_admin :: "AuthStore \<Rightarrow> bool" where
  "has_admin db \<longleftrightarrow> (\<exists>u \<in> set (db_users db). is_admin u)"

lemma CountAdmins_pos: "0 < CountAdmins db \<longleftrightarrow> has_admin db"
  by (simp add: CountAdmins_def has_admin_def filter_empty_conv)

lemma same_row: "store_ok db \<Longrightarrow> u \<in> set (db_users db) \<Longrightarrow> v \<in> set (db_users db) \<Longrightarrow> us_id u = us_id v \<Longrightarrow> u = v"
  by (simp add: store_ok_def users_ok_def distinct_map inj_on_def)

lemma other_admin:
  assumes "store_ok db" "\<not> CountAdmins db \<le> 1"
  shows "\<exists>u \<in> set (db_users db). is_admin u \<and> us_id u \<noteq> i"
proof (rule ccontr)
  let ?as = "filter is_admin (db_users db)"
  assume "\<not> ?thesis"
  then have "us_id ` set ?as \<subseteq> {i}" by auto
  moreover have "distinct (map us_id ?as)"
    using assms(1) by (simp add: store_ok_def users_ok_def distinct_map_filter)
  ultimately have "length (map us_id ?as) \<le> card {i}"
    by (metis card_mono distinct_card finite.emptyI finite_insert list.set_map)
  with assms(2) show False by (simp add: CountAdmins_def)
qed

text \<open>Statements that leave the role and the state of every account alone.\<close>

lemma update_user_admin:
  assumes "has_admin db" and "\<And>u. u \<in> set (db_users db) \<Longrightarrow> is_admin u \<Longrightarrow> us_id u = i \<Longrightarrow> is_admin (f u)"
  shows "has_admin (snd (update_user i f db))"
proof -
  obtain u where "u \<in> set (db_users db)" "is_admin u" using assms(1) by (auto simp: has_admin_def)
  with assms(2) [of u] show ?thesis by (cases "us_id u = i") (auto simp: update_user_def has_admin_def rev_image_eqI)
qed

lemma update_unique_admin:
  "has_admin db \<Longrightarrow> (\<And>u. u \<in> set (db_users db) \<Longrightarrow> is_admin u \<Longrightarrow> us_id u = i \<Longrightarrow> is_admin (f u)) \<Longrightarrow>
     has_admin (snd (update_unique i f db))"
  by (simp add: update_unique_def update_user_admin)

lemma update_other_admin:
  assumes "u \<in> set (db_users db)" "is_admin u" "us_id u \<noteq> i"
  shows "has_admin (snd (update_unique i f db))"
  using assms by (auto simp: update_unique_def update_user_def has_admin_def rev_image_eqI)

lemma has_admin_frame [frame_simp]:
  "has_admin (drop_codes i db) = has_admin db"
  "has_admin (DeleteUserSessions i db) = has_admin db"
  "has_admin (DeleteSession i db) = has_admin db"
  "has_admin (snd (CreateSession now s db)) = has_admin db"
  "has_admin (snd (ReplaceRecoveryCodes fresh i hs db)) = has_admin db"
  by (simp_all add: has_admin_def drop_codes_def DeleteUserSessions_def DeleteSession_def CreateSession_def
      ReplaceRecoveryCodes_def Let_def)

lemma has_admin_plain:
  assumes "has_admin db"
  shows "has_admin (snd (SetPasswordHash i h db))" and "has_admin (snd (LinkProvider i p s db))"
    and "has_admin (snd (TouchLogin now i db))" and "has_admin (DisableTOTP i db)" and "has_admin (SetTOTPSecret i enc db)"
  using assms
  by (auto simp: SetPasswordHash_def LinkProvider_def TouchLogin_def DisableTOTP_def SetTOTPSecret_def set_user_def
      is_admin_def frame_simp intro!: update_user_admin update_unique_admin)

lemma has_admin_CreateUser: "has_admin db \<Longrightarrow> has_admin (snd (CreateUser now u db))"
  by (auto simp: CreateUser_def Let_def has_admin_def)

lemma has_admin_UpdateUser:
  assumes "store_ok db" "has_admin db" "GetUser (us_id v) db = Inr old"
    and "is_admin old \<Longrightarrow> \<not> is_admin v \<Longrightarrow> \<not> CountAdmins db \<le> 1"
  shows "has_admin (snd (UpdateUser v db))"
proof (cases "is_admin old \<and> \<not> is_admin v")
  case True
  with assms(4) obtain u where "u \<in> set (db_users db)" "is_admin u" "us_id u \<noteq> us_id v"
    using other_admin [OF assms(1), of "us_id v"] by auto
  with assms(2) show ?thesis by (simp add: UpdateUser_def update_other_admin)
next
  case False
  have old: "old \<in> set (db_users db)" "us_id old = us_id v"
    using lookup_Inr [OF assms(3) [unfolded GetUser_def]] by simp_all
  have "is_admin v" if "is_admin u" "us_id u = us_id v" "u \<in> set (db_users db)" for u
  proof -
    have "u = old" using same_row [OF assms(1)] that old by simp
    with False that show ?thesis by simp
  qed
  then have "has_admin (snd (update_unique (us_id v) (\<lambda>w. w\<lparr>us_email := NormalizeEmail (us_email v), us_name := us_name v,
      us_role := us_role v, us_disabled := us_disabled v\<rparr>) db))"
    by (intro update_unique_admin assms(2)) (simp add: is_admin_def)
  with assms(2) show ?thesis by (simp add: UpdateUser_def)
qed

text \<open>The handlers, one by one.\<close>

lemma snd_answer:
  "snd (case X of (Inl e, d) \<Rightarrow> (f e, d) | (Inr x, d) \<Rightarrow> (g x, h d)) = (if isl (fst X) then snd X else h (snd X))"
  by (cases X; cases "fst X") auto

lemma handleCreateUser_admin:
  assumes "has_admin db" shows "has_admin (snd (handleCreateUser parse hash now fresh req db))"
proof (cases req)
  case (Some r)
  show ?thesis
    using has_admin_CreateUser [OF assms] assms
    by (simp add: handleCreateUser_def Some Let_def snd_answer split: option.split)
qed (use assms in \<open>simp add: handleCreateUser_def\<close>)

lemma handleUpdateUser_admin:
  assumes "store_ok db" "has_admin db"
  shows "has_admin (snd (handleUpdateUser parse actor i req db))"
proof (cases req)
  case (Some r)
  show ?thesis
  proof (cases "GetUser i db")
    case (Inr old)
    define v where "v = old\<lparr>us_email := ur_email r, us_name := ur_name r, us_role := ur_role r, us_disabled := ur_disabled r\<rparr>"
    have i: "us_id old = i" using lookup_Inr [OF Inr [unfolded GetUser_def]] by simp
    have "has_admin (snd (UpdateUser v db))"
      if "\<not> (us_role old = RoleAdmin \<and> \<not> us_disabled old \<and> (ur_role r \<noteq> RoleAdmin \<or> ur_disabled r) \<and> CountAdmins db \<le> 1)"
      by (rule has_admin_UpdateUser [OF assms]) (use Inr i that in \<open>auto simp: is_admin_def v_def\<close>)
    with assms(2) show ?thesis
      unfolding handleUpdateUser_def Some Inr Let_def option.case sum.case v_def [symmetric]
      by (auto simp: snd_answer frame_simp)
  qed (use assms in \<open>simp add: handleUpdateUser_def Some\<close>)
qed (use assms in \<open>simp add: handleUpdateUser_def\<close>)

lemma handleDeleteUser_admin:
  assumes "store_ok db" "has_admin db" shows "has_admin (snd (handleDeleteUser actor i db))"
proof (cases "GetUser i db")
  case (Inr old)
  have old: "old \<in> set (db_users db)" "us_id old = i" using lookup_Inr [OF Inr [unfolded GetUser_def]] by simp_all
  have "\<exists>u \<in> set (db_users db). is_admin u \<and> us_id u \<noteq> i" if "\<not> (is_admin old \<and> CountAdmins db \<le> 1)"
  proof (cases "is_admin old")
    case True
    with that show ?thesis by (intro other_admin assms(1)) simp
  next
    case False
    obtain u where "u \<in> set (db_users db)" "is_admin u" using assms(2) by (auto simp: has_admin_def)
    with False old same_row [OF assms(1)] show ?thesis by metis
  qed
  then have "has_admin (snd (DeleteUser i db))" if "\<not> (is_admin old \<and> CountAdmins db \<le> 1)"
    using that assms(2) by (auto simp: DeleteUser_def has_admin_def)
  with assms(2) show ?thesis
    by (auto simp: handleDeleteUser_def Inr snd_answer is_admin_def)
qed (use assms in \<open>simp add: handleDeleteUser_def\<close>)

lemma resolveIngressUser_admin:
  assumes "store_ok db" "has_admin db" shows "has_admin (snd (resolveIngressUser cfg now fresh i db))"
proof (cases "GetUserByProviderSubject ingressProvider (ii_subject i) db")
  case (Inl e)
  with assms(2) show ?thesis by (simp add: resolveIngressUser_def Let_def snd_answer has_admin_CreateUser)
next
  case (Inr u)
  have u: "u \<in> set (db_users db)" using lookup_Inr [OF Inr [unfolded GetUserByProviderSubject_def]] by simp
  have "GetUser (us_id u) db = Inr u"
    using unique_find [of us_id "db_users db" u] assms(1) u by (simp add: GetUser_def lookup_find store_ok_def users_ok_def)
  moreover define v where "v = u\<lparr>us_role := ingressRoleFor cfg i\<rparr>"
  ultimately have "has_admin (snd (UpdateUser v db))"
    if "\<not> (us_role u = RoleAdmin \<and> ingressRoleFor cfg i \<noteq> RoleAdmin \<and> CountAdmins db \<le> 1)" "\<not> us_disabled u"
    by (intro has_admin_UpdateUser [OF assms]) (use that in \<open>auto simp: is_admin_def\<close>)
  moreover have "CountAdmins db \<noteq> 0" using assms(2) CountAdmins_pos [of db] by simp
  ultimately show ?thesis
    using assms(2) unfolding resolveIngressUser_def Inr Let_def sum.case
    by (auto simp: snd_answer v_def)
qed

lemma resolveFederatedUser_admin:
  assumes "has_admin db"
  shows "has_admin (snd (resolveFederatedUser signup now fresh p subject email name admins db))"
  using assms
  by (auto simp: resolveFederatedUser_def Let_def snd_answer has_admin_CreateUser has_admin_plain split: sum.split)

text \<open>What an installation is set up with, and what can be done to its accounts over the interface.\<close>

record Installation =
  in_parseAddress :: "string \<Rightarrow> string option"
  in_hash :: "string \<Rightarrow> string"
  in_crypto :: Crypto
  in_config :: AuthConfig
  in_ingress :: IngressConfig
  in_splitHost :: "string \<Rightarrow> string option"
  in_allowSignup :: bool

datatype api_op =
    ApiCreateUser time string "userRequest option" | ApiUpdateUser User string "userRequest option"
  | ApiResetPassword string "string option" | ApiDeleteUser User string | ApiClearTwoFactor "User option" string
  | ApiChangePassword time string Request User "(string \<times> string) option" | ApiEnrol string User
  | ApiLogout Request
  | ApiIngress time string ingressIdentity | ApiFederated time string string string string string "string list"

fun api_step :: "Installation \<Rightarrow> api_op \<Rightarrow> AuthStore \<Rightarrow> AuthStore" where
  "api_step ins (ApiCreateUser now fresh req) db = snd (handleCreateUser (in_parseAddress ins) (in_hash ins) now fresh req db)"
| "api_step ins (ApiUpdateUser actor i req) db = snd (handleUpdateUser (in_parseAddress ins) actor i req db)"
| "api_step ins (ApiResetPassword i req) db = snd (handleResetPassword (in_hash ins) i req db)"
| "api_step ins (ApiDeleteUser actor i) db = snd (handleDeleteUser actor i db)"
| "api_step ins (ApiClearTwoFactor actor i) db = snd (handleClearTwoFactor actor i db)"
| "api_step ins (ApiChangePassword now token r u req) db =
     snd (handleChangePassword (in_crypto ins) (in_config ins) (in_hash ins) now (in_splitHost ins) token r u req db)"
| "api_step ins (ApiEnrol enc u) db = snd (handleTwoFactorEnrol enc u db)"
| "api_step ins (ApiLogout r) db = snd (handleLogout (in_crypto ins) r db)"
| "api_step ins (ApiIngress now fresh i) db = snd (resolveIngressUser (in_ingress ins) now fresh i db)"
| "api_step ins (ApiFederated now fresh p subject email name admins) db =
     snd (resolveFederatedUser (in_allowSignup ins) now fresh p subject email name admins db)"

lemma IssueSession_db: "snd (IssueSession cr cfg now split token r u db) = snd (CreateSession now
    \<lparr>ss_id = cr_sha cr token, ss_userID = us_id u, ss_createdAt = 0, ss_expiresAt = now + ac_sessionTTLHours cfg * 3600,
     ss_userAgent = take 255 (rq_userAgent r), ss_ip = ClientIP split cfg r\<rparr> db)"
  by (simp add: IssueSession_def snd_answer)

lemma snd_answer_check: "snd (case X of (Inl e, d) \<Rightarrow> (f e, d) | (Inr x, d) \<Rightarrow> (g x, d)) = snd X"
  by (cases X; cases "fst X") auto

lemma api_step_admin:
  assumes "store_ok db" "has_admin db" shows "has_admin (api_step ins op db)"
proof (cases op)
  case (ApiResetPassword i req)
  with assms(2) show ?thesis
    by (auto simp: handleResetPassword_def snd_answer has_admin_plain frame_simp split: option.split)
next
  case (ApiClearTwoFactor actor i)
  with assms(2) show ?thesis
    by (auto simp: handleClearTwoFactor_def has_admin_plain split: option.split sum.split)
next
  case (ApiChangePassword now token r u req)
  with assms(2) show ?thesis
    by (auto simp: handleChangePassword_def snd_answer has_admin_plain frame_simp IssueSession_db split: option.split)
next
  case (ApiEnrol enc u)
  with assms(2) show ?thesis
    by (simp add: handleTwoFactorEnrol_def snd_answer BeginTwoFactorEnrolment_def has_admin_plain)
next
  case (ApiLogout r)
  with assms(2) show ?thesis by (auto simp: handleLogout_def Logout_def frame_simp split: option.split)
qed (use assms in \<open>simp_all add: handleCreateUser_admin handleUpdateUser_admin handleDeleteUser_admin
       resolveIngressUser_admin resolveFederatedUser_admin\<close>)

text \<open>Every handler works through the statements of the store, so the tables stay sound.\<close>

lemma store_ok_statements:
  assumes "store_ok db"
  shows "store_ok (snd (CreateUser now u db))" "store_ok (snd (UpdateUser u db))" "store_ok (snd (SetPasswordHash i h db))"
    "store_ok (snd (LinkProvider i p sub db))" "store_ok (snd (DeleteUser i db))" "store_ok (snd (CreateSession now s db))"
    "store_ok (DeleteSession i db)" "store_ok (DeleteUserSessions i db)" "store_ok (SetTOTPSecret i enc db)" "store_ok (DisableTOTP i db)"
  using store_step_ok [OF assms, of "SCreateUser now u"] store_step_ok [OF assms, of "SUpdateUser u"]
    store_step_ok [OF assms, of "SSetPassword i h"] store_step_ok [OF assms, of "SLinkProvider i p sub"]
    store_step_ok [OF assms, of "SDeleteUser i"] store_step_ok [OF assms, of "SCreateSession now s"]
    store_step_ok [OF assms, of "SDeleteSession i"] store_step_ok [OF assms, of "SDeleteUserSessions i"]
    store_step_ok [OF assms, of "SSetTOTP i enc"] store_step_ok [OF assms, of "SDisableTOTP i"]
  by simp_all

lemma api_step_ok:
  assumes "store_ok db" shows "store_ok (api_step ins op db)"
proof (cases op)
  case (ApiCreateUser now fresh req)
  with assms show ?thesis
    by (auto simp: handleCreateUser_def Let_def snd_answer store_ok_statements split: option.split)
next
  case (ApiUpdateUser actor i req)
  with assms show ?thesis
    by (auto simp: handleUpdateUser_def Let_def snd_answer store_ok_statements split: option.split sum.split)
next
  case (ApiResetPassword i req)
  with assms show ?thesis
    by (auto simp: handleResetPassword_def snd_answer store_ok_statements split: option.split)
next
  case (ApiDeleteUser actor i)
  with assms show ?thesis
    by (auto simp: handleDeleteUser_def snd_answer store_ok_statements split: sum.split)
next
  case (ApiClearTwoFactor actor i)
  with assms show ?thesis
    by (auto simp: handleClearTwoFactor_def store_ok_statements split: option.split sum.split)
next
  case (ApiChangePassword now token r u req)
  with assms show ?thesis
    by (auto simp: handleChangePassword_def snd_answer store_ok_statements IssueSession_db split: option.split)
next
  case (ApiEnrol enc u)
  with assms show ?thesis
    by (simp add: handleTwoFactorEnrol_def snd_answer BeginTwoFactorEnrolment_def store_ok_statements)
next
  case (ApiLogout r)
  with assms show ?thesis by (auto simp: handleLogout_def Logout_def store_ok_statements split: option.split)
next
  case (ApiIngress now fresh i)
  with assms show ?thesis
    by (auto simp: resolveIngressUser_def Let_def snd_answer store_ok_statements split: sum.split)
next
  case (ApiFederated now fresh p subject email name admins)
  with assms show ?thesis
    by (auto simp: resolveFederatedUser_def Let_def snd_answer store_ok_statements split: sum.split)
qed

text \<open>
  C16. Once an installation has an enabled administrator it keeps one: whatever requests come in over the
  account interface, from a Home Assistant panel or from an identity provider, one after another, some
  enabled account still has the administrator role at the end.
\<close>

theorem last_administrator_kept:
  assumes "0 < CountAdmins (store_run ops)"
  shows "0 < CountAdmins (fold (api_step ins) requests (store_run ops))"
proof -
  have "store_ok db \<and> has_admin db \<Longrightarrow> has_admin (fold (api_step ins) requests db)" for db
    by (induction requests arbitrary: db) (simp_all add: api_step_ok api_step_admin)
  with assms store_run_ok show ?thesis by (simp add: CountAdmins_pos)
qed

definition ex_installation :: Installation where
  "ex_installation = \<lparr>in_parseAddress = Some, in_hash = (\<lambda>s. s), in_crypto = ex_crypto,
     in_config = \<lparr>ac_allowLocal = True, ac_requireTwoFactor = True, ac_trustProxyHeaders = False, ac_sessionTTLHours = 1\<rparr>,
     in_ingress = \<lparr>ic_trustedProxies = [], ic_fallbackUser = [], ic_adminUsers = [], ic_defaultRole = ''viewer''\<rparr>,
     in_splitHost = (\<lambda>s. None), in_allowSignup = True\<rparr>"

theorem last_administrator_kept_witness:
  "0 < CountAdmins (fold (api_step ex_installation)
      [ApiDeleteUser (ex_user\<lparr>us_id := ''v''\<rparr>) ''u'',
       ApiUpdateUser (ex_user\<lparr>us_id := ''v''\<rparr>) ''u''
         (Some \<lparr>ur_email = ''u'', ur_name = [], ur_role = ''viewer'', ur_password = [], ur_disabled = False\<rparr>)]
      (store_run [SCreateUser 1 ex_user]))"
  by (rule last_administrator_kept) code_simp

text \<open>
  The check and the write are two statements: two administrators who demote each other at once both pass
  the check, and the second write leaves none.
\<close>

definition two_admins :: AuthStore where
  "two_admins = store_run [SCreateUser 1 ex_user, SCreateUser 1 (ex_user\<lparr>us_id := ''v'', us_email := ''v''\<rparr>)]"

definition demote :: "string \<Rightarrow> userRequest option" where
  "demote email = Some \<lparr>ur_email = email, ur_name = [], ur_role = ''viewer'', ur_password = [], ur_disabled = False\<rparr>"

lemma demotions_race:
  "fst (handleUpdateUser Some ex_user ''v'' (demote ''v'') two_admins) = 200"
  "fst (handleUpdateUser Some (ex_user\<lparr>us_id := ''v''\<rparr>) ''u'' (demote ''u'') two_admins) = 200"
  "CountAdmins (snd (UpdateUser (ex_user\<lparr>us_role := ''viewer''\<rparr>)
      (snd (handleUpdateUser Some ex_user ''v'' (demote ''v'') two_admins)))) = 0"
  by code_simp+

lemma update_user_row:
  assumes "u \<in> set (db_users db)" "us_id u = i" shows "f u \<in> set (db_users (snd (update_user i f db)))"
  using assms by (auto simp: update_user_def rev_image_eqI)

lemma CreateUser_Inr:
  "CreateUser now u db = (Inr v, db') \<Longrightarrow>
     v = created_user now u \<and> v\<lparr>us_lastLoginAt := None, us_totpConfirmedAt := None\<rparr> \<in> set (db_users db')"
  by (auto simp: CreateUser_def Let_def split: if_splits)

lemma created_user_fields:
  "us_role (created_user now u) = us_role u" "us_disabled (created_user now u) = us_disabled u"
  "us_providerSubject (created_user now u) = us_providerSubject u"
  "us_provider u \<noteq> [] \<Longrightarrow> us_provider (created_user now u) = us_provider u"
  "us_email (created_user now u) = NormalizeEmail (us_email u)"
  by (simp_all add: created_user_def Let_def)

lemma UpdateUser_row:
  assumes "UpdateUser v db = (Inr (), db')" "u \<in> set (db_users db)" "us_id u = us_id v"
  shows "u\<lparr>us_email := NormalizeEmail (us_email v), us_name := us_name v, us_role := us_role v, us_disabled := us_disabled v\<rparr>
    \<in> set (db_users db')"
  using UpdateUser_Inr [OF assms(1)] assms(2,3) by (auto simp: rev_image_eqI)

lemma resolveIngressUser_Inr:
  assumes ok: "store_ok db" and r: "resolveIngressUser cfg now fresh i db = (Inr u, db')"
  shows "has_admin db' \<and> \<not> us_disabled u \<and> us_provider u = ingressProvider \<and> us_providerSubject u = ii_subject i"
proof (cases "has_admin db")
  case True
  have "has_admin db'" using resolveIngressUser_admin [OF ok True, of cfg now fresh i] r by simp
  moreover have "\<not> us_disabled u \<and> us_provider u = ingressProvider \<and> us_providerSubject u = ii_subject i"
    using r unfolding resolveIngressUser_def Let_def
    by (auto dest!: CreateUser_Inr lookup_Inr simp: created_user_fields GetUserByProviderSubject_def ingressProvider_def
        split: sum.splits if_splits prod.splits)
  ultimately show ?thesis by blast
next
  case False
  then have none: "CountAdmins db = 0" using CountAdmins_pos [of db] by simp
  show ?thesis
  proof (cases "GetUserByProviderSubject ingressProvider (ii_subject i) db")
    case (Inl e)
    with r none obtain w where c: "CreateUser now w db = (Inr u, db')" and w: "us_role w = RoleAdmin" "\<not> us_disabled w"
        "us_provider w = ingressProvider" "us_providerSubject w = ii_subject i"
      unfolding resolveIngressUser_def Let_def by (auto split: sum.splits prod.splits)
    have "is_admin (u\<lparr>us_lastLoginAt := None, us_totpConfirmedAt := None\<rparr>)"
      using CreateUser_Inr [OF c] w by (simp add: is_admin_def created_user_fields)
    with CreateUser_Inr [OF c] w show ?thesis
      unfolding has_admin_def by (auto simp: created_user_fields ingressProvider_def)
  next
    case (Inr v)
    have v: "v \<in> set (db_users db)" "us_provider v = ingressProvider" "us_providerSubject v = ii_subject i"
      using lookup_Inr [OF Inr [unfolded GetUserByProviderSubject_def]] by simp_all
    have "us_role v \<noteq> RoleAdmin" if "\<not> us_disabled v"
      using False v(1) that by (auto simp: has_admin_def is_admin_def)
    with r Inr none have w: "\<not> us_disabled v" "UpdateUser (v\<lparr>us_role := RoleAdmin\<rparr>) db = (Inr (), db')" "u = v\<lparr>us_role := RoleAdmin\<rparr>"
      by (auto simp: resolveIngressUser_def Let_def split: if_splits sum.splits prod.splits)
    have "\<exists>x. x \<in> set (db_users db') \<and> is_admin x"
      by (rule exI, rule conjI, rule UpdateUser_row [OF w(2) v(1)]) (use w(1) in \<open>simp_all add: is_admin_def\<close>)
    then have "has_admin db'" by (auto simp: has_admin_def)
    with v w show ?thesis by simp
  qed
qed

text \<open>
  A Home Assistant request that is let through leaves the installation with an enabled administrator,
  even if it had none, and speaks for an enabled account that is linked to the identity named in the
  request's headers.
\<close>

theorem ingress_leaves_admin:
  assumes "AuthenticateIngress net cfg now fresh remoteAddr userID userName display (store_run ops) = (Inr u, db)"
  shows "0 < CountAdmins db \<and> checkIngressSource net cfg remoteAddr \<and> \<not> us_disabled u \<and> us_provider u = ingressProvider \<and>
    (\<exists>i. ingressIdentityOf cfg userID userName display = Some i \<and> us_providerSubject u = ii_subject i)"
proof -
  obtain i where "checkIngressSource net cfg remoteAddr" "ingressIdentityOf cfg userID userName display = Some i"
    "resolveIngressUser cfg now fresh i (store_run ops) = (Inr u, db)"
    using assms by (auto simp: AuthenticateIngress_def split: if_splits option.splits)
  with resolveIngressUser_Inr [OF store_run_ok this(3)] show ?thesis by (simp add: CountAdmins_pos)
qed

definition ex_net :: "string Net" where
  "ex_net = \<lparr>nt_splitHost = (\<lambda>s. None), nt_parseIP = Some, nt_parseCIDR = (\<lambda>s. None)\<rparr>"

definition ex_ingress :: IngressConfig where
  "ex_ingress = \<lparr>ic_trustedProxies = [''172.30.32.2''], ic_fallbackUser = [], ic_adminUsers = [], ic_defaultRole = ''viewer''\<rparr>"

theorem ingress_leaves_admin_witness:
  "0 < CountAdmins (snd (AuthenticateIngress ex_net ex_ingress 1 ''f'' ''172.30.32.2'' ''abc'' ''ann'' ''Ann'' (store_run [])))"
proof -
  let ?r = "AuthenticateIngress ex_net ex_ingress 1 ''f'' ''172.30.32.2'' ''abc'' ''ann'' ''Ann'' (store_run [])"
  have "isl (fst ?r) = False" by code_simp
  then obtain u where "?r = (Inr u, snd ?r)" by (metis isl_def obj_sumE prod.collapse)
  from ingress_leaves_admin [OF this] show ?thesis by blast
qed

section \<open>Sign-in at an identity provider\<close>

lemma resolveFederatedUser_Inr:
  assumes "resolveFederatedUser signup now fresh p subject email name admins db = (Inr u, db')"
  shows "\<not> us_disabled u" and "p \<noteq> [] \<Longrightarrow> us_provider u = p \<and> us_providerSubject u = subject"
  using assms
  by (auto simp: resolveFederatedUser_def Let_def GetUserByProviderSubject_def created_user_fields
      dest!: lookup_Inr CreateUser_Inr split: sum.splits prod.splits if_splits)

lemma finish_signin_Inr:
  assumes "finish_signin sg now r p subject email name admins path db = (Inr (u, landing), db')"
  shows "\<exists>db1. resolveFederatedUser (sg_allowSignup sg) now (sg_freshID sg) p subject email name admins db = (Inr u, db1)"
    and "landing = (if path = [] then ''/'' else path)"
  using assms by (auto simp: finish_signin_def Let_def split: sum.splits prod.splits)

text \<open>
  C17. A sign-in through an identity provider succeeds only when the browser brings back the state this server
  sealed for that provider at most ten minutes ago, the provider's ID token carries the nonce of that
  state, and its claims name a subject and a verified address of an allowed domain; it then speaks for an
  enabled account linked to that subject. A sign-in that is refused before the account is looked up changes
  nothing.
\<close>

theorem CompleteSSO_sound:
  assumes "CompleteSSO oi sg now provider cb r db = (Inr (u, landing), db')" and "provider \<noteq> []"
  shows "\<exists>c sealed plain st pc raw cl.
    cb_stateCookie cb = Some c \<and> oi_decode oi c = Some sealed \<and> oi_unseal oi sealed = Some plain \<and> oi_state oi plain = Some st \<and>
    now \<le> os_expires st \<and> os_provider st = provider \<and> cb_state cb = os_state st \<and> cb_state cb \<noteq> [] \<and>
    oi_provider oi provider = Some pc \<and> oi_exchange oi provider (cb_code cb) (os_verifier st) = Some raw \<and>
    oi_verify oi provider raw = Some (os_nonce st, cl) \<and> cl_emailVerified cl = Some True \<and> cl_subject cl \<noteq> [] \<and>
    checkDomain (NormalizeEmail (cl_email cl)) (pv_allowedDomains pc) \<and>
    \<not> us_disabled u \<and> us_provider u = provider \<and> us_providerSubject u = cl_subject cl \<and>
    landing = (if os_next st = [] then ''/'' else os_next st)"
proof -
  obtain st where st: "callback_state oi now provider cb = Inr st"
    and rest: "(case verified_claims oi provider st (cb_code cb) of Inl e \<Rightarrow> (Inl e, db)
      | Inr (pc, cl) \<Rightarrow> finish_signin sg now r provider (cl_subject cl) (NormalizeEmail (cl_email cl)) (cl_name cl)
                (pv_adminEmails pc) (os_next st) db) = (Inr (u, landing), db')"
    using assms(1) by (auto simp: CompleteSSO_def split: sum.splits)
  from rest obtain pc cl where cl: "verified_claims oi provider st (cb_code cb) = Inr (pc, cl)"
    and fin: "finish_signin sg now r provider (cl_subject cl) (NormalizeEmail (cl_email cl)) (cl_name cl)
                (pv_adminEmails pc) (os_next st) db = (Inr (u, landing), db')"
    by (auto split: sum.splits prod.splits)
  obtain c sealed plain where c: "cb_stateCookie cb = Some c" "oi_decode oi c = Some sealed" "oi_unseal oi sealed = Some plain"
      "oi_state oi plain = Some st" "now \<le> os_expires st" "os_provider st = provider" "cb_state cb = os_state st" "cb_state cb \<noteq> []"
    using st by (auto simp: callback_state_def split: option.splits if_splits)
  obtain raw where "oi_provider oi provider = Some pc" "oi_exchange oi provider (cb_code cb) (os_verifier st) = Some raw"
      "oi_verify oi provider raw = Some (os_nonce st, cl)" "cl_emailVerified cl = Some True" "cl_subject cl \<noteq> []"
      "checkDomain (NormalizeEmail (cl_email cl)) (pv_allowedDomains pc)"
    using cl by (auto simp: verified_claims_def split: option.splits if_splits)
  moreover note finish_signin_Inr [OF fin]
  moreover have "\<not> us_disabled u \<and> us_provider u = provider \<and> us_providerSubject u = cl_subject cl"
    using finish_signin_Inr(1) [OF fin] by (auto dest: resolveFederatedUser_Inr(1) resolveFederatedUser_Inr(2) [OF _ assms(2)])
  ultimately show ?thesis using c by blast
qed

definition ex_claims :: claims where
  "ex_claims = \<lparr>cl_subject = ''sub'', cl_email = ''ann@x.org'', cl_emailVerified = Some True, cl_name = ''Ann''\<rparr>"

definition ex_provider :: providerConfig where
  "ex_provider = \<lparr>pv_allowedDomains = [''X.org''], pv_adminEmails = [], pv_emailAttribute = [], pv_nameAttribute = []\<rparr>"

definition ex_oidc :: OIDC where
  "ex_oidc = \<lparr>oi_decode = Some, oi_unseal = Some, oi_state = (\<lambda>s. Some (StartSSO ''p'' ''st'' ''n'' ''v'' ''/x'' 0)),
     oi_provider = (\<lambda>i. Some ex_provider), oi_exchange = (\<lambda>i c v. Some ''raw''), oi_verify = (\<lambda>i r. Some (''n'', ex_claims))\<rparr>"

definition ex_signin :: Signin where
  "ex_signin = \<lparr>sg_crypto = ex_crypto, sg_config = in_config ex_installation, sg_allowSignup = True, sg_splitHost = (\<lambda>s. None),
     sg_freshID = ''f'', sg_token = ''t''\<rparr>"

definition ex_callback :: Callback where
  "ex_callback = \<lparr>cb_stateCookie = Some ''c'', cb_state = ''st'', cb_error = [], cb_code = ''code''\<rparr>"

theorem CompleteSSO_sound_witness:
  "\<exists>u. us_provider u = ''p'' \<and> fst (CompleteSSO ex_oidc ex_signin 5 ''p'' ex_callback ex_request (store_run [])) = Inr (u, ''/x'')"
proof -
  let ?st = "StartSSO ''p'' ''st'' ''n'' ''v'' ''/x'' 0"
  let ?f = "finish_signin ex_signin 5 ex_request ''p'' (cl_subject ex_claims) (NormalizeEmail (cl_email ex_claims)) (cl_name ex_claims)
    (pv_adminEmails ex_provider) (os_next ?st) (store_run [])"
  have "callback_state ex_oidc 5 ''p'' ex_callback = Inr ?st" by code_simp
  moreover have "verified_claims ex_oidc ''p'' ?st (cb_code ex_callback) = Inr (ex_provider, ex_claims)" by code_simp
  ultimately have f: "CompleteSSO ex_oidc ex_signin 5 ''p'' ex_callback ex_request (store_run []) = ?f"
    by (simp add: CompleteSSO_def)
  have "\<not> isl (fst ?f)" by code_simp
  then obtain u landing where u: "?f = (Inr (u, landing), snd ?f)" by (cases ?f; cases "fst ?f") auto
  have "landing = ''/x''" using finish_signin_Inr(2) [OF u] by (simp add: StartSSO_def sanitizeNext_def)
  with CompleteSSO_sound [OF u [folded f]] u f show ?thesis by (metis fst_conv list.distinct(1))
qed

text \<open>Where the browser is sent after a sign-in is a path of this server, but only as this server reads it.\<close>

lemma sanitizeNext_local: "prefix ''/'' (sanitizeNext p) \<and> \<not> prefix ''//'' (sanitizeNext p)"
  by (simp add: sanitizeNext_def)

lemma sanitizeNext_backslash: "sanitizeNext (''/'' @ [CHR 0x5C] @ ''evil.example'') = ''/'' @ [CHR 0x5C] @ ''evil.example''"
  by code_simp

text \<open>The same subject at another provider takes over an account that is linked already.\<close>

lemma relinked_across_providers:
  "resolveFederatedUser True 2 ''f'' ''other'' ''sub'' ''u'' [] []
      (store_run [SCreateUser 1 (ex_user\<lparr>us_provider := ''first'', us_providerSubject := ''sub''\<rparr>)]) =
    (Inr (ex_user\<lparr>us_provider := ''other'', us_providerSubject := ''sub''\<rparr>),
     store_run [SCreateUser 1 (ex_user\<lparr>us_provider := ''other'', us_providerSubject := ''sub''\<rparr>)])"
  by code_simp

text \<open>The policy that every local account must have a second factor decides nothing at sign-in.\<close>

lemma Login_ignores_policy:
  "Login cr (cfg\<lparr>ac_requireTwoFactor := b\<rparr>) now email password ip s = Login cr cfg now email password ip s"
  by (simp add: Login_def)

section \<open>The forwarded path\<close>

lemma join_with_concat: "join_with c (x # ps) = x @ concat (map (\<lambda>p. c # p) ps)"
  by (induction ps arbitrary: x) (simp_all add: join_with_Cons)

lemma path_char_slash: "path_char c \<Longrightarrow> c \<noteq> CHR 0x2F"
  by (auto simp: path_char_def)

lemma trim_slashes_segments:
  assumes "qs \<noteq> []" "list_all path_segment qs"
  shows "rev (dropWhile (\<lambda>c. c = CHR 0x2F) (rev (concat (map (\<lambda>q. CHR 0x2F # q) qs)))) = concat (map (\<lambda>q. CHR 0x2F # q) qs)"
proof -
  obtain ps q where qs: "qs = ps @ [q]" using assms(1) by (cases qs rule: rev_cases) auto
  then obtain p c where q: "q = p @ [c]" "path_char c"
    using assms(2) by (cases q rule: rev_cases) (auto simp: path_segment_def)
  then show ?thesis using path_char_slash [of c] by (simp add: qs)
qed

text \<open>
  Whatever the header says, the prefix the panel is served under is empty or a sequence of non-empty
  segments of letters, digits and \<^verbatim>\<open>._~-\<close>, each after a single slash: it can name neither another origin nor end
  an HTML attribute.
\<close>

theorem IngressPath_safe:
  "IngressPath raw = [] \<or> (\<exists>qs. qs \<noteq> [] \<and> list_all path_segment qs \<and> IngressPath raw = concat (map (\<lambda>q. CHR 0x2F # q) qs))"
proof (cases "ingress_path_matches raw")
  case True
  then obtain ps where sp: "split_on (CHR 0x2F) raw = [] # ps"
    and qs: "(let qs = (if ps \<noteq> [] \<and> last ps = [] then butlast ps else ps) in qs \<noteq> [] \<and> list_all path_segment qs)"
    by (auto simp: ingress_path_matches_def split: list.splits)
  define qs where "qs = (if ps \<noteq> [] \<and> last ps = [] then butlast ps else ps)"
  have ok: "qs \<noteq> []" "list_all path_segment qs" using qs by (simp_all add: qs_def Let_def)
  have raw: "raw = concat (map (\<lambda>q. CHR 0x2F # q) ps)"
    using join_split [of "CHR 0x2F" raw] by (simp add: sp join_with_concat)
  have "raw = concat (map (\<lambda>q. CHR 0x2F # q) qs) \<or> raw = concat (map (\<lambda>q. CHR 0x2F # q) qs) @ [CHR 0x2F]"
  proof (cases "ps \<noteq> [] \<and> last ps = []")
    case True
    then have "ps = qs @ [[]]" unfolding qs_def by (metis append_butlast_last_id)
    then show ?thesis using raw by simp
  next
    case False
    then have "qs = ps" unfolding qs_def by (rule if_not_P)
    with raw show ?thesis by simp
  qed
  then have "IngressPath raw = concat (map (\<lambda>q. CHR 0x2F # q) qs)"
    using trim_slashes_segments [OF ok] True unfolding IngressPath_def by auto
  with ok show ?thesis by blast
qed (simp add: IngressPath_def)

end
