(* ===== verification/LogBuf.thy ===== *)
theory LogBuf
  imports Ring
begin

text \<open>
  \<^verbatim>\<open>internal/logbuf/logbuf.go\<close>: the log records kept in memory for the log view. The wrapped
  \<^verbatim>\<open>slog.Handler\<close>, which every record is passed on to, is not modelled; a level is its number.
\<close>

section \<open>Records and levels\<close>

record LogRecord =
  lg_time :: time
  lg_level :: string
  lg_message :: string
  lg_attrs :: "(string \<times> string) list"
  lg_seq :: nat

definition DefaultSize :: nat where "DefaultSize = 1000"

definition LevelDebug :: int where "LevelDebug = -4"
definition LevelInfo :: int where "LevelInfo = 0"
definition LevelWarn :: int where "LevelWarn = 4"
definition LevelError :: int where "LevelError = 8"

definition levelValue :: "string \<Rightarrow> int" where
  "levelValue name =
     (if name = ''DEBUG'' then LevelDebug else if name = ''INFO'' then LevelInfo
      else if name = ''WARN'' then LevelWarn else if name = ''ERROR'' then LevelError else LevelError)"

definition ParseLevel :: "string \<Rightarrow> int option" where
  "ParseLevel name =
     (if name \<in> {[], ''debug'', ''DEBUG''} then Some LevelDebug
      else if name \<in> {''info'', ''INFO''} then Some LevelInfo
      else if name \<in> {''warn'', ''WARN'', ''warning''} then Some LevelWarn
      else if name \<in> {''error'', ''ERROR''} then Some LevelError
      else None)"

section \<open>The buffer\<close>

record Buffer =
  bf_buf :: "LogRecord list"
  bf_pos :: nat
  bf_filled :: bool
  bf_seq :: nat

definition zero_record :: LogRecord where
  "zero_record = \<lparr>lg_time = 0, lg_level = [], lg_message = [], lg_attrs = [], lg_seq = 0\<rparr>"

definition NewBuffer :: "int \<Rightarrow> Buffer" where
  "NewBuffer sz =
     (let sz = (if sz \<le> 0 then DefaultSize else nat sz)
      in \<lparr>bf_buf = replicate sz zero_record, bf_pos = 0, bf_filled = False, bf_seq = 0\<rparr>)"

definition buffer_write :: "LogRecord \<Rightarrow> Buffer \<Rightarrow> Buffer" where
  "buffer_write r b =
     (let pos = (bf_pos b + 1) mod length (bf_buf b) in
      b\<lparr>bf_buf := (bf_buf b)[bf_pos b := r], bf_pos := pos,
        bf_filled := (if pos = 0 then True else bf_filled b)\<rparr>)"

definition log_record :: "LogRecord \<Rightarrow> Buffer \<Rightarrow> Buffer" where
  "log_record r b =
     (let b = b\<lparr>bf_seq := bf_seq b + 1\<rparr> in buffer_write (r\<lparr>lg_seq := bf_seq b\<rparr>) b)"

text \<open>A derived handler records its own attributes after the record's.\<close>

definition child_record :: "(string \<times> string) list \<Rightarrow> LogRecord \<Rightarrow> Buffer \<Rightarrow> Buffer" where
  "child_record attrs r b = log_record (r\<lparr>lg_attrs := lg_attrs r @ attrs\<rparr>) b"

definition log_chronological :: "Buffer \<Rightarrow> LogRecord list" where
  "log_chronological b =
     (if \<not> bf_filled b then take (bf_pos b) (bf_buf b) else drop (bf_pos b) (bf_buf b) @ take (bf_pos b) (bf_buf b))"

definition Records :: "int \<Rightarrow> nat \<Rightarrow> int \<Rightarrow> Buffer \<Rightarrow> LogRecord list" where
  "Records minLevel since limit b =
     (let out = filter (\<lambda>r. \<not> lg_seq r \<le> since \<and> \<not> levelValue (lg_level r) < minLevel) (log_chronological b)
      in if limit > 0 \<and> int (length out) > limit then drop (length out - nat limit) out else out)"

interpretation lbuf: ring bf_buf bf_pos bf_filled buffer_write
  by unfold_locales (simp_all add: buffer_write_def Let_def)

section \<open>What a poll sees\<close>

text \<open>The records as they are numbered on the way in.\<close>

fun number_from :: "nat \<Rightarrow> LogRecord list \<Rightarrow> LogRecord list" where
  "number_from n [] = []"
| "number_from n (r # rs) = r\<lparr>lg_seq := Suc n\<rparr> # number_from (Suc n) rs"

lemma length_number_from [simp]: "length (number_from n rs) = length rs"
  by (induction rs arbitrary: n) simp_all

lemma seq_number_from: "map lg_seq (number_from n rs) = [Suc n..<Suc (n + length rs)]"
  by (induction rs arbitrary: n) (simp_all add: upt_rec)

lemma log_records_fold:
  "fold log_record rs b = (fold buffer_write (number_from (bf_seq b) rs) b)\<lparr>bf_seq := bf_seq b + length rs\<rparr>"
proof (induction rs arbitrary: b)
  case (Cons r rs)
  have w: "buffer_write x (c\<lparr>bf_seq := n\<rparr>) = (buffer_write x c)\<lparr>bf_seq := n\<rparr>" for x c n
    by (simp add: buffer_write_def Let_def)
  have ws: "fold buffer_write xs (c\<lparr>bf_seq := n\<rparr>) = (fold buffer_write xs c)\<lparr>bf_seq := n\<rparr>" for xs c n
    by (induction xs arbitrary: c) (simp_all add: w)
  have "log_record r b = (buffer_write (r\<lparr>lg_seq := Suc (bf_seq b)\<rparr>) b)\<lparr>bf_seq := Suc (bf_seq b)\<rparr>"
    by (simp add: log_record_def w)
  then show ?case using Cons [of "log_record r b"] by (simp add: ws)
qed simp

lemma NewBuffer_ok: "lbuf.ring_ok (NewBuffer sz)" "lbuf.contents (NewBuffer sz) = []"
  "length (bf_buf (NewBuffer sz)) = (if sz \<le> 0 then DefaultSize else nat sz)" "bf_seq (NewBuffer sz) = 0"
  by (simp_all add: NewBuffer_def lbuf.ring_ok_def lbuf.contents_def ring_contents_def DefaultSize_def Let_def)

lemma log_chronological_contents: "log_chronological b = lbuf.contents b"
  by (simp add: log_chronological_def lbuf.contents_def ring_contents_def)

text \<open>
  After any number of records the view reads exactly the newest ones the buffer has room for, numbered in
  the order they were logged: a poll gets those of them it has not seen that are severe enough, oldest
  first, cut to the newest when there are more than it asked for.
\<close>

theorem Records_poll:
  "Records minLevel since limit (fold log_record rs (NewBuffer sz)) =
    (let kept = last_n (if sz \<le> 0 then DefaultSize else nat sz) (number_from 0 rs);
         fresh = filter (\<lambda>r. since < lg_seq r \<and> minLevel \<le> levelValue (lg_level r)) kept
     in if limit \<le> 0 then fresh else last_n (nat limit) fresh)"
proof -
  let ?b = "fold buffer_write (number_from 0 rs) (NewBuffer sz)"
  have "lbuf.contents ?b = last_n (if sz \<le> 0 then DefaultSize else nat sz) (number_from 0 rs)"
    using lbuf.contents_pushes [OF NewBuffer_ok(1), of "number_from 0 rs" sz]
    by (simp only: NewBuffer_ok append_Nil)
  then have "log_chronological (fold log_record rs (NewBuffer sz)) =
      last_n (if sz \<le> 0 then DefaultSize else nat sz) (number_from 0 rs)"
    unfolding log_records_fold NewBuffer_ok(4) log_chronological_contents
    by (simp add: lbuf.contents_def)
  then show ?thesis
    by (auto simp: Records_def Let_def not_le not_less last_n_def)
qed

end
