(* ===== verification/Queue.thy ===== *)
theory Queue
  imports Prelude
begin

text \<open>
  Three parts of the program hand work to a goroutine over a channel of fixed capacity with a
  non-blocking send, and count what did not fit: the recorder's writer, a browser's writer and a plugin's
  worker. The locale \<open>bounded_queue\<close> is that contract, and its lemmas say what such a channel holds after
  any number of sends and receives.
\<close>

locale bounded_queue =
  fixes items :: "'s \<Rightarrow> 'm list" and lost :: "'s \<Rightarrow> nat" and capacity :: nat
    and send :: "'m \<Rightarrow> 's \<Rightarrow> 's"
  assumes send_room: "length (items s) < capacity \<Longrightarrow> items (send m s) = items s @ [m] \<and> lost (send m s) = lost s"
    and send_full: "capacity \<le> length (items s) \<Longrightarrow> items (send m s) = items s \<and> lost (send m s) = Suc (lost s)"
begin

lemma send_bounded: "length (items s) \<le> capacity \<Longrightarrow> length (items (send m s)) \<le> capacity"
  by (cases "length (items s) < capacity") (simp_all add: send_room send_full)

lemma send_accounted: "length (items (send m s)) + lost (send m s) = Suc (length (items s) + lost s)"
  by (cases "length (items s) < capacity") (simp_all add: send_room send_full)

lemma send_items: "items (send m s) = (if length (items s) < capacity then items s @ [m] else items s)"
  by (simp add: send_room send_full)

lemma send_lost: "lost (send m s) = (if length (items s) < capacity then lost s else Suc (lost s))"
  by (simp add: send_room send_full)

text \<open>Nothing is reordered or invented: a burst leaves what was queued and a prefix of the burst.\<close>

lemma sends_items: "length (items s) \<le> capacity \<Longrightarrow> items (fold send ms s) = take capacity (items s @ ms)"
proof (induction ms arbitrary: s)
  case (Cons m ms)
  then show ?case
    by (cases "length (items s) < capacity") (simp_all add: send_bounded send_items take_Cons' Suc_diff_Suc)
qed simp

lemma sends_accounted: "length (items (fold send ms s)) + lost (fold send ms s) = length (items s) + lost s + length ms"
proof (induction ms arbitrary: s)
  case (Cons m ms)
  show ?case using Cons [of "send m s"] send_accounted [of m s] by simp
qed simp

end

end
