(* ===== verification/Recorder.thy ===== *)
theory Recorder
  imports Message Queue "HOL-Library.List_Lexorder" "HOL-Library.Char_ord"
begin

text \<open>
  \<^verbatim>\<open>internal/recorder/recorder.go\<close> and the table it writes (\<^verbatim>\<open>internal/store/recording.go\<close>). The
  writer goroutine is a sequence of events, each a branch of its \<^verbatim>\<open>select\<close>; whether a transaction
  commits is part of the event. The table's rows are in the order of their ids.
\<close>

section \<open>The table\<close>

definition DefaultRecordKeep :: int where "DefaultRecordKeep = 200000"

record RecordedMessage =
  rm_id :: nat
  rm_connectionID :: string
  rm_topic :: string
  rm_payload :: bytes
  rm_qos :: nat
  rm_retain :: bool
  rm_receivedAt :: time

record RecordTable =
  rt_connections :: "string list"
  rt_rows :: "RecordedMessage list"
  rt_nextID :: nat

text \<open>
  The batch in one transaction, which commits or leaves the table as it was. A row must name a connection
  that is stored: deleting one takes its rows along.
\<close>

definition number_rows :: "nat \<Rightarrow> RecordedMessage list \<Rightarrow> RecordedMessage list" where
  "number_rows n ms = map (\<lambda>(i, m). m\<lparr>rm_id := i\<rparr>) (zip [n..<n + length ms] ms)"

definition AppendRecorded :: "bool \<Rightarrow> RecordedMessage list \<Rightarrow> RecordTable \<Rightarrow> bool \<times> RecordTable" where
  "AppendRecorded ok batch t =
     (if batch = [] then (True, t)
      else if \<not> ok \<or> (\<exists>m \<in> set batch. rm_connectionID m \<notin> set (rt_connections t)) then (False, t)
      else (True, t\<lparr>rt_rows := rt_rows t @ number_rows (rt_nextID t) batch, rt_nextID := rt_nextID t + length batch\<rparr>))"

definition connection_rows :: "string \<Rightarrow> RecordTable \<Rightarrow> RecordedMessage list" where
  "connection_rows c t = filter (\<lambda>r. rm_connectionID r = c) (rt_rows t)"

definition PruneRecorded :: "string \<Rightarrow> int \<Rightarrow> RecordTable \<Rightarrow> nat \<times> RecordTable" where
  "PruneRecorded c keep t =
     (let keep = (if keep \<le> 0 then DefaultRecordKeep else keep);
          kept = map rm_id (take (nat keep) (rev (connection_rows c t)));
          rows = filter (\<lambda>r. \<not> (rm_connectionID r = c \<and> rm_id r \<notin> set kept)) (rt_rows t)
      in (length (rt_rows t) - length rows, t\<lparr>rt_rows := rows\<rparr>))"

record RecordedQuery =
  rq_connection :: string
  rq_topic :: string
  rq_since :: time
  rq_until :: time
  rq_limit :: int

text \<open>
  Times are stored and compared as text; \<^verbatim>\<open>fmt\<close> is \<^verbatim>\<open>Time.Format(time.RFC3339Nano)\<close> and the order of
  texts is that of their bytes.
\<close>

definition Recorded :: "(time \<Rightarrow> string) \<Rightarrow> RecordedQuery \<Rightarrow> RecordTable \<Rightarrow> RecordedMessage list" where
  "Recorded fmt q t =
     (let limit = (if rq_limit q \<le> 0 then 500 else rq_limit q);
          topic = trim_space (rq_topic q);
          rows = connection_rows (rq_connection q) t;
          rows = (if topic = [] then rows else filter (\<lambda>r. rm_topic r = topic) rows);
          rows = (if rq_since q = 0 then rows else filter (\<lambda>r. fmt (rm_receivedAt r) \<ge> fmt (rq_since q)) rows);
          rows = (if rq_until q = 0 then rows else filter (\<lambda>r. fmt (rm_receivedAt r) \<le> fmt (rq_until q)) rows)
      in take (nat limit) (rev rows))"

record RecordingStats =
  rs_rows :: nat
  rs_oldest :: "time option"
  rs_newest :: "time option"
  rs_bytes :: nat

definition recording_stats :: "(time \<Rightarrow> string) \<Rightarrow> (string \<Rightarrow> time option) \<Rightarrow> string \<Rightarrow> RecordTable \<Rightarrow> RecordingStats" where
  "recording_stats fmt parse c t =
     (let rows = connection_rows c t; texts = map (\<lambda>r. fmt (rm_receivedAt r)) rows in
      \<lparr>rs_rows = length rows,
       rs_oldest = (if texts = [] then None else parse (Min (set texts))),
       rs_newest = (if texts = [] then None else parse (Max (set texts))),
       rs_bytes = (\<Sum>r\<leftarrow>rows. length (rm_payload r))\<rparr>)"

definition DeleteRecorded :: "string \<Rightarrow> RecordTable \<Rightarrow> RecordTable" where
  "DeleteRecorded c t = t\<lparr>rt_rows := filter (\<lambda>r. rm_connectionID r \<noteq> c) (rt_rows t)\<rparr>"

definition DeleteConnectionRows :: "string \<Rightarrow> RecordTable \<Rightarrow> RecordTable" where
  "DeleteConnectionRows c t = (DeleteRecorded c t)\<lparr>rt_connections := filter (\<lambda>d. d \<noteq> c) (rt_connections t)\<rparr>"

section \<open>The recorder\<close>

definition queueDepth :: nat where "queueDepth = 4096"
definition batchSize :: nat where "batchSize = 500"
definition maxPayload :: nat where "maxPayload = 64 * 1024"

record Recorder =
  re_wanted :: "string \<rightharpoonup> int"
  re_queue :: "RecordedMessage list"
  re_dropped :: nat
  re_written :: nat
  re_batch :: "RecordedMessage list"
  re_db :: RecordTable

definition NewRecorder :: "RecordTable \<Rightarrow> Recorder" where
  "NewRecorder db = \<lparr>re_wanted = Map.empty, re_queue = [], re_dropped = 0, re_written = 0, re_batch = [], re_db = db\<rparr>"

definition Configure :: "string \<Rightarrow> bool \<Rightarrow> int \<Rightarrow> Recorder \<Rightarrow> Recorder" where
  "Configure c record keep r =
     r\<lparr>re_wanted := (if record then (re_wanted r)(c \<mapsto> keep) else (re_wanted r)(c := None))\<rparr>"

definition Recording :: "string \<Rightarrow> Recorder \<Rightarrow> bool" where
  "Recording c r \<longleftrightarrow> re_wanted r c \<noteq> None"

definition recorded_of :: "Message \<Rightarrow> RecordedMessage" where
  "recorded_of m =
     \<lparr>rm_id = 0, rm_connectionID = msg_connectionID m, rm_topic = msg_topic m,
      rm_payload = (if length (msg_payload m) > maxPayload then take maxPayload (msg_payload m) else msg_payload m),
      rm_qos = msg_qos m, rm_retain = msg_retain m, rm_receivedAt = msg_receivedAt m\<rparr>"

definition enqueue :: "RecordedMessage \<Rightarrow> Recorder \<Rightarrow> Recorder" where
  "enqueue x r =
     (if length (re_queue r) < queueDepth then r\<lparr>re_queue := re_queue r @ [x]\<rparr> else r\<lparr>re_dropped := re_dropped r + 1\<rparr>)"

definition Observe :: "Message \<Rightarrow> Recorder \<Rightarrow> Recorder" where
  "Observe m r = (if re_wanted r (msg_connectionID m) = None then r else enqueue (recorded_of m) r)"

definition write_batch :: "bool \<Rightarrow> Recorder \<Rightarrow> Recorder" where
  "write_batch ok r =
     (if re_batch r = [] then r
      else case AppendRecorded ok (re_batch r) (re_db r) of
        (done_ok, db) \<Rightarrow>
          (if done_ok then r\<lparr>re_db := db, re_written := re_written r + length (re_batch r), re_batch := []\<rparr>
           else r\<lparr>re_db := db, re_batch := []\<rparr>))"

text \<open>One message off the channel, as the loop of \<^verbatim>\<open>run\<close> and that of \<^verbatim>\<open>drain\<close> take it.\<close>

definition take_one :: "bool \<Rightarrow> Recorder \<Rightarrow> Recorder" where
  "take_one ok r =
     (case re_queue r of
        [] \<Rightarrow> r
      | x # q \<Rightarrow>
          let r = r\<lparr>re_queue := q, re_batch := re_batch r @ [x]\<rparr> in
          if length (re_batch r) \<ge> batchSize then write_batch ok r else r)"

text \<open>The connections are pruned in the order of the list, which is some order of the map.\<close>

definition prune :: "string list \<Rightarrow> Recorder \<Rightarrow> Recorder" where
  "prune ids r =
     fold (\<lambda>c r. case re_wanted r c of None \<Rightarrow> r | Some keep \<Rightarrow> r\<lparr>re_db := snd (PruneRecorded c keep (re_db r))\<rparr>) ids r"

lemma take_one_shorter: "re_queue r \<noteq> [] \<Longrightarrow> length (re_queue (take_one ok r)) < length (re_queue r)"
  by (cases "re_queue r") (simp_all add: take_one_def write_batch_def AppendRecorded_def Let_def)

text \<open>The loop that empties the channel on the way out; \<open>oks\<close> says which of its transactions commit.\<close>

function drain :: "bool list \<Rightarrow> Recorder \<Rightarrow> Recorder" where
  "drain oks r =
     (if re_queue r = [] then write_batch (oks = [] \<or> hd oks) r
      else if length (re_batch r) + 1 \<ge> batchSize then drain (drop 1 oks) (take_one (oks = [] \<or> hd oks) r)
      else drain oks (take_one True r))"
  by pat_completeness auto

termination
  by (relation "measure (\<lambda>(oks, r). length (re_queue r))") (auto simp: take_one_shorter)

declare drain.simps [simp del]

interpretation rque: bounded_queue re_queue re_dropped queueDepth enqueue
  by unfold_locales (simp_all add: enqueue_def)

section \<open>What becomes of a message\<close>

datatype recorder_event =
    RConfigure string bool int | RObserve Message | RTake bool | RFlush bool | RPrune "string list" | RDelete string

fun recorder_step :: "recorder_event \<Rightarrow> Recorder \<Rightarrow> Recorder" where
  "recorder_step (RConfigure c rec keep) r = Configure c rec keep r"
| "recorder_step (RObserve m) r = Observe m r"
| "recorder_step (RTake ok) r = take_one ok r"
| "recorder_step (RFlush ok) r = write_batch ok r"
| "recorder_step (RPrune ids) r = prune ids r"
| "recorder_step (RDelete c) r = r\<lparr>re_db := DeleteConnectionRows c (re_db r)\<rparr>"

text \<open>Beside the recorder: the messages it was asked to record, and how many of them a failed write cost.\<close>

definition batch_written :: "bool \<Rightarrow> Recorder \<Rightarrow> bool" where
  "batch_written ok r \<longleftrightarrow> fst (AppendRecorded ok (re_batch r) (re_db r))"

definition write_loss :: "bool \<Rightarrow> Recorder \<Rightarrow> nat" where
  "write_loss ok r = (if batch_written ok r then 0 else length (re_batch r))"

fun step_loss :: "recorder_event \<Rightarrow> Recorder \<Rightarrow> nat" where
  "step_loss (RTake ok) r =
     (case re_queue r of [] \<Rightarrow> 0
      | x # q \<Rightarrow> if length (re_batch r) + 1 \<ge> batchSize then write_loss ok (r\<lparr>re_queue := q, re_batch := re_batch r @ [x]\<rparr>) else 0)"
| "step_loss (RFlush ok) r = write_loss ok r"
| "step_loss e r = 0"

fun step_seen :: "recorder_event \<Rightarrow> Recorder \<Rightarrow> RecordedMessage list" where
  "step_seen (RObserve m) r = (if re_wanted r (msg_connectionID m) = None then [] else [recorded_of m])"
| "step_seen e r = []"

fun recorder_run :: "recorder_event list \<Rightarrow> Recorder \<times> RecordedMessage list \<times> nat \<Rightarrow> Recorder \<times> RecordedMessage list \<times> nat" where
  "recorder_run [] st = st"
| "recorder_run (e # es) (r, seen, failed) = recorder_run es (recorder_step e r, seen @ step_seen e r, failed + step_loss e r)"

definition recorder_ok :: "Recorder \<times> RecordedMessage list \<times> nat \<Rightarrow> bool" where
  "recorder_ok st \<longleftrightarrow> (case st of (r, seen, failed) \<Rightarrow>
     length (re_queue r) \<le> queueDepth \<and> length (re_batch r) < batchSize \<and>
     length seen = re_written r + re_dropped r + failed + length (re_batch r) + length (re_queue r))"

lemma write_batch_effect [simp]:
  "re_queue (write_batch ok r) = re_queue r" "re_dropped (write_batch ok r) = re_dropped r"
  "re_batch (write_batch ok r) = []" "re_wanted (write_batch ok r) = re_wanted r"
  "re_written (write_batch ok r) + write_loss ok r = re_written r + length (re_batch r)"
  by (auto simp: write_batch_def write_loss_def batch_written_def AppendRecorded_def)

lemma prune_effect [simp]:
  "re_queue (prune ids r) = re_queue r" "re_dropped (prune ids r) = re_dropped r" "re_written (prune ids r) = re_written r"
  "re_batch (prune ids r) = re_batch r" "re_wanted (prune ids r) = re_wanted r"
  unfolding prune_def by (induction ids arbitrary: r) (simp_all split: option.split)

lemma recorder_step_ok:
  assumes "recorder_ok (r, seen, failed)"
  shows "recorder_ok (recorder_step e r, seen @ step_seen e r, failed + step_loss e r)"
proof (cases e)
  case (RObserve m)
  show ?thesis
  proof (cases "re_wanted r (msg_connectionID m)")
    case None
    with assms RObserve show ?thesis by (simp add: recorder_ok_def Observe_def)
  next
    case (Some keep)
    have "re_written (enqueue x r) = re_written r" "re_batch (enqueue x r) = re_batch r" for x
      by (simp_all add: enqueue_def)
    with assms RObserve Some rque.send_bounded [of r "recorded_of m"] rque.send_accounted [of "recorded_of m" r]
    show ?thesis by (simp add: recorder_ok_def Observe_def)
  qed
next
  case (RTake ok)
  show ?thesis
  proof (cases "re_queue r")
    case (Cons x q)
    let ?r = "r\<lparr>re_queue := q, re_batch := re_batch r @ [x]\<rparr>"
    show ?thesis
    proof (cases "length (re_batch r) + 1 \<ge> batchSize")
      case True
      with Cons RTake assms write_batch_effect(5) [of ok ?r] show ?thesis
        by (simp add: recorder_ok_def take_one_def batchSize_def)
    qed (use Cons RTake assms in \<open>simp add: recorder_ok_def take_one_def\<close>)
  qed (use RTake assms in \<open>simp add: recorder_ok_def take_one_def\<close>)
next
  case (RFlush ok)
  with assms write_batch_effect(5) [of ok r] show ?thesis by (simp add: recorder_ok_def batchSize_def)
qed (use assms in \<open>simp_all add: recorder_ok_def Configure_def\<close>)

text \<open>
  Every message the recorder is asked to keep is accounted for, whatever happens: it is written, or counted as
  dropped, or was in a batch whose transaction failed, or is still waiting; and never more wait than
  the channel and one batch hold.
\<close>

theorem recorder_accounting:
  "recorder_ok (recorder_run es (NewRecorder db, [], 0))"
proof -
  have "recorder_ok st \<Longrightarrow> recorder_ok (recorder_run es st)" for st
    by (induction es st rule: recorder_run.induct) (simp_all add: recorder_step_ok)
  then show ?thesis by (simp add: recorder_ok_def NewRecorder_def batchSize_def)
qed

section \<open>A clean stop\<close>

text \<open>A row as it was queued, before the table numbered it.\<close>

definition unnumbered :: "RecordedMessage \<Rightarrow> RecordedMessage" where
  "unnumbered m = m\<lparr>rm_id := 0\<rparr>"

definition recordable :: "string list \<Rightarrow> RecordedMessage \<Rightarrow> bool" where
  "recordable cs m \<longleftrightarrow> rm_id m = 0 \<and> rm_connectionID m \<in> set cs"

text \<open>
  As long as every write commits: the rows that are new since the start, the batch and the channel hold, in the order
  they were seen, the messages that were not dropped.
\<close>

definition recorder_clean :: "RecordTable \<Rightarrow> Recorder \<Rightarrow> RecordedMessage list \<Rightarrow> bool" where
  "recorder_clean db r seen \<longleftrightarrow>
     (\<exists>fresh. rt_rows (re_db r) = rt_rows db @ fresh \<and> length fresh = re_written r \<and>
        subseq (map unnumbered fresh @ re_batch r @ re_queue r) seen) \<and>
     length seen = re_written r + re_dropped r + length (re_batch r) + length (re_queue r) \<and>
     rt_connections (re_db r) = rt_connections db \<and>
     list_all (recordable (rt_connections db)) (re_batch r @ re_queue r) \<and>
     dom (re_wanted r) \<subseteq> set (rt_connections db)"

lemma unnumbered_number_rows:
  "list_all (recordable cs) ms \<Longrightarrow> map unnumbered (number_rows n ms) = ms"
proof (induction ms arbitrary: n)
  case (Cons m ms)
  have "number_rows n (m # ms) = m\<lparr>rm_id := n\<rparr> # number_rows (Suc n) ms"
    by (simp add: number_rows_def upt_conv_Cons del: upt_Suc)
  with Cons show ?case by (simp add: unnumbered_def recordable_def)
qed (simp add: number_rows_def)

lemma length_number_rows [simp]: "length (number_rows n ms) = length ms"
  by (simp add: number_rows_def)

lemma write_batch_clean:
  assumes "recorder_clean db r seen" shows "recorder_clean db (write_batch True r) seen"
proof (cases "re_batch r = []")
  case True
  with assms show ?thesis by (simp add: write_batch_def)
next
  case False
  have rec: "list_all (recordable (rt_connections db)) (re_batch r)" and conns: "rt_connections (re_db r) = rt_connections db"
    using assms by (simp_all add: recorder_clean_def)
  then have "\<not> (\<exists>m \<in> set (re_batch r). rm_connectionID m \<notin> set (rt_connections (re_db r)))"
    by (auto simp: list_all_iff recordable_def)
  with False have w: "write_batch True r = r\<lparr>re_db := (re_db r)\<lparr>rt_rows := rt_rows (re_db r) @ number_rows (rt_nextID (re_db r)) (re_batch r),
      rt_nextID := rt_nextID (re_db r) + length (re_batch r)\<rparr>, re_written := re_written r + length (re_batch r), re_batch := []\<rparr>"
    by (simp add: write_batch_def AppendRecorded_def)
  obtain fresh where f: "rt_rows (re_db r) = rt_rows db @ fresh" "length fresh = re_written r"
      "subseq (map unnumbered fresh @ re_batch r @ re_queue r) seen"
    using assms by (auto simp: recorder_clean_def)
  let ?f = "fresh @ number_rows (rt_nextID (re_db r)) (re_batch r)"
  have "subseq (map unnumbered ?f @ re_queue r) seen"
    using f(3) by (simp add: unnumbered_number_rows [OF rec])
  moreover have "rt_rows (re_db (write_batch True r)) = rt_rows db @ ?f" using f(1) w by simp
  ultimately have "\<exists>fresh. rt_rows (re_db (write_batch True r)) = rt_rows db @ fresh \<and>
      length fresh = re_written (write_batch True r) \<and>
      subseq (map unnumbered fresh @ re_batch (write_batch True r) @ re_queue (write_batch True r)) seen"
    using f(2) w by (intro exI [of _ ?f]) simp
  with assms show ?thesis unfolding recorder_clean_def by (simp add: w)
qed

lemma take_one_clean:
  assumes "recorder_clean db r seen" shows "recorder_clean db (take_one True r) seen"
proof (cases "re_queue r")
  case (Cons x q)
  let ?r = "r\<lparr>re_queue := q, re_batch := re_batch r @ [x]\<rparr>"
  have "recorder_clean db ?r seen" using assms Cons by (simp add: recorder_clean_def)
  with write_batch_clean [OF this] show ?thesis by (simp add: take_one_def Cons Let_def)
qed (use assms in \<open>simp add: take_one_def\<close>)

lemma drain_clean:
  "recorder_clean db r seen \<Longrightarrow>
     recorder_clean db (drain [] r) seen \<and> re_queue (drain [] r) = [] \<and> re_batch (drain [] r) = []"
proof (induction "length (re_queue r)" arbitrary: r rule: less_induct)
  case less
  show ?case
  proof (cases "re_queue r = []")
    case True
    with write_batch_clean [OF less.prems] show ?thesis by (simp add: drain.simps)
  next
    case False
    then have "drain [] r = drain [] (take_one True r)" by (subst drain.simps) simp
    with less.hyps [OF take_one_shorter [OF False]] take_one_clean [OF less.prems] show ?thesis by simp
  qed
qed

text \<open>The events of a time in which writes commit and nothing is removed.\<close>

fun calm :: "string list \<Rightarrow> recorder_event \<Rightarrow> bool" where
  "calm cs (RConfigure c rec keep) = (c \<in> set cs)"
| "calm cs (RObserve m) = True"
| "calm cs (RTake ok) = ok"
| "calm cs (RFlush ok) = ok"
| "calm cs e = False"

lemma recorder_step_clean:
  assumes "recorder_clean db r seen" and "calm (rt_connections db) e"
  shows "recorder_clean db (recorder_step e r) (seen @ step_seen e r)"
proof (cases e)
  case (RConfigure c rec keep)
  with assms show ?thesis by (auto simp: recorder_clean_def Configure_def split: if_splits)
next
  case (RObserve m)
  show ?thesis
  proof (cases "re_wanted r (msg_connectionID m)")
    case None
    with assms RObserve show ?thesis by (simp add: Observe_def)
  next
    case (Some keep)
    then have "recordable (rt_connections db) (recorded_of m)"
      using assms(1) by (auto simp: recordable_def recorded_of_def recorder_clean_def)
    moreover have "subseq (xs @ [x]) (seen @ [x])" if "subseq xs seen" for xs x
      using that by (simp add: list_emb_append_mono)
    moreover have "subseq xs (seen @ [x])" if "subseq xs seen" for xs x
      using that by (rule subseq_rev_drop_many)
    ultimately show ?thesis
      using assms(1) RObserve Some
      by (cases "length (re_queue r) < queueDepth")
        (auto simp: recorder_clean_def Observe_def enqueue_def simp flip: append_assoc)
  qed
next
  case (RTake ok)
  with assms take_one_clean show ?thesis by simp
next
  case (RFlush ok)
  with assms write_batch_clean show ?thesis by simp
qed (use assms in simp_all)

lemma recorder_run_clean:
  "recorder_clean db r seen \<Longrightarrow> list_all (calm (rt_connections db)) es \<Longrightarrow> recorder_run es (r, seen, failed) = (r', seen', failed') \<Longrightarrow>
     recorder_clean db r' seen'"
proof (induction es arbitrary: r seen failed)
  case (Cons e es)
  then show ?case using recorder_step_clean [of db r seen e] by simp
qed simp

lemma NewRecorder_clean: "recorder_clean db (NewRecorder db) []"
  by (simp add: recorder_clean_def NewRecorder_def)

text \<open>
  C18. Stopping the recorder terminates and throws nothing away: when its writes commit, the loop that empties
  the channel ends with channel and batch empty, and the table has gained exactly the messages that
  were seen and not dropped, in the order they arrived.
\<close>

theorem recorder_clean_stop:
  assumes "list_all (calm (rt_connections db)) es" and "recorder_run es (NewRecorder db, [], 0) = (r, seen, failed)"
  shows "re_queue (drain [] r) = [] \<and> re_batch (drain [] r) = [] \<and>
    (\<exists>fresh. rt_rows (re_db (drain [] r)) = rt_rows db @ fresh \<and> subseq (map unnumbered fresh) seen \<and>
       length seen = length fresh + re_dropped (drain [] r))"
proof -
  have "recorder_clean db r seen" by (rule recorder_run_clean [OF NewRecorder_clean assms])
  from drain_clean [OF this] show ?thesis by (auto simp: recorder_clean_def)
qed

definition ex_table :: RecordTable where
  "ex_table = \<lparr>rt_connections = [''c'', ''d''], rt_rows = [], rt_nextID = 1\<rparr>"

definition ex_recorded :: "string \<Rightarrow> Message" where
  "ex_recorded c = zero_message\<lparr>msg_connectionID := c, msg_topic := ''t'', msg_receivedAt := 5\<rparr>"

theorem recorder_clean_stop_witness:
  "\<exists>r seen failed. recorder_run [RConfigure ''c'' True 0, RObserve (ex_recorded ''c''), RTake True, RObserve (ex_recorded ''c'')]
      (NewRecorder ex_table, [], 0) = (r, seen, failed) \<and> length seen = 2 \<and> length (rt_rows (re_db (drain [] r))) + re_dropped (drain [] r) = 2"
proof -
  let ?es = "[RConfigure ''c'' True 0, RObserve (ex_recorded ''c''), RTake True, RObserve (ex_recorded ''c'')]"
  obtain r seen failed where run: "recorder_run ?es (NewRecorder ex_table, [], 0) = (r, seen, failed)"
    by (metis prod_cases3)
  have "length seen = 2"
    using run by (auto simp: Configure_def NewRecorder_def Observe_def enqueue_def take_one_def queueDepth_def batchSize_def
        ex_recorded_def zero_message_def)
  moreover have "list_all (calm (rt_connections ex_table)) ?es" by (simp add: ex_table_def)
  from recorder_clean_stop [OF this run] have "length (rt_rows (re_db (drain [] r))) + re_dropped (drain [] r) = length seen"
    by (auto simp: ex_table_def)
  ultimately show ?thesis using run by auto
qed

text \<open>Deleting a connection while messages of it wait costs the whole batch, those of other connections included.\<close>

lemma deleted_connection_fails_batch:
  "let r = (NewRecorder ex_table)\<lparr>re_batch := [recorded_of (ex_recorded ''c''), recorded_of (ex_recorded ''d'')]\<rparr>;
       r = recorder_step (RFlush True) (recorder_step (RDelete ''d'') r)
   in re_batch r = [] \<and> re_written r = 0 \<and> rt_rows (re_db r) = []"
  by (simp add: NewRecorder_def ex_table_def ex_recorded_def recorded_of_def zero_message_def write_batch_def AppendRecorded_def
      DeleteConnectionRows_def DeleteRecorded_def)

text \<open>
  Times compared as text: half a second after the second sorts before it, and the same instant written in two zones
  differs.
\<close>

lemma recorded_text_order:
  "\<not> (''2026-09-10T14:00:00.5Z'' \<ge> ''2026-09-10T14:00:00Z'')"
  "''2026-09-10T16:00:00+02:00'' > ''2026-09-10T14:30:00Z''"
  by code_simp+

text \<open>Pruning keeps the newest rows of the connection and every row of the others.\<close>

lemma connection_rows_prune_other:
  "c \<noteq> d \<Longrightarrow> connection_rows d (snd (PruneRecorded c keep t)) = connection_rows d t"
  by (auto simp: PruneRecorded_def connection_rows_def Let_def intro!: filter_cong)

end
