(* ===== verification/Hub.thy ===== *)
theory Hub
  imports Message Queue
begin

text \<open>
  \<^verbatim>\<open>internal/hub/hub.go\<close>: the browsers listening on a WebSocket each. A browser's reader handles the commands it
  sends, its writer empties the channel of encoded frames, and every MQTT message is offered to all of
  them. Encoding a frame is an argument, which may fail; the socket itself is not modelled.
\<close>

section \<open>Frames and clients\<close>

datatype Frame =
    FrameHello int | FrameMessage Message | FrameStatus Status | FrameEvent string string | FrameStats nat | FrameError string | FramePong

definition sendBuffer :: nat where "sendBuffer = 512"
definition defaultRate :: int where "defaultRate = 200"
definition maxRate :: int where "maxRate = 5000"
definition second :: time where "second = 10 ^ 9"

record HubClient =
  hc_send :: "bytes list"
  hc_watch :: "string \<rightharpoonup> string"
  hc_rate :: int
  hc_dropped :: nat
  hc_tokens :: int
  hc_windowStart :: time

definition new_client :: "time \<Rightarrow> HubClient" where
  "new_client now = \<lparr>hc_send = [], hc_watch = Map.empty, hc_rate = defaultRate, hc_dropped = 0,
     hc_tokens = defaultRate, hc_windowStart = now\<rparr>"

definition queue_frame :: "bytes \<Rightarrow> HubClient \<Rightarrow> HubClient" where
  "queue_frame raw c =
     (if length (hc_send c) < sendBuffer then c\<lparr>hc_send := hc_send c @ [raw]\<rparr> else c\<lparr>hc_dropped := hc_dropped c + 1\<rparr>)"

definition hub_push :: "bytes option \<Rightarrow> HubClient \<Rightarrow> HubClient" where
  "hub_push raw c = (case raw of None \<Rightarrow> c | Some r \<Rightarrow> queue_frame r c)"

definition wants :: "Message \<Rightarrow> HubClient \<Rightarrow> bool" where
  "wants m c =
     (case hc_watch c (msg_connectionID m) of
        None \<Rightarrow> False
      | Some flt \<Rightarrow> if flt = [] \<or> flt = ''#'' then True else MatchFilter flt (msg_topic m))"

definition takeToken :: "time \<Rightarrow> HubClient \<Rightarrow> bool \<times> HubClient" where
  "takeToken now c =
     (let c = (if now - hc_windowStart c \<ge> second then c\<lparr>hc_windowStart := now, hc_tokens := hc_rate c\<rparr> else c) in
      if hc_tokens c \<le> 0 then (False, c) else (True, c\<lparr>hc_tokens := hc_tokens c - 1\<rparr>))"

section \<open>Sending to everyone\<close>

text \<open>The loop that decides under the lock who gets a message.\<close>

definition hub_select :: "time \<Rightarrow> Message \<Rightarrow> HubClient \<Rightarrow> bool \<times> HubClient" where
  "hub_select now m c =
     (if \<not> wants m c then (False, c)
      else case takeToken now c of
        (True, c) \<Rightarrow> (True, c)
      | (False, c) \<Rightarrow> (False, c\<lparr>hc_dropped := hc_dropped c + 1\<rparr>))"

definition BroadcastMessage :: "(Frame \<Rightarrow> bytes option) \<Rightarrow> time \<Rightarrow> Message \<Rightarrow> HubClient list \<Rightarrow> HubClient list" where
  "BroadcastMessage enc now m cs =
     (let picked = map (hub_select now m) cs; raw = enc (FrameMessage m) in
      map (\<lambda>(ok, c). if ok then hub_push raw c else c) picked)"

definition hub_broadcast :: "(Frame \<Rightarrow> bytes option) \<Rightarrow> Frame \<Rightarrow> HubClient list \<Rightarrow> HubClient list" where
  "hub_broadcast enc f cs = (let raw = enc f in map (hub_push raw) cs)"

section \<open>What a browser sends\<close>

record command =
  cmd_type :: string
  cmd_connectionID :: string
  cmd_filter :: string
  cmd_maxRate :: int

datatype ws_input = WsNotText | WsMalformed | WsCommand command

definition set_rate :: "int \<Rightarrow> HubClient \<Rightarrow> HubClient" where
  "set_rate r c = (if r > 0 then c\<lparr>hc_rate := min r maxRate\<rparr> else c)"

definition read_step :: "(Frame \<Rightarrow> bytes option) \<Rightarrow> (topic_error \<Rightarrow> string) \<Rightarrow> ws_input \<Rightarrow> HubClient \<Rightarrow> HubClient" where
  "read_step enc explain_filter i c =
     (case i of
        WsNotText \<Rightarrow> c
      | WsMalformed \<Rightarrow> hub_push (enc (FrameError ''malformed command'')) c
      | WsCommand cmd \<Rightarrow>
          if cmd_type cmd = ''watch'' then
            if cmd_connectionID cmd = [] then hub_push (enc (FrameError ''watch requires connectionId'')) c
            else (case (if cmd_filter cmd = [] then Inr () else ValidateFilter (cmd_filter cmd)) of
                    Inl e \<Rightarrow> hub_push (enc (FrameError (explain_filter e))) c
                  | Inr _ \<Rightarrow> set_rate (cmd_maxRate cmd) (c\<lparr>hc_watch := (hc_watch c)(cmd_connectionID cmd \<mapsto> cmd_filter cmd)\<rparr>))
          else if cmd_type cmd = ''unwatch'' then c\<lparr>hc_watch := (hc_watch c)(cmd_connectionID cmd := None)\<rparr>
          else if cmd_type cmd = ''rate'' then set_rate (cmd_maxRate cmd) c
          else if cmd_type cmd = ''ping'' then hub_push (enc FramePong) c
          else hub_push (enc (FrameError (''unknown command: '' @ cmd_type cmd))) c)"

text \<open>The writer: one frame off the channel, or the tick that reports what was dropped since the last report.\<close>

definition write_step :: "HubClient \<Rightarrow> bytes option \<times> HubClient" where
  "write_step c = (case hc_send c of [] \<Rightarrow> (None, c) | raw # rest \<Rightarrow> (Some raw, c\<lparr>hc_send := rest\<rparr>))"

definition stats_tick :: "(Frame \<Rightarrow> bytes option) \<Rightarrow> nat \<Rightarrow> HubClient \<Rightarrow> bytes option \<times> nat" where
  "stats_tick enc lastDropped c =
     (if hc_dropped c \<noteq> lastDropped then (enc (FrameStats (hc_dropped c)), hc_dropped c) else (None, lastDropped))"

interpretation hque: bounded_queue hc_send hc_dropped sendBuffer queue_frame
  by unfold_locales (simp_all add: queue_frame_def)

section \<open>What becomes of a frame\<close>

text \<open>Every client is served on its own: what one does never shows in what another gets.\<close>

definition offer :: "(Frame \<Rightarrow> bytes option) \<Rightarrow> time \<Rightarrow> Message \<Rightarrow> HubClient \<Rightarrow> HubClient" where
  "offer enc now m c = (case hub_select now m c of (ok, c) \<Rightarrow> if ok then hub_push (enc (FrameMessage m)) c else c)"

lemma BroadcastMessage_offers: "BroadcastMessage enc now m cs = map (offer enc now m) cs"
  by (simp add: BroadcastMessage_def offer_def comp_def Let_def)

datatype hub_event = HMessage time Message | HFrame Frame | HInput ws_input | HWrite

definition hub_step :: "(Frame \<Rightarrow> bytes option) \<Rightarrow> (topic_error \<Rightarrow> string) \<Rightarrow> hub_event \<Rightarrow> HubClient \<Rightarrow> HubClient" where
  "hub_step enc ef e c =
     (case e of
        HMessage now m \<Rightarrow> offer enc now m c
      | HFrame f \<Rightarrow> hub_push (enc f) c
      | HInput i \<Rightarrow> read_step enc ef i c
      | HWrite \<Rightarrow> snd (write_step c))"

text \<open>The frame a browser's input is answered with, if any.\<close>

definition reply :: "(topic_error \<Rightarrow> string) \<Rightarrow> ws_input \<Rightarrow> Frame option" where
  "reply ef i =
     (case i of
        WsNotText \<Rightarrow> None
      | WsMalformed \<Rightarrow> Some (FrameError ''malformed command'')
      | WsCommand cmd \<Rightarrow>
          if cmd_type cmd = ''watch'' then
            if cmd_connectionID cmd = [] then Some (FrameError ''watch requires connectionId'')
            else if cmd_filter cmd = [] then None
            else (case ValidateFilter (cmd_filter cmd) of Inl e \<Rightarrow> Some (FrameError (ef e)) | Inr _ \<Rightarrow> None)
          else if cmd_type cmd = ''unwatch'' \<or> cmd_type cmd = ''rate'' then None
          else if cmd_type cmd = ''ping'' then Some FramePong
          else Some (FrameError (''unknown command: '' @ cmd_type cmd)))"

text \<open>The frames meant for a client at a step: those the writer is to send or the count of drops is to show.\<close>

definition meant :: "(Frame \<Rightarrow> bytes option) \<Rightarrow> (topic_error \<Rightarrow> string) \<Rightarrow> hub_event \<Rightarrow> HubClient \<Rightarrow> bytes list" where
  "meant enc ef e c =
     (let of_frame = (\<lambda>f. case enc f of None \<Rightarrow> [] | Some r \<Rightarrow> [r]) in
      case e of
        HMessage now m \<Rightarrow> if wants m c then (if fst (takeToken now c) then of_frame (FrameMessage m) else [[]]) else []
      | HFrame f \<Rightarrow> of_frame f
      | HInput i \<Rightarrow> (case reply ef i of None \<Rightarrow> [] | Some f \<Rightarrow> of_frame f)
      | HWrite \<Rightarrow> [])"

fun hub_run :: "(Frame \<Rightarrow> bytes option) \<Rightarrow> (topic_error \<Rightarrow> string) \<Rightarrow> hub_event list \<Rightarrow> HubClient \<times> bytes list \<times> bytes list \<Rightarrow> HubClient \<times> bytes list \<times> bytes list" where
  "hub_run enc ef [] st = st"
| "hub_run enc ef (e # es) (c, all, out) =
     hub_run enc ef es (hub_step enc ef e c, all @ meant enc ef e c,
       out @ (if e = HWrite then (case write_step c of (None, _) \<Rightarrow> [] | (Some r, _) \<Rightarrow> [r]) else []))"

definition hub_ok :: "HubClient \<times> bytes list \<times> bytes list \<Rightarrow> bool" where
  "hub_ok st \<longleftrightarrow> (case st of (c, all, out) \<Rightarrow>
     length (hc_send c) \<le> sendBuffer \<and> subseq (out @ hc_send c) all \<and>
     length all = length out + length (hc_send c) + hc_dropped c)"

lemma hub_push_ok:
  assumes "hub_ok (c, all, out)"
  shows "hub_ok (hub_push raw c, all @ (case raw of None \<Rightarrow> [] | Some r \<Rightarrow> [r]), out)"
proof (cases raw)
  case None
  with assms show ?thesis by (simp add: hub_push_def)
next
  case (Some r)
  have "subseq (xs @ [r]) (all @ [r])" if "subseq xs all" for xs using that by (simp add: list_emb_append_mono)
  moreover have "subseq xs (all @ [r])" if "subseq xs all" for xs using that by (rule subseq_rev_drop_many)
  ultimately show ?thesis
    using assms Some hque.send_bounded [of c r] hque.send_accounted [of r c]
    by (cases "length (hc_send c) < sendBuffer") (auto simp: hub_ok_def hub_push_def hque.send_items simp flip: append_assoc)
qed

lemma takeToken_frame [simp]:
  "hc_send (snd (takeToken now c)) = hc_send c" "hc_dropped (snd (takeToken now c)) = hc_dropped c"
  by (simp_all add: takeToken_def Let_def)

lemma hub_ok_frame: "hub_ok (c, all, out) \<Longrightarrow> hc_send d = hc_send c \<Longrightarrow> hc_dropped d = hc_dropped c \<Longrightarrow> hub_ok (d, all, out)"
  by (simp add: hub_ok_def)

lemma read_step_reply:
  "\<exists>d. read_step enc ef i c = (case reply ef i of None \<Rightarrow> d | Some f \<Rightarrow> hub_push (enc f) c) \<and>
     hc_send d = hc_send c \<and> hc_dropped d = hc_dropped c"
  by (cases i) (auto simp: read_step_def reply_def set_rate_def split: sum.splits)

lemma hub_step_ok:
  assumes "hub_ok (c, all, out)"
  shows "hub_ok (hub_step enc ef e c, all @ meant enc ef e c,
       out @ (if e = HWrite then (case write_step c of (None, _) \<Rightarrow> [] | (Some r, _) \<Rightarrow> [r]) else []))"
proof (cases e)
  case (HMessage now m)
  show ?thesis
  proof (cases "wants m c")
    case False
    with assms HMessage show ?thesis by (simp add: hub_step_def meant_def offer_def hub_select_def)
  next
    case True
    obtain ok d where t: "takeToken now c = (ok, d)" by fastforce
    with takeToken_frame [of now c] have d: "hc_send d = hc_send c" "hc_dropped d = hc_dropped c" by simp_all
    show ?thesis
    proof (cases ok)
      case True
      with hub_push_ok [OF hub_ok_frame [OF assms d], of "enc (FrameMessage m)"] \<open>wants m c\<close> t HMessage
      show ?thesis by (simp add: hub_step_def meant_def offer_def hub_select_def)
    next
      case False
      have "subseq (out @ hc_send c) (all @ [[]])" using assms subseq_rev_drop_many by (auto simp: hub_ok_def)
      with False assms \<open>wants m c\<close> t d HMessage show ?thesis
        by (simp add: hub_step_def meant_def offer_def hub_select_def hub_ok_def)
    qed
  qed
next
  case (HFrame f)
  with hub_push_ok [OF assms, of "enc f"] show ?thesis by (simp add: hub_step_def meant_def)
next
  case (HInput i)
  obtain d where d: "read_step enc ef i c = (case reply ef i of None \<Rightarrow> d | Some f \<Rightarrow> hub_push (enc f) c)"
    "hc_send d = hc_send c" "hc_dropped d = hc_dropped c" using read_step_reply by blast
  show ?thesis
  proof (cases "reply ef i")
    case None
    with d HInput hub_ok_frame [OF assms d(2,3)] show ?thesis by (simp add: hub_step_def meant_def)
  next
    case (Some f)
    with d HInput hub_push_ok [OF assms, of "enc f"] show ?thesis by (simp add: hub_step_def meant_def)
  qed
next
  case HWrite
  with assms show ?thesis by (cases "hc_send c") (auto simp: hub_step_def meant_def hub_ok_def write_step_def)
qed

text \<open>
  C19. A browser loses nothing silently: whatever the order of messages, frames, commands and writes, the frames
  written to its socket and those waiting are a subsequence, in order, of the frames meant for it; the
  count of drops it is shown is exactly the number missing; and never more than the channel's capacity
  wait.
\<close>

theorem hub_client_accounting:
  "hub_ok (hub_run enc ef es (new_client now, [], []))"
proof -
  have "hub_ok st \<Longrightarrow> hub_ok (hub_run enc ef es st)" for st
    by (induction enc ef es st rule: hub_run.induct) (simp_all add: hub_step_ok)
  then show ?thesis by (simp add: hub_ok_def new_client_def)
qed

section \<open>The rate a browser gets\<close>

fun thinned :: "(Frame \<Rightarrow> bytes option) \<Rightarrow> (topic_error \<Rightarrow> string) \<Rightarrow> hub_event list \<Rightarrow> HubClient \<Rightarrow> int" where
  "thinned enc ef [] c = 0"
| "thinned enc ef (e # es) c =
     (case e of HMessage now m \<Rightarrow> if wants m c \<and> fst (takeToken now c) then 1 else 0 | _ \<Rightarrow> 0) +
     thinned enc ef es (hub_step enc ef e c)"

definition rate_ok :: "HubClient \<Rightarrow> bool" where
  "rate_ok c \<longleftrightarrow> 0 < hc_rate c \<and> hc_rate c \<le> maxRate \<and> 0 \<le> hc_tokens c \<and> hc_tokens c \<le> maxRate"

text \<open>What a client can still be sent in the second that starts at \<open>t\<close>.\<close>

definition token_allowance :: "time \<Rightarrow> HubClient \<Rightarrow> int" where
  "token_allowance t c = (if t \<le> hc_windowStart c then hc_tokens c else hc_tokens c + maxRate)"

lemma hub_push_tokens [simp]:
  "hc_rate (hub_push raw c) = hc_rate c" "hc_tokens (hub_push raw c) = hc_tokens c" "hc_windowStart (hub_push raw c) = hc_windowStart c"
  by (simp_all add: hub_push_def queue_frame_def split: option.split)

lemma set_rate_tokens [simp]:
  "hc_tokens (set_rate r c) = hc_tokens c" "hc_windowStart (set_rate r c) = hc_windowStart c"
  by (simp_all add: set_rate_def)

lemma set_rate_rate: "hc_rate (set_rate r c) = (if r > 0 then min r maxRate else hc_rate c)"
  by (simp add: set_rate_def)

lemma read_step_tokens:
  assumes "rate_ok c" shows "rate_ok (read_step enc ef i c) \<and> token_allowance t (read_step enc ef i c) = token_allowance t c"
proof (cases i)
  case (WsCommand cmd)
  with assms show ?thesis
    by (auto simp: read_step_def rate_ok_def token_allowance_def set_rate_rate split: sum.split)
qed (use assms in \<open>simp_all add: read_step_def rate_ok_def token_allowance_def\<close>)

lemma takeToken_allowance:
  assumes "rate_ok c" "t \<le> now" "now < t + second"
  shows "rate_ok (snd (takeToken now c))"
    and "(if fst (takeToken now c) then 1 else 0) + token_allowance t (snd (takeToken now c)) \<le> token_allowance t c"
  using assms by (auto simp: takeToken_def rate_ok_def token_allowance_def second_def maxRate_def Let_def)

lemma hub_step_allowance:
  assumes "rate_ok c" "case e of HMessage now m \<Rightarrow> t \<le> now \<and> now < t + second | _ \<Rightarrow> True"
  shows "rate_ok (hub_step enc ef e c)"
    and "(case e of HMessage now m \<Rightarrow> if wants m c \<and> fst (takeToken now c) then 1 else 0 | _ \<Rightarrow> 0) +
      token_allowance t (hub_step enc ef e c) \<le> token_allowance t c"
proof -
  have "rate_ok (hub_step enc ef e c) \<and>
    (case e of HMessage now m \<Rightarrow> if wants m c \<and> fst (takeToken now c) then 1 else 0 | _ \<Rightarrow> 0) +
      token_allowance t (hub_step enc ef e c) \<le> token_allowance t c"
  proof (cases e)
    case (HMessage now m)
    obtain ok d where t: "takeToken now c = (ok, d)" by fastforce
    from assms HMessage takeToken_allowance [of c t now] t
    have "rate_ok d" "(if ok then 1 else 0) + token_allowance t d \<le> token_allowance t c" by simp_all
    with assms(1) t HMessage show ?thesis
      by (cases ok) (auto simp: hub_step_def offer_def hub_select_def rate_ok_def token_allowance_def)
  next
    case (HInput i)
    with read_step_tokens [OF assms(1)] show ?thesis by (simp add: hub_step_def)
  next
    case (HFrame f)
    with assms(1) show ?thesis by (simp add: hub_step_def rate_ok_def token_allowance_def)
  next
    case HWrite
    with assms(1) show ?thesis
      by (cases "hc_send c") (simp_all add: hub_step_def write_step_def rate_ok_def token_allowance_def)
  qed
  then show "rate_ok (hub_step enc ef e c)"
    and "(case e of HMessage now m \<Rightarrow> if wants m c \<and> fst (takeToken now c) then 1 else 0 | _ \<Rightarrow> 0) +
      token_allowance t (hub_step enc ef e c) \<le> token_allowance t c" by blast+
qed

text \<open>
  In any stretch of less than a second a browser is sent at most twice the largest rate it can ask for,
  whatever it asks for meanwhile: a window's worth at its start and one more when the window turns.
\<close>

theorem hub_rate_bounded:
  assumes "\<forall>e \<in> set es. case e of HMessage now m \<Rightarrow> t \<le> now \<and> now < t + second | _ \<Rightarrow> True"
    and "c = fst (hub_run enc ef before (new_client start, [], []))"
  shows "thinned enc ef es c \<le> 2 * maxRate"
proof -
  have step: "rate_ok (hub_step enc ef e d)" if "rate_ok d" for e d
    using hub_step_allowance(1) [OF that, of "case e of HMessage now m \<Rightarrow> now | _ \<Rightarrow> 0" e]
    by (cases e) (simp_all add: second_def)
  have "rate_ok (fst (hub_run enc ef es st))" if "rate_ok (fst st)" for es st
    using that
  proof (induction es arbitrary: st)
    case (Cons e es)
    obtain c all out where "st = (c, all, out)" by (cases st) auto
    with Cons step [of c e] show ?case by (simp del: split_paired_All)
  qed simp
  then have c: "rate_ok c" using assms(2) by (simp add: new_client_def rate_ok_def defaultRate_def maxRate_def)
  have "thinned enc ef es d \<le> token_allowance t d" if "rate_ok d" "\<forall>e \<in> set es. case e of HMessage now m \<Rightarrow> t \<le> now \<and> now < t + second | _ \<Rightarrow> True" for d
    using that
  proof (induction es arbitrary: d)
    case Nil
    then show ?case by (simp add: token_allowance_def rate_ok_def maxRate_def)
  next
    case (Cons e es)
    have "thinned enc ef es (hub_step enc ef e d) \<le> token_allowance t (hub_step enc ef e d)"
      using Cons by (simp add: step)
    with hub_step_allowance(2) [of d t e enc ef] Cons.prems show ?case by simp
  qed
  from this [OF c assms(1)] have "thinned enc ef es c \<le> token_allowance t c" .
  also have "\<dots> \<le> 2 * maxRate" using c by (simp add: token_allowance_def rate_ok_def maxRate_def)
  finally show ?thesis .
qed

definition ex_watch :: hub_event where
  "ex_watch = HInput (WsCommand \<lparr>cmd_type = ''watch'', cmd_connectionID = ''c'', cmd_filter = ''#'', cmd_maxRate = 9000\<rparr>)"

theorem hub_rate_bounded_witness:
  "thinned (\<lambda>f. None) (\<lambda>e. []) (replicate 3 (HMessage 5 (zero_message\<lparr>msg_connectionID := ''c'', msg_topic := ''t''\<rparr>)))
     (fst (hub_run (\<lambda>f. None) (\<lambda>e. []) [ex_watch] (new_client 0, [], []))) \<le> 10000"
proof -
  have "thinned (\<lambda>f. None) (\<lambda>e. []) (replicate 3 (HMessage 5 (zero_message\<lparr>msg_connectionID := ''c'', msg_topic := ''t''\<rparr>)))
     (fst (hub_run (\<lambda>f. None) (\<lambda>e. []) [ex_watch] (new_client 0, [], []))) \<le> 2 * maxRate"
    by (rule hub_rate_bounded [where t = 5, OF _ refl]) (simp add: second_def)
  then show ?thesis by (simp add: maxRate_def)
qed

end
