(* ===== verification/PlcJournal.thy ===== *)
theory PlcJournal
  imports Prelude
begin

text \<open>
  \<^verbatim>\<open>internal/plugins/plc/journal.go\<close>: the bounded log of digital edges and the wait for the next
  one. The channel that every append closes and replaces is a number, the count of appends so far: a
  channel a waiter holds is closed when the journal's number is past it.
\<close>

datatype PointKind = KindInput | KindOutput | KindTemperature

definition kind_string :: "PointKind \<Rightarrow> string" where
  "kind_string k = (case k of KindInput \<Rightarrow> ''input'' | KindOutput \<Rightarrow> ''output'' | KindTemperature \<Rightarrow> ''temperature'')"

record Edge =
  ed_seq :: nat
  ed_connectionID :: string
  ed_topic :: string
  ed_kind :: PointKind
  ed_address :: int
  ed_name :: string
  ed_label :: string
  ed_location :: string
  ed_sensorType :: string
  ed_alarmZone :: bool
  ed_from :: bool
  ed_to :: bool
  ed_at :: time

definition Rising :: "Edge \<Rightarrow> bool" where
  "Rising e \<longleftrightarrow> ed_to e \<and> \<not> ed_from e"

definition defaultJournalSize :: int where "defaultJournalSize = 500"

record Journal =
  jn_entries :: "Edge list"
  jn_seq :: nat
  jn_size :: nat
  jn_changed :: nat

definition NewJournal :: "int \<Rightarrow> Journal" where
  "NewJournal n =
     \<lparr>jn_entries = [], jn_seq = 0, jn_size = nat (if n \<le> 0 then defaultJournalSize else n), jn_changed = 0\<rparr>"

definition Append :: "Edge \<Rightarrow> Journal \<Rightarrow> Journal" where
  "Append e j =
     (let es = jn_entries j @ [e\<lparr>ed_seq := jn_seq j + 1\<rparr>] in
      j\<lparr>jn_seq := jn_seq j + 1,
        jn_entries := (if length es > jn_size j then drop (length es - jn_size j) es else es),
        jn_changed := jn_changed j + 1\<rparr>)"

text \<open>A match of \<^const>\<open>None\<close> is \<^verbatim>\<open>nil\<close>, which accepts every edge.\<close>

definition Since :: "nat \<Rightarrow> int \<Rightarrow> (Edge \<Rightarrow> bool) option \<Rightarrow> Journal \<Rightarrow> Edge list \<times> nat" where
  "Since seq limit match j =
     (let n = (if limit \<le> 0 \<or> limit > int (jn_size j) then jn_size j else nat limit);
          out = filter (\<lambda>e. \<not> (seq > 0 \<and> ed_seq e \<le> seq) \<and> (case match of None \<Rightarrow> True | Some p \<Rightarrow> p e)) (jn_entries j)
      in (if length out > n then drop (length out - n) out else out, jn_seq j))"

definition edgeMatch :: "string \<Rightarrow> string \<Rightarrow> bool \<Rightarrow> (Edge \<Rightarrow> bool) option" where
  "edgeMatch connID kind risingOnly =
     (if connID = [] \<and> kind = [] \<and> \<not> risingOnly then None
      else Some (\<lambda>e. \<not> (connID \<noteq> [] \<and> ed_connectionID e \<noteq> connID) \<and>
             \<not> (kind \<noteq> [] \<and> kind_string (ed_kind e) \<noteq> kind) \<and> \<not> (risingOnly \<and> \<not> Rising e)))"

section \<open>Waiting\<close>

text \<open>
  A waiter by the place it is at: before its first look, at the top of the loop, holding a channel before
  the second look, asleep on that channel, or back with an answer. \<open>wait_move\<close> is its next step, with no
  value while it is asleep on a channel that is open; the clock or the caller may also end the sleep
  (\<open>wait_expire\<close>).
\<close>

record WaitArgs =
  wa_seq :: nat
  wa_limit :: int
  wa_timeout :: int
  wa_match :: "(Edge \<Rightarrow> bool) option"

datatype Waiter = WEnter | WLoop | WCheck nat | WSleep nat | WReturned "Edge list \<times> nat"

definition wa_since :: "WaitArgs \<Rightarrow> Journal \<Rightarrow> Edge list \<times> nat" where
  "wa_since a j = Since (wa_seq a) (wa_limit a) (wa_match a) j"

fun wait_move :: "WaitArgs \<Rightarrow> Journal \<Rightarrow> Waiter \<Rightarrow> Waiter option" where
  "wait_move a j WEnter =
     Some (if fst (wa_since a j) \<noteq> [] then WReturned (wa_since a j)
           else if wa_timeout a \<le> 0 then WReturned ([], jn_seq j) else WLoop)"
| "wait_move a j WLoop = Some (WCheck (jn_changed j))"
| "wait_move a j (WCheck ch) = Some (if fst (wa_since a j) \<noteq> [] then WReturned (wa_since a j) else WSleep ch)"
| "wait_move a j (WSleep ch) = (if ch < jn_changed j then Some WLoop else None)"
| "wait_move a j (WReturned r) = None"

fun wait_expire :: "Journal \<Rightarrow> Waiter \<Rightarrow> Waiter option" where
  "wait_expire j (WSleep ch) = Some (WReturned ([], jn_seq j))"
| "wait_expire j w = None"

text \<open>Any interleaving of a waiter with appends by others.\<close>

inductive waits :: "WaitArgs \<Rightarrow> Journal \<Rightarrow> Journal \<Rightarrow> Waiter \<Rightarrow> bool" for a j0 where
  begins: "waits a j0 j0 WEnter"
| moves: "waits a j0 j w \<Longrightarrow> wait_move a j w = Some w' \<Longrightarrow> waits a j0 j w'"
| expires: "waits a j0 j w \<Longrightarrow> wait_expire j w = Some w' \<Longrightarrow> waits a j0 j w'"
| appends: "waits a j0 j w \<Longrightarrow> waits a j0 (Append e j) w"

section \<open>What a read gives\<close>

fun numbered :: "nat \<Rightarrow> Edge list \<Rightarrow> Edge list" where
  "numbered n [] = []"
| "numbered n (e # es) = e\<lparr>ed_seq := Suc n\<rparr> # numbered (Suc n) es"

lemma numbered_append: "numbered n (xs @ ys) = numbered n xs @ numbered (n + length xs) ys"
  by (induction xs arbitrary: n) simp_all

lemma length_numbered [simp]: "length (numbered n es) = length es"
  by (induction es arbitrary: n) simp_all

lemma numbered_seq: "e \<in> set (numbered n es) \<Longrightarrow> n < ed_seq e \<and> ed_seq e \<le> n + length es"
  by (induction es arbitrary: n) fastforce+

lemma Append_fields [simp]:
  "jn_seq (Append e j) = jn_seq j + 1" "jn_size (Append e j) = jn_size j" "jn_changed (Append e j) = jn_changed j + 1"
  by (simp_all add: Append_def Let_def)

lemma Append_entries: "jn_entries (Append e j) = last_n (jn_size j) (jn_entries j @ [e\<lparr>ed_seq := jn_seq j + 1\<rparr>])"
  by (simp add: Append_def Let_def last_n_def)

lemma Appends_state:
  "let j = fold Append es (NewJournal n) in
     jn_entries j = last_n (jn_size j) (numbered 0 es) \<and> jn_seq j = length es \<and>
     jn_size j = jn_size (NewJournal n) \<and> jn_changed j = length es"
proof (induction es rule: rev_induct)
  case Nil
  then show ?case by (simp add: NewJournal_def)
next
  case (snoc e es)
  then show ?case
    by (simp add: Let_def Append_entries numbered_append last_n_last_n_snoc)
qed

definition limit_of :: "int \<Rightarrow> nat \<Rightarrow> nat" where
  "limit_of limit sz = (if limit \<le> 0 \<or> limit > int sz then sz else nat limit)"

definition matches :: "(Edge \<Rightarrow> bool) option \<Rightarrow> Edge \<Rightarrow> bool" where
  "matches match e = (case match of None \<Rightarrow> True | Some p \<Rightarrow> p e)"

lemma Since_alt:
  "Since seq limit match j =
     (last_n (limit_of limit (jn_size j)) (filter (\<lambda>e. seq < ed_seq e \<and> matches match e) (filter (\<lambda>e. 0 < ed_seq e) (jn_entries j))), jn_seq j)"
  if "\<forall>e \<in> set (jn_entries j). 0 < ed_seq e"
proof -
  have "filter (\<lambda>e. \<not> (seq > 0 \<and> ed_seq e \<le> seq) \<and> (case match of None \<Rightarrow> True | Some p \<Rightarrow> p e)) (jn_entries j) =
      filter (\<lambda>e. seq < ed_seq e \<and> matches match e) (jn_entries j)"
    by (rule filter_cong) (use that in \<open>auto simp: matches_def\<close>)
  moreover have "filter (\<lambda>e. 0 < ed_seq e) (jn_entries j) = jn_entries j"
    using that by (simp add: filter_id_conv)
  ultimately show ?thesis by (simp add: Since_def Let_def limit_of_def last_n_def)
qed

lemma filter_last_n_numbered:
  "filter (\<lambda>e. n < ed_seq e \<and> P e) (last_n k (numbered 0 xs @ numbered n ys)) = filter P (last_n k (numbered n ys))"
  if "length xs = n"
proof (cases "k \<le> length ys")
  case True
  then have "last_n k (numbered 0 xs @ numbered n ys) = last_n k (numbered n ys)"
    by (simp add: last_n_def)
  then show ?thesis
    by simp (rule filter_cong, use set_last_n numbered_seq in fastforce, blast dest: subsetD [OF set_last_n] numbered_seq)
next
  case False
  have *: "\<not> n < ed_seq e" if "e \<in> set (last_n (k - length ys) (numbered 0 xs))" for e
    using subsetD [OF set_last_n that] numbered_seq [of e 0 xs] \<open>length xs = n\<close> by simp
  from False have "last_n k (numbered 0 xs @ numbered n ys) = last_n (k - length ys) (numbered 0 xs) @ numbered n ys"
    by (simp add: last_n_def)
  moreover have "filter (\<lambda>e. n < ed_seq e \<and> P e) (last_n (k - length ys) (numbered 0 xs)) = []"
    using * by (simp add: filter_empty_conv)
  moreover have "filter (\<lambda>e. n < ed_seq e \<and> P e) (numbered n ys) = filter P (numbered n ys)"
    by (rule filter_cong) (auto dest: numbered_seq)
  ultimately show ?thesis using False by simp
qed

text \<open>
  A reader that has seen the journal up to one moment and asks for what is newer later gets, oldest
  first, the matching edges appended since, of the newest the journal keeps, and of those the newest up to
  its limit, with the number to ask from next. While no more edges than the limit were appended, that is
  every one that matches: no gap and no repeat.
\<close>

theorem journal_poll:
  "let J = fold Append (es @ es') (NewJournal n) in
    Since (length es) limit match J =
      (last_n (limit_of limit (jn_size J)) (filter (matches match) (last_n (jn_size J) (numbered (length es) es'))),
       length es + length es') \<and>
    (length es' \<le> limit_of limit (jn_size J) \<longrightarrow>
       fst (Since (length es) limit match J) = filter (matches match) (numbered (length es) es'))"
proof -
  define J where "J = fold Append (es @ es') (NewJournal n)"
  have st: "jn_entries J = last_n (jn_size J) (numbered 0 es @ numbered (length es) es')"
    "jn_seq J = length es + length es'"
    using Appends_state [of "es @ es'" n] by (simp_all add: J_def Let_def numbered_append)
  have pos: "\<forall>e \<in> set (jn_entries J). 0 < ed_seq e"
    unfolding st using set_last_n numbered_seq by fastforce
  from Since_alt [OF this, of "length es" limit match]
  have eq: "Since (length es) limit match J =
      (last_n (limit_of limit (jn_size J)) (filter (matches match) (last_n (jn_size J) (numbered (length es) es'))),
       length es + length es')"
    using pos st filter_last_n_numbered [of es "length es" "matches match" "jn_size J" es']
    by (simp add: filter_id_conv)
  have "limit_of limit (jn_size J) \<le> jn_size J" by (auto simp: limit_of_def)
  with eq have "length es' \<le> limit_of limit (jn_size J) \<Longrightarrow>
      fst (Since (length es) limit match J) = filter (matches match) (numbered (length es) es')"
    by (simp add: le_trans [OF length_filter_le])
  with eq show ?thesis unfolding Let_def J_def [symmetric] by blast
qed

definition ex_edge :: "string \<Rightarrow> bool \<Rightarrow> Edge" where
  "ex_edge name b = \<lparr>ed_seq = 0, ed_connectionID = ''c1'', ed_topic = ''plc/digital/input/'' @ name, ed_kind = KindInput,
     ed_address = 1, ed_name = name, ed_label = [], ed_location = [], ed_sensorType = [], ed_alarmZone = False,
     ed_from = \<not> b, ed_to = b, ed_at = 0\<rparr>"

theorem journal_poll_witness:
  "map ed_name (fst (Since 1 2 (Some Rising) (fold Append [ex_edge ''a'' True, ex_edge ''b'' True, ex_edge ''b'' False]
     (NewJournal 3)))) = [''b'']"
  using journal_poll [of "[ex_edge ''a'' True]" "[ex_edge ''b'' True, ex_edge ''b'' False]" 3 2 "Some Rising"]
  by (simp add: Let_def NewJournal_def limit_of_def matches_def Rising_def ex_edge_def)

text \<open>
  With more edges than the limit between two reads the older of them are skipped, and the number the
  reader continues from is past them.
\<close>

lemma journal_poll_skips:
  "let J = fold Append [ex_edge ''a'' True, ex_edge ''b'' True, ex_edge ''c'' True] (NewJournal 500);
       (first, seq) = Since 1 1 None J
   in map ed_name first = [''c''] \<and> fst (Since seq 1 None J) = []"
  by (simp add: Let_def NewJournal_def Append_def Since_def ex_edge_def)

section \<open>No wake-up is lost\<close>

lemma wait_channel:
  "waits a j0 j w \<Longrightarrow> case w of WCheck ch \<Rightarrow> ch \<le> jn_changed j
     | WSleep ch \<Rightarrow> ch \<le> jn_changed j \<and> (ch = jn_changed j \<longrightarrow> fst (wa_since a j) = []) | _ \<Rightarrow> True"
proof (induction rule: waits.induct)
  case (moves j w w')
  then show ?case by (cases w) (auto split: if_splits)
next
  case (expires j w w')
  then show ?case by (cases w) auto
next
  case (appends j w e)
  then show ?case by (cases w) auto
qed simp

text \<open>
  A stretch of time as the events in it: the waiter is given a turn, an edge is appended, the waiter's time is up or
  its caller gone. An event the waiter is in no place for passes it by.
\<close>

datatype wait_event = Turn | Came Edge | Expiry

fun wait_event_step :: "WaitArgs \<Rightarrow> wait_event \<Rightarrow> Journal \<times> Waiter \<Rightarrow> Journal \<times> Waiter" where
  "wait_event_step a Turn (j, w) = (j, case wait_move a j w of None \<Rightarrow> w | Some w' \<Rightarrow> w')"
| "wait_event_step a (Came e) (j, w) = (Append e j, w)"
| "wait_event_step a Expiry (j, w) = (j, case wait_expire j w of None \<Rightarrow> w | Some w' \<Rightarrow> w')"

definition wait_after :: "WaitArgs \<Rightarrow> wait_event list \<Rightarrow> Journal \<times> Waiter \<Rightarrow> Journal \<times> Waiter" where
  "wait_after a evs s = fold (wait_event_step a) evs s"

lemma wait_after_simps [simp]:
  "wait_after a [] s = s" "wait_after a (ev # evs) s = wait_after a evs (wait_event_step a ev s)"
  by (simp_all add: wait_after_def)

lemma wait_event_waits: "waits a j0 j w \<Longrightarrow> wait_event_step a ev (j, w) = (j', w') \<Longrightarrow> waits a j0 j' w'"
  by (cases ev) (auto split: option.splits intro: waits.intros)

lemma wait_after_returned: "snd (wait_after a evs (j, WReturned r)) = WReturned r"
proof (induction evs arbitrary: j)
  case (Cons ev evs)
  then show ?case by (cases ev) auto
qed simp

text \<open>How many turns a waiter is from returning, while there is something for it in the journal.\<close>

fun turns_left :: "Waiter \<Rightarrow> nat" where
  "turns_left WEnter = 1"
| "turns_left WLoop = 2"
| "turns_left (WCheck ch) = 1"
| "turns_left (WSleep ch) = 3"
| "turns_left (WReturned r) = 0"

text \<open>
  An answer that is due at the \<open>k\<close>-th moment of a stretch: what a read of the journal at that moment gives, or, at an
  expiry, nothing with the number the journal is at.
\<close>

definition answered_at :: "WaitArgs \<Rightarrow> wait_event list \<Rightarrow> Journal \<times> Waiter \<Rightarrow> nat \<Rightarrow> Edge list \<times> nat \<Rightarrow> bool" where
  "answered_at a evs s k r \<longleftrightarrow>
     k < length evs \<and>
     (let j = fst (wait_after a (take k evs) s) in
      evs ! k = Turn \<and> r = wa_since a j \<and> fst r \<noteq> [] \<or> evs ! k = Expiry \<and> r = ([], jn_seq j))"

lemma answered_later: "answered_at a evs (wait_event_step a ev s) k r \<Longrightarrow> answered_at a (ev # evs) s (Suc k) r"
  by (simp add: answered_at_def)

lemma wait_answered:
  assumes "waits a j0 j w" "\<forall>k \<le> length evs. fst (wa_since a (fst (wait_after a (take k evs) (j, w)))) \<noteq> []"
    and "turns_left w \<le> count_list evs Turn" "\<nexists>r. w = WReturned r"
  shows "\<exists>k r. snd (wait_after a evs (j, w)) = WReturned r \<and> answered_at a evs (j, w) k r"
  using assms
proof (induction evs arbitrary: j w)
  case Nil
  then show ?case by (cases w) auto
next
  case (Cons ev evs)
  obtain j' w' where s: "wait_event_step a ev (j, w) = (j', w')" by fastforce
  have found: "fst (wa_since a j) \<noteq> []" using Cons.prems(2) [rule_format, of 0] by simp
  have there: "\<forall>k \<le> length evs. fst (wa_since a (fst (wait_after a (take k evs) (j', w')))) \<noteq> []"
    using Cons.prems(2) s by (metis length_Cons Suc_le_mono take_Suc_Cons wait_after_simps(2))
  show ?case
  proof (cases "\<exists>r. w' = WReturned r")
    case True
    then obtain r where r: "w' = WReturned r" by blast
    have "answered_at a (ev # evs) (j, w) 0 r"
      using s r Cons.prems(4) found
      by (cases ev; cases w) (auto simp: answered_at_def split: if_splits option.splits)
    then show ?thesis using s r wait_after_returned by auto
  next
    case False
    have closed: "ch < jn_changed j" if "w = WSleep ch" for ch
      using wait_channel [OF Cons.prems(1)] that found by auto
    have "turns_left w' \<le> count_list evs Turn"
      using s False Cons.prems(3) found closed by (cases ev; cases w) (auto split: if_splits)
    from Cons.IH [OF wait_event_waits [OF Cons.prems(1) s] there this False] s answered_later
    show ?thesis by (metis wait_after_simps(2))
  qed
qed

text \<open>
  C23. However appends, and the end of the waiter's time, fall between the steps of a waiter: while an edge it asked for
  is in the journal, three turns are enough for it to be back, wherever it was when the edge came. Its answer is then
  what the journal had for it at one of these turns, which is not nothing, unless its time was up in that very stretch.
  It is never left asleep on a channel nobody will close.
\<close>

theorem wait_no_lost_wakeup:
  assumes "waits a j0 j w" and "\<nexists>r. w = WReturned r" and "3 \<le> count_list evs Turn"
    and "\<forall>k \<le> length evs. fst (wa_since a (fst (wait_after a (take k evs) (j, w)))) \<noteq> []"
  shows "\<exists>k r. snd (wait_after a evs (j, w)) = WReturned r \<and> k < length evs \<and>
    (let j' = fst (wait_after a (take k evs) (j, w)) in
     evs ! k = Turn \<and> r = wa_since a j' \<and> fst r \<noteq> [] \<or> evs ! k = Expiry \<and> r = ([], jn_seq j'))"
proof -
  have "turns_left w \<le> 3" by (cases w) auto
  with assms(3) have "turns_left w \<le> count_list evs Turn" by simp
  from wait_answered [OF assms(1,4) this assms(2)] show ?thesis unfolding answered_at_def by blast
qed

definition ex_wait :: WaitArgs where
  "ex_wait = \<lparr>wa_seq = 0, wa_limit = 10, wa_timeout = 1, wa_match = Some Rising\<rparr>"

definition ex_wait_events :: "wait_event list" where
  "ex_wait_events = [Turn, Came (ex_edge ''b'' False), Turn, Turn]"

theorem wait_no_lost_wakeup_witness:
  "\<exists>r. snd (wait_after ex_wait ex_wait_events (Append (ex_edge ''a'' True) (NewJournal 5), WSleep 0)) = WReturned r \<and>
     fst r \<noteq> []"
proof -
  let ?j = "NewJournal 5" let ?k = "Append (ex_edge ''a'' True) ?j"
  have "waits ex_wait ?j ?j WLoop"
    by (rule moves [OF begins]) (simp add: wa_since_def Since_def NewJournal_def ex_wait_def Let_def)
  then have "waits ex_wait ?j ?j (WCheck 0)" by (rule moves) (simp add: NewJournal_def)
  then have "waits ex_wait ?j ?j (WSleep 0)"
    by (rule moves) (simp add: wa_since_def Since_def NewJournal_def Let_def)
  then have "waits ex_wait ?j ?k (WSleep 0)" by (rule appends)
  moreover have "fst (wa_since ex_wait (fst (wait_after ex_wait (take n ex_wait_events) (?k, WSleep 0)))) \<noteq> []" if "n \<le> 4" for n
  proof -
    from that have "n \<in> {0, 1, 2, 3, 4}" by auto
    then show ?thesis
      by (auto simp: ex_wait_events_def wa_since_def Since_def Append_def NewJournal_def ex_wait_def ex_edge_def Rising_def Let_def
          numeral_2_eq_2 numeral_3_eq_3 numeral_eq_Suc)
  qed
  moreover have len: "length ex_wait_events = 4" "3 \<le> count_list ex_wait_events Turn" "Expiry \<notin> set ex_wait_events"
    by (simp_all add: ex_wait_events_def)
  ultimately obtain n r where r: "snd (wait_after ex_wait ex_wait_events (?k, WSleep 0)) = WReturned r" "n < 4"
      "ex_wait_events ! n = Turn \<and> fst r \<noteq> [] \<or> ex_wait_events ! n = Expiry"
    using wait_no_lost_wakeup [of ex_wait ?j ?k "WSleep 0" ex_wait_events] unfolding Let_def by (metis Waiter.distinct(19))
  moreover have "ex_wait_events ! n \<in> set ex_wait_events" using r(2) len(1) by simp
  ultimately have "fst r \<noteq> []" using len(3) by metis
  with r(1) show ?thesis by blast
qed

end
