(* ===== verification/Json.thy ===== *)
theory Json
  imports Numbers "HOL-Library.AList"
begin

text \<open>
  What the source uses of Go's \<^verbatim>\<open>encoding/json\<close>. A document is read into its tree first (that
  is the parameter \<open>cd_parse\<close>; it has no value for text that is not valid JSON), and the tree is then
  stored into a struct field by field, as \<^verbatim>\<open>Unmarshal\<close> does: members in their order, a key that is
  no field is skipped, a name is matched exactly first and without case otherwise, \<^verbatim>\<open>null\<close> leaves a
  field alone, and a value of another type is an error. Numbers are kept as their literals; \<open>float64\<close> is
  the 64 bits of one, and the functions that read and show it are parameters.
\<close>

datatype Json = JNull | JBool bool | JNum string | JStr string | JArr "Json list" | JObj "(string \<times> Json) list"

type_synonym float64 = "64 word"

record Codec =
  cd_parse :: "bytes \<Rightarrow> Json option"
  cd_float :: "string \<Rightarrow> float64 option"
  cd_text :: "float64 \<Rightarrow> string"
  cd_fixed :: "float64 \<Rightarrow> string"
  cd_trunc :: "float64 \<Rightarrow> int"

section \<open>Structs\<close>

type_synonym 'r field = "string \<times> (Json \<Rightarrow> 'r \<Rightarrow> 'r option)"

definition find_field :: "'r field list \<Rightarrow> string \<Rightarrow> (Json \<Rightarrow> 'r \<Rightarrow> 'r option) option" where
  "find_field fs k =
     (case map_of fs k of
        Some f \<Rightarrow> Some f
      | None \<Rightarrow> map_of (map (\<lambda>(n, f). (to_lower n, f)) fs) (to_lower k))"

fun set_members :: "'r field list \<Rightarrow> (string \<times> Json) list \<Rightarrow> 'r \<Rightarrow> 'r option" where
  "set_members fs [] r = Some r"
| "set_members fs ((k, j) # ms) r =
     (case find_field fs k of
        None \<Rightarrow> set_members fs ms r
      | Some f \<Rightarrow> (case f j r of None \<Rightarrow> None | Some r \<Rightarrow> set_members fs ms r))"

definition unmarshal_struct :: "'r field list \<Rightarrow> Json \<Rightarrow> 'r \<Rightarrow> 'r option" where
  "unmarshal_struct fs j r = (case j of JNull \<Rightarrow> Some r | JObj ms \<Rightarrow> set_members fs ms r | _ \<Rightarrow> None)"

definition set_string :: "(string \<Rightarrow> 'r \<Rightarrow> 'r) \<Rightarrow> Json \<Rightarrow> 'r \<Rightarrow> 'r option" where
  "set_string upd j r = (case j of JNull \<Rightarrow> Some r | JStr s \<Rightarrow> Some (upd s r) | _ \<Rightarrow> None)"

definition set_bool :: "(bool \<Rightarrow> 'r \<Rightarrow> 'r) \<Rightarrow> Json \<Rightarrow> 'r \<Rightarrow> 'r option" where
  "set_bool upd j r = (case j of JNull \<Rightarrow> Some r | JBool b \<Rightarrow> Some (upd b r) | _ \<Rightarrow> None)"

text \<open>A fraction, an exponent or a number that does not fit in 64 bits is not an \<^verbatim>\<open>int\<close>.\<close>

definition set_int :: "(int \<Rightarrow> 'r \<Rightarrow> 'r) \<Rightarrow> Json \<Rightarrow> 'r \<Rightarrow> 'r option" where
  "set_int upd j r =
     (case j of JNull \<Rightarrow> Some r | JNum n \<Rightarrow> map_option (\<lambda>i. upd i r) (ParseInt n) | _ \<Rightarrow> None)"

definition set_float :: "Codec \<Rightarrow> (float64 \<Rightarrow> 'r \<Rightarrow> 'r) \<Rightarrow> Json \<Rightarrow> 'r \<Rightarrow> 'r option" where
  "set_float cd upd j r =
     (case j of JNull \<Rightarrow> Some r | JNum n \<Rightarrow> map_option (\<lambda>f. upd f r) (cd_float cd n) | _ \<Rightarrow> None)"

text \<open>A \<^verbatim>\<open>RawMessage\<close> takes any value, \<^verbatim>\<open>null\<close> too.\<close>

definition set_raw :: "(Json \<Rightarrow> 'r \<Rightarrow> 'r) \<Rightarrow> Json \<Rightarrow> 'r \<Rightarrow> 'r option" where
  "set_raw upd j r = Some (upd j r)"

fun elements :: "(Json \<Rightarrow> 'a \<Rightarrow> 'a option) \<Rightarrow> 'a \<Rightarrow> Json list \<Rightarrow> 'a list option" where
  "elements f z [] = Some []"
| "elements f z (j # js) =
     (case f j z of None \<Rightarrow> None | Some x \<Rightarrow> map_option (\<lambda>xs. x # xs) (elements f z js))"

definition set_slice :: "(Json \<Rightarrow> 'a \<Rightarrow> 'a option) \<Rightarrow> 'a \<Rightarrow> ('a list \<Rightarrow> 'r \<Rightarrow> 'r) \<Rightarrow> Json \<Rightarrow> 'r \<Rightarrow> 'r option" where
  "set_slice f z upd j r =
     (case j of JNull \<Rightarrow> Some (upd [] r) | JArr js \<Rightarrow> map_option (\<lambda>xs. upd xs r) (elements f z js) | _ \<Rightarrow> None)"

abbreviation a_string :: "Json \<Rightarrow> string \<Rightarrow> string option" where "a_string \<equiv> set_string (\<lambda>s _. s)"
abbreviation a_float :: "Codec \<Rightarrow> Json \<Rightarrow> float64 \<Rightarrow> float64 option" where "a_float cd \<equiv> set_float cd (\<lambda>f _. f)"

section \<open>Documents without a schema\<close>

text \<open>Every number of a document read into \<^verbatim>\<open>any\<close> becomes a float, and one too large is an error.\<close>

fun floats_ok :: "Codec \<Rightarrow> Json \<Rightarrow> bool" where
  "floats_ok cd (JNum n) = (cd_float cd n \<noteq> None)"
| "floats_ok cd (JArr js) = (\<forall>j \<in> set js. floats_ok cd j)"
| "floats_ok cd (JObj ms) = (\<forall>m \<in> set ms. floats_ok cd (snd m))"
| "floats_ok cd _ = True"

text \<open>A \<^verbatim>\<open>map[string]any\<close>: the last of two members with one key stays.\<close>

definition any_map :: "Codec \<Rightarrow> Json \<Rightarrow> (string \<times> Json) list option" where
  "any_map cd j =
     (case j of
        JNull \<Rightarrow> Some []
      | JObj ms \<Rightarrow> if floats_ok cd j then Some (fold (\<lambda>(k, v). AList.update k v) ms []) else None
      | _ \<Rightarrow> None)"

end
