(* ===== verification/PlcModel.thy ===== *)
theory PlcModel
  imports PlcJournal Json Topic
begin

text \<open>
  The data of the PLC plugin: \<^verbatim>\<open>internal/plugins/plc/model.go\<close>, \<^verbatim>\<open>units.go\<close> and
  \<^verbatim>\<open>mapping.go\<close>, and the state \<^verbatim>\<open>registry.go\<close> keeps of a connection. A map is an association
  list.
\<close>

section \<open>What the PLC publishes\<close>

record Point =
  pt_connectionID :: string
  pt_topic :: string
  pt_kind :: PointKind
  pt_address :: int
  pt_name :: string
  pt_device :: string
  pt_bool :: "bool option"
  pt_number :: "float64 option"
  pt_updatedAt :: time
  pt_label :: string
  pt_location :: string
  pt_sensorType :: string
  pt_alarmZone :: bool
  pt_state :: string

record Light =
  lt_connectionID :: string
  lt_topic :: string
  lt_address :: int
  lt_name :: string
  lt_device :: string
  lt_status :: int
  lt_actualLevel :: int
  lt_minLevel :: int
  lt_maxLevel :: int
  lt_fadeTime :: int
  lt_fadeRate :: int
  lt_lastCommand :: string
  lt_error :: string
  lt_updatedAt :: time

definition daliMaxLevel :: int where "daliMaxLevel = 254"

text \<open>The rounding is of a number that is never half-way between two, so it is exact in whole numbers.\<close>

definition Percent :: "Light \<Rightarrow> int" where
  "Percent l =
     (if lt_actualLevel l \<le> 0 then 0
      else if lt_actualLevel l \<ge> daliMaxLevel then 100
      else (lt_actualLevel l * 200 + daliMaxLevel) div (2 * daliMaxLevel))"

record Shade =
  sh_connectionID :: string
  sh_topic :: string
  sh_slug :: string
  sh_device :: string
  sh_position :: int
  sh_lastCommand :: string
  sh_updatedAt :: time

record Actuator =
  ac_connectionID :: string
  ac_topic :: string
  ac_group :: string
  ac_slug :: string
  ac_state :: string
  ac_raw :: "bytes option"
  ac_updatedAt :: time

record Phase =
  ph_voltage :: float64
  ph_current :: float64

record Electricity =
  el_connectionID :: string
  el_topic :: string
  el_name :: string
  el_phases :: "Phase \<times> Phase \<times> Phase"
  el_frequency :: float64
  el_voltageImbalance :: float64
  el_currentImbalance :: float64
  el_alarmActive :: bool
  el_activeAlarms :: "string list"
  el_updatedAt :: time

record StreamCount =
  sm_count :: int
  sm_ageS :: int

record Watchdog =
  wd_connectionID :: string
  wd_topic :: string
  wd_uptimeS :: int
  wd_alive :: bool
  wd_mqttConnected :: bool
  wd_backupMqttConnected :: bool
  wd_directHaMode :: bool
  wd_fallbackActive :: bool
  wd_alarmMode :: string
  wd_alarmTriggered :: bool
  wd_ready :: bool
  wd_persistentValid :: bool
  wd_streams :: "(string \<times> StreamCount) list"
  wd_updatedAt :: time

record Meter =
  mt_connectionID :: string
  mt_topic :: string
  mt_name :: string
  mt_available :: bool
  mt_readings :: "(string \<times> float64) list"
  mt_units :: "(string \<times> string) list"
  mt_updatedAt :: time

record Bridge =
  br_connectionID :: string
  br_topic :: string
  br_source :: string
  br_version :: string
  br_uptimeHours :: float64
  br_rssMb :: float64
  br_freeMemMb :: float64
  br_loadAvg :: "float64 list"
  br_updatedAt :: time

record SensorMeta =
  se_state :: string
  se_type :: string
  se_location :: string
  se_name :: string
  se_alarmZone :: bool
  se_timestamp :: int

record Mapping =
  mp_name :: string
  mp_label :: string
  mp_location :: string
  mp_type :: string
  mp_notes :: string

section \<open>Routes\<close>

record Route =
  rt_branch :: string
  rt_sub :: string
  rt_leaf :: string

definition trimPrefix :: "string \<Rightarrow> string \<Rightarrow> string option" where
  "trimPrefix pre topic =
     (let p = trim_char slash pre in
      if p = [] then (if topic \<noteq> [] then Some topic else None)
      else if \<not> prefix (p @ [slash]) topic then None
      else let rest = trim_prefix (p @ [slash]) topic in if rest = [] then None else Some rest)"

definition parseRoute :: "string \<Rightarrow> string \<Rightarrow> Route option" where
  "parseRoute pre topic =
     (case trimPrefix pre topic of
        None \<Rightarrow> None
      | Some rest \<Rightarrow>
          (case split_on slash rest of
             [] \<Rightarrow> None
           | [b] \<Rightarrow> if b \<noteq> [] then Some \<lparr>rt_branch = b, rt_sub = [], rt_leaf = []\<rparr> else None
           | [b, l] \<Rightarrow> Some \<lparr>rt_branch = b, rt_sub = [], rt_leaf = l\<rparr>
           | b # s # ls \<Rightarrow> Some \<lparr>rt_branch = b, rt_sub = s, rt_leaf = join_with slash ls\<rparr>))"

definition msTime :: "int \<Rightarrow> time \<Rightarrow> time" where
  "msTime ms fallback = (if ms \<le> 0 then fallback else ms * 1000000)"

definition atoiSafe :: "string \<Rightarrow> int" where
  "atoiSafe s = (case ParseInt s of Some n \<Rightarrow> n | None \<Rightarrow> -1)"

section \<open>Units\<close>

definition UnitKilowattHour :: string where "UnitKilowattHour = ''kWh''"
definition UnitCelsius :: string where "UnitCelsius = [CHR 0xC2, CHR 0xB0, CHR ''C'']"
definition UnitCubicMetre :: string where "UnitCubicMetre = [CHR ''m'', CHR 0xC2, CHR 0xB3]"

definition meterUnits :: "(string \<times> string) list" where
  "meterUnits = [(''water_volume_total'', UnitCubicMetre), (''supply_temperature'', UnitCelsius),
     (''heat_total'', UnitKilowattHour)]"

definition unitFor :: "string \<Rightarrow> string" where
  "unitFor key = (case map_of meterUnits (to_lower key) of Some u \<Rightarrow> u | None \<Rightarrow> [])"

text \<open>No readings and no known unit both give no map.\<close>

definition unitsFor :: "(string \<times> float64) list \<Rightarrow> (string \<times> string) list" where
  "unitsFor readings = map (\<lambda>(k, f). (k, unitFor k)) (filter (\<lambda>(k, f). unitFor k \<noteq> []) readings)"

section \<open>State and names\<close>

record ConnState =
  cs_points :: "(string \<times> Point) list"
  cs_lights :: "(int \<times> Light) list"
  cs_shades :: "(string \<times> Shade) list"
  cs_actuators :: "(string \<times> Actuator) list"
  cs_meters :: "(string \<times> Meter) list"
  cs_meta :: "(string \<times> SensorMeta) list"
  cs_mappings :: "(string \<times> Mapping) list"
  cs_elec :: "(string \<times> Electricity) list"
  cs_watchdog :: "Watchdog option"
  cs_bridge :: "Bridge option"

definition empty_state :: ConnState where
  "empty_state = \<lparr>cs_points = [], cs_lights = [], cs_shades = [], cs_actuators = [], cs_meters = [], cs_meta = [],
     cs_mappings = [], cs_elec = [], cs_watchdog = None, cs_bridge = None\<rparr>"

record Registry =
  rg_conns :: "(string \<times> ConnState) list"
  rg_journal :: Journal

definition NewRegistry :: "int \<Rightarrow> Registry" where
  "NewRegistry n = \<lparr>rg_conns = [], rg_journal = NewJournal n\<rparr>"

text \<open>The state of a connection, made when there is none yet.\<close>

definition conn_state :: "string \<Rightarrow> Registry \<Rightarrow> ConnState" where
  "conn_state connID r = (case map_of (rg_conns r) connID of Some c \<Rightarrow> c | None \<Rightarrow> empty_state)"

definition put_state :: "string \<Rightarrow> ConnState \<Rightarrow> Registry \<Rightarrow> Registry" where
  "put_state connID c r = r\<lparr>rg_conns := AList.update connID c (rg_conns r)\<rparr>"

definition mapping_empty :: "Mapping \<Rightarrow> bool" where
  "mapping_empty m \<longleftrightarrow> mp_label m = [] \<and> mp_location m = [] \<and> mp_type m = [] \<and> mp_notes m = []"

definition mappingKeyPrefix :: string where "mappingKeyPrefix = ''map:''"

definition bar :: char where "bar = CHR 0x7C"

definition mappingKey :: "string \<Rightarrow> string \<Rightarrow> string" where
  "mappingKey connID name = mappingKeyPrefix @ connID @ [bar] @ name"

definition parseMappingKey :: "string \<Rightarrow> (string \<times> string) option" where
  "parseMappingKey key =
     (if \<not> prefix mappingKeyPrefix key then None
      else
        let rest = trim_prefix mappingKeyPrefix key;
            connID = takeWhile (\<lambda>c. c \<noteq> bar) rest
        in if length connID = length rest \<or> length connID = length rest - 1 then None
           else Some (connID, drop (length connID + 1) rest))"

definition SetMapping :: "string \<Rightarrow> string \<Rightarrow> Mapping \<Rightarrow> Registry \<Rightarrow> Registry" where
  "SetMapping connID name m r =
     (let name = trim_space name in
      if name = [] then r
      else
        let c = conn_state connID r in
        put_state connID
          (if mapping_empty m then c\<lparr>cs_mappings := AList.delete name (cs_mappings c)\<rparr>
           else c\<lparr>cs_mappings := AList.update name (m\<lparr>mp_name := name\<rparr>) (cs_mappings c)\<rparr>) r)"

definition Mappings :: "string \<Rightarrow> Registry \<Rightarrow> Mapping list" where
  "Mappings connID r =
     concat (map (\<lambda>(i, c). if connID \<noteq> [] \<and> i \<noteq> connID then [] else map snd (cs_mappings c)) (rg_conns r))"

text \<open>The stored texts are unreadable or mappings (\<open>read\<close>); the answer says whether one was unreadable.\<close>

definition load_mapping ::
    "(string \<Rightarrow> Mapping option) \<Rightarrow> string \<times> string \<Rightarrow> bool \<times> Registry \<Rightarrow> bool \<times> Registry" where
  "load_mapping read kv br =
     (case parseMappingKey (fst kv) of
        None \<Rightarrow> br
      | Some (connID, name) \<Rightarrow>
          (case read (snd kv) of
             None \<Rightarrow> (True, snd br)
           | Some m \<Rightarrow>
               let c = conn_state connID (snd br) in
               (fst br, put_state connID (c\<lparr>cs_mappings := AList.update name (m\<lparr>mp_name := name\<rparr>) (cs_mappings c)\<rparr>) (snd br))))"

definition LoadMappings ::
    "(string \<Rightarrow> Mapping option) \<Rightarrow> (string \<times> string) list \<Rightarrow> Registry \<Rightarrow> bool \<times> Registry" where
  "LoadMappings read stored r = fold (load_mapping read) stored (False, r)"

record Description =
  de_label :: string
  de_location :: string
  de_type :: string
  de_alarmZone :: bool
  de_known :: bool

definition describePoint :: "ConnState \<Rightarrow> string \<Rightarrow> Description" where
  "describePoint c name =
     (let d = (case map_of (cs_meta c) name of
                 None \<Rightarrow> \<lparr>de_label = [], de_location = [], de_type = [], de_alarmZone = False, de_known = False\<rparr>
               | Some m \<Rightarrow> \<lparr>de_label = se_name m, de_location = se_location m, de_type = se_type m,
                             de_alarmZone = se_alarmZone m, de_known = True\<rparr>)
      in case map_of (cs_mappings c) name of
           None \<Rightarrow> d
         | Some m \<Rightarrow> d\<lparr>de_known := True,
               de_label := (if mp_label m \<noteq> [] then mp_label m else de_label d),
               de_location := (if mp_location m \<noteq> [] then mp_location m else de_location d),
               de_type := (if mp_type m \<noteq> [] then mp_type m else de_type d)\<rparr>)"

end
