(* ===== verification/PlcRegistry.thy ===== *)
theory PlcRegistry
  imports PlcModel "HOL-Library.Char_ord" "HOL-Library.List_Lexorder"
begin

text \<open>
  \<^verbatim>\<open>internal/plugins/plc/registry.go\<close>: folding one message into what is known of a connection, and
  the projection the panel reads. Each branch of the topic tree has its function; a function gives no
  value where the code returns false.
\<close>

section \<open>Reading payloads\<close>

definition decode :: "Codec \<Rightarrow> 'r field list \<Rightarrow> bytes \<Rightarrow> 'r \<Rightarrow> 'r option" where
  "decode cd fs payload z = (case cd_parse cd payload of None \<Rightarrow> None | Some j \<Rightarrow> unmarshal_struct fs j z)"

record Envelope =
  en_timestamp :: int
  en_device :: string
  en_address :: int
  en_type :: string
  en_name :: string
  en_value :: "Json option"

definition zero_envelope :: Envelope where
  "zero_envelope = \<lparr>en_timestamp = 0, en_device = [], en_address = 0, en_type = [], en_name = [], en_value = None\<rparr>"

definition envelope_fields :: "Envelope field list" where
  "envelope_fields =
     [(''timestamp'', set_int (\<lambda>i r. r\<lparr>en_timestamp := i\<rparr>)), (''device'', set_string (\<lambda>s r. r\<lparr>en_device := s\<rparr>)),
      (''address'', set_int (\<lambda>i r. r\<lparr>en_address := i\<rparr>)), (''type'', set_string (\<lambda>s r. r\<lparr>en_type := s\<rparr>)),
      (''name'', set_string (\<lambda>s r. r\<lparr>en_name := s\<rparr>)), (''value'', set_raw (\<lambda>j r. r\<lparr>en_value := Some j\<rparr>))]"

definition digitalKind :: "string \<Rightarrow> PointKind option" where
  "digitalKind sub =
     (if sub = ''input'' then Some KindInput else if sub = ''output'' then Some KindOutput
      else if sub = ''temperature'' then Some KindTemperature else None)"

text \<open>The value of a point: a boolean if it reads as one, a number otherwise, neither if it is something else.\<close>

definition point_value :: "Codec \<Rightarrow> Json option \<Rightarrow> bool option \<times> float64 option" where
  "point_value cd v =
     (case v of
        None \<Rightarrow> (None, None)
      | Some j \<Rightarrow>
          (case set_bool (\<lambda>b _. b) j False of
             Some b \<Rightarrow> (Some b, None)
           | None \<Rightarrow> (None, set_float cd (\<lambda>f _. f) j 0)))"

definition address_of :: "int \<Rightarrow> string \<Rightarrow> int" where
  "address_of a leaf = (if a = 0 then (if atoiSafe leaf \<ge> 0 then atoiSafe leaf else a) else a)"

definition point_of :: "Codec \<Rightarrow> string \<Rightarrow> PointKind \<Rightarrow> Route \<Rightarrow> string \<Rightarrow> bytes \<Rightarrow> time \<Rightarrow> Point option" where
  "point_of cd connID kind rt topic payload received =
     (case decode cd envelope_fields payload zero_envelope of
        None \<Rightarrow> None
      | Some env \<Rightarrow>
          Some \<lparr>pt_connectionID = connID, pt_topic = topic, pt_kind = kind, pt_address = address_of (en_address env) (rt_leaf rt),
            pt_name = en_name env, pt_device = en_device env, pt_bool = fst (point_value cd (en_value env)),
            pt_number = snd (point_value cd (en_value env)), pt_updatedAt = msTime (en_timestamp env) received,
            pt_label = [], pt_location = [], pt_sensorType = [], pt_alarmZone = False, pt_state = []\<rparr>)"

text \<open>The edge a point's new value makes, when both it and the one before are booleans and differ.\<close>

definition edge_of :: "ConnState \<Rightarrow> Point option \<Rightarrow> Point \<Rightarrow> Edge option" where
  "edge_of c prev p =
     (case (pt_bool p, Option.bind prev pt_bool) of
        (Some b, Some a) \<Rightarrow>
          if a = b then None
          else let d = describePoint c (pt_name p) in
            Some \<lparr>ed_seq = 0, ed_connectionID = pt_connectionID p, ed_topic = pt_topic p, ed_kind = pt_kind p,
              ed_address = pt_address p, ed_name = pt_name p, ed_label = de_label d, ed_location = de_location d,
              ed_sensorType = de_type d, ed_alarmZone = de_alarmZone d, ed_from = a, ed_to = b, ed_at = pt_updatedAt p\<rparr>
      | _ \<Rightarrow> None)"

definition applyPoint ::
    "Codec \<Rightarrow> string \<Rightarrow> PointKind \<Rightarrow> Route \<Rightarrow> string \<Rightarrow> bytes \<Rightarrow> time \<Rightarrow> ConnState \<Rightarrow> Journal \<Rightarrow> (ConnState \<times> Journal) option" where
  "applyPoint cd connID kind rt topic payload received c j =
     (case point_of cd connID kind rt topic payload received of
        None \<Rightarrow> None
      | Some p \<Rightarrow>
          let prev = map_of (cs_points c) topic;
              c = c\<lparr>cs_points := AList.update topic p (cs_points c)\<rparr>
          in Some (c, case edge_of c prev p of None \<Rightarrow> j | Some e \<Rightarrow> Append e j))"

record RawLight =
  rl_env :: Envelope
  rl_status :: int
  rl_actual :: int
  rl_max :: int
  rl_min :: int
  rl_fadeTime :: int
  rl_fadeRate :: int
  rl_lastCommand :: string
  rl_error :: string

text \<open>The fields of an embedded struct are read as its own.\<close>

definition lift_env :: "Envelope field \<Rightarrow> RawLight field" where
  "lift_env f = (fst f, \<lambda>j r. map_option (\<lambda>e. r\<lparr>rl_env := e\<rparr>) (snd f j (rl_env r)))"

definition light_fields :: "RawLight field list" where
  "light_fields = map lift_env envelope_fields @
     [(''status'', set_int (\<lambda>i r. r\<lparr>rl_status := i\<rparr>)), (''actual_level'', set_int (\<lambda>i r. r\<lparr>rl_actual := i\<rparr>)),
      (''max_level'', set_int (\<lambda>i r. r\<lparr>rl_max := i\<rparr>)), (''min_level'', set_int (\<lambda>i r. r\<lparr>rl_min := i\<rparr>)),
      (''fade_time'', set_int (\<lambda>i r. r\<lparr>rl_fadeTime := i\<rparr>)), (''fade_rate'', set_int (\<lambda>i r. r\<lparr>rl_fadeRate := i\<rparr>)),
      (''last_command'', set_string (\<lambda>s r. r\<lparr>rl_lastCommand := s\<rparr>)), (''error'', set_string (\<lambda>s r. r\<lparr>rl_error := s\<rparr>))]"

definition zero_light :: RawLight where
  "zero_light = \<lparr>rl_env = zero_envelope, rl_status = 0, rl_actual = 0, rl_max = 0, rl_min = 0, rl_fadeTime = 0,
     rl_fadeRate = 0, rl_lastCommand = [], rl_error = []\<rparr>"

definition applyLight :: "Codec \<Rightarrow> string \<Rightarrow> Route \<Rightarrow> string \<Rightarrow> bytes \<Rightarrow> time \<Rightarrow> ConnState \<Rightarrow> ConnState option" where
  "applyLight cd connID rt topic payload received c =
     (case decode cd light_fields payload zero_light of
        None \<Rightarrow> None
      | Some w \<Rightarrow>
          let a = address_of (en_address (rl_env w)) (rt_leaf rt) in
          Some (c\<lparr>cs_lights := AList.update a
            \<lparr>lt_connectionID = connID, lt_topic = topic, lt_address = a, lt_name = en_name (rl_env w),
              lt_device = en_device (rl_env w), lt_status = rl_status w, lt_actualLevel = rl_actual w, lt_minLevel = rl_min w,
              lt_maxLevel = rl_max w, lt_fadeTime = rl_fadeTime w, lt_fadeRate = rl_fadeRate w,
              lt_lastCommand = rl_lastCommand w, lt_error = rl_error w,
              lt_updatedAt = msTime (en_timestamp (rl_env w)) received\<rparr> (cs_lights c)\<rparr>))"

definition meta_fields :: "SensorMeta field list" where
  "meta_fields =
     [(''state'', set_string (\<lambda>s r. r\<lparr>se_state := s\<rparr>)), (''type'', set_string (\<lambda>s r. r\<lparr>se_type := s\<rparr>)),
      (''location'', set_string (\<lambda>s r. r\<lparr>se_location := s\<rparr>)), (''name'', set_string (\<lambda>s r. r\<lparr>se_name := s\<rparr>)),
      (''alarm_zone'', set_bool (\<lambda>b r. r\<lparr>se_alarmZone := b\<rparr>)), (''timestamp'', set_int (\<lambda>i r. r\<lparr>se_timestamp := i\<rparr>))]"

definition zero_meta :: SensorMeta where
  "zero_meta = \<lparr>se_state = [], se_type = [], se_location = [], se_name = [], se_alarmZone = False, se_timestamp = 0\<rparr>"

definition applyMeta :: "Codec \<Rightarrow> string \<Rightarrow> bytes \<Rightarrow> ConnState \<Rightarrow> ConnState option" where
  "applyMeta cd name payload c =
     (if name = [] then None
      else case decode cd meta_fields payload zero_meta of
        None \<Rightarrow> None | Some m \<Rightarrow> Some (c\<lparr>cs_meta := AList.update name m (cs_meta c)\<rparr>))"

record RawShade =
  rs_device :: string
  rs_slug :: string
  rs_position :: int
  rs_lastCommand :: string

definition shade_fields :: "RawShade field list" where
  "shade_fields =
     [(''device'', set_string (\<lambda>s r. r\<lparr>rs_device := s\<rparr>)), (''slug'', set_string (\<lambda>s r. r\<lparr>rs_slug := s\<rparr>)),
      (''position'', set_int (\<lambda>i r. r\<lparr>rs_position := i\<rparr>)), (''last_command'', set_string (\<lambda>s r. r\<lparr>rs_lastCommand := s\<rparr>))]"

definition applyShade :: "Codec \<Rightarrow> string \<Rightarrow> Route \<Rightarrow> string \<Rightarrow> bytes \<Rightarrow> time \<Rightarrow> ConnState \<Rightarrow> ConnState option" where
  "applyShade cd connID rt topic payload received c =
     (case decode cd shade_fields payload \<lparr>rs_device = [], rs_slug = [], rs_position = 0, rs_lastCommand = []\<rparr> of
        None \<Rightarrow> None
      | Some w \<Rightarrow>
          let slug = (if rs_slug w = [] then rt_leaf rt else rs_slug w) in
          if slug = [] then None
          else Some (c\<lparr>cs_shades := AList.update slug
            \<lparr>sh_connectionID = connID, sh_topic = topic, sh_slug = slug, sh_device = rs_device w, sh_position = rs_position w,
              sh_lastCommand = rs_lastCommand w, sh_updatedAt = received\<rparr> (cs_shades c)\<rparr>))"

definition trimFloat :: "Codec \<Rightarrow> string \<Rightarrow> string" where
  "trimFloat cd n = (case cd_float cd n of None \<Rightarrow> [] | Some f \<Rightarrow> cd_text cd f)"

fun firstString :: "Codec \<Rightarrow> (string \<times> Json) list \<Rightarrow> string list \<Rightarrow> string" where
  "firstString cd m [] = []"
| "firstString cd m (k # ks) =
     (case map_of m k of
        Some (JStr s) \<Rightarrow> s
      | Some (JBool b) \<Rightarrow> (if b then ''ON'' else ''OFF'')
      | Some (JNum n) \<Rightarrow> trimFloat cd n
      | _ \<Rightarrow> firstString cd m ks)"

definition applyActuator :: "Codec \<Rightarrow> string \<Rightarrow> Route \<Rightarrow> string \<Rightarrow> bytes \<Rightarrow> time \<Rightarrow> ConnState \<Rightarrow> ConnState option" where
  "applyActuator cd connID rt topic payload received c =
     (let slug = (if rt_leaf rt = [] then rt_sub rt else rt_leaf rt);
          trimmed = trim_space (string_of_bytes payload);
          obj = prefix ''{'' trimmed
      in if slug = [] \<or> trimmed = [] \<or> obj \<and> cd_parse cd payload = None then None
         else
           Some (c\<lparr>cs_actuators := AList.update (rt_branch rt @ [slash] @ slug)
             \<lparr>ac_connectionID = connID, ac_topic = topic, ac_group = rt_branch rt, ac_slug = slug,
               ac_state =
                 (if obj then
                    (case Option.bind (cd_parse cd payload) (any_map cd) of
                       None \<Rightarrow> []
                     | Some m \<Rightarrow> firstString cd m [''state'', ''value'', ''status'', ''position''])
                  else trim_char (CHR 0x22) trimmed),
               ac_raw = (if obj then Some payload else None), ac_updatedAt = received\<rparr> (cs_actuators c)\<rparr>))"

section \<open>Power, health and meters\<close>

record RawElectricity =
  re_timestamp :: float64
  re_name :: string
  re_v1 :: float64
  re_v2 :: float64
  re_v3 :: float64
  re_c1 :: float64
  re_c2 :: float64
  re_c3 :: float64
  re_frequency :: float64
  re_imbalance :: "(float64 \<times> float64) option"
  re_alarmActive :: bool
  re_activeAlarms :: "string list"

definition imbalance_fields :: "Codec \<Rightarrow> (float64 \<times> float64) field list" where
  "imbalance_fields cd =
     [(''voltage'', set_float cd (\<lambda>f r. (f, snd r))), (''current'', set_float cd (\<lambda>f r. (fst r, f)))]"

text \<open>A pointer to a struct: \<^verbatim>\<open>null\<close> clears it, an object is read into what it points at.\<close>

definition set_imbalance :: "Codec \<Rightarrow> Json \<Rightarrow> RawElectricity \<Rightarrow> RawElectricity option" where
  "set_imbalance cd j r =
     (if j = JNull then Some (r\<lparr>re_imbalance := None\<rparr>)
      else map_option (\<lambda>p. r\<lparr>re_imbalance := Some p\<rparr>)
        (unmarshal_struct (imbalance_fields cd) j (case re_imbalance r of None \<Rightarrow> (0, 0) | Some p \<Rightarrow> p)))"

definition electricity_fields :: "Codec \<Rightarrow> RawElectricity field list" where
  "electricity_fields cd =
     [(''timestamp'', set_float cd (\<lambda>f r. r\<lparr>re_timestamp := f\<rparr>)), (''name'', set_string (\<lambda>s r. r\<lparr>re_name := s\<rparr>)),
      (''L1_voltage'', set_float cd (\<lambda>f r. r\<lparr>re_v1 := f\<rparr>)), (''L2_voltage'', set_float cd (\<lambda>f r. r\<lparr>re_v2 := f\<rparr>)),
      (''L3_voltage'', set_float cd (\<lambda>f r. r\<lparr>re_v3 := f\<rparr>)), (''L1_current'', set_float cd (\<lambda>f r. r\<lparr>re_c1 := f\<rparr>)),
      (''L2_current'', set_float cd (\<lambda>f r. r\<lparr>re_c2 := f\<rparr>)), (''L3_current'', set_float cd (\<lambda>f r. r\<lparr>re_c3 := f\<rparr>)),
      (''frequency'', set_float cd (\<lambda>f r. r\<lparr>re_frequency := f\<rparr>)), (''imbalance'', set_imbalance cd),
      (''alarm_active'', set_bool (\<lambda>b r. r\<lparr>re_alarmActive := b\<rparr>)),
      (''active_alarms'', set_slice a_string [] (\<lambda>xs r. r\<lparr>re_activeAlarms := xs\<rparr>))]"

definition zero_electricity :: RawElectricity where
  "zero_electricity = \<lparr>re_timestamp = 0, re_name = [], re_v1 = 0, re_v2 = 0, re_v3 = 0, re_c1 = 0, re_c2 = 0, re_c3 = 0,
     re_frequency = 0, re_imbalance = None, re_alarmActive = False, re_activeAlarms = []\<rparr>"

definition new_electricity :: "string \<Rightarrow> string \<Rightarrow> Electricity" where
  "new_electricity connID name =
     \<lparr>el_connectionID = connID, el_topic = [], el_name = name,
      el_phases = (\<lparr>ph_voltage = 0, ph_current = 0\<rparr>, \<lparr>ph_voltage = 0, ph_current = 0\<rparr>, \<lparr>ph_voltage = 0, ph_current = 0\<rparr>),
      el_frequency = 0, el_voltageImbalance = 0, el_currentImbalance = 0, el_alarmActive = False, el_activeAlarms = [],
      el_updatedAt = 0\<rparr>"

definition update_electricity ::
    "Codec \<Rightarrow> Route \<Rightarrow> string \<Rightarrow> time \<Rightarrow> RawElectricity \<Rightarrow> Electricity \<Rightarrow> Electricity" where
  "update_electricity cd rt topic received w e =
     (let e = e\<lparr>el_topic := topic,
           el_phases := (\<lparr>ph_voltage = re_v1 w, ph_current = re_c1 w\<rparr>, \<lparr>ph_voltage = re_v2 w, ph_current = re_c2 w\<rparr>,
             \<lparr>ph_voltage = re_v3 w, ph_current = re_c3 w\<rparr>),
           el_frequency := re_frequency w, el_updatedAt := msTime (cd_trunc cd (re_timestamp w)) received\<rparr>;
          e = (case re_imbalance w of None \<Rightarrow> e | Some (v, i) \<Rightarrow> e\<lparr>el_voltageImbalance := v, el_currentImbalance := i\<rparr>)
      in if rt_sub rt = ''processed''
         then e\<lparr>el_alarmActive := re_alarmActive w, el_activeAlarms := re_activeAlarms w\<rparr> else e)"

definition applyElectricity :: "Codec \<Rightarrow> string \<Rightarrow> Route \<Rightarrow> string \<Rightarrow> bytes \<Rightarrow> time \<Rightarrow> ConnState \<Rightarrow> ConnState option" where
  "applyElectricity cd connID rt topic payload received c =
     (case decode cd (electricity_fields cd) payload zero_electricity of
        None \<Rightarrow> None
      | Some w \<Rightarrow>
          let name = (if rt_leaf rt = [] then re_name w else rt_leaf rt);
              e = (case map_of (cs_elec c) name of Some e \<Rightarrow> e | None \<Rightarrow> new_electricity connID name)
          in Some (c\<lparr>cs_elec := AList.update name (update_electricity cd rt topic received w e) (cs_elec c)\<rparr>))"

definition stream_fields :: "StreamCount field list" where
  "stream_fields = [(''count'', set_int (\<lambda>i r. r\<lparr>sm_count := i\<rparr>)), (''age_s'', set_int (\<lambda>i r. r\<lparr>sm_ageS := i\<rparr>))]"

fun set_entries :: "(string \<times> Json) list \<Rightarrow> (string \<times> StreamCount) list \<Rightarrow> (string \<times> StreamCount) list option" where
  "set_entries [] m = Some m"
| "set_entries ((k, j) # ms) m =
     (case unmarshal_struct stream_fields j \<lparr>sm_count = 0, sm_ageS = 0\<rparr> of
        None \<Rightarrow> None | Some v \<Rightarrow> set_entries ms (AList.update k v m))"

definition set_streams :: "Json \<Rightarrow> Watchdog \<Rightarrow> Watchdog option" where
  "set_streams j r =
     (case j of
        JNull \<Rightarrow> Some (r\<lparr>wd_streams := []\<rparr>)
      | JObj ms \<Rightarrow> map_option (\<lambda>m. r\<lparr>wd_streams := m\<rparr>) (set_entries ms (wd_streams r))
      | _ \<Rightarrow> None)"

definition watchdog_fields :: "Watchdog field list" where
  "watchdog_fields =
     [(''uptime_s'', set_int (\<lambda>i r. r\<lparr>wd_uptimeS := i\<rparr>)), (''alive'', set_bool (\<lambda>b r. r\<lparr>wd_alive := b\<rparr>)),
      (''mqtt_connected'', set_bool (\<lambda>b r. r\<lparr>wd_mqttConnected := b\<rparr>)),
      (''backup_mqtt_connected'', set_bool (\<lambda>b r. r\<lparr>wd_backupMqttConnected := b\<rparr>)),
      (''direct_ha_mode'', set_bool (\<lambda>b r. r\<lparr>wd_directHaMode := b\<rparr>)),
      (''fallback_active'', set_bool (\<lambda>b r. r\<lparr>wd_fallbackActive := b\<rparr>)),
      (''alarm_mode'', set_string (\<lambda>s r. r\<lparr>wd_alarmMode := s\<rparr>)),
      (''alarm_triggered'', set_bool (\<lambda>b r. r\<lparr>wd_alarmTriggered := b\<rparr>)),
      (''ready'', set_bool (\<lambda>b r. r\<lparr>wd_ready := b\<rparr>)),
      (''persistent_valid'', set_bool (\<lambda>b r. r\<lparr>wd_persistentValid := b\<rparr>)), (''streams'', set_streams)]"

definition new_watchdog :: "string \<Rightarrow> string \<Rightarrow> time \<Rightarrow> Watchdog" where
  "new_watchdog connID topic received =
     \<lparr>wd_connectionID = connID, wd_topic = topic, wd_uptimeS = 0, wd_alive = False, wd_mqttConnected = False,
      wd_backupMqttConnected = False, wd_directHaMode = False, wd_fallbackActive = False, wd_alarmMode = [],
      wd_alarmTriggered = False, wd_ready = False, wd_persistentValid = False, wd_streams = [], wd_updatedAt = received\<rparr>"

definition applyWatchdog :: "Codec \<Rightarrow> string \<Rightarrow> string \<Rightarrow> bytes \<Rightarrow> time \<Rightarrow> ConnState \<Rightarrow> ConnState option" where
  "applyWatchdog cd connID topic payload received c =
     map_option (\<lambda>w. c\<lparr>cs_watchdog := Some w\<rparr>) (decode cd watchdog_fields payload (new_watchdog connID topic received))"

definition memory_fields :: "Codec \<Rightarrow> Bridge field list" where
  "memory_fields cd = [(''rss_mb'', set_float cd (\<lambda>f r. r\<lparr>br_rssMb := f\<rparr>))]"

definition os_fields :: "Codec \<Rightarrow> Bridge field list" where
  "os_fields cd =
     [(''freeMem_mb'', set_float cd (\<lambda>f r. r\<lparr>br_freeMemMb := f\<rparr>)),
      (''loadAvg'', set_slice (a_float cd) 0 (\<lambda>xs r. r\<lparr>br_loadAvg := xs\<rparr>))]"

definition bridge_fields :: "Codec \<Rightarrow> Bridge field list" where
  "bridge_fields cd =
     [(''source'', set_string (\<lambda>s r. r\<lparr>br_source := s\<rparr>)), (''nodered_version'', set_string (\<lambda>s r. r\<lparr>br_version := s\<rparr>)),
      (''uptime_hours'', set_float cd (\<lambda>f r. r\<lparr>br_uptimeHours := f\<rparr>)),
      (''memory'', unmarshal_struct (memory_fields cd)), (''os'', unmarshal_struct (os_fields cd))]"

definition new_bridge :: "string \<Rightarrow> string \<Rightarrow> time \<Rightarrow> Bridge" where
  "new_bridge connID topic received =
     \<lparr>br_connectionID = connID, br_topic = topic, br_source = [], br_version = [], br_uptimeHours = 0, br_rssMb = 0,
      br_freeMemMb = 0, br_loadAvg = [], br_updatedAt = received\<rparr>"

definition applyBridge :: "Codec \<Rightarrow> string \<Rightarrow> string \<Rightarrow> bytes \<Rightarrow> time \<Rightarrow> ConnState \<Rightarrow> ConnState option" where
  "applyBridge cd connID topic payload received c =
     map_option (\<lambda>b. c\<lparr>cs_bridge := Some b\<rparr>) (decode cd (bridge_fields cd) payload (new_bridge connID topic received))"

definition new_meter :: "string \<Rightarrow> string \<Rightarrow> Meter" where
  "new_meter connID name =
     \<lparr>mt_connectionID = connID, mt_topic = [], mt_name = name, mt_available = False, mt_readings = [], mt_units = [],
      mt_updatedAt = 0\<rparr>"

definition readings_of :: "Codec \<Rightarrow> (string \<times> Json) list \<Rightarrow> (string \<times> float64) list" where
  "readings_of cd m =
     concat (map (\<lambda>(k, v). case v of JNum n \<Rightarrow> (case cd_float cd n of None \<Rightarrow> [] | Some f \<Rightarrow> [(k, f)]) | _ \<Rightarrow> []) m)"

text \<open>The meter is filed before its message is looked at.\<close>

definition applyMeter ::
    "Codec \<Rightarrow> string \<Rightarrow> Route \<Rightarrow> string \<Rightarrow> bytes \<Rightarrow> time \<Rightarrow> ConnState \<Rightarrow> bool \<times> ConnState" where
  "applyMeter cd connID rt topic payload received c =
     (let name = rt_branch rt in
      if name = [] then (False, c)
      else
        let m = (case map_of (cs_meters c) name of Some m \<Rightarrow> m | None \<Rightarrow> new_meter connID name);
            put = (\<lambda>m. c\<lparr>cs_meters := AList.update name m (cs_meters c)\<rparr>)
        in if rt_leaf rt = ''availability'' then
             (True, put (m\<lparr>mt_available := to_lower (trim_char (CHR 0x22) (trim_space (string_of_bytes payload))) = ''online'',
                mt_updatedAt := received\<rparr>))
           else if rt_leaf rt = ''state'' then
             (case Option.bind (cd_parse cd payload) (any_map cd) of
                None \<Rightarrow> (False, put m)
              | Some kv \<Rightarrow> (True, put (m\<lparr>mt_topic := topic, mt_readings := readings_of cd kv, mt_updatedAt := received\<rparr>)))
           else (False, put m))"

section \<open>One message\<close>

definition with_journal :: "Journal \<Rightarrow> ConnState option \<Rightarrow> (ConnState \<times> Journal) option" where
  "with_journal j c = map_option (\<lambda>c. (c, j)) c"

definition applyPLC ::
    "Codec \<Rightarrow> string \<Rightarrow> Route \<Rightarrow> string \<Rightarrow> bytes \<Rightarrow> time \<Rightarrow> ConnState \<Rightarrow> Journal \<Rightarrow> (ConnState \<times> Journal) option" where
  "applyPLC cd connID rt topic payload received c j =
     (if rt_branch rt = ''digital'' then
        (case digitalKind (rt_sub rt) of None \<Rightarrow> None | Some kind \<Rightarrow> applyPoint cd connID kind rt topic payload received c j)
      else with_journal j
        (if rt_branch rt = ''dali'' then
           (if rt_sub rt \<noteq> ''light'' then None else applyLight cd connID rt topic payload received c)
         else if rt_branch rt = ''sensor'' then applyMeta cd (rt_leaf rt) payload c
         else if rt_branch rt = ''shade'' then applyShade cd connID rt topic payload received c
         else if rt_branch rt \<in> {''access'', ''safety'', ''relay''} then applyActuator cd connID rt topic payload received c
         else if rt_branch rt = ''electricity'' then
           (if rt_sub rt \<noteq> ''processed'' \<and> rt_sub rt \<noteq> ''status'' then None
            else applyElectricity cd connID rt topic payload received c)
         else if rt_branch rt = ''watchdog'' then applyWatchdog cd connID topic payload received c
         else if rt_branch rt = ''debug'' then
           (if rt_leaf rt \<noteq> ''health'' then None else applyBridge cd connID topic payload received c)
         else None))"

definition Apply ::
    "Codec \<Rightarrow> string \<Rightarrow> string \<Rightarrow> string \<Rightarrow> string \<Rightarrow> bytes \<Rightarrow> time \<Rightarrow> Registry \<Rightarrow> bool \<times> Registry" where
  "Apply cd pre meterPre connID topic payload received r =
     (let c = conn_state connID r in
      case parseRoute pre topic of
        Some rt \<Rightarrow>
          (case applyPLC cd connID rt topic payload received c (rg_journal r) of
             None \<Rightarrow> (False, put_state connID c r)
           | Some (c, j) \<Rightarrow> (True, (put_state connID c r)\<lparr>rg_journal := j\<rparr>))
      | None \<Rightarrow>
          (case parseRoute meterPre topic of
             Some rt \<Rightarrow> (let (changed, c) = applyMeter cd connID rt topic payload received c in (changed, put_state connID c r))
           | None \<Rightarrow> (False, r)))"

definition Forget :: "string \<Rightarrow> Registry \<Rightarrow> Registry" where
  "Forget connID r = r\<lparr>rg_conns := AList.delete connID (rg_conns r)\<rparr>"

definition plc_stats :: "Registry \<Rightarrow> nat \<times> nat" where
  "plc_stats r =
     (sum_list (map (\<lambda>(k, c). length (cs_points c)) (rg_conns r)), sum_list (map (\<lambda>(k, c). length (cs_lights c)) (rg_conns r)))"

section \<open>What the panel reads\<close>

record Summary =
  su_inputs :: nat
  su_outputs :: nat
  su_temperatures :: nat
  su_lights :: nat
  su_lightsWithError :: nat
  su_lightsOn :: nat
  su_shades :: nat
  su_actuators :: nat
  su_meters :: nat
  su_described :: nat
  su_activeInputs :: nat

record PlcState =
  ps_points :: "Point list"
  ps_lights :: "Light list"
  ps_shades :: "Shade list"
  ps_actuators :: "Actuator list"
  ps_electricity :: "Electricity list"
  ps_meters :: "Meter list"
  ps_watchdog :: "Watchdog option"
  ps_bridge :: "Bridge option"
  ps_summary :: Summary

text \<open>A point with its description; the sensor's state only when the sensor has been heard.\<close>

definition described_point :: "ConnState \<Rightarrow> Point \<Rightarrow> Point" where
  "described_point c p =
     (let d = describePoint c (pt_name p) in
      if \<not> de_known d then p
      else p\<lparr>pt_label := de_label d, pt_location := de_location d, pt_sensorType := de_type d, pt_alarmZone := de_alarmZone d,
        pt_state := (case map_of (cs_meta c) (pt_name p) of Some m \<Rightarrow> se_state m | None \<Rightarrow> pt_state p)\<rparr>)"

definition kind_rank :: "PointKind \<Rightarrow> nat" where
  "kind_rank k = (case k of KindInput \<Rightarrow> 0 | KindOutput \<Rightarrow> 1 | KindTemperature \<Rightarrow> 2)"

definition last_some :: "'a option list \<Rightarrow> 'a option" where
  "last_some xs = fold (\<lambda>x acc. case x of None \<Rightarrow> acc | Some y \<Rightarrow> Some y) xs None"

definition count_if :: "('a \<Rightarrow> bool) \<Rightarrow> 'a list \<Rightarrow> nat" where
  "count_if P xs = length (filter P xs)"

definition Snapshot :: "string \<Rightarrow> Registry \<Rightarrow> PlcState" where
  "Snapshot connID r =
     (let cs = map snd (filter (\<lambda>(i, c). \<not> (connID \<noteq> [] \<and> i \<noteq> connID)) (rg_conns r));
          points = concat (map (\<lambda>c. map (\<lambda>(t, p). described_point c p) (cs_points c)) cs);
          lights = concat (map (\<lambda>c. map snd (cs_lights c)) cs);
          shades = concat (map (\<lambda>c. map snd (cs_shades c)) cs);
          actuators = concat (map (\<lambda>c. map snd (cs_actuators c)) cs);
          elec = concat (map (\<lambda>c. map snd (cs_elec c)) cs);
          meters = concat (map (\<lambda>c. map (\<lambda>(n, m). m\<lparr>mt_units := unitsFor (mt_readings m)\<rparr>) (cs_meters c)) cs)
      in \<lparr>ps_points = sort_key (\<lambda>p. kind_rank (pt_kind p)) (sort_key pt_address points),
          ps_lights = sort_key lt_address lights, ps_shades = sort_key sh_slug shades,
          ps_actuators = sort_key ac_group (sort_key ac_slug actuators), ps_electricity = sort_key el_name elec,
          ps_meters = sort_key mt_name meters,
          ps_watchdog = last_some (map cs_watchdog cs), ps_bridge = last_some (map cs_bridge cs),
          ps_summary =
            \<lparr>su_inputs = count_if (\<lambda>p. pt_kind p = KindInput) points,
             su_outputs = count_if (\<lambda>p. pt_kind p = KindOutput) points,
             su_temperatures = count_if (\<lambda>p. pt_kind p = KindTemperature) points,
             su_lights = length lights, su_lightsWithError = count_if (\<lambda>l. lt_error l \<noteq> []) lights,
             su_lightsOn = count_if (\<lambda>l. lt_actualLevel l > 0) lights,
             su_shades = length shades, su_actuators = length actuators, su_meters = length meters,
             su_described = sum_list (map (\<lambda>c. count_if (\<lambda>(t, p). de_known (describePoint c (pt_name p))) (cs_points c)) cs),
             su_activeInputs = count_if (\<lambda>p. pt_bool p = Some True) points\<rparr>\<rparr>)"

end
