(* ===== verification/Plugins.thy ===== *)
theory Plugins
  imports Manager Queue
begin

text \<open>
  \<^verbatim>\<open>internal/plugin/runtime.go\<close>, \<^verbatim>\<open>plugin.go\<close> and \<^verbatim>\<open>internal/store/plugins.go\<close>: the host of the
  compiled-in plugins. It works on the connections of the manager, so its state holds one. What a plugin
  does is an argument (its settings schema, whether its initialisation and its closing fail, the filters
  it asks for); settings are maps to values the runtime does not look into.
\<close>

section \<open>Plugins and their instances\<close>

type_synonym 'v settings = "string \<rightharpoonup> 'v"

record 'v PluginDef =
  pl_schema :: "(string \<times> 'v option) list"
  pl_init :: "'v settings \<Rightarrow> string option"
  pl_subs :: "'v settings \<Rightarrow> Subscription list"
  pl_closeErr :: "string option"

definition queueSize :: nat where "queueSize = 4096"

record 'v Instance =
  pi_settings :: "'v settings"
  pi_enabled :: bool
  pi_running :: bool
  pi_lastErr :: string
  pi_subs :: "Subscription list"
  pi_dynamic :: "(string \<times> Subscription) list"
  pi_queue :: "Message list"
  pi_dropped :: nat

text \<open>\<open>rt_saved\<close> and \<open>rt_state\<close> are the tables \<^verbatim>\<open>plugin_settings\<close> and \<^verbatim>\<open>plugin_state\<close>.\<close>

record 'v Runtime =
  rt_registry :: "(string \<times> 'v PluginDef) list"
  rt_instances :: "string \<rightharpoonup> 'v Instance"
  rt_mqtt :: Manager
  rt_saved :: "string \<rightharpoonup> bool \<times> 'v settings"
  rt_state :: "string \<times> string \<rightharpoonup> string"
  rt_emitted :: "string list"

datatype plugin_error =
    ErrUnknownPlugin | ErrInit string | ErrClose string | ErrNoConnectionID | ErrNoConnection | ErrManager mgr_error

definition lookup_plugin :: "string \<Rightarrow> 'v Runtime \<Rightarrow> 'v PluginDef option" where
  "lookup_plugin i r = map_of (rt_registry r) i"

text \<open>Registering an identifier twice stops the program.\<close>

definition Register :: "string \<Rightarrow> 'v PluginDef \<Rightarrow> (string \<times> 'v PluginDef) list \<Rightarrow> (string \<times> 'v PluginDef) list option" where
  "Register i p reg = (if i \<in> fst ` set reg then None else Some (reg @ [(i, p)]))"

definition applySchemaDefaults :: "(string \<times> 'v option) list \<Rightarrow> 'v settings \<Rightarrow> 'v settings" where
  "applySchemaDefaults schema st =
     fold (\<lambda>(k, d) st. case d of None \<Rightarrow> st | Some v \<Rightarrow> if st k = None then st(k \<mapsto> v) else st) schema st"

definition new_instance :: "'v Instance" where
  "new_instance = \<lparr>pi_settings = Map.empty, pi_enabled = False, pi_running = False, pi_lastErr = [], pi_subs = [],
     pi_dynamic = [], pi_queue = [], pi_dropped = 0\<rparr>"

definition upd_instance :: "string \<Rightarrow> ('v Instance \<Rightarrow> 'v Instance) \<Rightarrow> 'v Runtime \<Rightarrow> 'v Runtime" where
  "upd_instance i f r =
     (case rt_instances r i of None \<Rightarrow> r | Some x \<Rightarrow> r\<lparr>rt_instances := (rt_instances r)(i \<mapsto> f x)\<rparr>)"

section \<open>Subscriptions on the connections\<close>

text \<open>An operation on every connection, in the order of their names; a failure is logged and the rest go on.\<close>

definition on_connections :: "(Conn \<Rightarrow> (conn_error + unit) \<times> Conn) \<Rightarrow> Manager \<Rightarrow> Manager" where
  "on_connections f m =
     fold (\<lambda>(k, c) m. snd (with_conn f k m)) (sort_key (\<lambda>(k, c). cs_name (cn_spec c)) (mg_conns m)) m"

definition applySubscriptions :: "Env \<Rightarrow> string \<Rightarrow> 'v Runtime \<Rightarrow> 'v Runtime" where
  "applySubscriptions env i r =
     (let subs = (case rt_instances r i of None \<Rightarrow> [] | Some x \<Rightarrow> pi_subs x) in
      if subs = [] then r else r\<lparr>rt_mqtt := on_connections (SubscribeEphemeral env subs) (rt_mqtt r)\<rparr>)"

text \<open>\<^verbatim>\<open>ids\<close> gives the identifiers in the order of a map, which is not fixed; the argument is that order.\<close>

definition ApplyAll :: "Env \<Rightarrow> string list \<Rightarrow> 'v Runtime \<Rightarrow> 'v Runtime" where
  "ApplyAll env ids r = fold (applySubscriptions env) ids r"

definition onStatus :: "Env \<Rightarrow> string list \<Rightarrow> Status \<Rightarrow> 'v Runtime \<Rightarrow> 'v Runtime" where
  "onStatus env ids st r = (if st_state st \<noteq> StateConnected then r else ApplyAll env ids r)"

section \<open>Starting and stopping\<close>

definition start_plugin :: "Env \<Rightarrow> string \<Rightarrow> 'v Runtime \<Rightarrow> (plugin_error + unit) \<times> 'v Runtime" where
  "start_plugin env i r =
     (case lookup_plugin i r of
        None \<Rightarrow> (Inl ErrUnknownPlugin, r)
      | Some p \<Rightarrow>
          case rt_instances r i of
            None \<Rightarrow> (Inl ErrUnknownPlugin, r)
          | Some x \<Rightarrow>
              if pi_running x then (Inr (), r)
              else case pl_init p (pi_settings x) of
                Some e \<Rightarrow> (Inl (ErrInit e), upd_instance i (\<lambda>x. x\<lparr>pi_lastErr := e\<rparr>) r)
              | None \<Rightarrow>
                  (Inr (), applySubscriptions env i
                     (upd_instance i (\<lambda>x. x\<lparr>pi_running := True, pi_subs := pl_subs p (pi_settings x), pi_dynamic := [],
                        pi_queue := [], pi_lastErr := []\<rparr>) r)))"

definition stopInstance :: "Env \<Rightarrow> string \<Rightarrow> 'v Runtime \<Rightarrow> (plugin_error + unit) \<times> 'v Runtime" where
  "stopInstance env i r =
     (case rt_instances r i of
        None \<Rightarrow> (Inr (), r)
      | Some x \<Rightarrow>
          if \<not> pi_running x then (Inr (), r)
          else
            let filters = map sub_filter (pi_subs x) @ map fst (pi_dynamic x);
                r = upd_instance i (\<lambda>x. x\<lparr>pi_running := False, pi_queue := [], pi_subs := [], pi_dynamic := []\<rparr>) r;
                r = r\<lparr>rt_mqtt := on_connections (UnsubscribeEphemeral env filters) (rt_mqtt r)\<rparr>
            in (case lookup_plugin i r of
                  None \<Rightarrow> Inr ()
                | Some p \<Rightarrow> case pl_closeErr p of None \<Rightarrow> Inr () | Some e \<Rightarrow> Inl (ErrClose e), r))"

definition SetEnabled :: "Env \<Rightarrow> string \<Rightarrow> bool \<Rightarrow> 'v Runtime \<Rightarrow> (plugin_error + unit) \<times> 'v Runtime" where
  "SetEnabled env i on r =
     (case rt_instances r i of
        None \<Rightarrow> (Inl ErrUnknownPlugin, r)
      | Some _ \<Rightarrow>
          case (if on then start_plugin env i r else stopInstance env i r) of
            (Inl e, r) \<Rightarrow> (Inl e, r)
          | (Inr _, r) \<Rightarrow>
              let r = upd_instance i (\<lambda>x. x\<lparr>pi_enabled := on\<rparr>) r in
              (Inr (), r\<lparr>rt_saved := (rt_saved r)(i \<mapsto> (on, pi_settings (the (rt_instances r i))))\<rparr>))"

definition SaveSettings :: "Env \<Rightarrow> string \<Rightarrow> 'v settings \<Rightarrow> 'v Runtime \<Rightarrow> (plugin_error + unit) \<times> 'v Runtime" where
  "SaveSettings env i st r =
     (case rt_instances r i of
        None \<Rightarrow> (Inl ErrUnknownPlugin, r)
      | Some x \<Rightarrow>
          let st = applySchemaDefaults (case lookup_plugin i r of None \<Rightarrow> [] | Some p \<Rightarrow> pl_schema p) st;
              r = upd_instance i (\<lambda>x. x\<lparr>pi_settings := st\<rparr>) r;
              r = r\<lparr>rt_saved := (rt_saved r)(i \<mapsto> (pi_enabled x, st))\<rparr>
          in if \<not> pi_enabled x then (Inr (), r)
             else case stopInstance env i r of
               (Inl e, r) \<Rightarrow> (Inl e, r)
             | (Inr _, r) \<Rightarrow> start_plugin env i r)"

text \<open>Loading one plugin at start-up: the saved settings, or the configuration's on the first run.\<close>

definition load_plugin :: "Env \<Rightarrow> (string \<rightharpoonup> bool \<times> 'v settings) \<Rightarrow> string \<times> 'v PluginDef \<Rightarrow> 'v Runtime \<Rightarrow> 'v Runtime" where
  "load_plugin env defaults ip r =
     (case ip of (i, p) \<Rightarrow>
        let (on, st) = (case rt_saved r i of Some s \<Rightarrow> s
                        | None \<Rightarrow> (case defaults i of Some d \<Rightarrow> d | None \<Rightarrow> (False, Map.empty)));
            x = new_instance\<lparr>pi_enabled := on, pi_settings := applySchemaDefaults (pl_schema p) st\<rparr>;
            r = r\<lparr>rt_instances := (rt_instances r)(i \<mapsto> x)\<rparr>
        in if on then snd (start_plugin env i r) else r)"

definition Start :: "Env \<Rightarrow> (string \<rightharpoonup> bool \<times> 'v settings) \<Rightarrow> 'v Runtime \<Rightarrow> 'v Runtime" where
  "Start env defaults r =
     (let r = fold (load_plugin env defaults) (sort_key fst (rt_registry r)) r in
      r\<lparr>rt_mqtt := snd (AddObserver \<lparr>ob_onMessage = True, ob_onStatus = True\<rparr> (rt_mqtt r))\<rparr>)"

definition Stop :: "Env \<Rightarrow> nat \<Rightarrow> string list \<Rightarrow> 'v Runtime \<Rightarrow> 'v Runtime" where
  "Stop env observer ids r =
     fold (\<lambda>i r. snd (stopInstance env i r)) ids (r\<lparr>rt_mqtt := RemoveObserver observer (rt_mqtt r)\<rparr>)"

section \<open>Messages\<close>

definition matchesAny :: "Subscription list \<Rightarrow> string \<Rightarrow> bool" where
  "matchesAny subs topic \<longleftrightarrow> (\<exists>s \<in> set subs. MatchFilter (sub_filter s) topic)"

definition matchesDynamic :: "(string \<times> Subscription) list \<Rightarrow> string \<Rightarrow> bool" where
  "matchesDynamic subs topic \<longleftrightarrow> (\<exists>(f, s) \<in> set subs. MatchFilter f topic)"

definition enqueue_message :: "Message \<Rightarrow> 'v Instance \<Rightarrow> 'v Instance" where
  "enqueue_message m x =
     (if length (pi_queue x) < queueSize then x\<lparr>pi_queue := pi_queue x @ [m]\<rparr> else x\<lparr>pi_dropped := pi_dropped x + 1\<rparr>)"

definition dispatch_to :: "Message \<Rightarrow> 'v Instance \<Rightarrow> 'v Instance" where
  "dispatch_to m x =
     (if \<not> pi_running x then x
      else if \<not> matchesAny (pi_subs x) (msg_topic m) \<and> \<not> matchesDynamic (pi_dynamic x) (msg_topic m) then x
      else enqueue_message m x)"

definition dispatch :: "Message \<Rightarrow> 'v Runtime \<Rightarrow> 'v Runtime" where
  "dispatch m r = r\<lparr>rt_instances := (\<lambda>i. map_option (dispatch_to m) (rt_instances r i))\<rparr>"

text \<open>The worker takes the next message off its channel and hands it to the plugin.\<close>

definition work :: "string \<Rightarrow> 'v Runtime \<Rightarrow> Message option \<times> 'v Runtime" where
  "work i r =
     (case rt_instances r i of
        None \<Rightarrow> (None, r)
      | Some x \<Rightarrow> (case pi_queue x of [] \<Rightarrow> (None, r) | m # q \<Rightarrow> (Some m, upd_instance i (\<lambda>x. x\<lparr>pi_queue := q\<rparr>) r)))"

section \<open>What a plugin may ask of its host\<close>

definition host_Settings :: "string \<Rightarrow> 'v Runtime \<Rightarrow> 'v settings" where
  "host_Settings i r = (case rt_instances r i of None \<Rightarrow> Map.empty | Some x \<Rightarrow> pi_settings x)"

definition host_Publish :: "Env \<Rightarrow> string \<Rightarrow> PublishRequest \<Rightarrow> 'v Runtime \<Rightarrow> (plugin_error + unit) \<times> 'v Runtime" where
  "host_Publish env cid req r =
     (if cid = [] then (Inl ErrNoConnectionID, r)
      else case mgr_Publish env req cid (rt_mqtt r) of
        (Inl e, m) \<Rightarrow> (Inl (ErrManager e), r\<lparr>rt_mqtt := m\<rparr>)
      | (Inr _, m) \<Rightarrow> (Inr (), r\<lparr>rt_mqtt := m\<rparr>))"

text \<open>One connection, or all of them when none is named; the first error is the answer but all are tried.\<close>

definition forEachConnection ::
    "string \<Rightarrow> (Conn \<Rightarrow> (conn_error + unit) \<times> Conn) \<Rightarrow> Manager \<Rightarrow> (plugin_error + unit) \<times> Manager" where
  "forEachConnection cid f m =
     (if cid \<noteq> [] then
        (case with_conn f cid m of
           (Inl mgr_error.ErrNotFound, m) \<Rightarrow> (Inl ErrNoConnection, m)
         | (Inl e, m) \<Rightarrow> (Inl (ErrManager e), m)
         | (Inr _, m) \<Rightarrow> (Inr (), m))
      else
        fold (\<lambda>(k, c) (res, m). case with_conn f k m of
                (Inl e, m) \<Rightarrow> (if res = Inr () then Inl (ErrManager e) else res, m)
              | (Inr _, m) \<Rightarrow> (res, m))
          (sort_key (\<lambda>(k, c). cs_name (cn_spec c)) (mg_conns m)) (Inr (), m))"

definition host_Subscribe :: "Env \<Rightarrow> string \<Rightarrow> string \<Rightarrow> Subscription list \<Rightarrow> 'v Runtime \<Rightarrow> (plugin_error + unit) \<times> 'v Runtime" where
  "host_Subscribe env i cid subs r =
     (if subs = [] then (Inr (), r)
      else
        let r = upd_instance i (\<lambda>x. if pi_running x then x\<lparr>pi_dynamic := fold put_ephemeral subs (pi_dynamic x)\<rparr> else x) r;
            (res, m) = forEachConnection cid (SubscribeEphemeral env subs) (rt_mqtt r)
        in (res, r\<lparr>rt_mqtt := m\<rparr>))"

definition host_Unsubscribe :: "Env \<Rightarrow> string \<Rightarrow> string \<Rightarrow> string list \<Rightarrow> 'v Runtime \<Rightarrow> (plugin_error + unit) \<times> 'v Runtime" where
  "host_Unsubscribe env i cid filters r =
     (if filters = [] then (Inr (), r)
      else
        let r = upd_instance i (\<lambda>x. x\<lparr>pi_dynamic := filter (\<lambda>(f, s). f \<notin> set filters) (pi_dynamic x)\<rparr>) r;
            (res, m) = forEachConnection cid (UnsubscribeEphemeral env filters) (rt_mqtt r)
        in (res, r\<lparr>rt_mqtt := m\<rparr>))"

definition host_Emit :: "string \<Rightarrow> string \<Rightarrow> 'v Runtime \<Rightarrow> 'v Runtime" where
  "host_Emit i event r = r\<lparr>rt_emitted := rt_emitted r @ [''plugin:'' @ i @ '':'' @ event]\<rparr>"

definition PluginGet :: "string \<Rightarrow> string \<Rightarrow> 'v Runtime \<Rightarrow> string option" where
  "PluginGet i k r = rt_state r (i, k)"

definition PluginSet :: "string \<Rightarrow> string \<Rightarrow> string \<Rightarrow> 'v Runtime \<Rightarrow> 'v Runtime" where
  "PluginSet i k v r = r\<lparr>rt_state := (rt_state r)((i, k) \<mapsto> v)\<rparr>"

definition PluginDelete :: "string \<Rightarrow> string \<Rightarrow> 'v Runtime \<Rightarrow> 'v Runtime" where
  "PluginDelete i k r = r\<lparr>rt_state := (rt_state r)((i, k) := None)\<rparr>"

definition PluginList :: "string \<Rightarrow> 'v Runtime \<Rightarrow> (string \<rightharpoonup> string)" where
  "PluginList i r = (\<lambda>k. rt_state r (i, k))"

text \<open>
  Where a request below \<^verbatim>\<open>/api/p/\<close> goes: a running plugin has a router, which sees the path below its own
  root.
\<close>

datatype plugin_route = RouteUnknown | RouteDisabled | RouteNoApi | RouteTo string

definition RoutePrefix :: string where "RoutePrefix = ''/api/p''"

definition plugin_handler :: "string \<Rightarrow> string \<Rightarrow> 'v Runtime \<Rightarrow> plugin_route" where
  "plugin_handler i path r =
     (case rt_instances r i of
        None \<Rightarrow> RouteUnknown
      | Some x \<Rightarrow>
          if \<not> pi_enabled x then RouteDisabled
          else if \<not> pi_running x then RouteNoApi
          else
            let sub = trim_prefix (RoutePrefix @ ''/'' @ i) path
            in RouteTo (if sub = [] then ''/'' else sub))"

interpretation pque: bounded_queue pi_queue pi_dropped queueSize enqueue_message
  by unfold_locales (simp_all add: enqueue_message_def)

end
