(* ===== verification/PlcPlugin.thy ===== *)
theory PlcPlugin
  imports PlcRegistry Plugins AuthStore
begin

text \<open>
  \<^verbatim>\<open>internal/plugins/plc/command.go\<close> and \<^verbatim>\<open>plugin.go\<close>: the commands the plugin is willing to send,
  its settings, and the handlers that change something. A handler gives the status it answers with; a
  request body that does not decode is no request.
\<close>

section \<open>Commands\<close>

datatype Tier = TierLight | TierOutput

record CommandSpec =
  co_target :: string
  co_command :: string
  co_minAddress :: int
  co_maxAddress :: int
  co_param :: string
  co_tier :: Tier

definition commandCatalogue :: "CommandSpec list" where
  "commandCatalogue =
     [\<lparr>co_target = ''dali'', co_command = ''on'', co_minAddress = 1, co_maxAddress = 64, co_param = [], co_tier = TierLight\<rparr>,
      \<lparr>co_target = ''dali'', co_command = ''off'', co_minAddress = 1, co_maxAddress = 64, co_param = [], co_tier = TierLight\<rparr>,
      \<lparr>co_target = ''dali'', co_command = ''arc'', co_minAddress = 1, co_maxAddress = 64, co_param = ''level'', co_tier = TierLight\<rparr>,
      \<lparr>co_target = ''dali'', co_command = ''query_actual_level'', co_minAddress = 1, co_maxAddress = 64, co_param = [],
        co_tier = TierLight\<rparr>,
      \<lparr>co_target = ''dali'', co_command = ''refresh'', co_minAddress = 0, co_maxAddress = 0, co_param = [], co_tier = TierLight\<rparr>,
      \<lparr>co_target = ''system'', co_command = ''refresh'', co_minAddress = 0, co_maxAddress = 0, co_param = [], co_tier = TierLight\<rparr>,
      \<lparr>co_target = ''digital'', co_command = ''set'', co_minAddress = 1, co_maxAddress = 80, co_param = ''value'',
        co_tier = TierOutput\<rparr>]"

definition lookupCommand :: "string \<Rightarrow> string \<Rightarrow> CommandSpec option" where
  "lookupCommand target cmd = find (\<lambda>s. co_target s = target \<and> co_command s = cmd) commandCatalogue"

record CommandRequest =
  cr_connectionID :: string
  cr_target :: string
  cr_command :: string
  cr_address :: int
  cr_params :: "string list"

record CommandPayload =
  cp_target :: string
  cp_command :: string
  cp_address :: int
  cp_params :: "string list"

text \<open>The JSON of a payload. Its texts are the catalogue's and canonical parameters, which need no escapes.\<close>

definition quoted :: "string \<Rightarrow> string" where "quoted s = [CHR 0x22] @ s @ [CHR 0x22]"

definition payload_json :: "CommandPayload \<Rightarrow> string" where
  "payload_json p =
     ''{'' @ quoted ''target'' @ '':'' @ quoted (cp_target p) @ '','' @ quoted ''command'' @ '':'' @ quoted (cp_command p) @
     (if cp_address p \<noteq> 0 then '','' @ quoted ''address'' @ '':'' @ int_string (cp_address p) else []) @
     (if cp_params p \<noteq> [] then '','' @ quoted ''params'' @ '':['' @ join_with (CHR '','') (map quoted (cp_params p)) @ '']'' else []) @
     ''}''"

datatype command_error =
    NotInCatalogue | AddressRange | TakesNoAddress | TakesNoParameters | NeedsOneParameter | BadLevel | BadValue

definition singleParam :: "string list \<Rightarrow> command_error + string" where
  "singleParam ps = (case ps of [p] \<Rightarrow> Inr p | _ \<Rightarrow> Inl NeedsOneParameter)"

definition command_params :: "CommandSpec \<Rightarrow> string list \<Rightarrow> command_error + string list" where
  "command_params s ps =
     (if co_param s = [] then (if ps \<noteq> [] then Inl TakesNoParameters else Inr [])
      else if co_param s = ''level'' then
        (case singleParam ps of
           Inl e \<Rightarrow> Inl e
         | Inr v \<Rightarrow>
             (case ParseInt v of
                None \<Rightarrow> Inl BadLevel
              | Some n \<Rightarrow> if n < 0 \<or> n > daliMaxLevel then Inl BadLevel else Inr [int_string n]))
      else if co_param s = ''value'' then
        (case singleParam ps of
           Inl e \<Rightarrow> Inl e
         | Inr v \<Rightarrow>
             let v = to_lower (trim_space v) in
             if v \<in> {''true'', ''1'', ''on''} then Inr [''true'']
             else if v \<in> {''false'', ''0'', ''off''} then Inr [''false'']
             else Inl BadValue)
      else Inr [])"

definition buildCommand :: "CommandRequest \<Rightarrow> command_error + CommandSpec \<times> string" where
  "buildCommand req =
     (case lookupCommand (trim_space (cr_target req)) (trim_space (cr_command req)) of
        None \<Rightarrow> Inl NotInCatalogue
      | Some s \<Rightarrow>
          if co_maxAddress s > 0 \<and> (cr_address req < co_minAddress s \<or> cr_address req > co_maxAddress s) then Inl AddressRange
          else if \<not> co_maxAddress s > 0 \<and> cr_address req \<noteq> 0 then Inl TakesNoAddress
          else case command_params s (cr_params req) of
            Inl e \<Rightarrow> Inl e
          | Inr ps \<Rightarrow>
              Inr (s, payload_json \<lparr>cp_target = co_target s, cp_command = co_command s,
                cp_address = (if co_maxAddress s > 0 then cr_address req else 0), cp_params = ps\<rparr>))"

section \<open>Settings\<close>

text \<open>A setting's value: what JSON gives, and the whole number a schema default is.\<close>

datatype SettingValue = SvString string | SvBool bool | SvFloat float64 | SvInt int | SvOther

definition settingString :: "Codec \<Rightarrow> SettingValue settings \<Rightarrow> string \<Rightarrow> string \<Rightarrow> string" where
  "settingString cd st key d =
     (case st key of Some (SvString s) \<Rightarrow> s | Some (SvFloat f) \<Rightarrow> cd_fixed cd f | _ \<Rightarrow> d)"

definition settingBool :: "SettingValue settings \<Rightarrow> string \<Rightarrow> bool \<Rightarrow> bool" where
  "settingBool st key d =
     (case st key of
        Some (SvBool b) \<Rightarrow> b
      | Some (SvString s) \<Rightarrow> (case ParseBool s of Some b \<Rightarrow> b | None \<Rightarrow> d)
      | _ \<Rightarrow> d)"

definition settingInt :: "Codec \<Rightarrow> SettingValue settings \<Rightarrow> string \<Rightarrow> int \<Rightarrow> int" where
  "settingInt cd st key d =
     (case st key of
        Some (SvFloat f) \<Rightarrow> cd_trunc cd f
      | Some (SvString s) \<Rightarrow> (case ParseInt s of Some n \<Rightarrow> n | None \<Rightarrow> d)
      | _ \<Rightarrow> d)"

record PlcPlugin =
  pc_registry :: Registry
  pc_prefix :: string
  pc_meterPrefix :: string
  pc_commandTopic :: string
  pc_dirty :: bool

definition plc_id :: string where "plc_id = ''beckhoff-plc''"

text \<open>Starting: the settings are read and the names of an earlier run are loaded.\<close>

definition plc_init ::
    "Codec \<Rightarrow> (string \<Rightarrow> Mapping option) \<Rightarrow> SettingValue settings \<Rightarrow> (string \<times> string) list \<Rightarrow> PlcPlugin" where
  "plc_init cd read st stored =
     (let pre = trim_char slash (settingString cd st ''topicPrefix'' ''plc'');
          topic = trim_char slash (settingString cd st ''commandTopic'' ''plc/command'')
      in \<lparr>pc_registry = snd (LoadMappings read stored (NewRegistry (settingInt cd st ''journalSize'' defaultJournalSize))),
          pc_prefix = (if pre = [] then ''plc'' else pre),
          pc_meterPrefix = trim_char slash (settingString cd st ''meterPrefix'' ''mbus2mqtt''),
          pc_commandTopic = (if topic = [] then ''plc/command'' else topic),
          pc_dirty = False\<rparr>)"

definition plc_qos :: "Codec \<Rightarrow> SettingValue settings \<Rightarrow> nat" where
  "plc_qos cd st =
     (case ParseInt (settingString cd st ''subscribeQos'' ''0'') of
        None \<Rightarrow> 0 | Some q \<Rightarrow> if q < 0 \<or> q > 2 then 0 else nat q)"

definition plc_Subscriptions :: "Codec \<Rightarrow> SettingValue settings \<Rightarrow> PlcPlugin \<Rightarrow> Subscription list" where
  "plc_Subscriptions cd st p =
     (let sub = (\<lambda>f. \<lparr>sub_filter = f, sub_qos = plc_qos cd st, sub_noLocal = False, sub_retainAsPublished = False,
                   sub_retainHandling = 0\<rparr>)
      in sub (pc_prefix p @ ''/#'') # (if pc_meterPrefix p \<noteq> [] then [sub (pc_meterPrefix p @ ''/#'')] else []))"

definition plc_HandleMessage :: "Codec \<Rightarrow> time \<Rightarrow> Message \<Rightarrow> PlcPlugin \<Rightarrow> PlcPlugin" where
  "plc_HandleMessage cd now m p =
     (let received = (if msg_receivedAt m = 0 then now else msg_receivedAt m);
          (changed, r) = Apply cd (pc_prefix p) (pc_meterPrefix p) (msg_connectionID m) (msg_topic m) (msg_payload m) received
            (pc_registry p)
      in p\<lparr>pc_registry := r, pc_dirty := pc_dirty p \<or> changed\<rparr>)"

text \<open>One tick of the loop that tells the browsers: the counts and the newest edge, if anything changed.\<close>

definition plc_flush :: "PlcPlugin \<Rightarrow> (nat \<times> nat \<times> nat) option \<times> PlcPlugin" where
  "plc_flush p =
     (if pc_dirty p
      then (Some (fst (plc_stats (pc_registry p)), snd (plc_stats (pc_registry p)), jn_seq (rg_journal (pc_registry p))),
            p\<lparr>pc_dirty := False\<rparr>)
      else (None, p))"

section \<open>Handlers\<close>

text \<open>The one connection there is, when the request names none.\<close>

definition only_connection :: "string \<Rightarrow> Manager \<Rightarrow> string option" where
  "only_connection cid m =
     (if cid \<noteq> [] then Some cid
      else case mgr_List m of [c] \<Rightarrow> Some (cs_id (cn_spec c)) | _ \<Rightarrow> None)"

definition is_operator :: "Role option \<Rightarrow> bool" where
  "is_operator user = (case user of None \<Rightarrow> False | Some r \<Rightarrow> AtLeast r RoleOperator)"

definition handleCommand ::
    "Env \<Rightarrow> Role option \<Rightarrow> CommandRequest option \<Rightarrow> PlcPlugin \<Rightarrow> SettingValue Runtime \<Rightarrow> nat \<times> SettingValue Runtime" where
  "handleCommand env user body p r =
     (if \<not> is_operator user then (403, r)
      else case body of
        None \<Rightarrow> (400, r)
      | Some req \<Rightarrow>
          case buildCommand req of
            Inl e \<Rightarrow> (400, r)
          | Inr (s, payload) \<Rightarrow>
              let st = host_Settings plc_id r in
              if \<not> settingBool st ''allowControl'' False then (403, r)
              else if co_tier s = TierOutput \<and> \<not> settingBool st ''allowDigitalOutputs'' False then (403, r)
              else case only_connection (cr_connectionID req) (rt_mqtt r) of
                None \<Rightarrow> (400, r)
              | Some cid \<Rightarrow>
                  case host_Publish env cid \<lparr>pub_topic = pc_commandTopic p, pub_payload = bytes_of_string payload, pub_qos = 1,
                      pub_retain = False, pub_props = None\<rparr> r of
                    (Inl e, r) \<Rightarrow> (502, r)
                  | (Inr _, r) \<Rightarrow> (200, r))"

record MappingRequest =
  mr_connectionID :: string
  mr_name :: string
  mr_label :: string
  mr_location :: string
  mr_type :: string
  mr_notes :: string

text \<open>\<open>saved\<close> is whether the table took the write, \<open>show\<close> the JSON of a mapping.\<close>

definition handlePutMapping ::
    "(Mapping \<Rightarrow> string) \<Rightarrow> bool \<Rightarrow> Role option \<Rightarrow> MappingRequest option \<Rightarrow> PlcPlugin \<Rightarrow> SettingValue Runtime \<Rightarrow>
       nat \<times> PlcPlugin \<times> SettingValue Runtime" where
  "handlePutMapping enc saved user body p r =
     (if \<not> is_operator user then (403, p, r)
      else case body of
        None \<Rightarrow> (400, p, r)
      | Some req \<Rightarrow>
          let name = trim_space (mr_name req) in
          if name = [] then (400, p, r)
          else case only_connection (mr_connectionID req) (rt_mqtt r) of
            None \<Rightarrow> (400, p, r)
          | Some cid \<Rightarrow>
              let m = \<lparr>mp_name = name, mp_label = trim_space (mr_label req), mp_location = trim_space (mr_location req),
                        mp_type = trim_space (mr_type req), mp_notes = trim_space (mr_notes req)\<rparr>;
                  p = p\<lparr>pc_registry := SetMapping cid name m (pc_registry p)\<rparr>;
                  key = mappingKey cid name
              in if \<not> saved then (500, p, r)
                 else (200, p\<lparr>pc_dirty := True\<rparr>,
                   if mapping_empty m then PluginDelete plc_id key r else PluginSet plc_id key (enc m) r))"


text \<open>
  The edge log over HTTP: what the query asks for. The wait is milliseconds in 64 bits and at most fifty
  seconds; without one the log is read at once, with one \<open>wait_move\<close> takes over.
\<close>

definition maxEdgeWait :: int where "maxEdgeWait = 50 * 10 ^ 9"

definition parseUint :: "string \<Rightarrow> nat" where
  "parseUint s = (case parse_nat s of Some n \<Rightarrow> if n < 2 ^ 64 then n else 0 | None \<Rightarrow> 0)"

definition parseInt_or :: "string \<Rightarrow> int \<Rightarrow> int" where
  "parseInt_or s d = (case ParseInt s of Some n \<Rightarrow> n | None \<Rightarrow> d)"

definition edges_query :: "(string \<Rightarrow> string) \<Rightarrow> WaitArgs" where
  "edges_query q =
     (let wait = sint (word_of_int (parseInt_or (q ''waitMs'') 0 * 10 ^ 6) :: 64 word) in
      \<lparr>wa_seq = parseUint (q ''since''), wa_limit = parseInt_or (q ''limit'') 100,
       wa_timeout = (if wait > maxEdgeWait then maxEdgeWait else wait),
       wa_match = edgeMatch (q ''connectionId'') (q ''kind'') (q ''rising'' = ''true'')\<rparr>)"

definition handleEdges :: "(string \<Rightarrow> string) \<Rightarrow> PlcPlugin \<Rightarrow> Waiter" where
  "handleEdges q p =
     (let a = edges_query q in
      if wa_timeout a > 0 then WEnter else WReturned (wa_since a (rg_journal (pc_registry p))))"

text \<open>The handlers that only read.\<close>

record PlcStatus =
  ps_topicPrefix :: string
  ps_meterPrefix :: string
  ps_pointCount :: nat
  ps_lightCount :: nat
  ps_edges :: nat
  ps_seq :: nat
  ps_readOnly :: bool

definition handleStatus :: "PlcPlugin \<Rightarrow> SettingValue settings \<Rightarrow> PlcStatus" where
  "handleStatus p st =
     (let j = rg_journal (pc_registry p) in
      \<lparr>ps_topicPrefix = pc_prefix p, ps_meterPrefix = pc_meterPrefix p, ps_pointCount = fst (plc_stats (pc_registry p)),
       ps_lightCount = snd (plc_stats (pc_registry p)), ps_edges = length (jn_entries j), ps_seq = jn_seq j,
       ps_readOnly = (\<not> settingBool st ''allowControl'' False)\<rparr>)"

definition handleState :: "(string \<Rightarrow> string) \<Rightarrow> PlcPlugin \<Rightarrow> PlcState" where
  "handleState q p = Snapshot (q ''connectionId'') (pc_registry p)"

definition handleGetMappings :: "(string \<Rightarrow> string) \<Rightarrow> PlcPlugin \<Rightarrow> Mapping list" where
  "handleGetMappings q p = Mappings (q ''connectionId'') (pc_registry p)"

definition handleCommands :: "PlcPlugin \<Rightarrow> SettingValue settings \<Rightarrow> CommandSpec list \<times> bool \<times> bool \<times> string" where
  "handleCommands p st =
     (commandCatalogue, settingBool st ''allowControl'' False, settingBool st ''allowDigitalOutputs'' False, pc_commandTopic p)"

end
