(* ===== verification/PlcFacts.thy ===== *)
theory PlcFacts
  imports PlcPlugin
begin

text \<open>
  What the PLC plugin keeps: only catalogued commands with consent reach the PLC, the journal holds exactly
  the transitions of the points, a name given to a point survives a restart, and a message that is refused
  leaves the panel as it was.
\<close>

section \<open>Commands\<close>

lemma lookupCommand_in: "lookupCommand t c = Some s \<Longrightarrow> s \<in> set commandCatalogue \<and> co_target s = t \<and> co_command s = c"
  unfolding lookupCommand_def by (auto simp: find_Some_iff)

definition canonical_params :: "CommandSpec \<Rightarrow> string list \<Rightarrow> bool" where
  "canonical_params s ps \<longleftrightarrow>
     (if co_param s = [] then ps = []
      else if co_param s = ''level'' then (\<exists>n. 0 \<le> n \<and> n \<le> daliMaxLevel \<and> ps = [int_string n])
      else ps = [''true''] \<or> ps = [''false''])"

lemma catalogue_params: "s \<in> set commandCatalogue \<Longrightarrow> co_param s \<in> {[], ''level'', ''value''}"
  by (auto simp: commandCatalogue_def)

lemma command_params_canonical:
  assumes "s \<in> set commandCatalogue" "command_params s ps = Inr qs"
  shows "canonical_params s qs"
proof -
  consider "co_param s = []" | "co_param s = ''level''" | "co_param s = ''value''"
    using catalogue_params [OF assms(1)] by blast
  then show ?thesis
  proof cases
    case 1
    with assms(2) show ?thesis by (simp add: command_params_def canonical_params_def split: if_splits)
  next
    case 2
    with assms(2) show ?thesis
      by (simp add: command_params_def canonical_params_def split: sum.splits option.splits if_splits)
        (metis linorder_not_less)
  next
    case 3
    with assms(2) show ?thesis
      by (simp add: command_params_def canonical_params_def Let_def split: sum.splits if_splits)
  qed
qed

definition catalogued :: "CommandSpec \<Rightarrow> string \<Rightarrow> bool" where
  "catalogued s body \<longleftrightarrow> s \<in> set commandCatalogue \<and>
     (\<exists>a ps. canonical_params s ps \<and>
        (if co_maxAddress s > 0 then co_minAddress s \<le> a \<and> a \<le> co_maxAddress s else a = 0) \<and>
        body = payload_json \<lparr>cp_target = co_target s, cp_command = co_command s, cp_address = a, cp_params = ps\<rparr>)"

lemma buildCommand_catalogued:
  assumes "buildCommand req = Inr (s, body)"
  shows "catalogued s body \<and> co_target s = trim_space (cr_target req) \<and> co_command s = trim_space (cr_command req)"
proof -
  obtain ps where l: "lookupCommand (trim_space (cr_target req)) (trim_space (cr_command req)) = Some s"
    and ps: "command_params s (cr_params req) = Inr ps"
    and b: "body = payload_json \<lparr>cp_target = co_target s, cp_command = co_command s,
        cp_address = (if co_maxAddress s > 0 then cr_address req else 0), cp_params = ps\<rparr>"
    and a: "\<not> (co_maxAddress s > 0 \<and> (cr_address req < co_minAddress s \<or> cr_address req > co_maxAddress s))"
    using assms unfolding buildCommand_def by (auto split: option.splits if_splits sum.splits)
  note in_cat = lookupCommand_in [OF l]
  from command_params_canonical [OF _ ps] in_cat have "canonical_params s ps" by simp
  with in_cat b a show ?thesis unfolding catalogued_def
    by (intro conjI exI [of _ "if co_maxAddress s > 0 then cr_address req else 0"] exI [of _ ps]) auto
qed

text \<open>
  C21. A command request changes nothing unless the caller is at least an operator, control is switched on,
  the command is one of the catalogue with an address inside its bounds and a parameter in its one canonical
  form, and, for a digital output, the second switch is on too. What is then sent is that payload, once, on
  the command topic at QoS 1, not retained, on the connection named or on the only one.
\<close>

theorem handleCommand_allow_list:
  assumes "handleCommand env user body p r = (status, r')"
  shows "(r' = r \<and> status \<in> {400, 403}) \<or>
    (\<exists>req s cmd cid role. user = Some role \<and> AtLeast role RoleOperator \<and> body = Some req \<and> catalogued s cmd \<and>
       co_target s = trim_space (cr_target req) \<and> co_command s = trim_space (cr_command req) \<and>
       settingBool (host_Settings plc_id r) ''allowControl'' False \<and>
       (co_tier s = TierOutput \<longrightarrow> settingBool (host_Settings plc_id r) ''allowDigitalOutputs'' False) \<and>
       (if cr_connectionID req \<noteq> [] then cid = cr_connectionID req
        else \<exists>c. mgr_List (rt_mqtt r) = [c] \<and> cid = cs_id (cn_spec c)) \<and>
       r' = snd (host_Publish env cid \<lparr>pub_topic = pc_commandTopic p, pub_payload = bytes_of_string cmd, pub_qos = 1,
         pub_retain = False, pub_props = None\<rparr> r) \<and>
       status \<in> {200, 502})"
proof (cases "is_operator user \<and> (\<exists>req s cmd. body = Some req \<and> buildCommand req = Inr (s, cmd) \<and>
    settingBool (host_Settings plc_id r) ''allowControl'' False \<and>
    (co_tier s = TierOutput \<longrightarrow> settingBool (host_Settings plc_id r) ''allowDigitalOutputs'' False) \<and>
    only_connection (cr_connectionID req) (rt_mqtt r) \<noteq> None)")
  case False
  with assms show ?thesis
    by (cases body) (auto simp: handleCommand_def Let_def split: sum.splits if_splits option.splits)
next
  case True
  then obtain req s cmd cid where *: "body = Some req" "buildCommand req = Inr (s, cmd)"
    "settingBool (host_Settings plc_id r) ''allowControl'' False"
    "co_tier s = TierOutput \<longrightarrow> settingBool (host_Settings plc_id r) ''allowDigitalOutputs'' False"
    "only_connection (cr_connectionID req) (rt_mqtt r) = Some cid" by blast
  from True obtain role where role: "user = Some role" "AtLeast role RoleOperator"
    by (auto simp: is_operator_def split: option.splits)
  let ?pub = "host_Publish env cid \<lparr>pub_topic = pc_commandTopic p, pub_payload = bytes_of_string cmd, pub_qos = 1,
      pub_retain = False, pub_props = None\<rparr> r"
  have "r' = snd ?pub \<and> status \<in> {200, 502}"
    using assms * role by (cases ?pub) (auto simp: handleCommand_def is_operator_def Let_def split: sum.splits)
  moreover have "if cr_connectionID req \<noteq> [] then cid = cr_connectionID req
      else \<exists>c. mgr_List (rt_mqtt r) = [c] \<and> cid = cs_id (cn_spec c)"
    using *(5) by (auto simp: only_connection_def split: list.splits if_splits)
  ultimately show ?thesis using * role buildCommand_catalogued [OF *(2)] by blast
qed

definition ex_plc_instance :: "SettingValue Instance" where
  "ex_plc_instance = new_instance\<lparr>pi_settings := [''allowControl'' \<mapsto> SvString ''true'']\<rparr>"

definition ex_control :: "SettingValue Runtime" where
  "ex_control = \<lparr>rt_registry = [], rt_instances = [plc_id \<mapsto> ex_plc_instance], rt_mqtt = NewManager,
     rt_saved = Map.empty, rt_state = Map.empty, rt_emitted = []\<rparr>"

definition ex_request :: CommandRequest where
  "ex_request = \<lparr>cr_connectionID = ''c1'', cr_target = '' dali'', cr_command = ''arc'', cr_address = 5, cr_params = [''+07'']\<rparr>"

lemma ex_buildCommand:
  "buildCommand ex_request =
     Inr (commandCatalogue ! 2, payload_json \<lparr>cp_target = ''dali'', cp_command = ''arc'', cp_address = 5, cp_params = [''7'']\<rparr>)"
proof -
  have "trim_space '' dali'' = ''dali''" "trim_space ''arc'' = ''arc''" "ParseInt ''+07'' = Some 7" "int_string 7 = ''7''"
    by code_simp (code_simp, simp add: ParseInt_def parse_nat_def digit_val_def,
      simp add: int_string_def nat_string.simps, code_simp)
  then show ?thesis
    by (simp add: buildCommand_def ex_request_def lookupCommand_def commandCatalogue_def command_params_def singleParam_def
        daliMaxLevel_def)
qed

theorem handleCommand_allow_list_witness:
  "\<exists>s cmd. catalogued s cmd \<and> co_target s = ''dali'' \<and> co_command s = ''arc''"
proof -
  define p where "p = \<lparr>pc_registry = NewRegistry 5, pc_prefix = ''plc'', pc_meterPrefix = [],
    pc_commandTopic = ''plc/command'', pc_dirty = False\<rparr>"
  define r' where "r' = ex_control\<lparr>rt_mqtt := NewManager\<rparr>"
  have conn: "cr_connectionID ex_request = ''c1''" by (simp add: ex_request_def)
  have tier: "co_tier (commandCatalogue ! 2) = TierLight" by (simp add: commandCatalogue_def)
  have "handleCommand ex_env (Some RoleOperator) (Some ex_request) p ex_control = (502, r')"
    using conn by (simp add: handleCommand_def ex_buildCommand tier is_operator_def AtLeast_def role_rank_def RoleOperator_def
        RoleViewer_def RoleAdmin_def settingBool_def host_Settings_def ex_control_def ex_plc_instance_def new_instance_def
        ParseBool_def only_connection_def host_Publish_def mgr_Publish_def with_conn_def Get_def
        NewManager_def r'_def Let_def)
  note h = handleCommand_allow_list [OF this]
  have "trim_space '' dali'' = ''dali''" "trim_space ''arc'' = ''arc''" by code_simp+
  with h show ?thesis by (auto simp: ex_request_def)
qed

section \<open>The journal is the transitions\<close>

record Heard =
  he_connectionID :: string
  he_topic :: string
  he_payload :: bytes
  he_received :: time

definition hear :: "Codec \<Rightarrow> string \<Rightarrow> string \<Rightarrow> Heard \<Rightarrow> Registry \<Rightarrow> Registry" where
  "hear cd pre mpre h r = snd (Apply cd pre mpre (he_connectionID h) (he_topic h) (he_payload h) (he_received h) r)"

text \<open>What one message says of a digital point, if anything.\<close>

definition reading :: "Codec \<Rightarrow> string \<Rightarrow> Heard \<Rightarrow> Point option" where
  "reading cd pre h =
     (case parseRoute pre (he_topic h) of
        None \<Rightarrow> None
      | Some rt \<Rightarrow>
          if rt_branch rt \<noteq> ''digital'' then None
          else case digitalKind (rt_sub rt) of
            None \<Rightarrow> None
          | Some kind \<Rightarrow> point_of cd (he_connectionID h) kind rt (he_topic h) (he_payload h) (he_received h))"

text \<open>The values a topic of a connection took, one for each message that could be read.\<close>

definition values_of :: "Codec \<Rightarrow> string \<Rightarrow> string \<Rightarrow> string \<Rightarrow> Heard list \<Rightarrow> bool option list" where
  "values_of cd pre cid topic hs =
     concat (map (\<lambda>h. case reading cd pre h of
                        None \<Rightarrow> []
                      | Some p \<Rightarrow> if he_connectionID h = cid \<and> he_topic h = topic then [pt_bool p] else []) hs)"

definition transition :: "bool option \<Rightarrow> bool option \<Rightarrow> (bool \<times> bool) list" where
  "transition u v = (case (u, v) of (Some a, Some b) \<Rightarrow> if a \<noteq> b then [(a, b)] else [] | _ \<Rightarrow> [])"

text \<open>The changes from a boolean straight to the other one, from what held before the list.\<close>

fun transitions_from :: "bool option \<Rightarrow> bool option list \<Rightarrow> (bool \<times> bool) list" where
  "transitions_from u [] = []"
| "transitions_from u (v # vs) = transition u v @ transitions_from v vs"

abbreviation transitions :: "bool option list \<Rightarrow> (bool \<times> bool) list" where "transitions \<equiv> transitions_from None"

definition last_value :: "bool option \<Rightarrow> bool option list \<Rightarrow> bool option" where
  "last_value u vs = (if vs = [] then u else last vs)"

lemma transitions_snoc:
  "transitions_from u (vs @ [v]) = transitions_from u vs @ transition (last_value u vs) v"
  by (induction vs arbitrary: u) (simp_all add: last_value_def)

lemma values_of_snoc:
  "values_of cd pre cid topic (hs @ [h]) = values_of cd pre cid topic hs @
     (case reading cd pre h of None \<Rightarrow> []
      | Some p \<Rightarrow> if he_connectionID h = cid \<and> he_topic h = topic then [pt_bool p] else [])"
  by (simp add: values_of_def)

section \<open>What a message changes\<close>

lemma conn_state_put: "conn_state i (put_state k c r) = (if i = k then c else conn_state i r)"
  by (simp add: conn_state_def put_state_def update_conv')

lemma put_state_journal [simp]:
  "rg_journal (put_state k c r) = rg_journal r" "conn_state i (r\<lparr>rg_journal := j\<rparr>) = conn_state i r"
  by (simp_all add: put_state_def conn_state_def)

text \<open>Only a digital message touches the points and the journal.\<close>

lemma other_branch_points:
  "applyLight cd k rt t pl rc c = Some c' \<Longrightarrow> cs_points c' = cs_points c"
  "applyMeta cd n pl c = Some c' \<Longrightarrow> cs_points c' = cs_points c"
  "applyShade cd k rt t pl rc c = Some c' \<Longrightarrow> cs_points c' = cs_points c"
  "applyActuator cd k rt t pl rc c = Some c' \<Longrightarrow> cs_points c' = cs_points c"
  "applyElectricity cd k rt t pl rc c = Some c' \<Longrightarrow> cs_points c' = cs_points c"
  "applyWatchdog cd k t pl rc c = Some c' \<Longrightarrow> cs_points c' = cs_points c"
  "applyBridge cd k t pl rc c = Some c' \<Longrightarrow> cs_points c' = cs_points c"
  by (auto simp: applyLight_def applyMeta_def applyShade_def applyActuator_def applyElectricity_def applyWatchdog_def
      applyBridge_def Let_def split: option.splits if_splits)

lemma applyMeter_points: "cs_points (snd (applyMeter cd k rt t pl rc c)) = cs_points c"
  by (simp add: applyMeter_def Let_def split: option.splits)

lemma applyPLC_other:
  assumes "rt_branch rt \<noteq> ''digital''" "applyPLC cd k rt t pl rc c j = Some (c', j')"
  shows "j' = j \<and> cs_points c' = cs_points c"
  using assms unfolding applyPLC_def with_journal_def
  by (auto split: if_splits dest: other_branch_points)

lemma applyPLC_digital:
  "rt_branch rt = ''digital'' \<Longrightarrow> applyPLC cd k rt t pl rc c j =
     (case digitalKind (rt_sub rt) of None \<Rightarrow> None | Some kind \<Rightarrow> applyPoint cd k kind rt t pl rc c j)"
  by (simp add: applyPLC_def)

lemma hear_effect:
  "(case reading cd pre h of
      None \<Rightarrow> rg_journal (hear cd pre mpre h r) = rg_journal r \<and>
        (\<forall>i. cs_points (conn_state i (hear cd pre mpre h r)) = cs_points (conn_state i r))
    | Some p \<Rightarrow>
        pt_connectionID p = he_connectionID h \<and> pt_topic p = he_topic h \<and>
        (\<forall>i. cs_points (conn_state i (hear cd pre mpre h r)) =
          (if i = he_connectionID h then AList.update (he_topic h) p (cs_points (conn_state i r))
           else cs_points (conn_state i r))) \<and>
        rg_journal (hear cd pre mpre h r) =
          (case edge_of ((conn_state (he_connectionID h) r)\<lparr>cs_points := AList.update (he_topic h) p
               (cs_points (conn_state (he_connectionID h) r))\<rparr>) (map_of (cs_points (conn_state (he_connectionID h) r)) (he_topic h)) p of
             None \<Rightarrow> rg_journal r | Some e \<Rightarrow> Append e (rg_journal r)))"
proof (cases "parseRoute pre (he_topic h)")
  case None
  then have "reading cd pre h = None" by (simp add: reading_def)
  with None show ?thesis
    by (auto simp: hear_def Apply_def Let_def conn_state_put split: option.splits prod.splits)
      (metis applyMeter_points snd_conv)
next
  case (Some rt)
  let ?c = "conn_state (he_connectionID h) r"
  have app: "hear cd pre mpre h r =
      (case applyPLC cd (he_connectionID h) rt (he_topic h) (he_payload h) (he_received h) ?c (rg_journal r) of
         None \<Rightarrow> put_state (he_connectionID h) ?c r
       | Some (c, j) \<Rightarrow> (put_state (he_connectionID h) c r)\<lparr>rg_journal := j\<rparr>)"
    by (simp add: hear_def Apply_def Some Let_def split: option.splits)
  show ?thesis
  proof (cases "rt_branch rt = ''digital''")
    case False
    with Some have "reading cd pre h = None" by (simp add: reading_def)
    with app False show ?thesis
      by (auto simp: conn_state_put dest: applyPLC_other split: option.splits prod.splits)
  next
    case True
    show ?thesis
    proof (cases "digitalKind (rt_sub rt)")
      case None
      with Some True have "reading cd pre h = None" by (simp add: reading_def)
      with app True None show ?thesis by (simp add: applyPLC_digital conn_state_put)
    next
      case (Some kind)
      have r: "reading cd pre h = point_of cd (he_connectionID h) kind rt (he_topic h) (he_payload h) (he_received h)"
        using \<open>parseRoute pre (he_topic h) = Some rt\<close> True Some by (simp add: reading_def)
      show ?thesis
      proof (cases "reading cd pre h")
        case None
        with r app True Some show ?thesis by (simp add: applyPLC_digital applyPoint_def conn_state_put)
      next
        case (Some p)
        with r have "pt_connectionID p = he_connectionID h \<and> pt_topic p = he_topic h"
          by (auto simp: point_of_def split: option.splits)
        moreover have "point_of cd (he_connectionID h) kind rt (he_topic h) (he_payload h) (he_received h) = Some p"
          using r Some by simp
        then have "hear cd pre mpre h r =
            (put_state (he_connectionID h) (?c\<lparr>cs_points := AList.update (he_topic h) p (cs_points ?c)\<rparr>) r)\<lparr>rg_journal :=
               (case edge_of (?c\<lparr>cs_points := AList.update (he_topic h) p (cs_points ?c)\<rparr>)
                  (map_of (cs_points ?c) (he_topic h)) p of None \<Rightarrow> rg_journal r | Some e \<Rightarrow> Append e (rg_journal r))\<rparr>"
          using app True \<open>digitalKind (rt_sub rt) = Some kind\<close> by (simp add: applyPLC_digital applyPoint_def Let_def)
        ultimately show ?thesis by (simp add: Some conn_state_put)
      qed
    qed
  qed
qed

definition feed :: "Codec \<Rightarrow> string \<Rightarrow> string \<Rightarrow> int \<Rightarrow> Heard list \<Rightarrow> Registry" where
  "feed cd pre mpre n hs = fold (hear cd pre mpre) hs (NewRegistry n)"

definition edge_ends :: "Edge option \<Rightarrow> (bool \<times> bool) list" where
  "edge_ends e = (case e of None \<Rightarrow> [] | Some e \<Rightarrow> [(ed_from e, ed_to e)])"

lemma edge_of_transition: "edge_ends (edge_of c prev p) = transition (Option.bind prev pt_bool) (pt_bool p)"
  by (auto simp: edge_ends_def edge_of_def transition_def Let_def split: option.splits bool.splits)

lemma edge_of_place: "edge_of c prev p = Some e \<Longrightarrow> ed_connectionID e = pt_connectionID p \<and> ed_topic e = pt_topic p"
  by (auto simp: edge_of_def Let_def split: option.splits if_splits)

definition edges_at :: "string \<Rightarrow> string \<Rightarrow> Journal \<Rightarrow> (bool \<times> bool) list" where
  "edges_at cid topic j =
     map (\<lambda>e. (ed_from e, ed_to e)) (filter (\<lambda>e. ed_connectionID e = cid \<and> ed_topic e = topic) (jn_entries j))"

lemma edges_at_append:
  assumes "length (jn_entries j) < jn_size j"
  shows "edges_at cid topic (case e of None \<Rightarrow> j | Some e \<Rightarrow> Append e j) = edges_at cid topic j @
      (case e of Some x \<Rightarrow> if ed_connectionID x = cid \<and> ed_topic x = topic then edge_ends e else [] | None \<Rightarrow> [])"
  using assms by (simp add: edges_at_def edge_ends_def Append_entries split: option.splits)

definition fed :: "int \<Rightarrow> nat \<Rightarrow> Registry \<Rightarrow> bool" where
  "fed n k r \<longleftrightarrow> jn_size (rg_journal r) = jn_size (NewJournal n) \<and> length (jn_entries (rg_journal r)) \<le> k"

lemma hear_fed: "fed n k r \<Longrightarrow> fed n (Suc k) (hear cd pre mpre h r)"
proof -
  assume r: "fed n k r"
  have "fed n (Suc k) (r\<lparr>rg_journal := case e of None \<Rightarrow> rg_journal r | Some e \<Rightarrow> Append e (rg_journal r)\<rparr>)" for e
    using r by (auto simp: fed_def Append_entries split: option.splits)
  with hear_effect [where cd = cd and pre = pre and mpre = mpre and h = h and r = r] r show ?thesis
    by (auto simp: fed_def split: option.splits)
qed

lemma feed_points_edges:
  assumes "length hs \<le> jn_size (NewJournal n)"
  shows "fed n (length hs) (feed cd pre mpre n hs) \<and>
    Option.bind (map_of (cs_points (conn_state cid (feed cd pre mpre n hs))) topic) pt_bool =
      last_value None (values_of cd pre cid topic hs) \<and>
    edges_at cid topic (rg_journal (feed cd pre mpre n hs)) = transitions (values_of cd pre cid topic hs)"
  using assms
proof (induction hs rule: rev_induct)
  case Nil
  show ?case
    by (simp add: feed_def NewRegistry_def fed_def conn_state_def empty_state_def values_of_def last_value_def edges_at_def
        NewJournal_def)
next
  case (snoc h hs)
  let ?r = "feed cd pre mpre n hs" and ?k = "he_connectionID h" and ?t = "he_topic h"
  from snoc have IH: "fed n (length hs) ?r"
    "Option.bind (map_of (cs_points (conn_state cid ?r)) topic) pt_bool = last_value None (values_of cd pre cid topic hs)"
    "edges_at cid topic (rg_journal ?r) = transitions (values_of cd pre cid topic hs)" by auto
  have feed: "feed cd pre mpre n (hs @ [h]) = hear cd pre mpre h ?r" by (simp add: feed_def)
  note eff = hear_effect [where cd = cd and pre = pre and mpre = mpre and h = h and r = ?r]
  have f: "fed n (length (hs @ [h])) (hear cd pre mpre h ?r)" using hear_fed [OF IH(1)] by simp
  show ?case
  proof (cases "reading cd pre h")
    case None
    with eff IH f show ?thesis by (simp add: feed values_of_snoc)
  next
    case (Some p)
    let ?prev = "map_of (cs_points (conn_state ?k ?r)) ?t"
    let ?e = "edge_of ((conn_state ?k ?r)\<lparr>cs_points := AList.update ?t p (cs_points (conn_state ?k ?r))\<rparr>) ?prev p"
    from eff Some have p: "pt_connectionID p = ?k" "pt_topic p = ?t"
      and pts: "cs_points (conn_state cid (hear cd pre mpre h ?r)) =
        (if cid = ?k then AList.update ?t p (cs_points (conn_state cid ?r)) else cs_points (conn_state cid ?r))"
      and jn: "rg_journal (hear cd pre mpre h ?r) = (case ?e of None \<Rightarrow> rg_journal ?r | Some e \<Rightarrow> Append e (rg_journal ?r))"
      by auto
    from IH(1) snoc.prems have room: "length (jn_entries (rg_journal ?r)) < jn_size (rg_journal ?r)"
      by (simp add: fed_def)
    have place: "\<forall>x. ?e = Some x \<longrightarrow> ed_connectionID x = ?k \<and> ed_topic x = ?t"
      using edge_of_place p by metis
    have edges: "edges_at cid topic (rg_journal (hear cd pre mpre h ?r)) =
        edges_at cid topic (rg_journal ?r) @ (if ?k = cid \<and> ?t = topic then edge_ends ?e else [])"
      unfolding jn edges_at_append [OF room] using place by (cases ?e) (auto simp: edge_ends_def)
    show ?thesis
    proof (cases "?k = cid \<and> ?t = topic")
      case True
      with IH edges f Some pts show ?thesis
        by (auto simp: feed values_of_snoc transitions_snoc edge_of_transition update_conv' last_value_def)
    next
      case False
      with IH edges f Some pts show ?thesis
        by (auto simp: feed values_of_snoc update_conv')
    qed
  qed
qed

text \<open>
  C22. The signal log is the transitions of the points: for every connection and topic its entries are, in
  order, exactly the changes from one boolean to the other between consecutive readable messages of that
  topic. The first value of a point, a repeated one, one that is no boolean, a payload that does not read and
  every message of another branch make no entry (as long as the log has room for all of them).
\<close>

theorem plc_journal_is_transitions:
  assumes "length hs \<le> jn_size (NewJournal n)"
  shows "edges_at cid topic (rg_journal (feed cd pre mpre n hs)) = transitions (values_of cd pre cid topic hs)"
  using feed_points_edges [OF assms] by blast

text \<open>A codec for three payloads: a true point, a false one, and one whose value is \<^verbatim>\<open>null\<close>.\<close>

definition ex_codec :: Codec where
  "ex_codec =
     \<lparr>cd_parse = (\<lambda>b. if b = [1] then Some (JObj [(''name'', JStr ''DI''), (''value'', JBool True)])
        else if b = [0] then Some (JObj [(''name'', JStr ''DI''), (''value'', JBool False)])
        else if b = [2] then Some (JObj [(''name'', JStr ''DI''), (''value'', JNull)]) else None),
      cd_float = (\<lambda>s. None), cd_text = (\<lambda>f. []), cd_fixed = (\<lambda>f. []), cd_trunc = (\<lambda>f. 0)\<rparr>"

definition ex_heard :: "byte \<Rightarrow> Heard" where
  "ex_heard b = \<lparr>he_connectionID = ''c1'', he_topic = ''plc/digital/input/5'', he_payload = [b], he_received = 7\<rparr>"

lemma ex_route: "parseRoute ''plc'' ''plc/digital/input/5'' =
    Some \<lparr>rt_branch = ''digital'', rt_sub = ''input'', rt_leaf = ''5''\<rparr>"
  by code_simp

lemma ex_envelope:
  "decode ex_codec envelope_fields [1] zero_envelope = Some (zero_envelope\<lparr>en_name := ''DI'', en_value := Some (JBool True)\<rparr>)"
  "decode ex_codec envelope_fields [0] zero_envelope = Some (zero_envelope\<lparr>en_name := ''DI'', en_value := Some (JBool False)\<rparr>)"
  "decode ex_codec envelope_fields [2] zero_envelope = Some (zero_envelope\<lparr>en_name := ''DI'', en_value := Some JNull\<rparr>)"
  "decode ex_codec envelope_fields [3] zero_envelope = None"
  by (simp_all add: decode_def ex_codec_def unmarshal_struct_def envelope_fields_def find_field_def to_lower_def
      lower_char_def set_string_def set_raw_def)

lemma ex_reading:
  "map_option pt_bool (reading ex_codec ''plc'' (ex_heard 1)) = Some (Some True)"
  "map_option pt_bool (reading ex_codec ''plc'' (ex_heard 0)) = Some (Some False)"
  "map_option pt_bool (reading ex_codec ''plc'' (ex_heard 2)) = Some (Some False)"
  "reading ex_codec ''plc'' (ex_heard 3) = None"
  by (simp_all add: reading_def ex_heard_def ex_route digitalKind_def point_of_def ex_envelope point_value_def set_bool_def)

lemma ex_values:
  "values_of ex_codec ''plc'' ''c1'' ''plc/digital/input/5'' (map ex_heard [0, 1, 3, 1, 0]) =
     [Some False, Some True, Some True, Some False]"
  "values_of ex_codec ''plc'' ''c1'' ''plc/digital/input/5'' (map ex_heard [1, 2]) = [Some True, Some False]"
  using ex_reading by (auto simp: values_of_def) (auto simp: ex_heard_def)

theorem plc_journal_is_transitions_witness:
  "edges_at ''c1'' ''plc/digital/input/5'' (rg_journal (feed ex_codec ''plc'' ''mbus'' 10 (map ex_heard [0, 1, 3, 1, 0]))) =
     [(False, True), (True, False)]"
  using plc_journal_is_transitions [of "map ex_heard [0, 1, 3, 1, 0]" 10 "''c1''" "''plc/digital/input/5''" ex_codec "''plc''" "''mbus''"]
  unfolding ex_values by (simp add: NewJournal_def transition_def)

text \<open>A value of \<^verbatim>\<open>null\<close> reads as false: a point that is on falls, and the fall is logged as an edge.\<close>

lemma null_value_is_an_edge:
  "edges_at ''c1'' ''plc/digital/input/5'' (rg_journal (feed ex_codec ''plc'' ''mbus'' 10 (map ex_heard [1, 2]))) =
     [(True, False)]"
  using feed_points_edges [of "map ex_heard [1, 2]" 10 ex_codec "''plc''" "''mbus''" "''c1''" "''plc/digital/input/5''"]
  unfolding ex_values by (simp add: NewJournal_def transition_def)

section \<open>A refused message\<close>

lemma update_same: "map_of xs k = Some v \<Longrightarrow> AList.update k v xs = xs"
  by (induction xs) auto

lemma update_new: "map_of xs k = None \<Longrightarrow> AList.update k v xs = xs @ [(k, v)]"
  by (induction xs) auto

lemma last_some_snoc_None: "last_some (xs @ [None]) = last_some xs"
  by (simp add: last_some_def)

lemma Snapshot_untouched: "Snapshot cid (put_state k (conn_state k r) r) = Snapshot cid r"
proof (cases "map_of (rg_conns r) k")
  case None
  then show ?thesis
    by (simp add: conn_state_def put_state_def update_new Snapshot_def Let_def empty_state_def last_some_snoc_None count_if_def)
next
  case (Some c)
  then show ?thesis by (simp add: conn_state_def put_state_def update_same)
qed

text \<open>
  A message under the PLC's prefix that \<^verbatim>\<open>Apply\<close> refuses (a branch it does not know, a payload
  that does not read, an empty one) leaves every projection the panel can ask for, of this connection or of
  all, and the log exactly as they were: a bad publish blanks nothing.
\<close>

theorem Apply_refused_keeps_view:
  assumes "parseRoute pre topic \<noteq> None" and "\<not> fst (Apply cd pre mpre connID topic payload received r)"
  shows "Snapshot cid (snd (Apply cd pre mpre connID topic payload received r)) = Snapshot cid r \<and>
    rg_journal (snd (Apply cd pre mpre connID topic payload received r)) = rg_journal r"
  using assms by (auto simp: Apply_def Let_def Snapshot_untouched split: option.splits)

theorem Apply_refused_keeps_view_witness:
  "Snapshot [] (snd (Apply ex_codec ''plc'' ''mbus'' ''c1'' ''plc/digital/input/5'' [3] 7 (feed ex_codec ''plc'' ''mbus'' 10 [ex_heard 1]))) =
     Snapshot [] (feed ex_codec ''plc'' ''mbus'' 10 [ex_heard 1])"
proof -
  let ?r = "feed ex_codec ''plc'' ''mbus'' 10 [ex_heard 1]"
  have "\<not> fst (Apply ex_codec ''plc'' ''mbus'' ''c1'' ''plc/digital/input/5'' [3] 7 ?r)"
    by (simp add: Apply_def ex_route applyPLC_def digitalKind_def applyPoint_def point_of_def ex_envelope Let_def)
  from Apply_refused_keeps_view [OF _ this] show ?thesis by (simp add: ex_route)
qed

text \<open>
  The meters do not keep to that: the message is refused and the meter is on the panel all the same. With no
  meter prefix, which is said to turn meters off, any topic outside the PLC's is read as one, and the filter
  the plugin subscribes to also matches the bare prefix.
\<close>

lemma refused_meter_appears:
  "Apply ex_codec ''plc'' [] ''c1'' ''plc'' [1] 7 (NewRegistry 10) =
     (False, put_state ''c1'' (empty_state\<lparr>cs_meters := [(''plc'', new_meter ''c1'' ''plc'')]\<rparr>) (NewRegistry 10)) \<and>
   MatchFilter ''plc/#'' ''plc'' \<and>
   su_meters (ps_summary (Snapshot [] (snd (Apply ex_codec ''plc'' [] ''c1'' ''plc'' [1] 7 (NewRegistry 10))))) = 1"
proof -
  have "parseRoute ''plc'' ''plc'' = None" "parseRoute [] ''plc'' = Some \<lparr>rt_branch = ''plc'', rt_sub = [], rt_leaf = []\<rparr>"
    "MatchFilter ''plc/#'' ''plc''" by code_simp+
  then show ?thesis
    by (simp add: Apply_def applyMeter_def Let_def conn_state_def NewRegistry_def empty_state_def Snapshot_def put_state_def)
qed

end
