(* ===== verification/PluginFacts.thy ===== *)
theory PluginFacts
  imports Plugins
begin

text \<open>
  What the plugin host keeps true: every started plugin's filters are wanted on every connection after a
  reconnect, a stopped plugin holds nothing, and a burst of messages reaches a plugin's queue in order up
  to the capacity of the channel, every lost one counted.
\<close>

section \<open>Operations on every connection\<close>

lemma SubscribeEphemeral_client_ok [wf_intro]: "client_ok c \<Longrightarrow> client_ok (snd (SubscribeEphemeral env subs c))"
  using conn_step_client_ok [of c "OpSubscribeEphemeral env subs"] by simp

lemma UnsubscribeEphemeral_client_ok [wf_intro]: "client_ok c \<Longrightarrow> client_ok (snd (UnsubscribeEphemeral env fs c))"
  using conn_step_client_ok [of c "OpUnsubscribeEphemeral env fs"] by simp

lemma Get_with_conn:
  "Get j (snd (with_conn f k m)) = (if j = k then map_option (\<lambda>c. (snd (f c))\<lparr>cn_out := []\<rparr>) (Get k m) else Get j m)"
  by (auto simp: with_conn_def Get_store split: option.splits prod.splits)

lemma fold_conns_Get:
  "distinct (map fst xs) \<Longrightarrow> Get j (fold (\<lambda>(k, c) m. snd (with_conn f k m)) xs m) =
     (if j \<in> fst ` set xs then map_option (\<lambda>c. (snd (f c))\<lparr>cn_out := []\<rparr>) (Get j m) else Get j m)"
  by (induction xs arbitrary: m) (force simp: Get_with_conn split: prod.splits)+

lemma fold_conns_ok:
  "mgr_ok m \<Longrightarrow> (\<And>c. client_ok c \<Longrightarrow> client_ok (snd (f c))) \<Longrightarrow>
     mgr_ok (fold (\<lambda>(k, c) m. snd (with_conn f k m)) xs m)"
  by (induction xs arbitrary: m) (auto intro: with_conn_ok split: prod.splits)

lemma on_connections_ok [wf_intro]:
  "mgr_ok m \<Longrightarrow> (\<And>c. client_ok c \<Longrightarrow> client_ok (snd (f c))) \<Longrightarrow> mgr_ok (on_connections f m)"
  unfolding on_connections_def by (rule fold_conns_ok)

lemma on_connections_Get:
  assumes "mgr_ok m"
  shows "Get j (on_connections f m) = map_option (\<lambda>c. (snd (f c))\<lparr>cn_out := []\<rparr>) (Get j m)"
proof -
  let ?xs = "sort_key (\<lambda>(k, c). cs_name (cn_spec c)) (mg_conns m)"
  have "distinct (map fst ?xs)"
    using assms by (simp add: mgr_ok_def distinct_map)
  moreover have "j \<in> fst ` set ?xs \<longleftrightarrow> Get j m \<noteq> None"
    by (simp add: Get_def map_of_eq_None_iff)
  ultimately show ?thesis
    unfolding on_connections_def by (cases "Get j m") (simp_all add: fold_conns_Get)
qed

section \<open>The filters a connection is asked to hold\<close>

definition ephemeral_filters :: "Conn \<Rightarrow> string set" where
  "ephemeral_filters c = fst ` set (cn_ephemeral c)"

definition plugin_filters :: "'v Runtime \<Rightarrow> string \<Rightarrow> string set" where
  "plugin_filters r i =
     (case rt_instances r i of None \<Rightarrow> {}
      | Some x \<Rightarrow> if validate_subs False (pi_subs x) = None then sub_filter ` set (pi_subs x) else {})"

lemma ephemeral_filters_out [simp]: "ephemeral_filters (c\<lparr>cn_out := es\<rparr>) = ephemeral_filters c"
  by (simp add: ephemeral_filters_def)

lemma ephemeral_SubscribeEphemeral:
  "ephemeral_filters (snd (SubscribeEphemeral env subs c)) =
     ephemeral_filters c \<union> (if validate_subs False subs = None then sub_filter ` set subs else {})"
proof -
  have "fst ` set (fold put_ephemeral subs es) = sub_filter ` set subs \<union> fst ` set es" for es
    by (induction subs arbitrary: es) (auto simp: fst_put_ephemeral)
  then show ?thesis
    by (auto simp: SubscribeEphemeral_def Let_def ephemeral_filters_def split: option.splits)
qed

lemma applySubscriptions_simps [simp]:
  "rt_instances (applySubscriptions env i r) = rt_instances r"
  "plugin_filters (applySubscriptions env i r) = plugin_filters r"
  "rt_registry (applySubscriptions env i r) = rt_registry r"
  by (simp_all add: applySubscriptions_def Let_def plugin_filters_def fun_eq_iff split: option.splits)

lemma applySubscriptions_ok [wf_intro]: "mgr_ok (rt_mqtt r) \<Longrightarrow> mgr_ok (rt_mqtt (applySubscriptions env i r))"
  by (simp add: applySubscriptions_def Let_def on_connections_ok SubscribeEphemeral_client_ok)

lemma applySubscriptions_Get:
  assumes "mgr_ok (rt_mqtt r)"
  shows "map_option ephemeral_filters (Get k (rt_mqtt (applySubscriptions env i r))) =
    map_option (\<lambda>c. ephemeral_filters c \<union> plugin_filters r i) (Get k (rt_mqtt r))"
  using assms
  by (auto simp: applySubscriptions_def Let_def plugin_filters_def on_connections_Get ephemeral_SubscribeEphemeral
      option.map_comp comp_def split: option.splits)

lemma ApplyAll_loop:
  assumes "mgr_ok (rt_mqtt r)"
  shows "rt_instances (ApplyAll env ids r) = rt_instances r \<and>
    map_option ephemeral_filters (Get k (rt_mqtt (ApplyAll env ids r))) =
      map_option (\<lambda>c. ephemeral_filters c \<union> (\<Union>i\<in>set ids. plugin_filters r i)) (Get k (rt_mqtt r))"
  using assms
proof (induction ids arbitrary: r)
  case (Cons i ids)
  let ?r = "applySubscriptions env i r"
  have "mgr_ok (rt_mqtt ?r)" using Cons.prems by (rule applySubscriptions_ok)
  from Cons.IH [OF this] applySubscriptions_Get [OF Cons.prems, of k env i]
  show ?case by (cases "Get k (rt_mqtt r)"; cases "Get k (rt_mqtt ?r)") (auto simp: ApplyAll_def)
qed (simp add: ApplyAll_def)

text \<open>
  When a connection comes up, every plugin's filters are put on every connection: each connection is
  then asked for what it was asked for before and for all filters of every instance the host knows, except
  those of a plugin that asks for a filter that is not valid, none of whose filters is taken. Nothing else
  of what a connection wants changes, and no instance does.
\<close>

theorem plugin_filters_wanted:
  assumes "mgr_ok (rt_mqtt r)" and "st_state st = StateConnected" and "set ids = dom (rt_instances r)"
  shows "rt_instances (onStatus env ids st r) = rt_instances r \<and>
    map_option ephemeral_filters (Get k (rt_mqtt (onStatus env ids st r))) =
      map_option (\<lambda>c. ephemeral_filters c \<union> (\<Union>i. plugin_filters r i)) (Get k (rt_mqtt r))"
proof -
  have "(\<Union>i\<in>set ids. plugin_filters r i) = (\<Union>i. plugin_filters r i)"
    unfolding assms(3) by (force simp: plugin_filters_def split: option.splits)
  with ApplyAll_loop [OF assms(1), of env ids k] assms(2) show ?thesis
    by (simp add: onStatus_def)
qed

section \<open>The state of the host\<close>

lemma upd_instance_simps [simp]:
  "rt_registry (upd_instance i f r) = rt_registry r" "rt_mqtt (upd_instance i f r) = rt_mqtt r"
  "rt_saved (upd_instance i f r) = rt_saved r"
  "rt_instances (upd_instance i f r) j = (if j = i then map_option f (rt_instances r i) else rt_instances r j)"
  by (auto simp: upd_instance_def split: option.splits)

lemma applySubscriptions_saved [simp]: "rt_saved (applySubscriptions env i r) = rt_saved r"
  by (simp add: applySubscriptions_def Let_def split: option.splits)

definition put_default :: "string \<times> 'v option \<Rightarrow> 'v settings \<Rightarrow> 'v settings" where
  "put_default p st = (case snd p of None \<Rightarrow> st | Some v \<Rightarrow> if st (fst p) = None then st(fst p \<mapsto> v) else st)"

lemma applySchemaDefaults_alt: "applySchemaDefaults sc st = fold put_default sc st"
  by (simp add: applySchemaDefaults_def put_default_def [abs_def] case_prod_unfold)

lemma put_default_Some: "st k = Some v \<Longrightarrow> put_default p st k = Some v"
  by (auto simp: put_default_def split: option.splits)

lemma applySchemaDefaults_Some: "st k = Some v \<Longrightarrow> fold put_default sc st k = Some v"
  by (induction sc arbitrary: st) (simp_all add: put_default_Some)

lemma applySchemaDefaults_has: "(k, Some d) \<in> set sc \<Longrightarrow> \<exists>v. fold put_default sc st k = Some v"
proof (induction sc arbitrary: st)
  case (Cons p sc)
  show ?case
  proof (cases "p = (k, Some d)")
    case True
    have "\<exists>v. put_default p st k = Some v"
      using True by (cases "st k") (simp_all add: put_default_def)
    then show ?thesis by (auto dest: applySchemaDefaults_Some)
  qed (use Cons in simp)
qed simp

lemma applySchemaDefaults_fixed:
  "\<forall>p \<in> set sc. \<forall>d. snd p = Some d \<longrightarrow> st (fst p) \<noteq> None \<Longrightarrow> fold put_default sc st = st"
  by (induction sc) (auto simp: put_default_def split: option.splits)

lemma applySchemaDefaults_idem [simp]:
  "applySchemaDefaults sc (applySchemaDefaults sc st) = applySchemaDefaults sc st"
  unfolding applySchemaDefaults_alt
proof (rule applySchemaDefaults_fixed, intro ballI allI impI)
  fix p d
  assume "p \<in> set sc" "snd p = Some d"
  then have "(fst p, Some d) \<in> set sc" by (metis prod.collapse)
  from applySchemaDefaults_has [OF this, of st] show "fold put_default sc st (fst p) \<noteq> None" by auto
qed

text \<open>
  What every instance keeps: a plugin that is not running has no filters and nothing queued, a running one
  is enabled and has no error, the queue stays within the channel, and the saved row is what the instance
  has, with the defaults of the schema filled in.
\<close>

definition instance_ok :: "'v Instance \<Rightarrow> bool" where
  "instance_ok x \<longleftrightarrow>
     (\<not> pi_running x \<longrightarrow> pi_subs x = [] \<and> pi_dynamic x = [] \<and> pi_queue x = []) \<and>
     (pi_running x \<longrightarrow> pi_lastErr x = []) \<and> length (pi_queue x) \<le> queueSize"

definition saved_ok :: "'v Runtime \<Rightarrow> string \<Rightarrow> 'v Instance \<Rightarrow> bool" where
  "saved_ok r i x \<longleftrightarrow>
     (\<exists>p. lookup_plugin i r = Some p \<and> applySchemaDefaults (pl_schema p) (pi_settings x) = pi_settings x \<and>
        (\<forall>on st. rt_saved r i = Some (on, st) \<longrightarrow>
           pi_enabled x = on \<and> pi_settings x = applySchemaDefaults (pl_schema p) st))"

definition rt_ok :: "'v Runtime \<Rightarrow> bool" where
  "rt_ok r \<longleftrightarrow> mgr_ok (rt_mqtt r) \<and>
     (\<forall>i x. rt_instances r i = Some x \<longrightarrow> instance_ok x \<and> (pi_running x \<longrightarrow> pi_enabled x) \<and> saved_ok r i x)"

definition rt_almost :: "string \<Rightarrow> 'v Runtime \<Rightarrow> bool" where
  "rt_almost j r \<longleftrightarrow> mgr_ok (rt_mqtt r) \<and>
     (\<forall>i x. rt_instances r i = Some x \<longrightarrow> instance_ok x \<and> (pi_running x \<and> i \<noteq> j \<longrightarrow> pi_enabled x) \<and> saved_ok r i x)"

lemma rt_ok_almost: "rt_ok r \<Longrightarrow> rt_almost j r"
  by (auto simp: rt_ok_def rt_almost_def)

lemma saved_ok_cong:
  "saved_ok r i x \<Longrightarrow> rt_registry r' = rt_registry r \<Longrightarrow> rt_saved r' = rt_saved r \<Longrightarrow>
     pi_settings x' = pi_settings x \<Longrightarrow> pi_enabled x' = pi_enabled x \<Longrightarrow> saved_ok r' i x'"
  by (simp add: saved_ok_def lookup_plugin_def)

lemma start_plugin_fields:
  "rt_registry (snd (start_plugin env i r)) = rt_registry r \<and> rt_saved (snd (start_plugin env i r)) = rt_saved r"
  by (simp add: start_plugin_def split: option.splits)

lemma start_plugin_instances:
  "rt_instances (snd (start_plugin env i r)) j =
     (case rt_instances r j of None \<Rightarrow> None
      | Some x \<Rightarrow>
         (case lookup_plugin i r of None \<Rightarrow> Some x
          | Some p \<Rightarrow> if j \<noteq> i \<or> pi_running x then Some x
             else case pl_init p (pi_settings x) of
               Some e \<Rightarrow> Some (x\<lparr>pi_lastErr := e\<rparr>)
             | None \<Rightarrow> Some (x\<lparr>pi_running := True, pi_subs := pl_subs p (pi_settings x), pi_dynamic := [],
                        pi_queue := [], pi_lastErr := []\<rparr>)))"
  by (auto simp: start_plugin_def split: option.splits)

lemma start_plugin_almost: "rt_ok r \<Longrightarrow> rt_almost i (snd (start_plugin env i r))"
proof -
  assume r: "rt_ok r"
  let ?r = "snd (start_plugin env i r)"
  have m: "mgr_ok (rt_mqtt ?r)"
    using r by (auto simp: start_plugin_def rt_ok_def intro: applySubscriptions_ok split: option.splits)
  have "instance_ok x \<and> (pi_running x \<and> j \<noteq> i \<longrightarrow> pi_enabled x) \<and> saved_ok ?r j x"
    if x: "rt_instances ?r j = Some x" for j x
  proof -
    from x obtain y where y: "rt_instances r j = Some y"
      unfolding start_plugin_instances by (auto split: option.splits)
    then have ok: "instance_ok y" "pi_running y \<longrightarrow> pi_enabled y" "saved_ok r j y"
      using r by (auto simp: rt_ok_def)
    have "pi_settings x = pi_settings y" "pi_enabled x = pi_enabled y"
      using x y unfolding start_plugin_instances by (auto split: option.splits if_splits)
    then have "saved_ok ?r j x" using saved_ok_cong [OF ok(3)] start_plugin_fields [of env i r] by simp
    moreover have "instance_ok x \<and> (pi_running x \<and> j \<noteq> i \<longrightarrow> pi_enabled x)"
      using x y ok unfolding start_plugin_instances
      by (auto simp: instance_ok_def queueSize_def split: option.splits if_splits)
    ultimately show ?thesis by simp
  qed
  with m show ?thesis by (simp add: rt_almost_def)
qed

lemma stopInstance_fields:
  "rt_registry (snd (stopInstance env i r)) = rt_registry r \<and> rt_saved (snd (stopInstance env i r)) = rt_saved r"
  by (simp add: stopInstance_def Let_def split: option.splits)

lemma stopInstance_instances:
  "rt_instances (snd (stopInstance env i r)) j =
     (case rt_instances r j of None \<Rightarrow> None
      | Some x \<Rightarrow> if j \<noteq> i \<or> \<not> pi_running x then Some x
          else Some (x\<lparr>pi_running := False, pi_queue := [], pi_subs := [], pi_dynamic := []\<rparr>))"
  by (auto simp: stopInstance_def Let_def split: option.splits)

lemma stopInstance_stopped:
  "rt_instances (snd (stopInstance env i r)) i = Some x \<Longrightarrow> \<not> pi_running x"
  by (auto simp: stopInstance_instances split: option.splits if_splits)

lemma stopInstance_ok [wf_intro]: "rt_ok r \<Longrightarrow> rt_ok (snd (stopInstance env i r))"
proof -
  assume r: "rt_ok r"
  let ?r = "snd (stopInstance env i r)"
  have m: "mgr_ok (rt_mqtt ?r)"
    using r by (auto simp: stopInstance_def rt_ok_def Let_def intro: on_connections_ok UnsubscribeEphemeral_client_ok
        split: option.splits)
  have "instance_ok x \<and> (pi_running x \<longrightarrow> pi_enabled x) \<and> saved_ok ?r j x"
    if x: "rt_instances ?r j = Some x" for j x
  proof -
    from x obtain y where y: "rt_instances r j = Some y"
      unfolding stopInstance_instances by (auto split: option.splits)
    then have ok: "instance_ok y" "pi_running y \<longrightarrow> pi_enabled y" "saved_ok r j y"
      using r by (auto simp: rt_ok_def)
    have "pi_settings x = pi_settings y" "pi_enabled x = pi_enabled y"
      using x y unfolding stopInstance_instances by (auto split: option.splits if_splits)
    then have "saved_ok ?r j x" using saved_ok_cong [OF ok(3)] stopInstance_fields [of env i r] by simp
    moreover have "instance_ok x \<and> (pi_running x \<longrightarrow> pi_enabled x)"
      using x y ok unfolding stopInstance_instances by (auto simp: instance_ok_def split: if_splits)
    ultimately show ?thesis by simp
  qed
  with m show ?thesis by (simp add: rt_ok_def)
qed

text \<open>What a change of one instance has to keep, for the steps that change only one.\<close>

lemma rt_ok_update:
  assumes "rt_almost i r" and "rt_registry r' = rt_registry r" and "mgr_ok (rt_mqtt r')"
    and "\<And>j. j \<noteq> i \<Longrightarrow> rt_instances r' j = rt_instances r j \<and> rt_saved r' j = rt_saved r j"
    and "\<And>x'. rt_instances r' i = Some x' \<Longrightarrow> \<exists>x. rt_instances r i = Some x \<and> instance_ok x' \<and>
      (pi_running x' \<longrightarrow> pi_enabled x') \<and> saved_ok r' i x'"
  shows "rt_ok r'"
  unfolding rt_ok_def
proof (intro conjI allI impI)
  fix j x assume x: "rt_instances r' j = Some x"
  have *: "instance_ok x \<and> (pi_running x \<longrightarrow> pi_enabled x) \<and> saved_ok r' j x"
  proof (cases "j = i")
    case False
    with assms(4) x have "rt_instances r j = Some x" by simp
    with assms(1) False have "instance_ok x \<and> (pi_running x \<longrightarrow> pi_enabled x) \<and> saved_ok r j x"
      by (simp add: rt_almost_def)
    with assms(2) assms(4) [OF False] show ?thesis by (simp add: saved_ok_def lookup_plugin_def)
  qed (use assms(5) x in auto)
  from * show "instance_ok x" by simp
  from * show "pi_enabled x" if "pi_running x" using that by simp
  from * show "saved_ok r' j x" by simp
qed (rule assms(3))

lemma rt_almost_instance:
  "rt_almost i r \<Longrightarrow> rt_instances r i = Some x \<Longrightarrow> instance_ok x \<and> saved_ok r i x"
  by (simp add: rt_almost_def)

lemma start_plugin_failed: "fst (start_plugin env i r) = Inl e \<Longrightarrow> rt_ok r \<Longrightarrow> rt_ok (snd (start_plugin env i r))"
proof -
  assume e: "fst (start_plugin env i r) = Inl e" and r: "rt_ok r"
  show ?thesis
  proof (rule rt_ok_update [OF start_plugin_almost [OF r]])
    fix x assume x: "rt_instances (snd (start_plugin env i r)) i = Some x"
    note a = rt_almost_instance [OF start_plugin_almost [OF r] x]
    have "pi_running x \<longrightarrow> pi_enabled x"
      using e x r unfolding start_plugin_instances rt_ok_def
      by (fastforce simp: start_plugin_def split: option.splits if_splits)
    with a x show "\<exists>y. rt_instances (snd (start_plugin env i r)) i = Some y \<and> instance_ok x \<and>
        (pi_running x \<longrightarrow> pi_enabled x) \<and> saved_ok (snd (start_plugin env i r)) i x"
      by simp
  qed (use start_plugin_almost [OF r, of i env] in \<open>simp_all add: rt_almost_def\<close>)
qed

lemma SetEnabled_ok [wf_intro]: "rt_ok r \<Longrightarrow> rt_ok (snd (SetEnabled env i on r))"
proof -
  assume r: "rt_ok r"
  define res where "res = (if on then start_plugin env i r else stopInstance env i r)"
  have alm: "rt_almost i (snd res)"
    unfolding res_def by (simp add: r start_plugin_almost stopInstance_ok rt_ok_almost)
  have stopped: "on \<or> (\<forall>x. rt_instances (snd res) i = Some x \<longrightarrow> \<not> pi_running x)"
    unfolding res_def by (auto dest: stopInstance_stopped)
  show ?thesis
  proof (cases "rt_instances r i")
    case None
    with r show ?thesis by (simp add: SetEnabled_def)
  next
    case (Some y)
    have eq: "SetEnabled env i on r = (case res of (Inl e, r) \<Rightarrow> (Inl e, r)
        | (Inr _, r) \<Rightarrow> let r = upd_instance i (\<lambda>x. x\<lparr>pi_enabled := on\<rparr>) r in
            (Inr (), r\<lparr>rt_saved := (rt_saved r)(i \<mapsto> (on, pi_settings (the (rt_instances r i))))\<rparr>))"
      by (simp add: SetEnabled_def Some res_def)
    obtain q s where qs: "res = (q, s)" by (cases res)
    show ?thesis
    proof (cases q)
      case (Inl e)
      have "rt_ok s"
      proof (cases on)
        case True
        with Inl qs start_plugin_failed [OF _ r, of env i e] show ?thesis by (simp add: res_def)
      next
        case False
        with qs stopInstance_ok [OF r, of env i] show ?thesis by (simp add: res_def)
      qed
      with eq qs Inl show ?thesis by simp
    next
      case (Inr u)
      let ?r = "upd_instance i (\<lambda>x. x\<lparr>pi_enabled := on\<rparr>) s"
      let ?s = "?r\<lparr>rt_saved := (rt_saved ?r)(i \<mapsto> (on, pi_settings (the (rt_instances ?r i))))\<rparr>"
      have "rt_ok ?s"
      proof (rule rt_ok_update [of i s])
        show "rt_almost i s" using alm qs by simp
        then show "mgr_ok (rt_mqtt ?s)" by (simp add: rt_almost_def)
        fix x assume "rt_instances ?s i = Some x"
        then obtain z where z: "rt_instances s i = Some z" "x = z\<lparr>pi_enabled := on\<rparr>" by auto
        with rt_almost_instance [OF \<open>rt_almost i s\<close>] have "instance_ok z" "saved_ok s i z" by auto
        with z stopped qs show "\<exists>x'. rt_instances s i = Some x' \<and> instance_ok x \<and>
            (pi_running x \<longrightarrow> pi_enabled x) \<and> saved_ok ?s i x"
          by (auto simp: instance_ok_def saved_ok_def lookup_plugin_def)
      qed simp_all
      with eq qs Inr show ?thesis by (simp add: Let_def)
    qed
  qed
qed

lemma start_plugin_ok:
  assumes r: "rt_ok r" and e: "rt_instances r i = Some x" "pi_enabled x"
  shows "rt_ok (snd (start_plugin env i r))"
proof (rule rt_ok_update [OF start_plugin_almost [OF r]])
  fix y assume y: "rt_instances (snd (start_plugin env i r)) i = Some y"
  note a = rt_almost_instance [OF start_plugin_almost [OF r] y]
  have "pi_enabled y" using y e unfolding start_plugin_instances by (auto split: option.splits if_splits)
  with a y show "\<exists>z. rt_instances (snd (start_plugin env i r)) i = Some z \<and> instance_ok y \<and>
      (pi_running y \<longrightarrow> pi_enabled y) \<and> saved_ok (snd (start_plugin env i r)) i y"
    by simp
qed (use start_plugin_almost [OF r, of i env] in \<open>simp_all add: rt_almost_def\<close>)

lemma SaveSettings_ok [wf_intro]: "rt_ok r \<Longrightarrow> rt_ok (snd (SaveSettings env i st r))"
proof (cases "rt_instances r i")
  case (Some x)
  assume r: "rt_ok r"
  with Some have "saved_ok r i x" by (simp add: rt_ok_def)
  then obtain p where p: "lookup_plugin i r = Some p" unfolding saved_ok_def by blast
  define st' where "st' = applySchemaDefaults (pl_schema p) st"
  define s where "s = (upd_instance i (\<lambda>x. x\<lparr>pi_settings := st'\<rparr>) r)\<lparr>rt_saved := (rt_saved r)(i \<mapsto> (pi_enabled x, st'))\<rparr>"
  have s: "rt_ok s"
    by (rule rt_ok_update [OF rt_ok_almost [OF r]])
      (use r p Some in \<open>auto simp: s_def rt_ok_def instance_ok_def saved_ok_def lookup_plugin_def st'_def\<close>)
  have x: "rt_instances s i = Some (x\<lparr>pi_settings := st'\<rparr>)" by (simp add: s_def Some)
  obtain q t where qt: "stopInstance env i s = (q, t)" by (cases "stopInstance env i s")
  have t: "rt_ok t" using stopInstance_ok [OF s, of env i] qt by simp
  have "\<exists>y. rt_instances t i = Some y \<and> pi_enabled y = pi_enabled x"
    using stopInstance_instances [of env i s i] x qt by (simp split: if_splits)
  then have "pi_enabled x \<Longrightarrow> rt_ok (snd (start_plugin env i t))" by (auto intro: start_plugin_ok [OF t])
  moreover have "SaveSettings env i st r = (if \<not> pi_enabled x then (Inr (), s)
      else case stopInstance env i s of (Inl e, r) \<Rightarrow> (Inl e, r) | (Inr _, r) \<Rightarrow> start_plugin env i r)"
    by (simp add: SaveSettings_def Some p st'_def s_def Let_def)
  ultimately show ?thesis using s t qt by (simp split: sum.splits)
qed (simp add: SaveSettings_def)

lemma applySubscriptions_rt_ok [wf_intro]: "rt_ok r \<Longrightarrow> rt_ok (applySubscriptions env i r)"
  by (auto simp: rt_ok_def saved_ok_def lookup_plugin_def intro: applySubscriptions_ok)

lemma ApplyAll_ok [wf_intro]: "rt_ok r \<Longrightarrow> rt_ok (ApplyAll env ids r)"
  unfolding ApplyAll_def by (induction ids arbitrary: r) (auto intro: applySubscriptions_rt_ok)

lemma dispatch_to_fields [simp]:
  "pi_settings (dispatch_to m x) = pi_settings x" "pi_enabled (dispatch_to m x) = pi_enabled x"
  "pi_running (dispatch_to m x) = pi_running x" "pi_lastErr (dispatch_to m x) = pi_lastErr x"
  "pi_subs (dispatch_to m x) = pi_subs x" "pi_dynamic (dispatch_to m x) = pi_dynamic x"
  by (simp_all add: dispatch_to_def enqueue_message_def)

lemma dispatch_to_ok: "instance_ok x \<Longrightarrow> instance_ok (dispatch_to m x)"
  using pque.send_bounded [of x m]
  by (auto simp: instance_ok_def) (auto simp: dispatch_to_def)

lemma dispatch_ok [wf_intro]: "rt_ok r \<Longrightarrow> rt_ok (dispatch m r)"
  by (auto simp: rt_ok_def dispatch_def dispatch_to_ok saved_ok_def lookup_plugin_def)

lemma rt_ok_local:
  "rt_ok r \<Longrightarrow> (\<And>x. rt_instances r i = Some x \<Longrightarrow> instance_ok x \<Longrightarrow> instance_ok (f x) \<and> pi_enabled (f x) = pi_enabled x \<and>
      pi_settings (f x) = pi_settings x \<and> pi_running (f x) = pi_running x) \<Longrightarrow> rt_ok (upd_instance i f r)"
  by (rule rt_ok_update [OF rt_ok_almost])
    (auto simp: rt_ok_def saved_ok_def lookup_plugin_def)

lemma rt_ok_mqtt: "rt_ok r \<Longrightarrow> mgr_ok m \<Longrightarrow> rt_ok (r\<lparr>rt_mqtt := m\<rparr>)"
  by (simp add: rt_ok_def saved_ok_def lookup_plugin_def)

lemma work_ok [wf_intro]: "rt_ok r \<Longrightarrow> rt_ok (snd (work i r))"
proof -
  assume r: "rt_ok r"
  have "rt_ok (upd_instance i (\<lambda>x. x\<lparr>pi_queue := q\<rparr>) r)"
    if "rt_instances r i = Some x" "pi_queue x = m # q" for x m q
    by (rule rt_ok_local [OF r]) (use that in \<open>auto simp: instance_ok_def\<close>)
  with r show ?thesis by (auto simp: work_def split: option.splits list.splits)
qed

lemma forEachConnection_ok:
  assumes m: "mgr_ok m" and f: "\<And>c. client_ok c \<Longrightarrow> client_ok (snd (f c))"
  shows "mgr_ok (snd (forEachConnection cid f m))"
proof -
  have "mgr_ok (snd (fold (\<lambda>(k, c) (res, m). case with_conn f k m of
                (Inl e, m) \<Rightarrow> (if res = Inr () then Inl (ErrManager e) else res, m)
              | (Inr _, m) \<Rightarrow> (res, m)) xs (q, n)))" if "mgr_ok n" for xs q n
    using that
  proof (induction xs arbitrary: q n)
    case (Cons p xs)
    have "mgr_ok (snd (with_conn f (fst p) n))" by (rule with_conn_ok [OF Cons.prems f])
    then show ?case
      by (cases p; cases "with_conn f (fst p) n") (simp add: Cons.IH split: sum.splits)
  qed simp
  note all = this [OF m]
  have "mgr_ok (snd (with_conn f cid m))" by (rule with_conn_ok [OF m f])
  then have one: "mgr_ok n" if "with_conn f cid m = (q, n)" for q n using that by simp
  show ?thesis
  proof (cases "cid = []")
    case True
    then show ?thesis unfolding forEachConnection_def by (simp only: simp_thms if_False all)
  next
    case False
    then show ?thesis unfolding forEachConnection_def by (auto split: prod.splits sum.splits mgr_error.splits dest: one)
  qed
qed

lemma host_Subscribe_ok [wf_intro]: "rt_ok r \<Longrightarrow> rt_ok (snd (host_Subscribe env i cid subs r))"
proof -
  assume r: "rt_ok r"
  let ?r = "upd_instance i (\<lambda>x. if pi_running x then x\<lparr>pi_dynamic := fold put_ephemeral subs (pi_dynamic x)\<rparr> else x) r"
  have "rt_ok ?r" by (rule rt_ok_local [OF r]) (simp add: instance_ok_def)
  moreover have "mgr_ok (snd (forEachConnection cid (SubscribeEphemeral env subs) (rt_mqtt r)))"
    by (rule forEachConnection_ok) (use r in \<open>auto simp: rt_ok_def intro: SubscribeEphemeral_client_ok\<close>)
  ultimately show ?thesis
    using r by (auto simp: host_Subscribe_def Let_def rt_ok_mqtt split: prod.splits)
qed

lemma host_Unsubscribe_ok [wf_intro]: "rt_ok r \<Longrightarrow> rt_ok (snd (host_Unsubscribe env i cid fs r))"
proof -
  assume r: "rt_ok r"
  let ?r = "upd_instance i (\<lambda>x. x\<lparr>pi_dynamic := filter (\<lambda>(f, s). f \<notin> set fs) (pi_dynamic x)\<rparr>) r"
  have "rt_ok ?r" by (rule rt_ok_local [OF r]) (simp add: instance_ok_def)
  moreover have "mgr_ok (snd (forEachConnection cid (UnsubscribeEphemeral env fs) (rt_mqtt r)))"
    by (rule forEachConnection_ok) (use r in \<open>auto simp: rt_ok_def intro: UnsubscribeEphemeral_client_ok\<close>)
  ultimately show ?thesis
    using r by (auto simp: host_Unsubscribe_def Let_def rt_ok_mqtt split: prod.splits)
qed

lemma host_Publish_ok [wf_intro]: "rt_ok r \<Longrightarrow> rt_ok (snd (host_Publish env cid req r))"
proof -
  assume r: "rt_ok r"
  have "mgr_ok (snd (mgr_Publish env req cid (rt_mqtt r)))"
    unfolding mgr_Publish_def using conn_step_client_ok [of _ "OpPublish env req"] r
    by (intro with_conn_ok) (auto simp: rt_ok_def)
  with r show ?thesis
    by (cases "mgr_Publish env req cid (rt_mqtt r)") (simp add: host_Publish_def rt_ok_mqtt split: sum.splits)
qed

section \<open>Any use of the host\<close>

lemma rt_ok_mgr: "rt_ok r \<Longrightarrow> mgr_ok (rt_mqtt r)"
  by (simp add: rt_ok_def)

datatype 'v rt_op =
    RSetEnabled Env string bool | RSaveSettings Env string "'v settings" | RStatus Env "string list" Status
  | RMessage Message | RWork string | RSubscribe Env string string "Subscription list"
  | RUnsubscribe Env string string "string list" | RPublish Env string PublishRequest | RManager mgr_op
  | RStop Env nat "string list"

fun rt_step :: "'v rt_op \<Rightarrow> 'v Runtime \<Rightarrow> 'v Runtime" where
  "rt_step (RSetEnabled env i on) r = snd (SetEnabled env i on r)"
| "rt_step (RSaveSettings env i st) r = snd (SaveSettings env i st r)"
| "rt_step (RStatus env ids st) r = onStatus env ids st r"
| "rt_step (RMessage m) r = dispatch m r"
| "rt_step (RWork i) r = snd (work i r)"
| "rt_step (RSubscribe env i cid subs) r = snd (host_Subscribe env i cid subs r)"
| "rt_step (RUnsubscribe env i cid fs) r = snd (host_Unsubscribe env i cid fs r)"
| "rt_step (RPublish env cid req) r = snd (host_Publish env cid req r)"
| "rt_step (RManager op) r = r\<lparr>rt_mqtt := mgr_step op (rt_mqtt r)\<rparr>"
| "rt_step (RStop env k ids) r = Stop env k ids r"

text \<open>A host before it starts: the compiled-in plugins, the manager and what the tables hold.\<close>

definition NewRuntime ::
    "(string \<times> 'v PluginDef) list \<Rightarrow> Manager \<Rightarrow> (string \<rightharpoonup> bool \<times> 'v settings) \<Rightarrow> 'v Runtime" where
  "NewRuntime reg m saved =
     \<lparr>rt_registry = reg, rt_instances = Map.empty, rt_mqtt = m, rt_saved = saved, rt_state = Map.empty, rt_emitted = []\<rparr>"

definition rt_run :: "'v rt_op list \<Rightarrow> 'v Runtime \<Rightarrow> 'v Runtime" where
  "rt_run ops r = fold rt_step ops r"

lemma Stop_ok [wf_intro]: "rt_ok r \<Longrightarrow> rt_ok (Stop env k ids r)"
proof -
  assume r: "rt_ok r"
  have "rt_ok (fold (\<lambda>i r. snd (stopInstance env i r)) ids s)" if "rt_ok s" for s
    using that by (induction ids arbitrary: s) (auto intro: stopInstance_ok)
  moreover have "mgr_ok (RemoveObserver k (rt_mqtt r))"
    using mgr_step_ok [of "rt_mqtt r" "MRemoveObserver k"] r by (simp add: rt_ok_def)
  ultimately show ?thesis unfolding Stop_def using rt_ok_mqtt [OF r] by blast
qed

lemma rt_step_ok: "rt_ok r \<Longrightarrow> rt_ok (rt_step op r)"
  by (cases op)
    (auto simp: onStatus_def intro: wf_intro mgr_step_ok rt_ok_mqtt rt_ok_mgr)

lemma load_plugin_ok:
  assumes r: "rt_ok r" and p: "map_of (rt_registry r) i = Some p"
  shows "rt_ok (load_plugin env defaults (i, p) r)"
proof -
  obtain on st where os: "(case rt_saved r i of Some s \<Rightarrow> s
      | None \<Rightarrow> (case defaults i of Some d \<Rightarrow> d | None \<Rightarrow> (False, Map.empty))) = (on, st)" by (cases rule: prod.exhaust)
  let ?x = "new_instance\<lparr>pi_enabled := on, pi_settings := applySchemaDefaults (pl_schema p) st\<rparr>"
  let ?r = "r\<lparr>rt_instances := (rt_instances r)(i \<mapsto> ?x)\<rparr>"
  have x: "instance_ok ?x \<and> \<not> pi_running ?x \<and> saved_ok ?r i ?x"
    using os p by (auto simp: instance_ok_def new_instance_def saved_ok_def lookup_plugin_def split: option.splits)
  have "rt_ok ?r"
    unfolding rt_ok_def
  proof (intro conjI allI impI)
    fix j y assume y: "rt_instances ?r j = Some y"
    have *: "instance_ok y \<and> (pi_running y \<longrightarrow> pi_enabled y) \<and> saved_ok ?r j y"
    proof (cases "j = i")
      case False
      with y r have "instance_ok y \<and> (pi_running y \<longrightarrow> pi_enabled y) \<and> saved_ok r j y" by (simp add: rt_ok_def)
      then show ?thesis by (simp add: saved_ok_def lookup_plugin_def)
    qed (use x y in auto)
    from * show "instance_ok y" by simp
    from * show "pi_enabled y" if "pi_running y" using that by simp
    from * show "saved_ok ?r j y" by simp
  qed (use r in \<open>simp add: rt_ok_def\<close>)
  moreover have "on \<Longrightarrow> rt_ok (snd (start_plugin env i ?r))"
    by (rule start_plugin_ok [OF calculation]) (simp, simp add: new_instance_def)
  ultimately show ?thesis by (cases on) (simp_all add: load_plugin_def os Let_def)
qed

lemma load_plugin_registry [simp]: "rt_registry (load_plugin env defaults ip r) = rt_registry r"
  by (cases ip) (auto simp: load_plugin_def Let_def start_plugin_fields split: prod.splits)

lemma load_loop_ok:
  "rt_ok r \<Longrightarrow> \<forall>(i, p) \<in> set xs. map_of (rt_registry r) i = Some p \<Longrightarrow> rt_ok (fold (load_plugin env defaults) xs r)"
proof (induction xs arbitrary: r)
  case (Cons ip xs)
  obtain i p where ip: "ip = (i, p)" by (cases ip)
  with Cons.prems have "rt_ok (load_plugin env defaults ip r)" by (simp add: load_plugin_ok)
  from Cons.IH [OF this] Cons.prems(2) show ?case by simp
qed simp

lemma Start_ok:
  assumes "rt_ok r" "distinct (map fst (rt_registry r))"
  shows "rt_ok (Start env defaults r)"
proof -
  let ?s = "fold (load_plugin env defaults) (sort_key fst (rt_registry r)) r"
  have "rt_ok ?s" using assms by (intro load_loop_ok) auto
  moreover have "mgr_ok (snd (AddObserver ob (rt_mqtt ?s)))" for ob
    using mgr_step_ok [of "rt_mqtt ?s" "MAddObserver ob"] calculation by (simp add: rt_ok_def)
  ultimately show ?thesis by (simp add: Start_def Let_def rt_ok_mqtt)
qed

lemma rt_run_ok:
  assumes "mgr_ok m" "distinct (map fst reg)"
  shows "rt_ok (rt_run ops (Start env defaults (NewRuntime reg m saved)))"
proof -
  have "rt_ok (Start env defaults (NewRuntime reg m saved))"
    by (rule Start_ok) (use assms in \<open>simp_all add: rt_ok_def NewRuntime_def\<close>)
  then show ?thesis unfolding rt_run_def by (induction ops rule: rev_induct) (simp_all add: rt_step_ok)
qed

text \<open>
  C20. However the host is used after it started (plugins switched on and off, settings saved, messages,
  reconnects, the manager's own operations, what plugins ask for), whether plugins fail to start or to
  close: a plugin that is switched off is not running, one that is not running holds no filter and no
  queued message, a running one carries no error, no queue outgrows its channel, and the saved row of a
  plugin is its switch and its settings (up to the defaults, which are filled in again when they are read).
\<close>

theorem plugin_host_invariant:
  assumes "mgr_ok m" and "distinct (map fst reg)"
    and "rt_instances (rt_run ops (Start env defaults (NewRuntime reg m saved))) i = Some x"
  shows "(pi_running x \<longrightarrow> pi_enabled x \<and> pi_lastErr x = []) \<and>
    (\<not> pi_running x \<longrightarrow> pi_subs x = [] \<and> pi_dynamic x = [] \<and> pi_queue x = []) \<and>
    length (pi_queue x) \<le> queueSize \<and>
    (\<exists>p. lookup_plugin i (rt_run ops (Start env defaults (NewRuntime reg m saved))) = Some p \<and>
       (\<forall>on st. rt_saved (rt_run ops (Start env defaults (NewRuntime reg m saved))) i = Some (on, st) \<longrightarrow>
          pi_enabled x = on \<and> pi_settings x = applySchemaDefaults (pl_schema p) st))"
proof -
  let ?r = "rt_run ops (Start env defaults (NewRuntime reg m saved))"
  from rt_run_ok [OF assms(1,2), of ops env defaults saved] assms(3)
  have "instance_ok x" "pi_running x \<longrightarrow> pi_enabled x" "saved_ok ?r i x" by (simp_all add: rt_ok_def)
  then show ?thesis unfolding instance_ok_def saved_ok_def by blast
qed

section \<open>Delivery\<close>

definition wants_topic :: "'v Instance \<Rightarrow> string \<Rightarrow> bool" where
  "wants_topic x t \<longleftrightarrow> matchesAny (pi_subs x) t \<or> matchesDynamic (pi_dynamic x) t"

lemma dispatch_loop:
  "rt_instances (fold dispatch ms r) i = map_option (fold dispatch_to ms) (rt_instances r i)"
  by (induction ms arbitrary: r) (simp_all add: dispatch_def option.map_comp comp_def option.map_id0)

lemma enqueue_message_fields [simp]:
  "pi_running (enqueue_message m x) = pi_running x" "wants_topic (enqueue_message m x) = wants_topic x"
  by (simp_all add: enqueue_message_def wants_topic_def fun_eq_iff)

lemma dispatch_to_running:
  "pi_running x \<Longrightarrow> fold dispatch_to ms x = fold enqueue_message (filter (\<lambda>m. wants_topic x (msg_topic m)) ms) x"
proof (induction ms arbitrary: x)
  case (Cons m ms)
  have "dispatch_to m x = (if wants_topic x (msg_topic m) then enqueue_message m x else x)"
    using Cons.prems by (simp add: dispatch_to_def wants_topic_def)
  with Cons.IH [of x] Cons.IH [of "enqueue_message m x"] Cons.prems show ?case by simp
qed simp

lemma dispatch_to_stopped: "\<not> pi_running x \<Longrightarrow> fold dispatch_to ms x = x"
  by (induction ms) (simp_all add: dispatch_to_def)

text \<open>
  A burst of messages between two steps of a plugin's worker: a running plugin finds, behind what was
  queued, the messages that match one of its filters, in order, each once however many filters match it,
  up to the capacity of the channel; the rest are counted as dropped, and no message of another topic or
  to a plugin that is stopped is queued at all.
\<close>

theorem plugin_delivery:
  assumes "rt_instances r i = Some x" and "length (pi_queue x) \<le> queueSize"
  shows "\<exists>y. rt_instances (fold dispatch ms r) i = Some y \<and>
    (if pi_running x
     then pi_queue y = take queueSize (pi_queue x @ filter (\<lambda>m. wants_topic x (msg_topic m)) ms) \<and>
       length (pi_queue y) + pi_dropped y =
         length (pi_queue x) + pi_dropped x + length (filter (\<lambda>m. wants_topic x (msg_topic m)) ms)
     else y = x)"
proof (cases "pi_running x")
  case True
  let ?ms = "filter (\<lambda>m. wants_topic x (msg_topic m)) ms"
  from True assms(1) have "rt_instances (fold dispatch ms r) i = Some (fold enqueue_message ?ms x)"
    by (simp add: dispatch_loop dispatch_to_running)
  with True pque.sends_items [OF assms(2), of ?ms] pque.sends_accounted [of ?ms x] show ?thesis
    by (simp only: simp_thms if_True option.inject ex_simps)
qed (use assms(1) in \<open>simp add: dispatch_loop dispatch_to_stopped\<close>)

section \<open>Examples\<close>

definition ex_plugin :: "nat PluginDef" where
  "ex_plugin = \<lparr>pl_schema = [(''interval'', Some 5), (''name'', None)],
     pl_init = (\<lambda>st. if st ''interval'' = Some 0 then Some ''bad'' else None),
     pl_subs = (\<lambda>st. [qos0_sub ''a/#'']), pl_closeErr = None\<rparr>"

definition ex_mqtt :: Manager where
  "ex_mqtt = store_conn ''c1'' (newConn ex_env ex_conn_spec) NewManager"

definition ex_runtime :: "nat Runtime" where
  "ex_runtime = (rt_run [] (Start ex_env Map.empty
     (NewRuntime [(''p'', ex_plugin)] NewManager [''p'' \<mapsto> (True, Map.empty)])))\<lparr>rt_mqtt := ex_mqtt\<rparr>"

lemma ex_mqtt_ok: "mgr_ok ex_mqtt"
  unfolding ex_mqtt_def by (intro store_ok NewManager_ok client_ok_new)

lemma ex_mqtt_Get: "Get ''c1'' ex_mqtt = Some (newConn ex_env ex_conn_spec)"
  by (simp add: ex_mqtt_def Get_store newConn_def)

definition ex_instance :: "nat Instance" where
  "ex_instance = \<lparr>pi_settings = [''interval'' \<mapsto> 5], pi_enabled = True, pi_running = True, pi_lastErr = [],
     pi_subs = [qos0_sub ''a/#''], pi_dynamic = [], pi_queue = [], pi_dropped = 0\<rparr>"

lemmas ex_rt_defs = ex_runtime_def rt_run_def Start_def NewRuntime_def load_plugin_def start_plugin_def
  new_instance_def upd_instance_def lookup_plugin_def ex_plugin_def applySchemaDefaults_def ex_instance_def

lemma ex_runtime_instances: "rt_instances ex_runtime = [''p'' \<mapsto> ex_instance]"
  by (simp add: ex_rt_defs Let_def fun_upd_def fun_eq_iff)

lemma ex_filter_valid: "validate_subs False [qos0_sub ''a/#''] = None"
  by (simp add: qos0_sub_def ValidateFilter_def valid_utf8_ascii contains_any_def maxTopicBytes_def)

theorem plugin_filters_wanted_witness:
  "map_option ephemeral_filters (Get ''c1'' (rt_mqtt (onStatus ex_env [''p'']
     ((cn_status (newConn ex_env ex_conn_spec))\<lparr>st_state := StateConnected\<rparr>) ex_runtime))) = Some {''a/#''}"
proof -
  let ?st = "(cn_status (newConn ex_env ex_conn_spec))\<lparr>st_state := StateConnected\<rparr>"
  have f: "(\<Union>i. plugin_filters ex_runtime i) = {''a/#''}"
    by (auto simp: plugin_filters_def ex_runtime_instances ex_instance_def ex_filter_valid simp del: validate_subs.simps
        split: option.splits if_splits)
      (auto simp: qos0_sub_def)
  have g: "Get ''c1'' (rt_mqtt ex_runtime) = Some (newConn ex_env ex_conn_spec)" "mgr_ok (rt_mqtt ex_runtime)"
    by (simp_all add: ex_runtime_def ex_mqtt_Get ex_mqtt_ok)
  have e: "ephemeral_filters (newConn ex_env ex_conn_spec) = {}"
    by (simp add: ephemeral_filters_def newConn_def)
  from plugin_filters_wanted [OF g(2), of ?st "[''p'']" ex_env "''c1''"] show ?thesis
    by (simp add: ex_runtime_instances g(1) e f)
qed

definition ex_saved_run :: "nat Runtime" where
  "ex_saved_run = rt_run [RSaveSettings ex_env ''p'' [''interval'' \<mapsto> 0]]
     (Start ex_env Map.empty (NewRuntime [(''p'', ex_plugin)] NewManager [''p'' \<mapsto> (True, Map.empty)]))"

lemma ex_saved_run_instance:
  "rt_instances ex_saved_run ''p'' = Some (ex_instance\<lparr>pi_settings := [''interval'' \<mapsto> 0], pi_running := False,
     pi_subs := [], pi_lastErr := ''bad''\<rparr>)"
  by (simp add: ex_saved_run_def ex_rt_defs Let_def SaveSettings_def stopInstance_def)

theorem plugin_host_invariant_witness:
  "\<exists>x p. rt_instances ex_saved_run ''p'' = Some x \<and> \<not> pi_running x \<and> pi_subs x = [] \<and>
     lookup_plugin ''p'' ex_saved_run = Some p \<and> pi_lastErr x = ''bad''"
  using plugin_host_invariant [of NewManager "[(''p'', ex_plugin)]"
      "[RSaveSettings ex_env ''p'' [''interval'' \<mapsto> 0]]" ex_env Map.empty "[''p'' \<mapsto> (True, Map.empty)]" "''p''"]
    ex_saved_run_instance
  by (auto simp: ex_saved_run_def [symmetric] NewManager_ok)

lemma ex_match: "MatchFilter ''a/#'' ''a/b''" "\<not> MatchFilter ''a/#'' ''c''"
  by code_simp+

theorem plugin_delivery_witness:
  "\<exists>y. rt_instances (fold dispatch [ex_msg ''a/b'' [1] 0, ex_msg ''c'' [2] 0] ex_runtime) ''p'' = Some y \<and>
     pi_queue y = [ex_msg ''a/b'' [1] 0]"
proof -
  let ?ms = "[ex_msg ''a/b'' [1] 0, ex_msg ''c'' [2] 0]"
  have "filter (\<lambda>m. wants_topic ex_instance (msg_topic m)) ?ms = [ex_msg ''a/b'' [1] 0]"
    by (simp add: wants_topic_def matchesAny_def matchesDynamic_def ex_instance_def ex_msg_def qos0_sub_def ex_match)
  moreover have "pi_running ex_instance" "pi_queue ex_instance = []" by (simp_all add: ex_instance_def)
  ultimately show ?thesis
    using plugin_delivery [of ex_runtime "''p''" ex_instance ?ms] by (auto simp: ex_runtime_instances queueSize_def)
qed

section \<open>Where stopping and reconnecting fall short\<close>

text \<open>
  Stopping a plugin takes its filters off the connections without asking who else wants them: a filter a
  running plugin shares with it is dropped, until the next reconnect.
\<close>

definition ex_shared :: "nat Runtime" where
  "ex_shared = Start ex_env Map.empty
     (NewRuntime [(''p'', ex_plugin), (''q'', ex_plugin)] ex_mqtt [''p'' \<mapsto> (True, Map.empty), ''q'' \<mapsto> (True, Map.empty)])"

lemma on_one_connection:
  "mg_conns m = [(k, c)] \<Longrightarrow> mg_conns (on_connections f m) = [(k, (snd (f c))\<lparr>cn_out := []\<rparr>)]"
  by (simp add: on_connections_def with_conn_def store_conn_def Get_def split: prod.splits)

definition ex_conn :: "(string \<times> Subscription) list \<Rightarrow> Conn" where
  "ex_conn es = (newConn ex_env ex_conn_spec)\<lparr>cn_ephemeral := es\<rparr>"

lemma ex_conn_subscribe:
  "(snd (SubscribeEphemeral ex_env [qos0_sub ''a/#''] (ex_conn es)))\<lparr>cn_out := []\<rparr> =
     ex_conn (put_ephemeral (qos0_sub ''a/#'') es)"
  by (simp add: SubscribeEphemeral_def ex_filter_valid ex_conn_def newConn_def Let_def del: validate_subs.simps)

lemma ex_conn_unsubscribe:
  "(snd (UnsubscribeEphemeral ex_env fs (ex_conn es)))\<lparr>cn_out := []\<rparr> = ex_conn (filter (\<lambda>(f, s). f \<notin> set fs) es)"
  by (simp add: UnsubscribeEphemeral_def ex_conn_def newConn_def Let_def)

lemma ex_mqtt_conns: "mg_conns ex_mqtt = [(''c1'', ex_conn [])]"
  by (simp add: ex_mqtt_def store_conn_def NewManager_def ex_conn_def newConn_def)

lemma AddObserver_conns [simp]: "mg_conns (snd (AddObserver ob m)) = mg_conns m"
  by (simp add: AddObserver_def)

lemma ex_shared_state:
  "rt_instances ex_shared = [''p'' \<mapsto> ex_instance, ''q'' \<mapsto> ex_instance]"
  "mg_conns (rt_mqtt ex_shared) = [(''c1'', ex_conn [(''a/#'', qos0_sub ''a/#'')])]"
proof -
  show "rt_instances ex_shared = [''p'' \<mapsto> ex_instance, ''q'' \<mapsto> ex_instance]"
    by (simp add: ex_shared_def ex_rt_defs Let_def fun_eq_iff)
  have "put_ephemeral (qos0_sub ''a/#'') [] = [(''a/#'', qos0_sub ''a/#'')]"
    "put_ephemeral (qos0_sub ''a/#'') [(''a/#'', qos0_sub ''a/#'')] = [(''a/#'', qos0_sub ''a/#'')]"
    by (simp_all add: qos0_sub_def)
  then show "mg_conns (rt_mqtt ex_shared) = [(''c1'', ex_conn [(''a/#'', qos0_sub ''a/#'')])]"
    by (simp add: ex_shared_def ex_rt_defs Let_def applySubscriptions_def on_one_connection ex_mqtt_conns ex_conn_subscribe)
qed

lemma stop_drops_shared_filter:
  "let r = snd (stopInstance ex_env ''p'' ex_shared) in
     map_option pi_running (rt_instances r ''q'') = Some True \<and> plugin_filters r ''q'' = {''a/#''} \<and>
     map_option ephemeral_filters (Get ''c1'' (rt_mqtt r)) = Some {}"
proof -
  define r where "r = snd (stopInstance ex_env ''p'' ex_shared)"
  have q: "rt_instances r ''q'' = Some ex_instance"
    by (simp add: r_def stopInstance_instances ex_shared_state)
  have "mg_conns (rt_mqtt r) = [(''c1'', ex_conn [])]"
    by (simp add: r_def stopInstance_def ex_shared_state Let_def on_one_connection ex_conn_unsubscribe)
      (simp add: ex_instance_def qos0_sub_def)
  then have "Get ''c1'' (rt_mqtt r) = Some (ex_conn [])" by (simp add: Get_def)
  with q show ?thesis unfolding r_def [symmetric] Let_def
    by (simp add: plugin_filters_def ex_instance_def ex_filter_valid ephemeral_filters_def ex_conn_def del: validate_subs.simps)
      (simp add: qos0_sub_def)
qed

text \<open>Filters a plugin asked for while it ran are not put on a connection that comes up later.\<close>

lemma dynamic_filter_not_reapplied:
  "let r = (snd (host_Subscribe ex_env ''p'' [] [qos0_sub ''b''] (ex_runtime\<lparr>rt_mqtt := NewManager\<rparr>)))\<lparr>rt_mqtt := ex_mqtt\<rparr> in
     map_option pi_dynamic (rt_instances r ''p'') = Some [(''b'', qos0_sub ''b'')] \<and>
     map_option ephemeral_filters (Get ''c1'' (rt_mqtt (ApplyAll ex_env [''p''] r))) = Some {''a/#''}"
proof -
  define r where "r = (snd (host_Subscribe ex_env ''p'' [] [qos0_sub ''b''] (ex_runtime\<lparr>rt_mqtt := NewManager\<rparr>)))\<lparr>rt_mqtt := ex_mqtt\<rparr>"
  have x: "rt_instances r ''p'' = Some (ex_instance\<lparr>pi_dynamic := [(''b'', qos0_sub ''b'')]\<rparr>)"
    unfolding r_def host_Subscribe_def Let_def
    by (simp add: ex_runtime_instances upd_instance_def forEachConnection_def NewManager_def)
      (simp add: ex_instance_def qos0_sub_def)
  have m: "rt_mqtt r = ex_mqtt" by (simp add: r_def)
  with x have "mg_conns (rt_mqtt (ApplyAll ex_env [''p''] r)) = [(''c1'', ex_conn [(''a/#'', qos0_sub ''a/#'')])]"
    by (simp add: ApplyAll_def applySubscriptions_def ex_instance_def on_one_connection ex_mqtt_conns ex_conn_subscribe)
      (simp add: qos0_sub_def)
  then have "map_option ephemeral_filters (Get ''c1'' (rt_mqtt (ApplyAll ex_env [''p''] r))) = Some {''a/#''}"
    by (simp add: Get_def ephemeral_filters_def ex_conn_def)
  with x show ?thesis unfolding r_def [symmetric] Let_def by simp
qed

end
