(* ===== verification/PlcMappings.thy ===== *)
theory PlcMappings
  imports PlcFacts PluginFacts
begin

text \<open>
  The names people give to points: the key they are stored under is read back, and however names are given
  and cleared between messages, a restart loads exactly the names the plugin had.
\<close>

section \<open>Keys\<close>

lemma takeWhile_bar: "bar \<notin> set u \<Longrightarrow> takeWhile (\<lambda>c. c \<noteq> bar) (u @ bar # v) = u"
  by (induction u) auto

lemma parse_mappingKey: "bar \<notin> set cid \<Longrightarrow> name \<noteq> [] \<Longrightarrow> parseMappingKey (mappingKey cid name) = Some (cid, name)"
  by (simp add: parseMappingKey_def mappingKey_def trim_prefix_def Let_def takeWhile_bar)

lemma parseMappingKey_Some:
  assumes "parseMappingKey k = Some (cid, name)"
  shows "k = mappingKey cid name \<and> bar \<notin> set cid \<and> name \<noteq> []"
proof -
  let ?P = "\<lambda>c. c \<noteq> bar"
  from assms obtain rest where k: "k = mappingKeyPrefix @ rest"
    by (auto simp: parseMappingKey_def prefix_def split: if_splits)
  with assms have *: "cid = takeWhile ?P rest" "name = drop (length cid + 1) rest"
    "length cid \<noteq> length rest" "length cid \<noteq> length rest - 1"
    by (auto simp: parseMappingKey_def trim_prefix_def Let_def split: if_splits)
  have split: "rest = cid @ dropWhile ?P rest" by (simp add: *(1))
  with *(3) obtain c w where cw: "dropWhile ?P rest = c # w" by (cases "dropWhile ?P rest") auto
  then have "c = bar" using hd_dropWhile [of ?P rest] by simp
  moreover have "name = w" using *(2) split cw by (metis append_eq_conv_conj drop_Suc_Cons Suc_eq_plus1 append_Cons
      append_Nil drop_append diff_add_inverse drop_all drop0 le_add1)
  moreover have "w \<noteq> []" using *(4) split cw by (metis One_nat_def diff_Suc_1 length_Cons length_append list.size(3)
      add_Suc_right Nat.add_0_right)
  moreover have "bar \<notin> set cid" using *(1) by (metis set_takeWhileD)
  ultimately show ?thesis using k split cw by (simp add: mappingKey_def)
qed

section \<open>Loading\<close>

definition point_name :: "string \<Rightarrow> string \<Rightarrow> Registry \<Rightarrow> Mapping option" where
  "point_name cid name r = map_of (cs_mappings (conn_state cid r)) name"

lemma load_mapping_name:
  "point_name cid name (snd (load_mapping read (k, v) br)) =
     (if parseMappingKey k = Some (cid, name) \<and> read v \<noteq> None then Some ((the (read v))\<lparr>mp_name := name\<rparr>)
      else point_name cid name (snd br))"
  by (auto simp: load_mapping_def point_name_def Let_def conn_state_put update_conv' split: option.splits)

lemma load_loop_name:
  assumes "distinct (map fst kvs)"
  shows "point_name cid name (snd (fold (load_mapping read) kvs br)) =
    (case (if bar \<notin> set cid \<and> name \<noteq> [] then Option.bind (map_of kvs (mappingKey cid name)) read else None) of
       Some m \<Rightarrow> Some (m\<lparr>mp_name := name\<rparr>) | None \<Rightarrow> point_name cid name (snd br))"
  using assms
proof (induction kvs arbitrary: br)
  case (Cons kv kvs)
  obtain k v where kv: "kv = (k, v)" by (cases kv)
  have key: "parseMappingKey k = Some (cid, name) \<longleftrightarrow> k = mappingKey cid name \<and> bar \<notin> set cid \<and> name \<noteq> []"
    using parseMappingKey_Some parse_mappingKey by blast
  have new: "k = mappingKey cid name \<Longrightarrow> map_of kvs (mappingKey cid name) = None"
    using Cons.prems kv by (auto simp: map_of_eq_None_iff)
  from Cons.IH [of "load_mapping read kv br"] Cons.prems key new show ?case
    unfolding kv fold_Cons comp_def load_mapping_name
    by (cases "k = mappingKey cid name"; cases "read v") (auto simp: load_mapping_name split: option.splits)
qed simp

section \<open>Any use\<close>

datatype plc_op = PlcPut "Role option" "MappingRequest option" | PlcHear Codec time Message

text \<open>One request to name a point, whose write succeeds, or one message.\<close>

fun plc_step :: "(Mapping \<Rightarrow> string) \<Rightarrow> plc_op \<Rightarrow> PlcPlugin \<times> SettingValue Runtime \<Rightarrow> PlcPlugin \<times> SettingValue Runtime" where
  "plc_step enc (PlcPut user body) (p, r) = snd (handlePutMapping enc True user body p r)"
| "plc_step enc (PlcHear cd now m) (p, r) = (plc_HandleMessage cd now m p, r)"

definition plain_op :: "Manager \<Rightarrow> plc_op \<Rightarrow> bool" where
  "plain_op m op \<longleftrightarrow> (case op of
     PlcPut user (Some req) \<Rightarrow> (\<forall>cid. only_connection (mr_connectionID req) m = Some cid \<longrightarrow> bar \<notin> set cid) | _ \<Rightarrow> True)"

definition mappings_saved :: "(Mapping \<Rightarrow> string) \<Rightarrow> PlcPlugin \<Rightarrow> SettingValue Runtime \<Rightarrow> bool" where
  "mappings_saved enc p r \<longleftrightarrow>
     (\<forall>cid name. bar \<notin> set cid \<and> name \<noteq> [] \<longrightarrow>
        rt_state r (plc_id, mappingKey cid name) = map_option enc (point_name cid name (pc_registry p))) \<and>
     (\<forall>cid name m. point_name cid name (pc_registry p) = Some m \<longrightarrow> bar \<notin> set cid \<and> name \<noteq> [] \<and> mp_name m = name)"

lemma branch_mappings:
  "applyLight cd k rt t pl rc c = Some c' \<Longrightarrow> cs_mappings c' = cs_mappings c"
  "applyMeta cd n pl c = Some c' \<Longrightarrow> cs_mappings c' = cs_mappings c"
  "applyShade cd k rt t pl rc c = Some c' \<Longrightarrow> cs_mappings c' = cs_mappings c"
  "applyActuator cd k rt t pl rc c = Some c' \<Longrightarrow> cs_mappings c' = cs_mappings c"
  "applyElectricity cd k rt t pl rc c = Some c' \<Longrightarrow> cs_mappings c' = cs_mappings c"
  "applyWatchdog cd k t pl rc c = Some c' \<Longrightarrow> cs_mappings c' = cs_mappings c"
  "applyBridge cd k t pl rc c = Some c' \<Longrightarrow> cs_mappings c' = cs_mappings c"
  "applyPoint cd k kind rt t pl rc c j = Some (c', j') \<Longrightarrow> cs_mappings c' = cs_mappings c"
  by (auto simp: applyLight_def applyMeta_def applyShade_def applyActuator_def applyElectricity_def applyWatchdog_def
      applyBridge_def applyPoint_def Let_def split: option.splits if_splits)

lemma applyMeter_mappings: "cs_mappings (snd (applyMeter cd k rt t pl rc c)) = cs_mappings c"
  by (simp add: applyMeter_def Let_def split: option.splits)

lemma applyPLC_mappings: "applyPLC cd k rt t pl rc c j = Some (c', j') \<Longrightarrow> cs_mappings c' = cs_mappings c"
  unfolding applyPLC_def with_journal_def by (auto split: if_splits option.splits dest: branch_mappings)

lemma Apply_names: "point_name cid name (snd (Apply cd pre mpre k t pl rc r)) = point_name cid name r"
proof -
  have "applyMeter cd k rt t pl rc c = (b, c') \<Longrightarrow> cs_mappings c' = cs_mappings c" for rt c b c'
    using applyMeter_mappings [of cd k rt t pl rc c] by simp
  then show ?thesis
    by (auto simp: Apply_def point_name_def Let_def conn_state_put dest: applyPLC_mappings split: option.splits prod.splits)
qed

lemma SetMapping_name:
  "point_name cid name (SetMapping k n m r) =
     (if trim_space n \<noteq> [] \<and> cid = k \<and> name = trim_space n
      then (if mapping_empty m then None else Some (m\<lparr>mp_name := name\<rparr>)) else point_name cid name r)"
  by (simp add: SetMapping_def point_name_def Let_def conn_state_put update_conv' delete_conv')

lemma mappingKey_inj:
  "bar \<notin> set c \<Longrightarrow> n \<noteq> [] \<Longrightarrow> bar \<notin> set c' \<Longrightarrow> n' \<noteq> [] \<Longrightarrow> mappingKey c n = mappingKey c' n' \<longleftrightarrow> c = c' \<and> n = n'"
  by (metis option.inject parse_mappingKey prod.inject)

lemma plugin_table_simps [simp]:
  "rt_mqtt (PluginSet i k v r) = rt_mqtt r" "rt_mqtt (PluginDelete i k r) = rt_mqtt r"
  by (simp_all add: PluginSet_def PluginDelete_def)

lemma plc_step_mqtt: "rt_mqtt (snd (plc_step enc op pr)) = rt_mqtt (snd pr)"
  by (cases op; cases pr) (auto simp: handlePutMapping_def Let_def split: option.splits)

lemma plc_step_saved:
  assumes "mappings_saved enc p r" "plain_op (rt_mqtt r) op" "plc_step enc op (p, r) = (p', r')"
  shows "mappings_saved enc p' r'"
proof (cases op)
  case (PlcHear cd now m)
  with assms(3) have "r' = r" "\<And>c n. point_name c n (pc_registry p') = point_name c n (pc_registry p)"
    by (auto simp: plc_HandleMessage_def Let_def Apply_names case_prod_unfold)
  with assms(1) show ?thesis by (simp add: mappings_saved_def)
next
  case (PlcPut user body)
  show ?thesis
  proof (cases "is_operator user \<and> (\<exists>req cid. body = Some req \<and> trim_space (mr_name req) \<noteq> [] \<and>
      only_connection (mr_connectionID req) (rt_mqtt r) = Some cid)")
    case False
    with assms PlcPut show ?thesis
      by (cases body) (auto simp: handlePutMapping_def Let_def split: option.splits if_splits)
  next
    case True
    then obtain req cid where b: "body = Some req" "trim_space (mr_name req) \<noteq> []"
      "only_connection (mr_connectionID req) (rt_mqtt r) = Some cid" by blast
    let ?n = "trim_space (mr_name req)"
    define m where "m = \<lparr>mp_name = ?n, mp_label = trim_space (mr_label req), mp_location = trim_space (mr_location req),
      mp_type = trim_space (mr_type req), mp_notes = trim_space (mr_notes req)\<rparr>"
    have cid: "bar \<notin> set cid" using assms(2) PlcPut b by (simp add: plain_op_def)
    have p': "pc_registry p' = SetMapping cid ?n m (pc_registry p)"
      and r': "r' = (if mapping_empty m then PluginDelete plc_id (mappingKey cid ?n) r
        else PluginSet plc_id (mappingKey cid ?n) (enc m) r)"
      using assms(3) PlcPut b True by (auto simp: handlePutMapping_def m_def Let_def)
    have "mp_name m = ?n" by (simp add: m_def)
    then have mn: "m\<lparr>mp_name := ?n\<rparr> = m" by simp
    have "rt_state r' (plc_id, mappingKey c n) = map_option enc (point_name c n (pc_registry p'))"
      if "bar \<notin> set c" "n \<noteq> []" for c n
      using assms(1) that cid b(2) mappingKey_inj [OF that cid b(2)] mn
      by (auto simp: p' r' SetMapping_name mappings_saved_def PluginSet_def PluginDelete_def)
    moreover have "bar \<notin> set c \<and> n \<noteq> [] \<and> mp_name x = n" if "point_name c n (pc_registry p') = Some x" for c n x
      using that assms(1) cid b(2) by (auto simp: p' SetMapping_name mappings_saved_def split: if_splits)
    ultimately show ?thesis unfolding mappings_saved_def by blast
  qed
qed

definition plc_run ::
    "(Mapping \<Rightarrow> string) \<Rightarrow> plc_op list \<Rightarrow> PlcPlugin \<times> SettingValue Runtime \<Rightarrow> PlcPlugin \<times> SettingValue Runtime" where
  "plc_run enc ops pr = fold (plc_step enc) ops pr"

lemma plc_run_saved:
  assumes "mappings_saved enc (fst pr) (snd pr)" "\<forall>op \<in> set ops. plain_op (rt_mqtt (snd pr)) op"
  shows "mappings_saved enc (fst (plc_run enc ops pr)) (snd (plc_run enc ops pr))"
  using assms
proof (induction ops arbitrary: pr)
  case (Cons op ops)
  have "mappings_saved enc (fst (plc_step enc op pr)) (snd (plc_step enc op pr))"
    using plc_step_saved [of enc "fst pr" "snd pr" op] Cons.prems by (cases "plc_step enc op pr") auto
  from Cons.IH [OF this] Cons.prems(2) show ?case by (simp add: plc_run_def plc_step_mqtt)
qed (simp add: plc_run_def)

lemma plc_init_empty: "mappings_saved enc (plc_init cd read st []) r"
  if "\<forall>k. rt_state r (plc_id, k) = None"
  using that by (simp add: mappings_saved_def plc_init_def LoadMappings_def Let_def point_name_def conn_state_def
      NewRegistry_def empty_state_def)

text \<open>
  Names survive a restart: after any requests to name and clear points, between any messages, starting
  the plugin again from what its table then holds, with whatever settings, gives every point of every
  connection the name it had, and no other; provided each write succeeded, no connection's identifier has a
  bar in it, and a stored name reads back as it was written.
\<close>

theorem mappings_survive_restart:
  assumes "\<And>m. read (enc m) = Some m"
    and "\<forall>k. rt_state r (plc_id, k) = None"
    and "\<forall>op \<in> set ops. plain_op (rt_mqtt r) op"
    and "distinct (map fst stored)"
    and "map_of stored = PluginList plc_id (snd (plc_run enc ops (plc_init cd read st [], r)))"
  shows "point_name cid name (pc_registry (plc_init cd' read st' stored)) =
    point_name cid name (pc_registry (fst (plc_run enc ops (plc_init cd read st [], r))))"
proof -
  obtain p' r' where pr: "plc_run enc ops (plc_init cd read st [], r) = (p', r')" by (rule prod.exhaust)
  from plc_run_saved [of enc "(plc_init cd read st [], r)" ops] plc_init_empty [OF assms(2)] assms(3) pr
  have saved: "mappings_saved enc p' r'" by simp
  have "map_of stored (mappingKey cid name) = rt_state r' (plc_id, mappingKey cid name)"
    using assms(5) pr by (simp add: PluginList_def)
  then have "bar \<notin> set cid \<and> name \<noteq> [] \<Longrightarrow>
      Option.bind (map_of stored (mappingKey cid name)) read = point_name cid name (pc_registry p')"
    using saved assms(1) by (cases "point_name cid name (pc_registry p')") (auto simp: mappings_saved_def)
  moreover have "point_name cid name (NewRegistry n) = None" for n
    by (simp add: point_name_def conn_state_def NewRegistry_def empty_state_def)
  moreover have "point_name cid name (pc_registry p') = Some m \<Longrightarrow> m\<lparr>mp_name := name\<rparr> = m \<and> bar \<notin> set cid \<and> name \<noteq> []" for m
    using saved by (auto simp: mappings_saved_def)
  ultimately show ?thesis
    unfolding pr by (cases "point_name cid name (pc_registry p')")
      (auto simp: plc_init_def Let_def LoadMappings_def load_loop_name [OF assms(4)] split: option.splits)
qed

text \<open>An encoding of mappings for the example: each text after its length in ones.\<close>

definition ex_field :: "string \<Rightarrow> string" where
  "ex_field s = replicate (length s) (CHR ''1'') @ CHR ''0'' # s"

definition ex_split :: "string \<Rightarrow> string \<times> string" where
  "ex_split s = (let n = length (takeWhile (\<lambda>c. c = CHR ''1'') s); rest = drop (n + 1) s in (take n rest, drop n rest))"

lemma takeWhile_run: "y \<noteq> x \<Longrightarrow> takeWhile (\<lambda>c. c = x) (replicate n x @ y # zs) = replicate n x"
  by (induction n) simp_all

lemma ex_split_field [simp]: "ex_split (ex_field s @ rest) = (s, rest)"
proof -
  have "takeWhile (\<lambda>c. c = CHR ''1'') (ex_field s @ rest) = replicate (length s) (CHR ''1'')"
    by (simp add: ex_field_def takeWhile_run)
  then show ?thesis by (simp add: ex_split_def Let_def ex_field_def)
qed

definition ex_enc :: "Mapping \<Rightarrow> string" where
  "ex_enc m = ex_field (mp_name m) @ ex_field (mp_label m) @ ex_field (mp_location m) @ ex_field (mp_type m) @ ex_field (mp_notes m)"

definition ex_read :: "string \<Rightarrow> Mapping option" where
  "ex_read s =
     (let (a, s) = ex_split s; (b, s) = ex_split s; (c, s) = ex_split s; (d, s) = ex_split s; (e, s) = ex_split s
      in Some \<lparr>mp_name = a, mp_label = b, mp_location = c, mp_type = d, mp_notes = e\<rparr>)"

lemma ex_read_enc: "ex_read (ex_enc m) = Some m"
  using ex_split_field [of "mp_notes m" "[]"] by (simp add: ex_read_def ex_enc_def)

definition ex_put :: plc_op where
  "ex_put = PlcPut (Some RoleOperator) (Some \<lparr>mr_connectionID = ''c1'', mr_name = ''DI'', mr_label = ''Kitchen'',
     mr_location = [], mr_type = [], mr_notes = []\<rparr>)"

definition ex_mapping :: Mapping where
  "ex_mapping = \<lparr>mp_name = ''DI'', mp_label = ''Kitchen'', mp_location = [], mp_type = [], mp_notes = []\<rparr>"

definition ex_plc_runtime :: "SettingValue Runtime" where
  "ex_plc_runtime = NewRuntime [] NewManager Map.empty"

lemma ex_put_step:
  "plc_run ex_enc [ex_put] (plc_init ex_codec ex_read Map.empty [], ex_plc_runtime) =
     ((plc_init ex_codec ex_read Map.empty [])\<lparr>pc_registry := SetMapping ''c1'' ''DI'' ex_mapping
        (pc_registry (plc_init ex_codec ex_read Map.empty [])), pc_dirty := True\<rparr>,
      PluginSet plc_id (mappingKey ''c1'' ''DI'') (ex_enc ex_mapping) ex_plc_runtime)"
proof -
  have t: "trim_space ''DI'' = ''DI''" "trim_space ''Kitchen'' = ''Kitchen''" "trim_space [] = []" by code_simp+
  show ?thesis
    by (simp add: plc_run_def ex_put_def handlePutMapping_def is_operator_def AtLeast_def role_rank_def RoleOperator_def
        RoleViewer_def RoleAdmin_def t only_connection_def ex_mapping_def mapping_empty_def Let_def)
qed

theorem mappings_survive_restart_witness:
  "point_name ''c1'' ''DI'' (pc_registry (plc_init ex_codec ex_read Map.empty [(mappingKey ''c1'' ''DI'', ex_enc ex_mapping)])) =
     Some ex_mapping"
proof -
  let ?stored = "[(mappingKey ''c1'' ''DI'', ex_enc ex_mapping)]"
  have t: "trim_space ''DI'' = ''DI''" by code_simp
  have "map_of ?stored = PluginList plc_id (snd (plc_run ex_enc [ex_put] (plc_init ex_codec ex_read Map.empty [], ex_plc_runtime)))"
    unfolding ex_put_step by (simp add: PluginList_def PluginSet_def ex_plc_runtime_def NewRuntime_def fun_eq_iff)
  from mappings_survive_restart [where read = ex_read and enc = ex_enc and ops = "[ex_put]" and stored = ?stored and cid = "''c1''"
      and name = "''DI''" and cd' = ex_codec and st' = Map.empty, OF ex_read_enc _ _ _ this]
  have "point_name ''c1'' ''DI'' (pc_registry (plc_init ex_codec ex_read Map.empty ?stored)) =
      point_name ''c1'' ''DI'' (SetMapping ''c1'' ''DI'' ex_mapping (pc_registry (plc_init ex_codec ex_read Map.empty [])))"
    by (simp add: ex_plc_runtime_def NewRuntime_def plain_op_def ex_put_def only_connection_def bar_def
        ex_put_step [unfolded ex_put_def ex_plc_runtime_def NewRuntime_def])
  then show ?thesis by (simp add: SetMapping_name t ex_mapping_def mapping_empty_def)
qed

text \<open>With a bar in the identifier of the connection the name comes back on another connection.\<close>

lemma bar_in_connection: "parseMappingKey (mappingKey ''a|b'' ''DI'') = Some (''a'', ''b|DI'')"
  by code_simp

end
