(* ===== verification/HassTemplate.thy ===== *)
theory HassTemplate
  imports Json
begin

text \<open>
  \<^verbatim>\<open>internal/plugins/hass/template.go\<close>: values read out of a payload by the templates the plugin
  understands. A value of Go type \<^verbatim>\<open>any\<close> is an \<open>Any\<close>; a \<^verbatim>\<open>map[string]any\<close> is a list of pairs
  with distinct keys, in the order a range over the map happens to take. The regular expressions are
  written out as the functions they are: their whitespace is the ASCII one, and a dot is any character but
  a newline. What \<^verbatim>\<open>strconv\<close>, \<^verbatim>\<open>fmt\<close> and \<^verbatim>\<open>math\<close> do with floats is the parameter.
\<close>

section \<open>Values\<close>

datatype Any =
    ANull | ABool bool | AFloat float64 | AInt int | AStr string | AList "Any list" | AMap "(string \<times> Any) list"

type_synonym any_map = "(string \<times> Any) list"

text \<open>
  Beyond what the codec of \<open>Json\<close> has: \<open>hc_g\<close> is the verb \<^verbatim>\<open>%g\<close>, \<open>hc_scan\<close> is \<^verbatim>\<open>Sscanf\<close> with \<^verbatim>\<open>%g\<close>, \<open>hc_parse\<close> is
  \<^verbatim>\<open>ParseFloat\<close>, \<open>hc_marshal\<close> is \<^verbatim>\<open>json.Marshal\<close>, \<open>hc_round\<close> rounds to a number of digits, \<open>hc_of_int\<close>
  converts a whole number.
\<close>

record HassCodec = Codec +
  hc_g :: "float64 \<Rightarrow> string"
  hc_scan :: "string \<Rightarrow> float64 option"
  hc_parse :: "string \<Rightarrow> float64 option"
  hc_marshal :: "Any \<Rightarrow> string"
  hc_round :: "int \<Rightarrow> float64 \<Rightarrow> float64"
  hc_of_int :: "int \<Rightarrow> float64"

text \<open>A document read into \<^verbatim>\<open>any\<close>: numbers become floats, and the last member with a key stays.\<close>

fun any_of :: "('a) HassCodec_scheme \<Rightarrow> Json \<Rightarrow> Any option"
  and anys_of :: "('a) HassCodec_scheme \<Rightarrow> Json list \<Rightarrow> Any list option"
  and members_of :: "('a) HassCodec_scheme \<Rightarrow> (string \<times> Json) list \<Rightarrow> any_map \<Rightarrow> any_map option" where
  "any_of cd JNull = Some ANull"
| "any_of cd (JBool b) = Some (ABool b)"
| "any_of cd (JNum n) = map_option AFloat (cd_float cd n)"
| "any_of cd (JStr s) = Some (AStr s)"
| "any_of cd (JArr js) = map_option AList (anys_of cd js)"
| "any_of cd (JObj ms) = map_option AMap (members_of cd ms [])"
| "anys_of cd [] = Some []"
| "anys_of cd (j # js) =
     (case any_of cd j of None \<Rightarrow> None | Some v \<Rightarrow> map_option (\<lambda>vs. v # vs) (anys_of cd js))"
| "members_of cd [] m = Some m"
| "members_of cd ((k, j) # ms) m =
     (case any_of cd j of None \<Rightarrow> None | Some v \<Rightarrow> members_of cd ms (AList.update k v m))"

definition hass_parse :: "HassCodec \<Rightarrow> bytes \<Rightarrow> Any option" where
  "hass_parse cd payload = (case cd_parse cd payload of None \<Rightarrow> None | Some j \<Rightarrow> any_of cd j)"

text \<open>\<^verbatim>\<open>Unmarshal\<close> into a \<^verbatim>\<open>map[string]any\<close>: \<^verbatim>\<open>null\<close> gives no map, which reads as an empty one.\<close>

definition jsonUnmarshal :: "HassCodec \<Rightarrow> bytes \<Rightarrow> any_map option" where
  "jsonUnmarshal cd payload =
     (case hass_parse cd payload of Some (AMap m) \<Rightarrow> Some m | Some ANull \<Rightarrow> Some [] | _ \<Rightarrow> None)"

definition toString :: "HassCodec \<Rightarrow> Any \<Rightarrow> string" where
  "toString cd v =
     (case v of
        AStr s \<Rightarrow> s
      | ANull \<Rightarrow> []
      | AFloat f \<Rightarrow> cd_fixed cd f
      | AInt i \<Rightarrow> int_string i
      | ABool b \<Rightarrow> (if b then ''true'' else ''false'')
      | _ \<Rightarrow> hc_marshal cd v)"

definition toFloat :: "HassCodec \<Rightarrow> Any \<Rightarrow> float64 option" where
  "toFloat cd v =
     (case v of
        AFloat f \<Rightarrow> Some f
      | AInt i \<Rightarrow> Some (hc_of_int cd i)
      | AStr s \<Rightarrow> hc_parse cd (trim_space s)
      | ABool b \<Rightarrow> Some (hc_of_int cd (if b then 1 else 0))
      | _ \<Rightarrow> None)"

section \<open>The regular expressions\<close>

definition re_space :: "char \<Rightarrow> bool" where
  "re_space c \<longleftrightarrow> c \<in> {CHR 0x09, CHR 0x0A, CHR 0x0C, CHR 0x0D, CHR 0x20}"

definition strip_left :: "string \<Rightarrow> string" where "strip_left s = dropWhile re_space s"

definition strip_right :: "string \<Rightarrow> string" where "strip_right s = rev (dropWhile re_space (rev s))"

definition ident_start :: "char \<Rightarrow> bool" where
  "ident_start c \<longleftrightarrow> (let n = (of_char c :: nat) in 65 \<le> n \<and> n \<le> 90 \<or> 97 \<le> n \<and> n \<le> 122 \<or> n = 95)"

definition ident_char :: "char \<Rightarrow> bool" where
  "ident_char c \<longleftrightarrow> ident_start c \<or> digit_val c \<noteq> None"

text \<open>
  One \<open>{{ ... }}\<close> with nothing else around it. An expression of blanks only is taken as none; nothing
  it could be read as is a value.
\<close>

definition templateExpr :: "string \<Rightarrow> string option" where
  "templateExpr tpl =
     (let s = strip_right (strip_left tpl);
          e = strip_right (strip_left (drop 2 (take (length s - 2) s)))
      in if prefix ''{{'' s \<and> suffix ''}}'' s \<and> 4 < length s \<and> e \<noteq> [] \<and> CHR 0x0A \<notin> set e then Some e else None)"

datatype path_step = StepKey string | StepIndex string

text \<open>A bracket with a quoted key, in the quotes \<open>q\<close>, or with an index.\<close>

definition quoted_key :: "char \<Rightarrow> string \<Rightarrow> (path_step \<times> string) option" where
  "quoted_key q s =
     (case s of
        [] \<Rightarrow> None
      | c # s \<Rightarrow>
          if c \<noteq> q then None
          else case strip_left (drop 1 (dropWhile (\<lambda>x. x \<noteq> q) s)) of
            [] \<Rightarrow> None
          | d # r \<Rightarrow> if q \<in> set s \<and> d = CHR '']'' then Some (StepKey (takeWhile (\<lambda>x. x \<noteq> q) s), r) else None)"

definition bracket_index :: "string \<Rightarrow> (path_step \<times> string) option" where
  "bracket_index s =
     (let n = takeWhile (\<lambda>c. digit_val c \<noteq> None) s in
      case strip_left (dropWhile (\<lambda>c. digit_val c \<noteq> None) s) of
        [] \<Rightarrow> None
      | d # r \<Rightarrow> if n \<noteq> [] \<and> d = CHR '']'' then Some (StepIndex n, r) else None)"

definition pathSegment :: "string \<Rightarrow> (path_step \<times> string) option" where
  "pathSegment p =
     (case p of
        [] \<Rightarrow> None
      | c # s \<Rightarrow>
          if c = CHR ''.'' then
            (case s of
               [] \<Rightarrow> None
             | d # _ \<Rightarrow> if ident_start d then Some (StepKey (takeWhile ident_char s), dropWhile ident_char s) else None)
          else if c = CHR ''['' then
            (let s = strip_left s in
             case quoted_key (CHR 0x27) s of
               Some r \<Rightarrow> Some r
             | None \<Rightarrow> (case quoted_key (CHR 0x22) s of Some r \<Rightarrow> Some r | None \<Rightarrow> bracket_index s))
          else None)"

text \<open>A filter is a name, or a name with an argument in parentheses.\<close>

definition filterCall :: "string \<Rightarrow> (string \<times> string) option" where
  "filterCall s =
     (case s of
        [] \<Rightarrow> None
      | c # _ \<Rightarrow>
          if \<not> ident_start c then None
          else case strip_left (dropWhile ident_char s) of
            [] \<Rightarrow> Some (takeWhile ident_char s, [])
          | d # r \<Rightarrow>
              if d = CHR ''('' \<and> r \<noteq> [] \<and> last r = CHR '')'' \<and> CHR '')'' \<notin> set (butlast r)
              then Some (takeWhile ident_char s, strip_left (butlast r)) else None)"

lemma strip_left_length: "length (strip_left s) \<le> length s"
  by (simp add: strip_left_def length_dropWhile_le)

lemma quoted_key_shorter: "quoted_key q s = Some (st, r) \<Longrightarrow> length r < length s"
proof (cases s)
  case (Cons c s')
  assume a: "quoted_key q s = Some (st, r)"
  let ?t = "strip_left (drop 1 (dropWhile (\<lambda>x. x \<noteq> q) s'))"
  have "length ?t \<le> length s'"
    using strip_left_length [of "drop 1 (dropWhile (\<lambda>x. x \<noteq> q) s')"] length_dropWhile_le [of "\<lambda>x. x \<noteq> q" s'] by simp
  moreover have "\<exists>d. ?t = d # r"
    using a Cons by (auto simp: quoted_key_def split: if_splits list.splits)
  ultimately show ?thesis using Cons by auto
qed (simp add: quoted_key_def)

lemma bracket_index_shorter: "bracket_index s = Some (st, r) \<Longrightarrow> length r < length s"
proof -
  assume a: "bracket_index s = Some (st, r)"
  let ?t = "strip_left (dropWhile (\<lambda>c. digit_val c \<noteq> None) s)"
  have "length ?t \<le> length s"
    using strip_left_length [of "dropWhile (\<lambda>c. digit_val c \<noteq> None) s"] length_dropWhile_le [of "\<lambda>c. digit_val c \<noteq> None" s]
    by simp
  moreover have "\<exists>d. ?t = d # r"
    using a by (auto simp: bracket_index_def Let_def split: if_splits list.splits)
  ultimately show ?thesis by auto
qed

lemma pathSegment_shorter: "pathSegment p = Some (st, r) \<Longrightarrow> length r < length p"
proof (cases p)
  case (Cons c s)
  assume a: "pathSegment p = Some (st, r)"
  have "length (strip_left s) \<le> length s" by (rule strip_left_length)
  moreover have "length (dropWhile ident_char s) \<le> length s" by (rule length_dropWhile_le)
  ultimately show ?thesis
    using a Cons
    by (auto simp: pathSegment_def Let_def split: if_splits list.splits option.splits
        dest!: quoted_key_shorter bracket_index_shorter)
qed (simp add: pathSegment_def)

section \<open>Rendering\<close>

text \<open>
  A path of accessors. A key or an index that is not there, or that the value cannot have, gives null; the
  path itself must be well formed up to there. Nothing is read beyond it.
\<close>

function walkPath :: "Any \<Rightarrow> string \<Rightarrow> Any option" where
  "walkPath doc path =
     (if path = [] then Some doc
      else case pathSegment path of
        None \<Rightarrow> None
      | Some (StepKey k, rest) \<Rightarrow>
          if k = [] then None
          else (case doc of
            AMap m \<Rightarrow> (case map_of m k of None \<Rightarrow> Some ANull | Some v \<Rightarrow> walkPath v rest)
          | _ \<Rightarrow> Some ANull)
      | Some (StepIndex n, rest) \<Rightarrow>
          (case ParseInt n of
            None \<Rightarrow> None
          | Some i \<Rightarrow>
              (case doc of
                 AList vs \<Rightarrow> if i < 0 \<or> i \<ge> int (length vs) then Some ANull else walkPath (vs ! nat i) rest
               | _ \<Rightarrow> Some ANull)))"
  by pat_completeness auto
termination
  by (relation "measure (\<lambda>(doc, path). length path)") (auto dest: pathSegment_shorter)

declare walkPath.simps [simp del]

text \<open>The part before the filters.\<close>

definition evalBase :: "HassCodec \<Rightarrow> string \<Rightarrow> bytes \<Rightarrow> Any option" where
  "evalBase cd e payload =
     (if e = ''value'' then Some (AStr (string_of_bytes payload))
      else if e = ''value_json'' \<or> prefix ''value_json.'' e \<or> prefix ''value_json['' e then
        (case hass_parse cd payload of None \<Rightarrow> None | Some doc \<Rightarrow> walkPath doc (trim_prefix ''value_json'' e))
      else None)"

text \<open>\<^verbatim>\<open>quote\<close> is the quote an open string began with, \<^verbatim>\<open>buf\<close> the part so far.\<close>

fun split_filters :: "char option \<Rightarrow> string \<Rightarrow> string \<Rightarrow> string list" where
  "split_filters qt buf [] = [buf]"
| "split_filters (Some q) buf (c # cs) = split_filters (if c = q then None else Some q) (buf @ [c]) cs"
| "split_filters None buf (c # cs) =
     (if c = CHR 0x27 \<or> c = CHR 0x22 then split_filters (Some c) (buf @ [c]) cs
      else if c = CHR ''|'' then buf # split_filters None [] cs
      else split_filters None (buf @ [c]) cs)"

definition splitFilters :: "string \<Rightarrow> string list" where
  "splitFilters e = split_filters None [] e"

lemma split_filters_not_Nil: "split_filters qt buf cs \<noteq> []"
  by (induction qt buf cs rule: split_filters.induct) auto

text \<open>\<^verbatim>\<open>strings.ToUpper\<close> on ASCII, and \<^verbatim>\<open>math.Abs\<close>, which clears the sign bit.\<close>

definition upper_char :: "char \<Rightarrow> char" where
  "upper_char c = (let n = (of_char c :: nat) in if 97 \<le> n \<and> n \<le> 122 then char_of (n - 32) else c)"

definition float_abs :: "float64 \<Rightarrow> float64" where "float_abs f = take_bit 63 f"

definition applyFilter :: "HassCodec \<Rightarrow> Any \<Rightarrow> string \<Rightarrow> Any option" where
  "applyFilter cd v flt =
     (case filterCall flt of
        None \<Rightarrow> None
      | Some (name, arg) \<Rightarrow>
          let arg = trim_space arg in
          if name = ''round'' then
            (case toFloat cd v of
               None \<Rightarrow> None
             | Some f \<Rightarrow>
                 if arg = [] then Some (AFloat (hc_round cd 0 f))
                 else (case ParseInt arg of None \<Rightarrow> None | Some n \<Rightarrow> Some (AFloat (hc_round cd n f))))
          else if name = ''float'' then map_option AFloat (toFloat cd v)
          else if name = ''int'' then map_option (\<lambda>f. AInt (cd_trunc cd f)) (toFloat cd v)
          else if name = ''string'' then Some (AStr (toString cd v))
          else if name = ''abs'' then map_option (\<lambda>f. AFloat (float_abs f)) (toFloat cd v)
          else if name = ''upper'' then Some (AStr (map upper_char (toString cd v)))
          else if name = ''lower'' then Some (AStr (to_lower (toString cd v)))
          else if name = ''trim'' then Some (AStr (trim_space (toString cd v)))
          else None)"

fun apply_filters :: "HassCodec \<Rightarrow> Any \<Rightarrow> string list \<Rightarrow> Any option" where
  "apply_filters cd v [] = Some v"
| "apply_filters cd v (f # fs) =
     (case applyFilter cd v (trim_space f) of None \<Rightarrow> None | Some v \<Rightarrow> apply_filters cd v fs)"

record TemplateResult =
  tr_value :: Any
  tr_supported :: bool

definition renderTemplate :: "HassCodec \<Rightarrow> string \<Rightarrow> bytes \<Rightarrow> TemplateResult" where
  "renderTemplate cd tpl payload =
     (let raw = AStr (string_of_bytes payload) in
      if trim_space tpl = [] then \<lparr>tr_value = raw, tr_supported = True\<rparr>
      else case templateExpr tpl of
        None \<Rightarrow> \<lparr>tr_value = raw, tr_supported = False\<rparr>
      | Some e \<Rightarrow>
          (case evalBase cd (trim_space (hd (splitFilters e))) payload of
             None \<Rightarrow> \<lparr>tr_value = raw, tr_supported = False\<rparr>
           | Some v \<Rightarrow>
               (case apply_filters cd v (tl (splitFilters e)) of
                  None \<Rightarrow> \<lparr>tr_value = raw, tr_supported = False\<rparr>
                | Some v \<Rightarrow> \<lparr>tr_value = v, tr_supported = True\<rparr>)))"

end
