(* ===== verification/HassRender.thy ===== *)
theory HassRender
  imports HassTemplate
begin

text \<open>
  What a template reads: the value its path names in the document of the payload, null where there is none.
\<close>

section \<open>Paths written out\<close>

datatype access = Key string | Quoted string | At nat

definition show_access :: "access \<Rightarrow> string" where
  "show_access a =
     (case a of
        Key k \<Rightarrow> CHR ''.'' # k
      | Quoted k \<Rightarrow> CHR ''['' # CHR 0x27 # k @ [CHR 0x27, CHR '']'']
      | At n \<Rightarrow> CHR ''['' # nat_string n @ '']'')"

definition show_path :: "access list \<Rightarrow> string" where "show_path p = concat (map show_access p)"

definition plain_access :: "access \<Rightarrow> bool" where
  "plain_access a \<longleftrightarrow>
     (case a of
        Key k \<Rightarrow> k \<noteq> [] \<and> ident_start (hd k) \<and> list_all ident_char k
      | Quoted k \<Rightarrow> k \<noteq> [] \<and> CHR 0x27 \<notin> set k \<and> CHR 0x0A \<notin> set k
      | At n \<Rightarrow> n < 2 ^ 63)"

text \<open>The reference: the part of a value an access names, and the value at the end of a path.\<close>

definition part :: "access \<Rightarrow> Any \<Rightarrow> Any option" where
  "part a v =
     (case (a, v) of
        (Key k, AMap m) \<Rightarrow> map_of m k
      | (Quoted k, AMap m) \<Rightarrow> map_of m k
      | (At n, AList vs) \<Rightarrow> if n < length vs then Some (vs ! n) else None
      | _ \<Rightarrow> None)"

fun value_at :: "access list \<Rightarrow> Any \<Rightarrow> Any" where
  "value_at [] v = v"
| "value_at (a # p) v = (case part a v of None \<Rightarrow> ANull | Some w \<Rightarrow> value_at p w)"

section \<open>Characters\<close>

definition visible :: "char \<Rightarrow> bool" where
  "visible c \<longleftrightarrow> 33 \<le> (of_char c :: nat) \<and> (of_char c :: nat) \<le> 126"

lemma ident_visible: "ident_char c \<Longrightarrow> visible c"
  by (auto simp: ident_char_def ident_start_def visible_def digit_val_def Let_def split: if_splits)

lemma visible_not_space: "visible c \<Longrightarrow> \<not> re_space c"
  by (auto simp: visible_def re_space_def)

lemma space_runes_invisible: "r \<in> set space_runes \<Longrightarrow> \<not> visible (hd r) \<and> \<not> visible (last r)"
proof -
  have "list_all (\<lambda>r. \<not> visible (hd r) \<and> \<not> visible (last r)) space_runes" by code_simp
  then show "r \<in> set space_runes \<Longrightarrow> \<not> visible (hd r) \<and> \<not> visible (last r)" by (simp add: list_all_iff)
qed

lemma prefix_hd: "prefix r s \<Longrightarrow> r \<noteq> [] \<Longrightarrow> hd r = hd s"
  by (cases r) (auto simp: prefix_def)

lemma trim_visible:
  assumes "s \<noteq> []" "visible (hd s)" "visible (last s)"
  shows "trim_space s = s"
proof -
  have "find (\<lambda>r. r \<noteq> [] \<and> prefix r s) space_runes = None"
    using assms(2) space_runes_invisible prefix_hd by (fastforce simp: find_None_iff)
  then have "trim_space_left s = s" by (simp add: trim_space_left_def trim_left_of_stop)
  moreover have "\<not> (r \<noteq> [] \<and> prefix r (rev s))" if "r \<in> rev ` set space_runes" for r
    using that assms prefix_hd [of r "rev s"] by (auto simp: hd_rev dest: space_runes_invisible)
  then have "find (\<lambda>r. r \<noteq> [] \<and> prefix r (rev s)) (map rev space_runes) = None"
    by (auto simp: find_None_iff)
  then have "trim_space_right s = s" by (simp add: trim_space_right_def trim_left_of_stop)
  ultimately show ?thesis by (simp add: trim_space_def)
qed

lemma strip_left_visible: "s \<noteq> [] \<Longrightarrow> visible (hd s) \<Longrightarrow> strip_left s = s"
  by (cases s) (auto simp: strip_left_def dest: visible_not_space)

lemma strip_right_visible: "s \<noteq> [] \<Longrightarrow> visible (last s) \<Longrightarrow> strip_right s = s"
  by (cases s rule: rev_cases) (auto simp: strip_right_def dest: visible_not_space)

lemma ident_not_special: "ident_char c \<Longrightarrow> c \<notin> {CHR 0x27, CHR 0x22, CHR ''|'', CHR ''.'', CHR ''['', CHR 0x0A}"
  by (auto simp: ident_char_def ident_start_def digit_val_def Let_def split: if_splits)

lemma digit_ident: "digit_val c \<noteq> None \<Longrightarrow> ident_char c"
  by (simp add: ident_char_def)

lemma nat_string_idents: "c \<in> set (nat_string n) \<Longrightarrow> ident_char c"
  using nat_string_digits digit_ident by blast

section \<open>One access\<close>

definition path_end :: "string \<Rightarrow> bool" where
  "path_end s \<longleftrightarrow> s = [] \<or> hd s \<in> {CHR ''.'', CHR ''[''}"

lemma path_end_show: "path_end (show_path p)"
  by (cases p) (auto simp: show_path_def path_end_def show_access_def split: access.splits)

lemma take_idents:
  assumes "list_all ident_char k" "path_end s"
  shows "takeWhile ident_char (k @ s) = k" "dropWhile ident_char (k @ s) = s"
proof -
  have "s \<noteq> [] \<Longrightarrow> \<not> ident_char (hd s)"
    using assms(2) ident_not_special by (auto simp: path_end_def)
  then have "takeWhile ident_char s = []" "dropWhile ident_char s = s" by (cases s; simp)+
  moreover have "\<forall>c \<in> set k. ident_char c" using assms(1) by (simp add: list_all_iff)
  ultimately show "takeWhile ident_char (k @ s) = k" "dropWhile ident_char (k @ s) = s" by auto
qed

lemma take_digits:
  "takeWhile (\<lambda>c. digit_val c \<noteq> None) (nat_string n @ CHR '']'' # s) = nat_string n"
  "dropWhile (\<lambda>c. digit_val c \<noteq> None) (nat_string n @ CHR '']'' # s) = CHR '']'' # s"
proof -
  have "digit_val (CHR '']'') = None" by (simp add: digit_val_def)
  moreover have "\<forall>c \<in> set (nat_string n). digit_val c \<noteq> None" using nat_string_digits by blast
  ultimately show "takeWhile (\<lambda>c. digit_val c \<noteq> None) (nat_string n @ CHR '']'' # s) = nat_string n"
    "dropWhile (\<lambda>c. digit_val c \<noteq> None) (nat_string n @ CHR '']'' # s) = CHR '']'' # s"
    by auto
qed

definition step_of :: "access \<Rightarrow> path_step" where
  "step_of a = (case a of Key k \<Rightarrow> StepKey k | Quoted k \<Rightarrow> StepKey k | At n \<Rightarrow> StepIndex (nat_string n))"

lemma pathSegment_show:
  assumes "plain_access a" "path_end s"
  shows "pathSegment (show_access a @ s) = Some (step_of a, s)"
proof (cases a)
  case (Key k)
  with assms(1) obtain d k' where "k = d # k'" "ident_start d" "list_all ident_char k"
    by (cases k) (auto simp: plain_access_def)
  with Key assms(2) show ?thesis
    using take_idents [of k s] by (simp add: pathSegment_def show_access_def step_of_def)
next
  case (Quoted k)
  with assms(1) have k: "CHR 0x27 \<notin> set k" by (simp add: plain_access_def)
  then have t: "takeWhile (\<lambda>x. x \<noteq> CHR 0x27) (k @ CHR 0x27 # CHR '']'' # s) = k"
    "dropWhile (\<lambda>x. x \<noteq> CHR 0x27) (k @ CHR 0x27 # CHR '']'' # s) = CHR 0x27 # CHR '']'' # s"
    by (auto simp: takeWhile_tail dropWhile_append3 takeWhile_append)
  show ?thesis
    unfolding Quoted by (simp add: pathSegment_def show_access_def step_of_def quoted_key_def t strip_left_def re_space_def)
next
  case (At n)
  obtain c cs where n: "nat_string n = c # cs" by (cases "nat_string n") simp_all
  then have c: "ident_char c" using nat_string_idents [of c n] by simp
  then have "quoted_key (CHR 0x27) (c # x) = None" "quoted_key (CHR 0x22) (c # x) = None" "\<not> re_space c" for x
    using ident_not_special [OF c] visible_not_space [OF ident_visible [OF c]] by (auto simp: quoted_key_def)
  then show ?thesis
    using take_digits [of n s]
    by (simp add: At pathSegment_def show_access_def step_of_def strip_left_def n bracket_index_def re_space_def)
qed

lemma walkPath_key:
  "pathSegment path = Some (StepKey k, rest) \<Longrightarrow> k \<noteq> [] \<Longrightarrow>
     walkPath v path =
       (case v of AMap m \<Rightarrow> (case map_of m k of None \<Rightarrow> Some ANull | Some w \<Rightarrow> walkPath w rest) | _ \<Rightarrow> Some ANull)"
  by (subst walkPath.simps) (auto simp: pathSegment_def)

lemma walkPath_index:
  "pathSegment path = Some (StepIndex s, rest) \<Longrightarrow> ParseInt s = Some (int n) \<Longrightarrow>
     walkPath v path =
       (case v of AList vs \<Rightarrow> if n < length vs then walkPath (vs ! n) rest else Some ANull | _ \<Rightarrow> Some ANull)"
  by (subst walkPath.simps) (auto simp: pathSegment_def split: Any.split)

text \<open>The walk along a path that was written out ends at the value the path names.\<close>

lemma walkPath_show:
  "list_all plain_access p \<Longrightarrow> walkPath v (show_path p) = Some (value_at p v)"
proof (induction p arbitrary: v)
  case Nil
  show ?case by (simp add: show_path_def walkPath.simps)
next
  case (Cons a p)
  have path: "show_path (a # p) = show_access a @ show_path p" by (simp add: show_path_def)
  have seg: "pathSegment (show_access a @ show_path p) = Some (step_of a, show_path p)"
    using Cons.prems path_end_show by (intro pathSegment_show) simp_all
  have IH: "walkPath w (show_path p) = Some (value_at p w)" for w using Cons by simp
  have plain: "plain_access a" using Cons.prems by simp
  show ?case
  proof (cases a)
    case (Key k)
    with plain seg show ?thesis
      unfolding path by (subst walkPath_key) (auto simp: step_of_def plain_access_def part_def IH split: Any.split option.split)
  next
    case (Quoted k)
    with plain seg show ?thesis
      unfolding path by (subst walkPath_key) (auto simp: step_of_def plain_access_def part_def IH split: Any.split option.split)
  next
    case (At n)
    then have "ParseInt (nat_string n) = Some (int n)"
      using plain ParseInt_int_string [of "int n"] by (simp add: plain_access_def int_string_def)
    with At seg show ?thesis
      unfolding path by (subst walkPath_index) (auto simp: step_of_def part_def IH split: Any.split)
  qed
qed

section \<open>The whole template\<close>

lemma split_filters_text:
  "\<forall>c \<in> set xs. c \<notin> {CHR 0x27, CHR 0x22, CHR ''|''} \<Longrightarrow>
     split_filters None buf (xs @ ys) = split_filters None (buf @ xs) ys"
  by (induction xs arbitrary: buf) auto

lemma split_filters_quoted:
  "q \<notin> set xs \<Longrightarrow> split_filters (Some q) buf (xs @ q # ys) = split_filters None (buf @ xs @ [q]) ys"
  by (induction xs arbitrary: buf) auto

lemma split_filters_access:
  assumes "plain_access a"
  shows "split_filters None buf (show_access a @ s) = split_filters None (buf @ show_access a) s"
proof (cases a)
  case (Key k)
  then have "\<forall>c \<in> set (show_access a). c \<notin> {CHR 0x27, CHR 0x22, CHR ''|''}"
    using assms ident_not_special by (auto simp: plain_access_def show_access_def list_all_iff)
  then show ?thesis by (rule split_filters_text)
next
  case (Quoted k)
  then show ?thesis
    using assms split_filters_quoted [of "CHR 0x27" k] by (simp add: plain_access_def show_access_def)
next
  case (At n)
  have "\<forall>c \<in> set (show_access a). c \<notin> {CHR 0x27, CHR 0x22, CHR ''|''}"
    using At nat_string_idents ident_not_special by (auto simp: show_access_def)
  then show ?thesis by (rule split_filters_text)
qed

lemma split_filters_path:
  "list_all plain_access p \<Longrightarrow> split_filters None buf (show_path p) = [buf @ show_path p]"
  by (induction p arbitrary: buf) (auto simp: show_path_def split_filters_access)

definition show_value :: "access list \<Rightarrow> string" where "show_value p = ''value_json'' @ show_path p"

lemma splitFilters_value: "list_all plain_access p \<Longrightarrow> splitFilters (show_value p) = [show_value p]"
  using split_filters_text [of "''value_json''" "[]" "show_path p"]
  by (simp add: splitFilters_def show_value_def split_filters_path)

lemma access_last: "plain_access a \<Longrightarrow> visible (last (show_access a))"
  by (cases a) (auto simp: plain_access_def show_access_def list_all_iff visible_def [of "CHR '']''"] intro: ident_visible)

lemma access_no_newline: "plain_access a \<Longrightarrow> CHR 0x0A \<notin> set (show_access a)"
  using ident_not_special nat_string_idents
  by (cases a) (fastforce simp: plain_access_def show_access_def list_all_iff)+

lemma value_visible:
  assumes "list_all plain_access p"
  shows "visible (hd (show_value p)) \<and> visible (last (show_value p)) \<and> CHR 0x0A \<notin> set (show_value p)"
proof -
  have "visible (last (show_value p))"
  proof (cases p rule: rev_cases)
    case (snoc q a)
    then have "show_value p = (''value_json'' @ show_path q) @ show_access a"
      by (simp add: show_value_def show_path_def)
    moreover have "show_access a \<noteq> []" by (simp add: show_access_def split: access.splits)
    ultimately show ?thesis using assms snoc access_last by simp
  qed (simp add: show_value_def show_path_def visible_def)
  moreover have "CHR 0x0A \<notin> set (show_value p)"
    using assms access_no_newline by (auto simp: show_value_def show_path_def list_all_iff)
  ultimately show ?thesis by (simp add: show_value_def visible_def)
qed

definition show_template :: "access list \<Rightarrow> string" where
  "show_template p = ''{{ '' @ show_value p @ '' }}''"

lemma templateExpr_value:
  assumes "list_all plain_access p"
  shows "templateExpr (show_template p) = Some (show_value p)"
proof -
  let ?e = "show_value p"
  let ?t = "''{{ '' @ ?e @ '' }}''"
  have e: "?e \<noteq> []" "visible (hd ?e)" "visible (last ?e)" "CHR 0x0A \<notin> set ?e"
    using value_visible [OF assms] by (simp_all add: show_value_def)
  have strip: "strip_right (strip_left ?t) = ?t"
    by (simp add: strip_left_visible strip_right_visible visible_def)
  have "drop 2 (take (length ?t - 2) ?t) = CHR '' '' # ?e @ '' ''" by simp
  moreover have "strip_left (CHR '' '' # ?e @ '' '') = ?e @ '' ''"
  proof -
    have "strip_left (CHR '' '' # ?e @ '' '') = strip_left (?e @ '' '')" by (simp add: strip_left_def re_space_def)
    also have "\<dots> = ?e @ '' ''" using e by (intro strip_left_visible) simp_all
    finally show ?thesis .
  qed
  moreover have "strip_right (?e @ '' '') = ?e"
  proof -
    have "strip_right (?e @ '' '') = strip_right ?e" by (simp add: strip_right_def re_space_def)
    also have "\<dots> = ?e" using e by (intro strip_right_visible) simp_all
    finally show ?thesis .
  qed
  moreover have "suffix ''}}'' ?t" by (simp add: suffix_def)
  ultimately show ?thesis
    unfolding templateExpr_def show_template_def strip Let_def using e by simp
qed

text \<open>
  A template of a path, \<open>{{ value_json.a['b'][0] }}\<close> with any plain keys and indexes, reads the value
  the path names in the payload's document, and null where the document has none there.
\<close>

theorem template_reads_path:
  assumes "list_all plain_access p" "hass_parse cd payload = Some doc"
  shows "renderTemplate cd (show_template p) payload = \<lparr>tr_value = value_at p doc, tr_supported = True\<rparr>"
proof -
  have "trim_space (show_template p) = show_template p"
    by (rule trim_visible) (simp_all add: show_template_def visible_def)
  then have blank: "trim_space (show_template p) \<noteq> []" by (simp add: show_template_def)
  have e: "visible (hd (show_value p))" "visible (last (show_value p))"
    using value_visible [OF assms(1)] by simp_all
  have trim: "trim_space (show_value p) = show_value p"
    using e by (intro trim_visible) (simp_all add: show_value_def)
  have "evalBase cd (show_value p) payload = Some (value_at p doc)"
    using path_end_show [of p] walkPath_show [OF assms(1)] assms(2)
    by (cases "show_path p") (auto simp: evalBase_def show_value_def trim_prefix_def path_end_def)
  then show ?thesis
    using blank by (simp add: renderTemplate_def templateExpr_value [OF assms(1)] splitFilters_value [OF assms(1)] trim)
qed

definition ex_reader :: HassCodec where
  "ex_reader = \<lparr>cd_parse = (\<lambda>_. Some (JObj [(''temp'', JArr [JBool True, JStr ''21''])])), cd_float = (\<lambda>_. None),
     cd_text = (\<lambda>_. []), cd_fixed = (\<lambda>_. []), cd_trunc = (\<lambda>_. 0), hc_g = (\<lambda>_. []), hc_scan = (\<lambda>_. None),
     hc_parse = (\<lambda>_. None), hc_marshal = (\<lambda>_. []), hc_round = (\<lambda>_ f. f), hc_of_int = (\<lambda>_. 0)\<rparr>"

lemma template_reads_path_witness:
  "renderTemplate ex_reader (show_template [Key ''temp'', At 1]) [] = \<lparr>tr_value = AStr ''21'', tr_supported = True\<rparr>"
proof -
  have "list_all plain_access [Key ''temp'', At 1]"
    by (simp add: plain_access_def ident_start_def ident_char_def)
  moreover have "hass_parse ex_reader [] = Some (AMap [(''temp'', AList [ABool True, AStr ''21''])])"
    by (simp add: hass_parse_def ex_reader_def)
  ultimately have "renderTemplate ex_reader (show_template [Key ''temp'', At 1]) [] =
      \<lparr>tr_value = value_at [Key ''temp'', At 1] (AMap [(''temp'', AList [ABool True, AStr ''21''])]), tr_supported = True\<rparr>"
    by (rule template_reads_path)
  then show ?thesis by (simp add: part_def)
qed

text \<open>What is not understood is shown as it came.\<close>

lemma unsupported_is_raw:
  "\<not> tr_supported (renderTemplate cd tpl payload) \<Longrightarrow>
     tr_value (renderTemplate cd tpl payload) = AStr (string_of_bytes payload)"
  by (auto simp: renderTemplate_def Let_def split: option.splits if_splits)

end
