(* ===== verification/HassDiscovery.thy ===== *)
theory HassDiscovery
  imports HassTemplate Topic
begin

text \<open>
  \<^verbatim>\<open>internal/plugins/hass/discovery.go\<close> and \<^verbatim>\<open>abbreviations.go\<close>: the topics devices announce
  themselves on, and the configuration they announce, with its short keys written out and the topic base
  put in. A Go map is a list of pairs with distinct keys; its order is the one in which the loops happen
  to go through it.
\<close>

section \<open>Discovery topics\<close>

record DiscoveryTopic =
  dt_prefix :: string
  dt_component :: string
  dt_nodeID :: string
  dt_objectID :: string
  dt_deviceScoped :: bool

definition topicOf :: "DiscoveryTopic \<Rightarrow> string" where
  "topicOf dt =
     join_with slash ([dt_prefix dt, dt_component dt] @ (if dt_nodeID dt \<noteq> [] then [dt_nodeID dt] else []) @
       [dt_objectID dt, ''config''])"

definition parseDiscoveryTopic :: "string \<Rightarrow> string \<Rightarrow> DiscoveryTopic option" where
  "parseDiscoveryTopic pre topic =
     (if \<not> prefix (pre @ [slash]) topic then None
      else
        let parts = split_on slash (trim_prefix (pre @ [slash]) topic) in
        if length parts < 3 \<or> length parts > 4 \<or> last parts \<noteq> ''config'' then None
        else if [] \<in> set (butlast parts) then None
        else
          let c = hd parts; four = length parts = 4 in
          Some \<lparr>dt_prefix = pre, dt_component = c, dt_nodeID = (if four then parts ! 1 else []),
            dt_objectID = (if four then parts ! 2 else parts ! 1), dt_deviceScoped = (c = ''device'')\<rparr>)"

section \<open>Abbreviations\<close>

definition entityAbbreviations :: "(string \<times> string) list" where
  "entityAbbreviations =
     [(''act_t'', ''action_topic''), (''act_tpl'', ''action_template''), (''atype'', ''automation_type''),
      (''aux_cmd_t'', ''aux_command_topic''), (''aux_stat_t'', ''aux_state_topic''),
      (''aux_stat_tpl'', ''aux_state_template''), (''av_tones'', ''available_tones''),
      (''avty'', ''availability''), (''avty_mode'', ''availability_mode''),
      (''avty_t'', ''availability_topic''), (''avty_tpl'', ''availability_template''),
      (''b_tpl'', ''blue_template''), (''bat_lev_t'', ''battery_level_topic''),
      (''bat_lev_tpl'', ''battery_level_template''), (''bri_cmd_t'', ''brightness_command_topic''),
      (''bri_cmd_tpl'', ''brightness_command_template''), (''bri_scl'', ''brightness_scale''),
      (''bri_stat_t'', ''brightness_state_topic''), (''bri_val_tpl'', ''brightness_value_template''),
      (''chrg_t'', ''charging_topic''), (''chrg_tpl'', ''charging_template''), (''cln_t'', ''cleaning_topic''),
      (''cln_tpl'', ''cleaning_template''), (''clr_mode_val_tpl'', ''color_mode_value_template''),
      (''clr_temp_cmd_t'', ''color_temp_command_topic''),
      (''clr_temp_cmd_tpl'', ''color_temp_command_template''),
      (''clr_temp_stat_t'', ''color_temp_state_topic''), (''clr_temp_val_tpl'', ''color_temp_value_template''),
      (''cmd_off_tpl'', ''command_off_template''), (''cmd_on_tpl'', ''command_on_template''),
      (''cmd_t'', ''command_topic''), (''cmd_tpl'', ''command_template''),
      (''cod_arm_req'', ''code_arm_required''), (''cod_dis_req'', ''code_disarm_required''),
      (''cod_trig_req'', ''code_trigger_required''), (''cont_type'', ''content_type''),
      (''curr_temp_t'', ''current_temperature_topic''), (''curr_temp_tpl'', ''current_temperature_template''),
      (''dev'', ''device''), (''dev_cla'', ''device_class''), (''dir_cmd_t'', ''direction_command_topic''),
      (''dir_cmd_tpl'', ''direction_command_template''), (''dir_stat_t'', ''direction_state_topic''),
      (''dir_val_tpl'', ''direction_value_template''), (''dock_t'', ''docked_topic''),
      (''dock_tpl'', ''docked_template''), (''e'', ''encoding''), (''en'', ''enabled_by_default''),
      (''ent_cat'', ''entity_category''), (''ent_pic'', ''entity_picture''), (''err_t'', ''error_topic''),
      (''err_tpl'', ''error_template''), (''evt_typ'', ''event_types''), (''exp_aft'', ''expire_after''),
      (''fan_mode_cmd_t'', ''fan_mode_command_topic''), (''fan_mode_cmd_tpl'', ''fan_mode_command_template''),
      (''fan_mode_stat_t'', ''fan_mode_state_topic''), (''fan_mode_stat_tpl'', ''fan_mode_state_template''),
      (''fanspd_lst'', ''fan_speed_list''), (''fanspd_t'', ''fan_speed_topic''),
      (''fanspd_tpl'', ''fan_speed_template''), (''flsh_tlng'', ''flash_time_long''),
      (''flsh_tsht'', ''flash_time_short''), (''frc_upd'', ''force_update''),
      (''fx_cmd_t'', ''effect_command_topic''), (''fx_cmd_tpl'', ''effect_command_template''),
      (''fx_list'', ''effect_list''), (''fx_stat_t'', ''effect_state_topic''),
      (''fx_val_tpl'', ''effect_value_template''), (''g_tpl'', ''green_template''),
      (''hs_cmd_t'', ''hs_command_topic''), (''hs_cmd_tpl'', ''hs_command_template''),
      (''hs_stat_t'', ''hs_state_topic''), (''hs_val_tpl'', ''hs_value_template''),
      (''hum_cmd_t'', ''target_humidity_command_topic''),
      (''hum_cmd_tpl'', ''target_humidity_command_template''),
      (''hum_stat_t'', ''target_humidity_state_topic''),
      (''hum_state_tpl'', ''target_humidity_state_template''), (''ic'', ''icon''),
      (''img_e'', ''image_encoding''), (''img_t'', ''image_topic''), (''init'', ''initial''),
      (''json_attr'', ''json_attributes''), (''json_attr_t'', ''json_attributes_topic''),
      (''json_attr_tpl'', ''json_attributes_template''), (''lrst_t'', ''last_reset_topic''),
      (''lrst_val_tpl'', ''last_reset_value_template''), (''max_mireds'', ''max_mireds''),
      (''min_mireds'', ''min_mireds''), (''mode_cmd_t'', ''mode_command_topic''),
      (''mode_cmd_tpl'', ''mode_command_template''), (''mode_stat_t'', ''mode_state_topic''),
      (''mode_stat_tpl'', ''mode_state_template''), (''o'', ''origin''), (''obj_id'', ''object_id''),
      (''of_dly'', ''off_delay''), (''on_cmd_type'', ''on_command_type''), (''ops'', ''options''),
      (''opt'', ''optimistic''), (''osc_cmd_t'', ''oscillation_command_topic''),
      (''osc_cmd_tpl'', ''oscillation_command_template''), (''osc_stat_t'', ''oscillation_state_topic''),
      (''osc_val_tpl'', ''oscillation_value_template''), (''pct_cmd_t'', ''percentage_command_topic''),
      (''pct_cmd_tpl'', ''percentage_command_template''), (''pct_stat_t'', ''percentage_state_topic''),
      (''pct_val_tpl'', ''percentage_value_template''), (''pl'', ''payload''),
      (''pl_arm_away'', ''payload_arm_away''), (''pl_arm_custom_b'', ''payload_arm_custom_bypass''),
      (''pl_arm_home'', ''payload_arm_home''), (''pl_arm_nite'', ''payload_arm_night''),
      (''pl_arm_vacation'', ''payload_arm_vacation''), (''pl_avail'', ''payload_available''),
      (''pl_cln_sp'', ''payload_clean_spot''), (''pl_cls'', ''payload_close''),
      (''pl_disarm'', ''payload_disarm''), (''pl_home'', ''payload_home''),
      (''pl_install'', ''payload_install''), (''pl_loc'', ''payload_locate''), (''pl_lock'', ''payload_lock''),
      (''pl_not_avail'', ''payload_not_available''), (''pl_not_home'', ''payload_not_home''),
      (''pl_off'', ''payload_off''), (''pl_on'', ''payload_on''), (''pl_open'', ''payload_open''),
      (''pl_osc_off'', ''payload_oscillation_off''), (''pl_osc_on'', ''payload_oscillation_on''),
      (''pl_paus'', ''payload_pause''), (''pl_prs'', ''payload_press''),
      (''pl_ret'', ''payload_return_to_base''), (''pl_rst'', ''payload_reset''),
      (''pl_rst_hum'', ''payload_reset_humidity''), (''pl_rst_mode'', ''payload_reset_mode''),
      (''pl_rst_pct'', ''payload_reset_percentage''), (''pl_rst_pr_mode'', ''payload_reset_preset_mode''),
      (''pl_stop'', ''payload_stop''), (''pl_stpa'', ''payload_start_pause''),
      (''pl_strt'', ''payload_start''), (''pl_toff'', ''payload_turn_off''), (''pl_ton'', ''payload_turn_on''),
      (''pl_trig'', ''payload_trigger''), (''pl_unlk'', ''payload_unlock''), (''pos'', ''reports_position''),
      (''pos_clsd'', ''position_closed''), (''pos_open'', ''position_open''), (''pos_t'', ''position_topic''),
      (''pos_tpl'', ''position_template''), (''pow_cmd_t'', ''power_command_topic''),
      (''pow_stat_t'', ''power_state_topic''), (''pow_stat_tpl'', ''power_state_template''),
      (''pr_mode_cmd_t'', ''preset_mode_command_topic''),
      (''pr_mode_cmd_tpl'', ''preset_mode_command_template''),
      (''pr_mode_stat_t'', ''preset_mode_state_topic''), (''pr_mode_val_tpl'', ''preset_mode_value_template''),
      (''pr_modes'', ''preset_modes''), (''r_tpl'', ''red_template''), (''ret'', ''retain''),
      (''rgb_cmd_t'', ''rgb_command_topic''), (''rgb_cmd_tpl'', ''rgb_command_template''),
      (''rgb_stat_t'', ''rgb_state_topic''), (''rgb_val_tpl'', ''rgb_value_template''),
      (''rgbw_cmd_t'', ''rgbw_command_topic''), (''rgbw_cmd_tpl'', ''rgbw_command_template''),
      (''rgbw_stat_t'', ''rgbw_state_topic''), (''rgbw_val_tpl'', ''rgbw_value_template''),
      (''rgbww_cmd_t'', ''rgbww_command_topic''), (''rgbww_cmd_tpl'', ''rgbww_command_template''),
      (''rgbww_stat_t'', ''rgbww_state_topic''), (''rgbww_val_tpl'', ''rgbww_value_template''),
      (''send_cmd_t'', ''send_command_topic''), (''send_if_off'', ''send_if_off''),
      (''set_fan_spd_t'', ''set_fan_speed_topic''), (''set_pos_t'', ''set_position_topic''),
      (''set_pos_tpl'', ''set_position_template''), (''spd_rng_max'', ''speed_range_max''),
      (''spd_rng_min'', ''speed_range_min''), (''src_type'', ''source_type''), (''stat_cla'', ''state_class''),
      (''stat_closing'', ''state_closing''), (''stat_clsd'', ''state_closed''),
      (''stat_jam'', ''state_jammed''), (''stat_locked'', ''state_locked''),
      (''stat_locking'', ''state_locking''), (''stat_off'', ''state_off''), (''stat_on'', ''state_on''),
      (''stat_open'', ''state_open''), (''stat_opening'', ''state_opening''),
      (''stat_stopped'', ''state_stopped''), (''stat_t'', ''state_topic''), (''stat_tpl'', ''state_template''),
      (''stat_unlocked'', ''state_unlocked''), (''stat_unlocking'', ''state_unlocking''),
      (''stat_val_tpl'', ''state_value_template''), (''stype'', ''subtype''),
      (''sug_dsp_prc'', ''suggested_display_precision''), (''sup_clrm'', ''supported_color_modes''),
      (''sup_dur'', ''support_duration''), (''sup_feat'', ''supported_features''),
      (''sup_vol'', ''support_volume_set''), (''swing_mode_cmd_t'', ''swing_mode_command_topic''),
      (''swing_mode_cmd_tpl'', ''swing_mode_command_template''),
      (''swing_mode_stat_t'', ''swing_mode_state_topic''),
      (''swing_mode_stat_tpl'', ''swing_mode_state_template''),
      (''temp_cmd_t'', ''temperature_command_topic''), (''temp_cmd_tpl'', ''temperature_command_template''),
      (''temp_hi_cmd_t'', ''temperature_high_command_topic''),
      (''temp_hi_cmd_tpl'', ''temperature_high_command_template''),
      (''temp_hi_stat_t'', ''temperature_high_state_topic''),
      (''temp_hi_stat_tpl'', ''temperature_high_state_template''),
      (''temp_lo_cmd_t'', ''temperature_low_command_topic''),
      (''temp_lo_cmd_tpl'', ''temperature_low_command_template''),
      (''temp_lo_stat_t'', ''temperature_low_state_topic''),
      (''temp_lo_stat_tpl'', ''temperature_low_state_template''),
      (''temp_stat_t'', ''temperature_state_topic''), (''temp_stat_tpl'', ''temperature_state_template''),
      (''temp_unit'', ''temperature_unit''), (''tilt_clsd_val'', ''tilt_closed_value''),
      (''tilt_cmd_t'', ''tilt_command_topic''), (''tilt_cmd_tpl'', ''tilt_command_template''),
      (''tilt_inv_stat'', ''tilt_invert_state''), (''tilt_max'', ''tilt_max''), (''tilt_min'', ''tilt_min''),
      (''tilt_opnd_val'', ''tilt_opened_value''), (''tilt_opt'', ''tilt_optimistic''),
      (''tilt_status_t'', ''tilt_status_topic''), (''tilt_status_tpl'', ''tilt_status_template''),
      (''tit'', ''title''), (''trns'', ''transition''), (''uniq_id'', ''unique_id''),
      (''unit_of_meas'', ''unit_of_measurement''), (''val_tpl'', ''value_template''),
      (''whit_cmd_t'', ''white_command_topic''), (''whit_scl'', ''white_scale''),
      (''xy_cmd_t'', ''xy_command_topic''), (''xy_cmd_tpl'', ''xy_command_template''),
      (''xy_stat_t'', ''xy_state_topic''), (''xy_val_tpl'', ''xy_value_template'')]"

definition deviceAbbreviations :: "(string \<times> string) list" where
  "deviceAbbreviations =
     [(''cu'', ''configuration_url''), (''cns'', ''connections''), (''hw'', ''hw_version''),
      (''ids'', ''identifiers''), (''mf'', ''manufacturer''), (''mdl'', ''model''), (''mdl_id'', ''model_id''),
      (''name'', ''name''), (''sa'', ''suggested_area''), (''sn'', ''serial_number''),
      (''sw'', ''sw_version''), (''via_device'', ''via_device'')]"

definition originAbbreviations :: "(string \<times> string) list" where
  "originAbbreviations =
     [(''name'', ''name''), (''sw'', ''sw_version''), (''url'', ''support_url'')]"

definition componentAbbreviations :: "(string \<times> string) list" where
  "componentAbbreviations =
     [(''cmps'', ''components''), (''dev'', ''device''), (''o'', ''origin''), (''p'', ''platform'')]"

section \<open>Writing out a configuration\<close>

definition expandWith :: "(string \<times> string) list \<Rightarrow> any_map \<Rightarrow> any_map" where
  "expandWith table raw =
     fold (\<lambda>(k, v). AList.update (case map_of table k of Some full \<Rightarrow> full | None \<Rightarrow> k) v) raw []"

definition full_key :: "string \<Rightarrow> string" where
  "full_key k =
     (case map_of entityAbbreviations k of
        Some full \<Rightarrow> full
      | None \<Rightarrow> (case map_of componentAbbreviations k of Some full \<Rightarrow> full | None \<Rightarrow> k))"

fun expand_value :: "string \<Rightarrow> Any \<Rightarrow> Any"
  and expand_item :: "Any \<Rightarrow> Any"
  and expand_items :: "Any list \<Rightarrow> Any list"
  and expand_comps :: "any_map \<Rightarrow> any_map"
  and expand_members :: "any_map \<Rightarrow> any_map \<Rightarrow> any_map" where
  "expand_value key (AMap m) =
     (if key = ''device'' then AMap (expandWith deviceAbbreviations m)
      else if key = ''origin'' then AMap (expandWith originAbbreviations m)
      else if key = ''components'' then AMap (expand_comps m)
      else AMap m)"
| "expand_value key (AList vs) = AList (if key = ''availability'' then expand_items vs else vs)"
| "expand_value key v = v"
| "expand_item (AMap m) = AMap (expand_members m [])"
| "expand_item v = v"
| "expand_items [] = []"
| "expand_items (v # vs) = expand_item v # expand_items vs"
| "expand_comps [] = []"
| "expand_comps ((c, v) # m) = (c, expand_item v) # expand_comps m"
| "expand_members [] acc = acc"
| "expand_members ((k, v) # m) acc =
     expand_members m (AList.update (full_key k) (expand_value (full_key k) v) acc)"

definition expandEntity :: "any_map \<Rightarrow> any_map" where
  "expandEntity raw = expand_members raw []"

definition topicBase :: string where "topicBase = ''~''"

definition expand_text :: "string \<Rightarrow> string \<Rightarrow> string" where
  "expand_text base s =
     (let s = (if prefix topicBase s then base @ drop 1 s else s) in
      if suffix topicBase s then butlast s @ base else s)"

definition expand_topic :: "string \<Rightarrow> string \<times> Any \<Rightarrow> string \<times> Any" where
  "expand_topic base kv =
     (case kv of
        (k, AStr s) \<Rightarrow> (k, AStr (if s \<noteq> [] \<and> suffix ''topic'' k then expand_text base s else s))
      | _ \<Rightarrow> kv)"

definition expand_topics :: "string \<Rightarrow> any_map \<Rightarrow> any_map" where
  "expand_topics base m = map (expand_topic base) m"

definition expand_source :: "string \<Rightarrow> Any \<Rightarrow> Any" where
  "expand_source base v = (case v of AMap m \<Rightarrow> AMap (expand_topics base m) | _ \<Rightarrow> v)"

lemma size_expand_topics: "size_list (size_prod (\<lambda>_. 0) size) (expand_topics base m) = size_list (size_prod (\<lambda>_. 0) size) m"
  by (induction m) (auto simp: expand_topics_def expand_topic_def split: Any.splits)

lemma size_component: "(k, AMap c) \<in> set m \<Longrightarrow> size_list (size_prod (\<lambda>_. 0) size) c < size_list (size_prod (\<lambda>_. 0) size) m"
  by (induction m) auto

text \<open>
  A component without a base of its own takes the shared one, and is gone through once more with it; a
  component with its own keeps it unread.
\<close>

function resolve_base :: "string \<Rightarrow> any_map \<Rightarrow> any_map" where
  "resolve_base base m =
     map (\<lambda>(k, v).
        case v of
          AList vs \<Rightarrow> (k, if k = ''availability'' then AList (map (expand_source base) vs) else v)
        | AMap cs \<Rightarrow>
            (k, if k = ''components'' then
                  AMap (map (\<lambda>(i, c).
                    case c of
                      AMap sub \<Rightarrow>
                        (i, AMap (if topicBase \<in> fst ` set sub then expand_topics base sub
                                  else resolve_base base (expand_topics base sub)))
                    | _ \<Rightarrow> (i, c)) cs)
                else v)
        | _ \<Rightarrow> expand_topic base (k, v)) m"
  by pat_completeness auto
termination
  by (relation "measure (\<lambda>(base, m). size_list (size_prod (\<lambda>_. 0) size) m)")
    (auto simp: size_expand_topics dest!: size_component)

declare resolve_base.simps [simp del]

definition expandTopicBase :: "any_map \<Rightarrow> any_map" where
  "expandTopicBase m =
     (case map_of m topicBase of
        Some (AStr base) \<Rightarrow> if base = [] then m else resolve_base base (AList.delete topicBase m)
      | _ \<Rightarrow> m)"

definition parseConfig :: "HassCodec \<Rightarrow> bytes \<Rightarrow> any_map option" where
  "parseConfig cd payload = map_option (\<lambda>raw. expandTopicBase (expandEntity raw)) (jsonUnmarshal cd payload)"

section \<open>Reading a configuration\<close>

definition cfg_str :: "HassCodec \<Rightarrow> any_map \<Rightarrow> string \<Rightarrow> string" where
  "cfg_str cd c key =
     (case map_of c key of
        Some (AStr s) \<Rightarrow> s
      | Some (AFloat f) \<Rightarrow> hc_g cd f
      | Some (ABool b) \<Rightarrow> (if b then ''true'' else ''false'')
      | _ \<Rightarrow> [])"

definition strDefault :: "HassCodec \<Rightarrow> any_map \<Rightarrow> string \<Rightarrow> string \<Rightarrow> string" where
  "strDefault cd c key d = (let s = cfg_str cd c key in if s \<noteq> [] then s else d)"

text \<open>Zero is the float whose bits but the sign are zero.\<close>

definition float_zero :: "float64 \<Rightarrow> bool" where "float_zero f \<longleftrightarrow> take_bit 63 f = 0"

definition cfg_boolean :: "any_map \<Rightarrow> string \<Rightarrow> bool \<Rightarrow> bool" where
  "cfg_boolean c key d =
     (case map_of c key of
        Some (ABool b) \<Rightarrow> b
      | Some (AStr s) \<Rightarrow>
          if to_lower s \<in> {''true'', ''yes'', ''1'', ''on''} then True
          else if to_lower s \<in> {''false'', ''no'', ''0'', ''off''} then False
          else d
      | Some (AFloat f) \<Rightarrow> \<not> float_zero f
      | _ \<Rightarrow> d)"

definition cfg_number :: "HassCodec \<Rightarrow> any_map \<Rightarrow> string \<Rightarrow> float64 option" where
  "cfg_number cd c key =
     (case map_of c key of Some (AFloat f) \<Rightarrow> Some f | Some (AStr s) \<Rightarrow> hc_scan cd s | _ \<Rightarrow> None)"

definition text_of :: "Any \<Rightarrow> string option" where
  "text_of v = (case v of AStr s \<Rightarrow> Some s | _ \<Rightarrow> None)"

definition cfg_strings :: "any_map \<Rightarrow> string \<Rightarrow> string list" where
  "cfg_strings c key =
     (case map_of c key of
        Some (AList vs) \<Rightarrow> List.map_filter text_of vs | Some (AStr s) \<Rightarrow> [s] | _ \<Rightarrow> [])"

definition submap :: "any_map \<Rightarrow> string \<Rightarrow> any_map option" where
  "submap c key = (case map_of c key of Some (AMap m) \<Rightarrow> Some m | _ \<Rightarrow> None)"

record AvailabilitySpec =
  av_topic :: string
  av_template :: string
  av_online :: string
  av_offline :: string

definition availability_item :: "HassCodec \<Rightarrow> Any \<Rightarrow> AvailabilitySpec option" where
  "availability_item cd v =
     (case v of
        AMap m \<Rightarrow>
          if cfg_str cd m ''topic'' = [] then None
          else Some \<lparr>av_topic = cfg_str cd m ''topic'', av_template = cfg_str cd m ''value_template'',
            av_online = strDefault cd m ''payload_available'' ''online'',
            av_offline = strDefault cd m ''payload_not_available'' ''offline''\<rparr>
      | _ \<Rightarrow> None)"

definition availabilityTopics :: "HassCodec \<Rightarrow> any_map \<Rightarrow> AvailabilitySpec list" where
  "availabilityTopics cd c =
     (if cfg_str cd c ''availability_topic'' \<noteq> []
      then [\<lparr>av_topic = cfg_str cd c ''availability_topic'', av_template = cfg_str cd c ''availability_template'',
              av_online = strDefault cd c ''payload_available'' ''online'',
              av_offline = strDefault cd c ''payload_not_available'' ''offline''\<rparr>]
      else []) @
     (case map_of c ''availability'' of Some (AList vs) \<Rightarrow> List.map_filter (availability_item cd) vs | _ \<Rightarrow> [])"

end
