(* ===== verification/HassCommands.thy ===== *)
theory HassCommands
  imports HassDiscovery
begin

text \<open>
  \<^verbatim>\<open>internal/plugins/hass/commands.go\<close>: which actions an entity offers, and the publish an action
  becomes; with the types of \<^verbatim>\<open>registry.go\<close> it works on. Floats are compared by their bits.
\<close>

section \<open>Floats\<close>

definition float_nan :: "float64 \<Rightarrow> bool" where
  "float_nan f \<longleftrightarrow> drop_bit 52 (take_bit 63 f) = 0x7FF \<and> take_bit 52 f \<noteq> 0"

definition float_inf :: "float64 \<Rightarrow> bool" where
  "float_inf f \<longleftrightarrow> take_bit 63 f = 0x7FF0000000000000"

definition float_key :: "float64 \<Rightarrow> int" where
  "float_key f = (if bit f 63 then - uint (take_bit 63 f) else uint (take_bit 63 f))"

definition float_less :: "float64 \<Rightarrow> float64 \<Rightarrow> bool" where
  "float_less a b \<longleftrightarrow> \<not> float_nan a \<and> \<not> float_nan b \<and> float_key a < float_key b"

definition float_le :: "float64 \<Rightarrow> float64 \<Rightarrow> bool" where
  "float_le a b \<longleftrightarrow> \<not> float_nan a \<and> \<not> float_nan b \<and> float_key a \<le> float_key b"

text \<open>Whether a float equals what \<^verbatim>\<open>math.Trunc\<close> makes of it: the bits below its binary point are zero.\<close>

definition float_whole :: "float64 \<Rightarrow> bool" where
  "float_whole f \<longleftrightarrow>
     (let e = unat (drop_bit 52 (take_bit 63 f)) in
      if e < 1023 then float_zero f
      else if e \<ge> 1075 then \<not> float_nan f
      else take_bit (1075 - e) f = 0)"

section \<open>Entities\<close>

datatype Availability = AvailabilityUnknown | AvailabilityOnline | AvailabilityOffline

record Device =
  dv_key :: string
  dv_connectionID :: string
  dv_name :: string
  dv_manufacturer :: string
  dv_model :: string
  dv_modelID :: string
  dv_swVersion :: string
  dv_hwVersion :: string
  dv_serialNumber :: string
  dv_suggestedArea :: string
  dv_configurationURL :: string
  dv_identifiers :: "string list"
  dv_connections :: "(string \<times> string) list"
  dv_viaDevice :: string
  dv_origin :: string
  dv_pinned :: bool
  dv_firstSeen :: time
  dv_lastSeen :: time

record EntityState =
  es_raw :: string
  es_value :: Any
  es_templateSupported :: bool
  es_updatedAt :: time

record Entity =
  et_id :: string
  et_connectionID :: string
  et_discoveryTopic :: string
  et_component :: string
  et_nodeID :: string
  et_objectID :: string
  et_uniqueID :: string
  et_name :: string
  et_deviceKey :: string
  et_deviceClass :: string
  et_stateClass :: string
  et_unit :: string
  et_icon :: string
  et_category :: string
  et_stateTopic :: string
  et_commandTopic :: string
  et_controllable :: bool
  et_actions :: "string list"
  et_availability :: Availability
  et_state :: "EntityState option"
  et_attributes :: "any_map option"
  et_config :: any_map
  et_discoveredAt :: time
  et_updatedAt :: time
  et_valueTemplate :: string
  et_availSpecs :: "AvailabilitySpec list"
  et_attrTopic :: string
  et_attrTemplate :: string
  et_availState :: "(string \<times> Availability) list"

definition hass_dedupe :: "string list \<Rightarrow> string list" where
  "hass_dedupe xs = (if length xs < 2 then xs else dedupe_seen {} id xs)"

lemma set_hass_dedupe [simp]: "set (hass_dedupe xs) = set xs"
  using dedupe_seen_image [of id "{}" xs] by (auto simp: hass_dedupe_def)

lemma distinct_hass_dedupe [simp]: "distinct (hass_dedupe xs)"
proof (cases "length xs < 2")
  case True
  then have "xs = [] \<or> (\<exists>x. xs = [x])" by (cases xs) (auto simp: less_Suc_eq numeral_2_eq_2)
  then show ?thesis by (auto simp: hass_dedupe_def)
next
  case False
  then show ?thesis using dedupe_seen_distinct [of id "{}" xs] by (simp add: hass_dedupe_def)
qed

section \<open>The actions of an entity\<close>

definition act_if :: "bool \<Rightarrow> string list \<Rightarrow> string list" where "act_if b xs = (if b then xs else [])"

definition component_actions :: "HassCodec \<Rightarrow> string \<Rightarrow> any_map \<Rightarrow> string list" where
  "component_actions cd component c =
     (let has = (\<lambda>k. cfg_str cd c k \<noteq> []); cmd = has ''command_topic'' in
      if component \<in> {''switch'', ''siren'', ''input_boolean'', ''automation''}
      then act_if cmd [''turn_on'', ''turn_off'', ''toggle'']
      else if component = ''light''
      then act_if cmd [''turn_on'', ''turn_off'', ''toggle''] @ act_if (has ''brightness_command_topic'') [''set_brightness''] @
        act_if (has ''effect_command_topic'') [''set_effect''] @ act_if (has ''color_temp_command_topic'') [''set_color_temp'']
      else if component = ''fan''
      then act_if cmd [''turn_on'', ''turn_off'', ''toggle''] @ act_if (has ''percentage_command_topic'') [''set_percentage''] @
        act_if (has ''preset_mode_command_topic'') [''set_preset''] @
        act_if (has ''oscillation_command_topic'') [''set_oscillation'']
      else if component = ''lock''
      then act_if cmd ([''lock'', ''unlock''] @ act_if (has ''payload_open'') [''open''])
      else if component \<in> {''cover'', ''valve''}
      then act_if cmd [''open'', ''close'', ''stop''] @ act_if (has ''set_position_topic'') [''set_position''] @
        act_if (has ''tilt_command_topic'') [''set_tilt'']
      else if component \<in> {''button'', ''scene''} then act_if cmd [''press'']
      else if component \<in> {''number'', ''text'', ''select''} then act_if cmd [''set'']
      else if component \<in> {''climate'', ''water_heater''}
      then act_if (has ''temperature_command_topic'') [''set_temperature''] @ act_if (has ''mode_command_topic'') [''set_mode''] @
        act_if (has ''preset_mode_command_topic'') [''set_preset''] @ act_if (has ''fan_mode_command_topic'') [''set_fan_mode''] @
        act_if (has ''swing_mode_command_topic'') [''set_swing_mode''] @
        act_if (has ''power_command_topic'') [''turn_on'', ''turn_off'']
      else if component = ''humidifier''
      then act_if cmd [''turn_on'', ''turn_off''] @ act_if (has ''target_humidity_command_topic'') [''set_humidity''] @
        act_if (has ''mode_command_topic'') [''set_mode'']
      else if component = ''vacuum''
      then act_if cmd [''start'', ''stop'', ''pause'', ''return_to_base'', ''locate'', ''clean_spot'']
      else if component = ''update'' then act_if cmd [''install'']
      else if component = ''alarm_control_panel'' then act_if cmd [''arm_home'', ''arm_away'', ''arm_night'', ''disarm'']
      else [])"

definition actionsFor :: "HassCodec \<Rightarrow> string \<Rightarrow> any_map \<Rightarrow> string list" where
  "actionsFor cd component c =
     hass_dedupe (component_actions cd component c @ act_if (cfg_str cd c ''command_topic'' \<noteq> []) [''publish''])"

section \<open>Checking a value\<close>

datatype hass_error =
    NotANumber | UnusableNumber | OutOfRange | NotAnOption | TextTooLong | UnknownAction | NoTopic

definition parseNumber :: "HassCodec \<Rightarrow> string \<Rightarrow> hass_error + float64" where
  "parseNumber cd v =
     (case hc_parse cd (trim_space v) of
        None \<Rightarrow> Inl NotANumber
      | Some n \<Rightarrow> if float_nan n \<or> float_inf n then Inl UnusableNumber else Inr n)"

definition parsePercent :: "HassCodec \<Rightarrow> string \<Rightarrow> hass_error + float64" where
  "parsePercent cd v =
     (case parseNumber cd v of
        Inl e \<Rightarrow> Inl e
      | Inr n \<Rightarrow> if float_less n 0 \<or> float_less 0x4059000000000000 n then Inl OutOfRange else Inr n)"

definition formatNumber :: "HassCodec \<Rightarrow> float64 \<Rightarrow> string" where
  "formatNumber cd n = (if float_whole n then int_string (cd_trunc cd n) else cd_fixed cd n)"

definition isTruthy :: "string \<Rightarrow> bool" where
  "isTruthy v \<longleftrightarrow> to_lower (trim_space v) \<in> {''1'', ''true'', ''on'', ''yes'', ''oscillate_on''}"

definition checkRange :: "HassCodec \<Rightarrow> any_map \<Rightarrow> string \<Rightarrow> string \<Rightarrow> float64 \<Rightarrow> hass_error option" where
  "checkRange cd c lo hi n =
     (if (case cfg_number cd c lo of Some m \<Rightarrow> float_less n m | None \<Rightarrow> False) then Some OutOfRange
      else if (case cfg_number cd c hi of Some m \<Rightarrow> float_less m n | None \<Rightarrow> False) then Some OutOfRange
      else None)"

definition checkOption :: "any_map \<Rightarrow> string \<Rightarrow> string \<Rightarrow> hass_error option" where
  "checkOption c key v =
     (let opts = cfg_strings c key in if opts = [] then None else if v \<in> set opts then None else Some NotAnOption)"

definition validateSetValue :: "HassCodec \<Rightarrow> Entity \<Rightarrow> any_map \<Rightarrow> string \<Rightarrow> hass_error option" where
  "validateSetValue cd e c v =
     (if et_component e = ''number'' then
        (case parseNumber cd v of Inl err \<Rightarrow> Some err | Inr n \<Rightarrow> checkRange cd c ''min'' ''max'' n)
      else if et_component e = ''select'' then checkOption c ''options'' v
      else if et_component e = ''text'' then
        (case cfg_number cd c ''max'' of
           Some m \<Rightarrow> if float_less m (hc_of_int cd (int (length v))) then Some TextTooLong else None
         | None \<Rightarrow> None)
      else None)"

section \<open>Resolving an action\<close>

text \<open>The actions that publish a fixed payload to the command topic: the key it may be configured by, and its default.\<close>

definition plain_actions :: "(string \<times> string \<times> string) list" where
  "plain_actions =
     [(''install'', ''payload_install'', ''install''),
      (''lock'', ''payload_lock'', ''LOCK''), (''unlock'', ''payload_unlock'', ''UNLOCK''),
      (''open'', ''payload_open'', ''OPEN''), (''close'', ''payload_close'', ''CLOSE''),
      (''stop'', ''payload_stop'', ''STOP''),
      (''start'', ''payload_start'', ''start''), (''pause'', ''payload_pause'', ''pause''),
      (''return_to_base'', ''payload_return_to_base'', ''return_to_base''),
      (''locate'', ''payload_locate'', ''locate''), (''clean_spot'', ''payload_clean_spot'', ''clean_spot''),
      (''arm_home'', ''payload_arm_home'', ''ARM_HOME''), (''arm_away'', ''payload_arm_away'', ''ARM_AWAY''),
      (''arm_night'', ''payload_arm_night'', ''ARM_NIGHT''), (''disarm'', ''payload_disarm'', ''DISARM'')]"

definition percent_topics :: "(string \<times> string) list" where
  "percent_topics =
     [(''set_percentage'', ''percentage_command_topic''), (''set_position'', ''set_position_topic''),
      (''set_tilt'', ''tilt_command_topic''), (''set_humidity'', ''target_humidity_command_topic'')]"

text \<open>The actions that take one of the values the configuration lists: that list's key, and the topic's.\<close>

definition option_topics :: "(string \<times> string \<times> string) list" where
  "option_topics =
     [(''set_mode'', ''modes'', ''mode_command_topic''), (''set_preset'', ''preset_modes'', ''preset_mode_command_topic''),
      (''set_fan_mode'', ''fan_modes'', ''fan_mode_command_topic''),
      (''set_swing_mode'', ''swing_modes'', ''swing_mode_command_topic''),
      (''set_effect'', ''effect_list'', ''effect_command_topic'')]"

definition number_to :: "HassCodec \<Rightarrow> string \<Rightarrow> (float64 \<Rightarrow> hass_error option) \<Rightarrow> hass_error + float64 \<Rightarrow> hass_error + string \<times> string" where
  "number_to cd topic check n =
     (case n of
        Inl e \<Rightarrow> Inl e
      | Inr n \<Rightarrow> (case check n of Some e \<Rightarrow> Inl e | None \<Rightarrow> Inr (topic, formatNumber cd n)))"

text \<open>The topic on and off go to: the power topic of a climate entity that has one.\<close>

definition switch_topic :: "HassCodec \<Rightarrow> Entity \<Rightarrow> any_map \<Rightarrow> string" where
  "switch_topic cd e c =
     (if cfg_str cd c ''power_command_topic'' \<noteq> [] \<and> et_component e = ''climate''
      then cfg_str cd c ''power_command_topic'' else cfg_str cd c ''command_topic'')"

definition resolveCommand :: "HassCodec \<Rightarrow> Entity \<Rightarrow> any_map \<Rightarrow> string \<Rightarrow> string \<Rightarrow> hass_error + string \<times> string" where
  "resolveCommand cd e c action v =
     (let cmdTopic = cfg_str cd c ''command_topic'';
          on = strDefault cd c ''payload_on'' ''ON'';
          off = strDefault cd c ''payload_off'' ''OFF''
      in if action = ''publish'' then Inr (cmdTopic, v)
      else if action = ''turn_on'' then Inr (switch_topic cd e c, on)
      else if action = ''turn_off'' then Inr (switch_topic cd e c, off)
      else if action = ''toggle'' then
        (case et_state e of
           Some st \<Rightarrow> Inr (cmdTopic, if toString cd (es_value st) = strDefault cd c ''state_on'' on then off else on)
         | None \<Rightarrow> Inr (cmdTopic, on))
      else if action = ''press'' then
        Inr (cmdTopic, if et_component e = ''scene'' then on else strDefault cd c ''payload_press'' ''PRESS'')
      else if action = ''set'' then
        (case validateSetValue cd e c v of Some err \<Rightarrow> Inl err | None \<Rightarrow> Inr (cmdTopic, v))
      else if action = ''set_brightness'' then
        let scale = (case cfg_number cd c ''brightness_scale'' of
                       Some s \<Rightarrow> if float_less 0 s then s else 0x406FE00000000000 | None \<Rightarrow> 0x406FE00000000000)
        in number_to cd (cfg_str cd c ''brightness_command_topic'')
             (\<lambda>n. if float_less n 0 \<or> float_less scale n then Some OutOfRange else None) (parseNumber cd v)
      else if action = ''set_temperature'' then
        number_to cd (cfg_str cd c ''temperature_command_topic'') (checkRange cd c ''min_temp'' ''max_temp'') (parseNumber cd v)
      else if action = ''set_color_temp'' then
        number_to cd (cfg_str cd c ''color_temp_command_topic'') (\<lambda>_. None) (parseNumber cd v)
      else if action = ''set_oscillation'' then
        Inr (cfg_str cd c ''oscillation_command_topic'',
             if isTruthy v then strDefault cd c ''payload_oscillation_on'' ''oscillate_on''
             else strDefault cd c ''payload_oscillation_off'' ''oscillate_off'')
      else case map_of plain_actions action of
        Some (key, d) \<Rightarrow> Inr (cmdTopic, strDefault cd c key d)
      | None \<Rightarrow>
          (case map_of percent_topics action of
             Some key \<Rightarrow> number_to cd (cfg_str cd c key) (\<lambda>_. None) (parsePercent cd v)
           | None \<Rightarrow>
               (case map_of option_topics action of
                  Some (opts, key) \<Rightarrow>
                    (case checkOption c opts v of Some err \<Rightarrow> Inl err | None \<Rightarrow> Inr (cfg_str cd c key, v))
                | None \<Rightarrow> Inl UnknownAction)))"

record Command =
  cm_topic :: string
  cm_payload :: bytes
  cm_qos :: nat
  cm_retain :: bool

definition BuildCommand :: "HassCodec \<Rightarrow> Entity \<Rightarrow> string \<Rightarrow> string \<Rightarrow> hass_error + Command" where
  "BuildCommand cd e action v =
     (let c = et_config e;
          qos = (case cfg_number cd c ''qos'' of
                   Some q \<Rightarrow> if float_le 0 q \<and> float_le q 0x4000000000000000 then nat (cd_trunc cd q) else 0
                 | None \<Rightarrow> 0)
      in case resolveCommand cd e c action v of
           Inl err \<Rightarrow> Inl err
         | Inr (topic, payload) \<Rightarrow>
             if topic = [] then Inl NoTopic
             else Inr \<lparr>cm_topic = topic, cm_payload = bytes_of_string payload, cm_qos = qos, cm_retain = cfg_boolean c ''retain'' False\<rparr>)"

end
