(* ===== verification/HassRegistry.thy ===== *)
theory HassRegistry
  imports HassCommands "HOL-Library.List_Lexorder" "HOL-Library.Char_ord" "HOL-Library.Product_Lexorder"
begin

text \<open>
  \<^verbatim>\<open>internal/plugins/hass/registry.go\<close>: the devices and entities that were announced, and the
  indexes that route a message to the entities it concerns. An index holds the identifiers of entities
  where the code holds pointers to them; an entity is only ever replaced after its old value has been
  taken out of the indexes, so the two name the same thing. A topic no entity is filed under has the empty
  list. The maps of devices and entities are lists of pairs in the order a range over them takes.
\<close>

record HassRegistry =
  hr_devices :: "(string \<times> Device) list"
  hr_entities :: "(string \<times> Entity) list"
  hr_stateIndex :: "string \<Rightarrow> string list"
  hr_availIndex :: "string \<Rightarrow> string list"
  hr_attrIndex :: "string \<Rightarrow> string list"
  hr_pinned :: "string \<rightharpoonup> bool"

definition hass_new :: HassRegistry where
  "hass_new = \<lparr>hr_devices = [], hr_entities = [], hr_stateIndex = (\<lambda>_. []), hr_availIndex = (\<lambda>_. []),
     hr_attrIndex = (\<lambda>_. []), hr_pinned = Map.empty\<rparr>"

definition indexKey :: "string \<Rightarrow> string \<Rightarrow> string" where
  "indexKey connID topic = connID @ CHR ''|'' # topic"

section \<open>The topic indexes\<close>

definition extraStateTopicKeys :: "string list" where
  "extraStateTopicKeys =
     [''position_topic'', ''brightness_state_topic'', ''percentage_state_topic'', ''preset_mode_state_topic'',
      ''mode_state_topic'', ''temperature_state_topic'', ''current_temperature_topic'', ''target_humidity_state_topic'',
      ''effect_state_topic'', ''color_temp_state_topic'', ''rgb_state_topic'', ''oscillation_state_topic'',
      ''tilt_status_topic'', ''action_topic'']"

text \<open>What an entity is filed under, in the order it is filed; an empty topic is none.\<close>

definition state_topics :: "HassCodec \<Rightarrow> Entity \<Rightarrow> string list" where
  "state_topics cd e = filter (\<lambda>t. t \<noteq> []) (et_stateTopic e # map (cfg_str cd (et_config e)) extraStateTopicKeys)"

definition avail_topics :: "Entity \<Rightarrow> string list" where
  "avail_topics e = filter (\<lambda>t. t \<noteq> []) (map av_topic (et_availSpecs e))"

definition attr_topics :: "Entity \<Rightarrow> string list" where
  "attr_topics e = filter (\<lambda>t. t \<noteq> []) [et_attrTopic e]"

definition index_add :: "Entity \<Rightarrow> string \<Rightarrow> (string \<Rightarrow> string list) \<Rightarrow> string \<Rightarrow> string list" where
  "index_add e topic m = (let k = indexKey (et_connectionID e) topic in m(k := m k @ [et_id e]))"

definition index_del :: "Entity \<Rightarrow> string \<Rightarrow> (string \<Rightarrow> string list) \<Rightarrow> string \<Rightarrow> string list" where
  "index_del e topic m = (let k = indexKey (et_connectionID e) topic in m(k := filter (\<lambda>i. i \<noteq> et_id e) (m k)))"

definition index_entity :: "HassCodec \<Rightarrow> Entity \<Rightarrow> HassRegistry \<Rightarrow> string list \<times> HassRegistry" where
  "index_entity cd e r =
     (hass_dedupe (filter (\<lambda>t. t \<noteq> [])
        (et_stateTopic e # map av_topic (et_availSpecs e) @ et_attrTopic e # map (cfg_str cd (et_config e)) extraStateTopicKeys)),
      r\<lparr>hr_stateIndex := fold (index_add e) (state_topics cd e) (hr_stateIndex r),
        hr_availIndex := fold (index_add e) (avail_topics e) (hr_availIndex r),
        hr_attrIndex := fold (index_add e) (attr_topics e) (hr_attrIndex r)\<rparr>)"

definition unindex :: "HassCodec \<Rightarrow> Entity \<Rightarrow> HassRegistry \<Rightarrow> HassRegistry" where
  "unindex cd e r =
     r\<lparr>hr_stateIndex := fold (index_del e) (state_topics cd e) (hr_stateIndex r),
       hr_availIndex := fold (index_del e) (avail_topics e) (hr_availIndex r),
       hr_attrIndex := fold (index_del e) (attr_topics e) (hr_attrIndex r)\<rparr>"

definition orphanedTopics :: "string \<Rightarrow> Entity \<Rightarrow> HassRegistry \<Rightarrow> string list" where
  "orphanedTopics connID e r =
     (let unused = (\<lambda>m t. t \<noteq> [] \<and> m (indexKey connID t) = []) in
      hass_dedupe (filter (unused (hr_stateIndex r)) [et_stateTopic e] @
        filter (unused (hr_availIndex r)) (map av_topic (et_availSpecs e)) @
        filter (unused (hr_attrIndex r)) [et_attrTopic e]))"

section \<open>Devices\<close>

definition pair_of :: "Any \<Rightarrow> (string \<times> string) option" where
  "pair_of v = (case v of AList [AStr a, AStr b] \<Rightarrow> Some (a, b) | _ \<Rightarrow> None)"

definition connectionPairs :: "any_map \<Rightarrow> (string \<times> string) list" where
  "connectionPairs d = (case map_of d ''connections'' of Some (AList vs) \<Rightarrow> List.map_filter pair_of vs | _ \<Rightarrow> [])"

definition deviceKey :: "HassCodec \<Rightarrow> any_map \<Rightarrow> string" where
  "deviceKey cd d =
     (if cfg_strings d ''identifiers'' \<noteq> [] then ''id:'' @ hd (sort (cfg_strings d ''identifiers''))
      else case connectionPairs d of
        (a, b) # _ \<Rightarrow> ''cn:'' @ a @ '':'' @ b
      | [] \<Rightarrow> if cfg_str cd d ''name'' \<noteq> [] then ''name:'' @ cfg_str cd d ''name'' else [])"

definition setIf :: "string \<Rightarrow> string \<Rightarrow> string" where
  "setIf old v = (if v \<noteq> [] then v else old)"

definition zero_device :: Device where
  "zero_device = \<lparr>dv_key = [], dv_connectionID = [], dv_name = [], dv_manufacturer = [], dv_model = [], dv_modelID = [],
     dv_swVersion = [], dv_hwVersion = [], dv_serialNumber = [], dv_suggestedArea = [], dv_configurationURL = [],
     dv_identifiers = [], dv_connections = [], dv_viaDevice = [], dv_origin = [], dv_pinned = False, dv_firstSeen = 0,
     dv_lastSeen = 0\<rparr>"

text \<open>Only what an announcement gives overwrites what an earlier one gave.\<close>

definition merge_device :: "HassCodec \<Rightarrow> time \<Rightarrow> any_map \<Rightarrow> any_map \<Rightarrow> Device \<Rightarrow> Device" where
  "merge_device cd now c dev d =
     (let s = cfg_str cd dev;
          d = d\<lparr>dv_name := setIf (dv_name d) (s ''name''), dv_manufacturer := setIf (dv_manufacturer d) (s ''manufacturer''),
            dv_model := setIf (dv_model d) (s ''model''), dv_modelID := setIf (dv_modelID d) (s ''model_id''),
            dv_swVersion := setIf (dv_swVersion d) (s ''sw_version''), dv_hwVersion := setIf (dv_hwVersion d) (s ''hw_version''),
            dv_serialNumber := setIf (dv_serialNumber d) (s ''serial_number''),
            dv_suggestedArea := setIf (dv_suggestedArea d) (s ''suggested_area''),
            dv_configurationURL := setIf (dv_configurationURL d) (s ''configuration_url''),
            dv_viaDevice := setIf (dv_viaDevice d) (s ''via_device''),
            dv_identifiers := (if cfg_strings dev ''identifiers'' \<noteq> [] then cfg_strings dev ''identifiers'' else dv_identifiers d),
            dv_connections := (if connectionPairs dev \<noteq> [] then connectionPairs dev else dv_connections d),
            dv_origin := (case submap c ''origin'' of Some o' \<Rightarrow> setIf (dv_origin d) (cfg_str cd o' ''name'') | None \<Rightarrow> dv_origin d)\<rparr>
      in d\<lparr>dv_name := (if dv_name d = [] then dv_key d else dv_name d), dv_lastSeen := now\<rparr>)"

definition upsertDevice :: "HassCodec \<Rightarrow> time \<Rightarrow> string \<Rightarrow> any_map \<Rightarrow> HassRegistry \<Rightarrow> Device option \<times> HassRegistry" where
  "upsertDevice cd now connID c r =
     (case submap c ''device'' of
        None \<Rightarrow> (None, r)
      | Some dev \<Rightarrow>
          let key = deviceKey cd dev; full = indexKey connID key in
          if key = [] then (None, r)
          else
            let d = (case map_of (hr_devices r) full of
                       Some d \<Rightarrow> d
                     | None \<Rightarrow> zero_device\<lparr>dv_key := key, dv_connectionID := connID, dv_firstSeen := now,
                         dv_pinned := (hr_pinned r full = Some True)\<rparr>);
                d = merge_device cd now c dev d
            in (Some d, r\<lparr>hr_devices := AList.update full d (hr_devices r)\<rparr>))"

definition entityName :: "HassCodec \<Rightarrow> any_map \<Rightarrow> Device option \<Rightarrow> DiscoveryTopic \<Rightarrow> string" where
  "entityName cd c device dt =
     (let name = cfg_str cd c ''name''; deviceName = (case device of None \<Rightarrow> [] | Some d \<Rightarrow> dv_name d) in
      if name \<noteq> [] \<and> deviceName \<noteq> [] \<and> \<not> prefix (to_lower deviceName) (to_lower name) then deviceName @ '' '' @ name
      else if name \<noteq> [] then name
      else if deviceName \<noteq> [] then deviceName
      else if cfg_str cd c ''object_id'' \<noteq> [] then cfg_str cd c ''object_id''
      else dt_objectID dt)"

section \<open>Announcing and removing\<close>

definition new_entity :: "HassCodec \<Rightarrow> time \<Rightarrow> string \<Rightarrow> DiscoveryTopic \<Rightarrow> any_map \<Rightarrow> Device option \<Rightarrow> Entity" where
  "new_entity cd now connID dt c device =
     \<lparr>et_id = indexKey connID (topicOf dt), et_connectionID = connID, et_discoveryTopic = topicOf dt,
      et_component = dt_component dt, et_nodeID = dt_nodeID dt, et_objectID = dt_objectID dt,
      et_uniqueID = cfg_str cd c ''unique_id'', et_name = entityName cd c device dt,
      et_deviceKey = (case device of None \<Rightarrow> [] | Some d \<Rightarrow> dv_key d),
      et_deviceClass = cfg_str cd c ''device_class'', et_stateClass = cfg_str cd c ''state_class'',
      et_unit = cfg_str cd c ''unit_of_measurement'', et_icon = cfg_str cd c ''icon'',
      et_category = cfg_str cd c ''entity_category'', et_stateTopic = cfg_str cd c ''state_topic'',
      et_commandTopic = cfg_str cd c ''command_topic'',
      et_controllable = (actionsFor cd (dt_component dt) c \<noteq> []), et_actions = actionsFor cd (dt_component dt) c,
      et_availability = AvailabilityUnknown, et_state = None, et_attributes = None, et_config = c,
      et_discoveredAt = now, et_updatedAt = now,
      et_valueTemplate = cfg_str cd c ''value_template'', et_availSpecs = availabilityTopics cd c,
      et_attrTopic = cfg_str cd c ''json_attributes_topic'', et_attrTemplate = cfg_str cd c ''json_attributes_template'',
      et_availState = []\<rparr>"

text \<open>What a re-announced entity keeps.\<close>

definition carry_over :: "Entity \<Rightarrow> Entity \<Rightarrow> Entity" where
  "carry_over old e =
     e\<lparr>et_state := et_state old, et_attributes := et_attributes old, et_availability := et_availability old,
       et_discoveredAt := et_discoveredAt old,
       et_availState := fold (\<lambda>(k, v). AList.update k v) (et_availState old) (et_availState e)\<rparr>"

definition hass_Upsert ::
    "HassCodec \<Rightarrow> time \<Rightarrow> string \<Rightarrow> DiscoveryTopic \<Rightarrow> any_map \<Rightarrow> HassRegistry \<Rightarrow> (Entity \<times> string list) \<times> HassRegistry" where
  "hass_Upsert cd now connID dt c r =
     (let i = indexKey connID (topicOf dt);
          (device, r) = upsertDevice cd now connID c r;
          e = new_entity cd now connID dt c device;
          (e, r) = (case map_of (hr_entities r) i of
                      None \<Rightarrow> (e, r)
                    | Some old \<Rightarrow> (carry_over old e, unindex cd old r));
          r = r\<lparr>hr_entities := AList.update i e (hr_entities r)\<rparr>;
          (topics, r) = index_entity cd e r
      in ((e, topics), r))"

definition hass_Remove :: "HassCodec \<Rightarrow> string \<Rightarrow> string \<Rightarrow> HassRegistry \<Rightarrow> string list \<times> HassRegistry" where
  "hass_Remove cd connID topic r =
     (let i = indexKey connID topic in
      case map_of (hr_entities r) i of
        None \<Rightarrow> ([], r)
      | Some e \<Rightarrow>
          let r = (unindex cd e r)\<lparr>hr_entities := AList.delete i (hr_entities r)\<rparr>;
              used = (\<exists>(_, x) \<in> set (hr_entities r). et_connectionID x = connID \<and> et_deviceKey x = et_deviceKey e);
              r = (if et_deviceKey e \<noteq> [] \<and> \<not> used
                   then r\<lparr>hr_devices := AList.delete (indexKey connID (et_deviceKey e)) (hr_devices r)\<rparr> else r)
          in (orphanedTopics connID e r, r))"

section \<open>Messages\<close>

definition secondaryTemplateFor :: "HassCodec \<Rightarrow> Entity \<Rightarrow> string \<Rightarrow> string" where
  "secondaryTemplateFor cd e topic =
     (let c = et_config e in
      case find (\<lambda>k. cfg_str cd c k = topic) extraStateTopicKeys of
        None \<Rightarrow> []
      | Some k \<Rightarrow>
          if suffix ''_state_topic'' k then
            let base = trim_suffix ''_state_topic'' k; t = cfg_str cd c (base @ ''_value_template'')
            in if t \<noteq> [] then t else cfg_str cd c (base @ ''_state_template'')
          else if k = ''position_topic'' then cfg_str cd c ''position_template''
          else if k = ''current_temperature_topic'' then cfg_str cd c ''current_temperature_template''
          else if k = ''tilt_status_topic'' then cfg_str cd c ''tilt_status_template''
          else if k = ''action_topic'' then cfg_str cd c ''action_template''
          else [])"

text \<open>The default mode, \<open>latest\<close>, is the branch of \<open>any\<close>.\<close>

definition combineAvailability :: "HassCodec \<Rightarrow> Entity \<Rightarrow> Availability" where
  "combineAvailability cd e =
     (let vs = map snd (et_availState e);
          online = AvailabilityOnline \<in> set vs; offline = AvailabilityOffline \<in> set vs
      in if vs = [] then AvailabilityUnknown
         else if strDefault cd (et_config e) ''availability_mode'' ''latest'' = ''all'' then
           (if offline then AvailabilityOffline else if online then AvailabilityOnline else AvailabilityUnknown)
         else
           (if online then AvailabilityOnline else if offline then AvailabilityOffline else AvailabilityUnknown))"

definition parseAttributes :: "HassCodec \<Rightarrow> string \<Rightarrow> bytes \<Rightarrow> any_map option" where
  "parseAttributes cd tpl payload =
     (case tr_value (renderTemplate cd tpl payload) of
        AMap m \<Rightarrow> Some m
      | _ \<Rightarrow> if tpl = [] then (case hass_parse cd payload of Some (AMap m) \<Rightarrow> Some m | _ \<Rightarrow> None) else None)"

definition state_from :: "HassCodec \<Rightarrow> time \<Rightarrow> string \<Rightarrow> bytes \<Rightarrow> Entity \<Rightarrow> Entity" where
  "state_from cd now topic payload e =
     (let tpl = (if topic \<noteq> et_stateTopic e then secondaryTemplateFor cd e topic else et_valueTemplate e);
          res = renderTemplate cd tpl payload
      in e\<lparr>et_state := Some \<lparr>es_raw = string_of_bytes payload, es_value = tr_value res,
             es_templateSupported = tr_supported res, es_updatedAt = now\<rparr>, et_updatedAt := now\<rparr>)"

definition source_from :: "HassCodec \<Rightarrow> string \<Rightarrow> bytes \<Rightarrow> AvailabilitySpec \<Rightarrow> (string \<times> Availability) list \<Rightarrow>
    (string \<times> Availability) list" where
  "source_from cd topic payload s st =
     (if av_topic s \<noteq> topic then st
      else
        let v = toString cd (tr_value (renderTemplate cd (av_template s) payload)) in
        AList.update (av_topic s)
          (if v = av_online s then AvailabilityOnline else if v = av_offline s then AvailabilityOffline
           else AvailabilityUnknown) st)"

definition avail_from :: "HassCodec \<Rightarrow> time \<Rightarrow> string \<Rightarrow> bytes \<Rightarrow> Entity \<Rightarrow> Entity" where
  "avail_from cd now topic payload e =
     (let e = e\<lparr>et_availState := fold (source_from cd topic payload) (et_availSpecs e) (et_availState e)\<rparr>
      in e\<lparr>et_availability := combineAvailability cd e, et_updatedAt := now\<rparr>)"

definition attrs_from :: "HassCodec \<Rightarrow> time \<Rightarrow> bytes \<Rightarrow> Entity \<Rightarrow> Entity" where
  "attrs_from cd now payload e =
     (case parseAttributes cd (et_attrTemplate e) payload of
        None \<Rightarrow> e | Some m \<Rightarrow> e\<lparr>et_attributes := Some m, et_updatedAt := now\<rparr>)"

definition upd_entity :: "(Entity \<Rightarrow> Entity) \<Rightarrow> string \<Rightarrow> HassRegistry \<Rightarrow> HassRegistry" where
  "upd_entity f i r = r\<lparr>hr_entities := map (\<lambda>(j, e). (j, if j = i then f e else e)) (hr_entities r)\<rparr>"

text \<open>The identifiers of the entities touched are the answer, each once.\<close>

definition hass_ApplyState :: "HassCodec \<Rightarrow> time \<Rightarrow> string \<Rightarrow> string \<Rightarrow> bytes \<Rightarrow> HassRegistry \<Rightarrow> string list \<times> HassRegistry" where
  "hass_ApplyState cd now connID topic payload r =
     (let k = indexKey connID topic;
          states = hr_stateIndex r k; avails = hr_availIndex r k; attrs = hr_attrIndex r k;
          takes = (\<lambda>i. case map_of (hr_entities r) i of None \<Rightarrow> False
                     | Some e \<Rightarrow> parseAttributes cd (et_attrTemplate e) payload \<noteq> None);
          r = fold (upd_entity (state_from cd now topic payload)) states r;
          r = fold (upd_entity (avail_from cd now topic payload)) avails r;
          r = fold (upd_entity (attrs_from cd now payload)) attrs r
      in (hass_dedupe (states @ avails @ filter takes attrs), r))"

section \<open>Views and pins\<close>

definition hass_Entities :: "string \<Rightarrow> HassRegistry \<Rightarrow> Entity list" where
  "hass_Entities connID r =
     sort_key et_name (filter (\<lambda>e. connID = [] \<or> et_connectionID e = connID) (map snd (hr_entities r)))"

definition hass_Entity :: "string \<Rightarrow> HassRegistry \<Rightarrow> Entity option" where
  "hass_Entity i r = map_of (hr_entities r) i"

definition sortEntities :: "Entity list \<Rightarrow> Entity list" where
  "sortEntities es = sort_key (\<lambda>e. (et_component e, to_lower (et_name e))) es"

definition hass_Devices :: "string \<Rightarrow> HassRegistry \<Rightarrow> (Device \<times> Entity list) list" where
  "hass_Devices connID r =
     (let es = filter (\<lambda>e. connID = [] \<or> et_connectionID e = connID) (map snd (hr_entities r));
          key = (\<lambda>e. indexKey (et_connectionID e) (et_deviceKey e));
          grouped = filter (\<lambda>e. et_deviceKey e \<noteq> []) es;
          orphans = filter (\<lambda>e. et_deviceKey e = []) es;
          views = List.map_filter (\<lambda>k. map_option (\<lambda>d. (d, sortEntities (filter (\<lambda>e. key e = k) grouped)))
                    (map_of (hr_devices r) k)) (remdups (map key grouped));
          views = views @ (if orphans \<noteq> []
                    then [(zero_device\<lparr>dv_key := ''__ungrouped__'', dv_connectionID := connID,
                             dv_name := ''Ungrouped entities''\<rparr>, sortEntities orphans)]
                    else [])
      in sort_key (\<lambda>(d, _). (\<not> dv_pinned d, to_lower (dv_name d))) views)"

definition SetPinned :: "string \<Rightarrow> string \<Rightarrow> bool \<Rightarrow> HassRegistry \<Rightarrow> string option \<times> HassRegistry" where
  "SetPinned connID key pinned r =
     (let full = indexKey connID key in
      case map_of (hr_devices r) full of
        None \<Rightarrow> (None, r)
      | Some d \<Rightarrow> (Some full, r\<lparr>hr_devices := AList.update full (d\<lparr>dv_pinned := pinned\<rparr>) (hr_devices r),
                     hr_pinned := (hr_pinned r)(full \<mapsto> pinned)\<rparr>))"

definition LoadPinned :: "(string \<times> bool) list \<Rightarrow> HassRegistry \<Rightarrow> HassRegistry" where
  "LoadPinned keys r =
     fold (\<lambda>(k, v) r. r\<lparr>hr_pinned := (hr_pinned r)(k \<mapsto> v),
        hr_devices := map (\<lambda>(j, d). (j, if j = k then d\<lparr>dv_pinned := v\<rparr> else d)) (hr_devices r)\<rparr>) keys r"

definition ClearConnection :: "HassCodec \<Rightarrow> string \<Rightarrow> HassRegistry \<Rightarrow> HassRegistry" where
  "ClearConnection cd connID r =
     (let r = fold (\<lambda>(i, e) r. if et_connectionID e = connID
                then (unindex cd e r)\<lparr>hr_entities := AList.delete i (hr_entities r)\<rparr> else r) (hr_entities r) r
      in r\<lparr>hr_devices := filter (\<lambda>(k, d). dv_connectionID d \<noteq> connID) (hr_devices r)\<rparr>)"

definition hass_Stats :: "HassRegistry \<Rightarrow> nat \<times> nat" where
  "hass_Stats r = (length (hr_devices r), length (hr_entities r))"

end
