(* ===== verification/HassPlugin.thy ===== *)
theory HassPlugin
  imports HassRegistry PlcPlugin
begin

text \<open>
  \<^verbatim>\<open>internal/plugins/hass/plugin.go\<close>: the plugin around the registry. It subscribes on demand to the
  topics the announcements name, through the plugin host, and remembers per connection which it has asked
  for. What the host answers is only logged. A handler gives the status it answers with; a request body
  that does not decode is no request.
\<close>

definition hass_id :: string where "hass_id = ''home-assistant''"

record HassPlugin =
  hp_registry :: HassRegistry
  hp_prefix :: string
  hp_subscribed :: "string \<rightharpoonup> string list"
  hp_dirty :: "string list"

type_synonym hass_state = "HassPlugin \<times> SettingValue Runtime"

definition hass_settingString :: "HassCodec \<Rightarrow> SettingValue settings \<Rightarrow> string \<Rightarrow> string \<Rightarrow> string" where
  "hass_settingString cd st key d =
     (case st key of
        Some (SvString s) \<Rightarrow> if s \<noteq> [] then s else d | Some (SvFloat f) \<Rightarrow> cd_fixed cd f | _ \<Rightarrow> d)"

definition pinPrefix :: string where "pinPrefix = ''pin:''"

definition hass_init :: "HassCodec \<Rightarrow> SettingValue settings \<Rightarrow> (string \<times> string) list \<Rightarrow> HassPlugin" where
  "hass_init cd st stored =
     (let pre = trim_char slash (hass_settingString cd st ''discoveryPrefix'' ''homeassistant'');
          pins = map (\<lambda>(k, v). (trim_prefix pinPrefix k, v = ''1'')) (filter (\<lambda>(k, v). prefix pinPrefix k) stored)
      in \<lparr>hp_registry = LoadPinned pins hass_new, hp_prefix = (if pre = [] then ''homeassistant'' else pre),
          hp_subscribed = Map.empty, hp_dirty = []\<rparr>)"

definition hass_qos :: "HassCodec \<Rightarrow> SettingValue settings \<Rightarrow> nat" where
  "hass_qos cd st =
     (case ParseInt (hass_settingString cd st ''subscribeQos'' ''0'') of
        None \<Rightarrow> 0 | Some q \<Rightarrow> if q < 0 \<or> q > 2 then 0 else nat q)"

definition hass_sub :: "nat \<Rightarrow> string \<Rightarrow> Subscription" where
  "hass_sub q f = \<lparr>sub_filter = f, sub_qos = q, sub_noLocal = False, sub_retainAsPublished = False, sub_retainHandling = 0\<rparr>"

definition hass_Subscriptions :: "HassCodec \<Rightarrow> SettingValue settings \<Rightarrow> HassPlugin \<Rightarrow> Subscription list" where
  "hass_Subscriptions cd st p = [hass_sub (hass_qos cd st) (hp_prefix p @ ''/#'')]"

definition markDirty :: "string \<Rightarrow> HassPlugin \<Rightarrow> HassPlugin" where
  "markDirty connID p = p\<lparr>hp_dirty := List.insert connID (hp_dirty p)\<rparr>"

section \<open>Following topics\<close>

text \<open>The topics not yet asked for; one that is no filter is passed over.\<close>

fun fresh_topics :: "string list \<Rightarrow> string list \<Rightarrow> string list" where
  "fresh_topics seen [] = []"
| "fresh_topics seen (t # ts) =
     (if t \<in> set seen \<or> ValidateFilter t \<noteq> Inr () then fresh_topics seen ts else t # fresh_topics (t # seen) ts)"

definition seen_topics :: "string \<Rightarrow> HassPlugin \<Rightarrow> string list" where
  "seen_topics connID p = (case hp_subscribed p connID of None \<Rightarrow> [] | Some s \<Rightarrow> s)"

definition subscribeTopics :: "HassCodec \<Rightarrow> Env \<Rightarrow> string \<Rightarrow> string list \<Rightarrow> hass_state \<Rightarrow> hass_state" where
  "subscribeTopics cd env connID topics s =
     (if topics = [] then s
      else case s of (p, r) \<Rightarrow>
        let seen = seen_topics connID p;
            fresh = fresh_topics seen topics;
            q = hass_qos cd (host_Settings hass_id r);
            p = p\<lparr>hp_subscribed := (hp_subscribed p)(connID \<mapsto> seen @ fresh)\<rparr>
        in if fresh = [] then (p, r) else (p, snd (host_Subscribe env hass_id connID (map (hass_sub q) fresh) r)))"

definition unsubscribeTopics :: "Env \<Rightarrow> string \<Rightarrow> string list \<Rightarrow> hass_state \<Rightarrow> hass_state" where
  "unsubscribeTopics env connID topics s =
     (if topics = [] then s
      else case s of (p, r) \<Rightarrow>
        (p\<lparr>hp_subscribed :=
             (case hp_subscribed p connID of
                None \<Rightarrow> hp_subscribed p
              | Some seen \<Rightarrow> (hp_subscribed p)(connID \<mapsto> filter (\<lambda>t. t \<notin> set topics) seen))\<rparr>,
         snd (host_Unsubscribe env hass_id connID topics r)))"

section \<open>Announcements\<close>

definition announce :: "HassCodec \<Rightarrow> Env \<Rightarrow> time \<Rightarrow> string \<Rightarrow> DiscoveryTopic \<Rightarrow> any_map \<Rightarrow> hass_state \<Rightarrow> hass_state" where
  "announce cd env now connID dt c s =
     (case s of (p, r) \<Rightarrow>
        let ((e, topics), g) = hass_Upsert cd now connID dt c (hp_registry p)
        in subscribeTopics cd env connID topics (p\<lparr>hp_registry := g\<rparr>, r))"

definition retract :: "HassCodec \<Rightarrow> Env \<Rightarrow> string \<Rightarrow> string \<Rightarrow> hass_state \<Rightarrow> hass_state" where
  "retract cd env connID topic s =
     (case s of (p, r) \<Rightarrow>
        let (orphaned, g) = hass_Remove cd connID topic (hp_registry p)
        in unsubscribeTopics env connID orphaned (p\<lparr>hp_registry := g\<rparr>, r))"

text \<open>A component inherits what the payload has beside its components, and is announced as an entity of its own.\<close>

definition apply_component ::
    "HassCodec \<Rightarrow> Env \<Rightarrow> time \<Rightarrow> string \<Rightarrow> DiscoveryTopic \<Rightarrow> any_map \<Rightarrow> string \<times> Any \<Rightarrow> hass_state \<Rightarrow> hass_state" where
  "apply_component cd env now connID dt shared kv s =
     (case kv of
        (cid, AMap sub) \<Rightarrow>
          let merged = fold (\<lambda>(k, v). AList.update k v) sub shared;
              platform = cfg_str cd merged ''platform''
          in if platform = [] then s
             else announce cd env now connID
               \<lparr>dt_prefix = dt_prefix dt, dt_component = platform, dt_nodeID = dt_objectID dt, dt_objectID = cid,
                dt_deviceScoped = False\<rparr> merged s
      | _ \<Rightarrow> s)"

definition applyDeviceScoped ::
    "HassCodec \<Rightarrow> Env \<Rightarrow> time \<Rightarrow> string \<Rightarrow> DiscoveryTopic \<Rightarrow> any_map \<Rightarrow> hass_state \<Rightarrow> hass_state" where
  "applyDeviceScoped cd env now connID dt c s =
     (case submap c ''components'' of
        None \<Rightarrow> s
      | Some comps \<Rightarrow> fold (apply_component cd env now connID dt (AList.delete ''components'' c)) comps s)"

definition removeDeviceScoped :: "HassCodec \<Rightarrow> Env \<Rightarrow> string \<Rightarrow> DiscoveryTopic \<Rightarrow> hass_state \<Rightarrow> hass_state" where
  "removeDeviceScoped cd env connID dt s =
     fold (\<lambda>e s. if et_nodeID e \<noteq> dt_objectID dt then s else retract cd env connID (et_discoveryTopic e) s)
       (hass_Entities connID (hp_registry (fst s))) s"

definition handleDiscovery :: "HassCodec \<Rightarrow> Env \<Rightarrow> time \<Rightarrow> Message \<Rightarrow> DiscoveryTopic \<Rightarrow> hass_state \<Rightarrow> hass_state" where
  "handleDiscovery cd env now m dt s =
     (let cid = msg_connectionID m; dirty = apfst (markDirty cid) in
      if trim_space (string_of_bytes (msg_payload m)) = [] then
        dirty (if dt_deviceScoped dt then removeDeviceScoped cd env cid dt s else retract cd env cid (topicOf dt) s)
      else case parseConfig cd (msg_payload m) of
        None \<Rightarrow> s
      | Some c \<Rightarrow>
          dirty (if dt_deviceScoped dt then applyDeviceScoped cd env now cid dt c s else announce cd env now cid dt c s))"

definition hass_HandleMessage :: "HassCodec \<Rightarrow> Env \<Rightarrow> time \<Rightarrow> Message \<Rightarrow> hass_state \<Rightarrow> hass_state" where
  "hass_HandleMessage cd env now m s =
     (case parseDiscoveryTopic (hp_prefix (fst s)) (msg_topic m) of
        Some dt \<Rightarrow> handleDiscovery cd env now m dt s
      | None \<Rightarrow>
          (case s of (p, r) \<Rightarrow>
             let (ids, g) = hass_ApplyState cd now (msg_connectionID m) (msg_topic m) (msg_payload m) (hp_registry p);
                 conns = List.map_filter (\<lambda>i. map_option et_connectionID (hass_Entity i g)) ids
             in (fold markDirty conns (p\<lparr>hp_registry := g\<rparr>), r)))"

text \<open>One tick of the loop that tells the browsers: an event for every connection that changed.\<close>

definition hass_flush :: "hass_state \<Rightarrow> hass_state" where
  "hass_flush s =
     (case s of (p, r) \<Rightarrow> (p\<lparr>hp_dirty := []\<rparr>, fold (\<lambda>_. host_Emit hass_id ''changed'') (hp_dirty p) r))"

section \<open>Handlers\<close>

record HassRequest =
  hq_entityID :: string
  hq_action :: string
  hq_value :: string

definition hass_handleCommand :: "HassCodec \<Rightarrow> Env \<Rightarrow> Role option \<Rightarrow> HassRequest option \<Rightarrow> HassPlugin \<Rightarrow>
    SettingValue Runtime \<Rightarrow> nat \<times> SettingValue Runtime" where
  "hass_handleCommand cd env user body p r =
     (if \<not> is_operator user then (403, r)
      else if \<not> settingBool (host_Settings hass_id r) ''allowControl'' True then (403, r)
      else case body of
        None \<Rightarrow> (400, r)
      | Some req \<Rightarrow>
          case hass_Entity (hq_entityID req) (hp_registry p) of
            None \<Rightarrow> (404, r)
          | Some e \<Rightarrow>
              case BuildCommand cd e (hq_action req) (hq_value req) of
                Inl err \<Rightarrow> (400, r)
              | Inr c \<Rightarrow>
                  case host_Publish env (et_connectionID e) \<lparr>pub_topic = cm_topic c, pub_payload = cm_payload c,
                      pub_qos = cm_qos c, pub_retain = cm_retain c, pub_props = None\<rparr> r of
                    (Inl err, r) \<Rightarrow> (502, r)
                  | (Inr _, r) \<Rightarrow> (200, r))"

record PinRequest =
  pr_connectionID :: string
  pr_deviceKey :: string
  pr_pinned :: bool

text \<open>A pin that could not be saved is only logged; \<open>saved\<close> is whether the table took it.\<close>

definition handlePin :: "bool \<Rightarrow> PinRequest option \<Rightarrow> hass_state \<Rightarrow> nat \<times> hass_state" where
  "handlePin saved body s =
     (case s of (p, r) \<Rightarrow>
        case body of
          None \<Rightarrow> (400, s)
        | Some req \<Rightarrow>
            case SetPinned (pr_connectionID req) (pr_deviceKey req) (pr_pinned req) (hp_registry p) of
              (None, g) \<Rightarrow> (404, s)
            | (Some key, g) \<Rightarrow>
                (200, p\<lparr>hp_registry := g\<rparr>,
                 if saved then PluginSet hass_id (pinPrefix @ key) (if pr_pinned req then ''1'' else ''0'') r else r))"

end
