(* ===== verification/HassTopics.thy ===== *)
theory HassTopics
  imports HassPlugin
begin

text \<open>
  What holds of the plugin's texts: a discovery topic is the identity of what it announces, a template
  reads what its path names, and every action an entity offers has somewhere to go.
\<close>

section \<open>Discovery topics\<close>

text \<open>A discovery topic in its parts, below the prefix \<open>pre\<close>.\<close>

definition segment :: "string \<Rightarrow> bool" where "segment s \<longleftrightarrow> s \<noteq> [] \<and> slash \<notin> set s"

definition wf_discovery :: "string \<Rightarrow> DiscoveryTopic \<Rightarrow> bool" where
  "wf_discovery pre dt \<longleftrightarrow>
     dt_prefix dt = pre \<and> segment (dt_component dt) \<and> segment (dt_objectID dt) \<and>
     (dt_nodeID dt \<noteq> [] \<longrightarrow> segment (dt_nodeID dt)) \<and> dt_deviceScoped dt = (dt_component dt = ''device'')"

definition rest_of :: "DiscoveryTopic \<Rightarrow> string list" where
  "rest_of dt = dt_component dt # (if dt_nodeID dt \<noteq> [] then [dt_nodeID dt] else []) @ [dt_objectID dt, ''config'']"

lemma topicOf_rest: "topicOf dt = dt_prefix dt @ slash # join_with slash (rest_of dt)"
  by (simp add: topicOf_def rest_of_def join_with_Cons)

lemma no_slash_in_config [simp]: "slash \<notin> set ''config''"
  by simp

lemma split_rest: "wf_discovery pre dt \<Longrightarrow> split_on slash (join_with slash (rest_of dt)) = rest_of dt"
  by (rule split_join) (auto simp: rest_of_def wf_discovery_def segment_def split: if_splits)

lemma parse_topicOf:
  assumes wf: "wf_discovery pre dt"
  shows "parseDiscoveryTopic pre (topicOf dt) = Some dt"
proof -
  define t where "t = topicOf dt"
  have t': "t = (pre @ [slash]) @ join_with slash (rest_of dt)"
    using wf by (simp add: t_def topicOf_rest wf_discovery_def)
  then have "prefix (pre @ [slash]) t" "split_on slash (trim_prefix (pre @ [slash]) t) = rest_of dt"
    by (simp_all add: trim_prefix_def split_rest [OF wf])
  then have "parseDiscoveryTopic pre t = Some dt"
    using wf by (cases dt) (auto simp: parseDiscoveryTopic_def Let_def rest_of_def wf_discovery_def segment_def)
  then show ?thesis by (simp add: t_def)
qed

lemma parts_cases:
  assumes "length ps = 3 \<or> length ps = 4" "last ps = ''config''"
  obtains a b where "ps = [a, b, ''config'']" | a b c where "ps = [a, b, c, ''config'']"
  using assms
  by (auto simp: length_Suc_conv numeral_3_eq_3 eval_nat_numeral split: if_splits)

lemma parsed_wf:
  assumes "parseDiscoveryTopic pre t = Some dt"
  shows "wf_discovery pre dt \<and> topicOf dt = t"
proof -
  let ?rest = "trim_prefix (pre @ [slash]) t"
  let ?ps = "split_on slash ?rest"
  have pre: "prefix (pre @ [slash]) t" and len: "length ?ps = 3 \<or> length ?ps = 4" and
    last: "last ?ps = ''config''" and full: "[] \<notin> set (butlast ?ps)"
    using assms by (auto simp: parseDiscoveryTopic_def Let_def split: if_splits)
  have t: "t = pre @ slash # ?rest"
    using pre by (auto simp: trim_prefix_def prefix_def)
  have rest: "?rest = join_with slash ?ps" by simp
  have clean: "\<And>p. p \<in> set ?ps \<Longrightarrow> slash \<notin> set p" by (rule split_on_parts)
  from len last show ?thesis
  proof (cases rule: parts_cases)
    case (1 a b)
    then have dt: "dt = \<lparr>dt_prefix = pre, dt_component = a, dt_nodeID = [], dt_objectID = b, dt_deviceScoped = (a = ''device'')\<rparr>"
      using assms by (auto simp: parseDiscoveryTopic_def Let_def split: if_splits)
    have "segment a" "segment b" using 1 clean full by (auto simp: segment_def)
    moreover have "topicOf dt = t"
      by (subst t, subst rest) (simp add: topicOf_rest rest_of_def dt 1)
    ultimately show ?thesis by (simp add: wf_discovery_def dt)
  next
    case (2 a b c)
    then have dt: "dt = \<lparr>dt_prefix = pre, dt_component = a, dt_nodeID = b, dt_objectID = c, dt_deviceScoped = (a = ''device'')\<rparr>"
      using assms by (auto simp: parseDiscoveryTopic_def Let_def split: if_splits)
    have "segment a" "segment b" "segment c" using 2 clean full by (auto simp: segment_def)
    moreover have "topicOf dt = t"
      by (subst t, subst rest) (use \<open>segment b\<close> in \<open>simp add: topicOf_rest rest_of_def dt 2 segment_def\<close>)
    ultimately show ?thesis by (simp add: wf_discovery_def dt)
  qed
qed

text \<open>
  C24. Discovery topics parse to exactly what they were built from: a topic reads as an announcement if and
  only if it is the topic of that announcement and the announcement is well formed (non-empty segments
  without a slash, a node that may be missing), so no two topics below a prefix share an identity.
\<close>

theorem discovery_topic_identity:
  "parseDiscoveryTopic pre t = Some dt \<longleftrightarrow> wf_discovery pre dt \<and> topicOf dt = t"
  using parse_topicOf parsed_wf by blast

section \<open>Actions\<close>

definition on_command_topic :: "string list" where
  "on_command_topic = [''turn_on'', ''turn_off'', ''toggle'', ''press'', ''set'', ''publish''] @ map fst plain_actions"

definition own_topic :: "(string \<times> string) list" where
  "own_topic =
     [(''set_brightness'', ''brightness_command_topic''), (''set_temperature'', ''temperature_command_topic''),
      (''set_color_temp'', ''color_temp_command_topic''), (''set_oscillation'', ''oscillation_command_topic'')] @
     percent_topics @ map (\<lambda>(a, _, key). (a, key)) option_topics"

lemma own_topic_at [simp]:
  "map_of own_topic ''set_brightness'' = Some ''brightness_command_topic''"
  "map_of own_topic ''set_temperature'' = Some ''temperature_command_topic''"
  "map_of own_topic ''set_color_temp'' = Some ''color_temp_command_topic''"
  "map_of own_topic ''set_oscillation'' = Some ''oscillation_command_topic''"
  "map_of own_topic ''set_percentage'' = Some ''percentage_command_topic''"
  "map_of own_topic ''set_position'' = Some ''set_position_topic''"
  "map_of own_topic ''set_tilt'' = Some ''tilt_command_topic''"
  "map_of own_topic ''set_humidity'' = Some ''target_humidity_command_topic''"
  "map_of own_topic ''set_mode'' = Some ''mode_command_topic''"
  "map_of own_topic ''set_preset'' = Some ''preset_mode_command_topic''"
  "map_of own_topic ''set_fan_mode'' = Some ''fan_mode_command_topic''"
  "map_of own_topic ''set_swing_mode'' = Some ''swing_mode_command_topic''"
  "map_of own_topic ''set_effect'' = Some ''effect_command_topic''"
  by (simp_all add: own_topic_def percent_topics_def option_topics_def)

lemma on_command_topic_set: "set on_command_topic = {''turn_on'', ''turn_off'', ''toggle'', ''press'', ''set'', ''publish'', ''install'', ''lock'', ''unlock'', ''open'', ''close'', ''stop'', ''start'', ''pause'', ''return_to_base'', ''locate'', ''clean_spot'', ''arm_home'', ''arm_away'', ''arm_night'', ''disarm''}"
  by (simp add: on_command_topic_def plain_actions_def)

lemma act_if_set [simp]: "a \<in> set (act_if b xs) \<longleftrightarrow> b \<and> a \<in> set xs"
  by (simp add: act_if_def)

text \<open>An action is offered with the topic it needs, but for one case: on and off of a water heater with a power topic.\<close>

lemma offered_has_topic:
  assumes "a \<in> set (actionsFor cd component c)"
  shows "(a \<in> set on_command_topic \<and> cfg_str cd c ''command_topic'' \<noteq> []) \<or>
     (\<exists>key. map_of own_topic a = Some key \<and> cfg_str cd c key \<noteq> []) \<or>
     (a \<in> {''turn_on'', ''turn_off''} \<and> component \<in> {''climate'', ''water_heater''} \<and> cfg_str cd c ''power_command_topic'' \<noteq> [])"
proof -
  have "a \<in> set (component_actions cd component c) \<or> a = ''publish'' \<and> cfg_str cd c ''command_topic'' \<noteq> []"
    using assms by (auto simp: actionsFor_def)
  then show ?thesis
  proof
    assume "a \<in> set (component_actions cd component c)"
    then show ?thesis
      unfolding component_actions_def Let_def on_command_topic_set
      by (simp split: if_split_asm) (elim disjE conjE; hypsubst?; simp)+
  qed (simp add: on_command_topic_set)
qed

text \<open>Where a resolved command goes.\<close>

lemma number_to_topic: "number_to cd t check n = Inr (t', p) \<Longrightarrow> t' = t"
  by (auto simp: number_to_def split: sum.splits option.splits)

definition command_key :: "HassCodec \<Rightarrow> Entity \<Rightarrow> any_map \<Rightarrow> string \<Rightarrow> string" where
  "command_key cd e c action =
     (if action \<in> {''turn_on'', ''turn_off''} \<and> cfg_str cd c ''power_command_topic'' \<noteq> [] \<and> et_component e = ''climate''
      then ''power_command_topic''
      else case map_of own_topic action of Some key \<Rightarrow> key | None \<Rightarrow> ''command_topic'')"

definition special_actions :: "string list" where
  "special_actions =
     [''publish'', ''turn_on'', ''turn_off'', ''toggle'', ''press'', ''set'', ''set_brightness'', ''set_temperature'',
      ''set_color_temp'', ''set_oscillation'']"

lemma resolve_special:
  assumes "action \<in> set special_actions" "resolveCommand cd e c action v = Inr (t, p)"
  shows "t = cfg_str cd c (command_key cd e c action)"
  using assms unfolding special_actions_def list.set
  by (elim insertE emptyE; hypsubst)
    (auto simp: resolveCommand_def Let_def command_key_def own_topic_def percent_topics_def option_topics_def switch_topic_def
      dest: number_to_topic split: if_splits option.splits)

lemma resolve_other:
  "action \<notin> set special_actions \<Longrightarrow>
     resolveCommand cd e c action v =
       (case map_of plain_actions action of
          Some (key, d) \<Rightarrow> Inr (cfg_str cd c ''command_topic'', strDefault cd c key d)
        | None \<Rightarrow>
            (case map_of percent_topics action of
               Some key \<Rightarrow> number_to cd (cfg_str cd c key) (\<lambda>_. None) (parsePercent cd v)
             | None \<Rightarrow>
                 (case map_of option_topics action of
                    Some (opts, key) \<Rightarrow>
                      (case checkOption c opts v of Some err \<Rightarrow> Inl err | None \<Rightarrow> Inr (cfg_str cd c key, v))
                  | None \<Rightarrow> Inl UnknownAction)))"
  by (simp add: resolveCommand_def special_actions_def)

lemma own_topic_other:
  "action \<notin> set special_actions \<Longrightarrow>
     map_of own_topic action =
       (case map_of percent_topics action of
          Some key \<Rightarrow> Some key | None \<Rightarrow> map_option snd (map_of option_topics action))"
  by (simp add: own_topic_def special_actions_def percent_topics_def option_topics_def)

lemma plain_not_own: "map_of plain_actions action = Some x \<Longrightarrow> map_of own_topic action = None"
proof -
  assume "map_of plain_actions action = Some x"
  then have "action \<in> fst ` set plain_actions" by (force dest: map_of_SomeD)
  then show ?thesis
    unfolding plain_actions_def
    by (simp, elim disjE) (simp_all add: own_topic_def percent_topics_def option_topics_def)
qed

lemma resolve_topic:
  assumes r: "resolveCommand cd e c action v = Inr (t, p)"
  shows "t = cfg_str cd c (command_key cd e c action)"
proof (cases "action \<in> set special_actions")
  case True
  then show ?thesis using r by (rule resolve_special)
next
  case False
  then have on: "action \<notin> {''turn_on'', ''turn_off''}" by (auto simp: special_actions_def)
  show ?thesis
    using r on plain_not_own [of action]
    by (auto simp: resolve_other [OF False] command_key_def own_topic_other [OF False]
        split: option.splits prod.splits dest: number_to_topic)
qed

text \<open>The only errors are about the value, and a plain button has none.\<close>

definition value_errors :: "hass_error set" where
  "value_errors = {NotANumber, UnusableNumber, OutOfRange, NotAnOption, TextTooLong}"

lemma number_to_error:
  "number_to cd t check n = Inl err \<Longrightarrow> n = Inl err \<or> (\<exists>x. n = Inr x \<and> check x = Some err)"
  by (auto simp: number_to_def split: sum.splits option.splits)

lemma check_errors:
  "parseNumber cd v = Inl err \<Longrightarrow> err \<in> value_errors"
  "parsePercent cd v = Inl err \<Longrightarrow> err \<in> value_errors"
  "checkRange cd c lo hi n = Some err \<Longrightarrow> err \<in> value_errors"
  "checkOption c key v = Some err \<Longrightarrow> err \<in> value_errors"
  "validateSetValue cd e c v = Some err \<Longrightarrow> err \<in> value_errors"
  by (auto simp: value_errors_def parseNumber_def parsePercent_def checkRange_def checkOption_def validateSetValue_def Let_def
      split: option.splits sum.splits if_splits)

lemma resolve_errors:
  assumes known: "action \<in> set on_command_topic \<or> map_of own_topic action \<noteq> None"
    and r: "resolveCommand cd e c action v = Inl err"
  shows "err \<in> value_errors"
proof (cases "action \<in> set special_actions")
  case True
  then show ?thesis using r
    unfolding special_actions_def list.set
    by (elim insertE emptyE; hypsubst)
      (auto simp: resolveCommand_def Let_def value_errors_def [THEN eqset_imp_iff, of OutOfRange]
        split: if_splits option.splits dest!: number_to_error dest: check_errors)
next
  case False
  have "map_of plain_actions action \<noteq> None \<or> map_of own_topic action \<noteq> None"
    using known False by (auto simp: on_command_topic_def special_actions_def map_of_eq_None_iff)
  then show ?thesis using r
    by (auto simp: resolve_other [OF False] own_topic_other [OF False]
        split: option.splits dest!: number_to_error dest: check_errors)
qed

lemma resolve_button:
  assumes "action \<in> set on_command_topic" "action \<noteq> ''set''"
  shows "\<exists>tp. resolveCommand cd e c action v = Inr tp"
proof (cases "action \<in> set special_actions")
  case True
  then show ?thesis using assms
    unfolding on_command_topic_set special_actions_def list.set
    by (elim insertE emptyE; hypsubst) (simp_all add: resolveCommand_def Let_def split: option.split)
next
  case False
  then obtain x where "map_of plain_actions action = Some x"
    using assms by (cases "map_of plain_actions action") (auto simp: on_command_topic_def special_actions_def map_of_eq_None_iff)
  then show ?thesis by (cases x) (simp add: resolve_other [OF False])
qed

definition stranded :: "HassCodec \<Rightarrow> Entity \<Rightarrow> string \<Rightarrow> bool" where
  "stranded cd e action \<longleftrightarrow>
     et_component e = ''water_heater'' \<and> action \<in> {''turn_on'', ''turn_off''} \<and> cfg_str cd (et_config e) ''command_topic'' = []"

lemma offered_key:
  assumes "action \<in> set (actionsFor cd (et_component e) (et_config e))" "\<not> stranded cd e action"
  shows "cfg_str cd (et_config e) (command_key cd e (et_config e) action) \<noteq> []"
proof -
  let ?c = "et_config e"
  have key: "command_key cd e ?c action =
      (if action \<in> {''turn_on'', ''turn_off''} \<and> cfg_str cd ?c ''power_command_topic'' \<noteq> [] \<and> et_component e = ''climate''
       then ''power_command_topic'' else case map_of own_topic action of Some k \<Rightarrow> k | None \<Rightarrow> ''command_topic'')"
    by (simp add: command_key_def)
  have off: "action \<in> set on_command_topic \<Longrightarrow> map_of own_topic action = None"
    unfolding on_command_topic_set
    by (elim insertE emptyE) (simp_all add: own_topic_def percent_topics_def option_topics_def)
  have switch: "action \<in> {''turn_on'', ''turn_off''} \<Longrightarrow> action \<in> set on_command_topic"
    by (auto simp: on_command_topic_set)
  from offered_has_topic [OF assms(1)] show ?thesis
  proof (elim disjE)
    assume "action \<in> set on_command_topic \<and> cfg_str cd ?c ''command_topic'' \<noteq> []"
    then show ?thesis using off by (simp add: key)
  next
    assume "\<exists>k. map_of own_topic action = Some k \<and> cfg_str cd ?c k \<noteq> []"
    then show ?thesis using off switch by (auto simp: key)
  next
    assume "action \<in> {''turn_on'', ''turn_off''} \<and> et_component e \<in> {''climate'', ''water_heater''} \<and>
      cfg_str cd ?c ''power_command_topic'' \<noteq> []"
    then have on: "action \<in> {''turn_on'', ''turn_off''}" and power: "cfg_str cd ?c ''power_command_topic'' \<noteq> []"
      and co: "et_component e = ''climate'' \<or> et_component e = ''water_heater''" by auto
    show ?thesis
    proof (cases "et_component e = ''climate''")
      case True
      then show ?thesis using on power unfolding key by (simp only: simp_thms if_True)
    next
      case False
      then have "cfg_str cd ?c ''command_topic'' \<noteq> []"
        using co on assms(2) unfolding stranded_def by blast
      then show ?thesis using False off [OF switch [OF on]] by (simp add: key)
    qed
  qed
qed

text \<open>
  Every action an entity offers can be carried out: unless it is on or off of a water heater without a
  command topic, resolving it gives a publish to a non-empty topic of the entity's own configuration, or an
  error about the value given; an action that takes no value always gives the publish.
\<close>

theorem offered_action_resolves:
  assumes "action \<in> set (actionsFor cd (et_component e) (et_config e))" "\<not> stranded cd e action"
  shows "(\<exists>c. BuildCommand cd e action v = Inr c \<and> cm_topic c \<noteq> [] \<and>
        cm_topic c = cfg_str cd (et_config e) (command_key cd e (et_config e) action)) \<or>
     action \<notin> set on_command_topic - {''set''} \<and> (\<exists>err \<in> value_errors. BuildCommand cd e action v = Inl err)"
proof (cases "resolveCommand cd e (et_config e) action v")
  case (Inr tp)
  then have "fst tp = cfg_str cd (et_config e) (command_key cd e (et_config e) action)"
    using resolve_topic [of cd e "et_config e" action v "fst tp" "snd tp"] by simp
  moreover have "cfg_str cd (et_config e) (command_key cd e (et_config e) action) \<noteq> []"
    by (rule offered_key [OF assms])
  ultimately show ?thesis using Inr by (cases tp) (simp add: BuildCommand_def Let_def)
next
  case (Inl err)
  have "action \<in> set on_command_topic \<or> map_of own_topic action \<noteq> None"
    using offered_has_topic [OF assms(1)] by (auto simp: on_command_topic_set)
  then have "err \<in> value_errors" using Inl by (rule resolve_errors)
  moreover have "action \<notin> set on_command_topic - {''set''}"
    using Inl resolve_button [of action cd e "et_config e" v] by auto
  ultimately show ?thesis using Inl by (auto simp: BuildCommand_def Let_def)
qed

definition ex_hass :: HassCodec where
  "ex_hass = \<lparr>cd_parse = (\<lambda>_. None), cd_float = (\<lambda>_. None), cd_text = (\<lambda>_. []), cd_fixed = (\<lambda>_. []), cd_trunc = (\<lambda>_. 0),
     hc_g = (\<lambda>_. []), hc_scan = (\<lambda>_. None), hc_parse = (\<lambda>_. None), hc_marshal = (\<lambda>_. []), hc_round = (\<lambda>_ f. f),
     hc_of_int = (\<lambda>_. 0)\<rparr>"

definition ex_entity :: "string \<Rightarrow> (string \<times> Any) list \<Rightarrow> Entity" where
  "ex_entity component c =
     new_entity ex_hass 0 ''c1'' \<lparr>dt_prefix = ''homeassistant'', dt_component = component, dt_nodeID = [], dt_objectID = ''x'',
       dt_deviceScoped = False\<rparr> c None"

definition ex_lamp :: Entity where
  "ex_lamp = ex_entity ''light'' [(''command_topic'', AStr ''lamp/set'')]"

lemma ex_lamp_config: "et_component ex_lamp = ''light''" "et_config ex_lamp = [(''command_topic'', AStr ''lamp/set'')]"
  by (simp_all add: ex_lamp_def ex_entity_def new_entity_def)

lemma offered_action_resolves_witness:
  "\<exists>c. BuildCommand ex_hass ex_lamp ''turn_on'' [] = Inr c \<and> cm_topic c = ''lamp/set''"
proof -
  have "''turn_on'' \<in> set (actionsFor ex_hass (et_component ex_lamp) (et_config ex_lamp))"
    by (simp add: actionsFor_def component_actions_def ex_lamp_config cfg_str_def)
  moreover have "\<not> stranded ex_hass ex_lamp ''turn_on''" by (simp add: stranded_def ex_lamp_config)
  ultimately have "(\<exists>c. BuildCommand ex_hass ex_lamp ''turn_on'' [] = Inr c \<and> cm_topic c \<noteq> [] \<and>
      cm_topic c = cfg_str ex_hass (et_config ex_lamp) (command_key ex_hass ex_lamp (et_config ex_lamp) ''turn_on'')) \<or>
    ''turn_on'' \<notin> set on_command_topic - {''set''} \<and>
      (\<exists>err \<in> value_errors. BuildCommand ex_hass ex_lamp ''turn_on'' [] = Inl err)"
    by (rule offered_action_resolves)
  then show ?thesis
    by (auto simp: on_command_topic_set command_key_def ex_lamp_config cfg_str_def own_topic_def percent_topics_def option_topics_def)
qed

text \<open>The exception is real: a water heater with only a power topic offers on and off, and both fail.\<close>

definition ex_heater :: Entity where
  "ex_heater = ex_entity ''water_heater'' [(''power_command_topic'', AStr ''boiler/power'')]"

lemma water_heater_switch_fails:
  "et_actions ex_heater = [''turn_on'', ''turn_off''] \<and>
   BuildCommand ex_hass ex_heater ''turn_on'' [] = Inl NoTopic \<and> BuildCommand ex_hass ex_heater ''turn_off'' [] = Inl NoTopic"
  by (simp add: ex_heater_def ex_entity_def new_entity_def actionsFor_def component_actions_def act_if_def cfg_str_def
      BuildCommand_def resolveCommand_def switch_topic_def strDefault_def cfg_number_def hass_dedupe_def Let_def)

end
