(* ===== verification/HassIndex.thy ===== *)
theory HassIndex
  imports HassTopics
begin

text \<open>
  The indexes of the registry and the entities agree, whatever is announced, removed or received; so
  routing a message through the indexes is the same as offering it to every entity.
\<close>

section \<open>One index\<close>

text \<open>
  An index \<open>m\<close> is right for the entities \<open>es\<close> when under each key stand exactly the identifiers of the
  entities that list a topic with this key.
\<close>

definition indexed :: "(Entity \<Rightarrow> string list) \<Rightarrow> (string \<times> Entity) list \<Rightarrow> (string \<Rightarrow> string list) \<Rightarrow> bool" where
  "indexed topics es m \<longleftrightarrow>
     (\<forall>k i. i \<in> set (m k) \<longleftrightarrow> (\<exists>e. map_of es i = Some e \<and> k \<in> indexKey (et_connectionID e) ` set (topics e)))"

definition ids_ok :: "(string \<times> Entity) list \<Rightarrow> bool" where
  "ids_ok es \<longleftrightarrow> distinct (map fst es) \<and> (\<forall>i e. map_of es i = Some e \<longrightarrow> et_id e = i)"

lemma ids_okD: "ids_ok es \<Longrightarrow> map_of es i = Some e \<Longrightarrow> et_id e = i"
  by (simp add: ids_ok_def del: map_of_eq_Some_iff)

lemma index_adds:
  "i \<in> set (fold (index_add e) ts m k) \<longleftrightarrow> i \<in> set (m k) \<or> i = et_id e \<and> k \<in> indexKey (et_connectionID e) ` set ts"
  by (induction ts arbitrary: m) (auto simp: index_add_def Let_def)

lemma index_dels:
  "i \<in> set (fold (index_del e) ts m k) \<longleftrightarrow> i \<in> set (m k) \<and> \<not> (i = et_id e \<and> k \<in> indexKey (et_connectionID e) ` set ts)"
  by (induction ts arbitrary: m) (auto simp: index_del_def Let_def)

lemma indexed_remove:
  assumes "indexed f es m" "map_of es i = Some e" "ids_ok es"
  shows "indexed f (AList.delete i es) (fold (index_del e) (f e) m)"
  using assms(1,2) ids_okD [OF assms(3,2)] by (auto simp: indexed_def index_dels delete_conv')

lemma indexed_add:
  assumes "indexed f es m" "map_of es (et_id e) = None"
  shows "indexed f (AList.update (et_id e) e es) (fold (index_add e) (f e) m)"
  using assms by (auto simp: indexed_def index_adds update_conv')

text \<open>Replacing an entity: its old topics are taken out before the new ones are put in.\<close>

lemma indexed_replace:
  assumes m: "indexed f es m" and old: "map_of es (et_id e) = Some old" and ids: "ids_ok es"
  shows "indexed f (AList.update (et_id e) e es) (fold (index_add e) (f e) (fold (index_del old) (f old) m))"
proof -
  have id: "et_id old = et_id e" by (rule ids_okD [OF ids old])
  show ?thesis
    unfolding indexed_def
  proof (intro allI)
    fix k i
    have mem: "j \<in> set (m k) \<longleftrightarrow> (\<exists>x. map_of es j = Some x \<and> k \<in> indexKey (et_connectionID x) ` set (f x))" for j
      using m by (simp add: indexed_def)
    show "i \<in> set (fold (index_add e) (f e) (fold (index_del old) (f old) m) k) \<longleftrightarrow>
        (\<exists>x. map_of (AList.update (et_id e) e es) i = Some x \<and> k \<in> indexKey (et_connectionID x) ` set (f x))"
      using old by (cases "i = et_id e") (auto simp: index_adds index_dels id mem update_conv')
  qed
qed

lemma ids_ok_update [wf_intro]: "ids_ok es \<Longrightarrow> ids_ok (AList.update (et_id e) e es)"
  by (auto simp: ids_ok_def update_conv' distinct_update split: if_splits)

lemma ids_ok_delete [wf_intro]: "ids_ok es \<Longrightarrow> ids_ok (AList.delete i es)"
  by (auto simp: ids_ok_def delete_conv' distinct_delete restrict_map_def split: if_splits)

section \<open>The registry\<close>

text \<open>An entity is filed under its own identifier, with what its announcement made of it.\<close>

definition made_by_config :: "HassCodec \<Rightarrow> Entity \<Rightarrow> bool" where
  "made_by_config cd e \<longleftrightarrow>
     et_id e = indexKey (et_connectionID e) (et_discoveryTopic e) \<and>
     et_actions e = actionsFor cd (et_component e) (et_config e) \<and>
     et_availSpecs e = availabilityTopics cd (et_config e) \<and>
     et_stateTopic e = cfg_str cd (et_config e) ''state_topic''"

definition registry_ok :: "HassCodec \<Rightarrow> HassRegistry \<Rightarrow> bool" where
  "registry_ok cd r \<longleftrightarrow>
     ids_ok (hr_entities r) \<and> (\<forall>i e. map_of (hr_entities r) i = Some e \<longrightarrow> made_by_config cd e) \<and>
     indexed (state_topics cd) (hr_entities r) (hr_stateIndex r) \<and>
     indexed avail_topics (hr_entities r) (hr_availIndex r) \<and>
     indexed attr_topics (hr_entities r) (hr_attrIndex r)"

lemma registry_ok_new [wf_intro]: "registry_ok cd hass_new"
  by (simp add: registry_ok_def hass_new_def ids_ok_def indexed_def)

text \<open>An update that keeps what an entity is filed under keeps the indexes right.\<close>

definition same_filing :: "Entity \<Rightarrow> Entity \<Rightarrow> bool" where
  "same_filing e x \<longleftrightarrow>
     et_id x = et_id e \<and> et_connectionID x = et_connectionID e \<and> et_discoveryTopic x = et_discoveryTopic e \<and>
     et_component x = et_component e \<and> et_config x = et_config e \<and> et_actions x = et_actions e \<and>
     et_stateTopic x = et_stateTopic e \<and> et_availSpecs x = et_availSpecs e \<and> et_attrTopic x = et_attrTopic e"

lemma same_filing_topics:
  "same_filing e x \<Longrightarrow> state_topics cd x = state_topics cd e \<and> avail_topics x = avail_topics e \<and> attr_topics x = attr_topics e"
  by (simp add: same_filing_def state_topics_def avail_topics_def attr_topics_def)

lemma state_from_filing [simp]: "same_filing e (state_from cd now t p e)"
  by (simp add: same_filing_def state_from_def Let_def)

lemma avail_from_filing [simp]: "same_filing e (avail_from cd now t p e)"
  by (simp add: same_filing_def avail_from_def Let_def)

lemma attrs_from_filing [simp]: "same_filing e (attrs_from cd now p e)"
  by (simp add: same_filing_def attrs_from_def split: option.split)

lemma map_of_upd:
  "map_of (map (\<lambda>(j, e). (j, if j = i then f e else e)) es) j =
     (if j = i then map_option f (map_of es j) else map_of es j)"
  by (induction es) auto

lemma entity_upd: "hass_Entity j (upd_entity f i r) = (if j = i then map_option f (hass_Entity j r) else hass_Entity j r)"
  by (simp add: hass_Entity_def upd_entity_def map_of_upd)

lemma upd_entity_indexes [simp]:
  "hr_stateIndex (upd_entity f i r) = hr_stateIndex r" "hr_availIndex (upd_entity f i r) = hr_availIndex r"
  "hr_attrIndex (upd_entity f i r) = hr_attrIndex r" "hr_devices (upd_entity f i r) = hr_devices r"
  "hr_pinned (upd_entity f i r) = hr_pinned r"
  by (simp_all add: upd_entity_def)

lemma map_fst_upd: "map fst (map (\<lambda>(j, e). (j, if j = i then f e else e)) es) = map fst es"
  by (induction es) auto

lemma upd_entity_ok [wf_intro]:
  assumes r: "registry_ok cd r" and f: "\<And>e. same_filing e (f e)"
  shows "registry_ok cd (upd_entity f i r)"
proof -
  let ?es = "hr_entities r" and ?es' = "hr_entities (upd_entity f i r)"
  have m: "map_of ?es' j = (if j = i then map_option f (map_of ?es j) else map_of ?es j)" for j
    by (simp add: upd_entity_def map_of_upd)
  have id: "et_id (f e) = et_id e" "et_connectionID (f e) = et_connectionID e" for e
    using f [of e] by (simp_all add: same_filing_def)
  have es: "ids_ok ?es" using r by (simp add: registry_ok_def)
  have "map fst ?es' = map fst ?es" by (simp add: upd_entity_def map_fst_upd del: map_map)
  then have ids: "ids_ok ?es'"
    using es ids_okD [OF es] by (auto simp: ids_ok_def m id simp del: map_of_eq_Some_iff)
  have made: "made_by_config cd e \<Longrightarrow> made_by_config cd (f e)" for e
    using f [of e] by (auto simp: made_by_config_def same_filing_def)
  have idx: "indexed g ?es' x" if "indexed g ?es x" "\<And>e. g (f e) = g e" for g x
    using that by (auto simp: indexed_def m id)
  have t: "state_topics cd (f e) = state_topics cd e" "avail_topics (f e) = avail_topics e" "attr_topics (f e) = attr_topics e" for e
    using same_filing_topics [OF f] by blast+
  show ?thesis
    using r ids made by (auto simp: registry_ok_def m t intro!: idx)
qed

lemma upd_entities_ok: "registry_ok cd r \<Longrightarrow> (\<And>e. same_filing e (f e)) \<Longrightarrow> registry_ok cd (fold (upd_entity f) is r)"
  by (induction "is" arbitrary: r) (auto intro: upd_entity_ok)

lemma hass_ApplyState_ok [wf_intro]: "registry_ok cd r \<Longrightarrow> registry_ok cd (snd (hass_ApplyState cd now connID topic payload r))"
  by (simp add: hass_ApplyState_def Let_def upd_entities_ok)

lemma upsertDevice_frame [simp]:
  "hr_entities (snd (upsertDevice cd now connID c r)) = hr_entities r"
  "hr_stateIndex (snd (upsertDevice cd now connID c r)) = hr_stateIndex r"
  "hr_availIndex (snd (upsertDevice cd now connID c r)) = hr_availIndex r"
  "hr_attrIndex (snd (upsertDevice cd now connID c r)) = hr_attrIndex r"
  by (simp_all add: upsertDevice_def Let_def split: option.split)

lemma devices_irrelevant [simp]:
  "registry_ok cd (r\<lparr>hr_devices := d\<rparr>) = registry_ok cd r"
  "registry_ok cd (r\<lparr>hr_pinned := p\<rparr>) = registry_ok cd r"
  by (simp_all add: registry_ok_def)

text \<open>The entity an announcement leaves, and the registry it leaves it in.\<close>

definition announced :: "HassCodec \<Rightarrow> time \<Rightarrow> string \<Rightarrow> DiscoveryTopic \<Rightarrow> any_map \<Rightarrow> HassRegistry \<Rightarrow> Entity" where
  "announced cd now connID dt c r =
     (let e = new_entity cd now connID dt c (fst (upsertDevice cd now connID c r)) in
      case map_of (hr_entities r) (indexKey connID (topicOf dt)) of None \<Rightarrow> e | Some old \<Rightarrow> carry_over old e)"

lemma announced_made [simp]: "made_by_config cd (announced cd now connID dt c r)"
  by (simp add: announced_def made_by_config_def new_entity_def carry_over_def Let_def split: option.split)

lemma announced_id [simp]:
  "et_id (announced cd now connID dt c r) = indexKey connID (topicOf dt)"
  "et_connectionID (announced cd now connID dt c r) = connID"
  "et_config (announced cd now connID dt c r) = c"
  by (simp_all add: announced_def new_entity_def carry_over_def Let_def split: option.split)

definition unindex_old :: "HassCodec \<Rightarrow> string \<Rightarrow> HassRegistry \<Rightarrow> HassRegistry" where
  "unindex_old cd i r = (case map_of (hr_entities r) i of None \<Rightarrow> r | Some old \<Rightarrow> unindex cd old r)"

lemma Upsert_eq:
  "hass_Upsert cd now connID dt c r =
     (let e = announced cd now connID dt c r;
          r = unindex_old cd (indexKey connID (topicOf dt)) (snd (upsertDevice cd now connID c r));
          (topics, r) = index_entity cd e (r\<lparr>hr_entities := AList.update (indexKey connID (topicOf dt)) e (hr_entities r)\<rparr>)
      in ((e, topics), r))"
  by (cases "upsertDevice cd now connID c r"; cases "map_of (hr_entities r) (indexKey connID (topicOf dt))")
    (use upsertDevice_frame(1) [of cd now connID c r] in
      \<open>auto simp: hass_Upsert_def announced_def unindex_old_def Let_def split: prod.split option.split\<close>)

lemma Upsert_entities:
  "hr_entities (snd (hass_Upsert cd now connID dt c r)) =
     AList.update (indexKey connID (topicOf dt)) (announced cd now connID dt c r) (hr_entities r)"
  by (simp add: Upsert_eq Let_def index_entity_def unindex_old_def unindex_def split: prod.split option.split)

lemma hass_Upsert_ok [wf_intro]:
  assumes r: "registry_ok cd r"
  shows "registry_ok cd (snd (hass_Upsert cd now connID dt c r))"
proof -
  let ?e = "announced cd now connID dt c r" and ?i = "indexKey connID (topicOf dt)"
  let ?u = "snd (upsertDevice cd now connID c r)"
  have ids: "ids_ok (hr_entities r)" using r by (simp add: registry_ok_def)
  have idx: "indexed f (AList.update ?i ?e (hr_entities r)) (fold (index_add ?e) (f ?e)
      (case map_of (hr_entities r) ?i of None \<Rightarrow> m | Some old \<Rightarrow> fold (index_del old) (f old) m))"
    if "indexed f (hr_entities r) m" for f m
    using that ids indexed_add [of f "hr_entities r" m ?e] indexed_replace [of f "hr_entities r" m ?e]
    by (simp split: option.split)
  have made: "map_of (AList.update ?i ?e (hr_entities r)) j = Some x \<Longrightarrow> made_by_config cd x" for j x
    using r by (auto simp: registry_ok_def update_conv' split: if_splits)
  have "ids_ok (AList.update ?i ?e (hr_entities r))" using ids_ok_update [OF ids, of ?e] by simp
  then show ?thesis
    using r made idx
    by (cases "map_of (hr_entities r) ?i")
      (simp_all add: Upsert_eq Let_def index_entity_def unindex_old_def unindex_def registry_ok_def split: prod.split)
qed

lemma hass_Remove_ok [wf_intro]: "registry_ok cd r \<Longrightarrow> registry_ok cd (snd (hass_Remove cd connID topic r))"
  by (auto simp: hass_Remove_def Let_def unindex_def registry_ok_def ids_ok_delete delete_conv' restrict_map_def
      intro!: indexed_remove split: option.split if_splits)

lemma SetPinned_ok [wf_intro]: "registry_ok cd r \<Longrightarrow> registry_ok cd (snd (SetPinned connID key p r))"
  by (auto simp: SetPinned_def Let_def registry_ok_def split: option.split)

lemma LoadPinned_ok [wf_intro]: "registry_ok cd r \<Longrightarrow> registry_ok cd (LoadPinned keys r)"
  unfolding LoadPinned_def
proof (induction keys arbitrary: r)
  case (Cons kv keys)
  show ?case
    unfolding fold_simps(2) by (rule Cons.IH) (use Cons.prems in \<open>simp add: registry_ok_def split: prod.split\<close>)
qed simp

end
