(* ===== verification/HassRouting.thy ===== *)
theory HassRouting
  imports HassIndex
begin

text \<open>
  Routing a message through the topic indexes is offering it to every entity: the operations of the registry
  as one step function, and the reference that looks at the entities one by one.
\<close>

section \<open>The operations\<close>

datatype reg_op =
    OpAnnounce time string DiscoveryTopic any_map
  | OpRetract string string
  | OpMessage time string string bytes
  | OpPin string string bool
  | OpLoadPins "(string \<times> bool) list"
  | OpClear string

fun reg_step :: "HassCodec \<Rightarrow> reg_op \<Rightarrow> HassRegistry \<Rightarrow> HassRegistry" where
  "reg_step cd (OpAnnounce now connID dt c) r = snd (hass_Upsert cd now connID dt c r)"
| "reg_step cd (OpRetract connID topic) r = snd (hass_Remove cd connID topic r)"
| "reg_step cd (OpMessage now connID topic payload) r = snd (hass_ApplyState cd now connID topic payload r)"
| "reg_step cd (OpPin connID key on) r = snd (SetPinned connID key on r)"
| "reg_step cd (OpLoadPins keys) r = LoadPinned keys r"
| "reg_step cd (OpClear connID) r = ClearConnection cd connID r"

lemma delete_ok [wf_intro]:
  assumes "registry_ok cd r" "map_of (hr_entities r) i = Some e"
  shows "registry_ok cd ((unindex cd e r)\<lparr>hr_entities := AList.delete i (hr_entities r)\<rparr>)"
  using assms
  by (auto simp: unindex_def registry_ok_def ids_ok_delete delete_conv' restrict_map_def intro!: indexed_remove split: if_splits)

lemma clear_entities_ok:
  "registry_ok cd r \<Longrightarrow> distinct (map fst es) \<Longrightarrow> (\<forall>(i, e) \<in> set es. map_of (hr_entities r) i = Some e) \<Longrightarrow>
     registry_ok cd (fold (\<lambda>(i, e) r. if et_connectionID e = connID
       then (unindex cd e r)\<lparr>hr_entities := AList.delete i (hr_entities r)\<rparr> else r) es r)"
proof (induction es arbitrary: r)
  case (Cons ie es)
  obtain i e where ie: "ie = (i, e)" by (cases ie)
  have "registry_ok cd ((unindex cd e r)\<lparr>hr_entities := AList.delete i (hr_entities r)\<rparr>)"
    using Cons.prems ie by (intro delete_ok) auto
  moreover have "\<forall>(j, x) \<in> set es. map_of (AList.delete i (hr_entities r)) j = Some x"
    using Cons.prems ie by (auto simp: delete_conv' restrict_map_def rev_image_eqI)
  ultimately show ?case using Cons ie by simp
qed simp

lemma ClearConnection_ok [wf_intro]:
  assumes "registry_ok cd r"
  shows "registry_ok cd (ClearConnection cd connID r)"
proof -
  have "distinct (map fst (hr_entities r))" using assms by (simp add: registry_ok_def ids_ok_def)
  then have "registry_ok cd (fold (\<lambda>(i, e) r. if et_connectionID e = connID
       then (unindex cd e r)\<lparr>hr_entities := AList.delete i (hr_entities r)\<rparr> else r) (hr_entities r) r)"
    using assms by (intro clear_entities_ok) auto
  then show ?thesis by (simp add: ClearConnection_def Let_def)
qed

lemma reg_step_ok [wf_intro]: "registry_ok cd r \<Longrightarrow> registry_ok cd (reg_step cd a r)"
  by (cases a) (simp_all add: wf_intro)

lemma reg_run_ok: "registry_ok cd r \<Longrightarrow> registry_ok cd (fold (reg_step cd) as r)"
  by (induction "as" arbitrary: r) (simp_all add: reg_step_ok)

section \<open>The reference\<close>

text \<open>What one entity makes of a message: its value, its availability, its attributes, in this order.\<close>

definition offer :: "HassCodec \<Rightarrow> time \<Rightarrow> string \<Rightarrow> string \<Rightarrow> bytes \<Rightarrow> Entity \<Rightarrow> Entity" where
  "offer cd now connID topic payload e =
     (if et_connectionID e \<noteq> connID then e
      else
        let e = (if topic \<in> set (state_topics cd e) then state_from cd now topic payload e else e);
            e = (if topic \<in> set (avail_topics e) then avail_from cd now topic payload e else e)
        in if topic \<in> set (attr_topics e) then attrs_from cd now payload e else e)"

definition concerned :: "HassCodec \<Rightarrow> string \<Rightarrow> string \<Rightarrow> bytes \<Rightarrow> Entity \<Rightarrow> bool" where
  "concerned cd connID topic payload e \<longleftrightarrow>
     et_connectionID e = connID \<and>
     (topic \<in> set (state_topics cd e) \<or> topic \<in> set (avail_topics e) \<or>
      topic \<in> set (attr_topics e) \<and> parseAttributes cd (et_attrTemplate e) payload \<noteq> None)"

text \<open>A bar in the name of a connection could make two keys the same; names of connections have none.\<close>

definition plain_names :: "string \<Rightarrow> HassRegistry \<Rightarrow> bool" where
  "plain_names connID r \<longleftrightarrow>
     CHR ''|'' \<notin> set connID \<and> (\<forall>i e. hass_Entity i r = Some e \<longrightarrow> CHR ''|'' \<notin> set (et_connectionID e))"

lemma indexKey_inj:
  "CHR ''|'' \<notin> set a \<Longrightarrow> CHR ''|'' \<notin> set b \<Longrightarrow> indexKey a s = indexKey b t \<longleftrightarrow> a = b \<and> s = t"
  unfolding indexKey_def
proof (induction a arbitrary: b)
  case Nil
  then show ?case by (cases b) auto
next
  case (Cons x a)
  then show ?case by (cases b) auto
qed

section \<open>Updates may repeat\<close>

lemma state_from_idem: "state_from cd now t p (state_from cd now t p e) = state_from cd now t p e"
  by (simp add: state_from_def Let_def secondaryTemplateFor_def)

lemma attrs_from_idem: "attrs_from cd now p (attrs_from cd now p e) = attrs_from cd now p e"
  by (simp add: attrs_from_def split: option.split)

lemma sources_from:
  "(\<forall>st. fold (source_from cd t p) specs st = st) \<or> (\<exists>v. \<forall>st. fold (source_from cd t p) specs st = AList.update t v st)"
proof (induction specs)
  case (Cons s specs)
  show ?case
  proof (cases "av_topic s = t")
    case True
    then obtain w where "\<forall>st. source_from cd t p s st = AList.update t w st" by (auto simp: source_from_def Let_def)
    then show ?thesis using Cons.IH by auto
  next
    case False
    then show ?thesis using Cons.IH by (simp add: source_from_def)
  qed
qed simp

lemma sources_from_idem:
  "fold (source_from cd t p) specs (fold (source_from cd t p) specs st) = fold (source_from cd t p) specs st"
  using sources_from [of cd t p specs] by auto

lemma avail_from_idem: "avail_from cd now t p (avail_from cd now t p e) = avail_from cd now t p e"
  by (simp add: avail_from_def Let_def sources_from_idem combineAvailability_def)

lemma entity_upds:
  assumes "\<And>e. f (f e) = f e"
  shows "hass_Entity j (fold (upd_entity f) is r) = (if j \<in> set is then map_option f (hass_Entity j r) else hass_Entity j r)"
  by (induction "is" arbitrary: r) (auto simp: entity_upd assms option.map_comp comp_def)

section \<open>Routing\<close>

lemma in_index:
  assumes "indexed f (hr_entities r) m" "plain_names connID r" "hass_Entity i r = Some e"
  shows "i \<in> set (m (indexKey connID topic)) \<longleftrightarrow> et_connectionID e = connID \<and> topic \<in> set (f e)"
  using assms by (auto simp: indexed_def plain_names_def hass_Entity_def indexKey_inj)

lemma not_in_index: "indexed f (hr_entities r) m \<Longrightarrow> hass_Entity i r = None \<Longrightarrow> i \<notin> set (m k)"
  by (auto simp: indexed_def hass_Entity_def)

text \<open>
  C25. Whatever was announced, retracted, received, pinned or cleared before, routing a message through the
  three topic indexes leaves every entity exactly as if the message had been offered to each of them in turn,
  and reports exactly the entities it concerns, each once.
\<close>

theorem routing_is_offering:
  assumes "r = fold (reg_step cd) ops hass_new" and "plain_names connID r"
  shows "hass_Entity i (snd (hass_ApplyState cd now connID topic payload r)) =
      map_option (offer cd now connID topic payload) (hass_Entity i r) \<and>
    distinct (fst (hass_ApplyState cd now connID topic payload r)) \<and>
    set (fst (hass_ApplyState cd now connID topic payload r)) =
      {i. \<exists>e. hass_Entity i r = Some e \<and> concerned cd connID topic payload e}"
proof -
  have ok: "registry_ok cd r" unfolding assms(1) by (intro reg_run_ok registry_ok_new)
  let ?k = "indexKey connID topic"
  have idx: "indexed (state_topics cd) (hr_entities r) (hr_stateIndex r)" "indexed avail_topics (hr_entities r) (hr_availIndex r)"
    "indexed attr_topics (hr_entities r) (hr_attrIndex r)"
    using ok by (simp_all add: registry_ok_def)
  note mem = idx [THEN in_index, OF assms(2)] and out = idx [THEN not_in_index]
  have upds: "hass_Entity i (snd (hass_ApplyState cd now connID topic payload r)) =
      (let e = hass_Entity i r;
           e = (if i \<in> set (hr_stateIndex r ?k) then map_option (state_from cd now topic payload) e else e);
           e = (if i \<in> set (hr_availIndex r ?k) then map_option (avail_from cd now topic payload) e else e)
       in if i \<in> set (hr_attrIndex r ?k) then map_option (attrs_from cd now payload) e else e)"
    by (simp add: hass_ApplyState_def Let_def entity_upds state_from_idem avail_from_idem attrs_from_idem)
  have keep: "avail_topics (state_from cd now topic payload e) = avail_topics e"
    "attr_topics (state_from cd now topic payload e) = attr_topics e"
    "attr_topics (avail_from cd now topic payload e) = attr_topics e" for e
    using same_filing_topics [OF state_from_filing, of cd] same_filing_topics [OF avail_from_filing, of cd] by metis+
  have "hass_Entity i (snd (hass_ApplyState cd now connID topic payload r)) =
      map_option (offer cd now connID topic payload) (hass_Entity i r)"
    unfolding upds
    by (cases "hass_Entity i r") (simp_all add: out mem offer_def Let_def keep)
  moreover have "set (fst (hass_ApplyState cd now connID topic payload r)) =
      {i. \<exists>e. hass_Entity i r = Some e \<and> concerned cd connID topic payload e}"
  proof (intro set_eqI)
    fix j
    show "j \<in> set (fst (hass_ApplyState cd now connID topic payload r)) \<longleftrightarrow>
        j \<in> {i. \<exists>e. hass_Entity i r = Some e \<and> concerned cd connID topic payload e}"
      by (cases "hass_Entity j r")
        (auto simp: hass_ApplyState_def Let_def out mem concerned_def hass_Entity_def [symmetric])
  qed
  moreover have "distinct (fst (hass_ApplyState cd now connID topic payload r))"
    by (simp add: hass_ApplyState_def Let_def)
  ultimately show ?thesis by blast
qed

definition ex_sensor :: DiscoveryTopic where
  "ex_sensor = \<lparr>dt_prefix = ''homeassistant'', dt_component = ''sensor'', dt_nodeID = [], dt_objectID = ''x'', dt_deviceScoped = False\<rparr>"

definition ex_reg :: HassRegistry where
  "ex_reg = fold (reg_step ex_hass) [OpAnnounce 1 ''c1'' ex_sensor [(''state_topic'', AStr ''t'')]] hass_new"

definition ex_id :: string where "ex_id = indexKey ''c1'' (topicOf ex_sensor)"

lemma ex_reg_entity:
  "hass_Entity i ex_reg =
     (if i = ex_id then Some (announced ex_hass 1 ''c1'' ex_sensor [(''state_topic'', AStr ''t'')] hass_new) else None)"
  by (simp add: ex_reg_def hass_Entity_def Upsert_entities ex_id_def hass_new_def)

lemma routing_is_offering_witness:
  "ex_id \<in> set (fst (hass_ApplyState ex_hass 7 ''c1'' ''t'' [] ex_reg))"
proof -
  have "plain_names ''c1'' ex_reg" by (simp add: plain_names_def ex_reg_entity)
  from routing_is_offering [OF ex_reg_def this, of ex_id 7 "''t''" "[]"]
  have "set (fst (hass_ApplyState ex_hass 7 ''c1'' ''t'' [] ex_reg)) =
      {i. \<exists>e. hass_Entity i ex_reg = Some e \<and> concerned ex_hass ''c1'' ''t'' [] e}" by blast
  moreover have "concerned ex_hass ''c1'' ''t'' [] (announced ex_hass 1 ''c1'' ex_sensor [(''state_topic'', AStr ''t'')] hass_new)"
    by (simp add: concerned_def state_topics_def announced_def new_entity_def cfg_str_def hass_new_def)
  ultimately show ?thesis by (simp add: ex_reg_entity)
qed

end
