(* ===== verification/HassFacts.thy ===== *)
theory HassFacts
  imports HassRouting PluginFacts
begin

text \<open>
  The plugin with its host: the topics of every announced entity are followed on its connection, only an
  operator's command reaches a device, and it goes where the entity's configuration says.
\<close>

section \<open>Following\<close>

definition entity_topics :: "HassCodec \<Rightarrow> Entity \<Rightarrow> string set" where
  "entity_topics cd e = set (state_topics cd e) \<union> set (avail_topics e) \<union> set (attr_topics e)"

text \<open>What the host holds for a topic the plugin thinks it follows on a connection.\<close>

definition asked :: "string \<Rightarrow> string \<Rightarrow> SettingValue Runtime \<Rightarrow> bool" where
  "asked connID t r \<longleftrightarrow>
     (\<forall>x. rt_instances r hass_id = Some x \<and> pi_running x \<longrightarrow> t \<in> fst ` set (pi_dynamic x)) \<and>
     (\<forall>c. Get connID (rt_mqtt r) = Some c \<longrightarrow> t \<in> ephemeral_filters c)"

definition following :: "HassCodec \<Rightarrow> hass_state \<Rightarrow> bool" where
  "following cd s \<longleftrightarrow>
     (\<forall>i e. hass_Entity i (hp_registry (fst s)) = Some e \<longrightarrow>
        (\<forall>t \<in> entity_topics cd e. ValidateFilter t = Inr () \<longrightarrow> t \<in> set (seen_topics (et_connectionID e) (fst s)))) \<and>
     (\<forall>connID. \<forall>t \<in> set (seen_topics connID (fst s)). asked connID t (snd s))"

lemma set_fresh: "set (fresh_topics seen ts) = {t \<in> set ts. t \<notin> set seen \<and> ValidateFilter t = Inr ()}"
  by (induction seen ts rule: fresh_topics.induct) auto

lemma validate_fresh: "(\<forall>t \<in> set ts. ValidateFilter t = Inr ()) \<Longrightarrow> validate_subs False (map (hass_sub q) ts) = None"
  by (induction ts) (auto simp: hass_sub_def)

lemma put_ephemerals: "fst ` set (fold put_ephemeral subs es) = sub_filter ` set subs \<union> fst ` set es"
  by (induction subs arbitrary: es) (auto simp: fst_put_ephemeral)

lemma Subscribe_instances:
  "rt_instances (snd (host_Subscribe env i connID subs r)) j =
     (if j = i then map_option (\<lambda>x. if pi_running x then x\<lparr>pi_dynamic := fold put_ephemeral subs (pi_dynamic x)\<rparr> else x)
        (rt_instances r i) else rt_instances r j)"
  by (auto simp: host_Subscribe_def Let_def fun_upd_def upd_instance_def option.map_id0 split: prod.split option.split)

lemma Subscribe_conns:
  assumes "connID \<noteq> []"
  shows "Get j (rt_mqtt (snd (host_Subscribe env i connID subs r))) =
     (if j = connID \<and> subs \<noteq> [] then map_option (\<lambda>c. (snd (SubscribeEphemeral env subs c))\<lparr>cn_out := []\<rparr>) (Get connID (rt_mqtt r))
      else Get j (rt_mqtt r))"
proof -
  have "snd (forEachConnection connID f m) = snd (with_conn f connID m)" for f m
    using assms by (auto simp: forEachConnection_def split: prod.split sum.split mgr_error.split)
  moreover have "rt_mqtt (snd (host_Subscribe env i connID subs r)) =
      (if subs = [] then rt_mqtt r else snd (forEachConnection connID (SubscribeEphemeral env subs) (rt_mqtt r)))"
    by (simp add: host_Subscribe_def Let_def case_prod_unfold)
  ultimately show ?thesis by (simp add: Get_with_conn)
qed

lemma Subscribe_asked:
  assumes "connID \<noteq> []" "\<forall>t \<in> set ts. ValidateFilter t = Inr ()" "asked k t r \<or> k = connID \<and> t \<in> set ts"
  shows "asked k t (snd (host_Subscribe env hass_id connID (map (hass_sub q) ts) r))"
proof -
  have filters: "sub_filter ` set (map (hass_sub q) ts) = set ts" by (force simp: hass_sub_def)
  note valid = validate_fresh [OF assms(2), of q]
  have dyn: "t \<in> fst ` set (pi_dynamic x)"
    if "rt_instances (snd (host_Subscribe env hass_id connID (map (hass_sub q) ts) r)) hass_id = Some x" "pi_running x" for x
  proof -
    from that(1) obtain y where y: "rt_instances r hass_id = Some y"
      "x = (if pi_running y then y\<lparr>pi_dynamic := fold put_ephemeral (map (hass_sub q) ts) (pi_dynamic y)\<rparr> else y)"
      by (auto simp: Subscribe_instances)
    with that(2) have run: "pi_running y" by (auto split: if_splits)
    then have "fst ` set (pi_dynamic x) = set ts \<union> fst ` set (pi_dynamic y)"
      using y filters put_ephemerals [of "map (hass_sub q) ts" "pi_dynamic y"] by simp
    with run y(1) assms(3) show ?thesis by (auto simp: asked_def)
  qed
  have con: "t \<in> ephemeral_filters c"
    if "Get k (rt_mqtt (snd (host_Subscribe env hass_id connID (map (hass_sub q) ts) r))) = Some c" for c
    using that assms(3) filters valid
    by (auto simp: asked_def Subscribe_conns [OF assms(1)] ephemeral_SubscribeEphemeral split: if_splits)
  show ?thesis using dyn con by (simp add: asked_def)
qed

lemma subscribeTopics_fields [simp]:
  "hp_registry (fst (subscribeTopics cd env connID ts s)) = hp_registry (fst s)"
  "hp_prefix (fst (subscribeTopics cd env connID ts s)) = hp_prefix (fst s)"
  by (auto simp: subscribeTopics_def Let_def split: prod.split)

lemma subscribeTopics_seen_eq:
  "seen_topics k (fst (subscribeTopics cd env connID ts s)) =
     seen_topics k (fst s) @ (if k = connID then fresh_topics (seen_topics connID (fst s)) ts else [])"
  by (auto simp: subscribeTopics_def Let_def seen_topics_def split: prod.split option.split)

lemma subscribeTopics_seen:
  "set (seen_topics k (fst (subscribeTopics cd env connID ts s))) =
     set (seen_topics k (fst s)) \<union> (if k = connID then {t \<in> set ts. ValidateFilter t = Inr ()} else {})"
  by (auto simp: subscribeTopics_seen_eq set_fresh)

lemma subscribeTopics_asked:
  assumes "connID \<noteq> []" "asked k t (snd s) \<or> k = connID \<and> t \<in> set ts \<and> t \<notin> set (seen_topics k (fst s)) \<and> ValidateFilter t = Inr ()"
  shows "asked k t (snd (subscribeTopics cd env connID ts s))"
proof (cases "ts = []")
  case True
  then show ?thesis using assms by (simp add: subscribeTopics_def)
next
  case False
  obtain p r where s: "s = (p, r)" by (cases s)
  let ?fresh = "fresh_topics (seen_topics connID p) ts"
  have valid: "\<forall>t \<in> set ?fresh. ValidateFilter t = Inr ()" by (simp add: set_fresh)
  have "asked k t r \<or> k = connID \<and> t \<in> set ?fresh" using assms(2) by (auto simp: s set_fresh)
  then show ?thesis
    using False Subscribe_asked [OF assms(1) valid] by (auto simp: subscribeTopics_def s Let_def)
qed

lemma subscribeTopics_following:
  assumes "connID \<noteq> []" "\<forall>k. \<forall>t \<in> set (seen_topics k (fst s)). asked k t (snd s)"
  shows "\<forall>k. \<forall>t \<in> set (seen_topics k (fst (subscribeTopics cd env connID ts s))). asked k t (snd (subscribeTopics cd env connID ts s))"
proof (intro allI ballI)
  fix k t
  assume "t \<in> set (seen_topics k (fst (subscribeTopics cd env connID ts s)))"
  then have "t \<in> set (seen_topics k (fst s)) \<or> k = connID \<and> t \<in> set ts \<and> ValidateFilter t = Inr ()"
    by (auto simp: subscribeTopics_seen split: if_splits)
  with assms(2) show "asked k t (snd (subscribeTopics cd env connID ts s))"
    by (intro subscribeTopics_asked [OF assms(1)]) blast
qed

section \<open>Announcements\<close>

lemma Upsert_topics:
  "set (snd (fst (hass_Upsert cd now connID dt c r))) = entity_topics cd (announced cd now connID dt c r)"
  by (auto simp: Upsert_eq Let_def index_entity_def entity_topics_def state_topics_def avail_topics_def attr_topics_def
      split: prod.split)

lemma announce_alt:
  "announce cd env now connID dt c s =
     subscribeTopics cd env connID (snd (fst (hass_Upsert cd now connID dt c (hp_registry (fst s)))))
       ((fst s)\<lparr>hp_registry := snd (hass_Upsert cd now connID dt c (hp_registry (fst s)))\<rparr>, snd s)"
  by (cases s) (simp add: announce_def split: prod.split)

lemma seen_registry [simp]: "seen_topics k (p\<lparr>hp_registry := g\<rparr>) = seen_topics k p"
  by (simp add: seen_topics_def)

lemma announce_fields [simp]: "hp_prefix (fst (announce cd env now connID dt c s)) = hp_prefix (fst s)"
  by (simp add: announce_alt)

lemma announce_entity:
  "hass_Entity i (hp_registry (fst (announce cd env now connID dt c s))) =
     (if i = indexKey connID (topicOf dt) then Some (announced cd now connID dt c (hp_registry (fst s)))
      else hass_Entity i (hp_registry (fst s)))"
  by (simp add: announce_alt hass_Entity_def Upsert_entities update_conv')

lemma announce_running:
  "rt_instances (snd s) hass_id = Some x \<Longrightarrow> pi_running x \<Longrightarrow>
     \<exists>x'. rt_instances (snd (announce cd env now connID dt c s)) hass_id = Some x' \<and> pi_running x'"
  by (cases s) (simp add: announce_alt subscribeTopics_def Let_def Subscribe_instances)

lemma announce_following [wf_intro]:
  assumes "following cd s" "connID \<noteq> []"
  shows "following cd (announce cd env now connID dt c s)"
proof -
  let ?g = "hp_registry (fst s)"
  let ?e = "announced cd now connID dt c ?g"
  let ?s = "((fst s)\<lparr>hp_registry := snd (hass_Upsert cd now connID dt c ?g)\<rparr>, snd s)"
  have seen: "set (seen_topics k (fst (announce cd env now connID dt c s))) =
      set (seen_topics k (fst s)) \<union> (if k = connID then {t \<in> entity_topics cd ?e. ValidateFilter t = Inr ()} else {})" for k
    by (simp add: announce_alt subscribeTopics_seen Upsert_topics)
  have "\<forall>k. \<forall>t \<in> set (seen_topics k (fst (announce cd env now connID dt c s))). asked k t (snd (announce cd env now connID dt c s))"
    using subscribeTopics_following [OF assms(2), of ?s cd env] assms(1) by (simp add: announce_alt following_def)
  then show ?thesis
    using assms(1) by (auto simp: following_def announce_entity seen)
qed

lemma apply_component_following [wf_intro]:
  "following cd s \<Longrightarrow> connID \<noteq> [] \<Longrightarrow> following cd (apply_component cd env now connID dt sh kv s)"
  by (auto simp: apply_component_def Let_def announce_following split: prod.split Any.split)

lemma apply_component_fields [simp]: "hp_prefix (fst (apply_component cd env now connID dt sh kv s)) = hp_prefix (fst s)"
  by (auto simp: apply_component_def Let_def split: prod.split Any.split)

lemma applyDeviceScoped_following [wf_intro]:
  assumes "following cd s" "connID \<noteq> []"
  shows "following cd (applyDeviceScoped cd env now connID dt c s)"
proof -
  have "following cd (fold (apply_component cd env now connID dt sh) kvs s)" for sh kvs
    using assms by (induction kvs arbitrary: s) (simp_all add: apply_component_following)
  with assms show ?thesis by (simp add: applyDeviceScoped_def split: option.split)
qed

lemma applyDeviceScoped_fields [simp]: "hp_prefix (fst (applyDeviceScoped cd env now connID dt c s)) = hp_prefix (fst s)"
proof -
  have "hp_prefix (fst (fold (apply_component cd env now connID dt sh) kvs s)) = hp_prefix (fst s)" for sh kvs
    by (induction kvs arbitrary: s) simp_all
  then show ?thesis by (simp add: applyDeviceScoped_def split: option.split)
qed

section \<open>State messages\<close>

lemma same_filing_refl [simp]: "same_filing e e"
  by (simp add: same_filing_def)

lemma same_filing_trans: "same_filing a b \<Longrightarrow> same_filing b c \<Longrightarrow> same_filing a c"
  by (simp add: same_filing_def)

lemma upds_filing:
  assumes "\<And>e. same_filing e (f e)"
  shows "hass_Entity j (fold (upd_entity f) is r) = Some e' \<Longrightarrow> \<exists>e. hass_Entity j r = Some e \<and> same_filing e e'"
proof (induction "is" arbitrary: r)
  case (Cons i "is")
  then obtain e where "hass_Entity j (upd_entity f i r) = Some e" "same_filing e e'" by auto
  then show ?case using assms by (auto simp: entity_upd intro: same_filing_trans split: if_splits)
qed auto

lemma ApplyState_filing:
  assumes "hass_Entity j (snd (hass_ApplyState cd now connID topic payload r)) = Some e'"
  shows "\<exists>e. hass_Entity j r = Some e \<and> same_filing e e'"
proof -
  let ?k = "indexKey connID topic"
  let ?a = "fold (upd_entity (state_from cd now topic payload)) (hr_stateIndex r ?k) r"
  let ?b = "fold (upd_entity (avail_from cd now topic payload)) (hr_availIndex r ?k) ?a"
  have e3: "hass_Entity j (fold (upd_entity (attrs_from cd now payload)) (hr_attrIndex r ?k) ?b) = Some e'"
    using assms by (simp add: hass_ApplyState_def Let_def)
  obtain e2 where e2: "hass_Entity j ?b = Some e2" "same_filing e2 e'"
    using upds_filing [where f = "attrs_from cd now payload", OF attrs_from_filing e3] by blast
  obtain e1 where e1: "hass_Entity j ?a = Some e1" "same_filing e1 e2"
    using upds_filing [where f = "avail_from cd now topic payload", OF avail_from_filing e2(1)] by blast
  obtain e where "hass_Entity j r = Some e" "same_filing e e1"
    using upds_filing [where f = "state_from cd now topic payload", OF state_from_filing e1(1)] by blast
  with e1 e2 show ?thesis by (blast intro: same_filing_trans)
qed

lemma same_filing_entity_topics: "same_filing e x \<Longrightarrow> entity_topics cd x = entity_topics cd e"
  using same_filing_topics [of e x cd] by (simp add: entity_topics_def)

lemma ApplyState_following [wf_intro]:
  assumes f: "following cd (p, r)"
  shows "following cd (p\<lparr>hp_registry := snd (hass_ApplyState cd now connID topic payload (hp_registry p))\<rparr>, r)"
  unfolding following_def fst_conv snd_conv seen_registry
proof (intro conjI allI impI ballI)
  fix i e' t
  assume e': "hass_Entity i (hp_registry (p\<lparr>hp_registry := snd (hass_ApplyState cd now connID topic payload (hp_registry p))\<rparr>)) = Some e'"
    and t: "t \<in> entity_topics cd e'" "ValidateFilter t = Inr ()"
  from e' have "hass_Entity i (snd (hass_ApplyState cd now connID topic payload (hp_registry p))) = Some e'" by simp
  then obtain e where e: "hass_Entity i (hp_registry p) = Some e" "same_filing e e'" using ApplyState_filing by blast
  then have "t \<in> entity_topics cd e" "et_connectionID e' = et_connectionID e"
    using t(1) same_filing_entity_topics [OF e(2), of cd] e(2) by (simp_all add: same_filing_def)
  moreover have "\<forall>t \<in> entity_topics cd e. ValidateFilter t = Inr () \<longrightarrow> t \<in> set (seen_topics (et_connectionID e) p)"
    using f e(1) unfolding following_def fst_conv by blast
  ultimately show "t \<in> set (seen_topics (et_connectionID e') p)" using t(2) by simp
next
  fix k t
  assume "t \<in> set (seen_topics k p)"
  with f show "asked k t r" unfolding following_def fst_conv snd_conv by blast
qed

section \<open>The plugin\<close>

definition retracting :: "string \<Rightarrow> Message \<Rightarrow> bool" where
  "retracting pre m \<longleftrightarrow>
     parseDiscoveryTopic pre (msg_topic m) \<noteq> None \<and> trim_space (string_of_bytes (msg_payload m)) = []"

lemma markDirty_fields [simp]:
  "hp_registry (markDirty c p) = hp_registry p" "hp_prefix (markDirty c p) = hp_prefix p"
  "hp_subscribed (markDirty c p) = hp_subscribed p"
  by (simp_all add: markDirty_def)

lemma markDirties_fields [simp]:
  "hp_registry (fold markDirty cs p) = hp_registry p" "hp_prefix (fold markDirty cs p) = hp_prefix p"
  "hp_subscribed (fold markDirty cs p) = hp_subscribed p"
  by (induction cs arbitrary: p) simp_all

lemma following_cong:
  "following cd s \<Longrightarrow> hp_registry (fst s') = hp_registry (fst s) \<Longrightarrow> hp_subscribed (fst s') = hp_subscribed (fst s) \<Longrightarrow>
     snd s' = snd s \<Longrightarrow> following cd s'"
  by (simp add: following_def seen_topics_def)

lemma HandleMessage_following:
  assumes f: "following cd s" and m: "msg_connectionID m \<noteq> []" "\<not> retracting (hp_prefix (fst s)) m"
  shows "following cd (hass_HandleMessage cd env now m s) \<and>
    hp_prefix (fst (hass_HandleMessage cd env now m s)) = hp_prefix (fst s)"
proof (cases "parseDiscoveryTopic (hp_prefix (fst s)) (msg_topic m)")
  case None
  obtain p r where s: "s = (p, r)" by (cases s)
  let ?a = "hass_ApplyState cd now (msg_connectionID m) (msg_topic m) (msg_payload m) (hp_registry p)"
  let ?cs = "List.map_filter (\<lambda>i. map_option et_connectionID (hass_Entity i (snd ?a))) (fst ?a)"
  have h: "hass_HandleMessage cd env now m s = (fold markDirty ?cs (p\<lparr>hp_registry := snd ?a\<rparr>), r)"
    using None by (simp add: hass_HandleMessage_def s Let_def case_prod_unfold)
  have "following cd (p\<lparr>hp_registry := snd ?a\<rparr>, r)" using f s by (intro ApplyState_following) simp
  then have "following cd (fold markDirty ?cs (p\<lparr>hp_registry := snd ?a\<rparr>), r)" by (rule following_cong) simp_all
  then show ?thesis using h s by simp
next
  case (Some dt)
  then have blank: "trim_space (string_of_bytes (msg_payload m)) \<noteq> []" using m(2) by (simp add: retracting_def)
  show ?thesis
  proof (cases "parseConfig cd (msg_payload m)")
    case None
    then show ?thesis using Some blank f by (simp add: hass_HandleMessage_def handleDiscovery_def Let_def)
  next
    case (Some c)
    define s' where "s' = (if dt_deviceScoped dt then applyDeviceScoped cd env now (msg_connectionID m) dt c s
        else announce cd env now (msg_connectionID m) dt c s)"
    have h: "hass_HandleMessage cd env now m s = apfst (markDirty (msg_connectionID m)) s'"
      using Some blank \<open>parseDiscoveryTopic (hp_prefix (fst s)) (msg_topic m) = Some dt\<close>
      by (simp add: hass_HandleMessage_def handleDiscovery_def Let_def s'_def)
    have "following cd s'" "hp_prefix (fst s') = hp_prefix (fst s)"
      unfolding s'_def using f m(1) by (simp_all add: applyDeviceScoped_following announce_following)
    then show ?thesis
      unfolding h by (auto intro: following_cong)
  qed
qed

lemma run_following:
  assumes "following cd s" "\<forall>(now, m) \<in> set ms. msg_connectionID m \<noteq> [] \<and> \<not> retracting (hp_prefix (fst s)) m"
  shows "following cd (fold (\<lambda>(now, m). hass_HandleMessage cd env now m) ms s)"
  using assms
proof (induction ms arbitrary: s)
  case (Cons nm ms)
  obtain now m where nm: "nm = (now, m)" by (cases nm)
  from Cons.prems have "following cd (hass_HandleMessage cd env now m s) \<and>
      hp_prefix (fst (hass_HandleMessage cd env now m s)) = hp_prefix (fst s)"
    by (intro HandleMessage_following) (auto simp: nm)
  with Cons show ?case by (auto simp: nm)
qed simp

lemma LoadPinned_entities [simp]: "hr_entities (LoadPinned keys r) = hr_entities r"
proof -
  have "hr_entities (LoadPinned keys r) = hr_entities r"
    unfolding LoadPinned_def by (induction keys arbitrary: r) (auto split: prod.split)
  then show ?thesis .
qed

lemma following_init: "following cd (hass_init cd st stored, r)"
  by (simp add: following_def hass_init_def Let_def hass_Entity_def hass_new_def seen_topics_def)

text \<open>
  A freshly started plugin follows what it is told about as long as nothing is taken back: after any messages
  from named connections that retract nothing, and nothing else happening in the host, every topic an entity reads
  (its state, its availability, its attributes, and the further state topics of lights, covers and thermostats), as
  long as it is a valid filter, is wanted on the entity's connection and held as a filter of the plugin. A
  retraction can end this for another entity that reads the same topic, as \<open>orphaned_topic_still_read\<close> shows.
\<close>

theorem entity_topics_followed:
  assumes "s = fold (\<lambda>(now, m). hass_HandleMessage cd env now m) ms (hass_init cd st stored, r)"
    and "\<forall>(now, m) \<in> set ms. msg_connectionID m \<noteq> [] \<and> \<not> retracting (hp_prefix (hass_init cd st stored)) m"
    and "hass_Entity i (hp_registry (fst s)) = Some e" and "t \<in> entity_topics cd e" and "ValidateFilter t = Inr ()"
  shows "(\<forall>c. Get (et_connectionID e) (rt_mqtt (snd s)) = Some c \<longrightarrow> t \<in> ephemeral_filters c) \<and>
    (\<forall>x. rt_instances (snd s) hass_id = Some x \<and> pi_running x \<longrightarrow> t \<in> fst ` set (pi_dynamic x))"
proof -
  have "following cd s"
    unfolding assms(1) using assms(2) by (intro run_following following_init) simp
  then show ?thesis using assms(3-5) unfolding following_def asked_def by blast
qed

definition ex_announcer :: HassCodec where
  "ex_announcer = ex_hass\<lparr>cd_parse := (\<lambda>_. Some (JObj [(''stat_t'', JStr ''t'')]))\<rparr>"

definition ex_host :: "SettingValue Runtime" where
  "ex_host = \<lparr>rt_registry = [], rt_instances = [hass_id \<mapsto> new_instance\<lparr>pi_running := True\<rparr>], rt_mqtt = NewManager,
     rt_saved = Map.empty, rt_state = Map.empty, rt_emitted = []\<rparr>"

definition ex_announcement :: Message where
  "ex_announcement = zero_message\<lparr>msg_connectionID := ''c1'', msg_topic := topicOf ex_sensor, msg_payload := bytes_of_string ''x''\<rparr>"

lemma ex_announcer_config: "parseConfig ex_announcer p = Some [(''state_topic'', AStr ''t'')]"
proof -
  have "full_key ''stat_t'' = ''state_topic''" by code_simp
  then show ?thesis
    by (simp add: parseConfig_def jsonUnmarshal_def hass_parse_def ex_announcer_def expandEntity_def expandTopicBase_def topicBase_def)
qed

lemma ex_init_prefix: "hp_prefix (hass_init ex_announcer Map.empty []) = ''homeassistant''"
  by (simp add: hass_init_def hass_settingString_def trim_char_def)

lemma ex_sensor_parsed: "parseDiscoveryTopic ''homeassistant'' (topicOf ex_sensor) = Some ex_sensor"
  by (rule parse_topicOf) (simp add: wf_discovery_def ex_sensor_def segment_def)

lemma ex_payload_text: "trim_space (string_of_bytes (bytes_of_string ''x'')) \<noteq> []"
  by code_simp

lemma ex_announcement_handled:
  "hass_HandleMessage ex_announcer ex_env 5 ex_announcement (hass_init ex_announcer Map.empty [], ex_host) =
     apfst (markDirty ''c1'') (announce ex_announcer ex_env 5 ''c1'' ex_sensor [(''state_topic'', AStr ''t'')]
       (hass_init ex_announcer Map.empty [], ex_host))"
  using ex_payload_text
  by (simp add: hass_HandleMessage_def handleDiscovery_def ex_init_prefix ex_sensor_parsed ex_announcer_config ex_announcement_def
      Let_def ex_sensor_def [THEN arg_cong [where f = dt_deviceScoped]])

lemma entity_topics_followed_witness:
  "\<exists>x. rt_instances (snd (hass_HandleMessage ex_announcer ex_env 5 ex_announcement (hass_init ex_announcer Map.empty [], ex_host)))
     hass_id = Some x \<and> ''t'' \<in> fst ` set (pi_dynamic x)"
proof -
  define s where "s = fold (\<lambda>(now, m). hass_HandleMessage ex_announcer ex_env now m) [(5, ex_announcement)]
    (hass_init ex_announcer Map.empty [], ex_host)"
  let ?e = "announced ex_announcer 5 ''c1'' ex_sensor [(''state_topic'', AStr ''t'')] (hp_registry (hass_init ex_announcer Map.empty []))"
  have s: "s = apfst (markDirty ''c1'') (announce ex_announcer ex_env 5 ''c1'' ex_sensor [(''state_topic'', AStr ''t'')]
      (hass_init ex_announcer Map.empty [], ex_host))"
    by (simp add: s_def ex_announcement_handled)
  have ms: "\<forall>(now, m) \<in> set [(5 :: int, ex_announcement)]. msg_connectionID m \<noteq> [] \<and>
      \<not> retracting (hp_prefix (hass_init ex_announcer Map.empty [])) m"
    using ex_payload_text by (simp add: retracting_def ex_announcement_def)
  have e: "hass_Entity (indexKey ''c1'' (topicOf ex_sensor)) (hp_registry (fst s)) = Some ?e"
    by (simp add: s announce_entity)
  have t: "''t'' \<in> entity_topics ex_announcer ?e"
    by (simp add: entity_topics_def state_topics_def announced_def new_entity_def cfg_str_def carry_over_def Let_def
        split: option.split)
  have v: "ValidateFilter ''t'' = Inr ()"
    by (simp add: ValidateFilter_def maxTopicBytes_def valid_utf8_ascii contains_any_def)
  have "rt_instances ex_host hass_id = Some (new_instance\<lparr>pi_running := True\<rparr>)" by (simp add: ex_host_def)
  then obtain x where "rt_instances (snd s) hass_id = Some x" "pi_running x"
    using announce_running [of "(hass_init ex_announcer Map.empty [], ex_host)"] unfolding s by fastforce
  with entity_topics_followed [OF s_def ms e t v]
  have "\<exists>x. rt_instances (snd s) hass_id = Some x \<and> ''t'' \<in> fst ` set (pi_dynamic x)" by blast
  moreover have "s = hass_HandleMessage ex_announcer ex_env 5 ex_announcement (hass_init ex_announcer Map.empty [], ex_host)"
    by (simp add: s_def)
  ultimately show ?thesis by (simp only:)
qed

section \<open>Commands\<close>

text \<open>
  C26. A command request changes nothing unless the caller is at least an operator and control is allowed; what
  is then sent is one publish, on the connection the entity was announced on, to a topic that is not empty
  and that the entity's own configuration names, with a QoS the configuration gives or 0.
\<close>

theorem command_reaches_own_topic:
  assumes "hass_handleCommand cd env user body p r = (status, r')"
  shows "(r' = r \<and> status \<in> {400, 403, 404}) \<or>
    (\<exists>role req e c key. user = Some role \<and> AtLeast role RoleOperator \<and>
       settingBool (host_Settings hass_id r) ''allowControl'' True \<and> body = Some req \<and>
       hass_Entity (hq_entityID req) (hp_registry p) = Some e \<and> BuildCommand cd e (hq_action req) (hq_value req) = Inr c \<and>
       cm_topic c \<noteq> [] \<and> cm_topic c = cfg_str cd (et_config e) key \<and>
       r' = snd (host_Publish env (et_connectionID e) \<lparr>pub_topic = cm_topic c, pub_payload = cm_payload c,
         pub_qos = cm_qos c, pub_retain = cm_retain c, pub_props = None\<rparr> r) \<and> status \<in> {200, 502})"
proof (cases "is_operator user \<and> settingBool (host_Settings hass_id r) ''allowControl'' True \<and>
    (\<exists>req e c. body = Some req \<and> hass_Entity (hq_entityID req) (hp_registry p) = Some e \<and>
       BuildCommand cd e (hq_action req) (hq_value req) = Inr c)")
  case False
  with assms show ?thesis
    by (cases body) (auto simp: hass_handleCommand_def split: sum.splits if_splits option.splits)
next
  case True
  then obtain req e c where *: "body = Some req" "hass_Entity (hq_entityID req) (hp_registry p) = Some e"
    "BuildCommand cd e (hq_action req) (hq_value req) = Inr c" by blast
  from True obtain role where role: "user = Some role" "AtLeast role RoleOperator"
    by (auto simp: is_operator_def split: option.splits)
  let ?pub = "host_Publish env (et_connectionID e) \<lparr>pub_topic = cm_topic c, pub_payload = cm_payload c, pub_qos = cm_qos c,
      pub_retain = cm_retain c, pub_props = None\<rparr> r"
  have "r' = snd ?pub \<and> status \<in> {200, 502}"
    using assms * True by (cases ?pub) (auto simp: hass_handleCommand_def split: sum.splits)
  moreover have "cm_topic c \<noteq> [] \<and> (\<exists>key. cm_topic c = cfg_str cd (et_config e) key)"
    using *(3) resolve_topic
    by (fastforce simp: BuildCommand_def Let_def split: sum.splits prod.splits if_splits)
  ultimately show ?thesis using * role True by blast
qed

definition ex_panel :: HassPlugin where
  "ex_panel = \<lparr>hp_registry = hass_new\<lparr>hr_entities := [(''e1'', ex_lamp)]\<rparr>, hp_prefix = ''homeassistant'',
     hp_subscribed = Map.empty, hp_dirty = []\<rparr>"

lemma command_reaches_own_topic_witness:
  "\<exists>c key. BuildCommand ex_hass ex_lamp ''turn_on'' [] = Inr c \<and> cm_topic c = cfg_str ex_hass (et_config ex_lamp) key \<and>
     cm_topic c \<noteq> []"
proof -
  let ?req = "\<lparr>hq_entityID = ''e1'', hq_action = ''turn_on'', hq_value = []\<rparr>"
  have e: "hass_Entity ''e1'' (hp_registry ex_panel) = Some ex_lamp"
    by (simp add: ex_panel_def hass_Entity_def)
  have b: "\<exists>c. BuildCommand ex_hass ex_lamp ''turn_on'' [] = Inr c"
    by (simp add: BuildCommand_def resolveCommand_def switch_topic_def ex_lamp_config cfg_str_def cfg_number_def Let_def)
  have "is_operator (Some RoleOperator)" "settingBool (host_Settings hass_id ex_host) ''allowControl'' True"
    by (simp_all add: is_operator_def AtLeast_def role_rank_def RoleOperator_def RoleViewer_def RoleAdmin_def settingBool_def
        host_Settings_def ex_host_def new_instance_def)
  with e b have "fst (hass_handleCommand ex_hass ex_env (Some RoleOperator) (Some ?req) ex_panel ex_host) \<in> {200, 502}"
    by (auto simp: hass_handleCommand_def split: prod.split sum.split)
  moreover obtain status r' where h: "hass_handleCommand ex_hass ex_env (Some RoleOperator) (Some ?req) ex_panel ex_host = (status, r')"
    by fastforce
  ultimately show ?thesis
    using command_reaches_own_topic [OF h] e by auto
qed

section \<open>Where the registry falls short\<close>

definition ex_topic :: "string \<Rightarrow> DiscoveryTopic" where
  "ex_topic name = \<lparr>dt_prefix = ''h'', dt_component = ''sensor'', dt_nodeID = [], dt_objectID = name, dt_deviceScoped = False\<rparr>"

lemmas registry_defs = hass_Upsert_def upsertDevice_def submap_def index_entity_def index_add_def unindex_def index_del_def
  hass_Remove_def orphanedTopics_def new_entity_def availabilityTopics_def state_topics_def avail_topics_def attr_topics_def
  cfg_str_def extraStateTopicKeys_def hass_new_def indexKey_def topicOf_def ex_topic_def hass_dedupe_def

text \<open>
  A topic two entities read in different roles, the one as its value, the other as its availability: taking
  the first away asks to unsubscribe it although the second still reads it.
\<close>

lemma orphaned_topic_still_read:
  "let r = reg_step ex_hass (OpAnnounce 1 ''c'' (ex_topic ''a'') [(''state_topic'', AStr ''s'')]) hass_new;
       r = reg_step ex_hass (OpAnnounce 1 ''c'' (ex_topic ''b'') [(''availability_topic'', AStr ''s'')]) r;
       (orphaned, r') = hass_Remove ex_hass ''c'' (topicOf (ex_topic ''a'')) r
   in orphaned = [''s''] \<and> hr_availIndex r' ''c|s'' = [''c|h/sensor/b/config'']"
  by (simp add: registry_defs strDefault_def Let_def)

text \<open>The further state topics of an entity are never among the topics given up.\<close>

lemma further_topic_never_orphaned:
  "let r = reg_step ex_hass (OpAnnounce 1 ''c'' (ex_topic ''a'') [(''position_topic'', AStr ''p'')]) hass_new
   in hr_stateIndex r ''c|p'' = [''c|h/sensor/a/config''] \<and>
      fst (hass_Remove ex_hass ''c'' (topicOf (ex_topic ''a'')) r) = []"
  by (simp add: registry_defs Let_def)

text \<open>An entity announced again under another device leaves its old device behind, with no entity and for good.\<close>

lemma merge_device_key [simp]: "dv_key (merge_device cd now c dev d) = dv_key d"
  by (simp add: merge_device_def Let_def)

lemma deviceKey_name: "n \<noteq> [] \<Longrightarrow> deviceKey ex_hass [(''name'', AStr n)] = ''name:'' @ n"
  by (simp add: deviceKey_def cfg_strings_def connectionPairs_def cfg_str_def)

lemma Upsert_device_keys:
  assumes "submap c ''device'' = Some d" "deviceKey cd d \<noteq> []"
  shows "map fst (hr_devices (snd (hass_Upsert cd now connID dt c r))) =
      (let k = indexKey connID (deviceKey cd d); ks = map fst (hr_devices r) in if k \<in> set ks then ks else ks @ [k])"
    and "et_deviceKey (announced cd now connID dt c r) = deviceKey cd d \<or>
      (\<exists>x. map_of (hr_devices r) (indexKey connID (deviceKey cd d)) = Some x \<and> et_deviceKey (announced cd now connID dt c r) = dv_key x)"
proof -
  have "hr_devices (snd (hass_Upsert cd now connID dt c r)) = hr_devices (snd (upsertDevice cd now connID c r))"
    by (simp add: Upsert_eq Let_def index_entity_def unindex_old_def unindex_def split: prod.split option.split)
  then show "map fst (hr_devices (snd (hass_Upsert cd now connID dt c r))) =
      (let k = indexKey connID (deviceKey cd d); ks = map fst (hr_devices r) in if k \<in> set ks then ks else ks @ [k])"
    using assms by (simp add: upsertDevice_def Let_def update_keys)
  show "et_deviceKey (announced cd now connID dt c r) = deviceKey cd d \<or>
      (\<exists>x. map_of (hr_devices r) (indexKey connID (deviceKey cd d)) = Some x \<and> et_deviceKey (announced cd now connID dt c r) = dv_key x)"
    using assms
    by (cases "map_of (hr_devices r) (indexKey connID (deviceKey cd d))")
      (simp_all add: announced_def Let_def new_entity_def upsertDevice_def carry_over_def zero_device_def split: option.split)
qed

lemma device_left_behind:
  "let dev = (\<lambda>n. [(''device'', AMap [(''name'', AStr n)])]);
       r = reg_step ex_hass (OpAnnounce 1 ''c'' (ex_topic ''a'') (dev ''A'')) hass_new;
       r = reg_step ex_hass (OpAnnounce 2 ''c'' (ex_topic ''a'') (dev ''B'')) r;
       r = reg_step ex_hass (OpRetract ''c'' (topicOf (ex_topic ''a''))) r
   in hr_entities r = [] \<and> map fst (hr_devices r) = [''c|name:A'']"
proof -
  let ?dev = "\<lambda>n. [(''device'', AMap [(''name'', AStr n)])]"
  define r1 where "r1 = reg_step ex_hass (OpAnnounce 1 ''c'' (ex_topic ''a'') (?dev ''A'')) hass_new"
  define r2 where "r2 = reg_step ex_hass (OpAnnounce 2 ''c'' (ex_topic ''a'') (?dev ''B'')) r1"
  let ?i = "indexKey ''c'' (topicOf (ex_topic ''a''))"
  have sub: "submap (?dev n) ''device'' = Some [(''name'', AStr n)]" for n by (simp add: submap_def)
  have k1: "map fst (hr_devices r1) = [''c|name:A'']"
    using Upsert_device_keys(1) [OF sub, of ex_hass "''A''" 1 "''c''" "ex_topic ''a''" hass_new]
    by (simp add: r1_def deviceKey_name indexKey_def hass_new_def)
  have k2: "map fst (hr_devices r2) = [''c|name:A'', ''c|name:B'']"
    using Upsert_device_keys(1) [OF sub, of ex_hass "''B''" 2 "''c''" "ex_topic ''a''" r1] k1
    by (simp add: r2_def deviceKey_name indexKey_def Let_def flip: list.set_map)
  have "map_of (hr_devices r1) ''c|name:B'' = None" using k1 by (simp add: map_of_eq_None_iff flip: list.set_map)
  then have e2: "et_deviceKey (announced ex_hass 2 ''c'' (ex_topic ''a'') (?dev ''B'') r1) = ''name:B''"
    using Upsert_device_keys(2) [OF sub, of ex_hass "''B''" 2 "''c''" "ex_topic ''a''" r1] by (simp add: deviceKey_name indexKey_def)
  have "hr_entities r1 = [(?i, announced ex_hass 1 ''c'' (ex_topic ''a'') (?dev ''A'') hass_new)]"
    by (simp add: r1_def Upsert_entities) (simp add: hass_new_def)
  then have es: "hr_entities r2 = [(?i, announced ex_hass 2 ''c'' (ex_topic ''a'') (?dev ''B'') r1)]"
    by (simp add: r2_def Upsert_entities)
  let ?r3 = "reg_step ex_hass (OpRetract ''c'' (topicOf (ex_topic ''a''))) r2"
  have "hr_entities ?r3 = []" "map fst (hr_devices ?r3) = [''c|name:A'']"
    using es e2 k2 by (simp_all add: hass_Remove_def unindex_def Let_def delete_keys indexKey_def)
  then show ?thesis by (simp only: Let_def r1_def [symmetric] r2_def [symmetric] simp_thms)
qed

text \<open>Without a mode, one source that was online outweighs a later one that says offline.\<close>

lemma latest_is_any:
  "combineAvailability cd (ex_lamp\<lparr>et_availState := [(''a'', AvailabilityOnline), (''b'', AvailabilityOffline)]\<rparr>) = AvailabilityOnline"
  by (simp add: combineAvailability_def strDefault_def cfg_str_def ex_lamp_config)

end
