(* ===== verification/Base64.thy ===== *)
theory Base64
  imports Prelude
begin

text \<open>
  \<^verbatim>\<open>base64.StdEncoding\<close>, as the API uses it to carry bytes that are no text, and the two
  functions of \<^verbatim>\<open>internal/api/publishing.go\<close> that use it: \<open>encodePayload\<close> writes a stored payload for the
  browser and \<open>decodePayload\<close> reads one back. The encoder pads; the decoder skips line ends, and refuses
  whatever is not a whole number of padded groups.
\<close>

section \<open>The alphabet\<close>

definition b64_alphabet :: string where
  "b64_alphabet = ''ABCDEFGHIJKLMNOPQRSTUVWXYZabcdefghijklmnopqrstuvwxyz0123456789+/''"

definition b64_char :: "nat \<Rightarrow> char" where
  "b64_char i = b64_alphabet ! i"

definition b64_value :: "char \<Rightarrow> nat option" where
  "b64_value c = (let i = length (takeWhile (\<lambda>d. d \<noteq> c) b64_alphabet) in if i < 64 then Some i else None)"

lemma b64_alphabet_length: "length b64_alphabet = 64"
  by (simp add: b64_alphabet_def)

lemma b64_alphabet_distinct: "distinct b64_alphabet"
  by (simp add: b64_alphabet_def)

lemma takeWhile_index: "distinct xs \<Longrightarrow> i < length xs \<Longrightarrow> length (takeWhile (\<lambda>d. d \<noteq> xs ! i) xs) = i"
proof (induction xs arbitrary: i)
  case (Cons x xs)
  then show ?case by (cases i) auto
qed simp

lemma b64_value_char [simp]: "i < 64 \<Longrightarrow> b64_value (b64_char i) = Some i"
  by (simp add: b64_value_def b64_char_def takeWhile_index b64_alphabet_distinct b64_alphabet_length)

lemma b64_char_in: "i < 64 \<Longrightarrow> b64_char i \<in> set b64_alphabet"
  by (simp add: b64_char_def b64_alphabet_length)

lemma b64_char_plain [simp]:
  assumes "i < 64"
  shows "b64_char i \<noteq> CHR ''=''" "b64_char i \<noteq> CHR 0x0A" "b64_char i \<noteq> CHR 0x0D"
  using b64_char_in [OF assms] by (auto simp: b64_alphabet_def)

section \<open>Encoding and decoding\<close>

definition b64_group :: "nat \<Rightarrow> char list" where
  "b64_group n = [b64_char (n div 262144 mod 64), b64_char (n div 4096 mod 64), b64_char (n div 64 mod 64), b64_char (n mod 64)]"

fun b64_encode :: "bytes \<Rightarrow> string" where
  "b64_encode [] = []"
| "b64_encode [a] = take 2 (b64_group (unat a * 65536)) @ ''==''"
| "b64_encode [a, b] = take 3 (b64_group (unat a * 65536 + unat b * 256)) @ ''=''"
| "b64_encode (a # b # c # r) = b64_group (unat a * 65536 + unat b * 256 + unat c) @ b64_encode r"

text \<open>The value of up to four characters, the missing ones of a last group being 0.\<close>

definition b64_ungroup :: "string \<Rightarrow> nat option" where
  "b64_ungroup cs =
     (case map b64_value cs of
        [Some x, Some y] \<Rightarrow> Some (x * 262144 + y * 4096)
      | [Some x, Some y, Some z] \<Rightarrow> Some (x * 262144 + y * 4096 + z * 64)
      | [Some x, Some y, Some z, Some w] \<Rightarrow> Some (x * 262144 + y * 4096 + z * 64 + w)
      | _ \<Rightarrow> None)"

definition b64_bytes :: "nat \<Rightarrow> bytes" where
  "b64_bytes n = [word_of_nat (n div 65536), word_of_nat (n div 256), word_of_nat n]"

fun b64_groups :: "string \<Rightarrow> bytes option" where
  "b64_groups [] = Some []"
| "b64_groups (a # b # c # d # r) =
     (if r = [] \<and> d = CHR ''='' then
        (if c = CHR ''='' then map_option (\<lambda>n. take 1 (b64_bytes n)) (b64_ungroup [a, b])
         else map_option (\<lambda>n. take 2 (b64_bytes n)) (b64_ungroup [a, b, c]))
      else case b64_ungroup [a, b, c, d] of
             None \<Rightarrow> None
           | Some n \<Rightarrow> map_option (\<lambda>bs. b64_bytes n @ bs) (b64_groups r))"
| "b64_groups _ = None"

definition b64_decode :: "string \<Rightarrow> bytes option" where
  "b64_decode s = b64_groups (filter (\<lambda>c. c \<noteq> CHR 0x0A \<and> c \<noteq> CHR 0x0D) s)"

lemma group_digits:
  fixes n :: nat
  assumes "n < 16777216"
  shows "n div 262144 mod 64 * 262144 + n div 4096 mod 64 * 4096 + n div 64 mod 64 * 64 + n mod 64 = n"
proof -
  have steps: "n div 4096 = n div 64 div 64" "n div 262144 = n div 4096 div 64"
    by (simp_all flip: div_mult2_eq)
  have "n div 262144 < 64" using assms by simp
  then have "n div 262144 mod 64 = n div 262144" by simp
  with steps show ?thesis
    using div_mult_mod_eq [of n 64] div_mult_mod_eq [of "n div 64" 64] div_mult_mod_eq [of "n div 4096" 64] by linarith
qed

lemma byte_bound: "unat (b :: byte) < 256"
  using unsigned_less [of b, where ?'a = nat] by simp

lemma byte_drop: "word_of_nat (256 * k + unat b) = (b :: byte)"
proof -
  have "word_of_nat (256 * k) = (0 :: byte)" by (simp only: word_of_nat_eq_0_iff) simp
  then show ?thesis by simp
qed

lemma b64_bytes_value:
  fixes a b c :: byte
  shows "b64_bytes (unat a * 65536 + unat b * 256 + unat c) = [a, b, c]"
proof -
  let ?n = "unat a * 65536 + unat b * 256 + unat c"
  note bound = byte_bound [of a] byte_bound [of b] byte_bound [of c]
  have "?n div 65536 = 256 * 0 + unat a" "?n div 256 = 256 * unat a + unat b"
    "?n = 256 * (256 * unat a + unat b) + unat c"
    using bound by simp_all
  then show ?thesis unfolding b64_bytes_def by (simp only: byte_drop)
qed

lemma b64_group_cases:
  obtains x y z w where "b64_group n = [x, y, z, w]"
    "\<And>c. c \<in> {x, y, z, w} \<Longrightarrow> c \<noteq> CHR ''='' \<and> c \<noteq> CHR 0x0A \<and> c \<noteq> CHR 0x0D"
proof
  show "b64_group n = [b64_char (n div 262144 mod 64), b64_char (n div 4096 mod 64), b64_char (n div 64 mod 64), b64_char (n mod 64)]"
    by (rule b64_group_def)
  show "c \<noteq> CHR ''='' \<and> c \<noteq> CHR 0x0A \<and> c \<noteq> CHR 0x0D"
    if "c \<in> {b64_char (n div 262144 mod 64), b64_char (n div 4096 mod 64), b64_char (n div 64 mod 64), b64_char (n mod 64)}" for c
    using that by (elim insertE emptyE) simp_all
qed

lemma b64_ungroup_group:
  assumes "n < 16777216"
  shows "b64_ungroup (b64_group n) = Some n"
    and "64 dvd n \<Longrightarrow> b64_ungroup (take 3 (b64_group n)) = Some n"
    and "4096 dvd n \<Longrightarrow> b64_ungroup (take 2 (b64_group n)) = Some n"
proof -
  let ?x = "n div 262144 mod 64" and ?y = "n div 4096 mod 64" and ?z = "n div 64 mod 64" and ?w = "n mod 64"
  have vals: "b64_value (b64_char ?x) = Some ?x" "b64_value (b64_char ?y) = Some ?y"
    "b64_value (b64_char ?z) = Some ?z" "b64_value (b64_char ?w) = Some ?w"
    by (rule b64_value_char, simp)+
  note digits = group_digits [OF assms]
  show "b64_ungroup (b64_group n) = Some n"
    unfolding b64_ungroup_def b64_group_def list.map vals list.case option.case digits ..
  show "b64_ungroup (take 3 (b64_group n)) = Some n" if "64 dvd n"
  proof -
    have "?w = 0" using that by simp
    then have "?x * 262144 + ?y * 4096 + ?z * 64 = n" using digits by linarith
    then show ?thesis
      unfolding b64_ungroup_def b64_group_def numeral_3_eq_3 take_Suc_Cons take_0 list.map vals list.case option.case by (rule arg_cong)
  qed
  show "b64_ungroup (take 2 (b64_group n)) = Some n" if "4096 dvd n"
  proof -
    obtain k where "n = 4096 * k" using \<open>4096 dvd n\<close> by blast
    then have "?z = 0" "?w = 0" by simp_all
    then have "?x * 262144 + ?y * 4096 = n" using digits by linarith
    then show ?thesis
      unfolding b64_ungroup_def b64_group_def numeral_2_eq_2 take_Suc_Cons take_0 list.map vals list.case option.case by (rule arg_cong)
  qed
qed

text \<open>Line ends are not of the alphabet, so what the decoder skips is nothing the encoder wrote.\<close>

lemma b64_encode_plain: "filter (\<lambda>c. c \<noteq> CHR 0x0A \<and> c \<noteq> CHR 0x0D) (b64_encode bs) = b64_encode bs"
proof (induction bs rule: b64_encode.induct)
  case (2 a)
  show ?case by (rule b64_group_cases [of "unat a * 65536"]) (simp add: numeral_2_eq_2)
next
  case (3 a b)
  show ?case by (rule b64_group_cases [of "unat a * 65536 + unat b * 256"]) (simp add: numeral_3_eq_3)
next
  case (4 a b c r)
  then show ?case
    by - (rule b64_group_cases [of "unat a * 65536 + unat b * 256 + unat c"], simp)
qed simp

lemma b64_groups_encode: "b64_groups (b64_encode bs) = Some bs"
proof (induction bs rule: b64_encode.induct)
  case (2 a)
  have "b64_ungroup (take 2 (b64_group (unat a * 65536))) = Some (unat a * 65536)"
    using byte_bound [of a] by (intro b64_ungroup_group(3)) auto
  then show ?case
    using b64_bytes_value [of a 0 0]
    by - (rule b64_group_cases [of "unat a * 65536"], simp add: numeral_2_eq_2)
next
  case (3 a b)
  have "b64_ungroup (take 3 (b64_group (unat a * 65536 + unat b * 256))) = Some (unat a * 65536 + unat b * 256)"
    using byte_bound [of a] byte_bound [of b] by (intro b64_ungroup_group(2)) (auto intro!: dvd_add dvd_mult)
  then show ?case
    using b64_bytes_value [of a b 0]
    by - (rule b64_group_cases [of "unat a * 65536 + unat b * 256"], simp add: numeral_2_eq_2 numeral_3_eq_3)
next
  case (4 a b c r)
  have "b64_ungroup (b64_group (unat a * 65536 + unat b * 256 + unat c)) = Some (unat a * 65536 + unat b * 256 + unat c)"
    using byte_bound [of a] byte_bound [of b] byte_bound [of c] by (intro b64_ungroup_group(1)) auto
  with 4 show ?case
    using b64_bytes_value [of a b c]
    by - (rule b64_group_cases [of "unat a * 65536 + unat b * 256 + unat c"], simp)
qed simp

lemma b64_decode_encode: "b64_decode (b64_encode bs) = Some bs"
  by (simp add: b64_decode_def b64_encode_plain b64_groups_encode)

section \<open>Payloads on their way to and from a browser\<close>

record payloadView =
  pv_payload :: string
  pv_base64 :: bool

definition encodePayload :: "bytes \<Rightarrow> payloadView" where
  "encodePayload raw =
     (if valid_utf8 (string_of_bytes raw) then \<lparr>pv_payload = string_of_bytes raw, pv_base64 = False\<rparr>
      else \<lparr>pv_payload = b64_encode raw, pv_base64 = True\<rparr>)"

definition decodePayload :: "string \<Rightarrow> bool \<Rightarrow> bytes option" where
  "decodePayload t isBase64 = (if \<not> isBase64 then Some (bytes_of_string t) else b64_decode t)"

lemma bytes_of_string_of_bytes [simp]: "bytes_of_string (string_of_bytes bs) = bs"
  by (simp add: bytes_of_string_def string_of_bytes_def comp_def byte_bound)

end
