(* ===== verification/TopicApi.thy ===== *)
theory TopicApi
  imports Conn Base64 HassCommands Sparkplug LogBuf
begin

text \<open>
  \<^verbatim>\<open>internal/api/topic_history.go\<close>: a topic's own past, as a list, a comparison, a file, a series of numbers.
  A handler is a function of the query it is given and of the connection it found; it answers with an error
  status or a body, and the connection after it (reading a topic's log marks it as used). Times are rendered
  and durations are read by parameters, as are the floats of \<^verbatim>\<open>strconv\<close>; the codec is the one of
  \<open>HassTemplate\<close>.
\<close>

section \<open>Parameters of a query\<close>

text \<open>\<^verbatim>\<open>intParam\<close> takes the default for whatever is no positive number; \<^verbatim>\<open>strictInt\<close> refuses it.\<close>

definition intParam :: "string \<Rightarrow> int \<Rightarrow> int" where
  "intParam raw def =
     (if raw = [] then def
      else case ParseInt raw of None \<Rightarrow> def | Some v \<Rightarrow> if v \<le> 0 then def else v)"

datatype int_error = NotInt | OutsideRange

definition strictInt :: "string \<Rightarrow> int \<Rightarrow> int \<Rightarrow> int \<Rightarrow> int_error + int" where
  "strictInt raw def lo hi =
     (if raw = [] then Inr def
      else case ParseInt raw of
        None \<Rightarrow> Inl NotInt
      | Some v \<Rightarrow> if v < lo \<or> v > hi then Inl OutsideRange else Inr v)"

section \<open>Entries\<close>

record historyEntry =
  hy_seq :: nat
  hy_receivedAt :: time
  hy_payload :: string
  hy_base64 :: bool
  hy_size :: nat
  hy_qos :: nat
  hy_retain :: bool
  hy_truncated :: bool

definition toHistoryEntry :: "Message \<Rightarrow> historyEntry" where
  "toHistoryEntry m =
     (let e = \<lparr>hy_seq = msg_seq m, hy_receivedAt = msg_receivedAt m, hy_payload = [], hy_base64 = False,
               hy_size = length (msg_payload m), hy_qos = msg_qos m, hy_retain = msg_retain m,
               hy_truncated = msg_truncated m\<rparr>
      in if valid_utf8 (string_of_bytes (msg_payload m)) then e\<lparr>hy_payload := string_of_bytes (msg_payload m)\<rparr>
         else e\<lparr>hy_payload := b64_encode (msg_payload m), hy_base64 := True\<rparr>)"

definition requireTopic :: "string \<Rightarrow> nat + string" where
  "requireTopic topic = (if topic = [] then Inl 400 else Inr topic)"

definition log_entries :: "string \<Rightarrow> int \<Rightarrow> Conn \<Rightarrow> Message list \<times> Conn" where
  "log_entries topic limit c =
     (let (entries, l) = Entries topic limit (cn_topicLog c) in (entries, c\<lparr>cn_topicLog := l\<rparr>))"

record historyReply =
  hr_topic :: string
  hr_entries :: "historyEntry list"
  hr_span :: "(time \<times> time \<times> nat) option"

definition handleTopicHistory :: "string \<Rightarrow> string \<Rightarrow> Conn \<Rightarrow> (nat + historyReply) \<times> Conn" where
  "handleTopicHistory topic limit c =
     (case requireTopic topic of
        Inl e \<Rightarrow> (Inl e, c)
      | Inr topic \<Rightarrow>
          let (entries, c) = log_entries topic (intParam limit 0) c;
              (span, l) = Span topic (cn_topicLog c)
          in (Inr \<lparr>hr_topic = topic, hr_entries = map toHistoryEntry entries, hr_span = span\<rparr>, c\<lparr>cn_topicLog := l\<rparr>))"

definition handleTopicDiff :: "string \<Rightarrow> Conn \<Rightarrow> (nat + historyEntry \<times> historyEntry option) \<times> Conn" where
  "handleTopicDiff topic c =
     (case requireTopic topic of
        Inl e \<Rightarrow> (Inl e, c)
      | Inr topic \<Rightarrow>
          let (entries, c) = log_entries topic 2 c
          in if length entries = 0 then (Inl 404, c)
             else (Inr (toHistoryEntry (entries ! (length entries - 1)),
                        if length entries = 2 then Some (toHistoryEntry (entries ! 0)) else None), c))"

section \<open>Files\<close>

text \<open>
  The runes of a text, as a Go \<^verbatim>\<open>range\<close> yields them: a byte that begins no rune is one bad rune, which is none
  a file name keeps.
\<close>

function range_runes :: "nat list \<Rightarrow> nat option list" where
  "range_runes bs =
     (case bs of
        [] \<Rightarrow> []
      | b # r \<Rightarrow>
          (case decode_rune bs of
             None \<Rightarrow> None # range_runes r
           | Some (x, rest) \<Rightarrow> Some x # range_runes rest))"
  by pat_completeness auto
termination
  by (relation "measure length") (auto simp del: decode_rune.simps dest: decode_rune_shorter)

declare range_runes.simps [simp del]

definition filename_rune :: "nat \<Rightarrow> bool" where
  "filename_rune r \<longleftrightarrow> 97 \<le> r \<and> r \<le> 122 \<or> 65 \<le> r \<and> r \<le> 90 \<or> 48 \<le> r \<and> r \<le> 57 \<or> r = 45 \<or> r = 95"

text \<open>\<open>now\<close> is the time rendered as \<^verbatim>\<open>20060102-150405\<close>.\<close>

definition file_stem :: "string \<Rightarrow> string" where
  "file_stem topic =
     (let safe = map (\<lambda>r. case r of
                        Some r \<Rightarrow> if filename_rune r then char_of r else CHR ''-'' | None \<Rightarrow> CHR ''-'')
                   (range_runes (map of_char topic));
          safe = trim_char CHR ''-'' safe;
          safe = (if safe = [] then ''topic'' else safe)
      in if length safe > 80 then take 80 safe else safe)"

definition exportFilename :: "string \<Rightarrow> string \<Rightarrow> string \<Rightarrow> string" where
  "exportFilename now topic format = file_stem topic @ ''-'' @ now @ ''.'' @ format"

datatype export_body = ExportJSON string "historyEntry list" | ExportCSV "string list list"

definition csv_row :: "(time \<Rightarrow> string) \<Rightarrow> string \<Rightarrow> Message \<Rightarrow> string list" where
  "csv_row fmt topic m =
     (let e = toHistoryEntry m;
          encoding = (if hy_base64 e then ''base64'' else ''text'');
          encoding = (if hy_truncated e then encoding @ ''; truncated'' else encoding)
      in [fmt (msg_receivedAt m), topic, nat_string (msg_qos m), bool_string (msg_retain m),
          nat_string (hy_size e), encoding, hy_payload e])"

definition csv_header :: "string list" where
  "csv_header = [''received_at'', ''topic'', ''qos'', ''retain'', ''size'', ''encoding'', ''payload'']"

definition handleTopicExport ::
    "(time \<Rightarrow> string) \<Rightarrow> string \<Rightarrow> string \<Rightarrow> string \<Rightarrow> string \<Rightarrow> Conn \<Rightarrow> (nat + string \<times> export_body) \<times> Conn" where
  "handleTopicExport fmt now topic format limit c =
     (case requireTopic topic of
        Inl e \<Rightarrow> (Inl e, c)
      | Inr topic \<Rightarrow>
          let format = to_lower format;
              format = (if format = [] then ''csv'' else format)
          in if format \<noteq> ''csv'' \<and> format \<noteq> ''json'' then (Inl 400, c)
             else
               let (entries, c) = log_entries topic (intParam limit 0) c
               in if length entries = 0 then (Inl 404, c)
                  else
                    let name = exportFilename now topic format
                    in if format = ''json''
                       then (Inr (name, ExportJSON topic (map toHistoryEntry entries)), c)
                       else (Inr (name, ExportCSV (csv_header # map (csv_row fmt topic) entries)), c))"

section \<open>Numbers in payloads\<close>

text \<open>
  \<^verbatim>\<open>strings.ToUpper\<close>, as far as comparing with an English word goes: besides the ASCII letters, a dotless i
  and a long s have a capital that is one.
\<close>

fun word_upper :: "string \<Rightarrow> string" where
  "word_upper [] = []"
| "word_upper (c # cs) =
     (if c = CHR 0xC4 \<and> cs \<noteq> [] \<and> hd cs = CHR 0xB1 then CHR ''I'' # word_upper (drop 1 cs)
      else if c = CHR 0xC5 \<and> cs \<noteq> [] \<and> hd cs = CHR 0xBF then CHR ''S'' # word_upper (drop 1 cs)
      else (let n = (of_char c :: nat) in if 97 \<le> n \<and> n \<le> 122 then char_of (n - 32) else c) # word_upper cs)"

definition float_one :: float64 where "float_one = 0x3FF0000000000000"

definition api_finite :: "float64 \<Rightarrow> float64 option" where
  "api_finite v = (if float_nan v \<or> float_inf v then None else Some v)"

definition api_parseNumber :: "HassCodec \<Rightarrow> string \<Rightarrow> float64 option" where
  "api_parseNumber cd t =
     (case hc_parse cd t of
        Some v \<Rightarrow> api_finite v
      | None \<Rightarrow>
          let u = word_upper (trim_space t)
          in if u \<in> {''ON'', ''TRUE'', ''OPEN'', ''OPENING''} then Some float_one
             else if u \<in> {''OFF'', ''FALSE'', ''CLOSED'', ''CLOSING''} then Some 0
             else None)"

definition numericValue :: "Any \<Rightarrow> float64 option" where
  "numericValue v =
     (case v of AFloat f \<Rightarrow> api_finite f | ABool b \<Rightarrow> Some (if b then float_one else 0) | _ \<Rightarrow> None)"

text \<open>One key after the other, into objects only.\<close>

fun json_at :: "string list \<Rightarrow> Any \<Rightarrow> Any option" where
  "json_at [] doc = Some doc"
| "json_at (k # ks) doc =
     (case doc of
        AMap m \<Rightarrow> (case map_of m k of None \<Rightarrow> None | Some v \<Rightarrow> json_at ks v)
      | _ \<Rightarrow> None)"

definition leaf_number :: "HassCodec \<Rightarrow> Any \<Rightarrow> float64 option" where
  "leaf_number cd v =
     (case v of
        AFloat f \<Rightarrow> api_finite f
      | AStr s \<Rightarrow> api_parseNumber cd s
      | ABool b \<Rightarrow> Some (if b then float_one else 0)
      | _ \<Rightarrow> None)"

definition numericAt :: "HassCodec \<Rightarrow> bytes \<Rightarrow> string \<Rightarrow> float64 option" where
  "numericAt cd payload field =
     (if field = [] then api_parseNumber cd (trim_space (string_of_bytes payload))
      else case hass_parse cd payload of
        None \<Rightarrow> None
      | Some doc \<Rightarrow>
          (case json_at (split_on CHR ''.'' field) doc of None \<Rightarrow> None | Some v \<Rightarrow> leaf_number cd v))"

text \<open>The paths that hold something chartable; they are collected in a set, so their order is none.\<close>

definition walk_depth :: nat where "walk_depth = 6"

fun walkNumericPaths :: "HassCodec \<Rightarrow> nat \<Rightarrow> string \<Rightarrow> Any \<Rightarrow> string list"
  and walk_members :: "HassCodec \<Rightarrow> nat \<Rightarrow> string \<Rightarrow> (string \<times> Any) list \<Rightarrow> string list" where
  "walkNumericPaths cd depth pfx doc =
     (if depth > walk_depth then []
      else case doc of AMap m \<Rightarrow> walk_members cd depth pfx m | _ \<Rightarrow> [])"
| "walk_members cd depth pfx [] = []"
| "walk_members cd depth pfx ((key, v) # m) =
     (let path = (if pfx \<noteq> [] then pfx @ ''.'' @ key else key) in
      (case v of
         AFloat _ \<Rightarrow> if numericValue v \<noteq> None then [path] else []
       | ABool _ \<Rightarrow> if numericValue v \<noteq> None then [path] else []
       | AStr s \<Rightarrow> if api_parseNumber cd s \<noteq> None then [path] else []
       | AMap _ \<Rightarrow> walkNumericPaths cd (depth + 1) path v
       | _ \<Rightarrow> []) @ walk_members cd depth pfx m)"

definition collectNumericPaths :: "HassCodec \<Rightarrow> bytes \<Rightarrow> string list" where
  "collectNumericPaths cd payload =
     (if api_parseNumber cd (trim_space (string_of_bytes payload)) \<noteq> None then [[]]
      else case hass_parse cd payload of None \<Rightarrow> [] | Some doc \<Rightarrow> walkNumericPaths cd 0 [] doc)"

record seriesReply =
  sr_topic :: string
  sr_field :: string
  sr_points :: "(time \<times> float64) list"
  sr_skipped :: nat

text \<open>The loop over the entries: those of the window that are numbers, and how many were not.\<close>

fun series_loop :: "HassCodec \<Rightarrow> string \<Rightarrow> time \<Rightarrow> Message list \<Rightarrow> (time \<times> float64) list \<times> nat \<Rightarrow> (time \<times> float64) list \<times> nat" where
  "series_loop cd field since [] acc = acc"
| "series_loop cd field since (m # ms) (points, skipped) =
     (if since \<noteq> 0 \<and> msg_receivedAt m < since then series_loop cd field since ms (points, skipped)
      else case numericAt cd (msg_payload m) field of
        None \<Rightarrow> series_loop cd field since ms (points, skipped + 1)
      | Some v \<Rightarrow> series_loop cd field since ms (points @ [(msg_receivedAt m, v)], skipped))"

definition handleTopicSeries ::
    "HassCodec \<Rightarrow> (string \<Rightarrow> int option) \<Rightarrow> time \<Rightarrow> string \<Rightarrow> string \<Rightarrow> string \<Rightarrow> Conn \<Rightarrow> (nat + seriesReply) \<times> Conn" where
  "handleTopicSeries cd duration now topic field since c =
     (case requireTopic topic of
        Inl e \<Rightarrow> (Inl e, c)
      | Inr topic \<Rightarrow>
          (case (if since = [] then Inr 0 else case duration since of None \<Rightarrow> Inl 400 | Some d \<Rightarrow> Inr (now - d)) of
             Inl e \<Rightarrow> (Inl e, c)
           | Inr since \<Rightarrow>
               let (entries, c) = log_entries topic 0 c;
                   (points, skipped) = series_loop cd field since entries ([], 0)
               in (Inr \<lparr>sr_topic = topic, sr_field = field, sr_points = points, sr_skipped = skipped\<rparr>, c)))"

definition inspectPayloads :: int where "inspectPayloads = 20"

definition handleTopicFields :: "HassCodec \<Rightarrow> string \<Rightarrow> Conn \<Rightarrow> (nat + string list) \<times> Conn" where
  "handleTopicFields cd topic c =
     (case requireTopic topic of
        Inl e \<Rightarrow> (Inl e, c)
      | Inr topic \<Rightarrow>
          let (entries, c) = log_entries topic inspectPayloads c
          in (Inr (sort (remdups (concat (map (\<lambda>m. collectNumericPaths cd (msg_payload m)) entries)))), c))"

section \<open>The last payload\<close>

record decodeReply =
  dr_detected :: Detected
  dr_truncated :: bool
  dr_topic :: "SparkplugTopic option"
  dr_decoded :: "(proto_error + SparkplugPayload) option"

definition handleTopicDecode :: "(string \<Rightarrow> bool) \<Rightarrow> Render \<Rightarrow> string \<Rightarrow> Conn \<Rightarrow> nat + decodeReply" where
  "handleTopicDecode jsonValid rd topic c =
     (case requireTopic topic of
        Inl e \<Rightarrow> Inl e
      | Inr topic \<Rightarrow>
          (case tree_Value topic (cn_tree c) of
             None \<Rightarrow> Inl 404
           | Some v \<Rightarrow>
               let detected = Detect jsonValid topic (tv_payload v);
                   r = \<lparr>dr_detected = detected, dr_truncated = tv_truncated v, dr_topic = None, dr_decoded = None\<rparr>
               in if dt_kind detected = KindSparkplug then
                    Inr (r\<lparr>dr_topic := ParseSparkplugTopic topic,
                           dr_decoded := Some (case DecodeSparkplug rd (tv_payload v) of
                             (p, None) \<Rightarrow> Inr p | (_, Some e) \<Rightarrow> Inl e)\<rparr>)
                  else Inr r))"

text \<open>The body, its media type, and the name it is offered under where it is no image.\<close>

definition handleTopicRaw :: "string \<Rightarrow> string \<Rightarrow> Conn \<Rightarrow> nat + (string \<times> string option \<times> bytes)" where
  "handleTopicRaw now topic c =
     (case requireTopic topic of
        Inl e \<Rightarrow> Inl e
      | Inr topic \<Rightarrow>
          (case tree_Value topic (cn_tree c) of
             None \<Rightarrow> Inl 404
           | Some v \<Rightarrow>
               let media = SafeMediaType (tv_payload v)
               in Inr (media,
                    if media = ''application/octet-stream'' then Some (exportFilename now topic ''bin'') else None,
                    tv_payload v)))"

record graphReply =
  gr_nodes :: "GraphNode list"
  gr_topics :: nat
  gr_messages :: nat
  gr_truncated :: bool
  gr_treeFull :: bool
  gr_newest :: "time option"
  gr_countingSince :: "time option"

definition handleGraph :: "string \<Rightarrow> string \<Rightarrow> Conn \<Rightarrow> graphReply" where
  "handleGraph depth nodes c =
     (let (out, newest, truncated) = tree_Graph (intParam depth 3) (intParam nodes 500) (cn_tree c);
          (topics, messages, full) = tree_Stats (cn_tree c)
      in \<lparr>gr_nodes = out, gr_topics = topics, gr_messages = messages, gr_truncated = truncated, gr_treeFull = full,
          gr_newest = (if newest = 0 then None else Some newest),
          gr_countingSince = st_connectedAt (conn_Status c)\<rparr>)"

section \<open>The log\<close>

definition ParseUint :: "string \<Rightarrow> nat option" where
  "ParseUint s = (case parse_nat s of None \<Rightarrow> None | Some n \<Rightarrow> if n < 2 ^ 64 then Some n else None)"

definition handleLogs :: "string \<Rightarrow> string \<Rightarrow> string \<Rightarrow> Buffer option \<Rightarrow> nat + (LogRecord list \<times> nat)" where
  "handleLogs level since limit logs =
     (case logs of
        None \<Rightarrow> Inl 503
      | Some b \<Rightarrow>
          (case ParseLevel level of
             None \<Rightarrow> Inl 400
           | Some lv \<Rightarrow>
               (case (if since = [] then Some 0 else ParseUint since) of
                  None \<Rightarrow> Inl 400
                | Some s \<Rightarrow> Inr (Records lv s (intParam limit 500) b, bf_seq b))))"

end
