(* ===== verification/Collect.thy ===== *)
theory Collect
  imports TopicApi Topic
begin

text \<open>
  \<^verbatim>\<open>internal/api/collect.go\<close>: watching a connection for a window of time. A collector keeps what matches up to
  its limit and counts the rest; the filter is held subscribed by a counted lease for as long as a window
  wants it. Windows overlap, and what takes the lock and what talks to the broker are separate steps of each,
  so the model has both: \<open>holdFilter\<close> and \<open>releaseFilter\<close> as one request runs them, and \<open>collect_step\<close>, in which
  the steps of any number of windows interleave.
\<close>

section \<open>The collector\<close>

definition defaultCollectSeconds :: int where "defaultCollectSeconds = 10"
definition maxCollectSeconds :: int where "maxCollectSeconds = 120"
definition defaultCollectLimit :: int where "defaultCollectLimit = 500"
definition maxCollectLimit :: int where "maxCollectLimit = 5000"

record collector =
  co_connectionID :: string
  co_filter :: string
  co_limit :: int
  co_messages :: "Message list"
  co_dropped :: nat

definition collector_add :: "Message \<Rightarrow> collector \<Rightarrow> collector" where
  "collector_add m c =
     (if msg_connectionID m \<noteq> co_connectionID c \<or> \<not> MatchFilter (co_filter c) (msg_topic m) then c
      else if int (length (co_messages c)) \<ge> co_limit c then c\<lparr>co_dropped := co_dropped c + 1\<rparr>
      else c\<lparr>co_messages := co_messages c @ [m]\<rparr>)"

definition collector_result :: "collector \<Rightarrow> Message list \<times> nat" where
  "collector_result c = (co_messages c, co_dropped c)"

section \<open>Leases\<close>

type_synonym leases = "string \<rightharpoonup> int"

definition lease_count :: "leases \<Rightarrow> string \<Rightarrow> int" where
  "lease_count l key = (case l key of None \<Rightarrow> 0 | Some n \<Rightarrow> n)"

definition lease_key :: "Conn \<Rightarrow> string \<Rightarrow> string" where
  "lease_key c flt = cs_id (cn_spec c) @ CHR 0x00 # flt"

definition hold_covered :: "Conn \<Rightarrow> string \<Rightarrow> bool" where
  "hold_covered c flt \<longleftrightarrow> (\<exists>s \<in> set (cs_subscriptions (cn_spec c)). sub_filter s = flt)"

definition hold_count :: "string \<Rightarrow> leases \<Rightarrow> bool \<times> leases" where
  "hold_count key l = (let l = l(key \<mapsto> lease_count l key + 1) in (lease_count l key = 1, l))"

definition hold_undo :: "string \<Rightarrow> leases \<Rightarrow> leases" where
  "hold_undo key l = l(key \<mapsto> lease_count l key - 1)"

definition watch_sub :: "string \<Rightarrow> Subscription" where
  "watch_sub flt = \<lparr>sub_filter = flt, sub_qos = 0, sub_noLocal = False, sub_retainAsPublished = False, sub_retainHandling = 0\<rparr>"

definition release_count :: "string \<Rightarrow> leases \<Rightarrow> bool \<times> leases" where
  "release_count key l =
     (let l = l(key \<mapsto> lease_count l key - 1) in
      if lease_count l key \<le> 0 then (True, l(key := None)) else (False, l))"

text \<open>One request at a time: whether it holds a lease, or why it could not subscribe.\<close>

definition holdFilter :: "Env \<Rightarrow> string \<Rightarrow> leases \<times> Conn \<Rightarrow> (conn_error + bool) \<times> leases \<times> Conn" where
  "holdFilter env flt s =
     (let (l, c) = s in
      if hold_covered c flt then (Inr False, l, c)
      else
        let key = lease_key c flt; (first, l) = hold_count key l
        in if \<not> first then (Inr True, l, c)
           else (case SubscribeEphemeral env [watch_sub flt] c of
                   (Inl e, c) \<Rightarrow> (Inl e, hold_undo key l, c)
                 | (Inr _, c) \<Rightarrow> (Inr True, l, c)))"

definition releaseFilter :: "Env \<Rightarrow> string \<Rightarrow> leases \<times> Conn \<Rightarrow> leases \<times> Conn" where
  "releaseFilter env flt s =
     (let (l, c) = s; (lst, l) = release_count (lease_key c flt) l
      in if \<not> lst then (l, c) else (l, snd (UnsubscribeEphemeral env [flt] c)))"

section \<open>One window\<close>

record collectReply =
  cp_filter :: string
  cp_messages :: "historyEntry list"
  cp_topics :: "string \<rightharpoonup> nat"
  cp_dropped :: nat
  cp_truncated :: bool

definition count_topics :: "Message list \<Rightarrow> string \<rightharpoonup> nat" where
  "count_topics ms = fold (\<lambda>m t. t(msg_topic m \<mapsto> (case t (msg_topic m) of None \<Rightarrow> 0 | Some n \<Rightarrow> n) + 1)) ms Map.empty"

text \<open>
  \<open>arrivals\<close> is what the manager tells its observers between the observer being added and being taken away,
  on this connection and the others. The two environments are the outcomes of subscribing and unsubscribing.
\<close>

definition handleCollect ::
    "Env \<Rightarrow> Env \<Rightarrow> string \<Rightarrow> string \<Rightarrow> string \<Rightarrow> Message list \<Rightarrow> leases \<times> Conn \<Rightarrow> (nat + collectReply) \<times> leases \<times> Conn" where
  "handleCollect env env' rawSeconds rawLimit rawFilter arrivals s =
     (case strictInt rawSeconds defaultCollectSeconds 1 maxCollectSeconds of
        Inl _ \<Rightarrow> (Inl 400, s)
      | Inr seconds \<Rightarrow>
          (case strictInt rawLimit defaultCollectLimit 1 maxCollectLimit of
             Inl _ \<Rightarrow> (Inl 400, s)
           | Inr limit \<Rightarrow>
               let flt = (if rawFilter = [] then ''#'' else rawFilter) in
               if ValidateFilter flt \<noteq> Inr () then (Inl 400, s)
               else if st_state (conn_Status (snd s)) \<noteq> StateConnected then (Inl 409, s)
               else
                 let col = \<lparr>co_connectionID = cs_id (cn_spec (snd s)), co_filter = flt, co_limit = limit,
                            co_messages = [], co_dropped = 0\<rparr>
                 in (case holdFilter env flt s of
                       (Inl _, s) \<Rightarrow> (Inl 502, s)
                     | (Inr subscribed, s) \<Rightarrow>
                         let (messages, dropped) = collector_result (fold collector_add arrivals col)
                         in (Inr \<lparr>cp_filter = flt, cp_messages = map toHistoryEntry messages,
                                  cp_topics = count_topics messages, cp_dropped = dropped,
                                  cp_truncated = (dropped > 0)\<rparr>,
                             if subscribed then releaseFilter env' flt s else s))))"

section \<open>Windows that overlap\<close>

text \<open>
  Where a window is: its filter yet to be checked against the stored subscriptions, yet to be counted, not in
  need of a lease, counted as the first lease and about
  to subscribe, subscribed or relying on a window that is, about to take its lease back after a failure,
  counted out as the last and about to unsubscribe, or over.
\<close>

datatype phase = Arrived | Counting | Unneeded | Subscribing | Watching | Failing | Leaving | Over

record CollectState =
  cl_leases :: leases
  cl_conn :: Conn
  cl_windows :: "(string \<times> phase) list"

definition at :: "nat \<Rightarrow> string \<Rightarrow> phase \<Rightarrow> CollectState \<Rightarrow> bool" where
  "at i flt p s \<longleftrightarrow> i < length (cl_windows s) \<and> cl_windows s ! i = (flt, p)"

definition move :: "nat \<Rightarrow> string \<Rightarrow> phase \<Rightarrow> CollectState \<Rightarrow> CollectState" where
  "move i flt p s = s\<lparr>cl_windows := (cl_windows s)[i := (flt, p)]\<rparr>"

inductive collect_step :: "CollectState \<Rightarrow> CollectState \<Rightarrow> bool" where
  arrive: "collect_step s (s\<lparr>cl_windows := cl_windows s @ [(flt, Arrived)]\<rparr>)"
| unneeded: "at i flt Arrived s \<Longrightarrow> hold_covered (cl_conn s) flt \<Longrightarrow> collect_step s (move i flt Unneeded s)"
| checked: "at i flt Arrived s \<Longrightarrow> \<not> hold_covered (cl_conn s) flt \<Longrightarrow> collect_step s (move i flt Counting s)"
| count: "at i flt Counting s \<Longrightarrow>
    hold_count (lease_key (cl_conn s) flt) (cl_leases s) = (first, l) \<Longrightarrow>
    collect_step s ((move i flt (if first then Subscribing else Watching) s)\<lparr>cl_leases := l\<rparr>)"
| subscribed: "at i flt Subscribing s \<Longrightarrow> SubscribeEphemeral env [watch_sub flt] (cl_conn s) = (Inr (), c) \<Longrightarrow>
    collect_step s ((move i flt Watching s)\<lparr>cl_conn := c\<rparr>)"
| refused: "at i flt Subscribing s \<Longrightarrow> SubscribeEphemeral env [watch_sub flt] (cl_conn s) = (Inl e, c) \<Longrightarrow>
    collect_step s ((move i flt Failing s)\<lparr>cl_conn := c\<rparr>)"
| undo: "at i flt Failing s \<Longrightarrow>
    collect_step s ((move i flt Over s)\<lparr>cl_leases := hold_undo (lease_key (cl_conn s) flt) (cl_leases s)\<rparr>)"
| release: "at i flt Watching s \<Longrightarrow> release_count (lease_key (cl_conn s) flt) (cl_leases s) = (lst, l) \<Longrightarrow>
    collect_step s ((move i flt (if lst then Leaving else Over) s)\<lparr>cl_leases := l\<rparr>)"
| unsubscribe: "at i flt Leaving s \<Longrightarrow> UnsubscribeEphemeral env [flt] (cl_conn s) = (r, c) \<Longrightarrow>
    collect_step s ((move i flt Over s)\<lparr>cl_conn := c\<rparr>)"
| elapsed: "at i flt Unneeded s \<Longrightarrow> collect_step s (move i flt Over s)"
| elsewhere: "cs_id (cn_spec c) = cs_id (cn_spec (cl_conn s)) \<Longrightarrow> collect_step s (s\<lparr>cl_conn := c\<rparr>)"

definition collect_start :: "Conn \<Rightarrow> CollectState" where
  "collect_start c = \<lparr>cl_leases = Map.empty, cl_conn = c, cl_windows = []\<rparr>"

inductive collect_reachable :: "Conn \<Rightarrow> CollectState \<Rightarrow> bool" for c where
  start: "collect_reachable c (collect_start c)"
| step: "collect_reachable c s \<Longrightarrow> collect_step s s' \<Longrightarrow> collect_reachable c s'"

end
