(* ===== verification/CollectFacts.thy ===== *)
theory CollectFacts
  imports Collect ConnFacts
begin

text \<open>
  What a collection window may rely on: its answer is everything that matched, up to its limit, and says how
  much more there was; the leases count the windows in every interleaving; and one request at a time, a
  filter is subscribed for exactly as long as a window watches it. What goes wrong when two requests
  overlap, or share a filter with a plugin, is shown on concrete runs.
\<close>

section \<open>What a window collects\<close>

definition collects :: "string \<Rightarrow> string \<Rightarrow> Message \<Rightarrow> bool" where
  "collects c flt m \<longleftrightarrow> msg_connectionID m = c \<and> MatchFilter flt (msg_topic m)"

lemma collector_fold:
  "0 \<le> co_limit c \<Longrightarrow> int (length (co_messages c)) \<le> co_limit c \<Longrightarrow>
   (let ms' = filter (collects (co_connectionID c) (co_filter c)) ms; room = nat (co_limit c) - length (co_messages c) in
    fold collector_add ms c = c\<lparr>co_messages := co_messages c @ take room ms', co_dropped := co_dropped c + (length ms' - room)\<rparr>)"
proof (induction ms arbitrary: c)
  case (Cons m ms)
  show ?case
  proof (cases "collects (co_connectionID c) (co_filter c) m")
    case False
    then have "collector_add m c = c" by (auto simp: collector_add_def collects_def)
    with False Cons.IH [of c] Cons.prems show ?thesis by simp
  next
    case hit: True
    show ?thesis
    proof (cases "int (length (co_messages c)) \<ge> co_limit c")
      case True
      with hit have add: "collector_add m c = c\<lparr>co_dropped := co_dropped c + 1\<rparr>"
        by (simp add: collector_add_def collects_def)
      have "nat (co_limit c) - length (co_messages c) = 0" using True by simp
      with hit Cons.IH [of "c\<lparr>co_dropped := co_dropped c + 1\<rparr>"] Cons.prems show ?thesis
        by (simp add: add Let_def)
    next
      case False
      with hit have add: "collector_add m c = c\<lparr>co_messages := co_messages c @ [m]\<rparr>"
        by (simp add: collector_add_def collects_def)
      obtain room where room: "nat (co_limit c) - length (co_messages c) = Suc room"
        using False by (cases "nat (co_limit c) - length (co_messages c)") auto
      moreover have "nat (co_limit c) - Suc (length (co_messages c)) = room" using room by simp
      moreover have "int (length (co_messages c @ [m])) \<le> co_limit c" using False by simp
      ultimately show ?thesis
        using hit Cons.IH [of "c\<lparr>co_messages := co_messages c @ [m]\<rparr>"] Cons.prems
        by (simp add: add Let_def)
    qed
  qed
qed simp

section \<open>Leases count windows\<close>

definition holding :: "phase \<Rightarrow> bool" where
  "holding p \<longleftrightarrow> p \<in> {Subscribing, Watching, Failing}"

definition holders :: "string \<Rightarrow> CollectState \<Rightarrow> nat" where
  "holders flt s = length (filter (\<lambda>w. fst w = flt \<and> holding (snd w)) (cl_windows s))"

definition leases_ok :: "CollectState \<Rightarrow> bool" where
  "leases_ok s \<longleftrightarrow> (\<forall>flt. lease_count (cl_leases s) (lease_key (cl_conn s) flt) = int (holders flt s))"

lemma count_update:
  "i < length xs \<Longrightarrow>
   int (length (filter P (xs[i := y]))) =
     int (length (filter P xs)) - (if P (xs ! i) then 1 else 0) + (if P y then 1 else 0)"
proof (induction xs arbitrary: i)
  case (Cons x xs)
  show ?case
  proof (cases i)
    case (Suc j)
    with Cons.IH [of j] Cons.prems show ?thesis by (cases "P (xs ! j)"; cases "P y") simp_all
  qed (use Cons.prems in simp)
qed simp

lemma holders_move:
  "at i flt p s \<Longrightarrow> int (holders f (move i flt q s)) =
     int (holders f s) - (if f = flt \<and> holding p then 1 else 0) + (if f = flt \<and> holding q then 1 else 0)"
  unfolding holders_def at_def move_def by (simp add: count_update)

lemma holders_frame [simp]:
  "holders f (s\<lparr>cl_leases := l\<rparr>) = holders f s" "holders f (s\<lparr>cl_conn := c\<rparr>) = holders f s"
  by (simp_all add: holders_def)

lemma move_fields [simp]: "cl_leases (move i flt p s) = cl_leases s" "cl_conn (move i flt p s) = cl_conn s"
  by (simp_all add: move_def)

lemma lease_key_eq [simp]: "lease_key c f = lease_key c g \<longleftrightarrow> f = g"
  by (simp add: lease_key_def)

lemma lease_key_spec: "cs_id (cn_spec c) = cs_id (cn_spec d) \<Longrightarrow> lease_key c f = lease_key d f"
  by (simp add: lease_key_def)

lemma lease_counts:
  "lease_count (snd (hold_count k l)) j = lease_count l j + (if j = k then 1 else 0)"
  "lease_count (hold_undo k l) j = lease_count l j - (if j = k then 1 else 0)"
  "fst (hold_count k l) \<longleftrightarrow> lease_count l k = 0"
  by (auto simp: lease_count_def hold_count_def hold_undo_def Let_def)

lemma release_counts:
  assumes "0 < lease_count l k"
  shows "lease_count (snd (release_count k l)) j = lease_count l j - (if j = k then 1 else 0)"
    and "fst (release_count k l) \<longleftrightarrow> lease_count l k = 1"
  using assms by (auto simp: lease_count_def release_count_def Let_def)

lemma ephemeral_spec:
  "SubscribeEphemeral env subs c = (r, d) \<Longrightarrow> cn_spec d = cn_spec c"
  "UnsubscribeEphemeral env fs c = (r, d) \<Longrightarrow> cn_spec d = cn_spec c"
  by (auto simp: SubscribeEphemeral_def UnsubscribeEphemeral_def Let_def on_client_def split: if_splits option.splits)

lemma holders_pos: "at i flt p s \<Longrightarrow> holding p \<Longrightarrow> 0 < holders flt s"
proof -
  assume "at i flt p s" "holding p"
  then have "(flt, p) \<in> set (filter (\<lambda>w. fst w = flt \<and> holding (snd w)) (cl_windows s))"
    by (auto simp: at_def in_set_conv_nth)
  then show ?thesis unfolding holders_def by (rule length_pos_if_in_set)
qed

lemma leases_ok_step:
  assumes "leases_ok s" "collect_step s s'"
  shows "leases_ok s'"
  using assms(2)
proof cases
  case (arrive flt)
  with assms(1) show ?thesis by (simp add: leases_ok_def holders_def holding_def)
next
  case (count i flt first l)
  have l: "l = snd (hold_count (lease_key (cl_conn s) flt) (cl_leases s))" using count(3) by simp
  have "lease_count l (lease_key (cl_conn s) f) =
      int (holders f (move i flt (if first then Subscribing else Watching) s))" for f
    unfolding l lease_counts(1) holders_move [OF count(2)]
    using assms(1) by (simp add: leases_ok_def holding_def)
  then show ?thesis unfolding count(1) by (simp add: leases_ok_def)
next
  case (release i flt lst l)
  have l: "l = snd (release_count (lease_key (cl_conn s) flt) (cl_leases s))" using release(3) by simp
  have "0 < lease_count (cl_leases s) (lease_key (cl_conn s) flt)"
    using assms(1) holders_pos [OF release(2)] by (simp add: leases_ok_def holding_def)
  from release_counts(1) [OF this] have "lease_count l (lease_key (cl_conn s) f) =
      int (holders f (move i flt (if lst then Leaving else Over) s))" for f
    unfolding l holders_move [OF release(2)]
    using assms(1) by (simp add: leases_ok_def holding_def)
  then show ?thesis unfolding release(1) by (simp add: leases_ok_def)
next
  case (elsewhere c)
  then have "lease_key c f = lease_key (cl_conn s) f" for f by (intro lease_key_spec)
  with assms(1) elsewhere show ?thesis by (simp add: leases_ok_def)
next
  case (subscribed i flt env c)
  then have "lease_key c f = lease_key (cl_conn s) f" for f by (intro lease_key_spec) (metis ephemeral_spec(1))
  with assms(1) subscribed show ?thesis by (auto simp: leases_ok_def holders_move holding_def)
next
  case (refused i flt env e c)
  then have "lease_key c f = lease_key (cl_conn s) f" for f by (intro lease_key_spec) (metis ephemeral_spec(1))
  with assms(1) refused show ?thesis by (auto simp: leases_ok_def holders_move holding_def)
next
  case (unsubscribe i flt env r c)
  then have "lease_key c f = lease_key (cl_conn s) f" for f by (intro lease_key_spec) (metis ephemeral_spec(2))
  with assms(1) unsubscribe show ?thesis by (auto simp: leases_ok_def holders_move holding_def)
qed (use assms(1) in \<open>auto simp: leases_ok_def holders_move holding_def lease_counts\<close>)

lemma collect_reachable_ok: "collect_reachable c s \<Longrightarrow> leases_ok s"
proof (induction rule: collect_reachable.induct)
  case start
  show ?case by (simp add: leases_ok_def collect_start_def lease_count_def holders_def)
qed (rule leases_ok_step)

text \<open>
  However the steps of overlapping windows interleave, and whatever else happens to the connection
  meanwhile, the lease count of a filter is the number of windows that were counted in and not yet counted
  out: no window is forgotten, none is counted twice, and the one that finds itself the last is.
\<close>

theorem leases_count_windows:
  assumes "collect_reachable c s"
  shows "lease_count (cl_leases s) (lease_key (cl_conn s) flt) = int (holders flt s)"
  using collect_reachable_ok [OF assms] by (simp add: leases_ok_def)

section \<open>One request at a time\<close>

datatype collect_op = CO_Hold Env string | CO_Release Env nat

fun collect_op_step :: "collect_op \<Rightarrow> CollectState \<Rightarrow> CollectState" where
  "collect_op_step (CO_Hold env flt) s =
     (case holdFilter env flt (cl_leases s, cl_conn s) of
        (r, l, c) \<Rightarrow> \<lparr>cl_leases = l, cl_conn = c,
          cl_windows = cl_windows s @ [(flt, case r of Inl _ \<Rightarrow> Over | Inr True \<Rightarrow> Watching | Inr False \<Rightarrow> Unneeded)]\<rparr>)"
| "collect_op_step (CO_Release env i) s =
     (if i < length (cl_windows s) \<and> snd (cl_windows s ! i) = Watching then
        (case releaseFilter env (fst (cl_windows s ! i)) (cl_leases s, cl_conn s) of
           (l, c) \<Rightarrow> \<lparr>cl_leases = l, cl_conn = c, cl_windows = (cl_windows s)[i := (fst (cl_windows s ! i), Over)]\<rparr>)
      else s)"

definition collect_run :: "collect_op list \<Rightarrow> Conn \<Rightarrow> CollectState" where
  "collect_run ops c = fold collect_op_step ops (collect_start c)"

text \<open>What one request does is a sequence of the steps that interleave.\<close>

lemma reach_after: "collect_reachable c s \<Longrightarrow> collect_step s s' \<Longrightarrow> s' = t \<Longrightarrow> collect_reachable c t"
  by (auto intro: collect_reachable.step)

lemma at_last: "at (length (cl_windows s)) flt p (s\<lparr>cl_windows := cl_windows s @ [(flt, p)]\<rparr>)"
  by (simp add: at_def)

lemma windows_update:
  "s\<lparr>cl_windows := w\<rparr> = \<lparr>cl_leases = cl_leases s, cl_conn = cl_conn s, cl_windows = w\<rparr>"
  "s\<lparr>cl_windows := w, cl_leases := l\<rparr> = \<lparr>cl_leases = l, cl_conn = cl_conn s, cl_windows = w\<rparr>"
  by simp_all

lemma hold_reachable:
  assumes "collect_reachable c s"
  shows "collect_reachable c (collect_op_step (CO_Hold env flt) s)"
proof -
  let ?i = "length (cl_windows s)" and ?s = "\<lambda>p. s\<lparr>cl_windows := cl_windows s @ [(flt, p)]\<rparr>"
  have mv: "move ?i flt q (?s p) = ?s q" for p q
    by (simp add: move_def)
  have arrived: "collect_reachable c (?s Arrived)"
    using assms by (rule collect_reachable.step) (rule collect_step.arrive)
  show ?thesis
  proof (cases "hold_covered (cl_conn s) flt")
    case True
    have "collect_reachable c (move ?i flt Unneeded (?s Arrived))"
      using arrived by (rule collect_reachable.step) (intro collect_step.unneeded at_last, simp add: True)
    with True show ?thesis unfolding mv by (simp add: holdFilter_def windows_update)
  next
    case False
    have counting: "collect_reachable c (?s Counting)"
      unfolding mv [of Counting Arrived, symmetric]
      using arrived by (rule collect_reachable.step) (intro collect_step.checked at_last, simp add: False)
    obtain fst' l where hc: "hold_count (lease_key (cl_conn s) flt) (cl_leases s) = (fst', l)" by fastforce
    have counted: "collect_reachable c ((?s (if fst' then Subscribing else Watching))\<lparr>cl_leases := l\<rparr>)"
      unfolding mv [of "if fst' then Subscribing else Watching" Counting, symmetric]
      using counting by (rule collect_reachable.step) (intro collect_step.count at_last, simp add: hc)
    show ?thesis
    proof (cases fst')
      case first: False
      with counted False hc show ?thesis by (simp add: holdFilter_def windows_update)
    next
      case first: True
      let ?t = "(?s Subscribing)\<lparr>cl_leases := l\<rparr>"
      have at: "at ?i flt Subscribing ?t" by (simp add: at_def)
      have sub: "collect_reachable c ?t" using counted first by simp
      obtain r d where se: "SubscribeEphemeral env [watch_sub flt] (cl_conn s) = (r, d)" by fastforce
      show ?thesis
      proof (cases r)
        case (Inr u)
        have "collect_reachable c ((move ?i flt Watching ?t)\<lparr>cl_conn := d\<rparr>)"
          using sub by (rule collect_reachable.step) (intro collect_step.subscribed [where env = env] at, simp add: se Inr)
        moreover have "(move ?i flt Watching ?t)\<lparr>cl_conn := d\<rparr> = collect_op_step (CO_Hold env flt) s"
          using False first hc se Inr by (simp add: holdFilter_def move_def)
        ultimately show ?thesis by simp
      next
        case (Inl e)
        let ?u = "(move ?i flt Failing ?t)\<lparr>cl_conn := d\<rparr>"
        have "collect_reachable c ?u"
          using sub by (rule collect_reachable.step) (intro collect_step.refused [where env = env] at, simp add: se Inl)
        moreover have "at ?i flt Failing ?u" by (simp add: at_def move_def)
        ultimately have "collect_reachable c ((move ?i flt Over ?u)\<lparr>cl_leases := hold_undo (lease_key (cl_conn ?u) flt) (cl_leases ?u)\<rparr>)"
          by (intro collect_reachable.step [OF _ collect_step.undo])
        moreover have "lease_key d flt = lease_key (cl_conn s) flt"
          using ephemeral_spec(1) [OF se] by (simp add: lease_key_def)
        then have "(move ?i flt Over ?u)\<lparr>cl_leases := hold_undo (lease_key (cl_conn ?u) flt) (cl_leases ?u)\<rparr> = collect_op_step (CO_Hold env flt) s"
          using False first hc se Inl by (simp add: holdFilter_def move_def)
        ultimately show ?thesis by simp
      qed
    qed
  qed
qed

lemma release_reachable:
  assumes "collect_reachable c s"
  shows "collect_reachable c (collect_op_step (CO_Release env i) s)"
proof (cases "i < length (cl_windows s) \<and> snd (cl_windows s ! i) = Watching")
  case True
  define flt where "flt = fst (cl_windows s ! i)"
  have at: "at i flt Watching s" using True by (auto simp: at_def flt_def prod_eq_iff)
  obtain lst l where rc: "release_count (lease_key (cl_conn s) flt) (cl_leases s) = (lst, l)" by fastforce
  let ?t = "(move i flt (if lst then Leaving else Over) s)\<lparr>cl_leases := l\<rparr>"
  have counted: "collect_reachable c ?t"
    using assms by (rule collect_reachable.step) (rule collect_step.release [OF at rc])
  show ?thesis
  proof (cases lst)
    case False
    with counted True rc show ?thesis by (simp add: releaseFilter_def move_def flt_def windows_update)
  next
    case last: True
    obtain r d where un: "UnsubscribeEphemeral env [flt] (cl_conn s) = (r, d)" by fastforce
    have "at i flt Leaving ?t" using True last by (simp add: at_def move_def)
    then have "collect_reachable c ((move i flt Over ?t)\<lparr>cl_conn := d\<rparr>)"
      using counted un by (intro collect_reachable.step [OF _ collect_step.unsubscribe [where env = env]]) simp_all
    moreover have "(move i flt Over ?t)\<lparr>cl_conn := d\<rparr> = collect_op_step (CO_Release env i) s"
      using True last rc un by (simp add: releaseFilter_def move_def flt_def)
    ultimately show ?thesis by simp
  qed
qed (use assms in auto)

lemma collect_run_reachable: "collect_reachable c (collect_run ops c)"
proof (induction ops rule: rev_induct)
  case Nil
  show ?case by (simp add: collect_run_def collect_reachable.start)
next
  case (snoc op ops)
  then have "collect_reachable c (collect_op_step op (collect_run ops c))"
    by (cases op) (simp_all only: hold_reachable release_reachable)
  then show ?case by (simp add: collect_run_def)
qed

text \<open>
  The code's functions are sequences of the steps that interleave: whatever requests run one after
  another, the state they leave is one the interleaved machine reaches, and what holds of it in every
  interleaving holds of them.
\<close>

theorem collect_run_refines: "collect_reachable c (collect_run ops c)"
  by (rule collect_run_reachable)

section \<open>Held for as long as watched\<close>

definition transient :: "Conn \<Rightarrow> string set" where
  "transient c = fst ` set (cn_ephemeral c)"

lemma transient_Subscribe:
  "ValidateFilter flt = Inr () \<Longrightarrow> transient (snd (SubscribeEphemeral env [watch_sub flt] c)) = insert flt (transient c)"
  by (auto simp: SubscribeEphemeral_def watch_sub_def Let_def on_client_def transient_def fst_put_ephemeral split: option.splits)

lemma transient_Unsubscribe: "transient (snd (UnsubscribeEphemeral env [flt] c)) = transient c - {flt}"
  by (auto simp: UnsubscribeEphemeral_def Let_def on_client_def transient_def split: option.splits)

lemma Subscribe_succeeds:
  "ValidateFilter flt = Inr () \<Longrightarrow> env_subErr env = None \<Longrightarrow> fst (SubscribeEphemeral env [watch_sub flt] c) = Inr ()"
  by (auto simp: SubscribeEphemeral_def watch_sub_def Let_def sub_result_def of_lib_def split: option.splits)

text \<open>Requests whose subscribe the broker accepts.\<close>

fun accepted :: "collect_op \<Rightarrow> bool" where
  "accepted (CO_Hold env flt) = (ValidateFilter flt = Inr () \<and> env_subErr env = None)"
| "accepted (CO_Release env i) = True"

definition settled :: "CollectState \<Rightarrow> bool" where
  "settled s \<longleftrightarrow> snd ` set (cl_windows s) \<subseteq> {Unneeded, Watching, Over} \<and>
     (\<forall>flt. flt \<in> transient (cl_conn s) \<longleftrightarrow> (flt, Watching) \<in> set (cl_windows s))"

lemma settled_holders: "settled s \<Longrightarrow> holders flt s = 0 \<longleftrightarrow> (flt, Watching) \<notin> set (cl_windows s)"
proof -
  assume "settled s"
  then have "p \<in> {Unneeded, Watching, Over}" if "(f, p) \<in> set (cl_windows s)" for f p
    using that by (force simp: settled_def)
  then show ?thesis
    by (fastforce simp: holders_def holding_def filter_empty_conv)
qed

lemma settled_hold:
  assumes "settled s" "leases_ok s" "accepted (CO_Hold env flt)"
  shows "settled (collect_op_step (CO_Hold env flt) s)"
proof (cases "hold_covered (cl_conn s) flt")
  case True
  with assms(1) show ?thesis by (auto simp: settled_def holdFilter_def)
next
  case False
  obtain b l where hc: "hold_count (lease_key (cl_conn s) flt) (cl_leases s) = (b, l)" by fastforce
  then have b: "b \<longleftrightarrow> (flt, Watching) \<notin> set (cl_windows s)"
    using lease_counts(3) [of "lease_key (cl_conn s) flt" "cl_leases s"] assms(2) settled_holders [OF assms(1)]
    by (simp add: leases_ok_def)
  obtain r d where se: "SubscribeEphemeral env [watch_sub flt] (cl_conn s) = (r, d)" by fastforce
  then have "r = Inr ()" "transient d = insert flt (transient (cl_conn s))"
    using assms(3) Subscribe_succeeds [of flt env "cl_conn s"] transient_Subscribe [of flt env "cl_conn s"] by simp_all
  with False hc b se assms(1) show ?thesis by (auto simp: settled_def holdFilter_def)
qed

lemma settled_release:
  assumes "settled s" "leases_ok s"
  shows "settled (collect_op_step (CO_Release env i) s)"
proof (cases "i < length (cl_windows s) \<and> snd (cl_windows s ! i) = Watching")
  case True
  define flt where "flt = fst (cl_windows s ! i)"
  let ?w = "(cl_windows s)[i := (flt, Over)]"
  have at: "at i flt Watching s" using True by (auto simp: at_def flt_def prod_eq_iff)
  have pos: "0 < lease_count (cl_leases s) (lease_key (cl_conn s) flt)"
    using assms(2) holders_pos [OF at] by (simp add: leases_ok_def holding_def)
  obtain b l where rc: "release_count (lease_key (cl_conn s) flt) (cl_leases s) = (b, l)" by fastforce
  then have "b \<longleftrightarrow> holders flt s = 1"
    using release_counts(2) [OF pos] assms(2) by (simp add: leases_ok_def)
  moreover have "int (holders flt (move i flt Over s)) = int (holders flt s) - 1"
    using holders_move [OF at, of flt Over] by (simp add: holding_def)
  ultimately have b: "b \<longleftrightarrow> holders flt (move i flt Over s) = 0" by linarith
  have phases: "snd ` set ?w \<subseteq> {Unneeded, Watching, Over}"
    using assms(1) set_update_subset_insert [of "cl_windows s" i "(flt, Over)"] by (fastforce simp: settled_def)
  then have own: "(flt, Watching) \<in> set ?w \<longleftrightarrow> \<not> b"
    unfolding b holders_def move_def by (force simp: holding_def filter_empty_conv)
  have others: "(f, Watching) \<in> set ?w \<longleftrightarrow> (f, Watching) \<in> set (cl_windows s)" if "f \<noteq> flt" for f
  proof
    assume "(f, Watching) \<in> set ?w"
    then have "(f, Watching) \<in> insert (flt, Over) (set (cl_windows s))"
      using set_update_subset_insert by fastforce
    with that show "(f, Watching) \<in> set (cl_windows s)" by simp
  next
    assume "(f, Watching) \<in> set (cl_windows s)"
    then obtain j where "j < length (cl_windows s)" "cl_windows s ! j = (f, Watching)" by (auto simp: in_set_conv_nth)
    moreover then have "j \<noteq> i" using that flt_def by auto
    ultimately show "(f, Watching) \<in> set ?w"
      by (auto simp: in_set_conv_nth intro!: exI [of _ j])
  qed
  have was: "(flt, Watching) \<in> set (cl_windows s)"
    using at by (auto simp: at_def in_set_conv_nth)
  obtain r d where un: "UnsubscribeEphemeral env [flt] (cl_conn s) = (r, d)" by fastforce
  then have gone: "transient d = transient (cl_conn s) - {flt}"
    using transient_Unsubscribe [of env flt "cl_conn s"] by simp
  have step: "collect_op_step (CO_Release env i) s =
      \<lparr>cl_leases = l, cl_conn = (if b then d else cl_conn s), cl_windows = ?w\<rparr>"
    using True rc un by (simp add: releaseFilter_def flt_def)
  have before: "f \<in> transient (cl_conn s) \<longleftrightarrow> (f, Watching) \<in> set (cl_windows s)" for f
    using assms(1) by (simp add: settled_def)
  have "f \<in> transient (if b then d else cl_conn s) \<longleftrightarrow> (f, Watching) \<in> set ?w" for f
    by (cases "f = flt"; cases b) (simp_all add: own others was gone before)
  with phases show ?thesis unfolding settled_def step by simp
qed (use assms in auto)

text \<open>
  Where no two requests overlap and the broker accepts what is asked of it, a filter is held subscribed
  beside the stored ones for exactly as long as some window is watching it: the first window in subscribes
  it, the last one out takes it away, and nothing is left behind.
\<close>

theorem watched_is_subscribed:
  assumes "list_all accepted ops" "cn_ephemeral c = []"
  shows "flt \<in> transient (cl_conn (collect_run ops c)) \<longleftrightarrow> (flt, Watching) \<in> set (cl_windows (collect_run ops c))"
proof -
  have "settled (collect_run ops c)" if "list_all accepted ops" for ops
    using that
  proof (induction ops rule: rev_induct)
    case Nil
    show ?case using assms(2) by (simp add: settled_def collect_run_def collect_start_def transient_def)
  next
    case (snoc op ops)
    have "leases_ok (collect_run ops c)"
      by (rule collect_reachable_ok) (rule collect_run_reachable)
    moreover have "settled (collect_run ops c)" "accepted op" using snoc by simp_all
    ultimately have "settled (collect_op_step op (collect_run ops c))"
      by (cases op) (simp_all only: settled_hold settled_release)
    then show ?case by (simp add: collect_run_def)
  qed
  with assms(1) show ?thesis by (simp add: settled_def)
qed

section \<open>The answer\<close>

text \<open>
  C35. A window answers with everything that matched it, in order, up to the limit it was asked for, and with
  how many more there were: what it reports kept and what it reports dropped are together all the messages
  of the connection that matched the filter, and it says it is truncated exactly when something is missing.
\<close>

theorem collect_answers_completely:
  assumes "handleCollect env env' rawSeconds rawLimit rawFilter arrivals s = (Inr r, s')"
  shows "\<exists>limit. strictInt rawLimit defaultCollectLimit 1 maxCollectLimit = Inr limit \<and> 1 \<le> limit \<and>
    (let ms = filter (collects (cs_id (cn_spec (snd s))) (if rawFilter = [] then ''#'' else rawFilter)) arrivals in
     cp_messages r = map toHistoryEntry (take (nat limit) ms) \<and>
     length (cp_messages r) + cp_dropped r = length ms \<and>
     (cp_truncated r \<longleftrightarrow> nat limit < length ms))"
proof -
  let ?flt = "if rawFilter = [] then ''#'' else rawFilter"
  obtain limit where limit: "strictInt rawLimit defaultCollectLimit 1 maxCollectLimit = Inr limit"
    using assms by (auto simp: handleCollect_def split: sum.splits)
  then have low: "1 \<le> limit"
    by (auto simp: strictInt_def defaultCollectLimit_def split: if_splits option.splits)
  define col where "col = \<lparr>co_connectionID = cs_id (cn_spec (snd s)), co_filter = ?flt, co_limit = limit, co_messages = [], co_dropped = 0\<rparr>"
  let ?ms = "filter (collects (cs_id (cn_spec (snd s))) ?flt) arrivals"
  have "collector_result (fold collector_add arrivals col) = (take (nat limit) ?ms, length ?ms - nat limit)"
    using collector_fold [of col arrivals] low by (simp add: col_def collector_result_def Let_def)
  then have "cp_messages r = map toHistoryEntry (take (nat limit) ?ms)" "cp_dropped r = length ?ms - nat limit"
    "cp_truncated r \<longleftrightarrow> 0 < length ?ms - nat limit"
    using assms limit unfolding handleCollect_def Let_def col_def
    by (auto split: sum.splits if_splits prod.splits)
  with limit low show ?thesis by (auto simp: Let_def min_def)
qed

section \<open>Concrete runs\<close>

definition ex_watched :: Conn where
  "ex_watched = newConn ex_env ex_conn_spec"

definition two_windows :: "collect_op list" where
  "two_windows = [CO_Hold ex_env ''a'', CO_Hold ex_env ''a'', CO_Release ex_env 0]"

lemma valid_a: "ValidateFilter ''a'' = Inr ()"
  by (simp add: ValidateFilter_def maxTopicBytes_def valid_utf8_ascii contains_any_def)

lemmas collect_defs = collect_run_def collect_start_def holdFilter_def releaseFilter_def hold_covered_def
  hold_count_def release_count_def lease_count_def ex_watched_def ex_conn_defs newConn_def Let_def
  SubscribeEphemeral_def UnsubscribeEphemeral_def watch_sub_def valid_a

theorem leases_count_windows_witness:
  "lease_count (cl_leases (collect_run two_windows ex_watched)) (lease_key (cl_conn (collect_run two_windows ex_watched)) ''a'') =
   int (holders ''a'' (collect_run two_windows ex_watched))"
  by (rule leases_count_windows [OF collect_run_reachable])

lemma two_windows_run: "cl_windows (collect_run two_windows ex_watched) = [(''a'', Over), (''a'', Watching)]"
  by (simp add: two_windows_def collect_defs)

theorem watched_is_subscribed_witness: "''a'' \<in> transient (cl_conn (collect_run two_windows ex_watched))"
proof -
  have "list_all accepted two_windows" "cn_ephemeral ex_watched = []"
    by (simp_all add: two_windows_def valid_a ex_watched_def ex_env_def newConn_def)
  from watched_is_subscribed [OF this, of "''a''"] show ?thesis by (simp add: two_windows_run)
qed

text \<open>
  The first of two windows is counted out as the last; before it has unsubscribed, the second is counted in
  as the first and subscribes; then the unsubscribe of the one that left takes the filter away from the one
  that watches. Its lease says the filter is held, and it is not.
\<close>

theorem overlapping_window_goes_blind:
  "\<exists>s. collect_reachable ex_watched s \<and> cl_windows s = [(''a'', Over), (''a'', Watching)] \<and>
     lease_count (cl_leases s) (lease_key (cl_conn s) ''a'') = 1 \<and> ''a'' \<notin> transient (cl_conn s)"
proof -
  define s1 where "s1 = collect_op_step (CO_Hold ex_env ''a'') (collect_start ex_watched)"
  have r1: "collect_reachable ex_watched s1"
    unfolding s1_def by (intro hold_reachable collect_reachable.start)
  have at1: "at 0 ''a'' Watching s1" and l1: "lease_count (cl_leases s1) (lease_key (cl_conn s1) ''a'') = 1"
    and c1: "\<not> hold_covered (cl_conn s1) ''a''" and w1: "cl_windows s1 = [(''a'', Watching)]"
    by (simp_all add: s1_def at_def collect_defs lease_key_def)
  obtain b l where rc: "release_count (lease_key (cl_conn s1) ''a'') (cl_leases s1) = (b, l)" by fastforce
  have b: "b" and l: "lease_count l (lease_key (cl_conn s1) ''a'') = 0"
    using release_counts [of "cl_leases s1" "lease_key (cl_conn s1) ''a''"] rc l1 by auto
  define s2 where "s2 = (move 0 ''a'' Leaving s1)\<lparr>cl_leases := l\<rparr>"
  have r2: "collect_reachable ex_watched s2"
    using collect_reachable.step [OF r1 collect_step.release [OF at1 rc]] b by (simp add: s2_def)
  have s2: "cl_conn s2 = cl_conn s1" "cl_leases s2 = l" "cl_windows s2 = [(''a'', Leaving)]"
    using w1 by (simp_all add: s2_def move_def)
  define s3 where "s3 = collect_op_step (CO_Hold ex_env ''a'') s2"
  have r3: "collect_reachable ex_watched s3"
    unfolding s3_def using r2 by (rule hold_reachable)
  have hc: "hold_count (lease_key (cl_conn s1) ''a'') l = (True, l(lease_key (cl_conn s1) ''a'' \<mapsto> 1))"
    using l by (simp add: hold_count_def Let_def) (simp add: lease_count_def)
  obtain r d where se: "SubscribeEphemeral ex_env [watch_sub ''a''] (cl_conn s1) = (r, d)" by fastforce
  have r: "r = Inr ()" using Subscribe_succeeds [OF valid_a, of ex_env "cl_conn s1"] se by (simp add: ex_env_def)
  have s3: "cl_windows s3 = [(''a'', Leaving), (''a'', Watching)]" "cl_conn s3 = d"
    using c1 hc se r by (simp_all add: s3_def s2 holdFilter_def)
  obtain q e where un: "UnsubscribeEphemeral ex_env [''a''] (cl_conn s3) = (q, e)" by fastforce
  define s4 where "s4 = (move 0 ''a'' Over s3)\<lparr>cl_conn := e\<rparr>"
  have r4: "collect_reachable ex_watched s4"
    unfolding s4_def using r3 by (rule collect_reachable.step) (rule collect_step.unsubscribe [OF _ un], simp add: at_def s3)
  moreover have w4: "cl_windows s4 = [(''a'', Over), (''a'', Watching)]"
    by (simp add: s4_def move_def s3)
  moreover have "holders ''a'' s4 = 1"
    by (simp add: holders_def w4 holding_def)
  then have "lease_count (cl_leases s4) (lease_key (cl_conn s4) ''a'') = 1"
    using collect_reachable_ok [OF r4] by (simp add: leases_ok_def)
  moreover have "''a'' \<notin> transient (cl_conn s4)"
    using transient_Unsubscribe [of ex_env "''a''" "cl_conn s3"] un by (simp add: s4_def)
  ultimately show ?thesis by blast
qed

text \<open>
  A window whose subscribe the broker refuses is answered with an error, holds no lease, and leaves its
  filter among those the connection subscribes whenever it connects.
\<close>

theorem refused_window_leaves_filter:
  assumes "\<not> hold_covered c flt" "ValidateFilter flt = Inr ()" "cn_client c = Some i" "env_subErr env = Some e"
    and "lease_count l (lease_key c flt) = 0" "holdFilter env flt (l, c) = (r, l', c')"
  shows "r = Inl (LibError e) \<and> lease_count l' (lease_key c flt) = 0 \<and> flt \<in> transient c'"
proof -
  obtain d where se: "SubscribeEphemeral env [watch_sub flt] c = (Inl (LibError e), d)"
    using assms(2-4) by (simp add: SubscribeEphemeral_def watch_sub_def sub_result_def of_lib_def Let_def)
  have "flt \<in> transient d"
    using transient_Subscribe [OF assms(2), of env c] se by simp
  moreover obtain m where "hold_count (lease_key c flt) l = (True, m)"
    using lease_counts(3) [of "lease_key c flt" l] assms(5) by (cases "hold_count (lease_key c flt) l") simp
  moreover then have "lease_count m (lease_key c flt) = 1"
    using lease_counts(1) [of "lease_key c flt" l "lease_key c flt"] assms(5) by simp
  ultimately show ?thesis
    using assms(1,6) se by (auto simp: holdFilter_def lease_counts)
qed

text \<open>
  The leases know of windows only. A filter that a plugin holds on the connection is neither seen by the
  check of the stored subscriptions nor counted, and the last window to watch it takes it from the plugin.
\<close>

theorem window_takes_plugin_filter:
  assumes "flt \<in> transient c" "\<not> hold_covered c flt" "ValidateFilter flt = Inr ()" "env_subErr env = None"
    and "lease_count l (lease_key c flt) = 0" "holdFilter env flt (l, c) = (r, l', c')"
  shows "r = Inr True \<and> flt \<notin> transient (snd (releaseFilter env' flt (l', c')))"
proof -
  obtain d where se: "SubscribeEphemeral env [watch_sub flt] c = (Inr (), d)"
    using Subscribe_succeeds [OF assms(3,4), of c] by (cases "SubscribeEphemeral env [watch_sub flt] c") simp
  obtain m where hc: "hold_count (lease_key c flt) l = (True, m)"
    using lease_counts(3) [of "lease_key c flt" l] assms(5) by (cases "hold_count (lease_key c flt) l") simp
  then have one: "lease_count m (lease_key c flt) = 1"
    using lease_counts(1) [of "lease_key c flt" l "lease_key c flt"] assms(5) by simp
  have out: "r = Inr True" "l' = m" "c' = d"
    using assms(2,6) hc se by (simp_all add: holdFilter_def)
  have "lease_key d flt = lease_key c flt"
    using ephemeral_spec(1) [OF se] by (simp add: lease_key_def)
  then have "fst (release_count (lease_key d flt) m)"
    using release_counts(2) [of m "lease_key d flt"] one by simp
  then show ?thesis
    using transient_Unsubscribe [of env' flt d] by (simp add: out releaseFilter_def case_prod_unfold)
qed

theorem collect_answers_completely_witness:
  "\<exists>limit. strictInt [] defaultCollectLimit 1 maxCollectLimit = Inr limit \<and> 1 \<le> limit"
proof -
  let ?c = "snd (connect ex_env (newConn ex_env ex_conn_spec))"
  have flt: "ValidateFilter ''#'' = Inr ()"
    by (simp add: ValidateFilter_def maxTopicBytes_def valid_utf8_ascii contains_any_def)
  have "st_state (conn_Status ?c) = StateConnected"
    by (simp add: conn_Status_def ex_conn_defs conn_defs)
  moreover have "fst (holdFilter ex_env ''#'' (Map.empty, ?c)) = Inr True"
    by (simp add: holdFilter_def hold_covered_def hold_count_def lease_count_def watch_sub_def flt ex_conn_defs conn_defs Let_def)
  ultimately obtain r s' where "handleCollect ex_env ex_env [] [] [] [] (Map.empty, ?c) = (Inr r, s')"
    by (cases "holdFilter ex_env ''#'' (Map.empty, ?c)")
      (auto simp: handleCollect_def strictInt_def defaultCollectSeconds_def defaultCollectLimit_def flt Let_def case_prod_unfold)
  from collect_answers_completely [OF this] show ?thesis by blast
qed

end
