(* ===== verification/PublishStore.thy ===== *)
theory PublishStore
  imports AuthStore Numbers "HOL-Library.List_Lexorder" "HOL-Library.Char_ord" "HOL-Library.Product_Lexorder"
begin

text \<open>
  \<^verbatim>\<open>internal/store/publishing.go\<close>, \<^verbatim>\<open>internal/store/audit.go\<close> and the settings of
  \<^verbatim>\<open>internal/store/store.go\<close>: what was published on each connection, the messages somebody kept, and the
  log of actions. As in \<open>AuthStore\<close> a table is its list of rows, in the order of the row ids where the
  table numbers its rows itself; a statement is the function its SQL denotes; and the failures are those of
  the schema: a row of a connection that is not stored is refused, and deleting a connection takes its
  rows along.
\<close>

section \<open>Rows\<close>

record PublishRecord =
  pbr_id :: nat
  pbr_connectionID :: string
  pbr_userID :: string
  pbr_username :: string
  pbr_topic :: string
  pbr_payload :: bytes
  pbr_qos :: nat
  pbr_retain :: bool
  pbr_publishedAt :: time

record SavedMessage =
  sav_id :: string
  sav_connectionID :: string
  sav_folder :: string
  sav_name :: string
  sav_topic :: string
  sav_payload :: bytes
  sav_qos :: nat
  sav_retain :: bool
  sav_sortOrder :: int
  sav_createdBy :: string
  sav_createdAt :: time
  sav_updatedAt :: time

record AuditEntry =
  aud_id :: nat
  aud_at :: time
  aud_userID :: string
  aud_username :: string
  aud_action :: string
  aud_target :: string
  aud_detail :: string

text \<open>\<open>sto_connections\<close> are the ids of the connections stored, which rows refer to.\<close>

record PublishStore =
  sto_connections :: "string list"
  sto_history :: "PublishRecord list"
  sto_nextPublish :: nat
  sto_saved :: "SavedMessage list"
  sto_audit :: "AuditEntry list"
  sto_nextAudit :: nat
  sto_settings :: "string \<rightharpoonup> string"

definition empty_publish_store :: PublishStore where
  "empty_publish_store = \<lparr>sto_connections = [], sto_history = [], sto_nextPublish = 1, sto_saved = [],
     sto_audit = [], sto_nextAudit = 1, sto_settings = Map.empty\<rparr>"

section \<open>What was published\<close>

definition DefaultPublishHistory :: int where "DefaultPublishHistory = 500"

definition published_on :: "string \<Rightarrow> PublishStore \<Rightarrow> PublishRecord list" where
  "published_on c s = filter (\<lambda>r. pbr_connectionID r = c) (sto_history s)"

text \<open>
  The insert and the prune are one transaction. \<open>fault\<close> is the error of beginning, writing or committing it, if the
  database has one of its own; then nothing of it is kept.
\<close>

definition RecordPublish :: "store_error option \<Rightarrow> time \<Rightarrow> PublishRecord \<Rightarrow> int \<Rightarrow> PublishStore \<Rightarrow> (store_error + unit) \<times> PublishStore" where
  "RecordPublish fault now rec keep s =
     (let keep = (if keep \<le> 0 then DefaultPublishHistory else keep);
          rec = (if pbr_publishedAt rec = 0 then rec\<lparr>pbr_publishedAt := now\<rparr> else rec);
          c = pbr_connectionID rec
      in case fault of Some e \<Rightarrow> (Inl e, s) | None \<Rightarrow>
         if c \<notin> set (sto_connections s) then (Inl ErrConstraint, s)
         else
           let s = s\<lparr>sto_history := sto_history s @ [rec\<lparr>pbr_id := sto_nextPublish s\<rparr>],
                     sto_nextPublish := sto_nextPublish s + 1\<rparr>;
               kept = map pbr_id (take (nat keep) (rev (published_on c s)))
           in (Inr (), s\<lparr>sto_history :=
                 filter (\<lambda>r. \<not> (pbr_connectionID r = c \<and> pbr_id r \<notin> set kept)) (sto_history s)\<rparr>))"

definition escapeLike :: "string \<Rightarrow> string" where
  "escapeLike s = concat (map (\<lambda>c. if c \<in> {CHR 0x5C, CHR ''%'', CHR ''_''} then [CHR 0x5C, c] else [c]) s)"

text \<open>
  SQL's \<^verbatim>\<open>LIKE\<close> with an \<^verbatim>\<open>ESCAPE\<close> character, as SQLite reads it: \<open>%\<close> is any text, \<open>_\<close> any one
  character, an escaped character itself, and ASCII letters match without case. A character is a byte
  here, which makes a difference for \<open>_\<close> only.
\<close>

fun sql_like :: "char \<Rightarrow> string \<Rightarrow> string \<Rightarrow> bool" where
  "sql_like e [] s = (s = [])"
| "sql_like e (p # ps) s =
     (if p = e then
        (case (ps, s) of (q # qs, x # xs) \<Rightarrow> lower_char q = lower_char x \<and> sql_like e qs xs | _ \<Rightarrow> False)
      else if p = CHR ''%'' then
        sql_like e ps s \<or> (case s of [] \<Rightarrow> False | x # xs \<Rightarrow> sql_like e (p # ps) xs)
      else if p = CHR ''_'' then (case s of [] \<Rightarrow> False | x # xs \<Rightarrow> sql_like e ps xs)
      else (case s of [] \<Rightarrow> False | x # xs \<Rightarrow> lower_char p = lower_char x \<and> sql_like e ps xs))"

definition publish_matches :: "string \<Rightarrow> PublishRecord \<Rightarrow> bool" where
  "publish_matches q r =
     (let like = ''%'' @ escapeLike q @ ''%''
      in sql_like CHR 0x5C like (pbr_topic r) \<or> sql_like CHR 0x5C like (string_of_bytes (pbr_payload r)))"

definition PublishHistory :: "string \<Rightarrow> string \<Rightarrow> int \<Rightarrow> PublishStore \<Rightarrow> PublishRecord list" where
  "PublishHistory c query limit s =
     (let limit = (if limit \<le> 0 then 100 else limit);
          q = trim_space query;
          rows = published_on c s;
          rows = (if q \<noteq> [] then filter (publish_matches q) rows else rows)
      in take (nat limit) (rev rows))"

definition GetPublish :: "string \<Rightarrow> int \<Rightarrow> PublishStore \<Rightarrow> store_error + PublishRecord" where
  "GetPublish c i s =
     (case find (\<lambda>r. int (pbr_id r) = i \<and> pbr_connectionID r = c) (sto_history s) of
        None \<Rightarrow> Inl ErrNotFound | Some r \<Rightarrow> Inr r)"

definition ClearPublishHistory :: "string \<Rightarrow> PublishStore \<Rightarrow> PublishStore" where
  "ClearPublishHistory c s = s\<lparr>sto_history := filter (\<lambda>r. pbr_connectionID r \<noteq> c) (sto_history s)\<rparr>"

section \<open>What somebody chose to keep\<close>

datatype save_error = NeedsID | NeedsName | NeedsTopic | SaveFailed store_error

text \<open>An id that is there already keeps who created it and when.\<close>

definition SaveMessage :: "time \<Rightarrow> SavedMessage \<Rightarrow> PublishStore \<Rightarrow> (save_error + unit) \<times> PublishStore" where
  "SaveMessage now msg s =
     (if trim_space (sav_id msg) = [] then (Inl NeedsID, s)
      else if trim_space (sav_name msg) = [] then (Inl NeedsName, s)
      else if trim_space (sav_topic msg) = [] then (Inl NeedsTopic, s)
      else
        let msg = msg\<lparr>sav_createdAt := (if sav_createdAt msg = 0 then now else sav_createdAt msg),
                      sav_updatedAt := now\<rparr>
        in if sav_connectionID msg \<noteq> [] \<and> sav_connectionID msg \<notin> set (sto_connections s)
           then (Inl (SaveFailed ErrConstraint), s)
           else if sav_id msg \<in> sav_id ` set (sto_saved s) then
             (Inr (), s\<lparr>sto_saved :=
                map (\<lambda>old. if sav_id old = sav_id msg
                           then msg\<lparr>sav_createdBy := sav_createdBy old, sav_createdAt := sav_createdAt old\<rparr>
                           else old) (sto_saved s)\<rparr>)
           else (Inr (), s\<lparr>sto_saved := sto_saved s @ [msg]\<rparr>))"

text \<open>Rows that are alike in all three columns come in the order they were inserted.\<close>

definition SavedMessages :: "string \<Rightarrow> PublishStore \<Rightarrow> SavedMessage list" where
  "SavedMessages c s =
     sort_key (\<lambda>m. (sav_folder m, sav_sortOrder m, sav_name m))
       (filter (\<lambda>m. sav_connectionID m = [] \<or> (c \<noteq> [] \<and> sav_connectionID m = c)) (sto_saved s))"

definition GetSavedMessage :: "string \<Rightarrow> PublishStore \<Rightarrow> store_error + SavedMessage" where
  "GetSavedMessage i s =
     (case find (\<lambda>m. sav_id m = i) (sto_saved s) of None \<Rightarrow> Inl ErrNotFound | Some m \<Rightarrow> Inr m)"

definition DeleteSavedMessage :: "string \<Rightarrow> PublishStore \<Rightarrow> (store_error + unit) \<times> PublishStore" where
  "DeleteSavedMessage i s =
     (if i \<notin> sav_id ` set (sto_saved s) then (Inl ErrNotFound, s)
      else (Inr (), s\<lparr>sto_saved := filter (\<lambda>m. sav_id m \<noteq> i) (sto_saved s)\<rparr>))"

section \<open>The log of actions, and settings\<close>

definition DefaultAuditRetention :: int where "DefaultAuditRetention = 5000"

definition Audit :: "time \<Rightarrow> AuditEntry \<Rightarrow> int \<Rightarrow> PublishStore \<Rightarrow> PublishStore" where
  "Audit now e keep s =
     (let keep = (if keep \<le> 0 then DefaultAuditRetention else keep);
          e = (if aud_at e = 0 then e\<lparr>aud_at := now\<rparr> else e);
          s = s\<lparr>sto_audit := sto_audit s @ [e\<lparr>aud_id := sto_nextAudit s\<rparr>], sto_nextAudit := sto_nextAudit s + 1\<rparr>;
          kept = map aud_id (take (nat keep) (rev (sto_audit s)))
      in s\<lparr>sto_audit := filter (\<lambda>e. \<not> aud_id e \<notin> set kept) (sto_audit s)\<rparr>)"

definition AuditLog :: "int \<Rightarrow> PublishStore \<Rightarrow> AuditEntry list" where
  "AuditLog limit s = take (nat (if limit \<le> 0 then 100 else limit)) (rev (sto_audit s))"

definition Setting :: "string \<Rightarrow> PublishStore \<Rightarrow> store_error + string" where
  "Setting key s = (case sto_settings s key of None \<Rightarrow> Inl ErrNotFound | Some v \<Rightarrow> Inr v)"

definition SetSetting :: "string \<Rightarrow> string \<Rightarrow> PublishStore \<Rightarrow> PublishStore" where
  "SetSetting key v s = s\<lparr>sto_settings := (sto_settings s)(key \<mapsto> v)\<rparr>"

section \<open>Connections come and go\<close>

definition store_connection_id :: "string \<Rightarrow> PublishStore \<Rightarrow> PublishStore" where
  "store_connection_id c s =
     (if c \<in> set (sto_connections s) then s else s\<lparr>sto_connections := sto_connections s @ [c]\<rparr>)"

definition cascade_connection :: "string \<Rightarrow> PublishStore \<Rightarrow> PublishStore" where
  "cascade_connection c s =
     s\<lparr>sto_connections := filter (\<lambda>d. d \<noteq> c) (sto_connections s),
       sto_history := filter (\<lambda>r. pbr_connectionID r \<noteq> c) (sto_history s),
       sto_saved := filter (\<lambda>m. sav_connectionID m \<noteq> c \<or> c = []) (sto_saved s)\<rparr>"

end
