(* ===== verification/Secrets.thy ===== *)
theory Secrets
  imports Base64
begin

text \<open>
  \<^verbatim>\<open>internal/secrets/secrets.go\<close>: the key the credentials at rest are encrypted with, and the box that
  seals and opens them. The cipher (\<^verbatim>\<open>crypto/aes\<close>, \<^verbatim>\<open>crypto/cipher\<close>) and the random bytes are parameters;
  \<^verbatim>\<open>encoding/hex\<close> is modelled. What opening relies on of the cipher is named where it is used
  (\<open>aead_ok\<close>): it opens what it sealed under one key and nonce.
\<close>

section \<open>encoding/hex\<close>

definition hex_digits :: string where "hex_digits = ''0123456789abcdef''"

definition hex_value :: "char \<Rightarrow> nat option" where
  "hex_value c =
     (let n = of_char c in
      if 48 \<le> n \<and> n \<le> 57 then Some (n - 48)
      else if 97 \<le> n \<and> n \<le> 102 then Some (n - 87)
      else if 65 \<le> n \<and> n \<le> 70 then Some (n - 55)
      else None)"

definition hex_encode :: "bytes \<Rightarrow> string" where
  "hex_encode bs = concat (map (\<lambda>b. [hex_digits ! (unat b div 16), hex_digits ! (unat b mod 16)]) bs)"

fun hex_decode :: "string \<Rightarrow> bytes option" where
  "hex_decode [] = Some []"
| "hex_decode (a # b # r) =
     (case (hex_value a, hex_value b, hex_decode r) of
        (Some x, Some y, Some bs) \<Rightarrow> Some (word_of_nat (16 * x + y) # bs)
      | _ \<Rightarrow> None)"
| "hex_decode [_] = None"

section \<open>Keys\<close>

datatype secret_error = ErrNoKey | ErrKeyFormat | ErrDecode | ErrTooShort | ErrOpen | ErrKeyFile | ErrRandom

definition decodeKey :: "string \<Rightarrow> secret_error + bytes" where
  "decodeKey encoded =
     (let encoded = trim_space encoded in
      if encoded = [] then Inl ErrNoKey
      else case hex_decode encoded of
        Some key \<Rightarrow>
          if length key = 32 then Inr key
          else (case b64_decode encoded of
                  Some key \<Rightarrow> if length key = 32 then Inr key else Inl ErrKeyFormat | None \<Rightarrow> Inl ErrKeyFormat)
      | None \<Rightarrow>
          (case b64_decode encoded of
             Some key \<Rightarrow> if length key = 32 then Inr key else Inl ErrKeyFormat | None \<Rightarrow> Inl ErrKeyFormat))"

text \<open>
  The key file in the data directory: not there, there but unreadable, or there with a text. Whether the
  directory and the file can be written, and the random bytes, are given.
\<close>

datatype key_file = KF_Missing | KF_Unreadable | KF_Text string

definition LoadOrCreateKey :: "bytes option \<Rightarrow> bool \<Rightarrow> string \<Rightarrow> key_file \<Rightarrow> (secret_error + string) \<times> key_file" where
  "LoadOrCreateKey random writable encodedKey file =
     (if encodedKey \<noteq> [] then
        (case decodeKey encodedKey of Inl e \<Rightarrow> (Inl e, file) | Inr _ \<Rightarrow> (Inr encodedKey, file))
      else case file of
        KF_Text raw \<Rightarrow>
          (let trimmed = trim_space raw in
           case decodeKey trimmed of Inl e \<Rightarrow> (Inl ErrKeyFile, file) | Inr _ \<Rightarrow> (Inr trimmed, file))
      | KF_Unreadable \<Rightarrow> (Inl ErrKeyFile, file)
      | KF_Missing \<Rightarrow>
          (case random of
             None \<Rightarrow> (Inl ErrRandom, file)
           | Some key \<Rightarrow>
               if writable then (Inr (hex_encode key), KF_Text (hex_encode key @ [CHR 0x0A]))
               else (Inl ErrKeyFile, file)))"

section \<open>The box\<close>

record Box =
  bx_nonceSize :: nat
  bx_seal :: "bytes \<Rightarrow> bytes \<Rightarrow> bytes"
  bx_open :: "bytes \<Rightarrow> bytes \<Rightarrow> bytes option"

text \<open>The nonce the cipher is given is random; \<open>None\<close> when there are no random bytes. A box may be missing.\<close>

definition Seal :: "Box option \<Rightarrow> bytes option \<Rightarrow> string \<Rightarrow> secret_error + string" where
  "Seal box nonce plain =
     (case box of
        None \<Rightarrow> Inl ErrNoKey
      | Some b \<Rightarrow>
          if plain = [] then Inr []
          else (case nonce of
                  None \<Rightarrow> Inl ErrRandom
                | Some n \<Rightarrow> Inr (b64_encode (n @ bx_seal b n (bytes_of_string plain)))))"

definition Open :: "Box option \<Rightarrow> string \<Rightarrow> secret_error + string" where
  "Open box cipher =
     (case box of
        None \<Rightarrow> Inl ErrNoKey
      | Some b \<Rightarrow>
          if cipher = [] then Inr []
          else (case b64_decode cipher of
                  None \<Rightarrow> Inl ErrDecode
                | Some raw \<Rightarrow>
                    if length raw < bx_nonceSize b then Inl ErrTooShort
                    else (case bx_open b (take (bx_nonceSize b) raw) (drop (bx_nonceSize b) raw) of
                            None \<Rightarrow> Inl ErrOpen | Some p \<Rightarrow> Inr (string_of_bytes p))))"

section \<open>What they promise\<close>

definition aead_ok :: "Box \<Rightarrow> bool" where
  "aead_ok b \<longleftrightarrow> (\<forall>n p. length n = bx_nonceSize b \<longrightarrow> bx_open b n (bx_seal b n p) = Some p)"

lemma string_of_bytes_of_string [simp]: "string_of_bytes (bytes_of_string s) = s"
proof -
  have "char_of (unat (word_of_nat (of_char c) :: byte)) = c" for c :: char
    by (simp add: unat_of_nat of_char_mod_256)
  then show ?thesis by (simp add: string_of_bytes_def bytes_of_string_def comp_def)
qed

lemma b64_encode_Nil_iff [simp]: "b64_encode bs = [] \<longleftrightarrow> bs = []"
  by (cases bs rule: b64_encode.cases) (auto simp: b64_group_def)

lemma Open_Seal:
  assumes "aead_ok b" "length n = bx_nonceSize b" "0 < bx_nonceSize b" "Seal (Some b) (Some n) plain = Inr c"
  shows "Open (Some b) c = Inr plain"
proof (cases "plain = []")
  case False
  with assms(4) have c: "c = b64_encode (n @ bx_seal b n (bytes_of_string plain))"
    by (simp add: Seal_def)
  moreover have "n \<noteq> []" using assms(2,3) by auto
  ultimately show ?thesis
    using assms(1,2) by (simp add: Open_def b64_decode_encode aead_ok_def)
qed (use assms in \<open>auto simp: Seal_def Open_def\<close>)

text \<open>Trimming leaves a text alone that neither begins nor ends like white space.\<close>

lemma trim_left_plain: "a \<notin> hd ` set rs \<Longrightarrow> trim_left_of rs (a # s) = a # s"
  by (rule trim_left_of_stop) (force simp: find_None_iff prefix_Cons)

definition plain_char :: "char \<Rightarrow> bool" where
  "plain_char c \<longleftrightarrow> 33 \<le> (of_char c :: nat) \<and> (of_char c :: nat) < 127"

lemma plain_char_heads: "plain_char c \<Longrightarrow> c \<notin> hd ` set space_runes" "plain_char c \<Longrightarrow> c \<notin> hd ` set (map rev space_runes)"
  by (auto simp: plain_char_def space_runes_def)

lemma trim_space_plain:
  assumes "s \<noteq> []" "plain_char (hd s)" "plain_char (last s)"
  shows "trim_space s = s" and "trim_space (s @ [CHR 0x0A]) = s"
proof -
  obtain a s' where s: "s = a # s'" and a: "plain_char a" using assms by (cases s) auto
  obtain z t where t: "rev s = z # t" and z: "plain_char z" using assms by (cases s rule: rev_cases) auto
  have right: "trim_left_of (map rev space_runes) (rev s) = rev s"
    unfolding t by (rule trim_left_plain) (rule plain_char_heads(2) [OF z])
  have left: "trim_space_left (s @ u) = s @ u" for u
    unfolding trim_space_left_def s append_Cons by (rule trim_left_plain) (rule plain_char_heads(1) [OF a])
  show "trim_space s = s"
    using left [of "[]"] right by (simp add: trim_space_def trim_space_right_def)
  have "find (\<lambda>r. r \<noteq> [] \<and> prefix r (CHR 0x0A # rev s)) (map rev space_runes) = Some [CHR 0x0A]"
    by (simp add: space_runes_def)
  then have "trim_left_of (map rev space_runes) (CHR 0x0A # rev s) = rev s"
    by (subst trim_left_of.simps) (simp add: right)
  then show "trim_space (s @ [CHR 0x0A]) = s"
    using left [of "[CHR 0x0A]"] by (simp add: trim_space_def trim_space_right_def)
qed

lemma hex_digit_value: "i < 16 \<Longrightarrow> hex_value (hex_digits ! i) = Some i"
  and hex_digit_plain: "i < 16 \<Longrightarrow> plain_char (hex_digits ! i)"
  unfolding numeral_nat by (auto simp: less_Suc_eq hex_digits_def hex_value_def plain_char_def Let_def)

lemma hex_decode_encode: "hex_decode (hex_encode bs) = Some bs"
proof (induction bs)
  case (Cons b bs)
  have "unat b div 16 < 16" "unat b mod 16 < 16" using byte_bound [of b] by simp_all
  with Cons show ?case by (simp add: hex_encode_def hex_digit_value)
qed (simp add: hex_encode_def)

lemma hex_encode_plain: "set (hex_encode bs) \<subseteq> Collect plain_char"
proof -
  have "plain_char (hex_digits ! (unat b div 16))" "plain_char (hex_digits ! (unat b mod 16))" for b :: byte
    using byte_bound [of b] by (simp_all add: hex_digit_plain)
  then show ?thesis by (auto simp: hex_encode_def)
qed

lemma hex_encode_Nil_iff [simp]: "hex_encode bs = [] \<longleftrightarrow> bs = []"
  by (cases bs) (simp_all add: hex_encode_def)

lemma hex_encode_trim:
  assumes "bs \<noteq> []"
  shows "trim_space (hex_encode bs) = hex_encode bs" "trim_space (hex_encode bs @ [CHR 0x0A]) = hex_encode bs"
proof -
  have "hd (hex_encode bs) \<in> set (hex_encode bs)" "last (hex_encode bs) \<in> set (hex_encode bs)"
    using assms by simp_all
  with hex_encode_plain [of bs] have "plain_char (hd (hex_encode bs))" "plain_char (last (hex_encode bs))" by auto
  with assms trim_space_plain [of "hex_encode bs"] show
    "trim_space (hex_encode bs) = hex_encode bs" "trim_space (hex_encode bs @ [CHR 0x0A]) = hex_encode bs"
    by simp_all
qed

lemma decodeKey_hex: "length key = 32 \<Longrightarrow> decodeKey (hex_encode key) = Inr key"
  by (cases "key = []") (auto simp: decodeKey_def hex_encode_trim hex_decode_encode)

lemma LoadOrCreateKey_again:
  assumes "LoadOrCreateKey random writable [] file = (Inr k, file')" "length (the random) = 32"
  shows "LoadOrCreateKey random' writable' [] file' = (Inr k, file')" and "decodeKey k \<noteq> Inl e"
proof -
  show "LoadOrCreateKey random' writable' [] file' = (Inr k, file')"
  proof (cases "file")
    case KF_Missing
    with assms obtain key where "length key = 32" "k = hex_encode key" "file' = KF_Text (hex_encode key @ [CHR 0x0A])"
      by (auto simp: LoadOrCreateKey_def split: option.splits if_splits)
    moreover then have "key \<noteq> []" by auto
    ultimately show ?thesis
      by (simp add: LoadOrCreateKey_def hex_encode_trim decodeKey_hex Let_def)
  qed (use assms in \<open>auto simp: LoadOrCreateKey_def Let_def split: sum.splits\<close>)
  show "decodeKey k \<noteq> Inl e"
    using assms decodeKey_hex by (cases "file") (auto simp: LoadOrCreateKey_def Let_def split: sum.splits option.splits if_splits)
qed

end
