(* ===== verification/ConnStore.thy ===== *)
theory ConnStore
  imports Spec PublishStore Recorder Secrets Json
begin

text \<open>
  \<^verbatim>\<open>internal/store/connections.go\<close>: connection definitions at rest. The password and the TLS settings go
  into their columns sealed, the will and the subscriptions as JSON. Printing JSON and reading its text are
  parameters (\<open>se_print\<close>, \<open>se_parse\<close>); what is printed for a value, and how a document is stored into one, is
  modelled from the struct tags of \<^verbatim>\<open>internal/mqttc/types.go\<close>. A list that is empty is printed the same
  whether it is nil or not, which no reader can tell apart.
\<close>

section \<open>JSON of the parts of a definition\<close>

text \<open>An unsigned number below a bound: \<^verbatim>\<open>byte\<close> and \<^verbatim>\<open>uint32\<close> fields.\<close>

definition set_uint :: "nat \<Rightarrow> (nat \<Rightarrow> 'r \<Rightarrow> 'r) \<Rightarrow> Json \<Rightarrow> 'r \<Rightarrow> 'r option" where
  "set_uint bound upd j r =
     (case j of
        JNull \<Rightarrow> Some r
      | JNum n \<Rightarrow>
          (case parse_nat n of None \<Rightarrow> None | Some i \<Rightarrow> if i < bound then Some (upd i r) else None)
      | _ \<Rightarrow> None)"

definition omit_empty :: "bool \<Rightarrow> string \<Rightarrow> Json \<Rightarrow> (string \<times> Json) list" where
  "omit_empty e k j = (if e then [] else [(k, j)])"

definition zero_tls :: TLSSpec where
  "zero_tls = \<lparr>tls_insecureSkipVerify = False, tls_serverName = [], tls_caPEM = [], tls_clientCertPEM = [],
     tls_clientKeyPEM = [], tls_minVersion = [], tls_alpn = []\<rparr>"

definition marshal_tls :: "TLSSpec \<Rightarrow> Json" where
  "marshal_tls t = JObj
     (omit_empty (\<not> tls_insecureSkipVerify t) ''insecureSkipVerify'' (JBool True) @
      omit_empty (tls_serverName t = []) ''serverName'' (JStr (tls_serverName t)) @
      omit_empty (tls_caPEM t = []) ''caPem'' (JStr (tls_caPEM t)) @
      omit_empty (tls_clientCertPEM t = []) ''clientCertPem'' (JStr (tls_clientCertPEM t)) @
      omit_empty (tls_clientKeyPEM t = []) ''clientKeyPem'' (JStr (tls_clientKeyPEM t)) @
      omit_empty (tls_minVersion t = []) ''minVersion'' (JStr (tls_minVersion t)) @
      omit_empty (tls_alpn t = []) ''alpn'' (JArr (map JStr (tls_alpn t))))"

definition tls_fields :: "TLSSpec field list" where
  "tls_fields =
     [(''insecureSkipVerify'', set_bool (\<lambda>b t. t\<lparr>tls_insecureSkipVerify := b\<rparr>)),
      (''serverName'', set_string (\<lambda>s t. t\<lparr>tls_serverName := s\<rparr>)),
      (''caPem'', set_string (\<lambda>s t. t\<lparr>tls_caPEM := s\<rparr>)),
      (''clientCertPem'', set_string (\<lambda>s t. t\<lparr>tls_clientCertPEM := s\<rparr>)),
      (''clientKeyPem'', set_string (\<lambda>s t. t\<lparr>tls_clientKeyPEM := s\<rparr>)),
      (''minVersion'', set_string (\<lambda>s t. t\<lparr>tls_minVersion := s\<rparr>)),
      (''alpn'', set_slice a_string [] (\<lambda>xs t. t\<lparr>tls_alpn := xs\<rparr>))]"

definition zero_sub :: Subscription where
  "zero_sub = \<lparr>sub_filter = [], sub_qos = 0, sub_noLocal = False, sub_retainAsPublished = False, sub_retainHandling = 0\<rparr>"

definition marshal_sub :: "Subscription \<Rightarrow> Json" where
  "marshal_sub s = JObj
     ([(''filter'', JStr (sub_filter s)), (''qos'', JNum (nat_string (sub_qos s)))] @
      omit_empty (\<not> sub_noLocal s) ''noLocal'' (JBool True) @
      omit_empty (\<not> sub_retainAsPublished s) ''retainAsPublished'' (JBool True) @
      omit_empty (sub_retainHandling s = 0) ''retainHandling'' (JNum (nat_string (sub_retainHandling s))))"

definition sub_fields :: "Subscription field list" where
  "sub_fields =
     [(''filter'', set_string (\<lambda>x s. s\<lparr>sub_filter := x\<rparr>)),
      (''qos'', set_uint 256 (\<lambda>n s. s\<lparr>sub_qos := n\<rparr>)),
      (''noLocal'', set_bool (\<lambda>b s. s\<lparr>sub_noLocal := b\<rparr>)),
      (''retainAsPublished'', set_bool (\<lambda>b s. s\<lparr>sub_retainAsPublished := b\<rparr>)),
      (''retainHandling'', set_uint 256 (\<lambda>n s. s\<lparr>sub_retainHandling := n\<rparr>))]"

definition zero_will :: Will where
  "zero_will = \<lparr>will_topic = [], will_payload = [], will_qos = 0, will_retain = False, will_delayInterval = 0\<rparr>"

definition marshal_will :: "Will \<Rightarrow> Json" where
  "marshal_will w = JObj
     ([(''topic'', JStr (will_topic w)), (''payload'', JStr (will_payload w)),
       (''qos'', JNum (nat_string (will_qos w))), (''retain'', JBool (will_retain w))] @
      omit_empty (will_delayInterval w = 0) ''delayInterval'' (JNum (nat_string (will_delayInterval w))))"

definition will_fields :: "Will field list" where
  "will_fields =
     [(''topic'', set_string (\<lambda>x w. w\<lparr>will_topic := x\<rparr>)),
      (''payload'', set_string (\<lambda>x w. w\<lparr>will_payload := x\<rparr>)),
      (''qos'', set_uint 256 (\<lambda>n w. w\<lparr>will_qos := n\<rparr>)),
      (''retain'', set_bool (\<lambda>b w. w\<lparr>will_retain := b\<rparr>)),
      (''delayInterval'', set_uint 4294967296 (\<lambda>n w. w\<lparr>will_delayInterval := n\<rparr>))]"

section \<open>Rows\<close>

record ConnectionRecord =
  cr_spec :: ConnectionSpec
  cr_createdBy :: string
  cr_createdAt :: time
  cr_updatedAt :: time

record ConnectionRow =
  rw_id :: string
  rw_name :: string
  rw_url :: string
  rw_version :: int
  rw_clientID :: string
  rw_username :: string
  rw_passwordEnc :: string
  rw_keepAlive :: int
  rw_cleanStart :: bool
  rw_sessionExpiry :: nat
  rw_connectTimeout :: int
  rw_tlsJSON :: string
  rw_willJSON :: "string option"
  rw_subsJSON :: string
  rw_autoConnect :: bool
  rw_historySize :: int
  rw_topicLogEntries :: int
  rw_topicLogBudget :: int
  rw_sysStats :: bool
  rw_recordToDisk :: bool
  rw_recordKeep :: int
  rw_createdBy :: string
  rw_createdAt :: time
  rw_updatedAt :: time

text \<open>The connections and the tables whose rows refer to them.\<close>

record ConnDb =
  cdb_rows :: "ConnectionRow list"
  cdb_publish :: PublishStore
  cdb_recorded :: RecordTable

text \<open>
  What the store works with: the box, the two nonces of one save, JSON as text, and what normalising a
  definition takes.
\<close>

record StoreEnv =
  se_box :: "Box option"
  se_nonces :: "bytes option \<times> bytes option"
  se_print :: "Json \<Rightarrow> string"
  se_parse :: "string \<Rightarrow> Json option"
  se_url :: "string \<Rightarrow> Url option"
  se_render :: "Url \<Rightarrow> string"
  se_fresh :: string

datatype conn_store_error =
  CS_Spec spec_error | CS_NoID | CS_Seal secret_error | CS_NotFound | CS_TLS | CS_Subs | CS_Will

section \<open>Saving\<close>

definition row_of :: "StoreEnv \<Rightarrow> ConnectionSpec \<Rightarrow> string \<Rightarrow> string \<Rightarrow> string \<Rightarrow> time \<Rightarrow> time \<Rightarrow> ConnectionRow" where
  "row_of env spec passwordEnc tlsJSON createdBy createdAt now =
     \<lparr>rw_id = cs_id spec, rw_name = cs_name spec, rw_url = cs_url spec, rw_version = cs_version spec,
      rw_clientID = cs_clientID spec, rw_username = cs_username spec, rw_passwordEnc = passwordEnc,
      rw_keepAlive = cs_keepAlive spec, rw_cleanStart = cs_cleanStart spec,
      rw_sessionExpiry = cs_sessionExpiry spec, rw_connectTimeout = cs_connectTimeout spec,
      rw_tlsJSON = tlsJSON,
      rw_willJSON = map_option (\<lambda>w. se_print env (marshal_will w)) (cs_will spec),
      rw_subsJSON = se_print env (JArr (map marshal_sub (cs_subscriptions spec))),
      rw_autoConnect = cs_autoConnect spec, rw_historySize = cs_historySize spec,
      rw_topicLogEntries = cs_topicLogEntries spec, rw_topicLogBudget = cs_topicLogBudget spec,
      rw_sysStats = cs_sysStats spec, rw_recordToDisk = cs_recordToDisk spec,
      rw_recordKeep = cs_recordKeep spec,
      rw_createdBy = createdBy, rw_createdAt = createdAt, rw_updatedAt = now\<rparr>"

text \<open>An id that is there already keeps who created it and when.\<close>

definition upsert_row :: "ConnectionRow \<Rightarrow> ConnDb \<Rightarrow> ConnDb" where
  "upsert_row row db =
     (if rw_id row \<in> rw_id ` set (cdb_rows db) then
        db\<lparr>cdb_rows := map (\<lambda>old. if rw_id old = rw_id row
             then row\<lparr>rw_createdBy := rw_createdBy old, rw_createdAt := rw_createdAt old\<rparr> else old) (cdb_rows db)\<rparr>
      else db\<lparr>cdb_rows := cdb_rows db @ [row],
              cdb_publish := store_connection_id (rw_id row) (cdb_publish db),
              cdb_recorded := (cdb_recorded db)\<lparr>rt_connections := rt_connections (cdb_recorded db) @ [rw_id row]\<rparr>\<rparr>)"

definition SaveConnection ::
    "StoreEnv \<Rightarrow> time \<Rightarrow> ConnectionRecord \<Rightarrow> ConnDb \<Rightarrow> (conn_store_error + unit) \<times> ConnDb" where
  "SaveConnection env now rec db =
     (case Normalize (se_url env) (se_render env) (se_fresh env) (cr_spec rec) of
        Inl e \<Rightarrow> (Inl (CS_Spec e), db)
      | Inr spec \<Rightarrow>
          if cs_id spec = [] then (Inl CS_NoID, db)
          else (case Seal (se_box env) (fst (se_nonces env)) (cs_password spec) of
             Inl e \<Rightarrow> (Inl (CS_Seal e), db)
           | Inr passwordEnc \<Rightarrow>
               (case Seal (se_box env) (snd (se_nonces env)) (se_print env (marshal_tls (cs_tls spec))) of
                  Inl e \<Rightarrow> (Inl (CS_Seal e), db)
                | Inr tlsJSON \<Rightarrow>
                    (Inr (), upsert_row (row_of env spec passwordEnc tlsJSON (cr_createdBy rec)
                       (if cr_createdAt rec = 0 then now else cr_createdAt rec) now) db))))"

section \<open>Loading\<close>

definition unmarshal_text :: "StoreEnv \<Rightarrow> (Json \<Rightarrow> 'r \<Rightarrow> 'r option) \<Rightarrow> string \<Rightarrow> 'r \<Rightarrow> 'r option" where
  "unmarshal_text env f s r = (case se_parse env s of None \<Rightarrow> None | Some j \<Rightarrow> f j r)"

text \<open>A column that does not open is taken for the plain JSON of a row from before it was sealed.\<close>

definition decodeTLS :: "StoreEnv \<Rightarrow> string \<Rightarrow> TLSSpec option" where
  "decodeTLS env column =
     (if column = [] then Some zero_tls
      else case Open (se_box env) column of
        Inr plain \<Rightarrow> unmarshal_text env (unmarshal_struct tls_fields) plain zero_tls
      | Inl _ \<Rightarrow> unmarshal_text env (unmarshal_struct tls_fields) column zero_tls)"

definition scanConnection :: "StoreEnv \<Rightarrow> ConnectionRow \<Rightarrow> conn_store_error + ConnectionRecord" where
  "scanConnection env row =
     (let password = (case Open (se_box env) (rw_passwordEnc row) of Inl _ \<Rightarrow> [] | Inr p \<Rightarrow> p) in
      case decodeTLS env (rw_tlsJSON row) of
        None \<Rightarrow> Inl CS_TLS
      | Some tls \<Rightarrow>
          (case unmarshal_text env (set_slice (unmarshal_struct sub_fields) zero_sub (\<lambda>xs _. xs)) (rw_subsJSON row) [] of
             None \<Rightarrow> Inl CS_Subs
           | Some subs \<Rightarrow>
               (case (case rw_willJSON row of
                        None \<Rightarrow> Some None
                      | Some t \<Rightarrow> if t = [] then Some None
                                 else map_option Some (unmarshal_text env (unmarshal_struct will_fields) t zero_will)) of
                  None \<Rightarrow> Inl CS_Will
                | Some will \<Rightarrow>
                    Inr \<lparr>cr_spec =
                      \<lparr>cs_id = rw_id row, cs_name = rw_name row, cs_url = rw_url row, cs_version = rw_version row,
                       cs_clientID = rw_clientID row, cs_username = rw_username row, cs_password = password,
                       cs_keepAlive = rw_keepAlive row, cs_cleanStart = rw_cleanStart row,
                       cs_sessionExpiry = rw_sessionExpiry row, cs_connectTimeout = rw_connectTimeout row,
                       cs_tls = tls, cs_will = will, cs_subscriptions = subs,
                       cs_autoConnect = rw_autoConnect row, cs_sysStats = rw_sysStats row,
                       cs_recordToDisk = rw_recordToDisk row, cs_recordKeep = rw_recordKeep row,
                       cs_historySize = rw_historySize row, cs_topicLogEntries = rw_topicLogEntries row,
                       cs_topicLogBudget = rw_topicLogBudget row\<rparr>,
                      cr_createdBy = rw_createdBy row, cr_createdAt = rw_createdAt row,
                      cr_updatedAt = rw_updatedAt row\<rparr>)))"

definition GetConnection :: "StoreEnv \<Rightarrow> string \<Rightarrow> ConnDb \<Rightarrow> conn_store_error + ConnectionRecord" where
  "GetConnection env i db =
     (case find (\<lambda>r. rw_id r = i) (cdb_rows db) of None \<Rightarrow> Inl CS_NotFound | Some r \<Rightarrow> scanConnection env r)"

fun scan_all :: "StoreEnv \<Rightarrow> ConnectionRow list \<Rightarrow> conn_store_error + ConnectionRecord list" where
  "scan_all env [] = Inr []"
| "scan_all env (r # rs) =
     (case scanConnection env r of
        Inl e \<Rightarrow> Inl e
      | Inr rec \<Rightarrow> (case scan_all env rs of Inl e \<Rightarrow> Inl e | Inr recs \<Rightarrow> Inr (rec # recs)))"

definition ListConnections :: "StoreEnv \<Rightarrow> ConnDb \<Rightarrow> conn_store_error + ConnectionRecord list" where
  "ListConnections env db = scan_all env (sort_key rw_name (cdb_rows db))"

section \<open>Deleting\<close>

definition DeleteConnection :: "string \<Rightarrow> ConnDb \<Rightarrow> (conn_store_error + unit) \<times> ConnDb" where
  "DeleteConnection i db =
     (if i \<notin> rw_id ` set (cdb_rows db) then (Inl CS_NotFound, db)
      else (Inr (), db\<lparr>cdb_rows := filter (\<lambda>r. rw_id r \<noteq> i) (cdb_rows db),
                      cdb_publish := cascade_connection i (cdb_publish db),
                      cdb_recorded := DeleteConnectionRows i (cdb_recorded db)\<rparr>))"

end
