(* ===== verification/ConnApi.thy ===== *)
theory ConnApi
  imports ConnStore Plugins TopicApi SysStats
begin

text \<open>
  \<^verbatim>\<open>internal/api/connections.go\<close>: the connections as the HTTP interface shows and changes them. The server's
  state is the database, the plugin host with the connection manager in it, the recorder if there is one, and
  the connects left to the background. A handler answers with an error status or a body and leaves a state; a
  request body that does not decode is \<^const>\<open>None\<close>. \<open>as_published\<close> is no field of the server: it lists what the
  client libraries were asked to send and accepted, which is what a publish is for.
\<close>

section \<open>State\<close>

record 'v ApiState =
  as_db :: ConnDb
  as_runtime :: "'v Runtime"
  as_recorder :: "Recorder option"
  as_background :: "string list"
  as_published :: "(string \<times> PublishRequest) list"

text \<open>What one request works with: outcomes of the network, of the store, the clock, a new id, who asks.\<close>

record ApiEnv =
  av_env :: Env
  av_store :: StoreEnv
  av_now :: time
  av_fresh :: string
  av_user :: User
  av_plugins :: "string list"
  av_fault :: "store_error option"

abbreviation api_mqtt :: "'v ApiState \<Rightarrow> Manager" where "api_mqtt s \<equiv> rt_mqtt (as_runtime s)"

definition set_mqtt :: "Manager \<Rightarrow> 'v ApiState \<Rightarrow> 'v ApiState" where
  "set_mqtt m s = s\<lparr>as_runtime := (as_runtime s)\<lparr>rt_mqtt := m\<rparr>\<rparr>"

definition api_conn :: "string \<Rightarrow> 'v ApiState \<Rightarrow> nat + Conn" where
  "api_conn i s = (case Get i (api_mqtt s) of None \<Rightarrow> Inl 404 | Some c \<Rightarrow> Inr c)"

definition put_api_conn :: "string \<Rightarrow> Conn \<Rightarrow> 'v ApiState \<Rightarrow> 'v ApiState" where
  "put_api_conn i c s = set_mqtt (store_conn i c (api_mqtt s)) s"

section \<open>What a client is shown\<close>

record tlsView =
  tv_insecure :: bool
  tv_server :: string
  tv_minVersion :: string
  tv_alpn :: "string list"
  tv_hasCA :: bool
  tv_hasClientCert :: bool

record connectionView =
  cv_id :: string
  cv_name :: string
  cv_url :: string
  cv_version :: string
  cv_clientID :: string
  cv_username :: string
  cv_hasPassword :: bool
  cv_keepAlive :: int
  cv_cleanStart :: bool
  cv_sessionExpiry :: nat
  cv_connectTimeout :: int
  cv_tls :: tlsView
  cv_will :: "Will option"
  cv_subscriptions :: "Subscription list"
  cv_autoConnect :: bool
  cv_historySize :: int
  cv_topicLogEntries :: int
  cv_topicLogBudget :: int
  cv_sysStats :: bool
  cv_recordToDisk :: bool
  cv_recordKeep :: int
  cv_status :: Status
  cv_topics :: nat
  cv_treeFull :: bool

definition viewOf :: "Conn \<Rightarrow> connectionView" where
  "viewOf c =
     (let spec = cn_spec c; (topics, _, full) = tree_Stats (cn_tree c) in
      \<lparr>cv_id = cs_id spec, cv_name = cs_name spec, cv_url = cs_url spec,
       cv_version = Version_String (cs_version spec), cv_clientID = cs_clientID spec,
       cv_username = cs_username spec, cv_hasPassword = (cs_password spec \<noteq> []),
       cv_keepAlive = cs_keepAlive spec, cv_cleanStart = cs_cleanStart spec,
       cv_sessionExpiry = cs_sessionExpiry spec, cv_connectTimeout = cs_connectTimeout spec,
       cv_tls = \<lparr>tv_insecure = tls_insecureSkipVerify (cs_tls spec), tv_server = tls_serverName (cs_tls spec),
                 tv_minVersion = tls_minVersion (cs_tls spec), tv_alpn = tls_alpn (cs_tls spec),
                 tv_hasCA = (tls_caPEM (cs_tls spec) \<noteq> []), tv_hasClientCert = (tls_clientCertPEM (cs_tls spec) \<noteq> [])\<rparr>,
       cv_will = cs_will spec, cv_subscriptions = cs_subscriptions spec, cv_autoConnect = cs_autoConnect spec,
       cv_historySize = cs_historySize spec, cv_topicLogEntries = cs_topicLogEntries spec,
       cv_topicLogBudget = cs_topicLogBudget spec, cv_sysStats = cs_sysStats spec,
       cv_recordToDisk = cs_recordToDisk spec, cv_recordKeep = cs_recordKeep spec,
       cv_status = conn_Status c, cv_topics = topics, cv_treeFull = full\<rparr>)"

section \<open>What a client sends\<close>

record tlsRequest =
  tq_insecureSkipVerify :: bool
  tq_serverName :: string
  tq_minVersion :: string
  tq_alpn :: "string list"
  tq_caPEM :: "string option"
  tq_clientCertPEM :: "string option"
  tq_clientKeyPEM :: "string option"

record connectionRequest =
  cq_name :: string
  cq_url :: string
  cq_version :: string
  cq_clientID :: string
  cq_username :: string
  cq_password :: "string option"
  cq_keepAlive :: int
  cq_cleanStart :: bool
  cq_sessionExpiry :: nat
  cq_tls :: tlsRequest
  cq_will :: "Will option"
  cq_subscriptions :: "Subscription list"
  cq_autoConnect :: bool
  cq_historySize :: int
  cq_topicLogEntries :: int
  cq_topicLogBudget :: int
  cq_sysStats :: bool
  cq_recordToDisk :: bool
  cq_recordKeep :: int

text \<open>
  \<^verbatim>\<open>httpx.DecodeJSON\<close>: unlike reading a stored document, a member that is no field is an error, in the
  structs inside as well. The text of a body is read by the parameter, which has no value for an empty body,
  for a malformed one, and for one with anything after its value.
\<close>

fun strict_members :: "'r field list \<Rightarrow> (string \<times> Json) list \<Rightarrow> 'r \<Rightarrow> 'r option" where
  "strict_members fs [] r = Some r"
| "strict_members fs ((k, j) # ms) r =
     (case find_field fs k of
        None \<Rightarrow> None
      | Some f \<Rightarrow> (case f j r of None \<Rightarrow> None | Some r \<Rightarrow> strict_members fs ms r))"

definition strict_struct :: "'r field list \<Rightarrow> Json \<Rightarrow> 'r \<Rightarrow> 'r option" where
  "strict_struct fs j r = (case j of JNull \<Rightarrow> Some r | JObj ms \<Rightarrow> strict_members fs ms r | _ \<Rightarrow> None)"

definition DecodeJSON :: "(string \<Rightarrow> Json option) \<Rightarrow> 'r field list \<Rightarrow> 'r \<Rightarrow> string \<Rightarrow> 'r option" where
  "DecodeJSON parse fs zero body = (case parse body of None \<Rightarrow> None | Some j \<Rightarrow> strict_struct fs j zero)"

text \<open>A pointer is nil for null and otherwise points at a value of its own.\<close>

definition set_pointer :: "(Json \<Rightarrow> 'a \<Rightarrow> 'a option) \<Rightarrow> 'a \<Rightarrow> ('a option \<Rightarrow> 'r \<Rightarrow> 'r) \<Rightarrow> Json \<Rightarrow> 'r \<Rightarrow> 'r option" where
  "set_pointer f z upd j r =
     (case j of JNull \<Rightarrow> Some (upd None r) | _ \<Rightarrow> map_option (\<lambda>x. upd (Some x) r) (f j z))"

definition zero_tls_request :: tlsRequest where
  "zero_tls_request = \<lparr>tq_insecureSkipVerify = False, tq_serverName = [], tq_minVersion = [], tq_alpn = [],
     tq_caPEM = None, tq_clientCertPEM = None, tq_clientKeyPEM = None\<rparr>"

definition tls_request_fields :: "tlsRequest field list" where
  "tls_request_fields =
     [(''insecureSkipVerify'', set_bool (\<lambda>b t. t\<lparr>tq_insecureSkipVerify := b\<rparr>)),
      (''serverName'', set_string (\<lambda>x t. t\<lparr>tq_serverName := x\<rparr>)),
      (''minVersion'', set_string (\<lambda>x t. t\<lparr>tq_minVersion := x\<rparr>)),
      (''alpn'', set_slice a_string [] (\<lambda>xs t. t\<lparr>tq_alpn := xs\<rparr>)),
      (''caPem'', set_pointer a_string [] (\<lambda>x t. t\<lparr>tq_caPEM := x\<rparr>)),
      (''clientCertPem'', set_pointer a_string [] (\<lambda>x t. t\<lparr>tq_clientCertPEM := x\<rparr>)),
      (''clientKeyPem'', set_pointer a_string [] (\<lambda>x t. t\<lparr>tq_clientKeyPEM := x\<rparr>))]"

definition zero_connection_request :: connectionRequest where
  "zero_connection_request = \<lparr>cq_name = [], cq_url = [], cq_version = [], cq_clientID = [], cq_username = [],
     cq_password = None, cq_keepAlive = 0, cq_cleanStart = False, cq_sessionExpiry = 0, cq_tls = zero_tls_request,
     cq_will = None, cq_subscriptions = [], cq_autoConnect = False, cq_historySize = 0, cq_topicLogEntries = 0,
     cq_topicLogBudget = 0, cq_sysStats = False, cq_recordToDisk = False, cq_recordKeep = 0\<rparr>"

definition connection_request_fields :: "connectionRequest field list" where
  "connection_request_fields =
     [(''name'', set_string (\<lambda>x r. r\<lparr>cq_name := x\<rparr>)),
      (''url'', set_string (\<lambda>x r. r\<lparr>cq_url := x\<rparr>)),
      (''version'', set_string (\<lambda>x r. r\<lparr>cq_version := x\<rparr>)),
      (''clientId'', set_string (\<lambda>x r. r\<lparr>cq_clientID := x\<rparr>)),
      (''username'', set_string (\<lambda>x r. r\<lparr>cq_username := x\<rparr>)),
      (''password'', set_pointer a_string [] (\<lambda>x r. r\<lparr>cq_password := x\<rparr>)),
      (''keepAlive'', set_int (\<lambda>n r. r\<lparr>cq_keepAlive := n\<rparr>)),
      (''cleanStart'', set_bool (\<lambda>b r. r\<lparr>cq_cleanStart := b\<rparr>)),
      (''sessionExpiry'', set_uint 4294967296 (\<lambda>n r. r\<lparr>cq_sessionExpiry := n\<rparr>)),
      (''tls'', \<lambda>j r. map_option (\<lambda>t. r\<lparr>cq_tls := t\<rparr>) (strict_struct tls_request_fields j (cq_tls r))),
      (''will'', set_pointer (strict_struct will_fields) zero_will (\<lambda>w r. r\<lparr>cq_will := w\<rparr>)),
      (''subscriptions'', set_slice (strict_struct sub_fields) zero_sub (\<lambda>xs r. r\<lparr>cq_subscriptions := xs\<rparr>)),
      (''autoConnect'', set_bool (\<lambda>b r. r\<lparr>cq_autoConnect := b\<rparr>)),
      (''historySize'', set_int (\<lambda>n r. r\<lparr>cq_historySize := n\<rparr>)),
      (''topicLogEntries'', set_int (\<lambda>n r. r\<lparr>cq_topicLogEntries := n\<rparr>)),
      (''topicLogBudget'', set_int (\<lambda>n r. r\<lparr>cq_topicLogBudget := n\<rparr>)),
      (''sysStats'', set_bool (\<lambda>b r. r\<lparr>cq_sysStats := b\<rparr>)),
      (''recordToDisk'', set_bool (\<lambda>b r. r\<lparr>cq_recordToDisk := b\<rparr>)),
      (''recordKeep'', set_int (\<lambda>n r. r\<lparr>cq_recordKeep := n\<rparr>))]"

definition decode_connection_request :: "(string \<Rightarrow> Json option) \<Rightarrow> string \<Rightarrow> connectionRequest option" where
  "decode_connection_request parse = DecodeJSON parse connection_request_fields zero_connection_request"

definition carry :: "string option \<Rightarrow> string \<Rightarrow> string" where
  "carry supplied previous = (case supplied of Some x \<Rightarrow> x | None \<Rightarrow> previous)"

definition secrets_of :: "ConnectionSpec option \<Rightarrow> string \<times> string \<times> string \<times> string" where
  "secrets_of prev =
     (case prev of
        Some p \<Rightarrow> (cs_password p, tls_caPEM (cs_tls p), tls_clientCertPEM (cs_tls p), tls_clientKeyPEM (cs_tls p))
      | None \<Rightarrow> ([], [], [], []))"

text \<open>The definition before it is normalised. The request has no field for the connect timeout.\<close>

definition request_spec :: "connectionRequest \<Rightarrow> Version \<Rightarrow> string \<Rightarrow> ConnectionSpec option \<Rightarrow> ConnectionSpec" where
  "request_spec req version i prev =
     (let (password, ca, cert, key) = secrets_of prev; tls = cq_tls req in
      \<lparr>cs_id = i, cs_name = cq_name req, cs_url = cq_url req, cs_version = version,
       cs_clientID = cq_clientID req, cs_username = cq_username req, cs_password = carry (cq_password req) password,
       cs_keepAlive = cq_keepAlive req, cs_cleanStart = cq_cleanStart req, cs_sessionExpiry = cq_sessionExpiry req,
       cs_connectTimeout = 0,
       cs_tls = \<lparr>tls_insecureSkipVerify = tq_insecureSkipVerify tls, tls_serverName = tq_serverName tls,
                 tls_caPEM = carry (tq_caPEM tls) ca, tls_clientCertPEM = carry (tq_clientCertPEM tls) cert,
                 tls_clientKeyPEM = carry (tq_clientKeyPEM tls) key,
                 tls_minVersion = tq_minVersion tls, tls_alpn = tq_alpn tls\<rparr>,
       cs_will = cq_will req, cs_subscriptions = cq_subscriptions req, cs_autoConnect = cq_autoConnect req,
       cs_sysStats = cq_sysStats req, cs_recordToDisk = cq_recordToDisk req, cs_recordKeep = cq_recordKeep req,
       cs_historySize = cq_historySize req, cs_topicLogEntries = cq_topicLogEntries req,
       cs_topicLogBudget = cq_topicLogBudget req\<rparr>)"

definition toSpec :: "StoreEnv \<Rightarrow> connectionRequest \<Rightarrow> string \<Rightarrow> ConnectionSpec option \<Rightarrow> ConnectionSpec option" where
  "toSpec env req i prev =
     (case ParseVersion (cq_version req) of
        Inl _ \<Rightarrow> None
      | Inr version \<Rightarrow>
          (case Normalize (se_url env) (se_render env) (se_fresh env) (request_spec req version i prev) of
             Inl _ \<Rightarrow> None | Inr spec \<Rightarrow> Some spec))"

section \<open>Handlers\<close>

definition configureRecording :: "ConnectionSpec \<Rightarrow> 'v ApiState \<Rightarrow> 'v ApiState" where
  "configureRecording spec s =
     s\<lparr>as_recorder := map_option (Configure (cs_id spec) (cs_recordToDisk spec) (cs_recordKeep spec)) (as_recorder s)\<rparr>"

definition handleListConnections :: "'v ApiState \<Rightarrow> connectionView list" where
  "handleListConnections s = map viewOf (mgr_List (api_mqtt s))"

definition handleGetConnection :: "string \<Rightarrow> 'v ApiState \<Rightarrow> nat + connectionView" where
  "handleGetConnection i s = (case api_conn i s of Inl e \<Rightarrow> Inl e | Inr c \<Rightarrow> Inr (viewOf c))"

definition view_now :: "string \<Rightarrow> 'v ApiState \<Rightarrow> nat + connectionView" where
  "view_now i s = (case Get i (api_mqtt s) of None \<Rightarrow> Inl 404 | Some c \<Rightarrow> Inr (viewOf c))"

definition handleCreateConnection ::
    "ApiEnv \<Rightarrow> connectionRequest option \<Rightarrow> 'v ApiState \<Rightarrow> (nat + connectionView) \<times> 'v ApiState" where
  "handleCreateConnection env req s =
     (if \<not> AtLeast (us_role (av_user env)) RoleAdmin then (Inl 403, s)
      else case req of
        None \<Rightarrow> (Inl 400, s)
      | Some req \<Rightarrow>
          (case toSpec (av_store env) req (av_fresh env) None of
             None \<Rightarrow> (Inl 400, s)
           | Some spec \<Rightarrow>
               (case SaveConnection (av_store env) (av_now env)
                       \<lparr>cr_spec = spec, cr_createdBy = us_id (av_user env), cr_createdAt = 0, cr_updatedAt = 0\<rparr> (as_db s) of
                  (Inl _, _) \<Rightarrow> (Inl 500, s)
                | (Inr _, db) \<Rightarrow>
                    let s = s\<lparr>as_db := db\<rparr>;
                        (r, m) = Upsert (se_render (av_store env)) (se_fresh (av_store env)) (av_env env) spec (api_mqtt s);
                        s = configureRecording spec (set_mqtt m s)
                    in (case r of
                          Inl _ \<Rightarrow> (Inl 400, s)
                        | Inr _ \<Rightarrow>
                            (view_now (cs_id spec) s,
                             if cs_autoConnect spec then s\<lparr>as_background := as_background s @ [cs_id spec]\<rparr> else s)))))"

definition handleUpdateConnection ::
    "ApiEnv \<Rightarrow> string \<Rightarrow> connectionRequest option \<Rightarrow> 'v ApiState \<Rightarrow> (nat + connectionView) \<times> 'v ApiState" where
  "handleUpdateConnection env i req s =
     (case api_conn i s of
        Inl e \<Rightarrow> (Inl e, s)
      | Inr c \<Rightarrow>
          (case req of
             None \<Rightarrow> (Inl 400, s)
           | Some req \<Rightarrow>
               (case toSpec (av_store env) req (cs_id (cn_spec c)) (Some (cn_spec c)) of
                  None \<Rightarrow> (Inl 400, s)
                | Some spec \<Rightarrow>
                    (case (case GetConnection (av_store env) (cs_id spec) (as_db s) of
                             Inr rec \<Rightarrow> Some rec
                           | Inl e \<Rightarrow> if e \<noteq> CS_NotFound then None
                                      else Some \<lparr>cr_spec = spec, cr_createdBy = [], cr_createdAt = 0, cr_updatedAt = 0\<rparr>) of
                       None \<Rightarrow> (Inl 500, s)
                     | Some rec \<Rightarrow>
                         (case SaveConnection (av_store env) (av_now env) (rec\<lparr>cr_spec := spec\<rparr>) (as_db s) of
                            (Inl _, _) \<Rightarrow> (Inl 500, s)
                          | (Inr _, db) \<Rightarrow>
                              let s = s\<lparr>as_db := db\<rparr>;
                                  (r, m) = Upsert (se_render (av_store env)) (se_fresh (av_store env)) (av_env env) spec (api_mqtt s);
                                  s = configureRecording spec (set_mqtt m s)
                              in (case r of Inl _ \<Rightarrow> (Inl 502, s) | Inr _ \<Rightarrow> (view_now (cs_id spec) s, s)))))))"

text \<open>The connection is gone from the manager before the database is asked; the reply has no body.\<close>

definition handleDeleteConnection :: "ApiEnv \<Rightarrow> string \<Rightarrow> 'v ApiState \<Rightarrow> nat \<times> 'v ApiState" where
  "handleDeleteConnection env i s =
     (let s = s\<lparr>as_recorder := map_option (Configure i False 0) (as_recorder s)\<rparr>;
          (_, m) = Remove (av_env env) i (api_mqtt s);
          s = set_mqtt m s
      in case DeleteConnection i (as_db s) of
           (Inl e, _) \<Rightarrow> (if e = CS_NotFound then 404 else 500, s)
         | (Inr _, db) \<Rightarrow> (204, s\<lparr>as_db := db\<rparr>))"

definition apply_plugins :: "ApiEnv \<Rightarrow> 'v ApiState \<Rightarrow> 'v ApiState" where
  "apply_plugins env s = s\<lparr>as_runtime := ApplyAll (av_env env) (av_plugins env) (as_runtime s)\<rparr>"

definition handleConnect :: "ApiEnv \<Rightarrow> string \<Rightarrow> 'v ApiState \<Rightarrow> (nat + connectionView) \<times> 'v ApiState" where
  "handleConnect env i s =
     (case api_conn i s of
        Inl e \<Rightarrow> (Inl e, s)
      | Inr c \<Rightarrow>
          (case mgr_Connect (av_env env) (cs_id (cn_spec c)) (api_mqtt s) of
             (Inl _, m) \<Rightarrow> (Inl 502, set_mqtt m s)
           | (Inr _, m) \<Rightarrow> let s = apply_plugins env (set_mqtt m s) in (view_now i s, s)))"

definition handleDisconnect :: "ApiEnv \<Rightarrow> string \<Rightarrow> 'v ApiState \<Rightarrow> (nat + connectionView) \<times> 'v ApiState" where
  "handleDisconnect env i s =
     (case api_conn i s of
        Inl e \<Rightarrow> (Inl e, s)
      | Inr c \<Rightarrow>
          (case mgr_Disconnect (av_env env) (cs_id (cn_spec c)) (api_mqtt s) of
             (Inl _, m) \<Rightarrow> (Inl 502, set_mqtt m s)
           | (Inr _, m) \<Rightarrow> let s = set_mqtt m s in (view_now i s, s)))"

text \<open>The connect left to the background, when it gets to run.\<close>

definition connectInBackground :: "ApiEnv \<Rightarrow> string \<Rightarrow> 'v ApiState \<Rightarrow> 'v ApiState" where
  "connectInBackground env i s =
     (let s = s\<lparr>as_background := remove1 i (as_background s)\<rparr> in
      case mgr_Connect (av_env env) i (api_mqtt s) of
        (Inl _, m) \<Rightarrow> set_mqtt m s
      | (Inr _, m) \<Rightarrow> apply_plugins env (set_mqtt m s))"

section \<open>Subscriptions\<close>

text \<open>A definition that cannot be loaded or saved is left as it is; the session is already right.\<close>

definition persistSubscriptions :: "ApiEnv \<Rightarrow> Conn \<Rightarrow> 'v ApiState \<Rightarrow> 'v ApiState" where
  "persistSubscriptions env c s =
     (case GetConnection (av_store env) (cs_id (cn_spec c)) (as_db s) of
        Inl _ \<Rightarrow> s
      | Inr rec \<Rightarrow>
          (case SaveConnection (av_store env) (av_now env) (rec\<lparr>cr_spec := cn_spec c\<rparr>) (as_db s) of
             (Inl _, _) \<Rightarrow> s | (Inr _, db) \<Rightarrow> s\<lparr>as_db := db\<rparr>))"

definition change_subscriptions ::
    "ApiEnv \<Rightarrow> (Conn \<Rightarrow> (conn_error + unit) \<times> Conn) \<Rightarrow> string \<Rightarrow> 'v ApiState \<Rightarrow> (nat + connectionView) \<times> 'v ApiState" where
  "change_subscriptions env f i s =
     (case api_conn i s of
        Inl e \<Rightarrow> (Inl e, s)
      | Inr c \<Rightarrow>
          (case f c of
             (Inl _, c) \<Rightarrow> (Inl 400, put_api_conn i c s)
           | (Inr _, c) \<Rightarrow>
               (Inr (viewOf c), persistSubscriptions env c (put_api_conn i c s))))"

definition handleSubscribe ::
    "ApiEnv \<Rightarrow> string \<Rightarrow> Subscription list option \<Rightarrow> 'v ApiState \<Rightarrow> (nat + connectionView) \<times> 'v ApiState" where
  "handleSubscribe env i req s =
     (case api_conn i s of
        Inl e \<Rightarrow> (Inl e, s)
      | Inr _ \<Rightarrow>
          (case req of
             None \<Rightarrow> (Inl 400, s)
           | Some subs \<Rightarrow> change_subscriptions env (conn_Subscribe (av_env env) subs) i s))"

definition handleUnsubscribe ::
    "ApiEnv \<Rightarrow> string \<Rightarrow> string list option \<Rightarrow> 'v ApiState \<Rightarrow> (nat + connectionView) \<times> 'v ApiState" where
  "handleUnsubscribe env i req s =
     (case api_conn i s of
        Inl e \<Rightarrow> (Inl e, s)
      | Inr _ \<Rightarrow>
          (case req of
             None \<Rightarrow> (Inl 400, s)
           | Some filters \<Rightarrow> change_subscriptions env (conn_Unsubscribe (av_env env) filters) i s))"

definition handleClearState :: "string \<Rightarrow> 'v ApiState \<Rightarrow> (nat + connectionView) \<times> 'v ApiState" where
  "handleClearState i s =
     (case api_conn i s of
        Inl e \<Rightarrow> (Inl e, s)
      | Inr c \<Rightarrow> (Inr (viewOf (ClearState c)), put_api_conn i (ClearState c) s))"

section \<open>Reading\<close>

definition handleTree :: "string \<Rightarrow> Conn \<Rightarrow> nat + TreeView list" where
  "handleTree pfx c = (case tree_Children pfx (cn_tree c) of None \<Rightarrow> Inl 404 | Some cs \<Rightarrow> Inr cs)"

definition handleTopic :: "string \<Rightarrow> Conn \<Rightarrow> nat + TreeView" where
  "handleTopic topic c =
     (if topic = [] then Inl 400
      else case tree_Node topic (cn_tree c) of None \<Rightarrow> Inl 404 | Some n \<Rightarrow> Inr n)"

definition handleMessages :: "string \<Rightarrow> string \<Rightarrow> Conn \<Rightarrow> nat + Message list" where
  "handleMessages limit flt c =
     (if flt \<noteq> [] \<and> ValidateFilter flt \<noteq> Inr () then Inl 400
      else Inr (Recent (intParam limit 200) flt (cn_history c)))"

text \<open>Whether the namespace is collected at all, whether there is a session, and what arrived.\<close>

definition handleBrokerStats ::
    "(string \<Rightarrow> 'f option) \<Rightarrow> ('f \<Rightarrow> int) \<Rightarrow> Conn \<Rightarrow> bool \<times> bool \<times> 'f BrokerStats" where
  "handleBrokerStats pf ti c =
     (cs_sysStats (cn_spec c), st_state (conn_Status c) = StateConnected, conn_BrokerStats pf ti (cn_tree c))"

definition containsWildcard :: "string \<Rightarrow> bool" where
  "containsWildcard s \<longleftrightarrow> CHR ''+'' \<in> set s \<or> CHR ''#'' \<in> set s"

definition handleSearch :: "string \<Rightarrow> string \<Rightarrow> Conn \<Rightarrow> nat + TopicValue list" where
  "handleSearch q limit c =
     (if q \<noteq> [] \<and> containsWildcard q then
        (if ValidateFilter q \<noteq> Inr () then Inl 400 else Inr (tree_Match q (intParam limit 200) (cn_tree c)))
      else Inr (tree_Search q (intParam limit 200) (cn_tree c)))"

end
