(* ===== verification/PublishApi.thy ===== *)
theory PublishApi
  imports ConnApi
begin

text \<open>
  \<^verbatim>\<open>internal/api/publishing.go\<close>, \<^verbatim>\<open>retained.go\<close>, \<^verbatim>\<open>recordings.go\<close> and the publishing part of
  \<^verbatim>\<open>connections.go\<close>: everything that sends a message, what is kept of it, and what is logged of the actions
  that cannot be undone. Everything that sends goes through \<open>publishAndRecord\<close>, but for the clearing of a
  retained message, which is a publish of its own.
\<close>

section \<open>Sending\<close>

text \<open>A publish on a connection; what the library accepted is noted.\<close>

definition api_publish :: "ApiEnv \<Rightarrow> string \<Rightarrow> PublishRequest \<Rightarrow> 'v ApiState \<Rightarrow> bool \<times> 'v ApiState" where
  "api_publish env i req s =
     (case Get i (api_mqtt s) of
        None \<Rightarrow> (False, s)
      | Some c \<Rightarrow>
          (case conn_Publish (av_env env) req c of
             (Inl _, c) \<Rightarrow> (False, put_api_conn i c s)
           | (Inr _, c) \<Rightarrow>
               (True, (put_api_conn i c s)\<lparr>as_published := as_published s @ [(cs_id (cn_spec c), req)]\<rparr>)))"

definition update_publish :: "(PublishStore \<Rightarrow> PublishStore) \<Rightarrow> 'v ApiState \<Rightarrow> 'v ApiState" where
  "update_publish f s = s\<lparr>as_db := (as_db s)\<lparr>cdb_publish := f (cdb_publish (as_db s))\<rparr>\<rparr>"

definition record_of :: "ApiEnv \<Rightarrow> string \<Rightarrow> PublishRequest \<Rightarrow> PublishRecord" where
  "record_of env c req =
     \<lparr>pbr_id = 0, pbr_connectionID = c, pbr_userID = us_id (av_user env), pbr_username = us_email (av_user env),
      pbr_topic = pub_topic req, pbr_payload = pub_payload req, pbr_qos = pub_qos req, pbr_retain = pub_retain req,
      pbr_publishedAt = 0\<rparr>"

text \<open>
  The message has gone when it is recorded, so a record that cannot be written is no error: \<open>av_fault\<close> is what
  the database fails with when it is written, if it does, and all that is left of it is a warning in the log.
\<close>

definition publishAndRecord :: "ApiEnv \<Rightarrow> string \<Rightarrow> PublishRequest \<Rightarrow> 'v ApiState \<Rightarrow> nat \<times> 'v ApiState" where
  "publishAndRecord env i req s =
     (case api_publish env i req s of
        (False, s) \<Rightarrow> (502, s)
      | (True, s) \<Rightarrow>
          (200, update_publish (\<lambda>p. snd (RecordPublish (av_fault env) (av_now env) (record_of env i req) 0 p)) s))"

record publishRequest =
  pq_topic :: string
  pq_payload :: string
  pq_encoded :: bool
  pq_qos :: nat
  pq_retain :: bool
  pq_props :: "MessageProps option"

definition handlePublish :: "ApiEnv \<Rightarrow> string \<Rightarrow> publishRequest option \<Rightarrow> 'v ApiState \<Rightarrow> nat \<times> 'v ApiState" where
  "handlePublish env i req s =
     (case api_conn i s of
        Inl e \<Rightarrow> (e, s)
      | Inr c \<Rightarrow>
          (case req of
             None \<Rightarrow> (400, s)
           | Some req \<Rightarrow>
               (case (if pq_encoded req then b64_decode (pq_payload req) else Some (bytes_of_string (pq_payload req))) of
                  None \<Rightarrow> (400, s)
                | Some payload \<Rightarrow>
                    publishAndRecord env (cs_id (cn_spec c))
                      \<lparr>pub_topic = pq_topic req, pub_payload = payload, pub_qos = pq_qos req,
                       pub_retain = pq_retain req, pub_props = pq_props req\<rparr> s)))"

section \<open>What was sent\<close>

definition handlePublishHistory ::
    "string \<Rightarrow> string \<Rightarrow> string \<Rightarrow> 'v ApiState \<Rightarrow> nat + (PublishRecord \<times> payloadView) list" where
  "handlePublishHistory i q limit s =
     (case api_conn i s of
        Inl e \<Rightarrow> Inl e
      | Inr c \<Rightarrow>
          Inr (map (\<lambda>r. (r, encodePayload (pbr_payload r)))
                 (PublishHistory (cs_id (cn_spec c)) q (intParam limit 100) (cdb_publish (as_db s)))))"

definition handleClearPublishHistory :: "string \<Rightarrow> 'v ApiState \<Rightarrow> nat \<times> 'v ApiState" where
  "handleClearPublishHistory i s =
     (case api_conn i s of
        Inl e \<Rightarrow> (e, s)
      | Inr c \<Rightarrow> (200, update_publish (ClearPublishHistory (cs_id (cn_spec c))) s))"

definition resend :: "PublishRecord \<Rightarrow> PublishRequest" where
  "resend r = \<lparr>pub_topic = pbr_topic r, pub_payload = pbr_payload r, pub_qos = pbr_qos r, pub_retain = pbr_retain r,
     pub_props = None\<rparr>"

definition handleRepublish :: "ApiEnv \<Rightarrow> string \<Rightarrow> string \<Rightarrow> 'v ApiState \<Rightarrow> nat \<times> 'v ApiState" where
  "handleRepublish env i publishID s =
     (case api_conn i s of
        Inl e \<Rightarrow> (e, s)
      | Inr c \<Rightarrow>
          (case ParseInt publishID of
             None \<Rightarrow> (400, s)
           | Some n \<Rightarrow>
               (case GetPublish (cs_id (cn_spec c)) n (cdb_publish (as_db s)) of
                  Inl e \<Rightarrow> (404, s)
                | Inr rec \<Rightarrow> publishAndRecord env (cs_id (cn_spec c)) (resend rec) s)))"

section \<open>What somebody kept\<close>

record savedMessageRequest =
  sq_folder :: string
  sq_name :: string
  sq_topic :: string
  sq_payload :: string
  sq_encoded :: bool
  sq_qos :: nat
  sq_retain :: bool
  sq_sortOrder :: int
  sq_global :: bool

definition handleListSaved :: "string \<Rightarrow> 'v ApiState \<Rightarrow> nat + (SavedMessage \<times> payloadView) list" where
  "handleListSaved i s =
     (case api_conn i s of
        Inl e \<Rightarrow> Inl e
      | Inr c \<Rightarrow>
          Inr (map (\<lambda>m. (m, encodePayload (sav_payload m))) (SavedMessages (cs_id (cn_spec c)) (cdb_publish (as_db s)))))"

text \<open>The saved message of a URL, unless it is another connection's.\<close>

definition savedMessage :: "string \<Rightarrow> string \<Rightarrow> 'v ApiState \<Rightarrow> nat + SavedMessage" where
  "savedMessage connID savedID s =
     (case GetSavedMessage savedID (cdb_publish (as_db s)) of
        Inl _ \<Rightarrow> Inl 404
      | Inr msg \<Rightarrow>
          if sav_connectionID msg \<noteq> [] \<and> sav_connectionID msg \<noteq> connID then Inl 404 else Inr msg)"

text \<open>A request's payload and topic, if both are in order.\<close>

definition check_saved :: "savedMessageRequest option \<Rightarrow> nat + (savedMessageRequest \<times> bytes)" where
  "check_saved req =
     (case req of
        None \<Rightarrow> Inl 400
      | Some req \<Rightarrow>
          (case decodePayload (sq_payload req) (sq_encoded req) of
             None \<Rightarrow> Inl 400
           | Some payload \<Rightarrow> if ValidateTopic (sq_topic req) \<noteq> Inr () then Inl 400 else Inr (req, payload)))"

definition save_message :: "ApiEnv \<Rightarrow> SavedMessage \<Rightarrow> nat \<Rightarrow> 'v ApiState \<Rightarrow> nat \<times> 'v ApiState" where
  "save_message env msg okStatus s =
     (case SaveMessage (av_now env) msg (cdb_publish (as_db s)) of
        (Inl _, _) \<Rightarrow> (400, s)
      | (Inr _, p) \<Rightarrow> (okStatus, update_publish (\<lambda>_. p) s))"

definition handleCreateSaved :: "ApiEnv \<Rightarrow> string \<Rightarrow> savedMessageRequest option \<Rightarrow> 'v ApiState \<Rightarrow> nat \<times> 'v ApiState" where
  "handleCreateSaved env i req s =
     (case api_conn i s of
        Inl e \<Rightarrow> (e, s)
      | Inr c \<Rightarrow>
          (case check_saved req of
             Inl e \<Rightarrow> (e, s)
           | Inr (req, payload) \<Rightarrow>
               save_message env
                 \<lparr>sav_id = av_fresh env, sav_connectionID = (if sq_global req then [] else cs_id (cn_spec c)),
                  sav_folder = sq_folder req, sav_name = sq_name req, sav_topic = sq_topic req, sav_payload = payload,
                  sav_qos = sq_qos req, sav_retain = sq_retain req, sav_sortOrder = sq_sortOrder req,
                  sav_createdBy = us_id (av_user env), sav_createdAt = 0, sav_updatedAt = 0\<rparr> 201 s))"

definition handleUpdateSaved ::
    "ApiEnv \<Rightarrow> string \<Rightarrow> string \<Rightarrow> savedMessageRequest option \<Rightarrow> 'v ApiState \<Rightarrow> nat \<times> 'v ApiState" where
  "handleUpdateSaved env i savedID req s =
     (case api_conn i s of
        Inl e \<Rightarrow> (e, s)
      | Inr _ \<Rightarrow>
          (case savedMessage i savedID s of
             Inl e \<Rightarrow> (e, s)
           | Inr old \<Rightarrow>
               (case check_saved req of
                  Inl e \<Rightarrow> (e, s)
                | Inr (req, payload) \<Rightarrow>
                    save_message env
                      (old\<lparr>sav_folder := sq_folder req, sav_name := sq_name req, sav_topic := sq_topic req,
                           sav_payload := payload, sav_qos := sq_qos req, sav_retain := sq_retain req,
                           sav_sortOrder := sq_sortOrder req\<rparr>) 200 s)))"

definition handleDeleteSaved :: "string \<Rightarrow> string \<Rightarrow> 'v ApiState \<Rightarrow> nat \<times> 'v ApiState" where
  "handleDeleteSaved i savedID s =
     (case api_conn i s of
        Inl e \<Rightarrow> (e, s)
      | Inr _ \<Rightarrow>
          (case savedMessage i savedID s of
             Inl e \<Rightarrow> (e, s)
           | Inr _ \<Rightarrow>
               (case DeleteSavedMessage savedID (cdb_publish (as_db s)) of
                  (Inl _, _) \<Rightarrow> (500, s)
                | (Inr _, p) \<Rightarrow> (204, update_publish (\<lambda>_. p) s))))"

definition handlePublishSaved :: "ApiEnv \<Rightarrow> string \<Rightarrow> string \<Rightarrow> 'v ApiState \<Rightarrow> nat \<times> 'v ApiState" where
  "handlePublishSaved env i savedID s =
     (case api_conn i s of
        Inl e \<Rightarrow> (e, s)
      | Inr c \<Rightarrow>
          (case savedMessage i savedID s of
             Inl e \<Rightarrow> (e, s)
           | Inr msg \<Rightarrow>
               publishAndRecord env (cs_id (cn_spec c))
                 \<lparr>pub_topic = sav_topic msg, pub_payload = sav_payload msg, pub_qos = sav_qos msg,
                  pub_retain = sav_retain msg, pub_props = None\<rparr> s))"

section \<open>Clearing a retained message\<close>

definition api_byteCount :: "nat \<Rightarrow> string" where
  "api_byteCount n =
     (if n = 1 then ''1 byte''
      else if n < 1024 then nat_string n @ '' bytes''
      else nat_string (n div 1024) @ '' KiB'')"

text \<open>What the tree knows of the topic is reported; it does not decide. The action goes into the log.\<close>

definition handleClearRetained :: "ApiEnv \<Rightarrow> string \<Rightarrow> string option \<Rightarrow> 'v ApiState \<Rightarrow> (nat + bool) \<times> 'v ApiState" where
  "handleClearRetained env i req s =
     (case api_conn i s of
        Inl e \<Rightarrow> (Inl e, s)
      | Inr c \<Rightarrow>
          (case req of
             None \<Rightarrow> (Inl 400, s)
           | Some topic \<Rightarrow>
               if ValidateTopic topic \<noteq> Inr () then (Inl 400, s)
               else
                 let value = tree_Value topic (cn_tree c);
                     hadRetained = (case value of None \<Rightarrow> False | Some v \<Rightarrow> tv_retain v);
                     detail = (case value of
                                 Some v \<Rightarrow> if hadRetained then ''cleared a retained value of '' @ api_byteCount (tv_size v)
                                           else ''no retained value was known to mqttview''
                               | None \<Rightarrow> ''no retained value was known to mqttview'')
                 in (case api_publish env (cs_id (cn_spec c))
                            \<lparr>pub_topic = topic, pub_payload = [], pub_qos = 1, pub_retain = True, pub_props = None\<rparr> s of
                       (False, s) \<Rightarrow> (Inl 502, s)
                     | (True, s) \<Rightarrow>
                         (Inr hadRetained,
                          update_publish (Audit (av_now env)
                            \<lparr>aud_id = 0, aud_at = 0, aud_userID = us_id (av_user env), aud_username = us_email (av_user env),
                             aud_action = ''clear retained'', aud_target = cs_name (cn_spec c) @ '' '' @ topic,
                             aud_detail = detail\<rparr> 0) s))))"

definition handleAuditLog :: "string \<Rightarrow> 'v ApiState \<Rightarrow> AuditEntry list" where
  "handleAuditLog limit s = AuditLog (intParam limit 100) (cdb_publish (as_db s))"

section \<open>Recordings\<close>

definition timeParam :: "(string \<Rightarrow> time option) \<Rightarrow> string \<Rightarrow> time option" where
  "timeParam parse raw = (if raw = [] then Some 0 else parse raw)"

record recordingsReply =
  rp_messages :: "(RecordedMessage \<times> payloadView) list"
  rp_recording :: bool
  rp_stats :: RecordingStats
  rp_recorder :: "Recorder option"

definition handleRecordings ::
    "(time \<Rightarrow> string) \<Rightarrow> (string \<Rightarrow> time option) \<Rightarrow> string \<Rightarrow> string \<Rightarrow> string \<Rightarrow> string \<Rightarrow> string \<Rightarrow> 'v ApiState \<Rightarrow> nat + recordingsReply" where
  "handleRecordings fmt parse i topic limit since until s =
     (case api_conn i s of
        Inl e \<Rightarrow> Inl e
      | Inr c \<Rightarrow>
          (case (timeParam parse since, timeParam parse until) of
             (Some a, Some b) \<Rightarrow>
               let q = \<lparr>rq_connection = cs_id (cn_spec c), rq_topic = topic, rq_since = a, rq_until = b,
                        rq_limit = intParam limit 500\<rparr>;
                   t = cdb_recorded (as_db s)
               in Inr \<lparr>rp_messages = map (\<lambda>m. (m, encodePayload (rm_payload m))) (Recorded fmt q t),
                       rp_recording = cs_recordToDisk (cn_spec c),
                       rp_stats = recording_stats fmt parse (cs_id (cn_spec c)) t,
                       rp_recorder = as_recorder s\<rparr>
           | _ \<Rightarrow> Inl 400))"

definition handleDeleteRecordings ::
    "(time \<Rightarrow> string) \<Rightarrow> (string \<Rightarrow> time option) \<Rightarrow> ApiEnv \<Rightarrow> string \<Rightarrow> 'v ApiState \<Rightarrow> (nat + nat) \<times> 'v ApiState" where
  "handleDeleteRecordings fmt parse env i s =
     (case api_conn i s of
        Inl e \<Rightarrow> (Inl e, s)
      | Inr c \<Rightarrow>
          let stats = recording_stats fmt parse (cs_id (cn_spec c)) (cdb_recorded (as_db s));
              s = s\<lparr>as_db := (as_db s)\<lparr>cdb_recorded := DeleteRecorded (cs_id (cn_spec c)) (cdb_recorded (as_db s))\<rparr>\<rparr>
          in (Inr (rs_rows stats),
              update_publish (Audit (av_now env)
                \<lparr>aud_id = 0, aud_at = 0, aud_userID = us_id (av_user env), aud_username = us_email (av_user env),
                 aud_action = ''delete recordings'', aud_target = cs_name (cn_spec c),
                 aud_detail = api_byteCount (rs_bytes stats) @ '' over '' @ nat_string (rs_rows stats) @ '' messages''\<rparr> 0) s))"

section \<open>Who may\<close>

text \<open>The routes under \<^verbatim>\<open>/connections\<close> that change something, each with the role its mount asks for.\<close>

datatype conn_request =
    Rq_Create "connectionRequest option" | Rq_Update string "connectionRequest option" | Rq_Delete string
  | Rq_Connect string | Rq_Disconnect string | Rq_Publish string "publishRequest option"
  | Rq_Subscribe string "Subscription list option" | Rq_Unsubscribe string "string list option" | Rq_Clear string
  | Rq_DeleteRecordings string | Rq_ClearRetained string "string option" | Rq_ClearHistory string
  | Rq_Republish string string | Rq_CreateSaved string "savedMessageRequest option"
  | Rq_UpdateSaved string string "savedMessageRequest option" | Rq_DeleteSaved string string | Rq_PublishSaved string string

definition route_role :: "conn_request \<Rightarrow> Role" where
  "route_role q =
     (case q of Rq_Create _ \<Rightarrow> RoleAdmin | Rq_Update _ _ \<Rightarrow> RoleAdmin | Rq_Delete _ \<Rightarrow> RoleAdmin | _ \<Rightarrow> RoleOperator)"

definition no_body :: "nat + 'a \<Rightarrow> nat" where
  "no_body r = (case r of Inl e \<Rightarrow> e | Inr _ \<Rightarrow> 200)"

fun route_handler :: "(time \<Rightarrow> string) \<Rightarrow> (string \<Rightarrow> time option) \<Rightarrow> ApiEnv \<Rightarrow> conn_request \<Rightarrow> 'v ApiState \<Rightarrow> nat \<times> 'v ApiState" where
  "route_handler fmt parse env (Rq_Create req) s =
     map_prod (\<lambda>r. if no_body r = 200 then 201 else no_body r) id (handleCreateConnection env req s)"
| "route_handler fmt parse env (Rq_Update i req) s = map_prod no_body id (handleUpdateConnection env i req s)"
| "route_handler fmt parse env (Rq_Delete i) s = handleDeleteConnection env i s"
| "route_handler fmt parse env (Rq_Connect i) s = map_prod no_body id (handleConnect env i s)"
| "route_handler fmt parse env (Rq_Disconnect i) s = map_prod no_body id (handleDisconnect env i s)"
| "route_handler fmt parse env (Rq_Publish i req) s = handlePublish env i req s"
| "route_handler fmt parse env (Rq_Subscribe i req) s = map_prod no_body id (handleSubscribe env i req s)"
| "route_handler fmt parse env (Rq_Unsubscribe i req) s = map_prod no_body id (handleUnsubscribe env i req s)"
| "route_handler fmt parse env (Rq_Clear i) s = map_prod no_body id (handleClearState i s)"
| "route_handler fmt parse env (Rq_DeleteRecordings i) s = map_prod no_body id (handleDeleteRecordings fmt parse env i s)"
| "route_handler fmt parse env (Rq_ClearRetained i req) s = map_prod no_body id (handleClearRetained env i req s)"
| "route_handler fmt parse env (Rq_ClearHistory i) s = handleClearPublishHistory i s"
| "route_handler fmt parse env (Rq_Republish i n) s = handleRepublish env i n s"
| "route_handler fmt parse env (Rq_CreateSaved i req) s = handleCreateSaved env i req s"
| "route_handler fmt parse env (Rq_UpdateSaved i m req) s = handleUpdateSaved env i m req s"
| "route_handler fmt parse env (Rq_DeleteSaved i m) s = handleDeleteSaved i m s"
| "route_handler fmt parse env (Rq_PublishSaved i m) s = handlePublishSaved env i m s"

text \<open>\<^verbatim>\<open>RequireRole\<close> before the handler; nobody signed in is \<^const>\<open>None\<close>.\<close>

definition serve ::
    "(time \<Rightarrow> string) \<Rightarrow> (string \<Rightarrow> time option) \<Rightarrow> User option \<Rightarrow> ApiEnv \<Rightarrow> conn_request \<Rightarrow> 'v ApiState \<Rightarrow> nat \<times> 'v ApiState" where
  "serve fmt parse user env q s =
     (case user of
        None \<Rightarrow> (401, s)
      | Some u \<Rightarrow>
          if \<not> AtLeast (us_role u) (route_role q) then (403, s)
          else route_handler fmt parse (env\<lparr>av_user := u\<rparr>) q s)"

end
