(* ===== verification/PublishFacts.thy ===== *)
theory PublishFacts
  imports PublishStore
begin

text \<open>
  What the publishing tables promise: a connection's history is the newest of what it published since it was
  last cleared, an entry it shows is the entry its id fetches, a search finds what contains the text and
  nothing else, and the log of actions keeps the newest.
\<close>

section \<open>Searching\<close>

lemma sql_like_percent:
  assumes "e \<noteq> CHR ''%''"
  shows "sql_like e (CHR ''%'' # ps) s \<longleftrightarrow> (\<exists>x y. s = x @ y \<and> sql_like e ps y)"
proof (induction s)
  case Nil
  show ?case using assms by simp
next
  case (Cons a s)
  have "sql_like e (CHR ''%'' # ps) (a # s) \<longleftrightarrow> sql_like e ps (a # s) \<or> sql_like e (CHR ''%'' # ps) s"
    using assms by simp
  also have "\<dots> \<longleftrightarrow> (\<exists>x y. a # s = x @ y \<and> sql_like e ps y)"
    unfolding Cons.IH by (metis append_Cons append_Nil append_eq_Cons_conv list.inject)
  finally show ?case .
qed

lemma sql_like_escaped:
  "sql_like CHR 0x5C (escapeLike q @ ps) s \<longleftrightarrow> (\<exists>x y. s = x @ y \<and> to_lower x = to_lower q \<and> sql_like CHR 0x5C ps y)"
proof (induction q arbitrary: s)
  case Nil
  show ?case by (simp add: escapeLike_def to_lower_def)
next
  case (Cons c q)
  have step: "sql_like CHR 0x5C (escapeLike (c # q) @ ps) s \<longleftrightarrow>
      (\<exists>a s'. s = a # s' \<and> lower_char a = lower_char c \<and> sql_like CHR 0x5C (escapeLike q @ ps) s')"
    by (cases s) (auto simp: escapeLike_def)
  show ?case
  proof
    assume "sql_like CHR 0x5C (escapeLike (c # q) @ ps) s"
    then obtain a s' where "s = a # s'" "lower_char a = lower_char c" "sql_like CHR 0x5C (escapeLike q @ ps) s'"
      using step by blast
    moreover then obtain x y where "s' = x @ y" "to_lower x = to_lower q" "sql_like CHR 0x5C ps y"
      using Cons.IH by blast
    ultimately show "\<exists>x y. s = x @ y \<and> to_lower x = to_lower (c # q) \<and> sql_like CHR 0x5C ps y"
      by (intro exI [of _ "a # x"] exI [of _ y]) (simp add: to_lower_def)
  next
    assume "\<exists>x y. s = x @ y \<and> to_lower x = to_lower (c # q) \<and> sql_like CHR 0x5C ps y"
    then obtain x y where xy: "s = x @ y" "to_lower x = to_lower (c # q)" "sql_like CHR 0x5C ps y" by blast
    then obtain a x' where "x = a # x'" "lower_char a = lower_char c" "to_lower x' = to_lower q"
      by (cases x) (auto simp: to_lower_def)
    with xy step Cons.IH show "sql_like CHR 0x5C (escapeLike (c # q) @ ps) s" by auto
  qed
qed

lemma sql_like_contains:
  "sql_like CHR 0x5C (''%'' @ escapeLike q @ ''%'') s \<longleftrightarrow> contains_sub (to_lower s) (to_lower q)"
proof -
  have all: "sql_like CHR 0x5C ''%'' y" for y
    by (subst sql_like_percent) simp_all
  have "sql_like CHR 0x5C (''%'' @ escapeLike q @ ''%'') s \<longleftrightarrow>
      (\<exists>u y. s = u @ y \<and> sql_like CHR 0x5C (escapeLike q @ ''%'') y)"
    using sql_like_percent [of "CHR 0x5C" "escapeLike q @ ''%''" s] by (simp only: append_Cons append_Nil) simp
  also have "\<dots> \<longleftrightarrow> (\<exists>u x v. s = u @ x @ v \<and> to_lower x = to_lower q)"
    unfolding sql_like_escaped using all by metis
  also have "\<dots> \<longleftrightarrow> contains_sub (to_lower s) (to_lower q)"
  proof
    assume "\<exists>u x v. s = u @ x @ v \<and> to_lower x = to_lower q"
    then obtain u x v where "s = u @ x @ v" "to_lower x = to_lower q" by blast
    then have "to_lower s = to_lower u @ to_lower q @ to_lower v" by (simp add: to_lower_def)
    then show "contains_sub (to_lower s) (to_lower q)" unfolding contains_sub_iff by blast
  next
    assume "contains_sub (to_lower s) (to_lower q)"
    then obtain u' v' where "map lower_char s = u' @ to_lower q @ v'" unfolding contains_sub_iff to_lower_def by blast
    then obtain u r where "s = u @ r" "map lower_char r = to_lower q @ v'" by (metis map_eq_append_conv)
    moreover then obtain x v where "r = x @ v" "map lower_char x = to_lower q" by (metis map_eq_append_conv)
    ultimately show "\<exists>u x v. s = u @ x @ v \<and> to_lower x = to_lower q" unfolding to_lower_def by blast
  qed
  finally show ?thesis .
qed

lemma contains_sub_Nil: "contains_sub t []"
  by (cases t) simp_all

section \<open>What a prune keeps\<close>

lemma filter_newest:
  assumes "distinct (map f xs)"
  shows "filter (\<lambda>x. f x \<in> set (map f (take k (rev xs)))) xs = last_n k xs"
proof -
  define old where "old = take (length xs - k) xs"
  have split: "xs = old @ last_n k xs"
    by (simp add: old_def last_n_def)
  have newest: "set (map f (take k (rev xs))) = f ` set (last_n k xs)"
    by (simp add: last_n_def take_rev)
  have "f x \<notin> f ` set (last_n k xs)" if "x \<in> set old" for x
    using assms that split by (metis distinct_append disjoint_iff image_eqI map_append set_map)
  then have "filter (\<lambda>x. f x \<in> f ` set (last_n k xs)) old = []"
    by (auto simp: filter_empty_conv)
  moreover have "filter (\<lambda>x. f x \<in> f ` set (last_n k xs)) (last_n k xs) = last_n k xs"
    by (auto simp: filter_id_conv)
  ultimately show ?thesis
    unfolding newest by (subst split) (simp only: filter_append append_Nil)
qed

section \<open>The newest of what was published\<close>

lemma published_on_filter_other:
  "published_on c (s\<lparr>sto_history := filter (\<lambda>r. \<not> (pbr_connectionID r = c \<and> P r)) (sto_history s)\<rparr>) =
   filter (\<lambda>r. \<not> P r) (published_on c s)"
  "d \<noteq> c \<Longrightarrow> published_on d (s\<lparr>sto_history := filter (\<lambda>r. \<not> (pbr_connectionID r = c \<and> P r)) (sto_history s)\<rparr>) =
   published_on d s"
  unfolding published_on_def by (induction "sto_history s") (auto simp: filter_filter intro!: filter_cong)

lemma strict_sorted_distinct: "sorted_wrt (<) xs \<Longrightarrow> distinct (xs :: nat list)"
  by (simp add: strict_sorted_iff)

definition publishes_ok :: "PublishStore \<Rightarrow> bool" where
  "publishes_ok s \<longleftrightarrow>
     sorted_wrt (<) (map pbr_id (sto_history s)) \<and> (\<forall>r \<in> set (sto_history s). pbr_id r < sto_nextPublish s) \<and>
     (\<forall>r \<in> set (sto_history s). pbr_connectionID r \<in> set (sto_connections s)) \<and>
     (\<forall>c. int (length (published_on c s)) \<le> DefaultPublishHistory)"

definition recorded_as :: "time \<Rightarrow> PublishRecord \<Rightarrow> PublishRecord" where
  "recorded_as now r = (if pbr_publishedAt r = 0 then r\<lparr>pbr_publishedAt := now\<rparr> else r)"

lemma recorded_as_fields [simp]: "pbr_connectionID (recorded_as now r) = pbr_connectionID r"
  by (simp add: recorded_as_def)

definition appended :: "time \<Rightarrow> PublishRecord \<Rightarrow> PublishStore \<Rightarrow> PublishStore" where
  "appended now rec s =
     s\<lparr>sto_history := sto_history s @ [(recorded_as now rec)\<lparr>pbr_id := sto_nextPublish s\<rparr>], sto_nextPublish := sto_nextPublish s + 1\<rparr>"

lemma appended_fields [simp]:
  "sto_history (appended now rec s) = sto_history s @ [(recorded_as now rec)\<lparr>pbr_id := sto_nextPublish s\<rparr>]"
  "sto_nextPublish (appended now rec s) = sto_nextPublish s + 1"
  "sto_connections (appended now rec s) = sto_connections s"
  by (simp_all add: appended_def)

definition spared :: "string \<Rightarrow> PublishStore \<Rightarrow> PublishRecord \<Rightarrow> bool" where
  "spared c s r \<longleftrightarrow> \<not> (pbr_connectionID r = c \<and> pbr_id r \<notin> set (map pbr_id (take 500 (rev (published_on c s)))))"

lemma RecordPublish_stored:
  "pbr_connectionID rec \<in> set (sto_connections s) \<Longrightarrow>
   RecordPublish None now rec 0 s =
     (Inr (), (appended now rec s)\<lparr>sto_history :=
        filter (spared (pbr_connectionID rec) (appended now rec s)) (sto_history (appended now rec s))\<rparr>)"
  unfolding RecordPublish_def recorded_as_def [symmetric] Let_def appended_def [symmetric] spared_def [abs_def]
  by (simp add: DefaultPublishHistory_def del: appended_fields)

lemma RecordPublish_published:
  assumes ok: "publishes_ok s" and c: "pbr_connectionID rec \<in> set (sto_connections s)"
  shows "published_on d (snd (RecordPublish None now rec 0 s)) =
    (if pbr_connectionID rec = d then last_n 500 (published_on d s @ [(recorded_as now rec)\<lparr>pbr_id := sto_nextPublish s\<rparr>])
     else published_on d s)"
proof -
  let ?c = "pbr_connectionID rec"
  let ?s = "appended now rec s"
  let ?kept = "set (map pbr_id (take 500 (rev (published_on ?c ?s))))"
  have step: "snd (RecordPublish None now rec 0 s) =
      ?s\<lparr>sto_history := filter (\<lambda>r. \<not> (pbr_connectionID r = ?c \<and> pbr_id r \<notin> ?kept)) (sto_history ?s)\<rparr>"
    unfolding RecordPublish_stored [OF c] spared_def [abs_def] by (rule snd_conv)
  have ids: "sorted_wrt (<) (map pbr_id (sto_history ?s))"
    using ok by (auto simp: publishes_ok_def sorted_wrt_append)
  then have "distinct (map pbr_id (published_on ?c ?s))"
    unfolding published_on_def by (intro distinct_map_filter strict_sorted_distinct)
  then have kept: "filter (\<lambda>r. pbr_id r \<in> ?kept) (published_on ?c ?s) = last_n 500 (published_on ?c ?s)"
    by (rule filter_newest)
  show ?thesis
  proof (cases "?c = d")
    case True
    have "published_on d (snd (RecordPublish None now rec 0 s)) = filter (\<lambda>r. \<not> pbr_id r \<notin> ?kept) (published_on ?c ?s)"
      unfolding step True [symmetric] by (rule published_on_filter_other(1))
    with kept True show ?thesis by (simp add: published_on_def)
  next
    case False
    have "published_on d (snd (RecordPublish None now rec 0 s)) = published_on d ?s"
      unfolding step using False by (intro published_on_filter_other(2)) simp
    with False show ?thesis by (simp add: published_on_def)
  qed
qed

section \<open>Any sequence of operations\<close>

datatype publish_op =
    PO_Record "store_error option" time PublishRecord | PO_Clear string | PO_Store string | PO_Delete string
  | PO_Save time SavedMessage | PO_Unsave string | PO_Audit time AuditEntry | PO_Set string string

fun publish_step :: "publish_op \<Rightarrow> PublishStore \<Rightarrow> PublishStore" where
  "publish_step (PO_Record fault now r) s = snd (RecordPublish fault now r 0 s)"
| "publish_step (PO_Clear c) s = ClearPublishHistory c s"
| "publish_step (PO_Store c) s = store_connection_id c s"
| "publish_step (PO_Delete c) s = cascade_connection c s"
| "publish_step (PO_Save now m) s = snd (SaveMessage now m s)"
| "publish_step (PO_Unsave i) s = snd (DeleteSavedMessage i s)"
| "publish_step (PO_Audit now e) s = Audit now e 0 s"
| "publish_step (PO_Set k v) s = SetSetting k v s"

definition publish_run :: "publish_op list \<Rightarrow> PublishStore" where
  "publish_run ops = fold publish_step ops empty_publish_store"

text \<open>What was published on a connection since it was stored or last cleared, and whether it is stored.\<close>

definition anon :: "PublishRecord \<Rightarrow> PublishRecord" where
  "anon r = r\<lparr>pbr_id := 0\<rparr>"

fun note_publish :: "string \<Rightarrow> publish_op \<Rightarrow> bool \<times> PublishRecord list \<Rightarrow> bool \<times> PublishRecord list" where
  "note_publish c (PO_Record fault now r) (there, sent) =
     (there, if fault = None \<and> there \<and> pbr_connectionID r = c then sent @ [anon (recorded_as now r)] else sent)"
| "note_publish c (PO_Clear d) (there, sent) = (there, if d = c then [] else sent)"
| "note_publish c (PO_Store d) (there, sent) = (there \<or> d = c, sent)"
| "note_publish c (PO_Delete d) (there, sent) = (if d = c then (False, []) else (there, sent))"
| "note_publish c _ st = st"

definition publishes :: "string \<Rightarrow> publish_op list \<Rightarrow> bool \<times> PublishRecord list" where
  "publishes c ops = fold (note_publish c) ops (False, [])"

lemma publish_frames [frame_simp]:
  "sto_history (snd (SaveMessage now m s)) = sto_history s"
  "sto_connections (snd (SaveMessage now m s)) = sto_connections s"
  "sto_nextPublish (snd (SaveMessage now m s)) = sto_nextPublish s"
  "sto_history (snd (DeleteSavedMessage i s)) = sto_history s"
  "sto_connections (snd (DeleteSavedMessage i s)) = sto_connections s"
  "sto_nextPublish (snd (DeleteSavedMessage i s)) = sto_nextPublish s"
  "sto_history (Audit now e k s) = sto_history s"
  "sto_connections (Audit now e k s) = sto_connections s"
  "sto_nextPublish (Audit now e k s) = sto_nextPublish s"
  "sto_history (SetSetting key v s) = sto_history s"
  "sto_connections (SetSetting key v s) = sto_connections s"
  "sto_nextPublish (SetSetting key v s) = sto_nextPublish s"
  "sto_connections (snd (RecordPublish fault now r k s)) = sto_connections s"
  by (simp_all add: SaveMessage_def DeleteSavedMessage_def Audit_def SetSetting_def RecordPublish_def Let_def
      split: option.splits)

lemma RecordPublish_failed [simp]: "snd (RecordPublish (Some e) now r k s) = s"
  by (simp add: RecordPublish_def Let_def)

lemma publishes_ok_frame:
  "sto_history s' = sto_history s \<Longrightarrow> sto_nextPublish s' = sto_nextPublish s \<Longrightarrow>
   set (sto_connections s) \<subseteq> set (sto_connections s') \<Longrightarrow> publishes_ok s \<Longrightarrow> publishes_ok s'"
  by (auto simp: publishes_ok_def published_on_def)

lemma publishes_ok_filter:
  assumes "publishes_ok s" "sto_history s' = filter P (sto_history s)" "sto_nextPublish s' = sto_nextPublish s"
    and "\<And>r. r \<in> set (sto_history s) \<Longrightarrow> P r \<Longrightarrow> pbr_connectionID r \<in> set (sto_connections s')"
  shows "publishes_ok s'"
proof -
  have "published_on c s' = filter P (published_on c s)" for c
    unfolding published_on_def assms(2) filter_filter by (rule filter_cong) auto
  then have "length (published_on c s') \<le> length (published_on c s)" for c
    by simp
  then have "int (length (published_on c s')) \<le> DefaultPublishHistory" for c
    using assms(1) unfolding publishes_ok_def by (meson order_trans of_nat_le_iff)
  with assms show ?thesis
    by (auto simp: publishes_ok_def sorted_wrt_map intro!: sorted_wrt_filter)
qed

lemma publishes_ok_Record:
  assumes "publishes_ok s"
  shows "publishes_ok (snd (RecordPublish fault now r 0 s))"
proof (cases "fault = None \<and> pbr_connectionID r \<in> set (sto_connections s)")
  case False
  with assms show ?thesis by (cases fault) (auto simp: RecordPublish_def Let_def)
next
  case here: True
  then have True: "pbr_connectionID r \<in> set (sto_connections s)" and f: "fault = None" by simp_all
  let ?s' = "snd (RecordPublish None now r 0 s)" and ?r = "(recorded_as now r)\<lparr>pbr_id := sto_nextPublish s\<rparr>"
  define P where "P = spared (pbr_connectionID r) (appended now r s)"
  have hist: "sto_history ?s' = filter P (sto_history s @ [?r])" and nxt: "sto_nextPublish ?s' = sto_nextPublish s + 1"
    unfolding RecordPublish_stored [OF True] P_def by (simp_all del: filter_append)
  have "sorted_wrt (<) (map pbr_id (sto_history s @ [?r]))"
    using assms by (auto simp: publishes_ok_def sorted_wrt_append)
  then have "sorted_wrt (<) (map pbr_id (sto_history ?s'))"
    unfolding hist sorted_wrt_map by (rule sorted_wrt_filter)
  moreover have "int (length (published_on c ?s')) \<le> DefaultPublishHistory" for c
    using assms unfolding RecordPublish_published [OF assms True]
    by (simp add: publishes_ok_def DefaultPublishHistory_def min_def)
  ultimately show ?thesis
    using assms True unfolding f publishes_ok_def hist nxt publish_frames by (auto simp: less_Suc_eq)
qed

lemma publishes_ok_step: "publishes_ok s \<Longrightarrow> publishes_ok (publish_step op s)"
proof (cases op)
  case (PO_Clear c)
  assume "publishes_ok s"
  with PO_Clear show ?thesis
    by (intro publishes_ok_filter [where s = s and s' = "publish_step op s"])
      (auto simp: ClearPublishHistory_def publishes_ok_def)
next
  case (PO_Delete c)
  assume "publishes_ok s"
  with PO_Delete show ?thesis
    by (intro publishes_ok_filter [where s = s and s' = "publish_step op s"])
      (auto simp: cascade_connection_def publishes_ok_def)
next
  case (PO_Store c)
  assume "publishes_ok s"
  with PO_Store show ?thesis by (auto simp: store_connection_id_def intro: publishes_ok_frame [where s = s])
qed (auto simp: publish_frames publishes_ok_Record intro: publishes_ok_frame [where s = s])

lemma publish_run_snoc: "publish_run (ops @ [op]) = publish_step op (publish_run ops)"
  by (simp add: publish_run_def)

lemma publishes_snoc: "publishes c (ops @ [op]) = note_publish c op (publishes c ops)"
  by (simp add: publishes_def)

lemma publish_run_ok: "publishes_ok (publish_run ops)"
proof (induction ops rule: rev_induct)
  case Nil
  show ?case by (simp add: publish_run_def empty_publish_store_def publishes_ok_def published_on_def DefaultPublishHistory_def)
next
  case (snoc op ops)
  then show ?case by (simp add: publish_run_snoc publishes_ok_step)
qed

lemma map_last_n: "map f (last_n n xs) = last_n n (map f xs)"
  by (simp add: last_n_def drop_map)

lemma trim_space_empty [simp]: "trim_space [] = []"
  by code_simp

lemma published_on_clear: "published_on c (ClearPublishHistory d s) = (if d = c then [] else published_on c s)"
  unfolding published_on_def ClearPublishHistory_def by (auto intro!: filter_cong simp: filter_empty_conv)

lemma published_on_cascade: "published_on c (cascade_connection d s) = (if d = c then [] else published_on c s)"
  unfolding published_on_def cascade_connection_def by (auto intro!: filter_cong simp: filter_empty_conv)

lemma connections_clear_cascade [frame_simp]:
  "sto_connections (ClearPublishHistory d s) = sto_connections s"
  "sto_connections (cascade_connection d s) = filter (\<lambda>c. c \<noteq> d) (sto_connections s)"
  by (simp_all add: ClearPublishHistory_def cascade_connection_def)

text \<open>One operation on the table is one on what the connection published.\<close>

definition tells :: "string \<Rightarrow> PublishStore \<Rightarrow> bool \<times> PublishRecord list \<Rightarrow> bool" where
  "tells c s st \<longleftrightarrow> (fst st \<longleftrightarrow> c \<in> set (sto_connections s)) \<and> map anon (published_on c s) = last_n 500 (snd st)"

lemma tells_frame:
  "sto_history s' = sto_history s \<Longrightarrow> sto_connections s' = sto_connections s \<Longrightarrow> tells c s st \<Longrightarrow> tells c s' st"
  by (simp add: tells_def published_on_def)

lemma tells_Record:
  assumes "publishes_ok s" "tells c s st"
  shows "tells c (snd (RecordPublish fault now r 0 s)) (note_publish c (PO_Record fault now r) st)"
proof (cases "fault = None \<and> pbr_connectionID r \<in> set (sto_connections s)")
  case False
  with assms(2) show ?thesis by (cases st; cases fault) (auto simp: RecordPublish_def Let_def tells_def)
next
  case here: True
  then have True: "pbr_connectionID r \<in> set (sto_connections s)" and [simp]: "fault = None" by simp_all
  note pub = RecordPublish_published [OF assms(1) True, of c now]
  have same: "anon ((recorded_as now r)\<lparr>pbr_id := n\<rparr>) = anon (recorded_as now r)" for n
    by (simp add: anon_def)
  show ?thesis
  proof (cases "pbr_connectionID r = c")
    case True
    with \<open>pbr_connectionID r \<in> set (sto_connections s)\<close> assms(2) show ?thesis
      by (cases st) (simp add: tells_def publish_frames pub map_last_n same last_n_last_n_snoc)
  next
    case False
    with assms(2) show ?thesis by (cases st) (simp add: tells_def publish_frames pub)
  qed
qed

lemma tells_step: "publishes_ok s \<Longrightarrow> tells c s st \<Longrightarrow> tells c (publish_step op s) (note_publish c op st)"
proof (cases op)
  case (PO_Record fault now r)
  assume "publishes_ok s" "tells c s st"
  with PO_Record show ?thesis by (simp only: publish_step.simps tells_Record)
next
  case (PO_Clear d)
  assume "tells c s st"
  with PO_Clear show ?thesis
    by (cases st) (auto simp: tells_def published_on_clear publish_frames connections_clear_cascade)
next
  case (PO_Store d)
  assume "tells c s st"
  with PO_Store show ?thesis by (cases st) (auto simp: tells_def store_connection_id_def published_on_def)
next
  case (PO_Delete d)
  assume "tells c s st"
  with PO_Delete show ?thesis
    by (cases st) (auto simp: tells_def published_on_cascade connections_clear_cascade)
qed (cases st; auto intro: tells_frame simp: publish_frames)+

lemma publish_run_tells: "tells c (publish_run ops) (publishes c ops)"
proof (induction ops rule: rev_induct)
  case Nil
  show ?case by (simp add: tells_def publish_run_def publishes_def empty_publish_store_def published_on_def)
next
  case (snoc op ops)
  then show ?case unfolding publish_run_snoc publishes_snoc by (intro tells_step publish_run_ok)
qed

text \<open>
  C34. Whatever was done to the tables, the publish history of a connection is the newest of what was
  published on it since it was stored or last cleared, newest first, at most 500 entries of it and as many
  of those as were asked for: a script publishing in a loop costs the others nothing, and nothing older is
  shown in place of something newer.
\<close>

theorem publish_history_newest:
  "map anon (PublishHistory c [] limit (publish_run ops)) =
   take (nat (if limit \<le> 0 then 100 else limit)) (rev (last_n 500 (snd (publishes c ops))))"
  using publish_run_tells [of c ops]
  by (simp add: PublishHistory_def tells_def Let_def flip: take_map rev_map)

text \<open>
  A search of the publish history finds exactly the entries whose topic or payload contains the text
  that was typed, letters compared without case: the wildcards of SQL's LIKE in it mean nothing.
\<close>

theorem publish_search_exact:
  "PublishHistory c query limit s =
   take (nat (if limit \<le> 0 then 100 else limit))
     (rev (filter (\<lambda>r. contains_sub (to_lower (pbr_topic r)) (to_lower (trim_space query)) \<or>
                       contains_sub (to_lower (string_of_bytes (pbr_payload r))) (to_lower (trim_space query)))
             (published_on c s)))"
proof -
  have hit: "publish_matches q = (\<lambda>r. contains_sub (to_lower (pbr_topic r)) (to_lower q) \<or>
      contains_sub (to_lower (string_of_bytes (pbr_payload r))) (to_lower q))" for q
    unfolding publish_matches_def [abs_def] Let_def sql_like_contains ..
  have all: "filter (\<lambda>r. contains_sub (to_lower (pbr_topic r)) (to_lower []) \<or>
      contains_sub (to_lower (string_of_bytes (pbr_payload r))) (to_lower [])) xs = xs" for xs
    by (simp add: to_lower_def contains_sub_Nil)
  show ?thesis
    unfolding PublishHistory_def Let_def hit
    by (cases "trim_space query = []") (simp_all only: all if_True if_False not_True_eq_False not_False_eq_True refl)
qed

lemma find_unique: "r \<in> set xs \<Longrightarrow> P r \<Longrightarrow> (\<And>x. x \<in> set xs \<Longrightarrow> P x \<Longrightarrow> x = r) \<Longrightarrow> find P xs = Some r"
proof (induction xs)
  case (Cons a xs)
  show ?case
  proof (cases "P a")
    case True
    then have "a = r" by (rule Cons.prems(3) [rotated]) simp
    with True show ?thesis by simp
  next
    case False
    with Cons.prems(1,2) have "r \<in> set xs" by auto
    then have "find P xs = Some r" by (rule Cons.IH) (rule Cons.prems(2), rule Cons.prems(3), simp_all)
    with False show ?thesis by simp
  qed
qed simp

text \<open>An entry of a connection's history is the entry its id fetches, and no other connection's request finds it.\<close>

theorem GetPublish_shown:
  assumes "r \<in> set (PublishHistory c query limit (publish_run ops))"
  shows "GetPublish c (int (pbr_id r)) (publish_run ops) = Inr r"
    and "d \<noteq> c \<Longrightarrow> GetPublish d (int (pbr_id r)) (publish_run ops) = Inl ErrNotFound"
proof -
  let ?s = "publish_run ops"
  have r: "r \<in> set (sto_history ?s)" "pbr_connectionID r = c"
    using assms by (auto simp: PublishHistory_def published_on_def Let_def dest!: in_set_takeD split: if_splits)
  have "distinct (map pbr_id (sto_history ?s))"
    using publish_run_ok [of ops] by (simp add: publishes_ok_def strict_sorted_distinct)
  then have only: "x = r" if "x \<in> set (sto_history ?s)" "pbr_id x = pbr_id r" for x
    using that r by (auto simp: distinct_map inj_on_def)
  show "GetPublish c (int (pbr_id r)) ?s = Inr r"
  proof -
    have "find (\<lambda>x. int (pbr_id x) = int (pbr_id r) \<and> pbr_connectionID x = c) (sto_history ?s) = Some r"
      by (rule find_unique) (use r in simp_all, rule only, simp_all)
    then show ?thesis by (simp add: GetPublish_def)
  qed
  show "GetPublish d (int (pbr_id r)) ?s = Inl ErrNotFound" if "d \<noteq> c"
  proof -
    have "find (\<lambda>x. int (pbr_id x) = int (pbr_id r) \<and> pbr_connectionID x = d) (sto_history ?s) = None"
      unfolding find_None_iff using only r(2) that by fastforce
    then show ?thesis by (simp add: GetPublish_def)
  qed
qed

section \<open>The log of actions\<close>

definition audits_ok :: "PublishStore \<Rightarrow> bool" where
  "audits_ok s \<longleftrightarrow> sorted_wrt (<) (map aud_id (sto_audit s)) \<and> (\<forall>e \<in> set (sto_audit s). aud_id e < sto_nextAudit s)"

lemma Audit_newest:
  assumes "audits_ok s"
  shows "sto_audit (Audit now e keep s) =
     last_n (nat (if keep \<le> 0 then 5000 else keep))
       (sto_audit s @ [e\<lparr>aud_at := (if aud_at e = 0 then now else aud_at e), aud_id := sto_nextAudit s\<rparr>])"
proof -
  let ?e = "e\<lparr>aud_at := (if aud_at e = 0 then now else aud_at e), aud_id := sto_nextAudit s\<rparr>"
  let ?k = "nat (if keep \<le> 0 then 5000 else keep)" and ?xs = "sto_audit s @ [?e]"
  have "sorted_wrt (<) (map aud_id ?xs)"
    using assms by (auto simp: audits_ok_def sorted_wrt_append)
  then have "filter (\<lambda>x. aud_id x \<in> set (map aud_id (take ?k (rev ?xs)))) ?xs = last_n ?k ?xs"
    by (intro filter_newest strict_sorted_distinct)
  moreover define s1 where "s1 = s\<lparr>sto_audit := ?xs, sto_nextAudit := sto_nextAudit s + 1\<rparr>"
  moreover have entry: "(if aud_at e = 0 then e\<lparr>aud_at := now\<rparr> else e)\<lparr>aud_id := sto_nextAudit s\<rparr> = ?e"
    by simp
  moreover have "Audit now e keep s =
      s1\<lparr>sto_audit := filter (\<lambda>x. aud_id x \<in> set (map aud_id (take ?k (rev (sto_audit s1))))) (sto_audit s1)\<rparr>"
    unfolding Audit_def DefaultAuditRetention_def Let_def entry s1_def [symmetric] by simp
  ultimately show ?thesis by (simp del: filter_append rev_append)
qed

end
