(* ===== verification/ConnStoreFacts.thy ===== *)
theory ConnStoreFacts
  imports ConnStore PublishFacts
begin

text \<open>
  What is stored of a connection is what is loaded, under the key it was sealed with; what happens under
  another key; and the rows of the other tables always belong to a connection that is there.
\<close>

section \<open>JSON there and back\<close>

lemma set_members_append:
  "set_members fs (xs @ ys) r = Option.bind (set_members fs xs r) (set_members fs ys)"
  by (induction fs xs r rule: set_members.induct) (auto split: option.splits)

lemma tls_field_steps:
  "set_members tls_fields (omit_empty (\<not> b) ''insecureSkipVerify'' (JBool True)) r =
     Some (r\<lparr>tls_insecureSkipVerify := b \<or> tls_insecureSkipVerify r\<rparr>)"
  "set_members tls_fields (omit_empty (x = []) ''serverName'' (JStr x)) r =
     Some (r\<lparr>tls_serverName := if x = [] then tls_serverName r else x\<rparr>)"
  "set_members tls_fields (omit_empty (x = []) ''caPem'' (JStr x)) r =
     Some (r\<lparr>tls_caPEM := if x = [] then tls_caPEM r else x\<rparr>)"
  "set_members tls_fields (omit_empty (x = []) ''clientCertPem'' (JStr x)) r =
     Some (r\<lparr>tls_clientCertPEM := if x = [] then tls_clientCertPEM r else x\<rparr>)"
  "set_members tls_fields (omit_empty (x = []) ''clientKeyPem'' (JStr x)) r =
     Some (r\<lparr>tls_clientKeyPEM := if x = [] then tls_clientKeyPEM r else x\<rparr>)"
  "set_members tls_fields (omit_empty (x = []) ''minVersion'' (JStr x)) r =
     Some (r\<lparr>tls_minVersion := if x = [] then tls_minVersion r else x\<rparr>)"
  by (simp_all add: omit_empty_def find_field_def tls_fields_def set_string_def set_bool_def)

lemma elements_strings: "elements a_string z (map JStr xs) = Some xs"
  by (induction xs) (simp_all add: set_string_def)

lemma tls_field_alpn:
  "set_members tls_fields (omit_empty (xs = []) ''alpn'' (JArr (map JStr xs))) r =
     Some (r\<lparr>tls_alpn := if xs = [] then tls_alpn r else xs\<rparr>)"
  by (simp add: omit_empty_def find_field_def tls_fields_def set_slice_def elements_strings)

lemma unmarshal_marshal_tls: "unmarshal_struct tls_fields (marshal_tls t) zero_tls = Some t"
  by (simp add: unmarshal_struct_def marshal_tls_def set_members_append tls_field_steps tls_field_alpn zero_tls_def)

lemma sub_field_steps:
  "n < 256 \<Longrightarrow> set_members sub_fields [(''filter'', JStr x), (''qos'', JNum (nat_string n))] r =
     Some (r\<lparr>sub_filter := x, sub_qos := n\<rparr>)"
  "set_members sub_fields (omit_empty (\<not> b) ''noLocal'' (JBool True)) r = Some (r\<lparr>sub_noLocal := b \<or> sub_noLocal r\<rparr>)"
  "set_members sub_fields (omit_empty (\<not> b) ''retainAsPublished'' (JBool True)) r =
     Some (r\<lparr>sub_retainAsPublished := b \<or> sub_retainAsPublished r\<rparr>)"
  "n < 256 \<Longrightarrow> set_members sub_fields (omit_empty (n = 0) ''retainHandling'' (JNum (nat_string n))) r =
     Some (r\<lparr>sub_retainHandling := if n = 0 then sub_retainHandling r else n\<rparr>)"
  by (simp_all add: omit_empty_def find_field_def sub_fields_def set_string_def set_bool_def set_uint_def)

lemma unmarshal_marshal_sub:
  "sub_qos s < 256 \<Longrightarrow> sub_retainHandling s < 256 \<Longrightarrow> unmarshal_struct sub_fields (marshal_sub s) zero_sub = Some s"
  unfolding unmarshal_struct_def marshal_sub_def Json.case set_members_append 
  by (simp add: sub_field_steps(2-4)) (simp add: zero_sub_def find_field_def sub_fields_def set_string_def set_uint_def)

lemma unmarshal_marshal_subs:
  "(\<forall>s \<in> set subs. sub_qos s < 256 \<and> sub_retainHandling s < 256) \<Longrightarrow>
   set_slice (unmarshal_struct sub_fields) zero_sub (\<lambda>xs _. xs) (JArr (map marshal_sub subs)) [] = Some subs"
  by (induction subs) (auto simp: set_slice_def unmarshal_marshal_sub)

lemma will_field_steps:
  "n < 256 \<Longrightarrow> set_members will_fields
      [(''topic'', JStr x), (''payload'', JStr y), (''qos'', JNum (nat_string n)), (''retain'', JBool b)] r =
     Some (r\<lparr>will_topic := x, will_payload := y, will_qos := n, will_retain := b\<rparr>)"
  "n < 4294967296 \<Longrightarrow> set_members will_fields (omit_empty (n = 0) ''delayInterval'' (JNum (nat_string n))) r =
     Some (r\<lparr>will_delayInterval := if n = 0 then will_delayInterval r else n\<rparr>)"
  by (simp_all add: omit_empty_def find_field_def will_fields_def set_string_def set_bool_def set_uint_def)

lemma unmarshal_marshal_will:
  "will_qos w < 256 \<Longrightarrow> will_delayInterval w < 4294967296 \<Longrightarrow> unmarshal_struct will_fields (marshal_will w) zero_will = Some w"
  unfolding unmarshal_struct_def marshal_will_def Json.case set_members_append 
  by (simp add: omit_empty_def zero_will_def find_field_def will_fields_def set_string_def set_bool_def set_uint_def)

section \<open>A definition there and back\<close>

text \<open>
  The widths of the fields Go keeps in \<^verbatim>\<open>byte\<close>s and a \<^verbatim>\<open>uint32\<close>, and what is relied on of printing JSON and
  of the cipher.
\<close>

definition spec_widths :: "ConnectionSpec \<Rightarrow> bool" where
  "spec_widths s \<longleftrightarrow>
     (\<forall>x \<in> set (cs_subscriptions s). sub_qos x < 256 \<and> sub_retainHandling x < 256) \<and>
     (case cs_will s of None \<Rightarrow> True | Some w \<Rightarrow> will_qos w < 256 \<and> will_delayInterval w < 4294967296)"

definition prints :: "StoreEnv \<Rightarrow> Json \<Rightarrow> bool" where
  "prints env j \<longleftrightarrow> se_print env j \<noteq> [] \<and> se_parse env (se_print env j) = Some j"

definition store_env_ok :: "StoreEnv \<Rightarrow> ConnectionSpec \<Rightarrow> bool" where
  "store_env_ok env s \<longleftrightarrow>
     (case se_box env of None \<Rightarrow> False | Some b \<Rightarrow> aead_ok b \<and> 0 < bx_nonceSize b \<and>
        (case se_nonces env of (Some n, Some n') \<Rightarrow> length n = bx_nonceSize b \<and> length n' = bx_nonceSize b | _ \<Rightarrow> False)) \<and>
     prints env (marshal_tls (cs_tls s)) \<and> prints env (JArr (map marshal_sub (cs_subscriptions s))) \<and>
     (case cs_will s of None \<Rightarrow> True | Some w \<Rightarrow> prints env (marshal_will w))"

lemma Seal_Inr: "Seal (Some b) (Some n) p = Inr (if p = [] then [] else b64_encode (n @ bx_seal b n (bytes_of_string p)))"
  by (simp add: Seal_def)

lemma scan_row_of:
  assumes env: "store_env_ok env s" and widths: "spec_widths s"
    and pw: "Seal (se_box env) (fst (se_nonces env)) (cs_password s) = Inr passwordEnc"
    and tls: "Seal (se_box env) (snd (se_nonces env)) (se_print env (marshal_tls (cs_tls s))) = Inr tlsJSON"
  shows "scanConnection env (row_of env s passwordEnc tlsJSON by' created now) =
    Inr \<lparr>cr_spec = s, cr_createdBy = by', cr_createdAt = created, cr_updatedAt = now\<rparr>"
proof -
  obtain b n n' where box: "se_box env = Some b" "se_nonces env = (Some n, Some n')" "aead_ok b"
    "0 < bx_nonceSize b" "length n = bx_nonceSize b" "length n' = bx_nonceSize b"
    using env by (auto simp: store_env_ok_def split: option.splits prod.splits)
  have p1: "prints env (marshal_tls (cs_tls s))" and p2: "prints env (JArr (map marshal_sub (cs_subscriptions s)))"
    and p3: "\<And>w. cs_will s = Some w \<Longrightarrow> prints env (marshal_will w)"
    using env by (auto simp: store_env_ok_def)
  have open_pw: "Open (se_box env) passwordEnc = Inr (cs_password s)"
    using pw box by (auto intro: Open_Seal)
  have open_tls: "Open (se_box env) tlsJSON = Inr (se_print env (marshal_tls (cs_tls s)))"
    using tls box by (auto intro: Open_Seal)
  moreover have "tlsJSON \<noteq> []"
    using tls p1 box by (auto simp: Seal_Inr prints_def split: if_splits)
  ultimately have "decodeTLS env tlsJSON = Some (cs_tls s)"
    using p1 by (simp add: decodeTLS_def unmarshal_text_def prints_def unmarshal_marshal_tls)
  moreover have "unmarshal_text env (set_slice (unmarshal_struct sub_fields) zero_sub (\<lambda>xs _. xs))
      (se_print env (JArr (map marshal_sub (cs_subscriptions s)))) [] = Some (cs_subscriptions s)"
    using p2 widths by (simp add: unmarshal_text_def prints_def unmarshal_marshal_subs spec_widths_def)
  moreover have "unmarshal_text env (unmarshal_struct will_fields) (se_print env (marshal_will w)) zero_will = Some w"
    "se_print env (marshal_will w) \<noteq> []" if "cs_will s = Some w" for w
    using p3 [OF that] widths that by (simp_all add: unmarshal_text_def prints_def unmarshal_marshal_will spec_widths_def)
  ultimately show ?thesis
    using open_pw by (cases "cs_will s") (simp_all add: scanConnection_def row_of_def Let_def)
qed

lemma find_upsert:
  "find (\<lambda>r. rw_id r = i) (cdb_rows (upsert_row row db)) =
     (if i = rw_id row then
        Some (case find (\<lambda>r. rw_id r = i) (cdb_rows db) of
                None \<Rightarrow> row | Some old \<Rightarrow> row\<lparr>rw_createdBy := rw_createdBy old, rw_createdAt := rw_createdAt old\<rparr>)
      else find (\<lambda>r. rw_id r = i) (cdb_rows db))"
proof -
  let ?f = "\<lambda>old. if rw_id old = rw_id row
      then row\<lparr>rw_createdBy := rw_createdBy old, rw_createdAt := rw_createdAt old\<rparr> else old"
  have mapped: "find (\<lambda>r. rw_id r = i) (map ?f rows) = map_option ?f (find (\<lambda>r. rw_id r = i) rows)" for rows
    by (induction rows) auto
  have appended: "find (\<lambda>r. rw_id r = i) (rows @ [row]) =
      (if rw_id row = i then Some row else find (\<lambda>r. rw_id r = i) rows)" if "rw_id row \<notin> rw_id ` set rows" for rows
    using that by (induction rows) auto
  have found: "\<exists>old. find (\<lambda>r. rw_id r = rw_id row) rows = Some old \<and> rw_id old = rw_id row" if "rw_id row \<in> rw_id ` set rows" for rows
    using that by (induction rows) auto
  have other: "map_option ?f (find (\<lambda>r. rw_id r = i) rows) = find (\<lambda>r. rw_id r = i) rows" if "i \<noteq> rw_id row" for rows
    using that by (induction rows) auto
  have missing: "find (\<lambda>r. rw_id r = rw_id row) rows = None" if "rw_id row \<notin> rw_id ` set rows" for rows
    using that by (induction rows) auto
  show ?thesis
  proof (cases "rw_id row \<in> rw_id ` set (cdb_rows db)")
    case True
    with found [OF True] show ?thesis by (auto simp: upsert_row_def mapped other)
  next
    case False
    with missing [OF False] show ?thesis by (simp add: upsert_row_def appended)
  qed
qed

lemma row_of_again:
  "(row_of env s p t by' created now)\<lparr>rw_createdBy := x, rw_createdAt := y\<rparr> = row_of env s p t x y now"
  by (simp add: row_of_def)

lemma rw_id_row_of [simp]: "rw_id (row_of env s p t by' created now) = cs_id s"
  by (simp add: row_of_def)

lemma SaveConnection_stores:
  assumes "Normalize (se_url env) (se_render env) (se_fresh env) (cr_spec rec) = Inr s" "cs_id s \<noteq> []" "store_env_ok env s"
  obtains p t where
    "Seal (se_box env) (fst (se_nonces env)) (cs_password s) = Inr p"
    "Seal (se_box env) (snd (se_nonces env)) (se_print env (marshal_tls (cs_tls s))) = Inr t"
    "SaveConnection env now rec db =
       (Inr (), upsert_row (row_of env s p t (cr_createdBy rec) (if cr_createdAt rec = 0 then now else cr_createdAt rec) now) db)"
proof -
  obtain b n n' where box: "se_box env = Some b" "se_nonces env = (Some n, Some n')"
    using assms(3) by (auto simp: store_env_ok_def split: option.splits prod.splits)
  show ?thesis
    by (rule that) (use assms box in \<open>simp_all add: Seal_Inr SaveConnection_def\<close>)
qed

text \<open>
  C33. A connection that was saved is loaded as the definition it was normalised to, its password, its
  certificates and its private key included, whether it is new or replaces one with the same id, and every
  other connection is loaded as before.
\<close>

theorem connection_saved_loaded:
  assumes "Normalize (se_url env) (se_render env) (se_fresh env) (cr_spec rec) = Inr s" "cs_id s \<noteq> []"
    and "store_env_ok env s" "spec_widths s"
  shows "fst (SaveConnection env now rec db) = Inr () \<and>
    map_sum id cr_spec (GetConnection env (cs_id s) (snd (SaveConnection env now rec db))) = Inr s \<and>
    (i \<noteq> cs_id s \<longrightarrow> GetConnection env i (snd (SaveConnection env now rec db)) = GetConnection env i db)"
proof -
  obtain p t where pt: "Seal (se_box env) (fst (se_nonces env)) (cs_password s) = Inr p"
    "Seal (se_box env) (snd (se_nonces env)) (se_print env (marshal_tls (cs_tls s))) = Inr t"
    "SaveConnection env now rec db =
       (Inr (), upsert_row (row_of env s p t (cr_createdBy rec) (if cr_createdAt rec = 0 then now else cr_createdAt rec) now) db)"
    by (rule SaveConnection_stores [OF assms(1-3)])
  note scan = scan_row_of [OF assms(3,4) pt(1,2)]
  show ?thesis
    unfolding pt(3) GetConnection_def fst_conv snd_conv find_upsert rw_id_row_of
    by (simp add: scan row_of_again split: option.splits)
qed

text \<open>A cipher that hides nothing, and the two documents of one definition.\<close>

definition ex_box :: Box where
  "ex_box = \<lparr>bx_nonceSize = 1, bx_seal = (\<lambda>n p. p), bx_open = (\<lambda>n c. Some c)\<rparr>"

definition ex_store_env :: StoreEnv where
  "ex_store_env = \<lparr>se_box = Some ex_box, se_nonces = (Some [1], Some [2]),
     se_print = (\<lambda>j. if j = marshal_tls ex_tls then ''{}'' else ''[]''),
     se_parse = (\<lambda>t. if t = ''{}'' then Some (marshal_tls ex_tls)
                     else if t = ''[]'' then Some (JArr [marshal_sub (ex_sub ''a/#'')]) else None),
     se_url = ex_parse, se_render = ex_render, se_fresh = ''ab''\<rparr>"

definition ex_conn_record :: ConnectionRecord where
  "ex_conn_record = \<lparr>cr_spec = ex_spec, cr_createdBy = ''u'', cr_createdAt = 0, cr_updatedAt = 0\<rparr>"

definition ex_conn_db :: ConnDb where
  "ex_conn_db = \<lparr>cdb_rows = [], cdb_publish = empty_publish_store,
     cdb_recorded = \<lparr>rt_connections = [], rt_rows = [], rt_nextID = 1\<rparr>\<rparr>"

lemma ex_store_env_ok: "store_env_ok ex_store_env ex_spec'"
  by (simp add: store_env_ok_def ex_store_env_def ex_box_def aead_ok_def prints_def ex_spec'_def ex_spec_def marshal_tls_def)

theorem connection_saved_loaded_witness:
  "map_sum id cr_spec (GetConnection ex_store_env ''c1'' (snd (SaveConnection ex_store_env 5 ex_conn_record ex_conn_db))) = Inr ex_spec'"
proof -
  have id: "cs_id ex_spec' = ''c1''" by (simp add: ex_spec'_def ex_spec_def)
  have "Normalize (se_url ex_store_env) (se_render ex_store_env) (se_fresh ex_store_env) (cr_spec ex_conn_record) = Inr ex_spec'"
    using ex_Normalize by (simp add: ex_store_env_def ex_conn_record_def)
  moreover have "spec_widths ex_spec'"
    by (simp add: spec_widths_def ex_spec'_def ex_spec_def ex_sub_def)
  ultimately show ?thesis
    using connection_saved_loaded [of ex_store_env ex_conn_record ex_spec' 5 ex_conn_db "''c2''"] ex_store_env_ok
    unfolding id by blast
qed

section \<open>Another key\<close>

lemma scan_all_fails: "r \<in> set rs \<Longrightarrow> scanConnection env r = Inl e \<Longrightarrow> \<exists>e'. scan_all env rs = Inl e'"
  by (induction rs) (auto split: sum.splits)

text \<open>
  The password of a row sealed with another key is read as empty, as a comment in the code says it should
  be, so that the connection stays readable. Its TLS column is not: it does not open either, its sealed text
  is then taken for plain JSON, which it is not, and neither that connection nor the list of all of them can
  be loaded any more.
\<close>

theorem rotated_key_hides_connections:
  assumes "row \<in> set (cdb_rows db)" "rw_tlsJSON row \<noteq> []" "Open (se_box env) (rw_tlsJSON row) = Inl e"
    and "se_parse env (rw_tlsJSON row) = None"
  shows "scanConnection env row = Inl CS_TLS \<and> (\<exists>e'. ListConnections env db = Inl e')"
proof
  show fails: "scanConnection env row = Inl CS_TLS"
    using assms(2-4) by (simp add: scanConnection_def decodeTLS_def unmarshal_text_def Let_def)
  then show "\<exists>e'. ListConnections env db = Inl e'"
    unfolding ListConnections_def using assms(1) by (intro scan_all_fails [where r = row]) simp_all
qed

section \<open>Rows of connections that are there\<close>

definition conn_db_ok :: "ConnDb \<Rightarrow> bool" where
  "conn_db_ok db \<longleftrightarrow>
     distinct (map rw_id (cdb_rows db)) \<and>
     set (sto_connections (cdb_publish db)) = rw_id ` set (cdb_rows db) \<and>
     set (rt_connections (cdb_recorded db)) = rw_id ` set (cdb_rows db) \<and>
     publishes_ok (cdb_publish db) \<and>
     (\<forall>m \<in> set (sto_saved (cdb_publish db)). sav_connectionID m = [] \<or> sav_connectionID m \<in> rw_id ` set (cdb_rows db)) \<and>
     (\<forall>r \<in> set (rt_rows (cdb_recorded db)). rm_connectionID r \<in> rw_id ` set (cdb_rows db))"

datatype conn_db_op =
    DB_Save StoreEnv time ConnectionRecord | DB_Delete string
  | DB_Publish publish_op | DB_Record bool "RecordedMessage list" | DB_Prune string int | DB_Unrecord string

text \<open>What the tables of one connection see of it coming and going is part of saving and deleting it.\<close>

fun conn_db_step :: "conn_db_op \<Rightarrow> ConnDb \<Rightarrow> ConnDb" where
  "conn_db_step (DB_Save env now rec) db = snd (SaveConnection env now rec db)"
| "conn_db_step (DB_Delete i) db = snd (DeleteConnection i db)"
| "conn_db_step (DB_Publish (PO_Store c)) db = db"
| "conn_db_step (DB_Publish (PO_Delete c)) db = db"
| "conn_db_step (DB_Publish op) db = db\<lparr>cdb_publish := publish_step op (cdb_publish db)\<rparr>"
| "conn_db_step (DB_Record ok batch) db = db\<lparr>cdb_recorded := snd (AppendRecorded ok batch (cdb_recorded db))\<rparr>"
| "conn_db_step (DB_Prune c keep) db = db\<lparr>cdb_recorded := snd (PruneRecorded c keep (cdb_recorded db))\<rparr>"
| "conn_db_step (DB_Unrecord c) db = db\<lparr>cdb_recorded := DeleteRecorded c (cdb_recorded db)\<rparr>"

definition conn_db_run :: "conn_db_op list \<Rightarrow> ConnDb" where
  "conn_db_run ops = fold conn_db_step ops ex_conn_db"

lemma upsert_row_ok:
  assumes "conn_db_ok db"
  shows "conn_db_ok (upsert_row row db)"
proof (cases "rw_id row \<in> rw_id ` set (cdb_rows db)")
  case True
  let ?f = "\<lambda>old. if rw_id old = rw_id row
      then row\<lparr>rw_createdBy := rw_createdBy old, rw_createdAt := rw_createdAt old\<rparr> else old"
  have "map rw_id (map ?f (cdb_rows db)) = map rw_id (cdb_rows db)" by simp
  then have ids: "map rw_id (cdb_rows (upsert_row row db)) = map rw_id (cdb_rows db)"
    using True by (simp add: upsert_row_def)
  then have "rw_id ` set (cdb_rows (upsert_row row db)) = rw_id ` set (cdb_rows db)"
    by (metis list.set_map)
  moreover have "cdb_publish (upsert_row row db) = cdb_publish db" "cdb_recorded (upsert_row row db) = cdb_recorded db"
    using True by (simp_all add: upsert_row_def)
  ultimately show ?thesis using assms ids by (simp add: conn_db_ok_def)
next
  case False
  moreover have "publishes_ok (store_connection_id (rw_id row) (cdb_publish db))"
    using assms publishes_ok_step [of "cdb_publish db" "PO_Store (rw_id row)"] by (simp add: conn_db_ok_def)
  ultimately show ?thesis
    using assms by (auto simp: conn_db_ok_def upsert_row_def store_connection_id_def)
qed

lemma SaveConnection_ok: "conn_db_ok db \<Longrightarrow> conn_db_ok (snd (SaveConnection env now rec db))"
  by (simp add: SaveConnection_def upsert_row_ok split: sum.splits)

lemma DeleteConnection_ok: "conn_db_ok db \<Longrightarrow> conn_db_ok (snd (DeleteConnection i db))"
proof -
  assume ok: "conn_db_ok db"
  have "publishes_ok (cascade_connection i (cdb_publish db))"
    using ok publishes_ok_step [of "cdb_publish db" "PO_Delete i"] by (simp add: conn_db_ok_def)
  moreover have "rw_id ` set (filter (\<lambda>r. rw_id r \<noteq> i) (cdb_rows db)) = rw_id ` set (cdb_rows db) - {i}" by auto
  ultimately show ?thesis
    using ok unfolding conn_db_ok_def DeleteConnection_def
    by (auto simp: distinct_map_filter connections_clear_cascade DeleteConnectionRows_def DeleteRecorded_def
        simp del: set_filter) (auto simp: cascade_connection_def)
qed

lemma SaveMessage_saved:
  "m \<in> set (sto_saved (snd (SaveMessage now msg s))) \<Longrightarrow>
   m \<in> set (sto_saved s) \<or> sav_connectionID m = [] \<or> sav_connectionID m \<in> set (sto_connections s)"
  by (auto simp: SaveMessage_def Let_def split: if_splits)

lemma publish_saved_frames [frame_simp]:
  "sto_saved (snd (RecordPublish fault now r k s)) = sto_saved s"
  "sto_saved (ClearPublishHistory c s) = sto_saved s"
  "sto_saved (Audit now e k s) = sto_saved s"
  "sto_saved (SetSetting key v s) = sto_saved s"
  by (simp_all add: RecordPublish_def ClearPublishHistory_def Audit_def SetSetting_def Let_def split: option.splits)

lemma conn_db_publish_ok:
  assumes "conn_db_ok db"
  shows "conn_db_ok (conn_db_step (DB_Publish op) db)"
proof -
  have "publishes_ok (publish_step op (cdb_publish db))"
    using assms by (simp add: conn_db_ok_def publishes_ok_step)
  with assms show ?thesis
    by (cases op) (auto simp: conn_db_ok_def publish_frames publish_saved_frames connections_clear_cascade
        DeleteSavedMessage_def dest!: SaveMessage_saved)
qed

lemma number_rows_connections: "rm_connectionID ` set (number_rows n ms) \<subseteq> rm_connectionID ` set ms"
  by (auto simp: number_rows_def dest: set_zip_rightD)

lemma conn_db_step_ok: "conn_db_ok db \<Longrightarrow> conn_db_ok (conn_db_step op db)"
proof (cases op)
  case (DB_Record ok batch)
  assume db: "conn_db_ok db"
  have "rm_connectionID r \<in> set (rt_connections (cdb_recorded db))"
    if "r \<in> set (rt_rows (snd (AppendRecorded ok batch (cdb_recorded db))))" for r
    using that db number_rows_connections [of "rt_nextID (cdb_recorded db)" batch]
    unfolding conn_db_ok_def AppendRecorded_def by (auto split: if_splits)
  moreover have "rt_connections (snd (AppendRecorded ok batch (cdb_recorded db))) = rt_connections (cdb_recorded db)"
    by (simp add: AppendRecorded_def)
  ultimately show ?thesis using db DB_Record by (simp add: conn_db_ok_def)
next
  case (DB_Publish p)
  assume "conn_db_ok db"
  with DB_Publish show ?thesis by (simp only: conn_db_publish_ok)
next
  case (DB_Prune c keep)
  assume "conn_db_ok db"
  with DB_Prune show ?thesis by (auto simp: conn_db_ok_def PruneRecorded_def Let_def)
next
  case (DB_Unrecord c)
  assume "conn_db_ok db"
  with DB_Unrecord show ?thesis by (auto simp: conn_db_ok_def DeleteRecorded_def)
qed (simp_all add: SaveConnection_ok DeleteConnection_ok)

lemma conn_db_run_ok: "conn_db_ok (conn_db_run ops)"
proof (induction ops rule: rev_induct)
  case Nil
  show ?case using publish_run_ok [of "[]"]
    by (simp add: conn_db_run_def ex_conn_db_def conn_db_ok_def publish_run_def) (simp add: empty_publish_store_def)
next
  case (snoc op ops)
  then show ?case by (simp add: conn_db_run_def conn_db_step_ok)
qed

text \<open>
  Whatever was saved, published, kept, recorded and deleted, two connections never share an id, and
  every publish, saved message and recorded message belongs to a connection that is stored: what a deleted
  connection had is gone with it, and a connection stored later under the same id inherits nothing.
\<close>

theorem rows_follow_connection: "conn_db_ok (conn_db_run ops)"
  by (rule conn_db_run_ok)

theorem deleted_leaves_nothing:
  assumes "fst (DeleteConnection i db) = Inr ()"
  shows "published_on i (cdb_publish (snd (DeleteConnection i db))) = []"
    and "connection_rows i (cdb_recorded (snd (DeleteConnection i db))) = []"
    and "m \<in> set (sto_saved (cdb_publish (snd (DeleteConnection i db)))) \<Longrightarrow> sav_connectionID m = i \<Longrightarrow> i = []"
    and "GetConnection env i (snd (DeleteConnection i db)) = Inl CS_NotFound"
proof -
  have del: "snd (DeleteConnection i db) = db\<lparr>cdb_rows := filter (\<lambda>r. rw_id r \<noteq> i) (cdb_rows db),
      cdb_publish := cascade_connection i (cdb_publish db), cdb_recorded := DeleteConnectionRows i (cdb_recorded db)\<rparr>"
    using assms by (auto simp: DeleteConnection_def split: if_splits)
  have gone: "find (\<lambda>r. rw_id r = i) (filter (\<lambda>r. rw_id r \<noteq> i) rows) = None" for rows
    by (simp add: find_None_iff)
  show "published_on i (cdb_publish (snd (DeleteConnection i db))) = []"
    "connection_rows i (cdb_recorded (snd (DeleteConnection i db))) = []"
    "GetConnection env i (snd (DeleteConnection i db)) = Inl CS_NotFound"
    unfolding del
    by (simp_all add: published_on_cascade GetConnection_def gone connection_rows_def DeleteConnectionRows_def DeleteRecorded_def)
  show "i = []" if "m \<in> set (sto_saved (cdb_publish (snd (DeleteConnection i db))))" "sav_connectionID m = i"
    using that unfolding del by (simp add: cascade_connection_def)
qed

end
