(* ===== verification/TopicApiFacts.thy ===== *)
theory TopicApiFacts
  imports TopicApi
begin

text \<open>
  What the topic endpoints promise: bytes survive the way to the browser and back, a file name is one, the
  fields offered for a chart are the ones a chart can be made of, and the series is the whole history of the
  window but for what is no number.
\<close>

section \<open>Bytes as text\<close>

text \<open>
  A payload survives the way to a browser and back: what \<open>encodePayload\<close> makes of any bytes, text or
  not, \<open>decodePayload\<close> turns into the same bytes.
\<close>

theorem payload_there_and_back:
  "decodePayload (pv_payload (encodePayload raw)) (pv_base64 (encodePayload raw)) = Some raw"
  by (simp add: encodePayload_def decodePayload_def b64_decode_encode)

lemma history_entry_payload:
  "decodePayload (hy_payload (toHistoryEntry m)) (hy_base64 (toHistoryEntry m)) = Some (msg_payload m)"
  by (simp add: toHistoryEntry_def decodePayload_def b64_decode_encode Let_def)

section \<open>File names\<close>

lemma set_trim_char: "set (trim_char c s) \<subseteq> set s"
proof
  fix x assume "x \<in> set (trim_char c s)"
  then have "x \<in> set (dropWhile (\<lambda>x. x = c) (rev (dropWhile (\<lambda>x. x = c) s)))" by (simp add: trim_char_def)
  from set_dropWhileD [OF this] have "x \<in> set (dropWhile (\<lambda>x. x = c) s)" by simp
  from set_dropWhileD [OF this] show "x \<in> set s" by simp
qed

lemma filename_rune_char: "filename_rune r \<Longrightarrow> of_char (char_of r :: char) = r"
  by (auto simp: filename_rune_def)

text \<open>
  The name a download is offered under is a name: whatever the topic, its stem is one to eighty letters,
  digits, hyphens and underscores, so that no topic can put a directory, a quote or a line end into it.
\<close>

theorem export_name_safe:
  "file_stem topic \<noteq> [] \<and> length (file_stem topic) \<le> 80 \<and>
   set (file_stem topic) \<subseteq> {c. filename_rune (of_char c)}"
proof -
  let ?m = "map (\<lambda>r. case r of Some r \<Rightarrow> if filename_rune r then char_of r else CHR ''-'' | None \<Rightarrow> CHR ''-'')
              (range_runes (map of_char topic))"
  have "filename_rune (of_char c)" if "c \<in> set ?m" for c
  proof -
    have "filename_rune (of_char (char_of r :: char))" if "filename_rune r" for r
      using that by (simp only: filename_rune_char)
    moreover have "filename_rune (of_char CHR ''-'')" by (simp add: filename_rune_def)
    ultimately show ?thesis using that by (auto simp del: of_char_of split: option.splits if_splits)
  qed
  then have "set (trim_char CHR ''-'' ?m) \<subseteq> {c. filename_rune (of_char c)}"
    using set_trim_char [of "CHR ''-''" ?m] by blast
  moreover have "set ''topic'' \<subseteq> {c. filename_rune (of_char c)}"
    by (simp add: filename_rune_def)
  ultimately show ?thesis
    unfolding file_stem_def Let_def by (auto dest: in_set_takeD)
qed

section \<open>What can be charted\<close>

text \<open>Documents whose keys are nonempty and contain no dot.\<close>

fun plain_doc :: "Any \<Rightarrow> bool" where
  "plain_doc (AMap m) = (distinct (map fst m) \<and> (\<forall>kv \<in> set m. fst kv \<noteq> [] \<and> CHR ''.'' \<notin> set (fst kv) \<and> plain_doc (snd kv)))"
| "plain_doc _ = True"

abbreviation dotted :: "string list \<Rightarrow> string" where "dotted \<equiv> join_with CHR ''.''"

definition chartable :: "HassCodec \<Rightarrow> string list \<Rightarrow> Any \<Rightarrow> bool" where
  "chartable cd ks doc \<longleftrightarrow> (case json_at ks doc of None \<Rightarrow> False | Some v \<Rightarrow> leaf_number cd v \<noteq> None)"

lemma dotted_Nil: "(\<forall>k \<in> set ps. k \<noteq> []) \<Longrightarrow> dotted ps = [] \<longleftrightarrow> ps = []"
  by (cases ps; cases "tl ps") auto

lemma dotted_append: "ps \<noteq> [] \<Longrightarrow> ks \<noteq> [] \<Longrightarrow> dotted (ps @ ks) = dotted ps @ ''.'' @ dotted ks"
proof (induction ps)
  case (Cons p ps)
  then show ?case by (cases "ps = []") (simp_all add: join_with_Cons)
qed simp

lemma dotted_snoc: "(\<forall>k \<in> set ps. k \<noteq> []) \<Longrightarrow> (if dotted ps \<noteq> [] then dotted ps @ ''.'' @ k else k) = dotted (ps @ [k])"
  by (cases "ps = []") (simp_all add: dotted_Nil dotted_append)

lemma chartable_Nil: "chartable cd [] v \<longleftrightarrow> leaf_number cd v \<noteq> None"
  by (simp add: chartable_def)

lemma chartable_Cons:
  "chartable cd (k # ks) v \<longleftrightarrow> (\<exists>m w. v = AMap m \<and> map_of m k = Some w \<and> chartable cd ks w)"
  by (cases v) (auto simp: chartable_def split: option.splits)

definition member_paths :: "HassCodec \<Rightarrow> nat \<Rightarrow> string \<Rightarrow> Any \<Rightarrow> string list" where
  "member_paths cd d path v =
     (case v of AMap _ \<Rightarrow> walkNumericPaths cd (d + 1) path v | _ \<Rightarrow> if leaf_number cd v \<noteq> None then [path] else [])"

lemma walk_members_paths:
  "set (walk_members cd d pfx m) =
     (\<Union>(k, v) \<in> set m. set (member_paths cd d (if pfx \<noteq> [] then pfx @ ''.'' @ k else k) v))"
proof (induction m)
  case (Cons kv m)
  obtain k v where "kv = (k, v)" by fastforce
  with Cons show ?case
    by (cases v) (simp_all add: member_paths_def numericValue_def leaf_number_def del: walkNumericPaths.simps)
qed simp

lemma walk_finds:
  "(\<forall>k \<in> set ps. k \<noteq> []) \<Longrightarrow> plain_doc doc \<Longrightarrow>
     f \<in> set (walkNumericPaths cd d (dotted ps) doc) \<longleftrightarrow>
     (\<exists>ks. f = dotted (ps @ ks) \<and> ks \<noteq> [] \<and> d + length ks \<le> Suc walk_depth \<and> chartable cd ks doc)"
proof (induction "Suc walk_depth - d" arbitrary: d ps doc)
  case 0
  then show ?case by (auto simp: neq_Nil_conv)
next
  case (Suc n)
  have member: "f \<in> set (member_paths cd d (dotted (ps @ [k])) v) \<longleftrightarrow>
      (\<exists>ks. f = dotted (ps @ k # ks) \<and> Suc (d + length ks) \<le> Suc walk_depth \<and> chartable cd ks v)"
    if "k \<noteq> []" "plain_doc v" for k v
  proof (cases "\<exists>m. v = AMap m")
    case True
    then have "f \<in> set (member_paths cd d (dotted (ps @ [k])) v) \<longleftrightarrow>
        f \<in> set (walkNumericPaths cd (Suc d) (dotted (ps @ [k])) v)"
      by (auto simp: member_paths_def)
    also have "\<dots> \<longleftrightarrow> (\<exists>ks. f = dotted ((ps @ [k]) @ ks) \<and> ks \<noteq> [] \<and> Suc d + length ks \<le> Suc walk_depth \<and> chartable cd ks v)"
      using Suc(1) [of "Suc d" "ps @ [k]" v] Suc(2,3) that by simp
    also have "\<dots> \<longleftrightarrow> (\<exists>ks. f = dotted (ps @ k # ks) \<and> Suc (d + length ks) \<le> Suc walk_depth \<and> chartable cd ks v)"
      using True by (auto simp: chartable_Nil leaf_number_def)
    finally show ?thesis .
  next
    case False
    then have "chartable cd ks v \<longleftrightarrow> ks = [] \<and> leaf_number cd v \<noteq> None" for ks
      by (cases ks) (auto simp: chartable_Nil chartable_Cons)
    moreover have "set (member_paths cd d p v) = (if leaf_number cd v \<noteq> None then {p} else {})" for p
      using False by (cases v) (simp_all add: member_paths_def)
    ultimately show ?thesis using Suc(2) by auto
  qed
  show ?case
  proof (cases "\<exists>m. doc = AMap m")
    case True
    then obtain m where m: "doc = AMap m" by blast
    have keys: "k \<noteq> []" "plain_doc v" if "(k, v) \<in> set m" for k v
      using Suc(4) that m by auto
    have "map_of m k = Some v \<longleftrightarrow> (k, v) \<in> set m" for k v
      using Suc(4) m by simp
    then have chart: "chartable cd ks doc \<longleftrightarrow> (if ks = [] then False else \<exists>v. (hd ks, v) \<in> set m \<and> chartable cd (tl ks) v)" for ks
      unfolding m by (cases ks) (auto simp: chartable_Cons chartable_Nil leaf_number_def)
    have "f \<in> set (walkNumericPaths cd d (dotted ps) doc) \<longleftrightarrow>
        (\<exists>k v. (k, v) \<in> set m \<and> f \<in> set (member_paths cd d (dotted (ps @ [k])) v))"
    proof -
      have "\<not> walk_depth < d" using Suc(2) by linarith
      then show ?thesis
        using dotted_snoc [OF Suc(3)] unfolding m by (simp add: walk_members_paths Bex_def split_paired_Ex)
    qed
    also have "\<dots> \<longleftrightarrow> (\<exists>k v ks. (k, v) \<in> set m \<and> f = dotted (ps @ k # ks) \<and>
        Suc (d + length ks) \<le> Suc walk_depth \<and> chartable cd ks v)"
      using member keys by blast
    also have "\<dots> \<longleftrightarrow> (\<exists>ks. f = dotted (ps @ ks) \<and> ks \<noteq> [] \<and> d + length ks \<le> Suc walk_depth \<and> chartable cd ks doc)"
    proof
      assume "\<exists>k v ks. (k, v) \<in> set m \<and> f = dotted (ps @ k # ks) \<and>
        Suc (d + length ks) \<le> Suc walk_depth \<and> chartable cd ks v"
      then obtain k v ks where "(k, v) \<in> set m" "f = dotted (ps @ k # ks)" "Suc (d + length ks) \<le> Suc walk_depth" "chartable cd ks v"
        by blast
      then show "\<exists>ks. f = dotted (ps @ ks) \<and> ks \<noteq> [] \<and> d + length ks \<le> Suc walk_depth \<and> chartable cd ks doc"
        by (intro exI [of _ "k # ks"]) (auto simp: chart)
    next
      assume "\<exists>ks. f = dotted (ps @ ks) \<and> ks \<noteq> [] \<and> d + length ks \<le> Suc walk_depth \<and> chartable cd ks doc"
      then obtain k ks where "f = dotted (ps @ k # ks)" "d + length (k # ks) \<le> Suc walk_depth" "chartable cd (k # ks) doc"
        by (metis neq_Nil_conv)
      then show "\<exists>k v ks. (k, v) \<in> set m \<and> f = dotted (ps @ k # ks) \<and>
        Suc (d + length ks) \<le> Suc walk_depth \<and> chartable cd ks v"
        by (auto simp: chart)
    qed
    finally show ?thesis .
  next
    case False
    then have "walkNumericPaths cd d (dotted ps) doc = []" by (cases doc) simp_all
    with False show ?thesis by (cases doc) (auto simp: neq_Nil_conv chartable_Cons)
  qed
qed

lemma chartable_keys: "k \<in> set ks \<Longrightarrow> chartable cd ks doc \<Longrightarrow> plain_doc doc \<Longrightarrow> k \<noteq> [] \<and> CHR ''.'' \<notin> set k"
proof (induction ks arbitrary: doc)
  case (Cons a ks)
  then obtain m w where m: "doc = AMap m" "map_of m a = Some w" "chartable cd ks w"
    by (auto simp: chartable_Cons)
  then have "(a, w) \<in> set m" by (blast dest: map_of_SomeD)
  with Cons.prems(3) m(1) have "a \<noteq> []" "CHR ''.'' \<notin> set a" "plain_doc w" by auto
  with Cons.prems(1) Cons.IH [OF _ m(3)] show ?case by auto
qed simp

text \<open>
  The fields offered for a chart of a topic are the ones a chart can be made of. For a payload that is a
  document whose keys are nonempty and have no dot in them, a path is offered exactly when it has at most
  seven parts and reading the payload at it gives a number.
\<close>

theorem fields_are_chartable:
  assumes "hass_parse cd payload = Some doc" "plain_doc doc"
    and "api_parseNumber cd (trim_space (string_of_bytes payload)) = None"
  shows "field \<in> set (collectNumericPaths cd payload) \<longleftrightarrow>
    field \<noteq> [] \<and> length (split_on CHR ''.'' field) \<le> 7 \<and> numericAt cd payload field \<noteq> None"
proof -
  have "field \<in> set (collectNumericPaths cd payload) \<longleftrightarrow> field \<in> set (walkNumericPaths cd 0 (dotted []) doc)"
    using assms(1,3) by (simp add: collectNumericPaths_def del: walkNumericPaths.simps)
  also have "\<dots> \<longleftrightarrow> (\<exists>ks. field = dotted ks \<and> ks \<noteq> [] \<and> length ks \<le> Suc walk_depth \<and> chartable cd ks doc)"
    using walk_finds [of "[]" doc field cd 0] assms(2) by (simp del: walkNumericPaths.simps)
  also have "\<dots> \<longleftrightarrow> field \<noteq> [] \<and> length (split_on CHR ''.'' field) \<le> 7 \<and> chartable cd (split_on CHR ''.'' field) doc"
  proof
    assume "\<exists>ks. field = dotted ks \<and> ks \<noteq> [] \<and> length ks \<le> Suc walk_depth \<and> chartable cd ks doc"
    then obtain ks where ks: "field = dotted ks" "ks \<noteq> []" "length ks \<le> Suc walk_depth" "chartable cd ks doc" by blast
    have plain: "k \<noteq> [] \<and> CHR ''.'' \<notin> set k" if "k \<in> set ks" for k
      using that ks(4) assms(2) by (rule chartable_keys)
    then have "split_on CHR ''.'' field = ks" "field \<noteq> []"
      using ks(1,2) by (auto simp: split_join dotted_Nil)
    with ks show "field \<noteq> [] \<and> length (split_on CHR ''.'' field) \<le> 7 \<and> chartable cd (split_on CHR ''.'' field) doc"
      by (simp add: walk_depth_def)
  next
    assume "field \<noteq> [] \<and> length (split_on CHR ''.'' field) \<le> 7 \<and> chartable cd (split_on CHR ''.'' field) doc"
    then show "\<exists>ks. field = dotted ks \<and> ks \<noteq> [] \<and> length ks \<le> Suc walk_depth \<and> chartable cd ks doc"
      by (intro exI [of _ "split_on CHR ''.'' field"]) (simp add: walk_depth_def)
  qed
  also have "\<dots> \<longleftrightarrow> field \<noteq> [] \<and> length (split_on CHR ''.'' field) \<le> 7 \<and> numericAt cd payload field \<noteq> None"
    using assms(1) by (auto simp: numericAt_def chartable_def split: option.splits)
  finally show ?thesis .
qed

definition ex_api_codec :: HassCodec where
  "ex_api_codec =
     \<lparr>cd_parse = (\<lambda>b. if b = [1] then Some (JObj [(''a'', JObj [(''b'', JBool True)]), (''n'', JNull)])
                   else if b = [2] then Some (JObj [(''a.b'', JBool True)]) else None),
      cd_float = (\<lambda>_. None), cd_text = (\<lambda>_. []), cd_fixed = (\<lambda>_. []), cd_trunc = (\<lambda>_. 0),
      hc_g = (\<lambda>_. []), hc_scan = (\<lambda>_. None), hc_parse = (\<lambda>_. None), hc_marshal = (\<lambda>_. []),
      hc_round = (\<lambda>_ f. f), hc_of_int = (\<lambda>_. 0)\<rparr>"

lemma ex_api_codec_text: "api_parseNumber ex_api_codec (trim_space (string_of_bytes [1])) = None"
  "api_parseNumber ex_api_codec (trim_space (string_of_bytes [2])) = None"
proof -
  have "word_upper (trim_space (trim_space (string_of_bytes [1]))) \<notin> {''ON'', ''TRUE'', ''OPEN'', ''OPENING'', ''OFF'', ''FALSE'', ''CLOSED'', ''CLOSING''}"
    "word_upper (trim_space (trim_space (string_of_bytes [2]))) \<notin> {''ON'', ''TRUE'', ''OPEN'', ''OPENING'', ''OFF'', ''FALSE'', ''CLOSED'', ''CLOSING''}"
    by code_simp+
  then show "api_parseNumber ex_api_codec (trim_space (string_of_bytes [1])) = None"
    "api_parseNumber ex_api_codec (trim_space (string_of_bytes [2])) = None"
    by (simp_all add: api_parseNumber_def ex_api_codec_def Let_def)
qed

theorem fields_are_chartable_witness: "''a.b'' \<in> set (collectNumericPaths ex_api_codec [1])"
proof -
  let ?doc = "AMap [(''a'', AMap [(''b'', ABool True)]), (''n'', ANull)]"
  have "hass_parse ex_api_codec [1] = Some ?doc"
    by (simp add: hass_parse_def ex_api_codec_def)
  moreover have "numericAt ex_api_codec [1] ''a.b'' \<noteq> None"
    by (simp add: numericAt_def hass_parse_def ex_api_codec_def leaf_number_def)
  ultimately show ?thesis
    using fields_are_chartable [of ex_api_codec "[1]" ?doc "''a.b''"] ex_api_codec_text(1) by simp
qed

text \<open>A key with a dot in it is offered as a field, and the chart made of that field has no points.\<close>

theorem dotted_key_offered_unreadable:
  "''a.b'' \<in> set (collectNumericPaths ex_api_codec [2]) \<and> numericAt ex_api_codec [2] ''a.b'' = None"
proof
  have doc: "hass_parse ex_api_codec [2] = Some (AMap [(''a.b'', ABool True)])"
    by (simp add: hass_parse_def ex_api_codec_def)
  then show "''a.b'' \<in> set (collectNumericPaths ex_api_codec [2])"
    using ex_api_codec_text(2) by (simp add: collectNumericPaths_def numericValue_def)
  show "numericAt ex_api_codec [2] ''a.b'' = None"
    using doc by (simp add: numericAt_def)
qed

section \<open>The series\<close>

definition in_window :: "time \<Rightarrow> Message \<Rightarrow> bool" where
  "in_window since m \<longleftrightarrow> since = 0 \<or> since \<le> msg_receivedAt m"

definition sample_of :: "HassCodec \<Rightarrow> string \<Rightarrow> Message \<Rightarrow> (time \<times> float64) option" where
  "sample_of cd field m = map_option (Pair (msg_receivedAt m)) (numericAt cd (msg_payload m) field)"

lemma series_loop_window:
  "series_loop cd field since ms (points, skipped) =
     (points @ List.map_filter (sample_of cd field) (filter (in_window since) ms),
      skipped + length (filter (\<lambda>m. numericAt cd (msg_payload m) field = None) (filter (in_window since) ms)))"
  by (induction ms arbitrary: points skipped)
    (auto simp: in_window_def sample_of_def map_filter_simps split: option.splits)

lemma number_is_finite: "api_parseNumber cd t = Some v \<Longrightarrow> \<not> float_nan v \<and> \<not> float_inf v"
proof -
  have "\<not> float_nan float_one" "\<not> float_inf float_one" "\<not> float_nan 0" "\<not> float_inf 0"
    by (simp_all add: float_nan_def float_inf_def float_one_def)
  then show "api_parseNumber cd t = Some v \<Longrightarrow> ?thesis"
    by (auto simp: api_parseNumber_def api_finite_def Let_def split: option.splits if_splits)
qed

end
