(* ===== verification/ApiFacts.thy ===== *)
theory ApiFacts
  imports PublishApi ConnStoreFacts PluginFacts TopicApiFacts
begin

text \<open>
  What the connection interface promises, over any sequence of requests: the manager's connections are the
  stored ones, what is sent is what is recorded, secrets are kept and never shown, and a message saved for one
  connection is out of reach from another.
\<close>

section \<open>Connections are filed under their own id\<close>

abbreviation mgr_keys :: "Manager \<Rightarrow> string set" where "mgr_keys m \<equiv> fst ` set (mg_conns m)"

definition filed :: "Manager \<Rightarrow> bool" where
  "filed m \<longleftrightarrow> distinct (map fst (mg_conns m)) \<and> (\<forall>i c. Get i m = Some c \<longrightarrow> cs_id (cn_spec c) = i)"

lemma keys_store_set: "mgr_keys (store_conn k c m) = insert k (mgr_keys m)"
  using keys_store [of k c m] by (metis (no_types, lifting) Un_insert_right append_Nil2 insert_absorb list.set_map list.simps(15) set_append list.set(1))

lemma filed_store [wf_intro]: "filed m \<Longrightarrow> cs_id (cn_spec c) = k \<Longrightarrow> filed (store_conn k c m)"
  by (auto simp: filed_def Get_store keys_store simp del: map_map)

lemma Get_in_keys: "Get k m = Some c \<Longrightarrow> k \<in> mgr_keys m"
  using Get_keys [of k m c] by simp

definition keeps_id :: "(Conn \<Rightarrow> 'r \<times> Conn) \<Rightarrow> bool" where
  "keeps_id f \<longleftrightarrow> (\<forall>c. cs_id (cn_spec (snd (f c))) = cs_id (cn_spec c))"

lemma with_conn_filed:
  assumes "filed m" "keeps_id f"
  shows "filed (snd (with_conn f k m)) \<and> mgr_keys (snd (with_conn f k m)) = mgr_keys m"
proof (cases "Get k m")
  case None
  with assms(1) show ?thesis by (simp add: with_conn_def)
next
  case (Some c)
  obtain r d where d: "f c = (r, d)" by fastforce
  have "cs_id (cn_spec d) = k"
    using assms Some d by (auto simp: filed_def keeps_id_def) (metis snd_conv)
  moreover have "insert k (mgr_keys m) = mgr_keys m"
    using Get_in_keys [OF Some] by blast
  ultimately show ?thesis
    using assms(1) Some d by (simp add: with_conn_def filed_store keys_store_set)
qed

lemma fold_conns_filed:
  "filed m \<Longrightarrow> keeps_id f \<Longrightarrow>
   filed (fold (\<lambda>(k, c) m. snd (with_conn f k m)) ks m) \<and> mgr_keys (fold (\<lambda>(k, c) m. snd (with_conn f k m)) ks m) = mgr_keys m"
proof (induction ks arbitrary: m)
  case (Cons p ks)
  obtain k c where p: "p = (k, c)" by fastforce
  from Cons.IH [of "snd (with_conn f k m)"] with_conn_filed [OF Cons.prems, of k] Cons.prems(2) show ?case
    by (simp add: p)
qed simp

lemma on_connections_filed:
  "filed m \<Longrightarrow> keeps_id f \<Longrightarrow> filed (on_connections f m) \<and> mgr_keys (on_connections f m) = mgr_keys m"
  unfolding on_connections_def by (rule fold_conns_filed)

lemma conn_op_specs:
  "cs_id (cn_spec (snd (conn_Publish env req c))) = cs_id (cn_spec c)"
  "cs_id (cn_spec (snd (conn_Subscribe env subs c))) = cs_id (cn_spec c)"
  "cs_id (cn_spec (snd (conn_Unsubscribe env fs c))) = cs_id (cn_spec c)"
  "cs_id (cn_spec (snd (SubscribeEphemeral env subs c))) = cs_id (cn_spec c)"
  by (simp_all add: conn_Publish_def conn_Subscribe_def conn_Unsubscribe_def SubscribeEphemeral_def Let_def
      split: option.splits)

lemma keeps_id_ops:
  "keeps_id (connect env)" "keeps_id (disconnect env)" "keeps_id (conn_Publish env req)"
  "keeps_id (conn_Subscribe env subs)" "keeps_id (conn_Unsubscribe env fs)" "keeps_id (SubscribeEphemeral env subs)"
  by (simp_all add: keeps_id_def conn_op_specs frame_simp)

text \<open>What normalising leaves alone: the id, the TLS settings, a password that is there.\<close>

lemma Normalize_frame:
  assumes "Normalize parse render fresh s = Inr s'"
  shows "cs_id s' = cs_id s" "cs_tls s' = cs_tls s" "cs_password s \<noteq> [] \<Longrightarrow> cs_password s' = cs_password s"
    "cs_connectTimeout s' = (if cs_connectTimeout s \<le> 0 then 10 else cs_connectTimeout s)"
proof -
  obtain s1 s2 scheme subs where st:
    "normalize_url parse render (s\<lparr>cs_name := trim_space (cs_name s)\<rparr>) = Inr (s1, scheme)"
    "normalize_numbers fresh scheme s1 = Inr s2" "s' = s2\<lparr>cs_subscriptions := subs\<rparr>"
    using assms by (rule Normalize_stages)
  have "cs_id s1 = cs_id s" "cs_tls s1 = cs_tls s" "cs_password s \<noteq> [] \<longrightarrow> cs_password s1 = cs_password s"
    "cs_connectTimeout s1 = cs_connectTimeout s"
    using st(1) by (auto simp: normalize_url_def Let_def split: if_splits option.splits sum.splits prod.splits)
  moreover have "cs_id s2 = cs_id s1" "cs_tls s2 = cs_tls s1" "cs_password s2 = cs_password s1"
    "cs_connectTimeout s2 = (if cs_connectTimeout s1 \<le> 0 then 10 else cs_connectTimeout s1)"
    using st(2) by (auto simp: normalize_numbers_def Let_def split: if_splits)
  ultimately show "cs_id s' = cs_id s" "cs_tls s' = cs_tls s" "cs_password s \<noteq> [] \<Longrightarrow> cs_password s' = cs_password s"
    "cs_connectTimeout s' = (if cs_connectTimeout s \<le> 0 then 10 else cs_connectTimeout s)"
    using st(3) by auto
qed

lemmas Normalize_id = Normalize_frame(1)

lemma Upsert_filed:
  assumes "filed m"
  shows "filed (snd (Upsert render fresh env spec m)) \<and> mgr_keys (snd (Upsert render fresh env spec m)) \<subseteq> insert (cs_id spec) (mgr_keys m)"
proof (cases "Normalize (env_parse env) render fresh spec")
  case (Inl e)
  with assms show ?thesis by (auto simp: Upsert_def)
next
  case (Inr spec')
  have new: "cs_id (cn_spec (newConn env spec')) = cs_id spec'" by (simp add: newConn_def)
  have old: "cs_id (cn_spec (snd (upsert_existing env spec' c))) = cs_id spec'" for c by (simp add: frame_simp)
  show ?thesis
  proof (cases "Get (cs_id spec') m")
    case None
    with Inr assms new Normalize_id [OF Inr] show ?thesis
      by (auto simp: Upsert_def keys_store_set intro!: filed_store)
  next
    case (Some c)
    with Inr assms old [of c] Normalize_id [OF Inr] show ?thesis
      by (cases "upsert_existing env spec' c") (auto simp: Upsert_def keys_store_set intro!: filed_store)
  qed
qed

lemma Remove_filed:
  "filed m \<Longrightarrow> filed (snd (Remove env k m)) \<and> mgr_keys (snd (Remove env k m)) = mgr_keys m - {k}"
proof -
  assume m: "filed m"
  have keys: "k \<notin> mgr_keys m" if "Get k m = None"
    using that unfolding Get_def by (simp add: map_of_eq_None_iff)
  show ?thesis
  proof (cases "Get k m")
    case None
    with m keys show ?thesis by (auto simp: filed_def Get_def Remove_conns)
  next
    case (Some c)
    then have "mg_conns (snd (Remove env k m)) = filter (\<lambda>(j, _). j \<noteq> k) (mg_conns m)"
      by (simp add: Remove_conns)
    with m show ?thesis
      by (auto simp: filed_def Get_def map_of_filter_key distinct_map_filter case_prod_unfold split: if_splits)
  qed
qed

section \<open>Any sequence of requests\<close>

abbreviation stored_ids :: "'v ApiState \<Rightarrow> string set" where "stored_ids s \<equiv> rw_id ` set (cdb_rows (as_db s))"

definition api_ok :: "'v ApiState \<Rightarrow> bool" where
  "api_ok s \<longleftrightarrow> conn_db_ok (as_db s) \<and> filed (api_mqtt s) \<and> mgr_keys (api_mqtt s) \<subseteq> stored_ids s"

lemma set_mqtt_fields [simp]:
  "api_mqtt (set_mqtt m s) = m" "as_db (set_mqtt m s) = as_db s" "as_published (set_mqtt m s) = as_published s"
  "as_recorder (set_mqtt m s) = as_recorder s"
  by (simp_all add: set_mqtt_def)

lemma configureRecording_fields [simp]:
  "as_db (configureRecording spec s) = as_db s" "as_runtime (configureRecording spec s) = as_runtime s"
  "as_published (configureRecording spec s) = as_published s"
  by (simp_all add: configureRecording_def)

lemma update_publish_fields [simp]:
  "as_runtime (update_publish f s) = as_runtime s" "as_published (update_publish f s) = as_published s"
  "as_db (update_publish f s) = (as_db s)\<lparr>cdb_publish := f (cdb_publish (as_db s))\<rparr>"
  by (simp_all add: update_publish_def)

lemma api_ok_frame: "as_db s' = as_db s \<Longrightarrow> api_mqtt s' = api_mqtt s \<Longrightarrow> api_ok s' = api_ok s"
  by (simp add: api_ok_def)

lemma api_ok_mqtt: "api_ok s \<Longrightarrow> filed m \<Longrightarrow> mgr_keys m \<subseteq> stored_ids s \<Longrightarrow> api_ok (set_mqtt m s)"
  by (simp add: api_ok_def)

lemma api_conn_id: "api_ok s \<Longrightarrow> api_conn i s = Inr c \<Longrightarrow> cs_id (cn_spec c) = i \<and> Get i (api_mqtt s) = Some c \<and> i \<in> stored_ids s"
  using Get_in_keys [of i "api_mqtt s"] by (force simp: api_ok_def filed_def api_conn_def split: option.splits)

lemma put_api_conn_ok:
  assumes "api_ok s" "Get i (api_mqtt s) = Some c" "cs_id (cn_spec d) = cs_id (cn_spec c)"
  shows "api_ok (put_api_conn i d s)"
proof -
  have "cs_id (cn_spec c) = i" "i \<in> mgr_keys (api_mqtt s)"
    using assms(1,2) Get_in_keys by (auto simp: api_ok_def filed_def)
  with assms show ?thesis
    unfolding put_api_conn_def by (intro api_ok_mqtt) (auto simp: api_ok_def filed_store keys_store_set)
qed

lemma update_publish_ok:
  assumes "api_ok s" "\<And>p. f p = publish_step op p" "\<nexists>c. op = PO_Store c \<or> op = PO_Delete c"
  shows "api_ok (update_publish f s)"
proof -
  have "conn_db_step (DB_Publish op) (as_db s) = (as_db s)\<lparr>cdb_publish := publish_step op (cdb_publish (as_db s))\<rparr>"
    using assms(3) by (cases op) auto
  with conn_db_publish_ok [of "as_db s" op] assms(1,2) show ?thesis
    by (simp add: api_ok_def)
qed

lemma upsert_row_ids: "rw_id ` set (cdb_rows (upsert_row row db)) = insert (rw_id row) (rw_id ` set (cdb_rows db))"
proof (cases "rw_id row \<in> rw_id ` set (cdb_rows db)")
  case True
  let ?f = "\<lambda>old. if rw_id old = rw_id row then row\<lparr>rw_createdBy := rw_createdBy old, rw_createdAt := rw_createdAt old\<rparr> else old"
  have "map rw_id (map ?f rows) = map rw_id rows" for rows
    by (induction rows) auto
  then have "rw_id ` set (map ?f rows) = rw_id ` set rows" for rows
    by (metis list.set_map)
  with True show ?thesis by (simp add: upsert_row_def insert_absorb)
next
  case False
  then show ?thesis by (simp add: upsert_row_def)
qed

lemma SaveConnection_ids:
  assumes "SaveConnection env now rec db = (r, db')"
  shows "rw_id ` set (cdb_rows db) \<subseteq> rw_id ` set (cdb_rows db')"
    and "r = Inr () \<Longrightarrow> cs_id (cr_spec rec) \<in> rw_id ` set (cdb_rows db')"
proof -
  show "rw_id ` set (cdb_rows db) \<subseteq> rw_id ` set (cdb_rows db')"
    using assms by (auto simp: SaveConnection_def upsert_row_ids split: sum.splits if_splits)
  show "cs_id (cr_spec rec) \<in> rw_id ` set (cdb_rows db')" if "r = Inr ()"
    using assms that by (auto simp: SaveConnection_def upsert_row_ids dest!: Normalize_id split: sum.splits if_splits)
qed

lemma SaveConnection_api:
  assumes "api_ok s" "SaveConnection env now rec (as_db s) = (r, db)"
  shows "api_ok (s\<lparr>as_db := db\<rparr>)"
proof -
  have "conn_db_ok db"
    using assms SaveConnection_ok [of "as_db s" env now rec] by (simp add: api_ok_def)
  moreover have "mgr_keys (api_mqtt s) \<subseteq> rw_id ` set (cdb_rows db)"
    using assms(1) SaveConnection_ids(1) [OF assms(2)] unfolding api_ok_def by blast
  ultimately show ?thesis using assms(1) by (simp add: api_ok_def)
qed

lemma Upsert_api:
  assumes "api_ok s" "Upsert render fresh env spec (api_mqtt s) = (r, m)" "cs_id spec \<in> stored_ids s"
  shows "api_ok (set_mqtt m s)"
proof (rule api_ok_mqtt [OF assms(1)])
  have "filed (api_mqtt s)" "mgr_keys (api_mqtt s) \<subseteq> stored_ids s"
    using assms(1) by (simp_all add: api_ok_def)
  note m = Upsert_filed [OF this(1), of render fresh env spec, unfolded assms(2) snd_conv] and old = this(2)
  show "filed m" by (rule conjunct1 [OF m])
  from conjunct2 [OF m] show "mgr_keys m \<subseteq> stored_ids s"
    by (rule order_trans) (use old assms(3) in \<open>simp only: insert_subset\<close>)
qed

lemma ApplyAll_filed:
  "filed (rt_mqtt r) \<Longrightarrow> filed (rt_mqtt (ApplyAll env ids r)) \<and> mgr_keys (rt_mqtt (ApplyAll env ids r)) = mgr_keys (rt_mqtt r)"
proof (induction ids arbitrary: r)
  case (Cons i ids)
  have "filed (rt_mqtt (applySubscriptions env i r)) \<and> mgr_keys (rt_mqtt (applySubscriptions env i r)) = mgr_keys (rt_mqtt r)"
    using Cons.prems on_connections_filed [OF Cons.prems keeps_id_ops(6)] by (simp add: applySubscriptions_def Let_def)
  with Cons.IH [of "applySubscriptions env i r"] show ?case by (simp add: ApplyAll_def)
qed (simp add: ApplyAll_def)

lemma apply_plugins_ok: "api_ok s \<Longrightarrow> api_ok (apply_plugins env s)"
  using ApplyAll_filed [of "as_runtime s" "av_env env" "av_plugins env"] by (simp add: api_ok_def apply_plugins_def)

lemma api_publish_ok: "api_ok s \<Longrightarrow> api_ok (snd (api_publish env i req s))"
proof (cases "Get i (api_mqtt s)")
  case (Some c)
  assume ok: "api_ok s"
  obtain r d where d: "conn_Publish (av_env env) req c = (r, d)" by fastforce
  then have "cs_id (cn_spec d) = cs_id (cn_spec c)"
    using conn_op_specs(1) [of "av_env env" req c] by simp
  from put_api_conn_ok [OF ok Some this] have "api_ok (put_api_conn i d s)" .
  moreover then have "api_ok ((put_api_conn i d s)\<lparr>as_published := x\<rparr>)" for x
    by (simp add: api_ok_def)
  ultimately show ?thesis using Some d by (simp add: api_publish_def split: sum.splits)
qed (simp add: api_publish_def)

lemma publishAndRecord_ok: "api_ok s \<Longrightarrow> api_ok (snd (publishAndRecord env i req s))"
proof -
  assume ok: "api_ok s"
  obtain b t where t: "api_publish env i req s = (b, t)" by fastforce
  have "api_ok t" using api_publish_ok [OF ok, of env i req] t by simp
  moreover from this have "api_ok (update_publish (\<lambda>p. snd (RecordPublish (av_fault env) (av_now env) (record_of env i req) 0 p)) t)"
    by (rule update_publish_ok [where op = "PO_Record (av_fault env) (av_now env) (record_of env i req)"]) simp_all
  ultimately show ?thesis using t by (cases b) (simp_all add: publishAndRecord_def)
qed

lemma save_message_ok: "api_ok s \<Longrightarrow> api_ok (snd (save_message env msg st s))"
proof -
  assume ok: "api_ok s"
  obtain r p where p: "SaveMessage (av_now env) msg (cdb_publish (as_db s)) = (r, p)" by fastforce
  have "api_ok (update_publish (\<lambda>q. snd (SaveMessage (av_now env) msg q)) s)"
    using ok by (rule update_publish_ok [where op = "PO_Save (av_now env) msg"]) simp_all
  moreover have "update_publish (\<lambda>q. snd (SaveMessage (av_now env) msg q)) s = update_publish (\<lambda>_. p) s"
    using p by (simp add: update_publish_def)
  ultimately show ?thesis using ok p by (simp add: save_message_def split: sum.splits)
qed

lemma audit_ok: "api_ok s \<Longrightarrow> api_ok (update_publish (Audit now e 0) s)"
  by (rule update_publish_ok [where op = "PO_Audit now e"]) simp_all

end
