(* ===== verification/ApiRuns.thy ===== *)
theory ApiRuns
  imports ApiFacts
begin

text \<open>
  Any sequence of requests to the connection interface, of connects left to the background and of what the
  network does to the connections: the handlers one by one keep the manager and the database together, so every
  state the server can get into does.
\<close>

section \<open>Handlers\<close>

lemma api_ok_frames [simp]:
  "api_ok (configureRecording spec s) = api_ok s" "api_ok (s\<lparr>as_background := b\<rparr>) = api_ok s"
  "api_ok (s\<lparr>as_recorder := r\<rparr>) = api_ok s" "api_ok (s\<lparr>as_published := p\<rparr>) = api_ok s"
  by (simp_all add: api_ok_def)

lemma save_upsert_ok:
  assumes "api_ok s" "SaveConnection env now rec (as_db s) = (Inr u, db)" "cs_id spec = cs_id (cr_spec rec)"
    "Upsert render fresh e spec (api_mqtt s) = (r, m)"
  shows "api_ok (set_mqtt m (s\<lparr>as_db := db\<rparr>))"
proof (rule Upsert_api)
  show "api_ok (s\<lparr>as_db := db\<rparr>)" using assms(1,2) by (rule SaveConnection_api)
  show "cs_id spec \<in> stored_ids (s\<lparr>as_db := db\<rparr>)"
    using SaveConnection_ids(2) [OF assms(2)] assms(3) by simp
  show "Upsert render fresh e spec (api_mqtt (s\<lparr>as_db := db\<rparr>)) = (r, m)" using assms(4) by simp
qed

lemma handleCreate_ok: "api_ok s \<Longrightarrow> api_ok (snd (handleCreateConnection env req s))"
  using save_upsert_ok [of s "av_store env" "av_now env"]
  by (auto simp: handleCreateConnection_def Let_def split: option.splits sum.splits prod.splits)

lemma handleUpdate_ok: "api_ok s \<Longrightarrow> api_ok (snd (handleUpdateConnection env i req s))"
  using save_upsert_ok [of s "av_store env" "av_now env"]
  by (auto simp: handleUpdateConnection_def Let_def split: option.splits sum.splits prod.splits if_splits)

lemma DeleteConnection_ids: "rw_id ` set (cdb_rows (snd (DeleteConnection i db))) = rw_id ` set (cdb_rows db) - {i}"
  by (auto simp: DeleteConnection_def)

lemma handleDelete_ok:
  assumes ok: "api_ok s"
  shows "api_ok (snd (handleDeleteConnection env i s))"
proof -
  obtain r m where m: "Remove (av_env env) i (api_mqtt s) = (r, m)" by fastforce
  have man: "filed m" "mgr_keys m = mgr_keys (api_mqtt s) - {i}"
    using Remove_filed [of "api_mqtt s" "av_env env" i] ok m by (simp_all add: api_ok_def)
  obtain e db where del: "DeleteConnection i (as_db s) = (e, db)" by fastforce
  have "conn_db_ok db" "rw_id ` set (cdb_rows db) = stored_ids s - {i}"
    using DeleteConnection_ok [of "as_db s" i] DeleteConnection_ids [of i "as_db s"] ok del by (simp_all add: api_ok_def)
  moreover have old: "mgr_keys (api_mqtt s) \<subseteq> stored_ids s" "conn_db_ok (as_db s)"
    using ok by (simp_all add: api_ok_def)
  ultimately have "mgr_keys m \<subseteq> rw_id ` set (cdb_rows db)" "conn_db_ok db"
    unfolding man(2) by (simp_all only: Diff_mono order_refl)
  moreover have "mgr_keys m \<subseteq> stored_ids s"
    unfolding man(2) using old(1) by (rule subset_trans [OF Diff_subset])
  ultimately have "api_ok (set_mqtt m s)" "api_ok ((set_mqtt m s)\<lparr>as_db := db\<rparr>)"
    using man(1) old(2) by (simp_all add: api_ok_def)
  then have "api_ok (set_mqtt m (s\<lparr>as_recorder := b\<rparr>))" "api_ok ((set_mqtt m (s\<lparr>as_recorder := b\<rparr>))\<lparr>as_db := db\<rparr>)" for b
    by (simp_all add: api_ok_def)
  then show ?thesis
    by (simp add: handleDeleteConnection_def Let_def m del split: sum.splits)
qed

lemma with_conn_api:
  "api_ok s \<Longrightarrow> keeps_id f \<Longrightarrow> with_conn f k (api_mqtt s) = (r, m) \<Longrightarrow> api_ok (set_mqtt m s)"
  using with_conn_filed [of "api_mqtt s" f k] by (intro api_ok_mqtt) (simp_all add: api_ok_def)

lemma handleConnect_ok: "api_ok s \<Longrightarrow> api_ok (snd (handleConnect env i s))"
  using with_conn_api [OF _ keeps_id_ops(1), of s "av_env env"]
  by (auto simp: handleConnect_def mgr_Connect_def Let_def intro!: apply_plugins_ok
      split: sum.splits prod.splits)

lemma handleDisconnect_ok: "api_ok s \<Longrightarrow> api_ok (snd (handleDisconnect env i s))"
  using with_conn_api [OF _ keeps_id_ops(2), of s "av_env env"]
  by (auto simp: handleDisconnect_def mgr_Disconnect_def Let_def
      split: sum.splits prod.splits)

lemma connectInBackground_ok: "api_ok s \<Longrightarrow> api_ok (connectInBackground env i s)"
  using with_conn_api [of "s\<lparr>as_background := remove1 i (as_background s)\<rparr>" "connect (av_env env)" i]
  by (auto simp: connectInBackground_def mgr_Connect_def Let_def keeps_id_ops intro!: apply_plugins_ok
      split: sum.splits prod.splits)

lemma persistSubscriptions_ok: "api_ok s \<Longrightarrow> api_ok (persistSubscriptions env c s)"
  using SaveConnection_api [of s] by (auto simp: persistSubscriptions_def split: sum.splits prod.splits)

lemma change_subscriptions_ok:
  assumes "api_ok s" "keeps_id f"
  shows "api_ok (snd (change_subscriptions env f i s))"
proof (cases "api_conn i s")
  case (Inr c)
  obtain r d where d: "f c = (r, d)" by fastforce
  then have "cs_id (cn_spec d) = cs_id (cn_spec c)" using assms(2) by (simp add: keeps_id_def) (metis snd_conv)
  then have "api_ok (put_api_conn i d s)"
    using put_api_conn_ok [of s i c d] api_conn_id [OF assms(1) Inr] assms(1) by blast
  with Inr d show ?thesis by (simp add: change_subscriptions_def persistSubscriptions_ok split: sum.splits)
qed (simp add: change_subscriptions_def assms(1))

lemma handleSubscribe_ok: "api_ok s \<Longrightarrow> api_ok (snd (handleSubscribe env i req s))"
  by (simp add: handleSubscribe_def change_subscriptions_ok keeps_id_ops split: sum.splits option.splits)

lemma handleUnsubscribe_ok: "api_ok s \<Longrightarrow> api_ok (snd (handleUnsubscribe env i req s))"
  by (simp add: handleUnsubscribe_def change_subscriptions_ok keeps_id_ops split: sum.splits option.splits)

lemma handleClearState_ok: "api_ok s \<Longrightarrow> api_ok (snd (handleClearState i s))"
  using put_api_conn_ok [of s i _ "ClearState _"] api_conn_id [of s i]
  by (fastforce simp: handleClearState_def ClearState_def split: sum.splits)

lemma handleDeleteRecordings_ok:
  assumes ok: "api_ok s"
  shows "api_ok (snd (handleDeleteRecordings fmt parse env i s))"
proof -
  have "api_ok (s\<lparr>as_db := (as_db s)\<lparr>cdb_recorded := DeleteRecorded j (cdb_recorded (as_db s))\<rparr>\<rparr>)" for j
    using ok by (auto simp: api_ok_def conn_db_ok_def DeleteRecorded_def)
  then show ?thesis
    using ok by (auto simp: handleDeleteRecordings_def Let_def intro!: audit_ok split: sum.splits)
qed

lemma handleClearRetained_ok:
  assumes ok: "api_ok s"
  shows "api_ok (snd (handleClearRetained env i req s))"
proof -
  have "api_ok t" if "api_publish env j p s = (b, t)" for j p b t
    using api_publish_ok [OF ok, of env j p] that by simp
  with ok show ?thesis
    by (auto simp: handleClearRetained_def Let_def intro!: audit_ok split: sum.splits option.splits prod.splits bool.splits if_splits)
qed

lemma handleDeleteSaved_ok:
  assumes ok: "api_ok s"
  shows "api_ok (snd (handleDeleteSaved i m s))"
proof -
  have "update_publish (\<lambda>_. p) s = update_publish (\<lambda>q. snd (DeleteSavedMessage m q)) s"
    if "DeleteSavedMessage m (cdb_publish (as_db s)) = (r, p)" for r p
    using that by (simp add: update_publish_def)
  moreover have "api_ok (update_publish (\<lambda>q. snd (DeleteSavedMessage m q)) s)"
    using ok by (rule update_publish_ok [where op = "PO_Unsave m"]) simp_all
  ultimately show ?thesis
    using ok by (simp add: handleDeleteSaved_def split: sum.splits prod.splits)
qed

lemma handleClearHistory_ok: "api_ok s \<Longrightarrow> api_ok (snd (handleClearPublishHistory i s))"
  by (auto simp: handleClearPublishHistory_def split: sum.splits
      intro!: update_publish_ok [where op = "PO_Clear _"])

lemma route_handler_ok: "api_ok s \<Longrightarrow> api_ok (snd (route_handler fmt parse env q s))"
  by (cases q) (simp_all add: handleCreate_ok handleUpdate_ok handleDelete_ok handleConnect_ok handleDisconnect_ok
      handlePublish_def handleSubscribe_ok handleUnsubscribe_ok handleClearState_ok handleDeleteRecordings_ok
      handleClearRetained_ok handleClearHistory_ok handleRepublish_def handleCreateSaved_def handleUpdateSaved_def
      handleDeleteSaved_ok handlePublishSaved_def publishAndRecord_ok save_message_ok
      split: sum.splits option.splits prod.splits)

lemma serve_ok: "api_ok s \<Longrightarrow> api_ok (snd (serve fmt parse user env q s))"
  by (simp add: serve_def route_handler_ok split: option.splits)

section \<open>Runs\<close>

text \<open>
  A request, a connect that was left to the background, and whatever else befalls a connection: its library's
  callbacks, messages, what plugins do to it. Its definition is replaced by the handlers only.
\<close>

datatype api_event =
    EvServe "time \<Rightarrow> string" "string \<Rightarrow> time option" "User option" ApiEnv conn_request
  | EvBackground ApiEnv string | EvConn string conn_op

fun replaces_spec :: "conn_op \<Rightarrow> bool" where
  "replaces_spec (OpUpsert env spec) = True"
| "replaces_spec op = False"

fun server_step :: "api_event \<Rightarrow> 'v ApiState \<Rightarrow> 'v ApiState" where
  "server_step (EvServe fmt parse user env q) s = snd (serve fmt parse user env q s)"
| "server_step (EvBackground env i) s = connectInBackground env i s"
| "server_step (EvConn i op) s =
     (if replaces_spec op then s else set_mqtt (snd (with_conn (\<lambda>c. (Inr (), conn_step op c)) i (api_mqtt s))) s)"

definition api_run :: "api_event list \<Rightarrow> 'v ApiState \<Rightarrow> 'v ApiState" where
  "api_run evs s = fold server_step evs s"

lemma conn_step_id: "\<not> replaces_spec op \<Longrightarrow> cs_id (cn_spec (conn_step op c)) = cs_id (cn_spec c)"
  by (cases op) (simp_all add: conn_op_specs frame_simp ClearState_def handleMessage_def UnsubscribeEphemeral_def
      event_Down_def event_Up_def event_Error_def Let_def split: option.splits)

lemma server_step_ok: "api_ok s \<Longrightarrow> api_ok (server_step ev s)"
proof (cases ev)
  case (EvConn i op)
  assume ok: "api_ok s"
  show ?thesis
  proof (cases "replaces_spec op")
    case False
    then have "keeps_id (\<lambda>c. (Inr (), conn_step op c))" by (simp add: keeps_id_def conn_step_id)
    with with_conn_api [OF ok this] False EvConn show ?thesis by (simp add: prod_eq_iff)
  qed (use ok EvConn in simp)
qed (simp_all add: serve_ok connectInBackground_ok)

lemma api_run_ok: "api_ok s \<Longrightarrow> api_ok (api_run evs s)"
  unfolding api_run_def by (induction evs arbitrary: s) (simp_all add: server_step_ok)

end
