(* ===== verification/ApiClaims.thy ===== *)
theory ApiClaims
  imports ApiRuns
begin

text \<open>
  What the connection interface promises about messages and credentials: what is sent is what is recorded and can
  be sent again, a saved message of one connection is out of reach from another, only administrators add and
  remove connections, and credentials are kept and never shown.
\<close>

section \<open>What is sent\<close>

fun sends :: "conn_request \<Rightarrow> string option" where
  "sends (Rq_Publish i req) = Some i"
| "sends (Rq_Republish i n) = Some i"
| "sends (Rq_PublishSaved i m) = Some i"
| "sends q = None"

lemma put_api_conn_fields [simp]:
  "as_db (put_api_conn i c s) = as_db s" "as_published (put_api_conn i c s) = as_published s"
  by (simp_all add: put_api_conn_def)

lemma api_publish_True:
  assumes "api_ok s" "api_publish env i req s = (True, t)"
  shows "as_published t = as_published s @ [(i, req)]" "as_db t = as_db s" "i \<in> stored_ids s"
proof -
  obtain c d where c: "Get i (api_mqtt s) = Some c" "conn_Publish (av_env env) req c = (Inr (), d)"
    and t: "t = (put_api_conn i d s)\<lparr>as_published := as_published s @ [(cs_id (cn_spec d), req)]\<rparr>"
    using assms(2) by (auto simp: api_publish_def split: option.splits prod.splits sum.splits)
  have id: "cs_id (cn_spec d) = i"
    using conn_op_specs(1) [of "av_env env" req c] c assms(1) by (simp add: api_ok_def filed_def)
  from t id show "as_published t = as_published s @ [(i, req)]" "as_db t = as_db s" by simp_all
  from Get_in_keys [OF c(1)] assms(1) show "i \<in> stored_ids s" unfolding api_ok_def by blast
qed

definition noted :: "ApiEnv \<Rightarrow> string \<Rightarrow> PublishRequest \<Rightarrow> PublishStore \<Rightarrow> PublishRecord" where
  "noted env i req p = (recorded_as (av_now env) (record_of env i req))\<lparr>pbr_id := sto_nextPublish p\<rparr>"

lemma resend_noted [simp]:
  "resend (noted env i req p) = req\<lparr>pub_props := None\<rparr>" "pbr_userID (noted env i req p) = us_id (av_user env)"
  "pbr_username (noted env i req p) = us_email (av_user env)" "pbr_connectionID (noted env i req p) = i"
  by (simp_all add: noted_def recorded_as_def record_of_def resend_def)

lemma publishAndRecord_200:
  assumes ok: "api_ok s" and run: "publishAndRecord env i req s = (200, t)"
  shows "as_published t = as_published s @ [(i, req)]"
    and "av_fault env = None \<Longrightarrow> published_on i (cdb_publish (as_db t)) =
      last_n 500 (published_on i (cdb_publish (as_db s)) @ [noted env i req (cdb_publish (as_db s))])"
    and "av_fault env = Some e \<Longrightarrow> as_db t = as_db s"
    and "\<exists>t'. publishAndRecord (env\<lparr>av_fault := fault\<rparr>) i req s = (200, t') \<and> as_published t' = as_published t"
proof -
  obtain u where u: "api_publish env i req s = (True, u)"
    and t: "t = update_publish (\<lambda>p. snd (RecordPublish (av_fault env) (av_now env) (record_of env i req) 0 p)) u"
    using run by (auto simp: publishAndRecord_def split: prod.splits bool.splits)
  note sent = api_publish_True [OF ok u]
  then show "as_published t = as_published s @ [(i, req)]" by (simp add: t)
  have "publishes_ok (cdb_publish (as_db s))" "set (sto_connections (cdb_publish (as_db s))) = stored_ids s"
    using ok by (simp_all add: api_ok_def conn_db_ok_def)
  with RecordPublish_published [of "cdb_publish (as_db s)" "record_of env i req" i "av_now env"] sent(3)
  show "published_on i (cdb_publish (as_db t)) =
      last_n 500 (published_on i (cdb_publish (as_db s)) @ [noted env i req (cdb_publish (as_db s))])"
    if "av_fault env = None"
    using that by (simp add: t sent(2) record_of_def noted_def)
  show "as_db t = as_db s" if "av_fault env = Some e"
    using that by (simp add: t sent(2) update_publish_def)
  have "api_publish (env\<lparr>av_fault := fault\<rparr>) i req s = (True, u)"
    using u by (simp add: api_publish_def split: option.splits)
  then show "\<exists>t'. publishAndRecord (env\<lparr>av_fault := fault\<rparr>) i req s = (200, t') \<and> as_published t' = as_published t"
    by (simp add: publishAndRecord_def t)
qed

lemma PublishHistory_newest:
  "published_on i p = last_n 500 (xs @ [r]) \<Longrightarrow> \<exists>rest. PublishHistory i [] 0 p = r # rest"
  by (simp add: PublishHistory_def last_n_def flip: take_rev)

lemma api_conn_404: "api_conn i s = Inl e \<Longrightarrow> e = 404"
  by (simp add: api_conn_def split: option.splits)

lemma route_sends:
  assumes ok: "api_ok s" and run: "route_handler fmt parse env q s = (200, t)" and q: "sends q = Some i"
  shows "\<exists>req. \<forall>f. route_handler fmt parse (env\<lparr>av_fault := f\<rparr>) q s = publishAndRecord (env\<lparr>av_fault := f\<rparr>) i req s"
proof -
  have id: "cs_id (cn_spec c) = j" if "api_conn j s = Inr c" for j c using api_conn_id [OF ok that] by simp
  show ?thesis
    using q run
    by (cases q) (auto simp: handlePublish_def handleRepublish_def handlePublishSaved_def savedMessage_def id
      dest: api_conn_404 split: sum.splits option.splits if_splits)
qed

lemma route_sends_200:
  assumes "api_ok s" "route_handler fmt parse env q s = (200, t)" "sends q = Some i"
  shows "\<exists>req. publishAndRecord env i req s = (200, t) \<and>
    (\<forall>f. route_handler fmt parse (env\<lparr>av_fault := f\<rparr>) q s = publishAndRecord (env\<lparr>av_fault := f\<rparr>) i req s)"
proof -
  obtain req where req:
    "route_handler fmt parse (env\<lparr>av_fault := f\<rparr>) q s = publishAndRecord (env\<lparr>av_fault := f\<rparr>) i req s" for f
    using route_sends [OF assms] by blast
  have "env\<lparr>av_fault := av_fault env\<rparr> = env" by simp
  with req [of "av_fault env"] assms(2) have "publishAndRecord env i req s = (200, t)" by simp
  with req show ?thesis by blast
qed

lemma serve_allowed:
  assumes "serve fmt parse (Some u) env q s = (200, t)"
  shows "serve fmt' parse' (Some u) env' q s' = route_handler fmt' parse' (env'\<lparr>av_user := u\<rparr>) q s'"
  using assms by (simp add: serve_def split: if_splits)

lemma serve_200:
  assumes "serve fmt parse (Some u) env q s = (200, t)"
  shows "route_handler fmt parse (env\<lparr>av_user := u\<rparr>) q s = (200, t)"
  using assms by (simp add: serve_def split: if_splits)

text \<open>
  C29. Whatever way a message is sent, from a form, from the history or from a saved message, what the broker was
  given and what the history shows first are the same message, with the user who sent it. The record comes after
  the message has gone, so that a database which fails to write it changes nothing of what the broker was given
  nor of the answer: then the history is what it was, and the message is missing from it.
\<close>

theorem sent_is_recorded:
  assumes "api_ok s" and "serve fmt parse (Some u) env q s = (200, t)" and "sends q = Some i"
  shows "\<exists>p. as_published t = as_published s @ [(i, p)] \<and>
    (case av_fault env of
       None \<Rightarrow> (\<exists>r rest. PublishHistory i [] 0 (cdb_publish (as_db t)) = r # rest \<and> resend r = p\<lparr>pub_props := None\<rparr> \<and>
                 pbr_userID r = us_id u \<and> pbr_username r = us_email u)
     | Some e \<Rightarrow> as_db t = as_db s) \<and>
    (\<forall>fault. \<exists>t'. serve fmt parse (Some u) (env\<lparr>av_fault := fault\<rparr>) q s = (200, t') \<and>
       as_published t' = as_published t)"
proof -
  let ?env = "env\<lparr>av_user := u\<rparr>"
  obtain p where p: "publishAndRecord ?env i p s = (200, t)"
    and any: "route_handler fmt parse (?env\<lparr>av_fault := f\<rparr>) q s = publishAndRecord (?env\<lparr>av_fault := f\<rparr>) i p s" for f
    using route_sends_200 [OF assms(1) serve_200 [OF assms(2)] assms(3)] by blast
  note sent = publishAndRecord_200 [OF assms(1) p]
  have "case av_fault env of
       None \<Rightarrow> (\<exists>r rest. PublishHistory i [] 0 (cdb_publish (as_db t)) = r # rest \<and> resend r = p\<lparr>pub_props := None\<rparr> \<and>
                 pbr_userID r = us_id u \<and> pbr_username r = us_email u)
     | Some e \<Rightarrow> as_db t = as_db s"
  proof (cases "av_fault env")
    case None
    then obtain rest where "PublishHistory i [] 0 (cdb_publish (as_db t)) = noted ?env i p (cdb_publish (as_db s)) # rest"
      using PublishHistory_newest [OF sent(2)] by auto
    with None show ?thesis by simp
  next
    case (Some e)
    then show ?thesis using sent(3) by simp
  qed
  moreover have "\<exists>t'. serve fmt parse (Some u) (env\<lparr>av_fault := f\<rparr>) q s = (200, t') \<and> as_published t' = as_published t" for f
  proof -
    have "env\<lparr>av_fault := f, av_user := u\<rparr> = ?env\<lparr>av_fault := f\<rparr>" by simp
    then show ?thesis unfolding serve_allowed [OF assms(2)] using any sent(4) [of f] by metis
  qed
  ultimately show ?thesis using sent(1) by blast
qed

lemma shown_is_found:
  assumes "publishes_ok p" "r \<in> set (published_on i p)"
  shows "GetPublish i (int (pbr_id r)) p = Inr r"
proof -
  have "distinct (map pbr_id (sto_history p))"
    using assms(1) strict_sorted_distinct by (simp add: publishes_ok_def)
  moreover have "r \<in> set (sto_history p)" "pbr_connectionID r = i"
    using assms(2) by (auto simp: published_on_def)
  ultimately have "find (\<lambda>x. int (pbr_id x) = int (pbr_id r) \<and> pbr_connectionID x = i) (sto_history p) = Some r"
    by (intro find_unique) (auto simp: distinct_map inj_on_def)
  then show ?thesis by (simp add: GetPublish_def)
qed

lemma newest_shown:
  "PublishHistory i [] 0 p = r # rest \<Longrightarrow> r \<in> set (published_on i p)"
  using set_take_subset [of 100 "rev (published_on i p)"] by (auto simp: PublishHistory_def)

lemma ParseInt_nat_string: "ParseInt (nat_string n) = (if n < 2 ^ 63 then Some (int n) else None)"
proof -
  obtain c cs where c: "nat_string n = c # cs" by (cases "nat_string n") simp_all
  with nat_string_hd [OF c] show ?thesis using parse_nat_string [of n] by (simp add: ParseInt_def)
qed

text \<open>
  C30. A message sent again from the history is the entry that was picked, and the newest entry is the message that
  was sent last, if the database took its record: its topic, its bytes, its quality of service and whether it is
  retained, whoever sends it again and whenever (its MQTT 5 properties are not kept).
\<close>

theorem sent_again_the_same:
  assumes ok: "api_ok s" and first: "serve fmt parse (Some u) env q s = (200, t)" "sends q = Some i"
    and newest: "PublishHistory i [] 0 (cdb_publish (as_db t)) = r # rest"
    and again: "serve fmt' parse' (Some v) env' (Rq_Republish i (nat_string (pbr_id r))) t = (200, t')"
  shows "\<exists>p. as_published t = as_published s @ [(i, p)] \<and> as_published t' = as_published s @ [(i, p), (i, resend r)] \<and>
    (av_fault env = None \<longrightarrow> resend r = p\<lparr>pub_props := None\<rparr>)"
proof -
  obtain p where p: "publishAndRecord (env\<lparr>av_user := u\<rparr>) i p s = (200, t)"
    using route_sends_200 [OF ok serve_200 [OF first(1)] first(2)] by blast
  note sent = publishAndRecord_200 [OF ok p]
  have ok': "api_ok t" using serve_ok [OF ok, of fmt parse "Some u" env q] first(1) by simp
  have "r \<in> set (published_on i (cdb_publish (as_db t)))" by (rule newest_shown [OF newest])
  then have found: "GetPublish i (int (pbr_id r)) (cdb_publish (as_db t)) = Inr r"
    using ok' by (intro shown_is_found) (simp_all add: api_ok_def conn_db_ok_def)
  have "publishAndRecord (env'\<lparr>av_user := v\<rparr>) i (resend r) t = (200, t')"
    using serve_200 [OF again] found
    by (auto simp: handleRepublish_def ParseInt_nat_string dest: api_conn_404 api_conn_id [OF ok'] split: sum.splits if_splits)
  note twice = publishAndRecord_200(1) [OF ok' this]
  have "resend r = p\<lparr>pub_props := None\<rparr>" if "av_fault env = None"
    using PublishHistory_newest [OF sent(2)] newest that by auto
  with twice sent(1) show ?thesis by simp
qed

section \<open>What was saved\<close>

text \<open>
  A message saved for one connection can be changed, deleted or sent through that connection only: under any
  other connection it is not found, and nothing happens.
\<close>

theorem saved_out_of_reach:
  assumes "GetSavedMessage m (cdb_publish (as_db s)) = Inr msg" "sav_connectionID msg \<noteq> []" "sav_connectionID msg \<noteq> i"
    and "q = Rq_UpdateSaved i m req \<or> q = Rq_DeleteSaved i m \<or> q = Rq_PublishSaved i m"
  shows "fst (serve fmt parse user env q s) \<in> {401, 403, 404} \<and> snd (serve fmt parse user env q s) = s"
proof -
  have "savedMessage i m s = Inl 404" using assms(1-3) by (simp add: savedMessage_def)
  then show ?thesis
    using assms(4)
    by (auto dest: api_conn_404 simp: serve_def handleUpdateSaved_def handleDeleteSaved_def handlePublishSaved_def split: option.splits sum.splits)
qed

section \<open>Who adds and removes\<close>

definition same_connections :: "'v ApiState \<Rightarrow> 'v ApiState \<Rightarrow> bool" where
  "same_connections s t \<longleftrightarrow> stored_ids t = stored_ids s \<and> mgr_keys (api_mqtt t) = mgr_keys (api_mqtt s)"

lemma same_refl [simp]: "same_connections s s" by (simp add: same_connections_def)

lemma same_frame:
  "same_connections s t \<Longrightarrow> cdb_rows (as_db t') = cdb_rows (as_db t) \<Longrightarrow> api_mqtt t' = api_mqtt t \<Longrightarrow> same_connections s t'"
  by (simp add: same_connections_def)

lemma same_update_publish [simp]: "same_connections s (update_publish f t) = same_connections s t"
  by (simp add: same_connections_def)

lemma same_put: "Get i (api_mqtt s) = Some c \<Longrightarrow> same_connections s (put_api_conn i d s)"
  using Get_in_keys [of i "api_mqtt s" c] by (auto simp: same_connections_def put_api_conn_def keys_store_set)

lemma same_with_conn:
  "api_ok s \<Longrightarrow> keeps_id f \<Longrightarrow> with_conn f k (api_mqtt s) = (r, m) \<Longrightarrow> same_connections s (set_mqtt m s)"
  using with_conn_filed [of "api_mqtt s" f k] by (simp add: same_connections_def api_ok_def)

lemma same_apply_plugins: "api_ok t \<Longrightarrow> same_connections s t \<Longrightarrow> same_connections s (apply_plugins env t)"
  using ApplyAll_filed [of "as_runtime t" "av_env env" "av_plugins env"]
  by (simp add: same_connections_def api_ok_def apply_plugins_def)

lemma same_api_publish: "same_connections s (snd (api_publish env i req s))"
proof (cases "Get i (api_mqtt s)")
  case (Some c)
  have "same_connections s ((put_api_conn i d s)\<lparr>as_published := x\<rparr>)" for d x
    by (rule same_frame [OF same_put [OF Some]]) simp_all
  with Some show ?thesis by (simp add: api_publish_def same_put split: prod.splits sum.splits)
qed (simp add: api_publish_def)

lemma same_publishAndRecord: "same_connections s (snd (publishAndRecord env i req s))"
proof -
  obtain b t where t: "api_publish env i req s = (b, t)" by fastforce
  then have "same_connections s t" using same_api_publish [of s env i req] by simp
  with t show ?thesis by (cases b) (simp_all add: publishAndRecord_def)
qed

lemma same_SaveConnection:
  assumes "SaveConnection env now rec db = (r, db')" "cs_id (cr_spec rec) \<in> rw_id ` set (cdb_rows db)"
  shows "rw_id ` set (cdb_rows db') = rw_id ` set (cdb_rows db)"
  using assms by (auto simp: SaveConnection_def upsert_row_ids insert_absorb dest!: Normalize_id simp del: image_iff
      split: sum.splits if_splits del: equalityI imageE)

lemma same_subscriptions:
  assumes ok: "api_ok s" and f: "keeps_id f"
  shows "same_connections s (snd (change_subscriptions env f i s))"
proof (cases "api_conn i s")
  case (Inr c)
  note id = api_conn_id [OF ok Inr]
  obtain r d where d: "f c = (r, d)" by fastforce
  then have d': "cs_id (cn_spec d) = i" using f id by (simp add: keeps_id_def) (metis snd_conv)
  have put: "same_connections s (put_api_conn i d s)" using id same_put by blast
  have "same_connections s (persistSubscriptions env d (put_api_conn i d s))"
  proof -
    have "rw_id ` set (cdb_rows db) = stored_ids s"
      if "SaveConnection (av_store env) (av_now env) (rec\<lparr>cr_spec := cn_spec d\<rparr>) (as_db s) = (u, db)" for rec u db
      using same_SaveConnection [OF that] id d' by simp
    then show ?thesis
      using put by (auto simp: persistSubscriptions_def same_connections_def split: sum.splits prod.splits)
  qed
  with put Inr d show ?thesis by (simp add: change_subscriptions_def split: sum.splits)
qed (simp add: change_subscriptions_def)

lemma same_save_message: "same_connections s (snd (save_message env msg st s))"
  by (simp add: save_message_def split: prod.splits sum.splits)

lemma same_handlers:
  assumes ok: "api_ok s"
  shows "same_connections s (snd (handleConnect env i s))" "same_connections s (snd (handleDisconnect env i s))"
    "same_connections s (snd (handleClearState i s))" "same_connections s (snd (handleClearRetained env i topic s))"
    "same_connections s (snd (handleDeleteRecordings fmt parse env i s))"
proof -
  show "same_connections s (snd (handleConnect env i s))"
    using same_with_conn [OF ok keeps_id_ops(1), of "av_env env"] with_conn_api [OF ok keeps_id_ops(1), of "av_env env"]
    by (auto simp: handleConnect_def mgr_Connect_def Let_def intro!: same_apply_plugins split: sum.splits prod.splits)
  show "same_connections s (snd (handleDisconnect env i s))"
    using same_with_conn [OF ok keeps_id_ops(2), of "av_env env"]
    by (auto simp: handleDisconnect_def mgr_Disconnect_def Let_def split: sum.splits prod.splits)
  show "same_connections s (snd (handleClearState i s))"
  proof (cases "api_conn i s")
    case (Inr c)
    from api_conn_id [OF ok Inr] have "Get i (api_mqtt s) = Some c" by blast
    from same_put [OF this] Inr show ?thesis by (simp add: handleClearState_def)
  qed (simp add: handleClearState_def)
  have "same_connections s t" if "api_publish env j p s = (b, t)" for j p b t
    using same_api_publish [of s env j p] that by simp
  then show "same_connections s (snd (handleClearRetained env i topic s))"
    by (auto simp: handleClearRetained_def Let_def split: sum.splits option.splits prod.splits bool.splits if_splits)
  show "same_connections s (snd (handleDeleteRecordings fmt parse env i s))"
    by (auto simp: handleDeleteRecordings_def Let_def same_connections_def split: sum.splits)
qed

text \<open>
  C31. Only an administrator adds or removes a connection: whatever anybody else asks for, the connections stored
  and the connections the manager has are those that were there.
\<close>

theorem only_admins_add_or_remove:
  assumes "api_ok s" and "\<not> AtLeast (us_role u) RoleAdmin" and "serve fmt parse (Some u) env q s = (status, t)"
  shows "rw_id ` set (cdb_rows (as_db t)) = rw_id ` set (cdb_rows (as_db s)) \<and>
    fst ` set (mg_conns (api_mqtt t)) = fst ` set (mg_conns (api_mqtt s))"
proof -
  have "same_connections s (snd (route_handler fmt parse env' q s))" if "route_role q \<noteq> RoleAdmin" for env'
    using that assms(1)
    by (cases q) (auto simp: route_role_def same_handlers handlePublish_def handleRepublish_def handlePublishSaved_def
        same_publishAndRecord handleSubscribe_def handleUnsubscribe_def same_subscriptions keeps_id_ops
        handleClearPublishHistory_def handleCreateSaved_def handleUpdateSaved_def same_save_message
        handleDeleteSaved_def split: sum.splits option.splits prod.splits)
  with assms(2,3) have "same_connections s t"
    by (auto simp: serve_def split: if_splits) (metis snd_conv)
  then show ?thesis by (simp add: same_connections_def)
qed

section \<open>Credentials\<close>

text \<open>A definition with other credentials, where those there are are there.\<close>

definition with_secrets :: "string \<Rightarrow> string \<Rightarrow> string \<Rightarrow> string \<Rightarrow> ConnectionSpec \<Rightarrow> ConnectionSpec" where
  "with_secrets pw ca cert key s =
     s\<lparr>cs_password := pw, cs_tls := (cs_tls s)\<lparr>tls_caPEM := ca, tls_clientCertPEM := cert, tls_clientKeyPEM := key\<rparr>\<rparr>"

text \<open>
  No credential can be read out of what a client is shown of a connection: two connections that differ in the
  password, the certificates or the private key look the same, but for whether there is one.
\<close>

theorem view_hides_secrets:
  assumes "(pw = []) = (cs_password (cn_spec c) = [])" "(ca = []) = (tls_caPEM (cs_tls (cn_spec c)) = [])"
    "(cert = []) = (tls_clientCertPEM (cs_tls (cn_spec c)) = [])"
  shows "viewOf (c\<lparr>cn_spec := with_secrets pw ca cert key (cn_spec c)\<rparr>) = viewOf c"
  using assms by (simp add: viewOf_def with_secrets_def conn_Status_def Let_def)

text \<open>
  What was asked for, in a definition: everything of the request but the address, the credentials and the TLS
  settings, and where it leaves the client's id, the user's name or the keepalive out, whatever is filled in.
\<close>

definition as_asked :: "connectionRequest \<Rightarrow> ConnectionSpec \<Rightarrow> bool" where
  "as_asked req s \<longleftrightarrow>
     cs_name s = trim_space (cq_name req) \<and> ParseVersion (cq_version req) = Inr (cs_version s) \<and>
     (cq_clientID req \<noteq> [] \<longrightarrow> cs_clientID s = cq_clientID req) \<and>
     (cq_username req \<noteq> [] \<longrightarrow> cs_username s = cq_username req) \<and>
     (0 < cq_keepAlive req \<longrightarrow> cs_keepAlive s = cq_keepAlive req) \<and>
     cs_cleanStart s = cq_cleanStart req \<and> cs_sessionExpiry s = cq_sessionExpiry req \<and> cs_will s = cq_will req \<and>
     normalize_subs {} (cq_subscriptions req) = Inr (cs_subscriptions s) \<and> cs_autoConnect s = cq_autoConnect req \<and>
     cs_sysStats s = cq_sysStats req \<and> cs_recordToDisk s = cq_recordToDisk req \<and> cs_recordKeep s = cq_recordKeep req \<and>
     cs_historySize s = cq_historySize req \<and> cs_topicLogEntries s = cq_topicLogEntries req \<and>
     cs_topicLogBudget s = cq_topicLogBudget req"

text \<open>The TLS settings of an update that names none of the certificates, the key or the authority.\<close>

definition kept_tls :: "tlsRequest \<Rightarrow> TLSSpec \<Rightarrow> TLSSpec" where
  "kept_tls req old = old\<lparr>tls_insecureSkipVerify := tq_insecureSkipVerify req, tls_serverName := tq_serverName req,
     tls_minVersion := tq_minVersion req, tls_alpn := tq_alpn req\<rparr>"

lemma normalize_url_rest:
  "normalize_url parse render s = Inr (s1, scheme) \<Longrightarrow>
   s1\<lparr>cs_url := [], cs_username := [], cs_password := []\<rparr> = s\<lparr>cs_url := [], cs_username := [], cs_password := []\<rparr> \<and>
   (cs_username s \<noteq> [] \<longrightarrow> cs_username s1 = cs_username s)"
  by (auto simp: normalize_url_def Let_def split: if_splits option.splits sum.splits prod.splits)

lemma normalize_numbers_rest:
  "normalize_numbers fresh scheme s = Inr s1 \<Longrightarrow>
   s1\<lparr>cs_version := 0, cs_clientID := [], cs_keepAlive := 0, cs_connectTimeout := 0\<rparr> =
     s\<lparr>cs_version := 0, cs_clientID := [], cs_keepAlive := 0, cs_connectTimeout := 0\<rparr> \<and>
   cs_version s1 = (if cs_version s = 0 then V311 else cs_version s) \<and>
   (cs_clientID s \<noteq> [] \<longrightarrow> cs_clientID s1 = cs_clientID s) \<and> (0 < cs_keepAlive s \<longrightarrow> cs_keepAlive s1 = cs_keepAlive s)"
  by (auto simp: normalize_numbers_def Let_def split: if_splits)

lemma Normalize_asked:
  assumes "Normalize parse render fresh s = Inr s'"
  shows "cs_name s' = trim_space (cs_name s) \<and> cs_version s' = (if cs_version s = 0 then V311 else cs_version s) \<and>
    (cs_clientID s \<noteq> [] \<longrightarrow> cs_clientID s' = cs_clientID s) \<and> (cs_username s \<noteq> [] \<longrightarrow> cs_username s' = cs_username s) \<and>
    (0 < cs_keepAlive s \<longrightarrow> cs_keepAlive s' = cs_keepAlive s) \<and>
    normalize_subs {} (cs_subscriptions s) = Inr (cs_subscriptions s')" (is ?A)
    and "cs_cleanStart s' = cs_cleanStart s \<and> cs_sessionExpiry s' = cs_sessionExpiry s \<and> cs_will s' = cs_will s \<and>
    cs_autoConnect s' = cs_autoConnect s \<and> cs_sysStats s' = cs_sysStats s \<and> cs_recordToDisk s' = cs_recordToDisk s \<and>
    cs_recordKeep s' = cs_recordKeep s \<and> cs_historySize s' = cs_historySize s \<and>
    cs_topicLogEntries s' = cs_topicLogEntries s \<and> cs_topicLogBudget s' = cs_topicLogBudget s" (is ?B)
proof -
  obtain s1 s2 scheme subs where st:
    "normalize_url parse render (s\<lparr>cs_name := trim_space (cs_name s)\<rparr>) = Inr (s1, scheme)"
    "normalize_numbers fresh scheme s1 = Inr s2" "normalize_subs {} (cs_subscriptions s2) = Inr subs"
    "s' = s2\<lparr>cs_subscriptions := subs\<rparr>"
    using assms by (rule Normalize_stages)
  have s1: "cs_name s1 = trim_space (cs_name s) \<and> cs_version s1 = cs_version s \<and> cs_clientID s1 = cs_clientID s \<and>
     (cs_username s \<noteq> [] \<longrightarrow> cs_username s1 = cs_username s) \<and> cs_keepAlive s1 = cs_keepAlive s \<and>
     cs_subscriptions s1 = cs_subscriptions s"
    "cs_cleanStart s1 = cs_cleanStart s \<and> cs_sessionExpiry s1 = cs_sessionExpiry s \<and> cs_will s1 = cs_will s \<and>
     cs_autoConnect s1 = cs_autoConnect s \<and> cs_sysStats s1 = cs_sysStats s \<and> cs_recordToDisk s1 = cs_recordToDisk s \<and>
     cs_recordKeep s1 = cs_recordKeep s \<and> cs_historySize s1 = cs_historySize s \<and> cs_topicLogEntries s1 = cs_topicLogEntries s \<and>
     cs_topicLogBudget s1 = cs_topicLogBudget s"
    using normalize_url_rest [OF st(1)] by (cases s, cases s1, simp)+
  have s2: "cs_name s2 = cs_name s1 \<and> cs_version s2 = (if cs_version s1 = 0 then V311 else cs_version s1) \<and>
     (cs_clientID s1 \<noteq> [] \<longrightarrow> cs_clientID s2 = cs_clientID s1) \<and> cs_username s2 = cs_username s1 \<and>
     (0 < cs_keepAlive s1 \<longrightarrow> cs_keepAlive s2 = cs_keepAlive s1) \<and> cs_subscriptions s2 = cs_subscriptions s1"
    "cs_cleanStart s2 = cs_cleanStart s1 \<and> cs_sessionExpiry s2 = cs_sessionExpiry s1 \<and> cs_will s2 = cs_will s1 \<and>
     cs_autoConnect s2 = cs_autoConnect s1 \<and> cs_sysStats s2 = cs_sysStats s1 \<and> cs_recordToDisk s2 = cs_recordToDisk s1 \<and>
     cs_recordKeep s2 = cs_recordKeep s1 \<and> cs_historySize s2 = cs_historySize s1 \<and> cs_topicLogEntries s2 = cs_topicLogEntries s1 \<and>
     cs_topicLogBudget s2 = cs_topicLogBudget s1"
    using normalize_numbers_rest [OF st(2)] by (cases s1, cases s2, simp)+
  show ?A using s1(1) s2(1) st(3,4) by simp
  show ?B using s1(2) s2(2) st(4) by simp
qed

text \<open>A definition normalised twice, before it is saved and again where it is used, is the one normalised once.\<close>

lemma asked_twice:
  assumes "Normalize p r f (request_spec req v i (Some old)) = Inr spec" "Normalize p' r' f' spec = Inr spec'"
    and "ParseVersion (cq_version req) = Inr v"
    and "tq_caPEM (cq_tls req) = None" "tq_clientCertPEM (cq_tls req) = None" "tq_clientKeyPEM (cq_tls req) = None"
  shows "as_asked req spec'" "cs_tls spec' = kept_tls (cq_tls req) (cs_tls old)" "cs_id spec' = i" "cs_connectTimeout spec' = 10"
    "cq_password req = None \<Longrightarrow> cs_password old \<noteq> [] \<Longrightarrow> cs_password spec' = cs_password old"
proof -
  let ?r = "request_spec req v i (Some old)"
  note frames = Normalize_frame [OF assms(1)] Normalize_frame [OF assms(2)]
  have r: "cs_tls ?r = kept_tls (cq_tls req) (cs_tls old)" "cs_id ?r = i" "cs_connectTimeout ?r = 0"
    "cq_password req = None \<Longrightarrow> cs_password ?r = cs_password old"
    using assms(4-6) by (simp_all add: request_spec_def secrets_of_def carry_def kept_tls_def Let_def)
  show "cs_tls spec' = kept_tls (cq_tls req) (cs_tls old)" "cs_id spec' = i" "cs_connectTimeout spec' = 10"
    "cq_password req = None \<Longrightarrow> cs_password old \<noteq> [] \<Longrightarrow> cs_password spec' = cs_password old"
    using frames r by simp_all
  have sane: "sane_spec spec" using assms(1) by (rule Normalize_sane)
  have "normalize_subs {} (cs_subscriptions spec) = Inr (cs_subscriptions spec)"
    using sane by (intro normalize_subs_id) (auto simp: sane_spec_def)
  then have subs: "cs_subscriptions spec' = cs_subscriptions spec" using Normalize_asked(1) [OF assms(2)] by simp
  have v: "v \<noteq> 0" using assms(3) by (auto simp: ParseVersion_def Let_def V31_def V311_def V5_def split: if_splits)
  have asked: "cs_name ?r = cq_name req" "cs_version ?r = v" "cs_clientID ?r = cq_clientID req" "cs_username ?r = cq_username req"
    "cs_keepAlive ?r = cq_keepAlive req" "cs_subscriptions ?r = cq_subscriptions req"
    "cs_cleanStart ?r = cq_cleanStart req \<and> cs_sessionExpiry ?r = cq_sessionExpiry req \<and> cs_will ?r = cq_will req \<and>
     cs_autoConnect ?r = cq_autoConnect req \<and> cs_sysStats ?r = cq_sysStats req \<and> cs_recordToDisk ?r = cq_recordToDisk req \<and>
     cs_recordKeep ?r = cq_recordKeep req \<and> cs_historySize ?r = cq_historySize req \<and>
     cs_topicLogEntries ?r = cq_topicLogEntries req \<and> cs_topicLogBudget ?r = cq_topicLogBudget req"
    by (simp_all add: request_spec_def Let_def secrets_of_def)
  from Normalize_asked [OF assms(1)] Normalize_asked [OF assms(2)] subs v assms(3) sane
  show "as_asked req spec'" unfolding as_asked_def asked(1-6) by (simp add: asked(7) sane_spec_def)
qed

text \<open>A row that was saved is the normalised definition, with the credentials sealed.\<close>

lemma SaveConnection_row:
  assumes "SaveConnection env now rec db = (Inr (), db')" "Normalize (se_url env) (se_render env) (se_fresh env) (cr_spec rec) = Inr spec"
    and "find (\<lambda>r. rw_id r = cs_id spec) (cdb_rows db) = Some old"
  shows "\<exists>password tls. Seal (se_box env) (fst (se_nonces env)) (cs_password spec) = Inr password \<and>
    Seal (se_box env) (snd (se_nonces env)) (se_print env (marshal_tls (cs_tls spec))) = Inr tls \<and>
    find (\<lambda>r. rw_id r = cs_id spec) (cdb_rows db') = Some (row_of env spec password tls (rw_createdBy old) (rw_createdAt old) now)"
proof -
  obtain password tls who created where sealed: "Seal (se_box env) (fst (se_nonces env)) (cs_password spec) = Inr password"
    "Seal (se_box env) (snd (se_nonces env)) (se_print env (marshal_tls (cs_tls spec))) = Inr tls"
    and db': "db' = upsert_row (row_of env spec password tls who created now) db"
    using assms(1,2) by (auto simp: SaveConnection_def split: sum.splits if_splits)
  have "find (\<lambda>r. rw_id r = cs_id spec) (cdb_rows db') = Some (row_of env spec password tls (rw_createdBy old) (rw_createdAt old) now)"
    unfolding db' find_upsert using assms(3) by (simp add: row_of_def)
  with sealed show ?thesis by blast
qed

lemma Upsert_spec:
  assumes "Upsert render fresh e spec m = (Inr u, m')"
  shows "\<exists>s' d. Normalize (env_parse e) render fresh spec = Inr s' \<and> Get (cs_id spec) m' = Some d \<and> cn_spec d = s'"
proof -
  obtain s' where s': "Normalize (env_parse e) render fresh spec = Inr s'"
    using assms by (auto simp: Upsert_def split: sum.splits)
  have "cn_spec d = s'" if "upsert_existing e s' c = (r, d)" for c r d
    using upsert_frame [of e s' c] that by simp
  moreover have "cn_spec (newConn e s') = s'" by (simp add: newConn_def)
  ultimately show ?thesis
    using assms s' Normalize_id [OF s']
    by (auto simp: Upsert_def Get_store split: option.splits prod.splits)
qed

lemma update_stages:
  assumes "handleUpdateConnection env i (Some req) s = (Inr v, t)" "api_conn i s = Inr c" "cs_id (cn_spec c) = i"
  shows "\<exists>spec rec db m. toSpec (av_store env) req i (Some (cn_spec c)) = Some spec \<and>
    SaveConnection (av_store env) (av_now env) (rec\<lparr>cr_spec := spec\<rparr>) (as_db s) = (Inr (), db) \<and>
    Upsert (se_render (av_store env)) (se_fresh (av_store env)) (av_env env) spec (api_mqtt s) = (Inr (), m) \<and>
    api_mqtt t = m \<and> as_db t = db \<and> view_now (cs_id spec) t = Inr v"
proof -
  obtain spec where spec: "toSpec (av_store env) req i (Some (cn_spec c)) = Some spec"
    using assms by (auto simp: handleUpdateConnection_def split: option.splits)
  obtain rec db where db: "SaveConnection (av_store env) (av_now env) (rec\<lparr>cr_spec := spec\<rparr>) (as_db s) = (Inr (), db)"
    and rest: "(let s = s\<lparr>as_db := db\<rparr>;
        (r, m) = Upsert (se_render (av_store env)) (se_fresh (av_store env)) (av_env env) spec (api_mqtt s);
        s = configureRecording spec (set_mqtt m s)
      in (case r of Inl _ \<Rightarrow> (Inl 502, s) | Inr _ \<Rightarrow> (view_now (cs_id spec) s, s))) = (Inr v, t)"
    using assms spec
    by (auto simp: handleUpdateConnection_def simp del: Let_def split: option.splits sum.splits prod.splits if_splits)
  obtain r m where up: "Upsert (se_render (av_store env)) (se_fresh (av_store env)) (av_env env) spec (api_mqtt s) = (r, m)"
    by fastforce
  with rest spec db show ?thesis by (cases r) (auto simp: Let_def intro!: exI)
qed


text \<open>
  A body that names the connect timeout is refused, as is any field the request does not have: what the status page
  of the web client sends to change one setting names it.
\<close>

lemma unknown_member_refused:
  "(k, j) \<in> set ms \<Longrightarrow> find_field fs k = None \<Longrightarrow> strict_members fs ms r = None"
  by (induction fs ms r rule: strict_members.induct) (auto split: option.splits)

lemma connect_timeout_refused:
  assumes "parse body = Some (JObj ms)" "(''connectTimeout'', j) \<in> set ms"
  shows "decode_connection_request parse body = None"
proof -
  have "find_field connection_request_fields ''connectTimeout'' = None"
    by (simp add: find_field_def connection_request_fields_def to_lower_def lower_char_def)
  with unknown_member_refused [OF assms(2)] assms(1) show ?thesis
    by (simp add: decode_connection_request_def DecodeJSON_def strict_struct_def)
qed

section \<open>One server, for the witnesses\<close>

text \<open>One connection that is stored and has a session, and somebody who may use it.\<close>

definition ex_operator :: User where
  "ex_operator = \<lparr>us_id = ''o'', us_email = ''o@x'', us_name = ''O'', us_passwordHash = [], us_role = RoleOperator,
     us_provider = ''local'', us_providerSubject = [], us_disabled = False, us_createdAt = 1, us_lastLoginAt = None,
     us_totpSecretEnc = [], us_totpConfirmedAt = None\<rparr>"

definition ex_session_conn :: Conn where
  "ex_session_conn = (newConn ex_env ex_spec')\<lparr>cn_client := Some 0\<rparr>"

definition ex_api :: "unit ApiState" where
  "ex_api = \<lparr>as_db = upsert_row (row_of ex_store_env ex_spec' [] [] ''u'' 1 1) ex_conn_db,
     as_runtime = \<lparr>rt_registry = [], rt_instances = Map.empty, rt_mqtt = NewManager\<lparr>mg_conns := [(''c1'', ex_session_conn)]\<rparr>,
                   rt_saved = Map.empty, rt_state = Map.empty, rt_emitted = []\<rparr>,
     as_recorder = None, as_background = [], as_published = []\<rparr>"

definition ex_api_env :: ApiEnv where
  "ex_api_env = \<lparr>av_env = ex_env, av_store = ex_store_env, av_now = 5, av_fresh = ''n'', av_user = ex_operator, av_plugins = [], av_fault = None\<rparr>"

definition ex_publish :: conn_request where
  "ex_publish = Rq_Publish ''c1'' (Some \<lparr>pq_topic = ''a/b'', pq_payload = ''hi'', pq_encoded = False, pq_qos = 1,
     pq_retain = True, pq_props = None\<rparr>)"

definition ex_sent :: PublishRequest where
  "ex_sent = \<lparr>pub_topic = ''a/b'', pub_payload = bytes_of_string ''hi'', pub_qos = 1, pub_retain = True, pub_props = None\<rparr>"

lemma ex_conn_db_ok: "conn_db_ok ex_conn_db"
  using conn_db_run_ok [of "[]"] by (simp add: conn_db_run_def)

lemma ex_ids: "cs_id ex_spec' = ''c1''" "cs_name ex_spec' = ''home''"
  by (simp_all add: ex_spec'_def ex_spec_def)

lemma ex_api_ok: "api_ok ex_api"
  by (simp add: api_ok_def ex_api_def upsert_row_ok [OF ex_conn_db_ok] filed_def Get_def NewManager_def
      ex_session_conn_def newConn_def ex_ids upsert_row_ids)

lemma ex_topic: "ValidateTopic ''a/b'' = Inr ()"
  by (simp add: ValidateTopic_def maxTopicBytes_def valid_utf8_ascii contains_any_def)

lemma ex_publish_runs:
  "fst (conn_Publish ex_env ex_sent (ex_session_conn\<lparr>cn_sent := n\<rparr>)) = Inr ()"
  by (simp add: conn_Publish_def ex_sent_def ex_topic ex_session_conn_def ex_env_def)

lemma ex_operator_email: "us_email ex_operator = ''o@x''"
  by (simp add: ex_operator_def)

lemma ex_serve: "serve (\<lambda>_. []) (\<lambda>_. None) (Some ex_operator) ex_api_env ex_publish ex_api =
    (200, snd (serve (\<lambda>_. []) (\<lambda>_. None) (Some ex_operator) ex_api_env ex_publish ex_api))"
  using ex_publish_runs [of 0]
  by (auto simp: serve_def ex_publish_def route_role_def ex_operator_def AtLeast_def role_rank_def RoleOperator_def handlePublish_def
    api_conn_def ex_api_def Get_def publishAndRecord_def api_publish_def ex_api_env_def ex_session_conn_def newConn_def ex_ids ex_sent_def
    split: prod.splits sum.splits option.splits)

theorem sent_is_recorded_witness:
  "\<exists>t p r rest (t' :: unit ApiState). serve (\<lambda>_. []) (\<lambda>_. None) (Some ex_operator) ex_api_env ex_publish ex_api = (200, t) \<and>
    as_published t = [(''c1'', p)] \<and> PublishHistory ''c1'' [] 0 (cdb_publish (as_db t)) = r # rest \<and>
    resend r = p\<lparr>pub_props := None\<rparr> \<and> pbr_username r = ''o@x'' \<and>
    serve (\<lambda>_. []) (\<lambda>_. None) (Some ex_operator) (ex_api_env\<lparr>av_fault := Some ErrConstraint\<rparr>) ex_publish ex_api = (200, t') \<and>
    as_published t' = [(''c1'', p)] \<and> as_db t' = as_db ex_api"
proof -
  let ?serve = "\<lambda>env. serve (\<lambda>_. []) (\<lambda>_. None) (Some ex_operator) env ex_publish ex_api"
  let ?bad = "ex_api_env\<lparr>av_fault := Some ErrConstraint\<rparr>"
  have q: "sends ex_publish = Some ''c1''" by (simp add: ex_publish_def)
  have no: "av_fault ex_api_env = None" "as_published ex_api = []" by (simp_all add: ex_api_env_def ex_api_def)
  from sent_is_recorded [OF ex_api_ok ex_serve q, unfolded no append_Nil option.case] obtain p r rest where
    p: "as_published (snd (?serve ex_api_env)) = [(''c1'', p)]"
    "PublishHistory ''c1'' [] 0 (cdb_publish (as_db (snd (?serve ex_api_env)))) = r # rest" "resend r = p\<lparr>pub_props := None\<rparr>"
    "pbr_username r = us_email ex_operator"
    and all: "\<forall>fault. \<exists>t'. ?serve (ex_api_env\<lparr>av_fault := fault\<rparr>) = (200, t') \<and> as_published t' = as_published (snd (?serve ex_api_env))"
    by blast
  from all obtain t' where t': "?serve ?bad = (200, t')" "as_published t' = [(''c1'', p)]"
    using p(1) by metis
  have "av_fault ?bad = Some ErrConstraint" by simp
  with sent_is_recorded [OF ex_api_ok t'(1) q] have "as_db t' = as_db ex_api" by auto
  with ex_serve p t' show ?thesis by (metis ex_operator_email)
qed

lemma republish_accepted:
  assumes "Get i (api_mqtt t) = Some c" "cs_id (cn_spec c) = i" "cn_client c = Some k" "env_pubErr (av_env env) = None"
    and "GetPublish i (int n) (cdb_publish (as_db t)) = Inr r" "n < 2 ^ 63"
    and "ValidateTopic (pbr_topic r) = Inr ()" "pbr_qos r \<le> 2"
  shows "fst (serve fmt parse (Some ex_operator) env (Rq_Republish i (nat_string n)) t) = 200"
proof -
  have may: "AtLeast (us_role ex_operator) (route_role (Rq_Republish i (nat_string n)))"
    by (simp add: route_role_def ex_operator_def AtLeast_def)
  have "fst (publishAndRecord (env\<lparr>av_user := ex_operator\<rparr>) i (resend r) t) = 200"
    using assms by (simp add: publishAndRecord_def api_publish_def conn_Publish_def resend_def)
  with may assms show ?thesis by (simp add: serve_def handleRepublish_def api_conn_def ParseInt_nat_string)
qed

theorem sent_again_the_same_witness:
  "\<exists>t (t' :: unit ApiState) p. serve (\<lambda>_. []) (\<lambda>_. None) (Some ex_operator) ex_api_env ex_publish ex_api = (200, t) \<and>
    as_published t = [(''c1'', p)] \<and> as_published t' = [(''c1'', p), (''c1'', p\<lparr>pub_props := None\<rparr>)]"
proof -
  let ?f = "\<lambda>_. []" and ?p = "\<lambda>_. None" and ?u = "Some ex_operator"
  obtain t where t: "serve ?f ?p ?u ex_api_env ex_publish ex_api = (200, t)" using ex_serve by blast
  have q: "sends ex_publish = Some ''c1''" by (simp add: ex_publish_def)
  have run: "publishAndRecord (ex_api_env\<lparr>av_user := ex_operator\<rparr>) ''c1'' ex_sent ex_api = (200, t)"
    using serve_200 [OF t] by (simp add: ex_publish_def handlePublish_def ex_sent_def api_conn_def ex_api_def Get_def
        ex_session_conn_def newConn_def ex_ids)
  let ?r = "noted (ex_api_env\<lparr>av_user := ex_operator\<rparr>) ''c1'' ex_sent (cdb_publish (as_db ex_api))"
  have healthy: "av_fault (ex_api_env\<lparr>av_user := ex_operator\<rparr>) = None" by (simp add: ex_api_env_def)
  note pub = publishAndRecord_200(2) [OF ex_api_ok run healthy]
  obtain rest where hist: "PublishHistory ''c1'' [] 0 (cdb_publish (as_db t)) = ?r # rest"
    using PublishHistory_newest [OF pub] by blast
  have ok: "api_ok t" using serve_ok [OF ex_api_ok, of ?f ?p ?u ex_api_env ex_publish] t by simp
  have found: "GetPublish ''c1'' (int (pbr_id ?r)) (cdb_publish (as_db t)) = Inr ?r"
    using ok pub by (intro shown_is_found) (simp_all add: api_ok_def conn_db_ok_def last_n_def)
  have "pbr_id ?r < 2 ^ 63"
    by (simp add: noted_def ex_api_def upsert_row_def ex_conn_db_def store_connection_id_def empty_publish_store_def)
  have conn: "Get ''c1'' (api_mqtt t) = Some (ex_session_conn\<lparr>cn_sent := 1\<rparr>)"
    using run by (auto simp: publishAndRecord_def api_publish_def ex_api_def Get_def conn_Publish_def ex_sent_def ex_topic
        ex_session_conn_def newConn_def ex_env_def ex_api_env_def put_api_conn_def set_mqtt_def store_conn_def ex_ids Let_def)
  have "fst (serve ?f ?p ?u ex_api_env (Rq_Republish ''c1'' (nat_string (pbr_id ?r))) t) = 200"
  proof (rule republish_accepted [OF conn _ _ _ found \<open>pbr_id ?r < 2 ^ 63\<close>])
    show "cn_client (ex_session_conn\<lparr>cn_sent := 1\<rparr>) = Some 0" by (simp add: ex_session_conn_def)
  qed (simp_all add: ex_session_conn_def newConn_def ex_ids ex_api_env_def ex_env_def noted_def recorded_as_def
      record_of_def ex_sent_def ex_topic)
  then obtain t' where t': "serve ?f ?p ?u ex_api_env (Rq_Republish ''c1'' (nat_string (pbr_id ?r))) t = (200, t')"
    by (metis prod.collapse)
  have none: "as_published ex_api = []" "av_fault ex_api_env = None" by (simp_all add: ex_api_def ex_api_env_def)
  from sent_again_the_same [OF ex_api_ok t q hist t', unfolded none append_Nil] t show ?thesis by auto
qed

theorem saved_out_of_reach_witness:
  "serve (\<lambda>_. []) (\<lambda>_. None) (Some ex_operator) ex_api_env (Rq_PublishSaved ''c1'' ''m'')
     (update_publish (\<lambda>p. p\<lparr>sto_saved := [\<lparr>sav_id = ''m'', sav_connectionID = ''c2'', sav_folder = [], sav_name = ''n'',
        sav_topic = ''t'', sav_payload = [], sav_qos = 0, sav_retain = False, sav_sortOrder = 0, sav_createdBy = [],
        sav_createdAt = 1, sav_updatedAt = 1\<rparr>]\<rparr>) ex_api) =
   (404, update_publish (\<lambda>p. p\<lparr>sto_saved := [\<lparr>sav_id = ''m'', sav_connectionID = ''c2'', sav_folder = [], sav_name = ''n'',
        sav_topic = ''t'', sav_payload = [], sav_qos = 0, sav_retain = False, sav_sortOrder = 0, sav_createdBy = [],
        sav_createdAt = 1, sav_updatedAt = 1\<rparr>]\<rparr>) ex_api)" (is "serve ?f ?p ?u ?e ?q ?s = _")
proof -
  have "snd (serve ?f ?p ?u ?e ?q ?s) = ?s"
    using saved_out_of_reach [where s = ?s and i = "''c1''" and m = "''m''" and q = ?q and fmt = ?f and parse = ?p
        and user = ?u and env = ?e] by (simp add: GetSavedMessage_def)
  moreover have "fst (serve ?f ?p ?u ?e ?q ?s) = 404"
    by (simp add: serve_def route_role_def ex_operator_def AtLeast_def handlePublishSaved_def savedMessage_def
        GetSavedMessage_def api_conn_def split: sum.splits option.splits)
  ultimately show ?thesis by (metis prod.collapse)
qed

theorem only_admins_add_or_remove_witness:
  "rw_id ` set (cdb_rows (as_db (snd (serve (\<lambda>_. []) (\<lambda>_. None) (Some ex_operator) ex_api_env (Rq_Delete ''c1'') ex_api)))) = {''c1''}"
proof -
  have "\<not> AtLeast (us_role ex_operator) RoleAdmin"
    by (simp add: ex_operator_def AtLeast_def role_rank_def RoleAdmin_def RoleOperator_def RoleViewer_def)
  moreover have "rw_id ` set (cdb_rows (as_db ex_api)) = {''c1''}"
    by (simp add: ex_api_def upsert_row_ids ex_ids) (simp add: ex_conn_db_def)
  ultimately show ?thesis
    using only_admins_add_or_remove [OF ex_api_ok, of ex_operator "\<lambda>_. []" "\<lambda>_. None" ex_api_env "Rq_Delete ''c1''"]
    by (metis prod.collapse)
qed

theorem view_hides_secrets_witness:
  "viewOf (ex_session_conn\<lparr>cn_spec := with_secrets [] [] [] ''key'' ex_spec'\<rparr>) = viewOf ex_session_conn"
  using view_hides_secrets [of "[]" ex_session_conn "[]" "[]" "''key''"]
  by (simp add: ex_session_conn_def newConn_def ex_spec'_def ex_spec_def ex_tls_def)

text \<open>The same server, whose connection signs in by certificate alone, and an update that leaves the certificate out.\<close>

definition ex_secret_spec :: ConnectionSpec where
  "ex_secret_spec = ex_spec'\<lparr>cs_tls := ex_tls\<lparr>tls_clientCertPEM := ''cert'', tls_clientKeyPEM := ''key''\<rparr>\<rparr>"

definition ex_secret_api :: "unit ApiState" where
  "ex_secret_api = put_api_conn ''c1'' (ex_session_conn\<lparr>cn_spec := ex_secret_spec, cn_client := None\<rparr>) ex_api"

definition ex_update :: connectionRequest where
  "ex_update = zero_connection_request\<lparr>cq_name := '' home '', cq_url := ''h'', cq_cleanStart := True,
     cq_tls := zero_tls_request\<lparr>tq_minVersion := ''1.2''\<rparr>, cq_subscriptions := [ex_sub ''a/#'']\<rparr>"

definition ex_update_env :: ApiEnv where
  "ex_update_env = ex_api_env\<lparr>av_env := ex_env\<lparr>env_parse := ex_parse\<rparr>\<rparr>"

lemma ex_toSpec: "toSpec ex_store_env ex_update ''c1'' (Some ex_secret_spec) = Some ex_secret_spec"
proof -
  have "ParseVersion [] = Inr V311" by code_simp
  then show ?thesis
    by (simp add: toSpec_def ex_update_def zero_connection_request_def zero_tls_request_def request_spec_def secrets_of_def
      carry_def ex_secret_spec_def ex_store_env_def Normalize_def normalize_url_def normalize_numbers_def check_will_tls_def
      Version_Valid_def V31_def V311_def V5_def defaultPort_def ex_trims ex_filter ex_ports ex_spec_def ex_spec'_def
      ex_parse_def ex_render_def ex_url_def ex_url'_def ex_sub_def ex_tls_def)
qed

lemma ex_Normalize_again: "Normalize ex_parse ex_render fresh ex_secret_spec = Inr ex_secret_spec"
  by (simp add: ex_secret_spec_def Normalize_def normalize_url_def normalize_numbers_def check_will_tls_def
      Version_Valid_def V31_def V311_def V5_def defaultPort_def ex_trims ex_filter ex_ports ex_stored_trims ex_spec_def ex_spec'_def
      ex_parse_def ex_render_def ex_url_def ex_url'_def ex_sub_def ex_tls_def)

lemma ex_secret_fields:
  "cs_id ex_secret_spec = ''c1''" "as_db ex_secret_api = as_db ex_api"
  "Get ''c1'' (api_mqtt ex_secret_api) = Some (ex_session_conn\<lparr>cn_spec := ex_secret_spec, cn_client := None\<rparr>)"
  by (simp_all add: ex_secret_spec_def ex_ids ex_secret_api_def put_api_conn_def Get_store ex_session_conn_def newConn_def)

lemma ex_secret_ok: "api_ok ex_secret_api"
  unfolding ex_secret_api_def
  by (rule put_api_conn_ok [OF ex_api_ok, of _ ex_session_conn])
    (simp_all add: ex_api_def Get_def NewManager_def ex_session_conn_def newConn_def ex_secret_spec_def)

lemma ex_stored: "\<exists>rec. GetConnection ex_store_env ''c1'' (as_db ex_api) = Inr rec"
proof -
  have "find (\<lambda>r. rw_id r = ''c1'') (cdb_rows (as_db ex_api)) = Some (row_of ex_store_env ex_spec' [] [] ''u'' 1 1)"
    by (simp add: ex_api_def find_upsert ex_ids) (simp add: ex_conn_db_def)
  moreover have "unmarshal_text ex_store_env (set_slice (unmarshal_struct sub_fields) zero_sub (\<lambda>xs _. xs)) ''[]'' [] = Some [ex_sub ''a/#'']"
    using unmarshal_marshal_subs [of "[ex_sub ''a/#'']"]
    by (simp add: unmarshal_text_def ex_store_env_def) (simp add: ex_sub_def)
  moreover have "se_print ex_store_env (JArr xs) = ''[]''" for xs
    by (simp add: ex_store_env_def marshal_tls_def)
  ultimately show ?thesis
    by (simp add: GetConnection_def scanConnection_def decodeTLS_def row_of_def ex_spec'_def ex_spec_def)
qed

lemma ex_save: "\<exists>db. SaveConnection ex_store_env now (rec\<lparr>cr_spec := ex_secret_spec\<rparr>) db0 = (Inr (), db)"
proof -
  have "Normalize (se_url ex_store_env) (se_render ex_store_env) (se_fresh ex_store_env) ex_secret_spec = Inr ex_secret_spec"
    using ex_Normalize_again by (simp add: ex_store_env_def)
  then show ?thesis
    by (simp add: SaveConnection_def ex_secret_fields) (simp add: ex_store_env_def Seal_def)
qed

lemma ex_updates: "\<exists>v. fst (handleUpdateConnection ex_update_env ''c1'' (Some ex_update) ex_secret_api) = Inr v"
proof -
  let ?c = "ex_session_conn\<lparr>cn_spec := ex_secret_spec, cn_client := None\<rparr>"
  obtain rec where rec: "GetConnection ex_store_env ''c1'' (as_db ex_api) = Inr rec" using ex_stored by blast
  obtain db where db: "SaveConnection ex_store_env 5 (rec\<lparr>cr_spec := ex_secret_spec\<rparr>) (as_db ex_api) = (Inr (), db)"
    using ex_save by blast
  have env: "av_store ex_update_env = ex_store_env" "av_now ex_update_env = 5" "env_parse (av_env ex_update_env) = ex_parse"
    "se_render ex_store_env = ex_render"
    by (simp_all add: ex_update_env_def ex_api_env_def ex_store_env_def)
  obtain r m where up: "Upsert ex_render (se_fresh ex_store_env) (av_env ex_update_env) ex_secret_spec (api_mqtt ex_secret_api) = (r, m)"
    by fastforce
  have "upsert_existing (av_env ex_update_env) ex_secret_spec ?c = (Inr (), setSpec ex_secret_spec ?c)"
    by (simp add: upsert_existing_def ex_session_conn_def newConn_def)
  then have r: "r = Inr ()" and get: "\<exists>d. Get ''c1'' m = Some d"
    using up by (auto simp: Upsert_def env ex_Normalize_again ex_secret_fields Get_store lift_conn_def)
  show ?thesis
    unfolding handleUpdateConnection_def
    using get by (auto simp: api_conn_def ex_secret_fields ex_toSpec env rec db up r Let_def view_now_def)
qed


end
