(* ===== verification/ApiRace.thy ===== *)
theory ApiRace
  imports ApiClaims
begin

text \<open>
  An update and a removal of the same connection at the same time (\<^verbatim>\<open>internal/api/connections.go\<close>). Neither handler
  holds a lock between what it does to the table and what it does to the manager, so each is cut in two here, the two
  together being the handler of \<^verbatim>\<open>ConnApi\<close>. When a removal runs between the two parts of an update, the manager is
  left with a connection that is not stored any more.
\<close>

section \<open>The handlers in two parts\<close>

definition update_save ::
    "ApiEnv \<Rightarrow> string \<Rightarrow> connectionRequest option \<Rightarrow> 'v ApiState \<Rightarrow> (nat + ConnectionSpec) \<times> 'v ApiState" where
  "update_save env i req s =
     (case api_conn i s of
        Inl e \<Rightarrow> (Inl e, s)
      | Inr c \<Rightarrow>
          (case req of
             None \<Rightarrow> (Inl 400, s)
           | Some req \<Rightarrow>
               (case toSpec (av_store env) req (cs_id (cn_spec c)) (Some (cn_spec c)) of
                  None \<Rightarrow> (Inl 400, s)
                | Some spec \<Rightarrow>
                    (case (case GetConnection (av_store env) (cs_id spec) (as_db s) of
                             Inr rec \<Rightarrow> Some rec
                           | Inl e \<Rightarrow> if e \<noteq> CS_NotFound then None
                                      else Some \<lparr>cr_spec = spec, cr_createdBy = [], cr_createdAt = 0, cr_updatedAt = 0\<rparr>) of
                       None \<Rightarrow> (Inl 500, s)
                     | Some rec \<Rightarrow>
                         (case SaveConnection (av_store env) (av_now env) (rec\<lparr>cr_spec := spec\<rparr>) (as_db s) of
                            (Inl _, _) \<Rightarrow> (Inl 500, s)
                          | (Inr _, db) \<Rightarrow> (Inr spec, s\<lparr>as_db := db\<rparr>))))))"

definition update_apply :: "ApiEnv \<Rightarrow> ConnectionSpec \<Rightarrow> 'v ApiState \<Rightarrow> (nat + connectionView) \<times> 'v ApiState" where
  "update_apply env spec s =
     (let (r, m) = Upsert (se_render (av_store env)) (se_fresh (av_store env)) (av_env env) spec (api_mqtt s);
          s = configureRecording spec (set_mqtt m s)
      in (case r of Inl _ \<Rightarrow> (Inl 502, s) | Inr _ \<Rightarrow> (view_now (cs_id spec) s, s)))"

definition delete_forget :: "ApiEnv \<Rightarrow> string \<Rightarrow> 'v ApiState \<Rightarrow> 'v ApiState" where
  "delete_forget env i s =
     set_mqtt (snd (Remove (av_env env) i (api_mqtt s))) (s\<lparr>as_recorder := map_option (Configure i False 0) (as_recorder s)\<rparr>)"

definition delete_drop :: "string \<Rightarrow> 'v ApiState \<Rightarrow> nat \<times> 'v ApiState" where
  "delete_drop i s =
     (case DeleteConnection i (as_db s) of
        (Inl e, _) \<Rightarrow> (if e = CS_NotFound then 404 else 500, s)
      | (Inr _, db) \<Rightarrow> (204, s\<lparr>as_db := db\<rparr>))"

lemma update_parts:
  "handleUpdateConnection env i req s =
     (case update_save env i req s of (Inl e, s) \<Rightarrow> (Inl e, s) | (Inr spec, s) \<Rightarrow> update_apply env spec s)"
  by (simp add: handleUpdateConnection_def update_save_def update_apply_def Let_def split: sum.split option.split prod.split)

lemma delete_parts: "handleDeleteConnection env i s = delete_drop i (delete_forget env i s)"
  by (cases "Remove (av_env env) i (api_mqtt s)")
    (simp add: handleDeleteConnection_def delete_drop_def delete_forget_def Let_def split: prod.split sum.split)

section \<open>A removal between the two parts of an update\<close>

lemma dropped_row: "delete_drop i s = (204, t) \<Longrightarrow> i \<notin> stored_ids t \<and> api_mqtt t = api_mqtt s"
  by (auto simp: delete_drop_def DeleteConnection_def split: if_splits)

lemma forgotten_conn: "Get i (api_mqtt (delete_forget env i s)) = None" if "filed (api_mqtt s)"
proof -
  have "i \<notin> mgr_keys (api_mqtt (delete_forget env i s))"
    using Remove_filed [OF that, of "av_env env" i] by (simp add: delete_forget_def)
  then show ?thesis using Get_in_keys by fastforce
qed

text \<open>
  The connection is back under its id and not in the table: it is gone at the next start, and what is published or
  recorded on it until then finds no row to belong to.
\<close>

lemma removed_while_updated:
  assumes "update_save env i req s = (Inr spec, s1)" "delete_drop i (delete_forget env' i s1) = (204, s2)"
    and "update_apply env spec s2 = (Inr v, t)" "api_ok s"
  shows "Get i (api_mqtt t) \<noteq> None \<and> i \<notin> stored_ids t \<and> \<not> api_ok t"
proof -
  have id: "cs_id spec = i"
  proof -
    obtain c req' where c: "api_conn i s = Inr c" "toSpec (av_store env) req' (cs_id (cn_spec c)) (Some (cn_spec c)) = Some spec"
      using assms(1) by (auto simp: update_save_def split: sum.splits option.splits prod.splits if_splits)
    then obtain w where "Normalize (se_url (av_store env)) (se_render (av_store env)) (se_fresh (av_store env))
        (request_spec req' w (cs_id (cn_spec c)) (Some (cn_spec c))) = Inr spec"
      by (auto simp: toSpec_def split: sum.splits)
    from Normalize_id [OF this] api_conn_id [OF assms(4) c(1)] show ?thesis
      by (simp add: request_spec_def Let_def secrets_of_def)
  qed
  have t: "as_db t = as_db s2" "view_now i t = Inr v"
    using assms(3) by (auto simp: update_apply_def Let_def id split: sum.splits prod.splits)
  have "i \<notin> stored_ids t" using dropped_row [OF assms(2)] t(1) by simp
  moreover have "Get i (api_mqtt t) \<noteq> None" using t(2) by (simp add: view_now_def split: option.splits)
  moreover have "\<not> api_ok t"
    using calculation Get_in_keys [of i "api_mqtt t"] unfolding api_ok_def by blast
  ultimately show ?thesis by blast
qed

lemma removed_while_updated_happens:
  "\<exists>spec s1 s2 v t. update_save ex_update_env ''c1'' (Some ex_update) ex_secret_api = (Inr spec, s1) \<and>
     delete_drop ''c1'' (delete_forget ex_update_env ''c1'' s1) = (204, s2) \<and> update_apply ex_update_env spec s2 = (Inr v, t)"
proof -
  have env: "av_store ex_update_env = ex_store_env" "av_now ex_update_env = 5" "env_parse (av_env ex_update_env) = ex_parse"
    "se_render ex_store_env = ex_render"
    by (simp_all add: ex_update_env_def ex_api_env_def ex_store_env_def)
  obtain rec where rec: "GetConnection ex_store_env ''c1'' (as_db ex_api) = Inr rec" using ex_stored by blast
  obtain db where db: "SaveConnection ex_store_env 5 (rec\<lparr>cr_spec := ex_secret_spec\<rparr>) (as_db ex_api) = (Inr (), db)"
    using ex_save by blast
  let ?s1 = "ex_secret_api\<lparr>as_db := db\<rparr>"
  have save: "update_save ex_update_env ''c1'' (Some ex_update) ex_secret_api = (Inr ex_secret_spec, ?s1)"
    by (simp add: update_save_def api_conn_def ex_secret_fields ex_toSpec env rec db)
  have row: "''c1'' \<in> rw_id ` set (cdb_rows db)"
    using SaveConnection_ids [OF db] by (simp add: ex_secret_fields)
  let ?s = "delete_forget ex_update_env ''c1'' ?s1"
  have "as_db ?s = db" by (simp add: delete_forget_def)
  then obtain s2 where s2: "delete_drop ''c1'' ?s = (204, s2)"
    using row by (simp add: delete_drop_def DeleteConnection_def)
  have "filed (api_mqtt ?s1)" using ex_secret_ok by (simp add: api_ok_def)
  then have none: "Get ''c1'' (api_mqtt s2) = None" using dropped_row [OF s2] forgotten_conn by fastforce
  then obtain m where "Upsert ex_render (se_fresh ex_store_env) (av_env ex_update_env) ex_secret_spec (api_mqtt s2) = (Inr (), m)"
    "\<exists>d. Get ''c1'' m = Some d"
    by (simp add: Upsert_def env ex_Normalize_again ex_secret_fields Get_store)
  then have "\<exists>v t. update_apply ex_update_env ex_secret_spec s2 = (Inr v, t)"
    by (auto simp: update_apply_def env ex_secret_fields view_now_def)
  with save s2 show ?thesis by blast
qed

end
