(* ===== verification/Config.thy ===== *)
theory Config
  imports Identity Numbers Json
begin

text \<open>
  \<^verbatim>\<open>internal/config/config.go\<close>: the configuration of the server, from a YAML file and the environment, filled in
  and checked. Reading YAML into a configuration is a parameter; the environment is a map of variables; the maps
  of providers are lists of pairs, in the order in which the loops of the code come upon them. An upper case
  letter of a provider's id is one of ASCII.
\<close>

section \<open>What is configured\<close>

record TLSConfig =
  tc_enabled :: bool
  tc_certFile :: string
  tc_keyFile :: string

definition ModeStandalone :: string where "ModeStandalone = ''standalone''"
definition ModeIngress :: string where "ModeIngress = ''ingress''"

text \<open>A list that is not configured is \<^const>\<open>None\<close>, one that is configured empty is empty.\<close>

record IngressSection =
  ig_trustedProxies :: "string list option"
  ig_defaultRole :: string
  ig_adminUsers :: "string list"
  ig_fallbackUser :: string

record ProviderConfig =
  op_enabled :: bool
  op_displayName :: string
  op_issuer :: string
  op_clientID :: string
  op_clientSecret :: string
  op_scopes :: "string list"
  op_allowedDomains :: "string list"
  op_adminEmails :: "string list"

record SAMLProviderConfig =
  sp_enabled :: bool
  sp_displayName :: string
  sp_metadataURL :: string
  sp_metadataFile :: string
  sp_entityID :: string
  sp_emailAttribute :: string
  sp_nameAttribute :: string
  sp_allowedDomains :: "string list"
  sp_adminEmails :: "string list"

record AuthSection =
  au_mode :: string
  au_ingress :: IngressSection
  au_sessionTTLHours :: int
  au_requireTwoFactor :: bool
  au_twoFactorIssuer :: string
  au_trustProxyHeaders :: bool
  au_allowLocal :: bool
  au_allowSignup :: bool
  au_providers :: "(string \<times> ProviderConfig) list"
  au_samlProviders :: "(string \<times> SAMLProviderConfig) list"

record ConnectionSeed =
  sd_name :: string
  sd_url :: string
  sd_username :: string
  sd_password :: string
  sd_version :: string
  sd_subscribe :: "string list"
  sd_autoConnect :: "bool option"
  sd_insecureSkipVerify :: bool
  sd_serverName :: string
  sd_caPEM :: string
  sd_caFile :: string
  sd_clientCertPEM :: string
  sd_clientCertFile :: string
  sd_clientKeyPEM :: string
  sd_clientKeyFile :: string

definition Wanted :: "ConnectionSeed \<Rightarrow> bool" where
  "Wanted c \<longleftrightarrow> sd_autoConnect c = None \<or> sd_autoConnect c = Some True"

record PluginConfig =
  pgc_enabled :: bool
  pgc_settings :: "(string \<times> Json) list"

record Config =
  cf_addr :: string
  cf_baseURL :: string
  cf_dataDir :: string
  cf_secretKey :: string
  cf_frameAncestors :: "string list"
  cf_tls :: TLSConfig
  cf_auth :: AuthSection
  cf_connections :: "ConnectionSeed list"
  cf_plugins :: "(string \<times> PluginConfig) list"

definition config_Default :: Config where
  "config_Default =
     \<lparr>cf_addr = ''127.0.0.1:8114'', cf_baseURL = ''http://127.0.0.1:8114'', cf_dataDir = ''./data'', cf_secretKey = [],
      cf_frameAncestors = [], cf_tls = \<lparr>tc_enabled = False, tc_certFile = [], tc_keyFile = []\<rparr>,
      cf_auth = \<lparr>au_mode = ModeStandalone,
        au_ingress = \<lparr>ig_trustedProxies = Some [''172.30.32.2''], ig_defaultRole = ''operator'', ig_adminUsers = [],
                      ig_fallbackUser = []\<rparr>,
        au_sessionTTLHours = 24 * 7, au_requireTwoFactor = False, au_twoFactorIssuer = [], au_trustProxyHeaders = False,
        au_allowLocal = True, au_allowSignup = False, au_providers = [], au_samlProviders = []\<rparr>,
      cf_connections = [], cf_plugins = []\<rparr>"

section \<open>The environment\<close>

type_synonym environment = "string \<rightharpoonup> string"

definition Getenv :: "environment \<Rightarrow> string \<Rightarrow> string" where
  "Getenv env key = (case env key of None \<Rightarrow> [] | Some v \<Rightarrow> v)"

definition splitList :: "string \<Rightarrow> string list" where
  "splitList raw = filter (\<lambda>p. p \<noteq> []) (map trim_space (split_on CHR '','' raw))"

text \<open>No part at all leaves the slice nil.\<close>

definition splitList_slice :: "string \<Rightarrow> string list option" where
  "splitList_slice raw = (if splitList raw = [] then None else Some (splitList raw))"

definition boolEnv :: "environment \<Rightarrow> string \<Rightarrow> bool option" where
  "boolEnv env key = (if Getenv env key = [] then None else ParseBool (Getenv env key))"

text \<open>A variable that is set replaces what the file says.\<close>

definition env_string :: "environment \<Rightarrow> string \<Rightarrow> (string \<Rightarrow> 'a \<Rightarrow> 'a) \<Rightarrow> 'a \<Rightarrow> 'a" where
  "env_string env key upd x = (if Getenv env key \<noteq> [] then upd (Getenv env key) x else x)"

definition env_bool :: "environment \<Rightarrow> string \<Rightarrow> (bool \<Rightarrow> 'a \<Rightarrow> 'a) \<Rightarrow> 'a \<Rightarrow> 'a" where
  "env_bool env key upd x = (case boolEnv env key of None \<Rightarrow> x | Some v \<Rightarrow> upd v x)"

definition env_ingress :: "environment \<Rightarrow> IngressSection \<Rightarrow> IngressSection" where
  "env_ingress env =
     env_string env ''MQTTVIEW_INGRESS_FALLBACK_USER'' (\<lambda>v c. c\<lparr>ig_fallbackUser := v\<rparr>) \<circ>
     env_string env ''MQTTVIEW_INGRESS_ADMIN_USERS'' (\<lambda>v c. c\<lparr>ig_adminUsers := splitList v\<rparr>) \<circ>
     env_string env ''MQTTVIEW_INGRESS_DEFAULT_ROLE'' (\<lambda>v c. c\<lparr>ig_defaultRole := to_lower v\<rparr>) \<circ>
     env_string env ''MQTTVIEW_INGRESS_TRUSTED_PROXIES'' (\<lambda>v c. c\<lparr>ig_trustedProxies := splitList_slice v\<rparr>)"

definition provider_prefix :: "string \<Rightarrow> string" where
  "provider_prefix i = ''MQTTVIEW_OIDC_'' @ to_upper (map (\<lambda>c. if c = CHR ''-'' then CHR ''_'' else c) i)"

definition env_provider :: "environment \<Rightarrow> string \<Rightarrow> ProviderConfig \<Rightarrow> ProviderConfig" where
  "env_provider env i =
     (let pre = provider_prefix i in
      env_bool env (pre @ ''_ENABLED'') (\<lambda>v p. p\<lparr>op_enabled := v\<rparr>) \<circ>
      env_string env (pre @ ''_ISSUER'') (\<lambda>v p. p\<lparr>op_issuer := v\<rparr>) \<circ>
      env_string env (pre @ ''_CLIENT_SECRET'') (\<lambda>v p. p\<lparr>op_clientSecret := v\<rparr>) \<circ>
      env_string env (pre @ ''_CLIENT_ID'') (\<lambda>v p. p\<lparr>op_clientID := v\<rparr>))"

definition env_auth :: "environment \<Rightarrow> AuthSection \<Rightarrow> AuthSection" where
  "env_auth env a =
     (let a = env_bool env ''MQTTVIEW_REQUIRE_TWO_FACTOR'' (\<lambda>v a. a\<lparr>au_requireTwoFactor := v\<rparr>) a;
          a = env_string env ''MQTTVIEW_TWO_FACTOR_ISSUER'' (\<lambda>v a. a\<lparr>au_twoFactorIssuer := v\<rparr>) a;
          a = env_bool env ''MQTTVIEW_TRUST_PROXY_HEADERS'' (\<lambda>v a. a\<lparr>au_trustProxyHeaders := v\<rparr>) a;
          a = env_string env ''MQTTVIEW_AUTH_MODE'' (\<lambda>v a. a\<lparr>au_mode := to_lower v\<rparr>) a;
          a = a\<lparr>au_ingress := env_ingress env (au_ingress a)\<rparr>;
          a = env_bool env ''MQTTVIEW_ALLOW_LOCAL'' (\<lambda>v a. a\<lparr>au_allowLocal := v\<rparr>) a;
          a = env_bool env ''MQTTVIEW_ALLOW_SIGNUP'' (\<lambda>v a. a\<lparr>au_allowSignup := v\<rparr>) a
      in a\<lparr>au_providers := map (\<lambda>(i, p). (i, env_provider env i p)) (au_providers a)\<rparr>)"

definition env_tls :: "environment \<Rightarrow> TLSConfig \<Rightarrow> TLSConfig" where
  "env_tls env =
     env_string env ''MQTTVIEW_TLS_KEY'' (\<lambda>v t. t\<lparr>tc_keyFile := v\<rparr>) \<circ>
     env_string env ''MQTTVIEW_TLS_CERT'' (\<lambda>v t. t\<lparr>tc_certFile := v, tc_enabled := True\<rparr>)"

definition applyEnv :: "environment \<Rightarrow> Config \<Rightarrow> Config" where
  "applyEnv env c =
     (let c = env_string env ''MQTTVIEW_ADDR'' (\<lambda>v c. c\<lparr>cf_addr := v\<rparr>) c;
          c = env_string env ''MQTTVIEW_BASE_URL'' (\<lambda>v c. c\<lparr>cf_baseURL := v\<rparr>) c;
          c = env_string env ''MQTTVIEW_DATA_DIR'' (\<lambda>v c. c\<lparr>cf_dataDir := v\<rparr>) c;
          c = env_string env ''MQTTVIEW_SECRET_KEY'' (\<lambda>v c. c\<lparr>cf_secretKey := v\<rparr>) c
      in c\<lparr>cf_tls := env_tls env (cf_tls c), cf_auth := env_auth env (cf_auth c)\<rparr>)"

section \<open>The checks\<close>

datatype config_error =
    CE_Parse | CE_Read | CE_Addr | CE_TLS | CE_Mode string | CE_Nobody
  | CE_Clash string | CE_Metadata string | CE_Issuer string | CE_Client string
  | CE_NoProxies | CE_Proxy string | CE_DefaultRole string

definition hasEnabledProvider :: "AuthSection \<Rightarrow> bool" where
  "hasEnabledProvider a \<longleftrightarrow>
     (\<exists>p \<in> set (au_providers a). op_enabled (snd p)) \<or> (\<exists>p \<in> set (au_samlProviders a). sp_enabled (snd p))"

fun check_saml :: "string list \<Rightarrow> (string \<times> SAMLProviderConfig) list \<Rightarrow> config_error + unit" where
  "check_saml taken [] = Inr ()"
| "check_saml taken ((i, p) # ps) =
     (if i \<in> set taken then Inl (CE_Clash i)
      else if \<not> sp_enabled p then check_saml taken ps
      else if sp_metadataURL p = [] \<and> sp_metadataFile p = [] then Inl (CE_Metadata i)
      else check_saml taken ps)"

fun check_oidc :: "(string \<times> ProviderConfig) list \<Rightarrow> config_error + unit" where
  "check_oidc [] = Inr ()"
| "check_oidc ((i, p) # ps) =
     (if \<not> op_enabled p then check_oidc ps
      else if op_issuer p = [] then Inl (CE_Issuer i)
      else if op_clientID p = [] \<or> op_clientSecret p = [] then Inl (CE_Client i)
      else check_oidc ps)"

fun check_proxies :: "'ip Net \<Rightarrow> string list \<Rightarrow> config_error + unit" where
  "check_proxies net [] = Inr ()"
| "check_proxies net (p # ps) =
     (if nt_parseCIDR net p \<noteq> None then check_proxies net ps
      else if nt_parseIP net p = None then Inl (CE_Proxy p)
      else check_proxies net ps)"

definition validateIngress :: "'ip Net \<Rightarrow> IngressSection \<Rightarrow> config_error + unit" where
  "validateIngress net ig =
     (let proxies = (case ig_trustedProxies ig of None \<Rightarrow> [] | Some ps \<Rightarrow> ps) in
      if length proxies = 0 then Inl CE_NoProxies
      else case check_proxies net proxies of
        Inl e \<Rightarrow> Inl e
      | Inr _ \<Rightarrow>
          if ig_defaultRole ig \<notin> {''viewer'', ''operator'', ''admin''} then Inl (CE_DefaultRole (ig_defaultRole ig))
          else Inr ())"

definition validate :: "'ip Net \<Rightarrow> Config \<Rightarrow> config_error + unit" where
  "validate net c =
     (let a = cf_auth c; t = cf_tls c in
      if cf_addr c = [] then Inl CE_Addr
      else if tc_enabled t \<and> (tc_certFile t = [] \<or> tc_keyFile t = []) then Inl CE_TLS
      else if au_mode a = ModeIngress then validateIngress net (au_ingress a)
      else if au_mode a \<noteq> ModeStandalone then Inl (CE_Mode (au_mode a))
      else if \<not> au_allowLocal a \<and> \<not> hasEnabledProvider a then Inl CE_Nobody
      else case check_saml (map fst (au_providers a)) (au_samlProviders a) of
        Inl e \<Rightarrow> Inl e
      | Inr _ \<Rightarrow> check_oidc (au_providers a))"

section \<open>Loading\<close>

datatype config_file = CFile_Missing | CFile_Unreadable | CFile_Text string

definition trim_right_char :: "char \<Rightarrow> string \<Rightarrow> string" where
  "trim_right_char c s = rev (dropWhile (\<lambda>x. x = c) (rev s))"

text \<open>What is left out gets its default; only a list that is not there does, not one that is empty.\<close>

definition fill_in :: "Config \<Rightarrow> Config" where
  "fill_in c =
     (let a = cf_auth c;
          a = (if au_sessionTTLHours a \<le> 0 then a\<lparr>au_sessionTTLHours := 24 * 7\<rparr> else a);
          a = (if au_mode a = [] then a\<lparr>au_mode := ModeStandalone\<rparr> else a);
          ig = au_ingress a;
          ig = (if ig_defaultRole ig = [] then ig\<lparr>ig_defaultRole := ''operator''\<rparr> else ig);
          ig = (if ig_trustedProxies ig = None then ig\<lparr>ig_trustedProxies := Some [''172.30.32.2'']\<rparr> else ig);
          a = (if au_mode a = ModeIngress then a\<lparr>au_ingress := ig\<rparr> else a)
      in c\<lparr>cf_auth := a, cf_baseURL := trim_right_char CHR ''/'' (cf_baseURL c)\<rparr>)"

definition config_Load ::
    "(string \<Rightarrow> Config \<Rightarrow> Config option) \<Rightarrow> 'ip Net \<Rightarrow> environment \<Rightarrow> string \<Rightarrow> config_file \<Rightarrow> config_error + Config" where
  "config_Load yaml net env path content =
     (case (if path = [] then Inr config_Default
            else case content of
              CFile_Text raw \<Rightarrow> (case yaml raw config_Default of None \<Rightarrow> Inl CE_Parse | Some c \<Rightarrow> Inr c)
            | CFile_Missing \<Rightarrow> Inr config_Default
            | CFile_Unreadable \<Rightarrow> Inl CE_Read) of
        Inl e \<Rightarrow> Inl e
      | Inr c \<Rightarrow>
          let c = fill_in (applyEnv env c) in (case validate net c of Inl e \<Rightarrow> Inl e | Inr _ \<Rightarrow> Inr c))"

section \<open>What the server takes of it\<close>

definition ingress_config :: "Config \<Rightarrow> IngressConfig" where
  "ingress_config c =
     (let ig = au_ingress (cf_auth c) in
      \<lparr>ic_trustedProxies = (case ig_trustedProxies ig of None \<Rightarrow> [] | Some ps \<Rightarrow> ps), ic_fallbackUser = ig_fallbackUser ig,
       ic_adminUsers = ig_adminUsers ig, ic_defaultRole = ig_defaultRole ig\<rparr>)"

definition auth_config :: "Config \<Rightarrow> AuthConfig" where
  "auth_config c =
     (let a = cf_auth c in
      \<lparr>ac_allowLocal = au_allowLocal a, ac_requireTwoFactor = au_requireTwoFactor a,
       ac_trustProxyHeaders = au_trustProxyHeaders a, ac_sessionTTLHours = au_sessionTTLHours a\<rparr>)"

definition SAMLMetadataURL :: "Config \<Rightarrow> string \<Rightarrow> string" where
  "SAMLMetadataURL c i = cf_baseURL c @ ''/api/auth/saml/'' @ i @ ''/metadata''"

definition SAMLACSURL :: "Config \<Rightarrow> string \<Rightarrow> string" where
  "SAMLACSURL c i = cf_baseURL c @ ''/api/auth/saml/'' @ i @ ''/acs''"

definition RedirectURI :: "Config \<Rightarrow> string \<Rightarrow> string" where
  "RedirectURI c i = cf_baseURL c @ ''/api/auth/sso/'' @ i @ ''/callback''"

end
