(* ===== verification/Boot.thy ===== *)
theory Boot
  imports Config ConnApi
begin

text \<open>
  \<^verbatim>\<open>cmd/mqttview/main.go\<close>: how the server comes up, as far as it decides anything itself. The stored definitions
  are loaded into the manager, those declared in the configuration are added where no connection of that name is
  stored, the plugins are started, and the recorder is told what to record. Files are a map from paths to what
  can be read there.
\<close>

type_synonym files = "string \<rightharpoonup> string"

datatype boot_error = BE_Load conn_store_error | BE_Seed conn_store_error | BE_File string | BE_KeyPair

section \<open>Declared connections\<close>

text \<open>A path wins over an inline value; one that cannot be read is an error.\<close>

definition read_material :: "files \<Rightarrow> string \<Rightarrow> string \<Rightarrow> string \<Rightarrow> boot_error + string" where
  "read_material fs what path inline =
     (if path = [] then Inr inline else case fs path of None \<Rightarrow> Inl (BE_File what) | Some raw \<Rightarrow> Inr raw)"

definition seedTLS :: "files \<Rightarrow> ConnectionSeed \<Rightarrow> boot_error + TLSSpec" where
  "seedTLS fs seed =
     (case read_material fs ''ca_file'' (sd_caFile seed) (sd_caPEM seed) of
        Inl e \<Rightarrow> Inl e
      | Inr ca \<Rightarrow>
          (case read_material fs ''client_cert_file'' (sd_clientCertFile seed) (sd_clientCertPEM seed) of
             Inl e \<Rightarrow> Inl e
           | Inr cert \<Rightarrow>
               (case read_material fs ''client_key_file'' (sd_clientKeyFile seed) (sd_clientKeyPEM seed) of
                  Inl e \<Rightarrow> Inl e
                | Inr key \<Rightarrow>
                    if (cert = []) \<noteq> (key = []) then Inl BE_KeyPair
                    else Inr \<lparr>tls_insecureSkipVerify = sd_insecureSkipVerify seed, tls_serverName = sd_serverName seed,
                              tls_caPEM = ca, tls_clientCertPEM = cert, tls_clientKeyPEM = key, tls_minVersion = [],
                              tls_alpn = []\<rparr>)))"

definition seed_spec :: "string \<Rightarrow> ConnectionSeed \<Rightarrow> Version \<Rightarrow> TLSSpec \<Rightarrow> ConnectionSpec" where
  "seed_spec i seed version tls =
     \<lparr>cs_id = i, cs_name = trim_space (sd_name seed), cs_url = sd_url seed, cs_version = version, cs_clientID = [],
      cs_username = sd_username seed, cs_password = sd_password seed, cs_keepAlive = 0, cs_cleanStart = False,
      cs_sessionExpiry = 0, cs_connectTimeout = 0, cs_tls = tls, cs_will = None,
      cs_subscriptions = map (\<lambda>f. zero_sub\<lparr>sub_filter := f\<rparr>) (if sd_subscribe seed = [] then [''#''] else sd_subscribe seed),
      cs_autoConnect = Wanted seed, cs_sysStats = False, cs_recordToDisk = False, cs_recordKeep = 0,
      cs_historySize = 0, cs_topicLogEntries = 0, cs_topicLogBudget = 0\<rparr>"

definition folded_name :: "string \<Rightarrow> string" where
  "folded_name s = to_lower (trim_space s)"

text \<open>
  One declared connection: \<^const>\<open>None\<close> where the loop goes on to the next. \<open>env\<close> has the id this one gets, the
  nonces it is sealed with and the clock. Names stored before the loop are known; those of the loop are not added.
\<close>

definition seed_known :: "string set \<Rightarrow> ConnectionSeed \<Rightarrow> bool" where
  "seed_known known seed \<longleftrightarrow>
     trim_space (sd_name seed) = [] \<or> sd_url seed = [] \<or> to_lower (trim_space (sd_name seed)) \<in> known"

definition seed_one ::
    "files \<Rightarrow> string set \<Rightarrow> ApiEnv \<Rightarrow> ConnectionSeed \<Rightarrow> ConnDb \<times> Manager \<Rightarrow> boot_error option \<times> ConnDb \<times> Manager" where
  "seed_one fs known env seed s =
     (if seed_known known seed then (None, s)
      else case ParseVersion (sd_version seed) of
        Inl _ \<Rightarrow> (None, s)
      | Inr version \<Rightarrow>
          (case seedTLS fs seed of
             Inl e \<Rightarrow> (Some e, s)
           | Inr tls \<Rightarrow>
               let se = av_store env in
               (case Normalize (se_url se) (se_render se) (se_fresh se) (seed_spec (av_fresh env) seed version tls) of
                  Inl _ \<Rightarrow> (None, s)
                | Inr spec \<Rightarrow>
                    (case SaveConnection se (av_now env)
                            \<lparr>cr_spec = spec, cr_createdBy = [], cr_createdAt = 0, cr_updatedAt = 0\<rparr> (fst s) of
                       (Inl e, db) \<Rightarrow> (Some (BE_Seed e), db, snd s)
                     | (Inr _, db) \<Rightarrow>
                         (None, db, snd (Upsert (se_render se) (se_fresh se) (av_env env) spec (snd s)))))))"

fun seed_loop ::
    "files \<Rightarrow> string set \<Rightarrow> (ApiEnv \<times> ConnectionSeed) list \<Rightarrow> ConnDb \<times> Manager \<Rightarrow> boot_error option \<times> ConnDb \<times> Manager" where
  "seed_loop fs known [] s = (None, s)"
| "seed_loop fs known ((env, seed) # seeds) s =
     (case seed_one fs known env seed s of
        (Some e, s) \<Rightarrow> (Some e, s)
      | (None, s) \<Rightarrow> seed_loop fs known seeds s)"

definition seedConnections ::
    "files \<Rightarrow> StoreEnv \<Rightarrow> (ApiEnv \<times> ConnectionSeed) list \<Rightarrow> ConnDb \<times> Manager \<Rightarrow> boot_error option \<times> ConnDb \<times> Manager" where
  "seedConnections fs env seeds s =
     (if seeds = [] then (None, s)
      else case ListConnections env (fst s) of
        Inl e \<Rightarrow> (Some (BE_Load e), s)
      | Inr existing \<Rightarrow> seed_loop fs (folded_name ` (\<lambda>r. cs_name (cr_spec r)) ` set existing) seeds s)"

section \<open>Loading what is stored\<close>

text \<open>A definition that cannot be used is logged, and the next one is loaded.\<close>

definition loadConnections :: "StoreEnv \<Rightarrow> (ConnectionRecord \<Rightarrow> Env) \<Rightarrow> ConnDb \<Rightarrow> Manager \<Rightarrow> boot_error option \<times> Manager" where
  "loadConnections env dial db m =
     (case ListConnections env db of
        Inl e \<Rightarrow> (Some (BE_Load e), m)
      | Inr records \<Rightarrow>
          (None, fold (\<lambda>rec m. snd (Upsert (se_render env) (se_fresh env) (dial rec) (cr_spec rec) m)) records m))"

section \<open>Coming up\<close>

definition pluginDefaults :: "(Json \<Rightarrow> 'v) \<Rightarrow> Config \<Rightarrow> string \<rightharpoonup> bool \<times> 'v settings" where
  "pluginDefaults val c =
     map_option (\<lambda>pc. (pgc_enabled pc, map_of (map (map_prod id val) (pgc_settings pc)))) \<circ> map_of (cf_plugins c)"

definition configure_all :: "Manager \<Rightarrow> Recorder \<Rightarrow> Recorder" where
  "configure_all m rec =
     fold (\<lambda>c. Configure (cs_id (cn_spec c)) (cs_recordToDisk (cn_spec c)) (cs_recordKeep (cn_spec c))) (mgr_List m) rec"

text \<open>
  From the database on, with the hub and the recorder observing. What is in the database before a failure stays;
  no server comes of it.
\<close>

definition server_boot ::
    "files \<Rightarrow> ApiEnv \<Rightarrow> (ConnectionRecord \<Rightarrow> Env) \<Rightarrow> (ApiEnv \<times> ConnectionSeed) list \<Rightarrow>
     (string \<rightharpoonup> bool \<times> 'v settings) \<Rightarrow> 'v Runtime \<Rightarrow> ConnDb \<Rightarrow> boot_error + 'v ApiState" where
  "server_boot fs env dial seeds defaults plugins db =
     (let m = snd (AddObserver \<lparr>ob_onMessage = True, ob_onStatus = True\<rparr> NewManager);
          m = snd (AddObserver \<lparr>ob_onMessage = True, ob_onStatus = False\<rparr> m)
      in case loadConnections (av_store env) dial db m of
           (Some e, _) \<Rightarrow> Inl e
         | (None, m) \<Rightarrow>
             (case seedConnections fs (av_store env) seeds (db, m) of
                (Some e, _) \<Rightarrow> Inl e
              | (None, db, m) \<Rightarrow>
                  let r = Start (av_env env) defaults (plugins\<lparr>rt_mqtt := m\<rparr>)
                  in Inr \<lparr>as_db = db, as_runtime = r,
                          as_recorder = Some (configure_all (rt_mqtt r) (NewRecorder (cdb_recorded db))),
                          as_background = [], as_published = []\<rparr>))"

section \<open>The health check\<close>

text \<open>Where a running instance is asked: the port of what it binds, on the loopback address.\<close>

definition last_index :: "char \<Rightarrow> string \<Rightarrow> nat option" where
  "last_index c s = (if c \<in> set s then Some (length s - 1 - length (takeWhile (\<lambda>x. x \<noteq> c) (rev s))) else None)"

definition probe_addr :: "environment \<Rightarrow> string \<Rightarrow> string" where
  "probe_addr env addr =
     (let addr = (if addr = [] then (if Getenv env ''MQTTVIEW_ADDR'' = [] then ''127.0.0.1:8114'' else Getenv env ''MQTTVIEW_ADDR'')
                  else addr)
      in case last_index CHR '':'' addr of None \<Rightarrow> addr | Some i \<Rightarrow> ''127.0.0.1'' @ drop i addr)"

text \<open>What the command line overrides.\<close>

definition apply_flags :: "string \<Rightarrow> string \<Rightarrow> Config \<Rightarrow> Config" where
  "apply_flags addr dataDir c =
     (let c = (if addr \<noteq> [] then c\<lparr>cf_addr := addr\<rparr> else c)
      in if dataDir \<noteq> [] then c\<lparr>cf_dataDir := dataDir\<rparr> else c)"

end
