(* ===== verification/BootFacts.thy ===== *)
theory BootFacts
  imports Boot ApiRuns
begin

text \<open>
  A server that comes up has every connection it works with in the database, under the same id; what the
  configuration declares is added once and changes nothing that is there.
\<close>

section \<open>Coming up\<close>

definition pair_ok :: "ConnDb \<times> Manager \<Rightarrow> bool" where
  "pair_ok s \<longleftrightarrow> conn_db_ok (fst s) \<and> filed (snd s) \<and> mgr_keys (snd s) \<subseteq> rw_id ` set (cdb_rows (fst s))"

lemma Upsert_pair:
  assumes "pair_ok (db, m)" "cs_id spec \<in> rw_id ` set (cdb_rows db)"
  shows "pair_ok (db, snd (Upsert render fresh env spec m))"
proof -
  note new = Upsert_filed [of m render fresh env spec]
  from assms(1) have old: "conn_db_ok db" "filed m" "mgr_keys m \<subseteq> rw_id ` set (cdb_rows db)"
    by (simp_all add: pair_ok_def)
  then have "mgr_keys (snd (Upsert render fresh env spec m)) \<subseteq> rw_id ` set (cdb_rows db)"
    by (intro order_trans [OF conjunct2 [OF new]]) (simp_all only: insert_subset assms(2))
  with new [OF old(2)] old(1) show ?thesis by (simp add: pair_ok_def)
qed

lemma scanConnection_id: "scanConnection env row = Inr rec \<Longrightarrow> cs_id (cr_spec rec) = rw_id row \<and> cs_name (cr_spec rec) = rw_name row"
  by (auto simp: scanConnection_def Let_def split: option.splits if_splits)

lemma scan_all_ids:
  "scan_all env rows = Inr recs \<Longrightarrow>
   map (\<lambda>r. (cs_id (cr_spec r), cs_name (cr_spec r))) recs = map (\<lambda>r. (rw_id r, rw_name r)) rows"
  by (induction rows arbitrary: recs) (auto simp: scanConnection_id split: sum.splits)

lemma ListConnections_ids:
  assumes "ListConnections env db = Inr recs"
  shows "(\<lambda>r. (cs_id (cr_spec r), cs_name (cr_spec r))) ` set recs = (\<lambda>r. (rw_id r, rw_name r)) ` set (cdb_rows db)"
  using arg_cong [where f = set, OF scan_all_ids [OF assms [unfolded ListConnections_def]]]
  by (simp only: set_map set_sort)

lemma load_ok:
  assumes "pair_ok (db, m)" "loadConnections env dial db m = (e, m')"
  shows "pair_ok (db, m')"
proof (cases "ListConnections env db")
  case (Inl e)
  with assms show ?thesis by (simp add: loadConnections_def)
next
  case (Inr recs)
  have "cs_id (cr_spec rec) \<in> rw_id ` set (cdb_rows db)" if "rec \<in> set recs" for rec
    using ListConnections_ids [OF Inr] that by force
  then have "pair_ok (db, fold (\<lambda>rec m. snd (Upsert (se_render env) (se_fresh env) (dial rec) (cr_spec rec) m)) recs m)"
    using assms(1)
  proof (induction recs arbitrary: m)
    case (Cons r rs)
    then show ?case by (simp add: Upsert_pair)
  qed simp
  with assms(2) Inr show ?thesis by (auto simp: loadConnections_def)
qed

lemma save_pair:
  assumes "pair_ok (db, m)" "SaveConnection env now rec db = (r, db')"
  shows "pair_ok (db', m)"
proof -
  have "mgr_keys m \<subseteq> rw_id ` set (cdb_rows db')"
    using assms(1) SaveConnection_ids(1) [OF assms(2)] by (simp only: pair_ok_def fst_conv snd_conv) (rule order_trans; simp)
  with assms SaveConnection_ok [of db env now rec] show ?thesis by (simp add: pair_ok_def)
qed

lemma seed_one_ok:
  assumes "pair_ok s" "seed_one fs known env seed s = (e, s')"
  shows "pair_ok s'"
proof -
  obtain db m where s: "s = (db, m)" by fastforce
  have ok: "pair_ok (db, m)" using assms(1) s by simp
  have ids: "cs_id spec \<in> rw_id ` set (cdb_rows db')"
    if "SaveConnection se now \<lparr>cr_spec = spec, cr_createdBy = a, cr_createdAt = b, cr_updatedAt = c\<rparr> db = (Inr u, db')"
    for se now spec a b c u db'
    using SaveConnection_ids(2) [OF that] by simp
  show ?thesis
    using assms(2) ok unfolding s seed_one_def
    by (auto simp: Let_def split: if_splits sum.splits prod.splits intro: save_pair Upsert_pair ids)
qed

lemma seed_loop_ok: "pair_ok s \<Longrightarrow> seed_loop fs known seeds s = (e, s') \<Longrightarrow> pair_ok s'"
proof (induction fs known seeds s rule: seed_loop.induct)
  case (2 fs known env seed seeds s)
  then show ?case by (auto split: prod.splits option.splits dest: seed_one_ok)
qed simp

lemma seed_ok: "pair_ok s \<Longrightarrow> seedConnections fs env seeds s = (e, s') \<Longrightarrow> pair_ok s'"
  by (auto simp: seedConnections_def split: if_splits sum.splits intro: seed_loop_ok)

lemma applySubscriptions_filed:
  "filed (rt_mqtt r) \<Longrightarrow> filed (rt_mqtt (applySubscriptions env i r)) \<and> mgr_keys (rt_mqtt (applySubscriptions env i r)) = mgr_keys (rt_mqtt r)"
  using ApplyAll_filed [of r env "[i]"] by (simp add: ApplyAll_def)

lemma load_plugin_filed:
  fixes r :: "'v Runtime"
  assumes "filed (rt_mqtt r)"
  shows "filed (rt_mqtt (load_plugin env d ip r)) \<and> mgr_keys (rt_mqtt (load_plugin env d ip r)) = mgr_keys (rt_mqtt r)"
proof -
  have up: "rt_mqtt (upd_instance i f t) = rt_mqtt t" for i f and t :: "'v Runtime"
    by (simp add: upd_instance_def split: option.splits)
  have "filed (rt_mqtt (snd (start_plugin env i t))) \<and> mgr_keys (rt_mqtt (snd (start_plugin env i t))) = mgr_keys (rt_mqtt t)"
    if "filed (rt_mqtt t)" for i and t :: "'v Runtime"
    using that applySubscriptions_filed [of "upd_instance i _ t"] by (simp add: start_plugin_def up split: option.splits)
  with assms show ?thesis by (simp add: load_plugin_def Let_def split: prod.splits)
qed

lemma Start_filed:
  assumes "filed (rt_mqtt r)"
  shows "filed (rt_mqtt (Start env d r)) \<and> mgr_keys (rt_mqtt (Start env d r)) = mgr_keys (rt_mqtt r)"
proof -
  have loop: "filed (rt_mqtt (fold (load_plugin env d) ps r)) \<and> mgr_keys (rt_mqtt (fold (load_plugin env d) ps r)) = mgr_keys (rt_mqtt r)" for ps
    using assms
  proof (induction ps arbitrary: r)
    case (Cons p ps)
    with Cons.IH [of "load_plugin env d p r"] load_plugin_filed [of r env d p] show ?case by simp
  qed simp
  have "filed (snd (AddObserver ob m)) = filed m" "mgr_keys (snd (AddObserver ob m)) = mgr_keys m" for ob m
    by (simp_all add: filed_def Get_def AddObserver_def)
  with loop show ?thesis by (simp add: Start_def Let_def)
qed

lemma NewManager_pair: "conn_db_ok db \<Longrightarrow> pair_ok (db, snd (AddObserver ob (snd (AddObserver ob' NewManager))))"
  by (simp add: pair_ok_def filed_def Get_def AddObserver_def NewManager_def)

lemma server_boot_ok:
  assumes db: "conn_db_ok db" and boot: "server_boot fs env dial seeds defaults plugins db = Inr s"
  shows "api_ok s"
proof -
  let ?m = "snd (AddObserver \<lparr>ob_onMessage = True, ob_onStatus = False\<rparr>
      (snd (AddObserver \<lparr>ob_onMessage = True, ob_onStatus = True\<rparr> NewManager)))"
  obtain m1 db2 m2 where st: "loadConnections (av_store env) dial db ?m = (None, m1)"
      "seedConnections fs (av_store env) seeds (db, m1) = (None, db2, m2)"
      "as_db s = db2" "as_runtime s = Start (av_env env) defaults (plugins\<lparr>rt_mqtt := m2\<rparr>)"
    using boot by (auto simp: server_boot_def Let_def split: prod.splits option.splits)
  have "pair_ok (db2, m2)"
    using seed_ok [OF load_ok [OF NewManager_pair [OF db] st(1)] st(2)] .
  with Start_filed [of "plugins\<lparr>rt_mqtt := m2\<rparr>" "av_env env" defaults] show ?thesis
    by (simp add: api_ok_def pair_ok_def st(3,4))
qed

text \<open>Whatever was in the database, and whatever the server was asked since it came up.\<close>

lemma serving_ok: "server_boot fs env dial seeds defaults plugins (conn_db_run ops) = Inr s0 \<Longrightarrow> api_ok (api_run evs s0)"
  by (intro api_run_ok server_boot_ok [OF conn_db_run_ok])

text \<open>
  C27. Whatever is in the database when the server comes up, and whatever is asked of it and happens to its
  connections since, one thing after another (\<^verbatim>\<open>ApiRace\<close> has two at once), a connection it works with is one that is stored: it is filed under the id of its definition,
  no two have the same id, and what is published, saved or recorded belongs to a connection that is stored.
\<close>

theorem manager_follows_database:
  assumes "server_boot fs env dial seeds defaults plugins (conn_db_run ops) = Inr s0"
  shows "conn_db_ok (as_db (api_run evs s0)) \<and>
    distinct (map fst (mg_conns (api_mqtt (api_run evs s0)))) \<and>
    fst ` set (mg_conns (api_mqtt (api_run evs s0))) \<subseteq> rw_id ` set (cdb_rows (as_db (api_run evs s0))) \<and>
    (Get i (api_mqtt (api_run evs s0)) = Some c \<longrightarrow> cs_id (cn_spec c) = i)"
  using serving_ok [OF assms, of evs] by (auto simp: api_ok_def filed_def)

section \<open>Declared connections\<close>

abbreviation stored_names :: "ConnDb \<Rightarrow> string set" where
  "stored_names db \<equiv> (\<lambda>r. folded_name (rw_name r)) ` set (cdb_rows db)"

definition fresh_seeds :: "(ApiEnv \<times> ConnectionSeed) list \<Rightarrow> ConnDb \<Rightarrow> bool" where
  "fresh_seeds seeds db \<longleftrightarrow>
     distinct (map (\<lambda>(env, _). av_fresh env) seeds) \<and> (\<forall>(env, _) \<in> set seeds. av_fresh env \<notin> rw_id ` set (cdb_rows db))"

text \<open>What makes a declaration one that the loop does not skip.\<close>

definition declares :: "files \<Rightarrow> ApiEnv \<times> ConnectionSeed \<Rightarrow> bool" where
  "declares fs x =
     (case x of (env, seed) \<Rightarrow>
        trim_space (sd_name seed) \<noteq> [] \<and> sd_url seed \<noteq> [] \<and>
        (case ParseVersion (sd_version seed) of
           Inl _ \<Rightarrow> False
         | Inr v \<Rightarrow>
             (case seedTLS fs seed of
                Inl _ \<Rightarrow> False
              | Inr tls \<Rightarrow>
                  \<not> isl (Normalize (se_url (av_store env)) (se_render (av_store env)) (se_fresh (av_store env))
                     (seed_spec (av_fresh env) seed v tls)))))"

lemma Normalize_name:
  assumes "Normalize parse render fresh s = Inr s'"
  shows "cs_name s' = trim_space (cs_name s)"
proof -
  obtain s1 s2 scheme subs where st:
    "normalize_url parse render (s\<lparr>cs_name := trim_space (cs_name s)\<rparr>) = Inr (s1, scheme)"
    "normalize_numbers fresh scheme s1 = Inr s2" "s' = s2\<lparr>cs_subscriptions := subs\<rparr>"
    using assms by (rule Normalize_stages)
  have "cs_name s1 = trim_space (cs_name s)"
    using st(1) by (auto simp: normalize_url_def Let_def split: if_splits option.splits sum.splits prod.splits)
  moreover have "cs_name s2 = cs_name s1"
    using st(2) by (auto simp: normalize_numbers_def Let_def split: if_splits)
  ultimately show ?thesis using st(3) by simp
qed

lemma SaveConnection_new_row:
  assumes "SaveConnection env now rec db = (Inr u, db')" "cs_id (cr_spec rec) \<notin> rw_id ` set (cdb_rows db)"
  obtains row where "cdb_rows db' = cdb_rows db @ [row]" "rw_id row = cs_id (cr_spec rec)"
    "rw_name row = trim_space (cs_name (cr_spec rec))"
proof -
  obtain spec p t created where spec: "Normalize (se_url env) (se_render env) (se_fresh env) (cr_spec rec) = Inr spec"
    and db': "db' = upsert_row (row_of env spec p t (cr_createdBy rec) created now) db"
    using assms(1) by (auto simp: SaveConnection_def split: sum.splits if_splits)
  show ?thesis
  proof (rule that)
    show "cdb_rows db' = cdb_rows db @ [row_of env spec p t (cr_createdBy rec) created now]"
      using assms(2) Normalize_id [OF spec] by (simp add: db' upsert_row_def)
  qed (simp_all add: row_of_def Normalize_id [OF spec] Normalize_name [OF spec])
qed

lemma seed_one_adds:
  assumes "seed_one fs known env seed (db, m) = (None, db', m')" "av_fresh env \<notin> rw_id ` set (cdb_rows db)"
  shows "\<exists>new. cdb_rows db' = cdb_rows db @ new \<and> rw_id ` set new \<subseteq> {av_fresh env} \<and>
    (\<forall>r \<in> set new. folded_name (rw_name r) \<notin> known) \<and>
    (declares fs (env, seed) \<longrightarrow> folded_name (sd_name seed) \<in> known \<union> (\<lambda>r. folded_name (rw_name r)) ` set new)"
proof -
  consider "db' = db" "declares fs (env, seed) \<Longrightarrow> folded_name (sd_name seed) \<in> known"
    | spec v tls where "\<not> seed_known known seed"
      "Normalize (se_url (av_store env)) (se_render (av_store env)) (se_fresh (av_store env)) (seed_spec (av_fresh env) seed v tls) = Inr spec"
      "SaveConnection (av_store env) (av_now env) \<lparr>cr_spec = spec, cr_createdBy = [], cr_createdAt = 0, cr_updatedAt = 0\<rparr> db = (Inr (), db')"
    using assms(1)
    by (auto simp: seed_one_def seed_known_def folded_name_def declares_def Let_def split: if_splits sum.splits prod.splits)
  then show ?thesis
  proof cases
    case 1
    then show ?thesis by (intro exI [where x = "[]"]) auto
  next
    case (2 spec v tls)
    have spec: "cs_id spec = av_fresh env" "cs_name spec = trim_space (sd_name seed)"
      using Normalize_id [OF 2(2)] Normalize_name [OF 2(2)] by (simp_all add: seed_spec_def)
    obtain row where row: "cdb_rows db' = cdb_rows db @ [row]" "rw_id row = av_fresh env" "rw_name row = trim_space (sd_name seed)"
      using SaveConnection_new_row [OF 2(3)] assms(2) spec by auto
    have "folded_name (rw_name row) \<notin> known"
      using 2(1) by (simp add: seed_known_def folded_name_def row(3))
    with row show ?thesis by (intro exI [where x = "[row]"]) (simp add: folded_name_def)
  qed
qed

lemma seed_loop_adds:
  "seed_loop fs known seeds (db, m) = (None, db', m') \<Longrightarrow> fresh_seeds seeds db \<Longrightarrow>
   \<exists>new. cdb_rows db' = cdb_rows db @ new \<and> (\<forall>r \<in> set new. folded_name (rw_name r) \<notin> known) \<and>
     (\<forall>x \<in> set seeds. declares fs x \<longrightarrow> folded_name (sd_name (snd x)) \<in> known \<union> (\<lambda>r. folded_name (rw_name r)) ` set new)"
proof (induction seeds arbitrary: db m)
  case (Cons x seeds)
  obtain env seed where x: "x = (env, seed)" by fastforce
  obtain db1 m1 where one: "seed_one fs known env seed (db, m) = (None, db1, m1)"
    and rest: "seed_loop fs known seeds (db1, m1) = (None, db', m')"
    using Cons.prems(1) by (auto simp: x split: prod.splits option.splits)
  have "av_fresh env \<notin> rw_id ` set (cdb_rows db)"
    using Cons.prems(2) by (simp add: fresh_seeds_def x)
  then obtain new1 where new1: "cdb_rows db1 = cdb_rows db @ new1" "rw_id ` set new1 \<subseteq> {av_fresh env}"
    "\<forall>r \<in> set new1. folded_name (rw_name r) \<notin> known"
    "declares fs x \<longrightarrow> folded_name (sd_name seed) \<in> known \<union> (\<lambda>r. folded_name (rw_name r)) ` set new1"
    using seed_one_adds [OF one] x by blast
  have ids: "rw_id ` set (cdb_rows db1) = rw_id ` set (cdb_rows db) \<union> rw_id ` set new1"
    by (simp add: new1(1) image_Un)
  have "av_fresh e \<notin> rw_id ` set (cdb_rows db1)" if "(e, sd) \<in> set seeds" for e sd
  proof -
    have "av_fresh e \<noteq> av_fresh env" "av_fresh e \<notin> rw_id ` set (cdb_rows db)"
      using Cons.prems(2) that unfolding fresh_seeds_def x by (force, force)
    then show ?thesis using new1(2) unfolding ids by blast
  qed
  then have "fresh_seeds seeds db1"
    using Cons.prems(2) by (auto simp: fresh_seeds_def x)
  from Cons.IH [OF rest this] obtain new2 where new2: "cdb_rows db' = cdb_rows db1 @ new2"
    "\<forall>r \<in> set new2. folded_name (rw_name r) \<notin> known"
    "\<forall>x \<in> set seeds. declares fs x \<longrightarrow> folded_name (sd_name (snd x)) \<in> known \<union> (\<lambda>r. folded_name (rw_name r)) ` set new2"
    by blast
  show ?case
  proof (intro exI [where x = "new1 @ new2"] conjI)
    show "cdb_rows db' = cdb_rows db @ new1 @ new2" using new1(1) new2(1) by simp
    show "\<forall>r \<in> set (new1 @ new2). folded_name (rw_name r) \<notin> known" using new1(3) new2(2) by auto
    show "\<forall>y \<in> set (x # seeds). declares fs y \<longrightarrow>
        folded_name (sd_name (snd y)) \<in> known \<union> (\<lambda>r. folded_name (rw_name r)) ` set (new1 @ new2)"
      using new1(4) new2(3) by (auto simp: x)
  qed
qed simp

lemma known_seeds_ignored:
  "(\<forall>x \<in> set seeds. folded_name (sd_name (snd x)) \<in> known) \<Longrightarrow> seed_loop fs known seeds s = (None, s)"
  by (induction seeds) (auto simp: seed_one_def seed_known_def folded_name_def)

lemma stored_names_list:
  "ListConnections env db = Inr recs \<Longrightarrow> folded_name ` (\<lambda>r. cs_name (cr_spec r)) ` set recs = stored_names db"
  using arg_cong [where f = "image (\<lambda>p. folded_name (snd p))", OF ListConnections_ids [of env db recs]]
  by (simp add: image_image)

text \<open>
  C28. Connections declared in the configuration are only ever added. What is stored stays as it is, a row is new
  only where no stored connection had its name, every usable declaration is stored afterwards under its name, and
  the next start, which reads the same declarations, adds nothing.
\<close>

theorem declared_once:
  assumes run: "seedConnections fs se seeds (db, m) = (None, db', m')" and ids: "fresh_seeds seeds db"
  shows "\<exists>new. cdb_rows db' = cdb_rows db @ new \<and> (\<forall>r \<in> set new. folded_name (rw_name r) \<notin> stored_names db) \<and>
    (\<forall>x \<in> set seeds. declares fs x \<longrightarrow> folded_name (sd_name (snd x)) \<in> stored_names db') \<and>
    (list_all (declares fs) seeds \<and> map snd seeds' = map snd seeds \<and> \<not> isl (ListConnections se' db') \<longrightarrow>
      seedConnections fs se' seeds' (db', m2) = (None, db', m2))"
proof (cases "seeds = []")
  case True
  with run show ?thesis by (auto simp: seedConnections_def)
next
  case False
  then obtain recs where recs: "ListConnections se db = Inr recs" "seed_loop fs (stored_names db) seeds (db, m) = (None, db', m')"
    using run by (auto simp: seedConnections_def stored_names_list split: sum.splits)
  from seed_loop_adds [OF recs(2) ids] obtain new where new: "cdb_rows db' = cdb_rows db @ new"
    "\<forall>r \<in> set new. folded_name (rw_name r) \<notin> stored_names db"
    "\<forall>x \<in> set seeds. declares fs x \<longrightarrow> folded_name (sd_name (snd x)) \<in> stored_names db \<union> (\<lambda>r. folded_name (rw_name r)) ` set new"
    by blast
  then have there: "\<forall>x \<in> set seeds. declares fs x \<longrightarrow> folded_name (sd_name (snd x)) \<in> stored_names db'"
    by (simp add: image_Un)
  have "seedConnections fs se' seeds' (db', m2) = (None, db', m2)"
    if "list_all (declares fs) seeds" "map snd seeds' = map snd seeds" "\<not> isl (ListConnections se' db')"
  proof -
    have "folded_name (sd_name (snd y)) \<in> stored_names db'" if "y \<in> set seeds'" for y
    proof -
      have "snd y \<in> set (map snd seeds)"
        using \<open>y \<in> set seeds'\<close> unfolding \<open>map snd seeds' = map snd seeds\<close> [symmetric] by simp
      then obtain x where "x \<in> set seeds" "snd x = snd y" by auto
      with there \<open>list_all (declares fs) seeds\<close> show ?thesis by (metis list_all_iff)
    qed
    then have "\<forall>y \<in> set seeds'. folded_name (sd_name (snd y)) \<in> stored_names db'" by blast
    with that(3) show ?thesis
      by (cases "ListConnections se' db'") (simp_all add: seedConnections_def stored_names_list known_seeds_ignored)
  qed
  with new(1,2) there show ?thesis by blast
qed

section \<open>One server, for the witnesses\<close>

text \<open>An empty database, and one declared connection.\<close>

definition ex_seed :: ConnectionSeed where
  "ex_seed = \<lparr>sd_name = '' home '', sd_url = ''h'', sd_username = [], sd_password = ''pw'', sd_version = [],
     sd_subscribe = [''a/#''], sd_autoConnect = None, sd_insecureSkipVerify = False, sd_serverName = [], sd_caPEM = [],
     sd_caFile = [], sd_clientCertPEM = [], sd_clientCertFile = [], sd_clientKeyPEM = [], sd_clientKeyFile = []\<rparr>"

definition ex_boot_env :: "string \<Rightarrow> ApiEnv" where
  "ex_boot_env i = \<lparr>av_env = ex_env, av_store = ex_store_env, av_now = 5, av_fresh = i,
     av_user = \<lparr>us_id = ''o'', us_email = ''o@x'', us_name = ''O'', us_passwordHash = [], us_role = RoleAdmin,
       us_provider = ''local'', us_providerSubject = [], us_disabled = False, us_createdAt = 1, us_lastLoginAt = None,
       us_totpSecretEnc = [], us_totpConfirmedAt = None\<rparr>, av_plugins = [], av_fault = None\<rparr>"

definition ex_plugins :: "unit Runtime" where
  "ex_plugins = \<lparr>rt_registry = [], rt_instances = Map.empty, rt_mqtt = NewManager, rt_saved = Map.empty, rt_state = Map.empty, rt_emitted = []\<rparr>"

definition ex_seeded :: ConnectionSpec where
  "ex_seeded = ex_spec'\<lparr>cs_id := ''n'', cs_password := ''pw'', cs_cleanStart := False, cs_tls := zero_tls,
     cs_subscriptions := [zero_sub\<lparr>sub_filter := ''a/#''\<rparr>], cs_autoConnect := True\<rparr>"

lemma ex_seed_usable: "seedTLS fs ex_seed = Inr zero_tls" "ParseVersion (sd_version ex_seed) = Inr V311"
proof -
  show "seedTLS fs ex_seed = Inr zero_tls" by (simp add: seedTLS_def read_material_def ex_seed_def zero_tls_def)
  have "ParseVersion [] = Inr V311" by code_simp
  then show "ParseVersion (sd_version ex_seed) = Inr V311" by (simp add: ex_seed_def)
qed

lemma ex_seed_Normalize: "Normalize ex_parse ex_render ''ab'' (seed_spec ''n'' ex_seed V311 zero_tls) = Inr ex_seeded"
  by (simp add: ex_stored_trims seed_spec_def ex_seed_def ex_seeded_def Wanted_def zero_tls_def zero_sub_def
      Normalize_def normalize_url_def normalize_numbers_def check_will_tls_def
      Version_Valid_def V31_def V311_def V5_def defaultPort_def ex_trims ex_filter ex_ports ex_spec_def ex_spec'_def
      ex_parse_def ex_render_def ex_url_def ex_url'_def ex_sub_def ex_tls_def)

text \<open>The first start stores it, the second leaves it alone.\<close>

lemma ex_seeded_again: "Normalize ex_parse ex_render fresh ex_seeded = Inr ex_seeded"
  by (simp add: ex_stored_trims ex_seeded_def zero_tls_def zero_sub_def
      Normalize_def normalize_url_def normalize_numbers_def check_will_tls_def
      Version_Valid_def V31_def V311_def V5_def defaultPort_def ex_trims ex_filter ex_ports ex_spec_def ex_spec'_def
      ex_parse_def ex_render_def ex_url_def ex_url'_def ex_sub_def ex_tls_def)

lemma ex_seeding: "\<exists>db m'. seedConnections fs ex_store_env [(ex_boot_env ''n'', ex_seed)] (ex_conn_db, m) = (None, db, m')"
proof -
  have env: "se_url ex_store_env = ex_parse" "se_render ex_store_env = ex_render" "se_fresh ex_store_env = ''ab''"
    "av_store (ex_boot_env i) = ex_store_env" "av_fresh (ex_boot_env i) = i" for i
    by (simp_all add: ex_store_env_def ex_boot_env_def)
  have "\<exists>db. SaveConnection ex_store_env now \<lparr>cr_spec = ex_seeded, cr_createdBy = [], cr_createdAt = 0, cr_updatedAt = 0\<rparr> ex_conn_db = (Inr (), db)" for now
    by (simp add: SaveConnection_def env ex_seeded_again) (simp add: ex_seeded_def ex_store_env_def Seal_def)
  then obtain db where "SaveConnection ex_store_env (av_now (ex_boot_env ''n''))
      \<lparr>cr_spec = ex_seeded, cr_createdBy = [], cr_createdAt = 0, cr_updatedAt = 0\<rparr> ex_conn_db = (Inr (), db)"
    by blast
  moreover have "\<not> seed_known {} ex_seed" by (simp add: seed_known_def ex_seed_def ex_trims)
  moreover have "ListConnections ex_store_env ex_conn_db = Inr []"
    by (simp add: ListConnections_def ex_conn_db_def)
  ultimately show ?thesis
    by (simp add: seedConnections_def seed_one_def ex_seed_usable env ex_seed_Normalize Let_def)
qed

lemma ex_declares: "declares fs (ex_boot_env ''n'', ex_seed)"
proof -
  have "Normalize (se_url ex_store_env) (se_render ex_store_env) (se_fresh ex_store_env) (seed_spec ''n'' ex_seed V311 zero_tls) = Inr ex_seeded"
    using ex_seed_Normalize by (simp add: ex_store_env_def)
  then show ?thesis
    by (simp add: declares_def ex_seed_usable ex_boot_env_def) (simp add: ex_seed_def ex_trims)
qed

theorem declared_once_witness:
  "\<exists>db m'. seedConnections Map.empty ex_store_env [(ex_boot_env ''n'', ex_seed)] (ex_conn_db, NewManager) = (None, db, m') \<and>
    ''home'' \<in> (\<lambda>r. folded_name (rw_name r)) ` set (cdb_rows db) \<and>
    (\<not> isl (ListConnections ex_store_env db) \<longrightarrow>
      seedConnections Map.empty ex_store_env [(ex_boot_env ''k'', ex_seed)] (db, NewManager) = (None, db, NewManager))"
proof -
  obtain db m' where run: "seedConnections Map.empty ex_store_env [(ex_boot_env ''n'', ex_seed)] (ex_conn_db, NewManager) = (None, db, m')"
    using ex_seeding by blast
  have ids: "fresh_seeds [(ex_boot_env ''n'', ex_seed)] ex_conn_db"
    by (simp add: fresh_seeds_def ex_conn_db_def)
  have "folded_name (sd_name ex_seed) = ''home''"
    by (simp add: folded_name_def ex_seed_def ex_trims to_lower_def lower_char_def)
  with declared_once [OF run ids, of "[(ex_boot_env ''k'', ex_seed)]" ex_store_env NewManager] run ex_declares show ?thesis
    by auto
qed

theorem manager_follows_database_witness:
  "\<exists>s0. server_boot Map.empty (ex_boot_env ''n'') (\<lambda>_. ex_env) [] Map.empty ex_plugins (conn_db_run []) = Inr s0 \<and>
    conn_db_ok (as_db (api_run [EvServe (\<lambda>_. []) (\<lambda>_. None) (Some (av_user (ex_boot_env ''n''))) (ex_boot_env ''n'') (Rq_Create None)] s0))"
proof -
  have "ListConnections (av_store (ex_boot_env ''n'')) (conn_db_run []) = Inr []"
    by (simp add: ListConnections_def conn_db_run_def ex_conn_db_def)
  then obtain s0 where boot: "server_boot Map.empty (ex_boot_env ''n'') (\<lambda>_. ex_env) [] Map.empty ex_plugins (conn_db_run []) = Inr s0"
    by (simp add: server_boot_def loadConnections_def seedConnections_def Let_def)
  with manager_follows_database [OF boot] show ?thesis by blast
qed

end
