(* ===== verification/HttpServer.thy ===== *)
theory HttpServer
  imports Config PublishApi
begin

text \<open>
  \<^verbatim>\<open>internal/api/server.go\<close>, \<^verbatim>\<open>spa.go\<close> and \<^verbatim>\<open>plugins.go\<close>: which routes there are and what stands in front of each,
  the headers of every response, and the page. Finding the route of a request is the router's (chi); here a
  request is given with its route. A guard answers with a status or lets the request through, with who it is from.
\<close>

section \<open>Requests\<close>

record HttpRequest =
  hq_request :: Request
  hq_path :: string
  hq_remoteUserID :: string
  hq_remoteUserName :: string
  hq_remoteDisplayName :: string
  hq_ingressPath :: string

text \<open>What the guards work with: the configuration, the tables, and what is not modelled.\<close>

record 'ip HttpEnv =
  hv_config :: Config
  hv_crypto :: Crypto
  hv_net :: "'ip Net"
  hv_now :: time
  hv_fresh :: string

definition IngressMode :: "Config \<Rightarrow> bool" where
  "IngressMode c \<longleftrightarrow> au_mode (cf_auth c) = ModeIngress"

text \<open>The session middleware, or the one that takes its place in Home Assistant mode.\<close>

definition authenticate :: "'ip HttpEnv \<Rightarrow> HttpRequest \<Rightarrow> AuthStore \<Rightarrow> (nat + User) \<times> AuthStore" where
  "authenticate env r db =
     (if IngressMode (hv_config env) then
        (case AuthenticateIngress (hv_net env) (ingress_config (hv_config env)) (hv_now env) (hv_fresh env)
                (rq_remoteAddr (hq_request r)) (hq_remoteUserID r) (hq_remoteUserName r) (hq_remoteDisplayName r) db of
           (Inl _, db) \<Rightarrow> (Inl 403, db) | (Inr u, db) \<Rightarrow> (Inr u, db))
      else (case Authenticate (hv_crypto env) (hv_now env) (hq_request r) db of
           (Inl _, db) \<Rightarrow> (Inl 401, db) | (Inr u, db) \<Rightarrow> (Inr u, db)))"

definition check_csrf :: "'ip HttpEnv \<Rightarrow> HttpRequest \<Rightarrow> bool" where
  "check_csrf env r = (if IngressMode (hv_config env) then fst (IngressCSRF (hq_request r)) else CSRF (hq_request r))"

section \<open>Routes\<close>

text \<open>What stands in front of a route: nothing, a session, a session and the token, and a role on top.\<close>

datatype guard = Anyone | SignedIn | SignedInToken | WithRole Role

type_synonym route = "string \<times> string \<times> guard"

definition connection_routes :: "route list" where
  "connection_routes =
     [(''GET'', ''/connections/'', SignedInToken),
      (''POST'', ''/connections/'', WithRole RoleAdmin),
      (''GET'', ''/connections/{id}/'', SignedInToken),
      (''PUT'', ''/connections/{id}/'', WithRole RoleAdmin),
      (''DELETE'', ''/connections/{id}/'', WithRole RoleAdmin),
      (''POST'', ''/connections/{id}/connect'', WithRole RoleOperator),
      (''POST'', ''/connections/{id}/disconnect'', WithRole RoleOperator),
      (''POST'', ''/connections/{id}/publish'', WithRole RoleOperator),
      (''POST'', ''/connections/{id}/subscribe'', WithRole RoleOperator),
      (''POST'', ''/connections/{id}/unsubscribe'', WithRole RoleOperator),
      (''POST'', ''/connections/{id}/clear'', WithRole RoleOperator),
      (''GET'', ''/connections/{id}/tree'', SignedInToken),
      (''GET'', ''/connections/{id}/topic'', SignedInToken),
      (''GET'', ''/connections/{id}/messages'', SignedInToken),
      (''GET'', ''/connections/{id}/search'', SignedInToken),
      (''GET'', ''/connections/{id}/topic/history'', SignedInToken),
      (''GET'', ''/connections/{id}/topic/diff'', SignedInToken),
      (''GET'', ''/connections/{id}/topic/series'', SignedInToken),
      (''GET'', ''/connections/{id}/topic/fields'', SignedInToken),
      (''GET'', ''/connections/{id}/topic/export'', SignedInToken),
      (''GET'', ''/connections/{id}/topic/decode'', SignedInToken),
      (''GET'', ''/connections/{id}/topic/raw'', SignedInToken),
      (''GET'', ''/connections/{id}/graph'', SignedInToken),
      (''GET'', ''/connections/{id}/recordings'', SignedInToken),
      (''DELETE'', ''/connections/{id}/recordings'', WithRole RoleOperator),
      (''GET'', ''/connections/{id}/sys'', SignedInToken),
      (''GET'', ''/connections/{id}/collect'', SignedInToken),
      (''POST'', ''/connections/{id}/retained/clear'', WithRole RoleOperator),
      (''GET'', ''/connections/{id}/publishes'', SignedInToken),
      (''DELETE'', ''/connections/{id}/publishes'', WithRole RoleOperator),
      (''POST'', ''/connections/{id}/publishes/{publishID}/republish'', WithRole RoleOperator),
      (''GET'', ''/connections/{id}/saved'', SignedInToken),
      (''POST'', ''/connections/{id}/saved'', WithRole RoleOperator),
      (''PUT'', ''/connections/{id}/saved/{savedID}'', WithRole RoleOperator),
      (''DELETE'', ''/connections/{id}/saved/{savedID}'', WithRole RoleOperator),
      (''POST'', ''/connections/{id}/saved/{savedID}/publish'', WithRole RoleOperator)]"

definition user_routes :: "route list" where
  "user_routes =
     [(''GET'', ''/users/'', WithRole RoleAdmin), (''POST'', ''/users/'', WithRole RoleAdmin),
      (''PUT'', ''/users/{id}'', WithRole RoleAdmin), (''PUT'', ''/users/{id}/password'', WithRole RoleAdmin),
      (''DELETE'', ''/users/{id}/2fa'', WithRole RoleAdmin), (''DELETE'', ''/users/{id}'', WithRole RoleAdmin)]"

definition plugin_routes :: "route list" where
  "plugin_routes =
     [(''GET'', ''/plugins/'', SignedInToken), (''GET'', ''/plugins/{id}'', SignedInToken),
      (''PUT'', ''/plugins/{id}/enabled'', WithRole RoleAdmin), (''PUT'', ''/plugins/{id}/settings'', WithRole RoleAdmin)]"

text \<open>Signing in is the provider's business in Home Assistant mode, and its routes are not there.\<close>

definition auth_routes :: "bool \<Rightarrow> route list" where
  "auth_routes ingress =
     (''GET'', ''/auth/config'', Anyone) # (''GET'', ''/auth/me'', SignedInToken) #
     (if ingress then []
      else [(''POST'', ''/auth/login'', Anyone), (''GET'', ''/auth/sso/{provider}/start'', Anyone),
            (''GET'', ''/auth/sso/{provider}/callback'', Anyone), (''GET'', ''/auth/saml/{provider}/metadata'', Anyone),
            (''GET'', ''/auth/saml/{provider}/start'', Anyone), (''POST'', ''/auth/saml/{provider}/acs'', Anyone),
            (''POST'', ''/auth/logout'', SignedInToken), (''POST'', ''/auth/password'', SignedInToken),
            (''GET'', ''/auth/2fa'', SignedInToken), (''POST'', ''/auth/2fa/enrol'', SignedInToken),
            (''POST'', ''/auth/2fa/confirm'', SignedInToken), (''POST'', ''/auth/2fa/disable'', SignedInToken),
            (''POST'', ''/auth/2fa/recovery-codes'', SignedInToken)])"

text \<open>A plugin's own routes take every method; \<open>*\<close> stands for it.\<close>

definition api_routes :: "bool \<Rightarrow> route list" where
  "api_routes ingress =
     (''GET'', ''/health'', Anyone) # auth_routes ingress @ [(''GET'', ''/ws'', SignedIn)] @ connection_routes @
     [(''GET'', ''/audit'', WithRole RoleAdmin), (''GET'', ''/logs'', WithRole RoleAdmin)] @ user_routes @ plugin_routes @
     [(''*'', ''/p/{pluginID}/*'', SignedInToken), (''*'', ''/p/{pluginID}'', SignedInToken)]"

definition admit :: "'ip HttpEnv \<Rightarrow> guard \<Rightarrow> HttpRequest \<Rightarrow> AuthStore \<Rightarrow> (nat + User option) \<times> AuthStore" where
  "admit env g r db =
     (if g = Anyone then (Inr None, db)
      else case authenticate env r db of
        (Inl status, db) \<Rightarrow> (Inl status, db)
      | (Inr u, db) \<Rightarrow>
          if g = SignedIn then (Inr (Some u), db)
          else if \<not> check_csrf env r then (Inl 403, db)
          else (case g of
                  WithRole role \<Rightarrow>
                    (case RequireRole role (Some u) of
                       Inl e \<Rightarrow> (Inl (if e = ErrUnauthorized then 401 else 403), db) | Inr u \<Rightarrow> (Inr (Some u), db))
                | _ \<Rightarrow> (Inr (Some u), db)))"

section \<open>Headers\<close>

definition frameRules :: "Config \<Rightarrow> string \<times> string" where
  "frameRules c =
     (if length (cf_frameAncestors c) > 0 then (join_with (CHR '' '') (cf_frameAncestors c), [])
      else if IngressMode c then ([CHR 0x27] @ ''self'' @ [CHR 0x27], ''SAMEORIGIN'')
      else ([CHR 0x27] @ ''none'' @ [CHR 0x27], ''DENY''))"

definition csp_quoted :: "string \<Rightarrow> string" where
  "csp_quoted s = [CHR 0x27] @ s @ [CHR 0x27]"

definition content_security_policy :: "string \<Rightarrow> string" where
  "content_security_policy frameAncestors =
     ''default-src '' @ csp_quoted ''self'' @ ''; script-src '' @ csp_quoted ''self'' @ ''; style-src '' @ csp_quoted ''self'' @ '' '' @
     csp_quoted ''unsafe-inline'' @ ''; img-src '' @ csp_quoted ''self'' @ '' data:; font-src '' @ csp_quoted ''self'' @
     '' data:; connect-src '' @ csp_quoted ''self'' @ '' ws: wss:; frame-ancestors '' @ frameAncestors @
     ''; base-uri '' @ csp_quoted ''self'' @ ''; form-action '' @ csp_quoted ''self''"

definition securityHeaders :: "Config \<Rightarrow> (string \<times> string) list" where
  "securityHeaders c =
     (let (frameAncestors, xFrameOptions) = frameRules c in
      [(''X-Content-Type-Options'', ''nosniff''), (''Referrer-Policy'', ''same-origin''),
       (''Cross-Origin-Opener-Policy'', ''same-origin''),
       (''Content-Security-Policy'', content_security_policy frameAncestors)] @
      (if xFrameOptions \<noteq> [] then [(''X-Frame-Options'', xFrameOptions)] else []))"

text \<open>The host of the base URL, as \<^verbatim>\<open>url.Parse\<close> finds it.\<close>

definition OriginPatterns :: "(string \<Rightarrow> Url option) \<Rightarrow> Config \<Rightarrow> string list" where
  "OriginPatterns parse c =
     (if au_mode (cf_auth c) = ModeIngress then [''*'']
      else case parse (cf_baseURL c) of None \<Rightarrow> [] | Some u \<Rightarrow> if u_host u = [] then [] else [u_host u])"

definition handleHealth :: "string \<Rightarrow> nat \<Rightarrow> 'v ApiState \<Rightarrow> string \<times> string \<times> nat \<times> nat" where
  "handleHealth version clients s = (''ok'', version, length (mgr_List (api_mqtt s)), clients)"

section \<open>The page\<close>

text \<open>\<^verbatim>\<open>path.Clean\<close>: the elements so far are kept last first.\<close>

fun clean_parts :: "bool \<Rightarrow> string list \<Rightarrow> string list \<Rightarrow> string list" where
  "clean_parts rooted st [] = rev st"
| "clean_parts rooted st (p # ps) =
     (if p = [] \<or> p = ''.'' then clean_parts rooted st ps
      else if p = ''..'' then
        (case st of
           [] \<Rightarrow> clean_parts rooted (if rooted then [] else [p]) ps
         | x # xs \<Rightarrow> clean_parts rooted (if x = ''..'' then p # st else xs) ps)
      else clean_parts rooted (p # st) ps)"

definition path_Clean :: "string \<Rightarrow> string" where
  "path_Clean p =
     (if p = [] then ''.''
      else
        let rooted = (hd p = CHR ''/'');
            out = join_with CHR ''/'' (clean_parts rooted [] (split_on CHR ''/'' p))
        in if rooted then CHR ''/'' # out else if out = [] then ''.'' else out)"

definition html_char :: "char \<Rightarrow> string" where
  "html_char c =
     (if c = CHR 0x22 then ''&#34;'' else if c = CHR 0x27 then ''&#39;'' else if c = CHR ''&'' then ''&amp;''
      else if c = CHR ''<'' then ''&lt;'' else if c = CHR ''>'' then ''&gt;''
      else if c = CHR 0x00 then [CHR 0xEF, CHR 0xBF, CHR 0xBD] else [c])"

definition HTMLEscapeString :: "string \<Rightarrow> string" where
  "HTMLEscapeString s = concat (map html_char s)"

definition baseTag :: string where
  "baseTag = ''<base href='' @ [CHR 0x22] @ ''/'' @ [CHR 0x22] @ '' />''"

text \<open>\<^verbatim>\<open>bytes.Replace\<close> of the first, and \<^verbatim>\<open>bytes.Index\<close>.\<close>

fun replace_first :: "string \<Rightarrow> string \<Rightarrow> string \<Rightarrow> string" where
  "replace_first old new [] = (if old = [] then new else [])"
| "replace_first old new (c # s) =
     (case cut_prefix old (c # s) of Some rest \<Rightarrow> new @ rest | None \<Rightarrow> c # replace_first old new s)"

fun index_of :: "string \<Rightarrow> string \<Rightarrow> nat option" where
  "index_of pat [] = (if pat = [] then Some 0 else None)"
| "index_of pat (c # s) = (if cut_prefix pat (c # s) \<noteq> None then Some 0 else map_option Suc (index_of pat s))"

definition base_replacement :: "string \<Rightarrow> string" where
  "base_replacement pre = ''<base href='' @ [CHR 0x22] @ HTMLEscapeString pre @ ''/'' @ [CHR 0x22] @ '' />''"

definition withBase :: "string \<Rightarrow> string \<Rightarrow> string" where
  "withBase index pre =
     (if contains_sub index baseTag then replace_first baseTag (base_replacement pre) index
      else case index_of ''<head>'' index of
        Some i \<Rightarrow> let k = i + length ''<head>'' in take k index @ base_replacement pre @ drop k index
      | None \<Rightarrow> index)"

datatype web_entry = WebFile string | WebDir
datatype page = PageFile string bool | PageIndex string | PageNotBuilt

text \<open>Only in Home Assistant mode is the header consulted.\<close>

definition uiPrefix :: "Config \<Rightarrow> HttpRequest \<Rightarrow> string" where
  "uiPrefix c r = (if \<not> IngressMode c then [] else IngressPath (hq_ingressPath r))"

definition serveIndex :: "Config \<Rightarrow> (string \<rightharpoonup> web_entry) \<Rightarrow> HttpRequest \<Rightarrow> page" where
  "serveIndex c web r =
     (case web ''index.html'' of
        Some (WebFile raw) \<Rightarrow> (let pre = uiPrefix c r in if pre = [] then PageIndex raw else PageIndex (withBase raw pre))
      | _ \<Rightarrow> PageNotBuilt)"

text \<open>A file, and whether it may be cached for ever; what is no file is the page.\<close>

definition spa_path :: "string \<Rightarrow> string" where
  "spa_path p = (let u = trim_prefix ''/'' (path_Clean p) in if u = [] then ''index.html'' else u)"

definition spaHandler :: "Config \<Rightarrow> (string \<rightharpoonup> web_entry) \<Rightarrow> HttpRequest \<Rightarrow> page" where
  "spaHandler c web r =
     (let u = spa_path (hq_path r) in
      if u = ''index.html'' then serveIndex c web r
      else case web u of
        Some (WebFile _) \<Rightarrow> PageFile u (cut_prefix ''assets/'' u \<noteq> None)
      | _ \<Rightarrow> serveIndex c web r)"

section \<open>Plugins\<close>

text \<open>Turning a plugin on and off and saving its settings; a body that does not decode is \<^const>\<open>None\<close>.\<close>

definition handleSetPluginEnabled :: "ApiEnv \<Rightarrow> string \<Rightarrow> bool option \<Rightarrow> 'v ApiState \<Rightarrow> nat \<times> 'v ApiState" where
  "handleSetPluginEnabled env i req s =
     (case req of
        None \<Rightarrow> (400, s)
      | Some on \<Rightarrow>
          (case SetEnabled (av_env env) i on (as_runtime s) of
             (Inl _, r) \<Rightarrow> (400, s\<lparr>as_runtime := r\<rparr>)
           | (Inr _, r) \<Rightarrow> (200, s\<lparr>as_runtime := r\<rparr>)))"

definition handleSavePluginSettings :: "ApiEnv \<Rightarrow> string \<Rightarrow> 'v settings option \<Rightarrow> 'v ApiState \<Rightarrow> nat \<times> 'v ApiState" where
  "handleSavePluginSettings env i req s =
     (case req of
        None \<Rightarrow> (400, s)
      | Some st \<Rightarrow>
          (case SaveSettings (av_env env) i st (as_runtime s) of
             (Inl _, r) \<Rightarrow> (400, s\<lparr>as_runtime := r\<rparr>)
           | (Inr _, r) \<Rightarrow> (200, s\<lparr>as_runtime := r\<rparr>)))"

end
