(* ===== verification/HttpFacts.thy ===== *)
theory HttpFacts
  imports HttpServer IdentityFacts
begin

text \<open>
  What stands in front of the routes, what becomes of the page under another prefix, and what a configuration that
  is accepted means for who can get in.
\<close>

section \<open>Routes\<close>

text \<open>A method that the token check lets through without a token.\<close>

definition safe_method :: "string \<Rightarrow> bool" where
  "safe_method m \<longleftrightarrow> m \<in> {''GET'', ''HEAD'', ''OPTIONS''}"

text \<open>The routes one signs in by, and the two others that anybody may ask.\<close>

definition sign_in_routes :: "(string \<times> string) list" where
  "sign_in_routes =
     [(''POST'', ''/auth/login''), (''GET'', ''/auth/sso/{provider}/start''), (''GET'', ''/auth/sso/{provider}/callback''),
      (''GET'', ''/auth/saml/{provider}/metadata''), (''GET'', ''/auth/saml/{provider}/start''),
      (''POST'', ''/auth/saml/{provider}/acs'')]"

definition open_routes :: "(string \<times> string) list" where
  "open_routes = [(''GET'', ''/health''), (''GET'', ''/auth/config'')]"

text \<open>
  Who may do what: accounts, the audit log and the log are for administrators, and so is what adds, changes or removes
  a connection or sets up a plugin; everything else that is done to a connection is for operators. The rest is for
  whoever is signed in.
\<close>

definition under :: "string \<Rightarrow> string \<Rightarrow> bool" where
  "under pre p \<longleftrightarrow> take (length pre) p = pre"

definition needed_role :: "string \<Rightarrow> string \<Rightarrow> Role option" where
  "needed_role m p =
     (if under ''/users'' p \<or> p \<in> {''/audit'', ''/logs''} then Some RoleAdmin
      else if m \<in> {''GET'', ''*''} then None
      else if under ''/plugins'' p \<or> p \<in> {''/connections/'', ''/connections/{id}/''} then Some RoleAdmin
      else if under ''/connections/'' p then Some RoleOperator
      else None)"

definition guarded :: "route \<Rightarrow> bool" where
  "guarded x =
     (case x of (m, p, g) \<Rightarrow>
        (case g of
           Anyone \<Rightarrow> (m, p) \<in> set open_routes \<or> (m, p) \<in> set sign_in_routes
         | SignedIn \<Rightarrow> m = ''GET'' \<and> needed_role m p = None
         | SignedInToken \<Rightarrow> needed_role m p = None
         | WithRole role \<Rightarrow> needed_role m p = Some role))"

lemmas guard_tables = guarded_def needed_role_def under_def sign_in_routes_def open_routes_def

lemma routes_guarded: "list_all guarded (api_routes ingress)"
proof -
  have "list_all guarded connection_routes" by (simp add: connection_routes_def guard_tables)
  moreover have "list_all guarded user_routes" "list_all guarded plugin_routes" "list_all guarded (auth_routes ingress)"
    by (simp_all add: user_routes_def plugin_routes_def auth_routes_def guard_tables)
  ultimately show ?thesis by (simp add: api_routes_def) (simp add: guard_tables)
qed

lemma no_sign_in_under_ingress: "list_all (\<lambda>(m, p, g). (m, p) \<notin> set sign_in_routes) (api_routes True)"
  by (simp add: api_routes_def auth_routes_def connection_routes_def user_routes_def plugin_routes_def sign_in_routes_def)

lemma check_csrf_unsafe:
  assumes "check_csrf env r" "\<not> safe_method (rq_method (hq_request r))"
  shows "\<exists>token. rq_csrfCookie (hq_request r) = Some token \<and> token \<noteq> [] \<and> rq_csrfHeader (hq_request r) = token"
  using assms
  by (auto simp: check_csrf_def IngressCSRF_def CSRF_def safe_method_def split: if_splits option.splits)

lemma admit_signed_in:
  assumes "admit env g r db = (Inr who, db')" "g \<noteq> Anyone"
  obtains u where "who = Some u" "authenticate env r db = (Inr u, db')" "g \<noteq> SignedIn \<Longrightarrow> check_csrf env r"
    "\<And>role. g = WithRole role \<Longrightarrow> AtLeast (us_role u) role"
  using assms by (auto simp: admit_def RequireRole_def split: sum.splits prod.splits guard.splits if_splits)

text \<open>
  C36. Nothing but the two open routes and, outside Home Assistant mode, the six one signs in by is reached without
  somebody signed in; what is for operators or for administrators is reached by them only, route by route as
  \<^const>\<open>needed_role\<close> says; and a method that is not a safe one only with the token that another site cannot read.
\<close>

theorem routes_are_guarded:
  assumes route: "(m, p, g) \<in> set (api_routes (IngressMode (hv_config env)))"
    and asked: "m = rq_method (hq_request r) \<or> m = ''*''"
    and admitted: "admit env g r db = (Inr who, db')"
  shows "(m, p) \<in> set open_routes \<or> \<not> IngressMode (hv_config env) \<and> (m, p) \<in> set sign_in_routes \<or>
    (\<exists>u. who = Some u \<and> authenticate env r db = (Inr u, db') \<and>
       (\<forall>role. needed_role m p = Some role \<longrightarrow> AtLeast (us_role u) role) \<and>
       (\<not> safe_method (rq_method (hq_request r)) \<longrightarrow>
          (\<exists>token. rq_csrfCookie (hq_request r) = Some token \<and> token \<noteq> [] \<and> rq_csrfHeader (hq_request r) = token)))"
proof (cases "g = Anyone")
  case True
  with route routes_guarded have "(m, p) \<in> set open_routes \<or> (m, p) \<in> set sign_in_routes"
    by (fastforce simp: list_all_iff guarded_def)
  with route no_sign_in_under_ingress show ?thesis
    by (cases "IngressMode (hv_config env)") (auto simp: list_all_iff)
next
  case False
  obtain u where u: "who = Some u" "authenticate env r db = (Inr u, db')" "g \<noteq> SignedIn \<Longrightarrow> check_csrf env r"
    "\<And>role. g = WithRole role \<Longrightarrow> AtLeast (us_role u) role"
    using admit_signed_in [OF admitted False] by blast
  have g: "guarded (m, p, g)" using route routes_guarded by (auto simp: list_all_iff)
  have "AtLeast (us_role u) role" if "needed_role m p = Some role" for role
    using g that False u(4) by (auto simp: guarded_def split: guard.splits)
  moreover have "g \<noteq> SignedIn" if "\<not> safe_method (rq_method (hq_request r))"
    using g that asked by (auto simp: guarded_def safe_method_def)
  ultimately show ?thesis using u(1-3) check_csrf_unsafe by blast
qed

section \<open>The page\<close>

lemma cut_prefix_split: "cut_prefix p s = Some rest \<Longrightarrow> s = p @ rest"
  by (auto simp: cut_prefix_def split: if_splits) (metis append_take_drop_id prefix_def take_is_prefix append_eq_conv_conj)

lemma replace_first_split:
  "replace_first old new s = s \<or> (\<exists>a b. s = a @ old @ b \<and> replace_first old new s = a @ new @ b)"
proof (induction old new s rule: replace_first.induct)
  case (2 old new c s)
  show ?case
  proof (cases "cut_prefix old (c # s)")
    case None
    with 2 show ?thesis by (auto) (metis append_Cons)
  next
    case (Some rest)
    then have "replace_first old new (c # s) = new @ rest" by simp
    with cut_prefix_split [OF Some] show ?thesis by (metis append_Nil)
  qed
qed auto

lemma path_char_plain: "path_char c \<or> c = CHR ''/'' \<Longrightarrow> html_char c = [c]"
  by (auto simp: path_char_def html_char_def Let_def)

lemma HTMLEscapeString_plain: "list_all (\<lambda>c. path_char c \<or> c = CHR ''/'') s \<Longrightarrow> HTMLEscapeString s = s"
  by (induction s) (simp_all add: HTMLEscapeString_def path_char_plain)

lemma uiPrefix_plain: "list_all (\<lambda>c. path_char c \<or> c = CHR ''/'') (uiPrefix c r)"
proof -
  have "list_all (\<lambda>c. path_char c \<or> c = CHR ''/'') (concat (map (\<lambda>q. CHR ''/'' # q) qs))" if "list_all path_segment qs" for qs
    using that by (induction qs) (auto simp: path_segment_def list_all_iff)
  with IngressPath_safe [of "hq_ingressPath r"] show ?thesis by (auto simp: uiPrefix_def)
qed

lemma withBase_split:
  "\<exists>a old b. index = a @ old @ b \<and> (withBase index pre = a @ old @ b \<or>
     old \<in> {baseTag, []} \<and> withBase index pre = a @ base_replacement pre @ b)"
proof (cases "contains_sub index baseTag")
  case True
  with replace_first_split [of baseTag "base_replacement pre" index] show ?thesis
    by (auto simp: withBase_def) (metis append_Nil)
next
  case False
  show ?thesis
  proof (cases "index_of ''<head>'' index")
    case None
    with False have "withBase index pre = index" by (simp add: withBase_def)
    then show ?thesis by (metis append_Nil)
  next
    case (Some i)
    let ?k = "i + length ''<head>''"
    have "withBase index pre = take ?k index @ base_replacement pre @ drop ?k index"
      using False Some by (simp add: withBase_def Let_def)
    moreover have "index = take ?k index @ [] @ drop ?k index" by simp
    ultimately show ?thesis by blast
  qed
qed

text \<open>
  C37. Whatever a request says about the prefix it was reached under, the page is the one that was built, with at most
  its base address put in: the prefix appears in it once, as it is, and has no character that could end the attribute
  or name another host.
\<close>

theorem page_changes_only_base:
  assumes "web ''index.html'' = Some (WebFile raw)" "serveIndex c web r = PageIndex page"
  shows "\<exists>a old b. raw = a @ old @ b \<and>
    (page = raw \<or> old \<in> {baseTag, []} \<and> page = a @ ''<base href='' @ [CHR 0x22] @ uiPrefix c r @ ''/'' @ [CHR 0x22] @ '' />'' @ b) \<and>
    list_all (\<lambda>x. path_char x \<or> x = CHR ''/'') (uiPrefix c r)"
proof -
  have "base_replacement (uiPrefix c r) = ''<base href='' @ [CHR 0x22] @ uiPrefix c r @ ''/'' @ [CHR 0x22] @ '' />''"
    by (simp add: base_replacement_def HTMLEscapeString_plain [OF uiPrefix_plain])
  moreover obtain a old b where "raw = a @ old @ b"
    "withBase raw (uiPrefix c r) = a @ old @ b \<or> old \<in> {baseTag, []} \<and> withBase raw (uiPrefix c r) = a @ base_replacement (uiPrefix c r) @ b"
    using withBase_split [of raw "uiPrefix c r"] by blast
  moreover have "page = raw \<or> page = withBase raw (uiPrefix c r)"
    using assms by (auto simp: serveIndex_def Let_def split: if_splits)
  ultimately show ?thesis using uiPrefix_plain [of c r] by (intro exI [where x = a] exI [where x = old] exI [where x = b]) auto
qed

lemma clean_parts_rooted: "''..'' \<notin> set st \<Longrightarrow> ''..'' \<notin> set (clean_parts True st ps)"
  by (induction True st ps rule: clean_parts.induct) (auto split: list.splits)

lemma clean_parts_slash: "list_all (\<lambda>p. CHR ''/'' \<notin> set p) (st @ ps) \<Longrightarrow> list_all (\<lambda>p. CHR ''/'' \<notin> set p) (clean_parts rooted st ps)"
  by (induction rooted st ps rule: clean_parts.induct) (auto simp: list_all_iff split: list.splits if_splits)

section \<open>A request, and a page\<close>

definition ex_http_request :: HttpRequest where
  "ex_http_request = \<lparr>hq_request = ex_request\<lparr>rq_method := ''POST'', rq_csrfCookie := Some ''t'', rq_csrfHeader := ''t''\<rparr>,
     hq_path = ''/connections/a/publish'', hq_remoteUserID = [], hq_remoteUserName = [], hq_remoteDisplayName = [],
     hq_ingressPath = ''/api/x''\<rparr>"

definition ex_http_env :: "string HttpEnv" where
  "ex_http_env = \<lparr>hv_config = config_Default, hv_crypto = ex_crypto, hv_net = ex_net, hv_now = 5, hv_fresh = ''f''\<rparr>"

definition ex_signed_in :: AuthStore where
  "ex_signed_in = \<lparr>db_users = [ex_user], db_sessions = [ex_session], db_codes = []\<rparr>"

definition ex_ingress_config :: Config where
  "ex_ingress_config = config_Default\<lparr>cf_auth := (cf_auth config_Default)\<lparr>au_mode := ModeIngress\<rparr>\<rparr>"

lemma ex_publish_route:
  "(''POST'', ''/connections/{id}/publish'', WithRole RoleOperator) \<in> set (api_routes False)"
  by (simp add: api_routes_def connection_routes_def)

lemma ex_admitted: "fst (admit ex_http_env (WithRole RoleOperator) ex_http_request ex_signed_in) = Inr (Some ex_user)"
  by code_simp

theorem routes_are_guarded_witness:
  "\<exists>u. fst (authenticate ex_http_env ex_http_request ex_signed_in) = Inr u \<and> AtLeast (us_role u) RoleOperator"
proof -
  let ?db = "snd (admit ex_http_env (WithRole RoleOperator) ex_http_request ex_signed_in)"
  have standalone: "\<not> IngressMode (hv_config ex_http_env)" and is_post: "rq_method (hq_request ex_http_request) = ''POST''"
    by (simp_all add: ex_http_env_def IngressMode_def config_Default_def ModeIngress_def ModeStandalone_def ex_http_request_def)
  have "admit ex_http_env (WithRole RoleOperator) ex_http_request ex_signed_in = (Inr (Some ex_user), ?db)"
    by (metis ex_admitted prod.collapse)
  moreover have "needed_role ''POST'' ''/connections/{id}/publish'' = Some RoleOperator"
    by (simp add: needed_role_def under_def)
  ultimately show ?thesis
    using routes_are_guarded [of "''POST''" "''/connections/{id}/publish''" "WithRole RoleOperator" ex_http_env ex_http_request
        ex_signed_in "Some ex_user" ?db] ex_publish_route standalone is_post by (auto simp: safe_method_def sign_in_routes_def open_routes_def)
qed

theorem page_changes_only_base_witness:
  "\<exists>page. serveIndex ex_ingress_config (\<lambda>_. Some (WebFile ''<head></head>'')) ex_http_request = PageIndex page \<and>
     page \<noteq> ''<head></head>'' \<and> (\<exists>a b. page = a @ ''<base href='' @ [CHR 0x22] @ ''/api/x/'' @ [CHR 0x22] @ '' />'' @ b)"
proof -
  let ?web = "\<lambda>_. Some (WebFile ''<head></head>'')"
  have u: "uiPrefix ex_ingress_config ex_http_request = ''/api/x''" by code_simp
  obtain page where page: "serveIndex ex_ingress_config ?web ex_http_request = PageIndex page"
    by (simp add: serveIndex_def u)
  moreover have "serveIndex ex_ingress_config ?web ex_http_request \<noteq> PageIndex ''<head></head>''" by code_simp
  ultimately show ?thesis
    using page_changes_only_base [of ?web "''<head></head>''" ex_ingress_config ex_http_request page] u by auto
qed

end
