(* ===== verification/Mcp.thy ===== *)
theory Mcp
  imports PlcPlugin
begin

text \<open>
  The bridge for agents, \<^verbatim>\<open>cmd/mqttview-mcp\<close>: \<^verbatim>\<open>client.go\<close>, which signs in to the server and reads from it over
  HTTP, and the tools of \<^verbatim>\<open>main.go\<close>. The server is a world that answers a call with a status and a body, or not
  at all; decoding the body of a reply into a struct is a parameter for each struct. The session cookie is kept by
  the library's cookie jar, and so by the world. A tool is a function of the bridge's state and the world: a value
  or an error, and the two after it.
\<close>

section \<open>Calls\<close>

datatype call_body = NoBody | LoginBody string string | MappingBody string Mapping

text \<open>The budget is the time the whole tool call has in nanoseconds, where it has a limit of its own.\<close>

record HttpCall =
  hc_method :: string
  hc_path :: string
  hc_query :: "(string \<times> string) list"
  hc_csrf :: string
  hc_body :: call_body
  hc_budget :: "int option"

type_synonym ('b, 'w) world = "HttpCall \<Rightarrow> 'w \<Rightarrow> (nat \<times> 'b) option \<times> 'w"

record McpClient =
  mc_email :: string
  mc_password :: string
  mc_loggedIn :: bool

datatype mcp_error =
    ME_Unreachable | ME_Login nat | ME_NotEnabled nat string | ME_Status nat string | ME_Decode string
  | ME_Naming string | ME_NamingStatus nat | ME_NameRequired | ME_NoConnections | ME_WhichConnection "(string \<times> string) list"
  | ME_BadURL | ME_NoAccount

type_synonym ('a, 'w) mcp = "McpClient \<times> 'w \<Rightarrow> (mcp_error + 'a) \<times> McpClient \<times> 'w"

definition mcp_return :: "'a \<Rightarrow> ('a, 'w) mcp" where
  "mcp_return x s = (Inr x, s)"

definition mcp_fail :: "mcp_error \<Rightarrow> ('a, 'w) mcp" where
  "mcp_fail e s = (Inl e, s)"

definition mcp_bind :: "('a, 'w) mcp \<Rightarrow> ('a \<Rightarrow> ('b, 'w) mcp) \<Rightarrow> ('b, 'w) mcp" where
  "mcp_bind m f s = (case m s of (Inl e, s) \<Rightarrow> (Inl e, s) | (Inr x, s) \<Rightarrow> f x s)"

definition mcp_call :: "('b, 'w) world \<Rightarrow> HttpCall \<Rightarrow> (nat \<times> 'b, 'w) mcp" where
  "mcp_call web q s =
     (case web q (snd s) of (None, w) \<Rightarrow> (Inl ME_Unreachable, fst s, w) | (Some r, w) \<Rightarrow> (Inr r, fst s, w))"

section \<open>The client\<close>

definition pluginPath :: string where "pluginPath = ''/api/p/'' @ plc_id"

text \<open>Whether the address can be parsed is \<^verbatim>\<open>url.Parse\<close>'s.\<close>

definition NewClient :: "(string \<Rightarrow> bool) \<Rightarrow> string \<Rightarrow> string \<Rightarrow> string \<Rightarrow> mcp_error + McpClient" where
  "NewClient parses base email password =
     (if \<not> parses base then Inl ME_BadURL else Inr \<lparr>mc_email = email, mc_password = password, mc_loggedIn = False\<rparr>)"

definition loginLocked :: "('b, 'w) world \<Rightarrow> int option \<Rightarrow> (unit, 'w) mcp" where
  "loginLocked web budget s =
     mcp_bind
       (mcp_call web \<lparr>hc_method = ''POST'', hc_path = ''/api/auth/login'', hc_query = [], hc_csrf = [],
          hc_body = LoginBody (mc_email (fst s)) (mc_password (fst s)), hc_budget = budget\<rparr>)
       (\<lambda>(status, _) (c, w). if status \<noteq> 200 then (Inl (ME_Login status), c, w) else (Inr (), c\<lparr>mc_loggedIn := True\<rparr>, w)) s"

definition ensure_login :: "('b, 'w) world \<Rightarrow> int option \<Rightarrow> (unit, 'w) mcp" where
  "ensure_login web budget s = (if mc_loggedIn (fst s) then (Inr (), s) else loginLocked web budget s)"

text \<open>Only the body of a 200 is decoded.\<close>

definition doGet :: "('b, 'w) world \<Rightarrow> int option \<Rightarrow> ('b \<Rightarrow> 'a option) \<Rightarrow> string \<Rightarrow> (string \<times> string) list \<Rightarrow> (nat \<times> 'a option, 'w) mcp" where
  "doGet web budget dec path query =
     mcp_bind
       (mcp_call web \<lparr>hc_method = ''GET'', hc_path = path, hc_query = query, hc_csrf = [], hc_body = NoBody, hc_budget = budget\<rparr>)
       (\<lambda>(status, body).
          if status \<noteq> 200 then mcp_return (status, None)
          else case dec body of None \<Rightarrow> mcp_fail (ME_Decode path) | Some x \<Rightarrow> mcp_return (status, Some x))"

definition fetch :: "('b, 'w) world \<Rightarrow> int option \<Rightarrow> ('b \<Rightarrow> 'a option) \<Rightarrow> string \<Rightarrow> (string \<times> string) list \<Rightarrow> (nat \<times> 'a option, 'w) mcp" where
  "fetch web budget dec path query =
     mcp_bind (ensure_login web budget) (\<lambda>_.
     mcp_bind (doGet web budget dec path query) (\<lambda>(status, out).
       if status = 401 then
         (\<lambda>(c, w). mcp_bind (loginLocked web budget) (\<lambda>_. doGet web budget dec path query) (c\<lparr>mc_loggedIn := False\<rparr>, w))
       else mcp_return (status, out)))"

text \<open>A status of 200 comes with what was decoded.\<close>

definition plugin_get :: "('b, 'w) world \<Rightarrow> int option \<Rightarrow> ('b \<Rightarrow> 'a option) \<Rightarrow> string \<Rightarrow> (string \<times> string) list \<Rightarrow> ('a, 'w) mcp" where
  "plugin_get web budget dec path query =
     mcp_bind (fetch web budget dec (pluginPath @ path) query) (\<lambda>(status, out).
       case out of
         Some x \<Rightarrow> mcp_return x
       | None \<Rightarrow> if status = 404 \<or> status = 403 then mcp_fail (ME_NotEnabled status path) else mcp_fail (ME_Status status path))"

definition getAPI :: "('b, 'w) world \<Rightarrow> int option \<Rightarrow> ('b \<Rightarrow> 'a option) \<Rightarrow> string \<Rightarrow> (string \<times> string) list \<Rightarrow> ('a, 'w) mcp" where
  "getAPI web budget dec path query =
     mcp_bind (fetch web budget dec (''/api'' @ path) query) (\<lambda>(status, out).
       case out of Some x \<Rightarrow> mcp_return x | None \<Rightarrow> mcp_fail (ME_Status status path))"

section \<open>What it reads\<close>

record McpStatus =
  st_topicPrefix :: string
  st_meterPrefix :: string
  st_points :: int
  st_lights :: int
  st_edges :: int
  st_seq :: nat
  st_readOnly :: bool

record EdgePage =
  eg_edges :: "Edge list"
  eg_seq :: nat

record ConnectionSummary =
  sy_id :: string
  sy_name :: string
  sy_url :: string
  sy_state :: string

record CollectedMessage =
  com_receivedAt :: time
  com_topic :: string
  com_payload :: string
  com_base64 :: bool
  com_size :: int
  com_qos :: nat
  com_retain :: bool

record Collection =
  cln_filter :: string
  cln_seconds :: float64
  cln_messages :: "CollectedMessage list"
  cln_topics :: "string \<rightharpoonup> nat"
  cln_dropped :: int
  cln_truncated :: bool

text \<open>Decoding the body of each reply, and the token the server set as a cookie at the sign-in.\<close>

record ('b, 'w) Reader =
  rd_status :: "'b \<Rightarrow> McpStatus option"
  rd_state :: "'b \<Rightarrow> PlcState option"
  rd_edges :: "'b \<Rightarrow> EdgePage option"
  rd_mapping :: "'b \<Rightarrow> Mapping option"
  rd_error :: "'b \<Rightarrow> string"
  rd_connections :: "'b \<Rightarrow> ConnectionSummary list option"
  rd_collection :: "'b \<Rightarrow> Collection option"
  rd_csrf :: "'w \<Rightarrow> string"

definition on_connection :: "string \<Rightarrow> (string \<times> string) list" where
  "on_connection i = (if i \<noteq> [] then [(''connectionId'', i)] else [])"

definition client_Status :: "('b, 'w) world \<Rightarrow> ('b, 'w) Reader \<Rightarrow> int option \<Rightarrow> (McpStatus, 'w) mcp" where
  "client_Status web rd budget = plugin_get web budget (rd_status rd) ''/status'' []"

definition client_State :: "('b, 'w) world \<Rightarrow> ('b, 'w) Reader \<Rightarrow> int option \<Rightarrow> string \<Rightarrow> (PlcState, 'w) mcp" where
  "client_State web rd budget i = plugin_get web budget (rd_state rd) ''/state'' (on_connection i)"

text \<open>A wait is sent in whole milliseconds.\<close>

definition edges_params :: "string \<Rightarrow> nat \<Rightarrow> int \<Rightarrow> bool \<Rightarrow> string \<Rightarrow> int \<Rightarrow> (string \<times> string) list" where
  "edges_params i since limit rising kind wait =
     on_connection i @
     (if since > 0 then [(''since'', nat_string since)] else []) @
     (if limit > 0 then [(''limit'', int_string limit)] else []) @
     (if rising then [(''rising'', ''true'')] else []) @
     (if kind \<noteq> [] then [(''kind'', kind)] else []) @
     (if wait > 0 then [(''waitMs'', int_string (wait div 10 ^ 6))] else [])"

definition client_Edges ::
    "('b, 'w) world \<Rightarrow> ('b, 'w) Reader \<Rightarrow> int option \<Rightarrow> string \<Rightarrow> nat \<Rightarrow> int \<Rightarrow> bool \<Rightarrow> string \<Rightarrow> int \<Rightarrow> (EdgePage, 'w) mcp" where
  "client_Edges web rd budget i since limit rising kind wait =
     plugin_get web budget (rd_edges rd) ''/edges'' (edges_params i since limit rising kind wait)"

definition client_Connections :: "('b, 'w) world \<Rightarrow> ('b, 'w) Reader \<Rightarrow> int option \<Rightarrow> (ConnectionSummary list, 'w) mcp" where
  "client_Connections web rd budget = getAPI web budget (rd_connections rd) ''/connections'' []"

text \<open>\<^verbatim>\<open>url.PathEscape\<close>.\<close>

definition upper_hex :: "nat \<Rightarrow> char" where
  "upper_hex n = ''0123456789ABCDEF'' ! n"

definition path_plain :: "char \<Rightarrow> bool" where
  "path_plain c \<longleftrightarrow> (let n = (of_char c :: nat) in
     48 \<le> n \<and> n \<le> 57 \<or> 65 \<le> n \<and> n \<le> 90 \<or> 97 \<le> n \<and> n \<le> 122 \<or> c \<in> set ''-_.~$&+=:@'')"

definition PathEscape :: "string \<Rightarrow> string" where
  "PathEscape s =
     concat (map (\<lambda>c. if path_plain c then [c]
        else [CHR ''%'', upper_hex (of_char c div 16), upper_hex (of_char c mod 16)]) s)"

definition client_Collect ::
    "('b, 'w) world \<Rightarrow> ('b, 'w) Reader \<Rightarrow> int option \<Rightarrow> string \<Rightarrow> string \<Rightarrow> int \<Rightarrow> int \<Rightarrow> (Collection, 'w) mcp" where
  "client_Collect web rd budget i flt seconds limit =
     getAPI web budget (rd_collection rd) (''/connections/'' @ PathEscape i @ ''/collect'')
       ((if flt \<noteq> [] then [(''filter'', flt)] else []) @
        (if seconds > 0 then [(''seconds'', int_string seconds)] else []) @
        (if limit > 0 then [(''limit'', int_string limit)] else []))"

text \<open>The one write. A session that has expired is not renewed here.\<close>

definition client_SetMapping :: "('b, 'w) world \<Rightarrow> ('b, 'w) Reader \<Rightarrow> int option \<Rightarrow> string \<Rightarrow> Mapping \<Rightarrow> (Mapping, 'w) mcp" where
  "client_SetMapping web rd budget i m =
     mcp_bind (ensure_login web budget) (\<lambda>_ s.
     mcp_bind
       (mcp_call web \<lparr>hc_method = ''PUT'', hc_path = pluginPath @ ''/mappings'', hc_query = [], hc_csrf = rd_csrf rd (snd s),
          hc_body = MappingBody i m, hc_budget = budget\<rparr>)
       (\<lambda>(status, body).
          if status \<noteq> 200 then
            mcp_fail (if rd_error rd body \<noteq> [] then ME_Naming (rd_error rd body) else ME_NamingStatus status)
          else case rd_mapping rd body of None \<Rightarrow> mcp_fail (ME_Decode ''/mappings'') | Some m \<Rightarrow> mcp_return m) s)"

end
