(* ===== verification/McpTools.thy ===== *)
theory McpTools
  imports Mcp
begin

text \<open>
  The tools of the bridge, \<^verbatim>\<open>cmd/mqttview-mcp/main.go\<close>. What a tool answers with is a record; its note, which the
  code puts in words, is a value that has what the words say. Times stay times, and printing a reading with two
  decimals is a parameter.
\<close>

datatype mcp_note =
    NoNote | NothingMoved int nat | NoneRecorded | Showing int nat | NowCalled string string | NameRemoved string
  | NoPointsSeen | NothingPublished

section \<open>Signals\<close>

definition maxWait :: int where "maxWait = 45 * 10 ^ 9"

record signalView =
  sg_seq :: nat
  sg_address :: int
  sg_name :: string
  sg_label :: string
  sg_location :: string
  sg_sensorType :: string
  sg_alarmZone :: bool
  sg_kind :: string
  sg_topic :: string
  sg_transition :: string
  sg_at :: time

record signalOutput =
  so_signals :: "signalView list"
  so_seq :: nat
  so_timedOut :: bool
  so_note :: mcp_note

definition toSignal :: "Edge \<Rightarrow> signalView" where
  "toSignal e =
     \<lparr>sg_seq = ed_seq e, sg_address = ed_address e, sg_name = ed_name e, sg_label = ed_label e, sg_location = ed_location e,
      sg_sensorType = ed_sensorType e, sg_alarmZone = ed_alarmZone e, sg_kind = kind_string (ed_kind e), sg_topic = ed_topic e,
      sg_transition = (if \<not> ed_to e then ''on -> off'' else ''off -> on''), sg_at = ed_at e\<rparr>"

record waitInput =
  wi_timeoutSeconds :: int
  wi_risingOnly :: bool
  wi_kind :: string
  wi_since :: nat

text \<open>Seconds as nanoseconds of 64 bits.\<close>

definition tool_wait :: "int \<Rightarrow> int" where
  "tool_wait seconds =
     (let wait = (if seconds \<le> 0 then 30 * 10 ^ 9 else sint (word_of_int (seconds * 10 ^ 9) :: 64 word))
      in if wait > maxWait then maxWait else wait)"

definition waitForSignal :: "('b, 'w) world \<Rightarrow> ('b, 'w) Reader \<Rightarrow> string \<Rightarrow> waitInput \<Rightarrow> (signalOutput, 'w) mcp" where
  "waitForSignal web rd conn i =
     (let wait = tool_wait (wi_timeoutSeconds i); budget = Some (wait + 15 * 10 ^ 9) in
      mcp_bind
        (if wi_since i = 0 then mcp_bind (client_Status web rd budget) (\<lambda>st. mcp_return (st_seq st)) else mcp_return (wi_since i))
        (\<lambda>since.
         mcp_bind (client_Edges web rd budget conn since 20 (wi_risingOnly i) (wi_kind i) wait) (\<lambda>page.
         mcp_return
           \<lparr>so_signals = map toSignal (eg_edges page), so_seq = eg_seq page, so_timedOut = (eg_edges page = []),
            so_note = (if eg_edges page = [] then NothingMoved wait (eg_seq page) else NoNote)\<rparr>)))"

record recentInput =
  ri_limit :: int
  ri_risingOnly :: bool
  ri_kind :: string
  ri_since :: nat

definition tool_budget :: "int option" where "tool_budget = Some (20 * 10 ^ 9)"

definition recentSignals :: "('b, 'w) world \<Rightarrow> ('b, 'w) Reader \<Rightarrow> string \<Rightarrow> recentInput \<Rightarrow> (signalOutput, 'w) mcp" where
  "recentSignals web rd conn i =
     mcp_bind
       (client_Edges web rd tool_budget conn (ri_since i) (if ri_limit i \<le> 0 then 20 else ri_limit i) (ri_risingOnly i) (ri_kind i) 0)
       (\<lambda>page. mcp_return
          \<lparr>so_signals = map toSignal (eg_edges page), so_seq = eg_seq page, so_timedOut = False,
           so_note = (if eg_edges page = [] then NoneRecorded else NoNote)\<rparr>)"

section \<open>Points\<close>

record findInput =
  fi_query :: string
  fi_kind :: string
  fi_limit :: int

record pointView =
  pv_address :: int
  pv_name :: string
  pv_label :: string
  pv_location :: string
  pv_sensorType :: string
  pv_alarmZone :: bool
  pv_kind :: string
  pv_topic :: string
  pv_value :: string
  pv_number :: float64
  pv_updatedAt :: time

record findOutput =
  fo_points :: "pointView list"
  fo_total :: nat
  fo_note :: mcp_note
  fo_skipped :: int

definition pointMatches :: "Point \<Rightarrow> string \<Rightarrow> bool" where
  "pointMatches p needle \<longleftrightarrow>
     list_ex (\<lambda>f. f \<noteq> [] \<and> contains_sub (to_lower f) needle)
       [pt_name p, pt_label p, pt_location p, pt_sensorType p, pt_topic p] \<or>
     contains_sub (int_string (pt_address p)) needle"

definition toPointView :: "(float64 \<Rightarrow> string) \<Rightarrow> Point \<Rightarrow> pointView" where
  "toPointView two_decimals p =
     \<lparr>pv_address = pt_address p, pv_name = pt_name p, pv_label = pt_label p, pv_location = pt_location p,
      pv_sensorType = pt_sensorType p, pv_alarmZone = pt_alarmZone p, pv_kind = kind_string (pt_kind p), pv_topic = pt_topic p,
      pv_value = (case pt_bool p of
         Some True \<Rightarrow> ''on'' | Some False \<Rightarrow> ''off''
       | None \<Rightarrow> (case pt_number p of Some x \<Rightarrow> two_decimals x | None \<Rightarrow> ''unknown'')),
      pv_number = (case (pt_bool p, pt_number p) of (None, Some x) \<Rightarrow> x | _ \<Rightarrow> 0), pv_updatedAt = pt_updatedAt p\<rparr>"

text \<open>Points of one kind and one address are in no order the code promises; here they keep theirs.\<close>

definition findPoints :: "('b, 'w) world \<Rightarrow> ('b, 'w) Reader \<Rightarrow> (float64 \<Rightarrow> string) \<Rightarrow> string \<Rightarrow> findInput \<Rightarrow> (findOutput, 'w) mcp" where
  "findPoints web rd two_decimals conn i =
     mcp_bind (client_State web rd tool_budget conn) (\<lambda>s.
       let limit = (if fi_limit i \<le> 0 then 50 else fi_limit i);
           needle = to_lower (trim_space (fi_query i));
           matched = map (toPointView two_decimals)
             (filter (\<lambda>p. \<not> (fi_kind i \<noteq> [] \<and> kind_string (pt_kind p) \<noteq> fi_kind i) \<and>
                \<not> (needle \<noteq> [] \<and> \<not> pointMatches p needle)) (ps_points s));
           sorted = sort_key pv_kind (sort_key pv_address matched);
           total = length sorted
       in mcp_return
            (if int total > limit
             then \<lparr>fo_points = take (nat limit) sorted, fo_total = total, fo_note = Showing limit total, fo_skipped = int total - limit\<rparr>
             else \<lparr>fo_points = sorted, fo_total = total, fo_note = NoNote, fo_skipped = 0\<rparr>))"

record nameInput =
  ni_name :: string
  ni_label :: string
  ni_location :: string
  ni_type :: string
  ni_notes :: string

record nameOutput =
  no_saved :: Mapping
  no_removed :: bool
  no_note :: mcp_note

definition namePoint :: "('b, 'w) world \<Rightarrow> ('b, 'w) Reader \<Rightarrow> string \<Rightarrow> nameInput \<Rightarrow> (nameOutput, 'w) mcp" where
  "namePoint web rd conn i =
     (let name = trim_space (ni_name i) in
      if name = [] then mcp_fail ME_NameRequired
      else
        mcp_bind
          (client_SetMapping web rd tool_budget conn
             \<lparr>mp_name = name, mp_label = trim_space (ni_label i), mp_location = trim_space (ni_location i),
              mp_type = trim_space (ni_type i), mp_notes = trim_space (ni_notes i)\<rparr>)
          (\<lambda>saved. mcp_return
             \<lparr>no_saved = saved, no_removed = mapping_empty saved,
              no_note = (if mapping_empty saved then NameRemoved name else NowCalled name (mp_label saved))\<rparr>))"

section \<open>Lights and the rest of the house\<close>

record lightView =
  lv_address :: int
  lv_name :: string
  lv_level :: int
  lv_percent :: int
  lv_minLevel :: int
  lv_maxLevel :: int
  lv_status :: int
  lv_lastCommand :: string
  lv_error :: string

record lightsOutput =
  lo_lights :: "lightView list"
  lo_total :: nat
  lo_withErrors :: nat
  lo_on :: nat

definition toLightView :: "Light \<Rightarrow> lightView" where
  "toLightView l =
     \<lparr>lv_address = lt_address l, lv_name = lt_name l, lv_level = lt_actualLevel l, lv_percent = Percent l,
      lv_minLevel = lt_minLevel l, lv_maxLevel = lt_maxLevel l, lv_status = lt_status l, lv_lastCommand = lt_lastCommand l,
      lv_error = lt_error l\<rparr>"

definition tool_lights :: "('b, 'w) world \<Rightarrow> ('b, 'w) Reader \<Rightarrow> string \<Rightarrow> bool \<Rightarrow> (lightsOutput, 'w) mcp" where
  "tool_lights web rd conn onlyErrors =
     mcp_bind (client_State web rd tool_budget conn) (\<lambda>s. mcp_return
       \<lparr>lo_lights = map toLightView (filter (\<lambda>l. \<not> (onlyErrors \<and> lt_error l = [])) (ps_lights s)),
        lo_total = su_lights (ps_summary s), lo_withErrors = su_lightsWithError (ps_summary s), lo_on = su_lightsOn (ps_summary s)\<rparr>)"

record watchdogView =
  wv_alive :: bool
  wv_uptimeHours :: float64
  wv_alarmMode :: string
  wv_alarmTriggered :: bool
  wv_fallbackActive :: bool
  wv_ready :: bool
  wv_streams :: "(string \<times> int) list"

record electricityView =
  ev_name :: string
  ev_voltages :: "float64 list"
  ev_currents :: "float64 list"
  ev_frequency :: float64
  ev_voltageImbalance :: float64
  ev_currentImbalance :: float64
  ev_alarmActive :: bool
  ev_activeAlarms :: "string list"

record meterView =
  me_name :: string
  me_available :: bool
  me_readings :: "(string \<times> float64) list"
  me_units :: "(string \<times> string) list"

record overviewOutput =
  oo_topicPrefix :: string
  oo_readOnly :: bool
  oo_counts :: Summary
  oo_watchdog :: "watchdogView option"
  oo_electricity :: "electricityView list"
  oo_meters :: "meterView list"
  oo_shades :: nat
  oo_signalsSeq :: nat
  oo_note :: mcp_note

text \<open>Seconds as hours in floating point are a parameter.\<close>

definition toWatchdogView :: "(int \<Rightarrow> float64) \<Rightarrow> Watchdog \<Rightarrow> watchdogView" where
  "toWatchdogView hours w =
     \<lparr>wv_alive = wd_alive w, wv_uptimeHours = hours (wd_uptimeS w), wv_alarmMode = wd_alarmMode w,
      wv_alarmTriggered = wd_alarmTriggered w, wv_fallbackActive = wd_fallbackActive w, wv_ready = wd_ready w,
      wv_streams = map (\<lambda>(k, s). (k, sm_ageS s)) (wd_streams w)\<rparr>"

definition toElectricityView :: "Electricity \<Rightarrow> electricityView" where
  "toElectricityView e =
     (case el_phases e of (a, b, c) \<Rightarrow>
     \<lparr>ev_name = el_name e, ev_voltages = map ph_voltage [a, b, c], ev_currents = map ph_current [a, b, c],
      ev_frequency = el_frequency e, ev_voltageImbalance = el_voltageImbalance e, ev_currentImbalance = el_currentImbalance e,
      ev_alarmActive = el_alarmActive e, ev_activeAlarms = el_activeAlarms e\<rparr>)"

definition overview :: "('b, 'w) world \<Rightarrow> ('b, 'w) Reader \<Rightarrow> (int \<Rightarrow> float64) \<Rightarrow> string \<Rightarrow> (overviewOutput, 'w) mcp" where
  "overview web rd hours conn =
     mcp_bind (client_Status web rd tool_budget) (\<lambda>st.
     mcp_bind (client_State web rd tool_budget conn) (\<lambda>s. mcp_return
       \<lparr>oo_topicPrefix = st_topicPrefix st, oo_readOnly = st_readOnly st, oo_counts = ps_summary s,
        oo_watchdog = map_option (toWatchdogView hours) (ps_watchdog s), oo_electricity = map toElectricityView (ps_electricity s),
        oo_meters = map (\<lambda>m. \<lparr>me_name = mt_name m, me_available = mt_available m, me_readings = mt_readings m, me_units = mt_units m\<rparr>)
          (ps_meters s),
        oo_shades = su_shades (ps_summary s), oo_signalsSeq = st_seq st,
        oo_note = (if st_points st = 0 then NoPointsSeen else NoNote)\<rparr>))"

section \<open>The broker\<close>

definition resolveConnection :: "('b, 'w) world \<Rightarrow> ('b, 'w) Reader \<Rightarrow> string \<Rightarrow> string \<Rightarrow> (string, 'w) mcp" where
  "resolveConnection web rd conn requested =
     (if requested \<noteq> [] then mcp_return requested
      else if conn \<noteq> [] then mcp_return conn
      else mcp_bind (client_Connections web rd None) (\<lambda>cs.
        case cs of
          [] \<Rightarrow> mcp_fail ME_NoConnections
        | [c] \<Rightarrow> mcp_return (sy_id c)
        | _ \<Rightarrow> mcp_fail (ME_WhichConnection (map (\<lambda>c. (sy_name c, sy_id c)) cs))))"

record collectInput =
  ci_seconds :: int
  ci_filter :: string
  ci_limit :: int
  ci_connectionID :: string

record collectOutput =
  cx_filter :: string
  cx_seconds :: float64
  cx_count :: nat
  cx_messages :: "CollectedMessage list"
  cx_topics :: "string \<rightharpoonup> nat"
  cx_dropped :: int
  cx_truncated :: bool
  cx_note :: mcp_note

definition tool_collect :: "('b, 'w) world \<Rightarrow> ('b, 'w) Reader \<Rightarrow> string \<Rightarrow> collectInput \<Rightarrow> (collectOutput, 'w) mcp" where
  "tool_collect web rd conn i =
     mcp_bind (resolveConnection web rd conn (ci_connectionID i)) (\<lambda>connID.
     mcp_bind (client_Collect web rd None connID (ci_filter i) (ci_seconds i) (ci_limit i)) (\<lambda>got. mcp_return
       \<lparr>cx_filter = cln_filter got, cx_seconds = cln_seconds got, cx_count = length (cln_messages got), cx_messages = cln_messages got,
        cx_topics = cln_topics got, cx_dropped = cln_dropped got, cx_truncated = cln_truncated got,
        cx_note = (if cln_messages got = [] then NothingPublished else NoNote)\<rparr>))"

definition tool_connections :: "('b, 'w) world \<Rightarrow> ('b, 'w) Reader \<Rightarrow> (ConnectionSummary list, 'w) mcp" where
  "tool_connections web rd = client_Connections web rd None"

section \<open>All of them\<close>

datatype tool =
    WaitForSignal waitInput | RecentSignals recentInput | FindPoints findInput | Lights bool | NamePoint nameInput
  | CollectTool collectInput | ConnectionsTool | Overview

datatype tool_output =
    SignalsOut signalOutput | PointsOut findOutput | LightsOut lightsOutput | NameOut nameOutput | CollectOut collectOutput
  | ConnectionsOut "ConnectionSummary list" | OverviewOut overviewOutput

definition mcp_map :: "('a \<Rightarrow> 'b) \<Rightarrow> ('a, 'w) mcp \<Rightarrow> ('b, 'w) mcp" where
  "mcp_map f m = mcp_bind m (\<lambda>x. mcp_return (f x))"

fun run_tool :: "('b, 'w) world \<Rightarrow> ('b, 'w) Reader \<Rightarrow> (float64 \<Rightarrow> string) \<Rightarrow> (int \<Rightarrow> float64) \<Rightarrow> string \<Rightarrow> tool \<Rightarrow> (tool_output, 'w) mcp" where
  "run_tool web rd two_decimals hours conn (WaitForSignal i) = mcp_map SignalsOut (waitForSignal web rd conn i)"
| "run_tool web rd two_decimals hours conn (RecentSignals i) = mcp_map SignalsOut (recentSignals web rd conn i)"
| "run_tool web rd two_decimals hours conn (FindPoints i) = mcp_map PointsOut (findPoints web rd two_decimals conn i)"
| "run_tool web rd two_decimals hours conn (Lights b) = mcp_map LightsOut (tool_lights web rd conn b)"
| "run_tool web rd two_decimals hours conn (NamePoint i) = mcp_map NameOut (namePoint web rd conn i)"
| "run_tool web rd two_decimals hours conn (CollectTool i) = mcp_map CollectOut (tool_collect web rd conn i)"
| "run_tool web rd two_decimals hours conn ConnectionsTool = mcp_map ConnectionsOut (tool_connections web rd)"
| "run_tool web rd two_decimals hours conn Overview = mcp_map OverviewOut (overview web rd hours conn)"

text \<open>Starting: both of the account's parts have to be there, and the sign-in is tried at once.\<close>

definition mcp_start :: "('b, 'w) world \<Rightarrow> (string \<Rightarrow> bool) \<Rightarrow> string \<Rightarrow> string \<Rightarrow> string \<Rightarrow> 'w \<Rightarrow> (mcp_error + McpClient) \<times> 'w" where
  "mcp_start web parses base email password w =
     (if email = [] \<or> password = [] then (Inl ME_NoAccount, w)
      else case NewClient parses base email password of
        Inl e \<Rightarrow> (Inl e, w)
      | Inr c \<Rightarrow> (case loginLocked web (Some (15 * 10 ^ 9)) (c, w) of
          (Inl e, _, w) \<Rightarrow> (Inl e, w) | (Inr _, c, w) \<Rightarrow> (Inr c, w)))"

end
