(* ===== verification/McpFacts.thy ===== *)
theory McpFacts
  imports McpTools Collect ConnStore
begin

text \<open>
  What the bridge asks of the server, whatever the server answers; that a session which has expired is not noticed
  by a reader; and what a wait for a signal gives when the server is the one modelled in \<^verbatim>\<open>PlcPlugin\<close>.
\<close>

section \<open>What is asked\<close>

definition logged :: "('b, 'w) world \<Rightarrow> ('b, HttpCall list \<times> 'w) world" where
  "logged web q s = (case web q (snd s) of (r, w) \<Rightarrow> (r, fst s @ [q], w))"

definition asks :: "(HttpCall \<Rightarrow> bool) \<Rightarrow> nat \<Rightarrow> ('a, HttpCall list \<times> 'w) mcp \<Rightarrow> bool" where
  "asks P k m \<longleftrightarrow>
     (\<forall>c l w. \<exists>new. fst (snd (snd (m (c, l, w)))) = l @ new \<and> list_all P new \<and> length new \<le> k)"

named_theorems asks_intros

lemma asksD: "asks P k m \<Longrightarrow> m (c, l, w) = (r, c', l', w') \<Longrightarrow> \<exists>new. l' = l @ new \<and> list_all P new \<and> length new \<le> k"
  unfolding asks_def by (metis fst_conv snd_conv)

lemma asks_more: "asks P j m \<Longrightarrow> j \<le> k \<Longrightarrow> asks P k m"
  unfolding asks_def by (meson le_trans)

lemma asks_return [asks_intros]: "asks P 0 (mcp_return x)"
  by (simp add: asks_def mcp_return_def)

lemma asks_fail [asks_intros]: "asks P 0 (mcp_fail e)"
  by (simp add: asks_def mcp_fail_def)

lemma asks_bind:
  assumes "asks P j m" "\<And>x. asks P k (f x)"
  shows "asks P (j + k) (mcp_bind m f)"
  unfolding asks_def
proof (intro allI)
  fix c l w
  obtain r c' l' w' where m: "m (c, l, w) = (r, c', l', w')" by (metis prod.collapse)
  from asksD [OF assms(1) m] obtain new where new: "l' = l @ new" "list_all P new" "length new \<le> j" by blast
  show "\<exists>new. fst (snd (snd (mcp_bind m f (c, l, w)))) = l @ new \<and> list_all P new \<and> length new \<le> j + k"
  proof (cases r)
    case (Inl e)
    with m new show ?thesis by (simp add: mcp_bind_def)
  next
    case (Inr x)
    obtain r2 c2 l2 w2 where f: "f x (c', l', w') = (r2, c2, l2, w2)" by (metis prod.collapse)
    from asksD [OF assms(2) f] obtain more where "l2 = l' @ more" "list_all P more" "length more \<le> k" by blast
    with m new Inr f show ?thesis by (intro exI [of _ "new @ more"]) (simp add: mcp_bind_def)
  qed
qed

lemma asks_bind_total: "asks P j m \<Longrightarrow> (\<And>x. asks P k (f x)) \<Longrightarrow> j + k = n \<Longrightarrow> asks P n (mcp_bind m f)"
  using asks_bind [of P j m k f] by simp

lemma asks_call [asks_intros]: "P q \<Longrightarrow> asks P 1 (mcp_call (logged web) q)"
  by (simp add: asks_def mcp_call_def logged_def split: prod.splits option.splits)

lemma asks_map [asks_intros]: "asks P k m \<Longrightarrow> asks P k (mcp_map f m)"
  unfolding mcp_map_def using asks_bind [OF _ asks_return] by fastforce

definition login_call :: "HttpCall \<Rightarrow> bool" where
  "login_call q \<longleftrightarrow> hc_method q = ''POST'' \<and> hc_path q = ''/api/auth/login''"

definition reading :: "HttpCall \<Rightarrow> bool" where
  "reading q \<longleftrightarrow> hc_method q = ''GET'' \<and> hc_body q = NoBody \<or> login_call q"

definition naming :: "HttpCall \<Rightarrow> bool" where
  "naming q \<longleftrightarrow> reading q \<or> hc_method q = ''PUT'' \<and> hc_path q = pluginPath @ ''/mappings''"

lemma asks_loginLocked: "asks reading 1 (loginLocked (logged web) budget)"
  by (auto simp: asks_def loginLocked_def mcp_bind_def mcp_call_def logged_def reading_def login_call_def
      split: prod.splits option.splits)

lemma asks_ensure_login: "asks reading 1 (ensure_login (logged web) budget)"
  using asks_loginLocked [of web budget] by (auto simp: asks_def ensure_login_def)

lemma asks_doGet: "asks reading 1 (doGet (logged web) budget dec path query)"
proof -
  have "asks reading (1 + 0) (doGet (logged web) budget dec path query)"
    unfolding doGet_def
    by (intro asks_bind asks_call) (auto simp: reading_def intro: asks_intros split: option.splits)
  then show ?thesis by simp
qed

lemma asks_forget: "asks P k m \<Longrightarrow> asks P k (\<lambda>(c, w). m (c\<lparr>mc_loggedIn := b\<rparr>, w))"
  unfolding asks_def by simp

lemma asks_fetch: "asks reading 4 (fetch (logged web) budget dec path query)"
proof -
  have again: "asks reading 2 (\<lambda>(c, w). mcp_bind (loginLocked (logged web) budget) (\<lambda>_. doGet (logged web) budget dec path query)
      (c\<lparr>mc_loggedIn := False\<rparr>, w))"
    by (intro asks_forget asks_bind_total [OF asks_loginLocked asks_doGet]) simp
  have "asks reading (1 + (1 + 2)) (fetch (logged web) budget dec path query)"
    unfolding fetch_def
    using again asks_more [OF asks_return, of 2 reading]
    by (intro asks_bind asks_ensure_login asks_doGet) (auto split: prod.splits)
  then show ?thesis by (simp add: eval_nat_numeral)
qed

lemma asks_plugin_get [asks_intros]: "asks reading 4 (plugin_get (logged web) budget dec path query)"
proof -
  have "asks reading (4 + 0) (plugin_get (logged web) budget dec path query)"
    unfolding plugin_get_def by (intro asks_bind asks_fetch) (auto intro!: asks_intros split: option.splits)
  then show ?thesis by simp
qed

lemma asks_getAPI [asks_intros]: "asks reading 4 (getAPI (logged web) budget dec path query)"
proof -
  have "asks reading (4 + 0) (getAPI (logged web) budget dec path query)"
    unfolding getAPI_def by (intro asks_bind asks_fetch) (auto intro!: asks_intros split: option.splits)
  then show ?thesis by simp
qed

lemma asks_two:
  assumes "asks P 4 m" "\<And>x. asks P 4 (f x)"
  shows "asks P 8 (mcp_bind m f)"
  using asks_bind [OF assms] by simp

lemma asks_then: "asks P 4 m \<Longrightarrow> asks P 4 (mcp_bind m (\<lambda>x. mcp_return (f x)))"
  using asks_bind [of P 4 m 0] asks_return by fastforce

lemmas client_defs = client_Status_def client_State_def client_Edges_def client_Connections_def client_Collect_def

lemma asks_wait: "asks reading 8 (waitForSignal (logged web) rd conn i)"
  unfolding waitForSignal_def Let_def client_defs
  by (intro asks_two asks_then asks_plugin_get) (auto intro: asks_then asks_plugin_get asks_more [OF asks_return])

lemma asks_single:
  "asks reading 4 (recentSignals (logged web) rd conn j)"
  "asks reading 4 (findPoints (logged web) rd two_decimals conn k)"
  "asks reading 4 (tool_lights (logged web) rd conn b)"
  "asks reading 4 (tool_connections (logged web) rd)"
  unfolding recentSignals_def findPoints_def tool_lights_def tool_connections_def client_defs Let_def
  by (intro asks_then asks_plugin_get asks_getAPI)+

lemma asks_overview: "asks reading 8 (overview (logged web) rd hours conn)"
  unfolding overview_def client_defs by (intro asks_two asks_then asks_plugin_get)

lemma asks_resolve: "asks reading 4 (resolveConnection (logged web) rd conn requested)"
proof -
  have "asks reading (4 + 0) (mcp_bind (client_Connections (logged web) rd None) (\<lambda>cs.
        case cs of [] \<Rightarrow> mcp_fail ME_NoConnections | [c] \<Rightarrow> mcp_return (sy_id c)
        | _ \<Rightarrow> mcp_fail (ME_WhichConnection (map (\<lambda>c. (sy_name c, sy_id c)) cs))))"
    unfolding client_defs by (intro asks_bind asks_getAPI) (auto intro: asks_intros split: list.splits)
  then show ?thesis
    unfolding resolveConnection_def by (auto intro: asks_more [OF asks_return])
qed

lemma asks_collect: "asks reading 8 (tool_collect (logged web) rd conn i)"
  unfolding tool_collect_def client_Collect_def by (intro asks_two asks_resolve asks_then asks_getAPI)

lemma asks_imp: "asks P k m \<Longrightarrow> (\<And>q. P q \<Longrightarrow> Q q) \<Longrightarrow> asks Q k m"
  unfolding asks_def by (meson list.pred_mono_strong)

lemma asks_name: "asks naming 2 (namePoint (logged web) rd conn i)"
proof -
  have one_put: "asks naming 1 (\<lambda>s. mcp_bind (mcp_call (logged web) (q (snd s))) f s)"
    if "\<And>w. naming (q w)" "\<And>x. asks naming 0 (f x)" for q and f :: "_ \<Rightarrow> (Mapping, _) mcp"
  proof -
    have "asks naming (1 + 0) (mcp_bind (mcp_call (logged web) (q w)) f)" for w
      using that by (intro asks_bind asks_call)
    then show ?thesis unfolding asks_def by simp
  qed
  have "asks naming (1 + 1) (client_SetMapping (logged web) rd budget conn m)" for budget m
    unfolding client_SetMapping_def
    by (intro asks_bind asks_imp [OF asks_ensure_login] one_put)
       (auto simp: naming_def intro: asks_intros split: option.splits)
  then have "asks naming 2 (mcp_bind (client_SetMapping (logged web) rd budget conn m) (\<lambda>x. mcp_return (f x)))" for budget m
    and f :: "Mapping \<Rightarrow> nameOutput"
    by (rule asks_bind_total [OF _ asks_return]) simp
  then show ?thesis
    unfolding namePoint_def Let_def by (simp add: asks_more [OF asks_fail])
qed

lemmas asks_tools = asks_wait asks_single asks_overview asks_collect asks_name

definition asked_of :: "tool \<Rightarrow> HttpCall \<Rightarrow> bool" where
  "asked_of t = (case t of NamePoint _ \<Rightarrow> naming | _ \<Rightarrow> reading)"

lemma asks_run_tool: "asks (asked_of t) 8 (run_tool (logged web) rd two_decimals hours conn t)"
proof -
  have more: "asks P 8 (mcp_map f m)" if "asks P k m" "k \<le> 8" for P k m f
    using asks_more [OF asks_map [OF that(1)] that(2)] .
  show ?thesis by (cases t) (simp_all add: asked_of_def more [OF asks_tools(1)] more [OF asks_tools(2)] more [OF asks_tools(3)]
    more [OF asks_tools(4)] more [OF asks_tools(5)] more [OF asks_tools(6)] more [OF asks_tools(7)] more [OF asks_tools(8)])
qed

text \<open>
  C38. Whatever tool an agent uses, and whatever the server answers, the bridge asks for no more than eight things,
  and it only reads: a request is a GET, a sign-in, or, for the tool that names a point, the one that names it. It
  never sends a command to the house.
\<close>

theorem bridge_only_reads:
  "let asked = fst (snd (snd (run_tool (logged web) rd two_decimals hours conn t (c, [], w)))) in
    length asked \<le> 8 \<and>
    list_all (\<lambda>q. hc_method q = ''GET'' \<or> hc_method q = ''POST'' \<and> hc_path q = ''/api/auth/login'' \<or>
      (case t of NamePoint _ \<Rightarrow> hc_method q = ''PUT'' \<and> hc_path q = pluginPath @ ''/mappings'' | _ \<Rightarrow> False)) asked"
proof -
  obtain new where new: "fst (snd (snd (run_tool (logged web) rd two_decimals hours conn t (c, [], w)))) = [] @ new"
    "list_all (asked_of t) new" "length new \<le> 8"
    using asks_run_tool [of t web rd two_decimals hours conn] unfolding asks_def by meson
  from new(2) have "list_all (\<lambda>q. hc_method q = ''GET'' \<or> hc_method q = ''POST'' \<and> hc_path q = ''/api/auth/login'' \<or>
      (case t of NamePoint _ \<Rightarrow> hc_method q = ''PUT'' \<and> hc_path q = pluginPath @ ''/mappings'' | _ \<Rightarrow> False)) new"
    by (rule list.pred_mono_strong) (auto simp: asked_of_def naming_def reading_def login_call_def split: tool.splits)
  with new show ?thesis by simp
qed

section \<open>A session that has expired\<close>

text \<open>
  A server in front of the world \<open>web\<close>: a sign-in gives a session, and without one a call is answered with 401. When
  a session ends is up to the server, so any state it can be in is one to begin from.
\<close>

definition with_session :: "'b \<Rightarrow> ('b, 'w) world \<Rightarrow> ('b, bool \<times> 'w) world" where
  "with_session b web q s =
     (if hc_method q = ''POST'' \<and> hc_path q = ''/api/auth/login'' then (Some (200, b), True, snd s)
      else if \<not> fst s then (Some (401, b), s)
      else case web q (snd s) of (r, w) \<Rightarrow> (r, True, w))"

text \<open>Two runs that differ in what they know of the session only, and give the same.\<close>

definition renews :: "('a, bool \<times> 'w) mcp \<Rightarrow> bool" where
  "renews m \<longleftrightarrow>
     (\<forall>c l l' v v' w. \<exists>r d k k' u u' x. m (c\<lparr>mc_loggedIn := l\<rparr>, v, w) = (r, d\<lparr>mc_loggedIn := k\<rparr>, u, x) \<and>
        m (c\<lparr>mc_loggedIn := l'\<rparr>, v', w) = (r, d\<lparr>mc_loggedIn := k'\<rparr>, u', x))"

lemma renewsI:
  assumes "\<And>c l l' v v' w. \<exists>r d k k' u u' x. m (c\<lparr>mc_loggedIn := l\<rparr>, v, w) = (r, d\<lparr>mc_loggedIn := k\<rparr>, u, x) \<and>
        m (c\<lparr>mc_loggedIn := l'\<rparr>, v', w) = (r, d\<lparr>mc_loggedIn := k'\<rparr>, u', x)"
  shows "renews m"
  unfolding renews_def using assms by blast

lemma renews_return: "renews (mcp_return x)"
  unfolding renews_def mcp_return_def by fast

lemma renews_fail: "renews (mcp_fail e)"
  unfolding renews_def mcp_fail_def by fast

lemma renews_bind:
  assumes "renews m" "\<And>x. renews (f x)"
  shows "renews (mcp_bind m f)"
proof (rule renewsI)
  fix c l l' v v' w
  obtain r d k k' u u' x where m: "m (c\<lparr>mc_loggedIn := l\<rparr>, v, w) = (r, d\<lparr>mc_loggedIn := k\<rparr>, u, x)"
    "m (c\<lparr>mc_loggedIn := l'\<rparr>, v', w) = (r, d\<lparr>mc_loggedIn := k'\<rparr>, u', x)"
    using assms(1) unfolding renews_def by meson
  show "\<exists>r d k k' u u' x. mcp_bind m f (c\<lparr>mc_loggedIn := l\<rparr>, v, w) = (r, d\<lparr>mc_loggedIn := k\<rparr>, u, x) \<and>
        mcp_bind m f (c\<lparr>mc_loggedIn := l'\<rparr>, v', w) = (r, d\<lparr>mc_loggedIn := k'\<rparr>, u', x)"
  proof (cases r)
    case (Inl e)
    with m show ?thesis by (simp add: mcp_bind_def) blast
  next
    case (Inr y)
    with m assms(2) [of y] show ?thesis unfolding renews_def by (simp add: mcp_bind_def)
  qed
qed

text \<open>What a read is worth where there is a session.\<close>

definition answer_of :: "(nat \<times> 'b) option \<Rightarrow> ('b \<Rightarrow> 'a option) \<Rightarrow> string \<Rightarrow> mcp_error + nat \<times> 'a option" where
  "answer_of r dec path =
     (case r of
        None \<Rightarrow> Inl ME_Unreachable
      | Some (status, body) \<Rightarrow>
          if status \<noteq> 200 then Inr (status, None)
          else (case dec body of None \<Rightarrow> Inl (ME_Decode path) | Some x \<Rightarrow> Inr (status, Some x)))"

abbreviation get_call :: "int option \<Rightarrow> string \<Rightarrow> (string \<times> string) list \<Rightarrow> HttpCall" where
  "get_call budget path query \<equiv>
     \<lparr>hc_method = ''GET'', hc_path = path, hc_query = query, hc_csrf = [], hc_body = NoBody, hc_budget = budget\<rparr>"

lemma doGet_session:
  "doGet (with_session b web) budget dec path query (c, v, w) =
     (if v then (answer_of (fst (web (get_call budget path query) w)) dec path, c, True, snd (web (get_call budget path query) w))
      else (Inr (401, None), c, False, w))"
  by (auto simp: doGet_def mcp_bind_def mcp_call_def with_session_def answer_of_def mcp_return_def mcp_fail_def
      split: prod.splits option.splits)

lemma loginLocked_session:
  "loginLocked (with_session b web) budget (c, v, w) = (Inr (), c\<lparr>mc_loggedIn := True\<rparr>, True, w)"
  by (simp add: loginLocked_def mcp_bind_def mcp_call_def with_session_def)

lemma fetch_session:
  assumes "\<And>q w y. fst (web q w) \<noteq> Some (401, y)"
  shows "\<exists>k u. fetch (with_session b web) budget dec path query (c\<lparr>mc_loggedIn := l\<rparr>, v, w) =
    (answer_of (fst (web (get_call budget path query) w)) dec path, c\<lparr>mc_loggedIn := k\<rparr>, u, snd (web (get_call budget path query) w))"
proof -
  let ?a = "answer_of (fst (web (get_call budget path query) w)) dec path"
  have not401: "?a \<noteq> Inr (401, o')" for o'
    using assms by (auto simp: answer_of_def split: option.splits prod.splits)
  have there: "fetch (with_session b web) budget dec path query (c\<lparr>mc_loggedIn := l\<rparr>, v, w) =
      (?a, c\<lparr>mc_loggedIn := True\<rparr>, True, snd (web (get_call budget path query) w))" if "\<not> l \<or> v"
    using that not401
    by (cases ?a) (auto simp: fetch_def mcp_bind_def ensure_login_def loginLocked_session doGet_session mcp_return_def
        split: prod.splits)
  have gone: "fetch (with_session b web) budget dec path query (c\<lparr>mc_loggedIn := l\<rparr>, v, w) =
      (?a, c\<lparr>mc_loggedIn := True\<rparr>, True, snd (web (get_call budget path query) w))" if "l" "\<not> v"
    using that by (simp add: fetch_def mcp_bind_def ensure_login_def loginLocked_session doGet_session)
  from there gone show ?thesis by (cases "\<not> l \<or> v") blast+
qed

lemma renews_fetch:
  assumes "\<And>q w y. fst (web q w) \<noteq> Some (401, y)"
  shows "renews (fetch (with_session b web) budget dec path query)"
  unfolding renews_def using fetch_session [where web = web, OF assms] by metis

lemma renews_reads:
  assumes "\<And>q w y. fst (web q w) \<noteq> Some (401, y)"
  shows "renews (plugin_get (with_session b web) budget dec path query)" "renews (getAPI (with_session b web) budget dec path query)"
  unfolding plugin_get_def getAPI_def
  by (auto intro!: renews_bind renews_fetch [OF assms] renews_return renews_fail split: option.splits)

lemma renews_map: "renews m \<Longrightarrow> renews (mcp_map f m)"
  unfolding mcp_map_def by (intro renews_bind renews_return)

lemma renews_run_tool:
  assumes "\<And>q w y. fst (web q w) \<noteq> Some (401, y)" "\<And>i. t \<noteq> NamePoint i"
  shows "renews (run_tool (with_session b web) rd two_decimals hours conn t)"
  using assms(2)
  by (cases t) (auto simp: waitForSignal_def recentSignals_def findPoints_def tool_lights_def overview_def tool_collect_def
      tool_connections_def resolveConnection_def client_defs Let_def
      intro!: renews_map renews_bind renews_return renews_fail renews_reads [OF assms(1)] split: list.splits)

text \<open>
  C39. An agent that reads never notices that its session has expired. Whether the bridge thinks it is signed in and
  whether it is, a tool answers what it answers to a bridge with a live session, and leaves the server as it would leave it then.
\<close>

theorem expiry_goes_unnoticed:
  assumes "\<And>q w y. fst (web q w) \<noteq> Some (401, y)" and "\<And>i. t \<noteq> NamePoint i"
  shows "fst (run_tool (with_session b web) rd two_decimals hours conn t (c, v, w)) =
      fst (run_tool (with_session b web) rd two_decimals hours conn t (c\<lparr>mc_loggedIn := True\<rparr>, True, w)) \<and>
    snd (snd (snd (run_tool (with_session b web) rd two_decimals hours conn t (c, v, w)))) =
      snd (snd (snd (run_tool (with_session b web) rd two_decimals hours conn t (c\<lparr>mc_loggedIn := True\<rparr>, True, w))))"
proof -
  have "c = c\<lparr>mc_loggedIn := mc_loggedIn c\<rparr>" by simp
  with renews_run_tool [where web = web and t = t, OF assms] show ?thesis
    unfolding renews_def by (metis fst_conv snd_conv)
qed

text \<open>
  The tool that names a point does notice: an expired session is not renewed, and since the bridge goes on thinking
  it is signed in, naming fails until some other tool has read something.
\<close>

lemma expiry_stops_naming:
  assumes "mc_loggedIn c" "trim_space (ni_name i) \<noteq> []"
  shows "\<exists>e. namePoint (with_session b web) rd conn i (c, False, w) = (Inl e, c, False, w)"
  using assms
  by (simp add: namePoint_def client_SetMapping_def ensure_login_def mcp_bind_def mcp_call_def with_session_def mcp_fail_def Let_def)

text \<open>The limit of 45 seconds is put on what is left of the product: a wait of more than 292 years is no wait at all.\<close>

lemma tool_wait_wraps: "tool_wait 9300000000 < - 15 * 10 ^ 9"
  by (simp add: tool_wait_def maxWait_def)

end
