(* ===== verification/McpPlc.thy ===== *)
theory McpPlc
  imports McpFacts
begin

text \<open>
  The bridge in front of the plugin it is for: the server is the PLC plugin of \<^verbatim>\<open>PlcPlugin\<close>, whose log grows while
  the bridge is at work. What falls between two calls, and what comes while a call waits, is part of the world, so
  that a theorem about every world is one about every such timing, the end of a wait in the moment an edge comes included.
\<close>

section \<open>The plugin as a server\<close>

record PlcWorld =
  pw_plugin :: PlcPlugin
  pw_settings :: "SettingValue settings"
  pw_gaps :: "Edge list list"
  pw_coming :: "wait_event list"

datatype PlcReply = NoReply | StatusReply PlcStatus | EdgesReply "Edge list \<times> nat" | StateReply PlcState

definition query_get :: "(string \<times> string) list \<Rightarrow> string \<Rightarrow> string" where
  "query_get q k = (case map_of q k of None \<Rightarrow> [] | Some v \<Rightarrow> v)"

definition pw_journal :: "PlcWorld \<Rightarrow> Journal" where
  "pw_journal w = rg_journal (pc_registry (pw_plugin w))"

definition put_journal :: "Journal \<Rightarrow> PlcWorld \<Rightarrow> PlcWorld" where
  "put_journal j w = w\<lparr>pw_plugin := (pw_plugin w)\<lparr>pc_registry := (pc_registry (pw_plugin w))\<lparr>rg_journal := j\<rparr>\<rparr>\<rparr>"

text \<open>
  A wait through the events of a time: its answer, if it has one before they are over, the log then, and what is still
  to come.
\<close>

fun run_wait :: "WaitArgs \<Rightarrow> wait_event list \<Rightarrow> Journal \<times> Waiter \<Rightarrow> (Edge list \<times> nat) option \<times> Journal \<times> wait_event list" where
  "run_wait a [] s = ((case snd s of WReturned r \<Rightarrow> Some r | _ \<Rightarrow> None), fst s, [])"
| "run_wait a (ev # evs) s =
     (case snd s of WReturned r \<Rightarrow> (Some r, fst s, ev # evs) | _ \<Rightarrow> run_wait a evs (wait_event_step a ev s))"

definition pass_gap :: "PlcWorld \<Rightarrow> PlcWorld" where
  "pass_gap w =
     (case pw_gaps w of [] \<Rightarrow> w | g # gs \<Rightarrow> put_journal (fold Append g (pw_journal w)) (w\<lparr>pw_gaps := gs\<rparr>))"

definition plc_world :: "(PlcReply, PlcWorld) world" where
  "plc_world q w =
     (let w = pass_gap w; g = query_get (hc_query q) in
      if hc_path q = ''/api/auth/login'' then (Some (200, NoReply), w)
      else if hc_path q = pluginPath @ ''/status'' then (Some (200, StatusReply (handleStatus (pw_plugin w) (pw_settings w))), w)
      else if hc_path q = pluginPath @ ''/state'' then (Some (200, StateReply (handleState g (pw_plugin w))), w)
      else if hc_path q = pluginPath @ ''/edges'' then
        (case run_wait (edges_query g) (pw_coming w) (pw_journal w, handleEdges g (pw_plugin w)) of
           (r, j, rest) \<Rightarrow> (map_option (\<lambda>r. (200, EdgesReply r)) r, put_journal j (w\<lparr>pw_coming := rest\<rparr>)))
      else (Some (404, NoReply), w))"

text \<open>The members of a reply and of the struct it is read into have the same names.\<close>

definition plc_reader :: "(PlcReply, 'w) Reader" where
  "plc_reader =
     \<lparr>rd_status = (\<lambda>b. case b of
        StatusReply s \<Rightarrow> Some \<lparr>st_topicPrefix = ps_topicPrefix s, st_meterPrefix = ps_meterPrefix s, st_points = int (ps_pointCount s),
          st_lights = int (ps_lightCount s), st_edges = int (ps_edges s), st_seq = ps_seq s, st_readOnly = ps_readOnly s\<rparr>
      | _ \<Rightarrow> None),
      rd_state = (\<lambda>b. case b of StateReply s \<Rightarrow> Some s | _ \<Rightarrow> None),
      rd_edges = (\<lambda>b. case b of EdgesReply (es, n) \<Rightarrow> Some \<lparr>eg_edges = es, eg_seq = n\<rparr> | _ \<Rightarrow> None),
      rd_mapping = (\<lambda>b. None), rd_error = (\<lambda>b. []), rd_connections = (\<lambda>b. None), rd_collection = (\<lambda>b. None),
      rd_csrf = (\<lambda>w. [])\<rparr>"

section \<open>What a wait comes back with\<close>

text \<open>
  A wait that began with the log \<open>j0\<close> has found nothing at its last look before it sleeps; it comes back with a read of
  the log as it is, or with nothing, having found nothing at that look.
\<close>

definition looked :: "WaitArgs \<Rightarrow> Journal \<Rightarrow> Journal \<Rightarrow> bool" where
  "looked a j0 j \<longleftrightarrow>
     (\<exists>new late. j = fold Append late (fold Append new j0) \<and> fst (wa_since a (fold Append new j0)) = [])"

fun wait_sound :: "WaitArgs \<Rightarrow> Journal \<Rightarrow> Journal \<times> Waiter \<Rightarrow> bool" where
  "wait_sound a j0 (j, WSleep ch) = looked a j0 j"
| "wait_sound a j0 (j, WReturned r) =
     ((\<exists>new. j = fold Append new j0) \<and> snd r = jn_seq j \<and> (r = wa_since a j \<or> fst r = [] \<and> looked a j0 j))"
| "wait_sound a j0 (j, w) = (\<exists>new. j = fold Append new j0)"

lemma wa_since_snd [simp]: "snd (wa_since a j) = jn_seq j"
  by (simp add: wa_since_def Since_def Let_def)

lemma looked_now: "fst (wa_since a j) = [] \<Longrightarrow> j = fold Append new j0 \<Longrightarrow> looked a j0 j"
  unfolding looked_def by (intro exI [of _ new] exI [of _ "[]"]) simp

lemma looked_Append: "looked a j0 j \<Longrightarrow> looked a j0 (Append e j)"
  unfolding looked_def by (elim exE conjE) (rule exI, rule_tac x = "late @ [e]" in exI, simp)

lemma looked_grown: "looked a j0 j \<Longrightarrow> \<exists>new. j = fold Append new j0"
  unfolding looked_def by (metis fold_append comp_apply)

lemma grown_Append: "\<exists>new. j = fold Append new j0 \<Longrightarrow> \<exists>new. Append e j = fold Append new j0"
  by (elim exE) (rule_tac x = "new @ [e]" in exI, simp)

lemma wait_sound_step:
  assumes "wait_sound a j0 (j, w)" "\<nexists>r. w = WReturned r" "wa_timeout a > 0"
  shows "wait_sound a j0 (wait_event_step a ev (j, w))"
proof (cases ev)
  case Turn
  show ?thesis
  proof (cases w)
    case (WSleep ch)
    with assms looked_grown Turn show ?thesis by auto
  next
    case (WCheck ch)
    with assms Turn looked_now show ?thesis by auto
  qed (use assms Turn in auto)
next
  case (Came e)
  with assms looked_Append grown_Append show ?thesis by (cases w) auto
next
  case Expiry
  with assms looked_grown show ?thesis by (cases w) auto
qed

lemma run_wait_sound:
  assumes "run_wait a evs s = (r, j, rest)" "wait_sound a j0 s" "wa_timeout a > 0 \<or> (\<exists>r. snd s = WReturned r)"
  shows "(\<exists>new. j = fold Append new j0) \<and>
    (\<forall>x. r = Some x \<longrightarrow> snd x = jn_seq j \<and> (x = wa_since a j \<or> fst x = [] \<and> looked a j0 j))"
  using assms
proof (induction a evs s rule: run_wait.induct)
  case (1 a s)
  obtain j1 w where s: "s = (j1, w)" by fastforce
  show ?case
  proof (cases w)
    case (WReturned x)
    with 1(1) s have "r = Some x" "j = j1" by auto
    with 1(2) s WReturned show ?thesis by simp
  qed (use 1 s looked_grown in auto)
next
  case (2 a ev evs s)
  obtain j1 w where s: "s = (j1, w)" by fastforce
  show ?case
  proof (cases "\<exists>r. w = WReturned r")
    case True
    with 2 s show ?thesis by auto
  next
    case False
    then have wt: "wa_timeout a > 0" using "2.prems"(3) s by auto
    have run: "run_wait a evs (wait_event_step a ev s) = (r, j, rest)"
      using "2.prems"(1) False s by (cases w) auto
    have "wait_sound a j0 (wait_event_step a ev s)"
      using wait_sound_step [of a j0 j1 w ev] "2.prems"(2) False wt s by simp
    with "2.IH" False s run wt show ?thesis by (cases w) auto
  qed
qed

lemma handleEdges_sound:
  "wait_sound (edges_query g) (rg_journal (pc_registry p)) (rg_journal (pc_registry p), handleEdges g p)"
  "wa_timeout (edges_query g) > 0 \<or> (\<exists>r. snd (rg_journal (pc_registry p), handleEdges g p) = WReturned r)"
  by (auto simp: handleEdges_def Let_def intro: exI [of _ "[]"])

lemmas edges_sound = run_wait_sound [OF _ handleEdges_sound]

text \<open>It is a wait of \<^verbatim>\<open>PlcJournal\<close>.\<close>

lemma run_wait_waits: "run_wait a evs (j, w) = (Some r, j', rest) \<Longrightarrow> waits a j0 j w \<Longrightarrow> waits a j0 j' (WReturned r)"
proof (induction evs arbitrary: j w)
  case (Cons ev evs)
  obtain j1 w1 where "wait_event_step a ev (j, w) = (j1, w1)" by fastforce
  with Cons wait_event_waits show ?case by (cases w) auto
qed (auto split: Waiter.splits)

section \<open>Calls\<close>

lemma put_journal_simps [simp]: "pw_journal (put_journal j w) = j" "pw_journal (w\<lparr>pw_gaps := gs\<rparr>) = pw_journal w"
  "pw_journal (w\<lparr>pw_coming := es\<rparr>) = pw_journal w"
  by (simp_all add: pw_journal_def put_journal_def)

lemma pass_gap_grows: "\<exists>new. pw_journal (pass_gap w) = fold Append new (pw_journal w)"
  by (auto simp: pass_gap_def intro: exI [of _ "[]"] split: list.splits)

lemma plc_world_grows: "\<exists>new. pw_journal (snd (plc_world q w)) = fold Append new (pw_journal w)"
proof -
  let ?g = "query_get (hc_query q)" and ?w = "pass_gap w"
  obtain g where g: "pw_journal ?w = fold Append g (pw_journal w)" using pass_gap_grows by blast
  obtain r j rest where run: "run_wait (edges_query ?g) (pw_coming ?w) (pw_journal ?w, handleEdges ?g (pw_plugin ?w)) = (r, j, rest)"
    by (metis prod.collapse)
  from edges_sound [OF run [unfolded pw_journal_def]] obtain new where "j = fold Append new (pw_journal ?w)"
    unfolding pw_journal_def by blast
  then have "j = fold Append (g @ new) (pw_journal w)" using g by simp
  then have "pw_journal (snd (plc_world q w)) \<in> {fold Append g (pw_journal w), fold Append (g @ new) (pw_journal w)}"
    by (simp add: plc_world_def Let_def run) (simp add: g)
  then show ?thesis by blast
qed

lemma plc_world_answers: "fst (plc_world q w) \<noteq> Some (401, y)"
  by (auto simp: plc_world_def Let_def split: prod.splits)

abbreviation grows :: "PlcWorld \<Rightarrow> PlcWorld \<Rightarrow> bool" where
  "grows w w' \<equiv> \<exists>new. pw_journal w' = fold Append new (pw_journal w)"

lemma grows_refl: "grows w w"
  by (intro exI [of _ "[]"]) simp

lemma grows_trans: "grows w w1 \<Longrightarrow> grows w1 w2 \<Longrightarrow> grows w w2"
  by (metis fold_append comp_apply)

lemma plugin_get_plc:
  assumes "plugin_get plc_world budget dec path query (c, w) = (Inr x, c', w')"
  shows "\<exists>w0 b. grows w w0 \<and> plc_world (get_call budget (pluginPath @ path) query) w0 = (Some (200, b), w') \<and> dec b = Some x"
proof -
  let ?q = "get_call budget (pluginPath @ path) query"
  obtain c0 w0 where login: "ensure_login plc_world budget (c, w) = (Inr (), c0, w0)" and w0: "grows w w0"
  proof (cases "mc_loggedIn c")
    case True
    then show ?thesis using that [of c w] grows_refl by (simp add: ensure_login_def)
  next
    case False
    let ?l = "\<lparr>hc_method = ''POST'', hc_path = ''/api/auth/login'', hc_query = [], hc_csrf = [],
      hc_body = LoginBody (mc_email c) (mc_password c), hc_budget = budget\<rparr>"
    obtain w1 where l: "plc_world ?l w = (Some (200, NoReply), w1)" by (simp add: plc_world_def Let_def)
    then have "ensure_login plc_world budget (c, w) = (Inr (), c\<lparr>mc_loggedIn := True\<rparr>, w1)"
      using False by (simp add: ensure_login_def loginLocked_def mcp_bind_def mcp_call_def)
    with l plc_world_grows [of ?l w] show ?thesis using that by simp
  qed
  obtain r w1 where q: "plc_world ?q w0 = (r, w1)" by fastforce
  have "r \<noteq> Some (401, y)" for y using plc_world_answers [of ?q w0 y] q by simp
  then have "\<exists>b. r = Some (200, b) \<and> dec b = Some x \<and> w' = w1"
    using assms login q
    by (auto simp: plugin_get_def fetch_def mcp_bind_def mcp_call_def doGet_def mcp_return_def mcp_fail_def
        split: option.splits prod.splits if_splits sum.splits)
  with w0 q show ?thesis by blast
qed

section \<open>Waiting for a signal\<close>

lemma fold_Append_seq: "jn_seq (fold Append es j) = jn_seq j + length es"
  by (induction es arbitrary: j) simp_all

lemma edges_lookup:
  "query_get (edges_params conn since limit rising kind wait) ''since'' = (if since > 0 then nat_string since else [])"
  "query_get (edges_params conn since limit rising kind wait) ''limit'' = (if limit > 0 then int_string limit else [])"
  "query_get (edges_params conn since limit rising kind wait) ''connectionId'' = conn"
  "query_get (edges_params conn since limit rising kind wait) ''kind'' = kind"
  "query_get (edges_params conn since limit rising kind wait) ''rising'' = (if rising then ''true'' else [])"
  by (simp_all add: query_get_def edges_params_def on_connection_def)

lemma edges_query_params:
  assumes "since < 2 ^ 64"
  shows "wa_seq (edges_query (query_get (edges_params conn since 20 rising kind wait))) = since"
    and "wa_limit (edges_query (query_get (edges_params conn since 20 rising kind wait))) = 20"
    and "wa_match (edges_query (query_get (edges_params conn since 20 rising kind wait))) = edgeMatch conn kind rising"
proof -
  have "parseUint (if since > 0 then nat_string since else []) = since"
    using assms by (simp add: parseUint_def) (simp add: parse_nat_def)
  moreover have "parseInt_or (int_string 20) 100 = 20" by (simp add: parseInt_or_def ParseInt_int_string)
  ultimately show "wa_seq (edges_query (query_get (edges_params conn since 20 rising kind wait))) = since"
    "wa_limit (edges_query (query_get (edges_params conn since 20 rising kind wait))) = 20"
    "wa_match (edges_query (query_get (edges_params conn since 20 rising kind wait))) = edgeMatch conn kind rising"
    by (simp_all add: edges_query_def Let_def edges_lookup)
qed

lemma edges_grow:
  assumes "client_Edges plc_world rd budget conn since limit rising kind wait (c, w) = (Inr page, c', w')"
  shows "grows w w'"
proof -
  obtain w0 b where "grows w w0" "plc_world (get_call budget (pluginPath @ ''/edges'') (edges_params conn since limit rising kind wait)) w0 =
      (Some (200, b), w')"
    using plugin_get_plc [OF assms [unfolded client_Edges_def]] by blast
  then show ?thesis
    using grows_trans plc_world_grows [of "get_call budget (pluginPath @ ''/edges'') (edges_params conn since limit rising kind wait)" w0]
    by simp
qed

lemma wait_edges:
  assumes "client_Edges plc_world plc_reader budget conn since 20 rising kind wait (c, w) = (Inr page, c', w')" "since < 2 ^ 64"
  shows "eg_seq page = jn_seq (pw_journal w') \<and>
    (eg_edges page = fst (Since since 20 (edgeMatch conn kind rising) (pw_journal w')) \<or>
     eg_edges page = [] \<and>
       (\<exists>new late. pw_journal w' = fold Append late (fold Append new (pw_journal w)) \<and>
          fst (Since since 20 (edgeMatch conn kind rising) (fold Append new (pw_journal w))) = []))"
proof -
  let ?q = "get_call budget (pluginPath @ ''/edges'') (edges_params conn since 20 rising kind wait)"
  let ?g = "query_get (hc_query ?q)" let ?a = "edges_query ?g"
  obtain w0 b where w0: "grows w w0" and call: "plc_world ?q w0 = (Some (200, b), w')"
    and b: "rd_edges (plc_reader :: (PlcReply, PlcWorld) Reader) b = Some page"
    using plugin_get_plc [OF assms(1) [unfolded client_Edges_def]] by blast
  let ?w = "pass_gap w0"
  obtain r j rest where run: "run_wait ?a (pw_coming ?w) (pw_journal ?w, handleEdges ?g (pw_plugin ?w)) = (r, j, rest)"
    by (metis prod.collapse)
  have "r \<noteq> None \<and> b = EdgesReply (the r) \<and> pw_journal w' = j"
    using call run by (auto simp: plc_world_def Let_def pluginPath_def)
  then obtain x where x: "r = Some x" "b = EdgesReply x" "pw_journal w' = j" by auto
  then have page: "(eg_edges page, eg_seq page) = x" using b by (cases x) (auto simp: plc_reader_def)
  have a: "wa_since ?a k = Since since 20 (edgeMatch conn kind rising) k" for k
    using edges_query_params [OF assms(2)] by (simp add: wa_since_def)
  have "snd x = jn_seq j \<and> (x = wa_since ?a j \<or> fst x = [] \<and> looked ?a (pw_journal ?w) j)"
    using edges_sound [OF run [unfolded pw_journal_def]] x(1) unfolding pw_journal_def by blast
  moreover obtain g where "pw_journal ?w = fold Append g (pw_journal w)"
    using grows_trans [OF w0 pass_gap_grows] by blast
  then have "\<exists>new late. j = fold Append late (fold Append new (pw_journal w)) \<and> fst (wa_since ?a (fold Append new (pw_journal w))) = []"
    if "looked ?a (pw_journal ?w) j"
    using that unfolding looked_def by (metis fold_append comp_apply)
  ultimately show ?thesis using page unfolding x(3) a by (metis fst_conv snd_conv)
qed

lemma status_seq:
  assumes "client_Status plc_world plc_reader budget (c, w) = (Inr s, c', w')"
  shows "grows w w' \<and> st_seq s = jn_seq (pw_journal w')"
proof -
  let ?q = "get_call budget (pluginPath @ ''/status'') []"
  obtain w0 b where grown: "grows w w0" and call: "plc_world ?q w0 = (Some (200, b), w')" and b: "rd_status (plc_reader :: (PlcReply, PlcWorld) Reader) b = Some s"
    using plugin_get_plc [OF assms [unfolded client_Status_def]] by blast
  have "grows w0 w'" using plc_world_grows [of ?q w0] call by simp
  moreover have "b = StatusReply (handleStatus (pw_plugin w') (pw_settings w'))"
    using call by (auto simp: plc_world_def Let_def pluginPath_def)
  ultimately show ?thesis
    using grown b grows_trans by (auto simp: plc_reader_def handleStatus_def pw_journal_def Let_def)
qed

definition wanted_since :: "string \<Rightarrow> waitInput \<Rightarrow> nat \<Rightarrow> Edge \<Rightarrow> bool" where
  "wanted_since conn i since e \<longleftrightarrow> since < ed_seq e \<and> matches (edgeMatch conn (wi_kind i) (wi_risingOnly i)) e"


definition ex_bridge :: McpClient where
  "ex_bridge = \<lparr>mc_email = ''agent'', mc_password = ''pw'', mc_loggedIn = True\<rparr>"

text \<open>The waiter falls asleep, two edges come, and it wakes up.\<close>

definition ex_coming :: "wait_event list" where
  "ex_coming = [Turn, Turn, Turn, Came (ex_edge ''b'' False), Came (ex_edge ''a'' True), Turn, Turn, Turn]"

definition ex_plc_world :: PlcWorld where
  "ex_plc_world = \<lparr>pw_plugin = \<lparr>pc_registry = NewRegistry 5, pc_prefix = ''plc'', pc_meterPrefix = [], pc_commandTopic = ''plc/command'',
       pc_dirty = False\<rparr>, pw_settings = Map.empty, pw_gaps = [], pw_coming = ex_coming\<rparr>"

definition ex_wait_input :: waitInput where
  "ex_wait_input = \<lparr>wi_timeoutSeconds = 0, wi_risingOnly = True, wi_kind = [], wi_since = 0\<rparr>"

lemma ex_edges_query:
  "edges_query (query_get (edges_params [] 0 20 True [] 30000000000)) =
     \<lparr>wa_seq = 0, wa_limit = 20, wa_timeout = 30000000000, wa_match = edgeMatch [] [] True\<rparr>"
proof -
  have "query_get (edges_params [] 0 20 True [] 30000000000) ''waitMs'' = int_string 30000"
    by (simp add: query_get_def edges_params_def on_connection_def)
  then show ?thesis
    by (simp add: edges_query_def Let_def edges_lookup parseInt_or_def ParseInt_int_string parseUint_def parse_nat_def maxEdgeWait_def)
qed

lemma ex_status_call:
  "\<exists>s. client_Status plc_world plc_reader budget (ex_bridge, ex_plc_world) = (Inr s, ex_bridge, ex_plc_world) \<and> st_seq s = 0"
  by (simp add: client_Status_def plugin_get_def fetch_def mcp_bind_def ensure_login_def doGet_def mcp_call_def mcp_return_def
      plc_world_def pass_gap_def plc_reader_def handleStatus_def Let_def pluginPath_def ex_bridge_def ex_plc_world_def
      NewRegistry_def NewJournal_def)

lemma ex_edges_call:
  "\<exists>p w'. client_Edges plc_world plc_reader budget [] 0 20 True [] 30000000000 (ex_bridge, ex_plc_world) = (Inr p, ex_bridge, w') \<and>
     eg_seq p = 2 \<and> map ed_name (eg_edges p) = [''a''] \<and> jn_seq (pw_journal w') = 2"
  by (simp add: client_Edges_def plugin_get_def fetch_def mcp_bind_def ensure_login_def doGet_def mcp_call_def mcp_return_def
      plc_world_def pass_gap_def plc_reader_def ex_edges_query Let_def pluginPath_def ex_bridge_def ex_plc_world_def
      NewRegistry_def NewJournal_def pw_journal_def put_journal_def Append_def wa_since_def Since_def edgeMatch_def Rising_def ex_edge_def
      handleEdges_def ex_coming_def)


theorem expiry_goes_unnoticed_witness:
  "fst (run_tool (with_session NoReply plc_world) plc_reader (\<lambda>_. []) (\<lambda>_. 0) [] (Lights False) (ex_bridge, False, ex_plc_world)) =
    fst (run_tool (with_session NoReply plc_world) plc_reader (\<lambda>_. []) (\<lambda>_. 0) [] (Lights False) (ex_bridge, True, ex_plc_world))"
proof -
  have "ex_bridge\<lparr>mc_loggedIn := True\<rparr> = ex_bridge" by (simp add: ex_bridge_def)
  with expiry_goes_unnoticed [where web = plc_world and t = "Lights False" and c = ex_bridge and v = False and w = ex_plc_world and
      b = NoReply and conn = "[]" and two_decimals = "\<lambda>_. []" and hours = "\<lambda>_. 0"] plc_world_answers
  show ?thesis by simp
qed

section \<open>What an agent misses\<close>

text \<open>
  A wait that is woken by nothing and ends at its time limit answers with the end of the log as it is then. An edge that
  came in that moment is before that end: it is not in the answer, and not in that of the next wait either.
\<close>

lemma expired_wait_skips_edge:
  "\<exists>j e. waits ex_wait (NewJournal 5) j (WReturned ([], 1)) \<and> e \<in> set (jn_entries j) \<and> ed_seq e = 1 \<and> matches (wa_match ex_wait) e \<and>
     fst (Since 1 20 (wa_match ex_wait) j) = []"
proof -
  let ?j = "NewJournal 5" let ?k = "Append (ex_edge ''a'' True) ?j"
  have "waits ex_wait ?j ?j WLoop"
    by (rule moves [OF begins]) (simp add: wa_since_def Since_def NewJournal_def ex_wait_def Let_def)
  then have "waits ex_wait ?j ?j (WCheck 0)" by (rule moves) (simp add: NewJournal_def)
  then have "waits ex_wait ?j ?j (WSleep 0)"
    by (rule moves) (simp add: wa_since_def Since_def NewJournal_def Let_def)
  then have "waits ex_wait ?j ?k (WSleep 0)" by (rule appends)
  then have "waits ex_wait ?j ?k (WReturned ([], 1))" by (rule expires) (simp add: NewJournal_def)
  moreover have "jn_entries ?k = [(ex_edge ''a'' True)\<lparr>ed_seq := 1\<rparr>]" by (simp add: Append_def NewJournal_def Let_def)
  ultimately show ?thesis
    by (intro exI [of _ ?k] exI [of _ "(ex_edge ''a'' True)\<lparr>ed_seq := 1\<rparr>"])
       (simp add: matches_def ex_wait_def Rising_def ex_edge_def Since_def Let_def)
qed

text \<open>
  Numbers start over when the server does. A reader that goes on from a number of before is told nothing of what has
  happened since, until as many edges have come again.
\<close>

lemma restarted_log_is_silent:
  "length es \<le> since \<Longrightarrow> fst (Since since limit match (fold Append es (NewJournal n))) = []"
proof -
  let ?j = "fold Append es (NewJournal n)"
  assume since: "length es \<le> since"
  have st: "jn_entries ?j = last_n (jn_size ?j) (numbered 0 es)" using Appends_state [of es n] by (simp add: Let_def)
  have le: "ed_seq e \<le> since" "0 < ed_seq e" if "e \<in> set (jn_entries ?j)" for e
    using subsetD [OF set_last_n that [unfolded st]] numbered_seq [of e 0 es] since by auto
  then have "\<forall>e \<in> set (jn_entries ?j). 0 < ed_seq e" by blast
  from Since_alt [OF this, of since limit match] le show ?thesis
    by (auto simp: filter_empty_conv not_less)
qed

section \<open>Collected messages\<close>

text \<open>A history entry as the server writes it, and the struct the bridge reads it into. Times as text are parameters.\<close>

definition history_json :: "(time \<Rightarrow> string) \<Rightarrow> historyEntry \<Rightarrow> Json" where
  "history_json show_time e = JObj
     ([(''seq'', JNum (nat_string (hy_seq e))), (''receivedAt'', JStr (show_time (hy_receivedAt e))), (''payload'', JStr (hy_payload e))] @
      omit_empty (\<not> hy_base64 e) ''base64'' (JBool True) @
      [(''size'', JNum (int_string (int (hy_size e)))), (''qos'', JNum (nat_string (hy_qos e))), (''retain'', JBool (hy_retain e))] @
      omit_empty (\<not> hy_truncated e) ''truncated'' (JBool True))"

definition collected_fields :: "(string \<Rightarrow> time option) \<Rightarrow> CollectedMessage field list" where
  "collected_fields read_time =
     [(''receivedAt'', \<lambda>j c. case j of JNull \<Rightarrow> Some c | JStr s \<Rightarrow> map_option (\<lambda>t. c\<lparr>com_receivedAt := t\<rparr>) (read_time s) | _ \<Rightarrow> None),
      (''topic'', set_string (\<lambda>x c. c\<lparr>com_topic := x\<rparr>)),
      (''payload'', set_string (\<lambda>x c. c\<lparr>com_payload := x\<rparr>)),
      (''base64'', set_bool (\<lambda>b c. c\<lparr>com_base64 := b\<rparr>)),
      (''size'', set_int (\<lambda>i c. c\<lparr>com_size := i\<rparr>)),
      (''qos'', set_uint 256 (\<lambda>n c. c\<lparr>com_qos := n\<rparr>)),
      (''retain'', set_bool (\<lambda>b c. c\<lparr>com_retain := b\<rparr>))]"

definition zero_collected :: CollectedMessage where
  "zero_collected = \<lparr>com_receivedAt = 0, com_topic = [], com_payload = [], com_base64 = False, com_size = 0, com_qos = 0, com_retain = False\<rparr>"

text \<open>
  The tool says a message comes with its topic. The server's entries have no such member, so what an agent reads has
  everything of a message but its topic, which is empty.
\<close>

lemma collected_without_topic:
  assumes "\<And>t. read_time (show_time t) = Some t" "msg_qos m < 256" "length (msg_payload m) < 2 ^ 63"
  shows "\<exists>c. unmarshal_struct (collected_fields read_time) (history_json show_time (toHistoryEntry m)) zero_collected = Some c \<and>
    com_topic c = [] \<and> com_payload c = hy_payload (toHistoryEntry m) \<and> com_receivedAt c = msg_receivedAt m \<and>
    com_size c = int (length (msg_payload m)) \<and> com_qos c = msg_qos m \<and> com_retain c = msg_retain m"
proof -
  have e: "hy_receivedAt (toHistoryEntry m) = msg_receivedAt m" "hy_size (toHistoryEntry m) = length (msg_payload m)"
    "hy_qos (toHistoryEntry m) = msg_qos m" "hy_retain (toHistoryEntry m) = msg_retain m"
    by (simp_all add: toHistoryEntry_def Let_def)
  have n: "ParseInt (int_string (int (length (msg_payload m)))) = Some (int (length (msg_payload m)))"
    using assms(3) by (intro ParseInt_int_string) simp_all
  have names: "find_field (collected_fields read_time) ''seq'' = None" "find_field (collected_fields read_time) ''truncated'' = None"
    by (simp_all add: find_field_def collected_fields_def to_lower_def lower_char_def)
  have known: "map_of (collected_fields read_time) k = Some f \<Longrightarrow> find_field (collected_fields read_time) k = Some f" for k f
    by (simp add: find_field_def)
  note fields = known [of "''receivedAt''"] known [of "''payload''"] known [of "''base64''"] known [of "''size''"] known [of "''qos''"]
    known [of "''retain''"]
  show ?thesis
    using assms(1,2) n
    by (cases "hy_base64 (toHistoryEntry m)"; cases "hy_truncated (toHistoryEntry m)";
        simp add: unmarshal_struct_def history_json_def omit_empty_def names e zero_collected_def
          fields [unfolded collected_fields_def map_of.simps, simplified, folded collected_fields_def]
          set_string_def set_bool_def set_int_def set_uint_def)
qed

end
