(* ===== verification/ClientV5.thy ===== *)
theory ClientV5
  imports Conn
begin

text \<open>
  \<^verbatim>\<open>internal/mqttc/client.go\<close>, \<^verbatim>\<open>client_v3.go\<close>, \<^verbatim>\<open>client_v5.go\<close> and \<^verbatim>\<open>websocket_v5.go\<close>: what the two clients do beside
  the libraries they drive. The libraries (\<^verbatim>\<open>paho\<close>, \<^verbatim>\<open>autopaho\<close>), the network and certificates are
  parameters or the outcomes a call meets; what is handed to the library and what comes back from it are records.
\<close>

section \<open>TLS\<close>

record TLSSettings =
  tg_insecureSkipVerify :: bool
  tg_serverName :: string
  tg_minVersion :: nat
  tg_nextProtos :: "string list"
  tg_roots :: "string option"
  tg_certificate :: "(string \<times> string) option"

datatype tls_error = NoUsableCertificate | BadKeyPair

text \<open>Whether a PEM text has a certificate, and whether two make a key pair, are \<^verbatim>\<open>crypto/x509\<close>'s and \<^verbatim>\<open>crypto/tls\<close>'s.\<close>

definition buildTLSConfig ::
    "(string \<Rightarrow> Url option) \<Rightarrow> (string \<Rightarrow> bool) \<Rightarrow> (string \<Rightarrow> string \<Rightarrow> bool) \<Rightarrow> ConnectionSpec \<Rightarrow> tls_error + TLSSettings option" where
  "buildTLSConfig parse usable pair spec =
     (if \<not> UsesTLS parse spec then Inr None
      else
        let t = cs_tls spec in
        if tls_caPEM t \<noteq> [] \<and> \<not> usable (tls_caPEM t) then Inl NoUsableCertificate
        else if tls_clientCertPEM t \<noteq> [] \<and> \<not> pair (tls_clientCertPEM t) (tls_clientKeyPEM t) then Inl BadKeyPair
        else Inr (Some
          \<lparr>tg_insecureSkipVerify = tls_insecureSkipVerify t, tg_serverName = tls_serverName t,
           tg_minVersion = (if tls_minVersion t = ''1.3'' then 0x0304 else 0x0303), tg_nextProtos = tls_alpn t,
           tg_roots = (if tls_caPEM t \<noteq> [] then Some (tls_caPEM t) else None),
           tg_certificate = (if tls_clientCertPEM t \<noteq> [] then Some (tls_clientCertPEM t, tls_clientKeyPEM t) else None)\<rparr>))"

text \<open>How a broker is dialled: over a WebSocket, with TLS, over the local socket a URL's path names or in the clear.\<close>

datatype dial = DialWebSocket Url "TLSSettings option" | DialTLS string "TLSSettings option" | DialUnix Url | DialTCP string

definition tlsDial :: "TLSSettings option \<Rightarrow> Url \<Rightarrow> dial" where
  "tlsDial cfg u =
     (if u_scheme u \<in> {''ws'', ''wss''} then DialWebSocket u cfg
      else if u_scheme u \<in> {''ssl'', ''tls'', ''mqtts'', ''mqtt+ssl'', ''tcps''} then DialTLS (u_host u) cfg
      else if u_scheme u = ''unix'' then DialUnix u
      else DialTCP (u_host u))"

text \<open>The frames a sequence of writes becomes.\<close>

fun noEmptyFrames :: "bytes list \<Rightarrow> bytes list" where
  "noEmptyFrames [] = []"
| "noEmptyFrames (p # ps) = (if p = [] then noEmptyFrames ps else p # noEmptyFrames ps)"

section \<open>What is handed to the library\<close>

record PahoWill =
  pw_topic :: string
  pw_payload :: bytes
  pw_qos :: nat
  pw_retain :: bool
  pw_delay :: "nat option"

record V5Config =
  vc_url :: Url
  vc_tls :: "TLSSettings option"
  vc_keepAlive :: "16 word"
  vc_cleanStart :: bool
  vc_sessionExpiry :: nat
  vc_connectTimeout :: int
  vc_clientID :: string
  vc_username :: string
  vc_password :: string
  vc_will :: "PahoWill option"

record PahoProps =
  pp_contentType :: string
  pp_responseTopic :: string
  pp_correlationData :: bytes
  pp_payloadFormat :: "nat option"
  pp_messageExpiry :: "nat option"
  pp_user :: "(string \<times> string) list"

record PahoPublish =
  pb_topic :: string
  pb_payload :: bytes
  pb_qos :: nat
  pb_retain :: bool
  pb_props :: "PahoProps option"

definition v5_will :: "Will \<Rightarrow> PahoWill" where
  "v5_will w =
     \<lparr>pw_topic = will_topic w, pw_payload = bytes_of_string (will_payload w), pw_qos = will_qos w, pw_retain = will_retain w,
      pw_delay = (if will_delayInterval w > 0 then Some (will_delayInterval w) else None)\<rparr>"

definition v5_config :: "TLSSettings option \<Rightarrow> Url \<Rightarrow> ConnectionSpec \<Rightarrow> V5Config" where
  "v5_config tls u spec =
     \<lparr>vc_url = u, vc_tls = tls, vc_keepAlive = word_of_int (cs_keepAlive spec), vc_cleanStart = cs_cleanStart spec,
      vc_sessionExpiry = cs_sessionExpiry spec, vc_connectTimeout = cs_connectTimeout spec * 10 ^ 9,
      vc_clientID = cs_clientID spec, vc_username = cs_username spec, vc_password = cs_password spec,
      vc_will = map_option v5_will (cs_will spec)\<rparr>"

section \<open>The client\<close>

text \<open>Whether there is a connection manager, the last failure it reported, and whether it reported one.\<close>

record V5Client =
  v5_spec :: ConnectionSpec
  v5_cfg :: V5Config
  v5_subs :: "string \<rightharpoonup> Subscription"
  v5_cm :: bool
  v5_connErr :: "GoError option"
  v5_failed :: bool

definition newV5Client :: "(string \<Rightarrow> Url option) \<Rightarrow> ConnectionSpec \<Rightarrow> TLSSettings option \<Rightarrow> V5Client option" where
  "newV5Client parse spec tls =
     (case parse (cs_url spec) of
        None \<Rightarrow> None
      | Some u \<Rightarrow> Some \<lparr>v5_spec = spec, v5_cfg = v5_config tls u spec,
          v5_subs = fold (\<lambda>s m. m(sub_filter s \<mapsto> s)) (cs_subscriptions spec) Map.empty, v5_cm = False, v5_connErr = None,
          v5_failed = False\<rparr>)"

section \<open>The client for MQTT 3\<close>

record V3Options =
  vo_broker :: string
  vo_clientID :: string
  vo_protocol :: nat
  vo_username :: string
  vo_password :: string
  vo_keepAlive :: int
  vo_cleanSession :: bool
  vo_connectTimeout :: int
  vo_autoReconnect :: bool
  vo_connectRetry :: bool
  vo_maxReconnect :: int
  vo_orderMatters :: bool
  vo_tls :: "TLSSettings option"
  vo_will :: "PahoWill option"

record V3Client =
  v3_spec :: ConnectionSpec
  v3_opts :: V3Options
  v3_subs :: "string \<rightharpoonup> Subscription"
  v3_closed :: bool

text \<open>The will of MQTT 3 has no delay.\<close>

definition v3_options :: "TLSSettings option \<Rightarrow> ConnectionSpec \<Rightarrow> V3Options" where
  "v3_options tls spec =
     \<lparr>vo_broker = cs_url spec, vo_clientID = cs_clientID spec, vo_protocol = nat (cs_version spec),
      vo_username = cs_username spec, vo_password = cs_password spec, vo_keepAlive = cs_keepAlive spec * 10 ^ 9,
      vo_cleanSession = cs_cleanStart spec, vo_connectTimeout = cs_connectTimeout spec * 10 ^ 9, vo_autoReconnect = True,
      vo_connectRetry = False, vo_maxReconnect = 60 * 10 ^ 9, vo_orderMatters = False, vo_tls = tls,
      vo_will = map_option (\<lambda>w. (v5_will w)\<lparr>pw_delay := None\<rparr>) (cs_will spec)\<rparr>"

definition newV3Client :: "ConnectionSpec \<Rightarrow> TLSSettings option \<Rightarrow> V3Client" where
  "newV3Client spec tls =
     \<lparr>v3_spec = spec, v3_opts = v3_options tls spec,
      v3_subs = fold (\<lambda>s m. m(sub_filter s \<mapsto> s)) (cs_subscriptions spec) Map.empty, v3_closed = False\<rparr>"

datatype client_kind = KindV3 V3Client | KindV5 V5Client

datatype client_error = UnsupportedVersion Version | ClientTLS tls_error | ClientURL

definition mqtt_NewClient ::
    "(string \<Rightarrow> Url option) \<Rightarrow> (string \<Rightarrow> bool) \<Rightarrow> (string \<Rightarrow> string \<Rightarrow> bool) \<Rightarrow> ConnectionSpec \<Rightarrow> client_error + client_kind" where
  "mqtt_NewClient parse usable pair spec =
     (if \<not> Version_Valid (cs_version spec) then Inl (UnsupportedVersion (cs_version spec))
      else case buildTLSConfig parse usable pair spec of
        Inl e \<Rightarrow> Inl (ClientTLS e)
      | Inr tls \<Rightarrow>
          if cs_version spec = V5
          then (case newV5Client parse spec tls of None \<Rightarrow> Inl ClientURL | Some c \<Rightarrow> Inr (KindV5 c))
          else Inr (KindV3 (newV3Client spec tls)))"

definition setConnErr :: "GoError option \<Rightarrow> V5Client \<Rightarrow> V5Client" where
  "setConnErr err c = c\<lparr>v5_connErr := err, v5_failed := v5_failed c \<or> err \<noteq> None\<rparr>"

datatype client_event = EvMessage Message | EvUp bool | EvDown "GoError option" | EvError GoError

text \<open>What the library calls back with, and what the client tells its connection.\<close>

datatype library_event =
    ConnectionUp bool | ConnectionDown | ConnectFailed GoError | PublishReceived PahoPublish | ClientFailed GoError
  | ServerDisconnect nat

text \<open>The map of user properties keeps the last value of a key.\<close>

definition convert_props :: "PahoProps \<Rightarrow> MessageProps" where
  "convert_props p =
     \<lparr>mp_contentType = pp_contentType p, mp_responseTopic = pp_responseTopic p, mp_correlationData = pp_correlationData p,
      mp_payloadFormat = pp_payloadFormat p, mp_messageExpiry = pp_messageExpiry p,
      mp_user = fold (\<lambda>(k, v) m. m(k \<mapsto> v)) (pp_user p) Map.empty\<rparr>"

definition convertV5 :: "time \<Rightarrow> string \<Rightarrow> PahoPublish \<Rightarrow> Message" where
  "convertV5 now connID p =
     \<lparr>msg_connectionID = connID, msg_topic = pb_topic p, msg_payload = pb_payload p, msg_qos = pb_qos p, msg_retain = pb_retain p,
      msg_duplicate = False, msg_receivedAt = now, msg_seq = 0, msg_truncated = False,
      msg_props = map_option convert_props (pb_props p)\<rparr>"

fun on_library_event ::
    "(string \<Rightarrow> Url option) \<Rightarrow> (string \<Rightarrow> string) \<Rightarrow> time \<Rightarrow> library_event \<Rightarrow> V5Client \<Rightarrow> client_event list \<times> V5Client" where
  "on_library_event parse quote now (ConnectionUp present) c = ([EvUp present], setConnErr None c)"
| "on_library_event parse quote now ConnectionDown c = ([EvDown None], c)"
| "on_library_event parse quote now (ConnectFailed e) c =
     ((case explainConnectError parse quote (v5_spec c) (Some e) of Some x \<Rightarrow> [EvError x] | None \<Rightarrow> []), setConnErr (Some e) c)"
| "on_library_event parse quote now (PublishReceived p) c = ([EvMessage (convertV5 now (cs_id (v5_spec c)) p)], c)"
| "on_library_event parse quote now (ClientFailed e) c = ([EvError e], c)"
| "on_library_event parse quote now (ServerDisconnect code) c =
     ([EvDown (Some (plain_error (''server sent DISCONNECT (reason code '' @ nat_string code @ '')'')))], c)"

text \<open>
  What a connect meets: the manager cannot be made, the wait for it ends, or its first failure comes first, after the
  library has called back with \<open>evs\<close>. The reason the library had is preferred to that the caller stopped waiting.
\<close>

datatype connect_outcome = CannotStart GoError | Awaited "GoError option" | FailedFirst

definition v5_connect_result :: "connect_outcome \<Rightarrow> GoError option \<Rightarrow> GoError option" where
  "v5_connect_result out reason =
     (case out of
        CannotStart e \<Rightarrow> Some e
      | Awaited None \<Rightarrow> None
      | Awaited (Some e) \<Rightarrow> Some (case reason of Some l \<Rightarrow> l | None \<Rightarrow> e)
      | FailedFirst \<Rightarrow> Some (case reason of Some l \<Rightarrow> l | None \<Rightarrow> plain_error ''mqttc: connection attempt failed''))"

definition v5_Connect ::
    "(string \<Rightarrow> Url option) \<Rightarrow> (string \<Rightarrow> string) \<Rightarrow> time \<Rightarrow> connect_outcome \<Rightarrow> library_event list \<Rightarrow> V5Client \<Rightarrow>
     GoError option \<times> V5Client" where
  "v5_Connect parse quote now out evs c =
     (let called = fold (\<lambda>ev c. snd (on_library_event parse quote now ev c)) evs in
      if v5_cm c then ((case out of Awaited r \<Rightarrow> r | _ \<Rightarrow> None), called c)
      else case out of
        CannotStart e \<Rightarrow> (Some e, c)
      | _ \<Rightarrow> let c = called (c\<lparr>v5_cm := True\<rparr>) in (v5_connect_result out (v5_connErr c), c))"

text \<open>The last component is what is asked of the library, if anything is.\<close>

definition v5_Subscribe ::
    "GoError option \<Rightarrow> Subscription list \<Rightarrow> V5Client \<Rightarrow> GoError option \<times> V5Client \<times> Subscription list option" where
  "v5_Subscribe err subs c =
     (if subs = [] then (None, c, None)
      else
        let c = c\<lparr>v5_subs := fold (\<lambda>s m. m(sub_filter s \<mapsto> s)) subs (v5_subs c)\<rparr>
        in if \<not> v5_cm c then (None, c, None) else (err, c, Some subs))"

definition v5_Unsubscribe ::
    "GoError option \<Rightarrow> string list \<Rightarrow> V5Client \<Rightarrow> GoError option \<times> V5Client \<times> string list option" where
  "v5_Unsubscribe err filters c =
     (if filters = [] then (None, c, None)
      else
        let c = c\<lparr>v5_subs := fold (\<lambda>f m. m(f := None)) filters (v5_subs c)\<rparr>
        in if \<not> v5_cm c then (None, c, None) else (err, c, Some filters))"

text \<open>The user properties in the order in which the loop comes upon them.\<close>

definition publish_props :: "(string \<times> string) list \<Rightarrow> MessageProps \<Rightarrow> PahoProps" where
  "publish_props user p =
     \<lparr>pp_contentType = mp_contentType p, pp_responseTopic = mp_responseTopic p, pp_correlationData = mp_correlationData p,
      pp_payloadFormat = mp_payloadFormat p, pp_messageExpiry = mp_messageExpiry p, pp_user = user\<rparr>"

definition publish_packet :: "(string \<times> string) list \<Rightarrow> PublishRequest \<Rightarrow> PahoPublish" where
  "publish_packet user r =
     \<lparr>pb_topic = pub_topic r, pb_payload = pub_payload r, pb_qos = pub_qos r, pb_retain = pub_retain r,
      pb_props = map_option (publish_props user) (pub_props r)\<rparr>"

definition v5_Publish ::
    "GoError option \<Rightarrow> (string \<times> string) list \<Rightarrow> PublishRequest \<Rightarrow> V5Client \<Rightarrow> GoError option \<times> PahoPublish option" where
  "v5_Publish err user r c =
     (if \<not> v5_cm c then (Some (plain_error ''mqttc: not connected''), None) else (err, Some (publish_packet user r)))"

text \<open>\<open>late\<close> is the error of a caller that stopped waiting for the manager to finish.\<close>

definition v5_Disconnect :: "GoError option \<Rightarrow> GoError option \<Rightarrow> V5Client \<Rightarrow> GoError list \<times> V5Client" where
  "v5_Disconnect err late c =
     (if \<not> v5_cm c then ([], c)
      else ((case err of None \<Rightarrow> [] | Some e \<Rightarrow> [e]) @ (case late of None \<Rightarrow> [] | Some e \<Rightarrow> [e]), c\<lparr>v5_cm := False\<rparr>))"

section \<open>The operations for MQTT 3\<close>

text \<open>A publish as the library hands it over: topic, payload, quality of service, retained, duplicate.\<close>

definition v3_received :: "time \<Rightarrow> string \<Rightarrow> string \<times> bytes \<times> nat \<times> bool \<times> bool \<Rightarrow> Message" where
  "v3_received now connID m =
     (case m of (topic, payload, qos, retained, duplicate) \<Rightarrow>
        \<lparr>msg_connectionID = connID, msg_topic = topic, msg_payload = payload, msg_qos = qos, msg_retain = retained,
         msg_duplicate = duplicate, msg_receivedAt = now, msg_seq = 0, msg_truncated = False, msg_props = None\<rparr>)"

text \<open>What waiting for a token meets: the library's answer, or the end of the caller's patience.\<close>

datatype token_outcome = TokenDone "GoError option" | CallerGone GoError

definition waitToken :: "token_outcome \<Rightarrow> GoError option" where
  "waitToken out = (case out of TokenDone e \<Rightarrow> e | CallerGone e \<Rightarrow> Some e)"

text \<open>\<open>present\<close> is whether the broker says it had a session.\<close>

definition v3_Connect :: "token_outcome \<Rightarrow> bool \<Rightarrow> GoError option \<times> client_event list" where
  "v3_Connect out present = (case waitToken out of Some e \<Rightarrow> (Some e, []) | None \<Rightarrow> (None, [EvUp present]))"

definition v3_Subscribe ::
    "bool \<Rightarrow> token_outcome \<Rightarrow> Subscription list \<Rightarrow> V3Client \<Rightarrow> GoError option \<times> V3Client \<times> (string \<rightharpoonup> nat) option" where
  "v3_Subscribe connected out subs c =
     (if subs = [] then (None, c, None)
      else
        let filters = fold (\<lambda>s m. m(sub_filter s \<mapsto> sub_qos s)) subs Map.empty;
            c = c\<lparr>v3_subs := fold (\<lambda>s m. m(sub_filter s \<mapsto> s)) subs (v3_subs c)\<rparr>
        in if \<not> connected then (None, c, None) else (waitToken out, c, Some filters))"

definition v3_Unsubscribe ::
    "bool \<Rightarrow> token_outcome \<Rightarrow> string list \<Rightarrow> V3Client \<Rightarrow> GoError option \<times> V3Client \<times> string list option" where
  "v3_Unsubscribe connected out filters c =
     (if filters = [] then (None, c, None)
      else
        let c = c\<lparr>v3_subs := fold (\<lambda>f m. m(f := None)) filters (v3_subs c)\<rparr>
        in if \<not> connected then (None, c, None) else (waitToken out, c, Some filters))"

text \<open>The properties of the request are dropped.\<close>

definition v3_Publish :: "token_outcome \<Rightarrow> PublishRequest \<Rightarrow> GoError option \<times> (string \<times> nat \<times> bool \<times> bytes)" where
  "v3_Publish out r = (waitToken out, (pub_topic r, pub_qos r, pub_retain r, pub_payload r))"

text \<open>The second component says whether the library is asked to disconnect.\<close>

definition v3_Disconnect :: "V3Client \<Rightarrow> V3Client \<times> bool" where
  "v3_Disconnect c = (if v3_closed c then (c, False) else (c\<lparr>v3_closed := True\<rparr>, True))"

text \<open>All subscriptions asked for again, with the quality of service each has.\<close>

definition v3_resubscribe :: "token_outcome option \<Rightarrow> V3Client \<Rightarrow> GoError option \<times> (string \<rightharpoonup> nat) option" where
  "v3_resubscribe out c =
     (let filters = map_option sub_qos \<circ> v3_subs c in
      if v3_subs c = Map.empty then (None, None)
      else ((case out of None \<Rightarrow> Some (plain_error ''mqttc: timed out restoring subscriptions'') | Some t \<Rightarrow> waitToken t),
            Some filters))"

section \<open>Subscribing again\<close>

text \<open>
  After a connection comes up: up to five attempts, with waits that double. Of an attempt it is given what the
  library answered and whether the client is gone before the wait is over. The result is the errors told and the
  waits made, and whether the subscriptions got through.
\<close>

record attempt =
  at_error :: "GoError option"
  at_gone :: bool

definition client_backoff :: "int \<Rightarrow> int" where
  "client_backoff b = (if b < 30 * 10 ^ 9 then b * 2 else b)"

function resubscribe_loop :: "nat \<Rightarrow> int \<Rightarrow> (nat \<Rightarrow> attempt) \<Rightarrow> (nat \<times> GoError) list \<times> int list \<times> bool" where
  "resubscribe_loop n backoff ats =
     (if n > 5 then ([], [], False)
      else case at_error (ats n) of
        None \<Rightarrow> ([], [], True)
      | Some e \<Rightarrow>
          if at_gone (ats n) then ([(n, e)], [], False)
          else case resubscribe_loop (n + 1) (client_backoff backoff) ats of
            (errs, waits, ok) \<Rightarrow> ((n, e) # errs, backoff # waits, ok))"
  by pat_completeness auto
termination by (relation "measure (\<lambda>(n, _, _). 6 - n)") auto

declare resubscribe_loop.simps [simp del]

definition resubscribe :: "(nat \<Rightarrow> attempt) \<Rightarrow> (nat \<times> GoError) list \<times> int list \<times> bool" where
  "resubscribe ats = resubscribe_loop 1 (10 ^ 9) ats"

text \<open>The MQTT 3 client waits first: its first attempt was made on the connection's own goroutine.\<close>

function retry_loop :: "nat \<Rightarrow> int \<Rightarrow> (nat \<Rightarrow> attempt) \<Rightarrow> (nat \<times> GoError) list \<times> int list \<times> bool" where
  "retry_loop n backoff ats =
     (if n > 5 then ([], [], False)
      else if at_gone (ats n) then ([], [backoff], False)
      else case at_error (ats n) of
        None \<Rightarrow> ([], [backoff], True)
      | Some e \<Rightarrow>
          (case retry_loop (n + 1) (client_backoff backoff) ats of (errs, waits, ok) \<Rightarrow> ((n, e) # errs, backoff # waits, ok)))"
  by pat_completeness auto
termination by (relation "measure (\<lambda>(n, _, _). 6 - n)") auto

declare retry_loop.simps [simp del]

definition retryResubscribe :: "(nat \<Rightarrow> attempt) \<Rightarrow> (nat \<times> GoError) list \<times> int list \<times> bool" where
  "retryResubscribe ats = retry_loop 2 (10 ^ 9) ats"

text \<open>On connecting, the MQTT 3 client: the result of the first attempt, and of the retries if it failed.\<close>

definition v3_on_connect :: "(nat \<Rightarrow> attempt) \<Rightarrow> client_event list \<times> bool" where
  "v3_on_connect ats =
     (case at_error (ats 1) of
        None \<Rightarrow> ([EvUp False], True)
      | Some e \<Rightarrow> (case retryResubscribe ats of (errs, _, ok) \<Rightarrow> ([EvError e, EvUp False] @ map (EvError \<circ> snd) errs, ok)))"

end
