(* ===== verification/ClientFacts.thy ===== *)
theory ClientFacts
  imports ClientV5
begin

text \<open>
  What the MQTT clients keep: a URL that says TLS is dialled with TLS, a message sent with its properties is received
  with them, the subscriptions remembered are those of the client \<^verbatim>\<open>Conn\<close> works with, and how long a client goes on
  trying to subscribe.
\<close>

section \<open>Dialling\<close>

definition says_tls :: "Url \<Rightarrow> bool" where
  "says_tls u \<longleftrightarrow> to_lower (u_scheme u) \<in> {''mqtts'', ''ssl'', ''tls'', ''tcps'', ''mqtt+ssl'', ''wss''}"

text \<open>The address a definition is typed with: a missing scheme is plain MQTT.\<close>

definition typed_url :: "string \<Rightarrow> string" where
  "typed_url raw = (let url = trim_space raw in if contains_sub url ''://'' then url else ''mqtt://'' @ url)"

definition v5_dial :: "V5Client \<Rightarrow> dial" where
  "v5_dial c = tlsDial (vc_tls (v5_cfg c)) (vc_url (v5_cfg c))"

lemma normalizeScheme_tls:
  "normalizeScheme sc = Inr c \<Longrightarrow> (c = ''ssl'' \<or> c = ''wss'') \<longleftrightarrow> to_lower sc \<in> {''mqtts'', ''ssl'', ''tls'', ''tcps'', ''mqtt+ssl'', ''wss''}"
  by (auto simp: normalizeScheme_def Let_def split: if_splits)

lemma normalizeScheme_range: "normalizeScheme sc = Inr c \<Longrightarrow> c \<in> {''tcp'', ''ssl'', ''ws'', ''wss'', ''unix''}"
  by (auto simp: normalizeScheme_def Let_def split: if_splits)


fun dial_tls :: "dial \<Rightarrow> TLSSettings option" where
  "dial_tls (DialWebSocket u cfg) = cfg"
| "dial_tls (DialTLS h cfg) = cfg"
| "dial_tls (DialUnix u) = None"
| "dial_tls (DialTCP h) = None"

lemma normalize_url_stored:
  assumes "normalize_url parse render s = Inr (s', scheme)" and "parse (typed_url (cs_url s)) = Some u"
  shows "normalizeScheme (u_scheme u) = Inr scheme" and "cs_tls s' = cs_tls s"
  using assms by (auto simp: normalize_url_def typed_url_def Let_def split: if_splits option.splits sum.splits prod.splits)

text \<open>What \<^verbatim>\<open>Normalize\<close> stores for a URL, when it parses back to the URL it was printed from.\<close>

lemma Normalize_stored_url:
  assumes norm: "Normalize parse render fresh s = Inr s'"
    and parse_render: "\<And>u. sane_url u \<Longrightarrow> render u = cs_url s' \<Longrightarrow> parse (cs_url s') = Some u"
    and typed: "parse (typed_url (cs_url s)) = Some u0"
  obtains u where "parse (cs_url s') = Some u" "normalizeScheme (u_scheme u0) = Inr (u_scheme u)"
    "cs_tls s' = cs_tls s"
proof -
  from norm obtain s1 s2 scheme subs where st:
    "normalize_url parse render (s\<lparr>cs_name := trim_space (cs_name s)\<rparr>) = Inr (s1, scheme)"
    "normalize_numbers fresh scheme s1 = Inr s2" "s' = s2\<lparr>cs_subscriptions := subs\<rparr>"
    by (rule Normalize_stages)
  obtain u where u: "sane_url u" "u_scheme u = scheme" "cs_url s1 = render u"
    using normalize_url_sane [OF st(1)] .
  have kept: "cs_url s' = render u" "cs_tls s' = cs_tls s1"
    using st(2,3) u(3) by (auto simp: normalize_numbers_def Let_def split: if_splits)
  show thesis
    using that [of u] parse_render [OF u(1)] kept u(2) normalize_url_stored [OF st(1), of u0] typed by simp
qed

lemma buildTLSConfig_plain: "\<not> UsesTLS parse spec \<Longrightarrow> buildTLSConfig parse usable pair spec = Inr None"
  by (simp add: buildTLSConfig_def)

lemma buildTLSConfig_tls:
  assumes "UsesTLS parse spec" and "buildTLSConfig parse usable pair spec = Inr tls"
  obtains cfg where "tls = Some cfg" "0x0303 \<le> tg_minVersion cfg"
    "tg_insecureSkipVerify cfg = tls_insecureSkipVerify (cs_tls spec)"
  using assms by (force simp: buildTLSConfig_def Let_def split: if_splits)

text \<open>The TLS settings a client goes out with: what its dialler is handed, or what the library for MQTT 3 is set up with.\<close>

fun client_tls :: "client_kind \<Rightarrow> TLSSettings option" where
  "client_tls (KindV3 c) = vo_tls (v3_opts c)"
| "client_tls (KindV5 c) = dial_tls (v5_dial c)"

text \<open>
  A client made of a stored definition goes out with TLS exactly when the URL stored asks for it: the scheme there is
  canonical, so that \<^verbatim>\<open>UsesTLS\<close> and \<^verbatim>\<open>tlsDial\<close>, which read different lists of names, agree.
\<close>

lemma NewClient_tls:
  assumes made: "mqtt_NewClient parse usable pair spec = Inr k"
    and url: "parse (cs_url spec) = Some u" and scheme: "u_scheme u \<in> {''tcp'', ''ssl'', ''ws'', ''wss'', ''unix''}"
  obtains (tls) cfg where "client_tls k = Some cfg" "u_scheme u \<in> {''ssl'', ''wss''}" "0x0303 \<le> tg_minVersion cfg"
    "tg_insecureSkipVerify cfg = tls_insecureSkipVerify (cs_tls spec)"
  | (plain) "client_tls k = None" "u_scheme u \<notin> {''ssl'', ''wss''}"
proof -
  from made url obtain tls where tls: "buildTLSConfig parse usable pair spec = Inr tls"
      and k: "client_tls k = (if cs_version spec = V5 then dial_tls (tlsDial tls u) else tls)"
    by (auto simp: mqtt_NewClient_def newV5Client_def newV3Client_def v3_options_def v5_config_def v5_dial_def
        split: if_splits sum.splits option.splits)
  have uses: "UsesTLS parse spec \<longleftrightarrow> u_scheme u \<in> {''ssl'', ''wss''}"
    using url by (simp add: UsesTLS_def spec_scheme_def Let_def)
  show thesis
  proof (cases "UsesTLS parse spec")
    case True
    from buildTLSConfig_tls [OF True tls] obtain cfg where cfg: "tls = Some cfg" "0x0303 \<le> tg_minVersion cfg"
      "tg_insecureSkipVerify cfg = tls_insecureSkipVerify (cs_tls spec)" .
    with k uses True show thesis by (intro that(1) [of cfg]) (auto simp: tlsDial_def)
  next
    case False
    with tls have "tls = None" by (simp add: buildTLSConfig_plain)
    with k uses False scheme show thesis by (intro that(2)) (auto simp: tlsDial_def)
  qed
qed

text \<open>
  C8. A URL that asks for TLS is never dialled without it. Whatever \<^verbatim>\<open>Normalize\<close> makes of the address typed in, a
  client made of the stored definition, for either version of the protocol, goes out with TLS settings exactly when the
  scheme typed was one of those for TLS, in whatever case and under whatever alias; the settings demand TLS 1.2 at
  least, and leave the broker's certificate unchecked only when the definition says so. The hypothesis is
  \<^verbatim>\<open>net/url\<close>'s: the stored URL parses back to the URL it was printed from.
\<close>

theorem tls_url_dialled_with_tls:
  assumes "Normalize parse render fresh s = Inr s'"
    and "\<And>u. sane_url u \<Longrightarrow> render u = cs_url s' \<Longrightarrow> parse (cs_url s') = Some u"
    and "parse (typed_url (cs_url s)) = Some u0"
    and made: "mqtt_NewClient parse usable pair s' = Inr k"
  shows "(client_tls k \<noteq> None \<longleftrightarrow> says_tls u0) \<and>
    (\<forall>cfg. client_tls k = Some cfg \<longrightarrow>
       0x0303 \<le> tg_minVersion cfg \<and> tg_insecureSkipVerify cfg = tls_insecureSkipVerify (cs_tls s))"
proof -
  obtain u where u: "parse (cs_url s') = Some u" "normalizeScheme (u_scheme u0) = Inr (u_scheme u)" "cs_tls s' = cs_tls s"
    using Normalize_stored_url [OF assms(1-3)] by auto
  have says: "says_tls u0 \<longleftrightarrow> u_scheme u \<in> {''ssl'', ''wss''}"
    using normalizeScheme_tls [OF u(2)] by (auto simp: says_tls_def)
  from NewClient_tls [OF made u(1) normalizeScheme_range [OF u(2)]] show ?thesis
    by cases (use says u(3) in auto)
qed

definition ex_mqtts :: Url where
  "ex_mqtts = \<lparr>u_scheme = ''MQTTS'', u_user = None, u_host = ''h'', u_rest = []\<rparr>"

definition ex_ssl :: Url where
  "ex_ssl = \<lparr>u_scheme = ''ssl'', u_user = None, u_host = ''h:8883'', u_rest = []\<rparr>"

definition ex_tls_parse :: "string \<Rightarrow> Url option" where
  "ex_tls_parse s = (if s = ''MQTTS://h'' then Some ex_mqtts else if s = ''ssl://h:8883'' then Some ex_ssl else None)"

definition ex_tls_render :: "Url \<Rightarrow> string" where
  "ex_tls_render u = (if u = ex_ssl then ''ssl://h:8883'' else [])"

definition ex_tls_spec :: ConnectionSpec where
  "ex_tls_spec = ex_spec\<lparr>cs_url := ''MQTTS://h'', cs_version := 5\<rparr>"

definition ex_tls_stored :: ConnectionSpec where
  "ex_tls_stored = ex_spec'\<lparr>cs_url := ''ssl://h:8883'', cs_version := 5\<rparr>"

definition ex_tls_client :: V5Client where
  "ex_tls_client =
     (case mqtt_NewClient ex_tls_parse (\<lambda>_. True) (\<lambda>_ _. True) ex_tls_stored of Inr (KindV5 c) \<Rightarrow> c | _ \<Rightarrow> undefined)"

lemma ex_tls_scheme: "normalizeScheme ''MQTTS'' = Inr ''ssl''" "trim_space ''MQTTS://h'' = ''MQTTS://h''"
    "to_lower ''MQTTS'' = ''mqtts''"
  by code_simp+

lemma ex_tls_normalized: "Normalize ex_tls_parse ex_tls_render ''ab'' ex_tls_spec = Inr ex_tls_stored"
  by (simp add: Normalize_def normalize_url_def normalize_numbers_def check_will_tls_def
      Version_Valid_def V31_def V311_def V5_def defaultPort_def ex_trims ex_filter ex_ports ex_spec_def ex_spec'_def
      ex_tls_parse_def ex_tls_render_def ex_mqtts_def ex_ssl_def ex_tls_spec_def ex_tls_stored_def ex_tls_scheme ex_sub_def ex_tls_def)

lemma ex_tls_made:
  "mqtt_NewClient ex_tls_parse (\<lambda>_. True) (\<lambda>_ _. True) ex_tls_stored = Inr (KindV5 ex_tls_client)"
  by (simp add: ex_tls_client_def mqtt_NewClient_def ex_tls_stored_def Version_Valid_def V31_def V311_def V5_def
      buildTLSConfig_def UsesTLS_def spec_scheme_def ex_tls_parse_def ex_ssl_def ex_spec'_def ex_spec_def ex_tls_def
      newV5Client_def)

theorem tls_url_dialled_with_tls_witness: "\<exists>cfg. client_tls (KindV5 ex_tls_client) = Some cfg \<and> 0x0303 \<le> tg_minVersion cfg"
proof -
  have stored: "ex_tls_parse (cs_url ex_tls_stored) = Some u" if "ex_tls_render u = cs_url ex_tls_stored" for u
    using that by (auto simp: ex_tls_stored_def ex_tls_parse_def ex_tls_render_def split: if_splits)
  have "ex_tls_parse (typed_url (cs_url ex_tls_spec)) = Some ex_mqtts"
    by (simp add: ex_tls_spec_def typed_url_def ex_tls_scheme ex_tls_parse_def)
  moreover have "says_tls ex_mqtts" by (simp add: says_tls_def ex_mqtts_def ex_tls_scheme)
  ultimately show ?thesis
    using tls_url_dialled_with_tls [OF ex_tls_normalized stored _ ex_tls_made] by blast
qed

text \<open>The names \<^verbatim>\<open>tlsDial\<close> knows beside the canonical ones are never reached: \<^verbatim>\<open>UsesTLS\<close> does not know them.\<close>

lemma alias_dialled_without_settings:
  assumes "parse (cs_url spec) = Some u" and "u_scheme u = ''mqtts''"
    and "mqtt_NewClient parse usable pair spec = Inr (KindV5 c)"
  shows "v5_dial c = DialTLS (u_host u) None"
  using assms
  by (auto simp: mqtt_NewClient_def newV5Client_def buildTLSConfig_def UsesTLS_def spec_scheme_def Let_def v5_dial_def
      v5_config_def tlsDial_def split: if_splits sum.splits option.splits)

section \<open>Frames\<close>

lemma noEmptyFrames_bytes: "concat (noEmptyFrames ws) = concat ws"
  by (induction ws) auto

lemma noEmptyFrames_nonempty: "[] \<notin> set (noEmptyFrames ws)"
  by (induction ws) auto

section \<open>Messages there and back\<close>

lemma user_properties_kept:
  "distinct (map fst user) \<Longrightarrow> fold (\<lambda>(k, v) m. m(k \<mapsto> v)) user m = m ++ map_of user"
proof (induction user arbitrary: m)
  case (Cons kv user)
  obtain k v where kv: "kv = (k, v)" by (cases kv)
  have "k \<notin> dom (map_of user)" using Cons.prems by (simp add: kv dom_map_of_conv_image_fst)
  then have "m(k \<mapsto> v) ++ map_of user = (m ++ map_of user)(k \<mapsto> v)" by (rule map_add_upd_left)
  with Cons show ?case by (simp add: kv del: fun_upd_apply)
qed simp

text \<open>
  A publish handed to the library and given back by it is the message that was asked for, its properties included,
  in whatever order the loop over the user properties ran. What is lost is whether the broker marked it a duplicate.
\<close>

lemma published_received:
  assumes "\<And>p. pub_props r = Some p \<Longrightarrow> distinct (map fst user) \<and> map_of user = mp_user p"
  shows "\<exists>m. convertV5 now connID (publish_packet user r) = m \<and> msg_topic m = pub_topic r \<and> msg_payload m = pub_payload r \<and>
    msg_qos m = pub_qos r \<and> msg_retain m = pub_retain r \<and> msg_props m = pub_props r \<and> \<not> msg_duplicate m"
proof (cases "pub_props r")
  case (Some p)
  have "convert_props (publish_props user p) = p"
    using assms [OF Some] by (cases p) (simp add: convert_props_def publish_props_def user_properties_kept)
  with Some show ?thesis by (simp add: convertV5_def publish_packet_def)
qed (simp add: convertV5_def publish_packet_def)

section \<open>The subscriptions remembered\<close>

text \<open>The client \<^verbatim>\<open>Conn\<close> works with is the abstraction of this one: its set of subscriptions, and whether it is closed.\<close>

definition v5_view :: "V5Client \<Rightarrow> Client" where
  "v5_view c = \<lparr>cl_subs = v5_subs c, cl_closed = False\<rparr>"

lemma newV5Client_refines: "newV5Client parse spec tls = Some c \<Longrightarrow> v5_view c = client_new spec"
  by (auto simp: newV5Client_def v5_view_def client_new_def split: option.splits)

lemma v5_Subscribe_refines: "v5_Subscribe err subs c = (r, c', asked) \<Longrightarrow> v5_view c' = client_Subscribe subs (v5_view c)"
  by (auto simp: v5_Subscribe_def v5_view_def client_Subscribe_def Let_def split: if_splits)

lemma v5_Unsubscribe_refines:
  "v5_Unsubscribe err filters c = (r, c', asked) \<Longrightarrow> v5_view c' = client_Unsubscribe filters (v5_view c)"
  by (auto simp: v5_Unsubscribe_def v5_view_def client_Unsubscribe_def Let_def split: if_splits)

lemma on_library_event_subs: "v5_subs (snd (on_library_event parse quote now ev c)) = v5_subs c"
  by (cases ev) (simp_all add: setConnErr_def)

lemma v5_Connect_subs: "v5_subs (snd (v5_Connect parse quote now out evs c)) = v5_subs c"
proof -
  have "v5_subs (fold (\<lambda>ev c. snd (on_library_event parse quote now ev c)) evs d) = v5_subs d" for d
    by (induction evs arbitrary: d) (simp_all add: on_library_event_subs)
  then show ?thesis by (simp add: v5_Connect_def Let_def split: connect_outcome.split)
qed

definition v3_view :: "V3Client \<Rightarrow> Client" where
  "v3_view c = \<lparr>cl_subs = v3_subs c, cl_closed = v3_closed c\<rparr>"

lemma v3_client_refines:
  "v3_view (newV3Client spec tls) = client_new spec"
  "v3_Subscribe connected out subs c = (r, c', asked) \<Longrightarrow> v3_view c' = client_Subscribe subs (v3_view c)"
  "v3_Unsubscribe connected out filters c = (r, c', dropped) \<Longrightarrow> v3_view c' = client_Unsubscribe filters (v3_view c)"
  "v3_view (fst (v3_Disconnect c)) = client_Disconnect (v3_view c)"
  by (auto simp: v3_view_def newV3Client_def client_new_def v3_Subscribe_def client_Subscribe_def v3_Unsubscribe_def
      client_Unsubscribe_def v3_Disconnect_def client_Disconnect_def Let_def split: if_splits)

text \<open>A subscription made before there is a connection is not asked of the library, and is in the set all the same.\<close>

lemma v5_Subscribe_waits:
  "\<not> v5_cm c \<Longrightarrow> fst (v5_Subscribe err subs c) = None \<and> snd (snd (v5_Subscribe err subs c)) = None"
  by (simp add: v5_Subscribe_def Let_def)

section \<open>Connecting\<close>

text \<open>A connect that fails while the library has a reason reports that reason, never that the caller stopped waiting.\<close>

lemma connect_error_explains:
  assumes "\<not> v5_cm c" and "\<forall>e. out \<noteq> CannotStart e" and "out \<noteq> Awaited None"
    and "v5_Connect parse quote now out (evs @ [ConnectFailed e]) c = (r, c')"
  shows "r = Some e"
  using assms by (cases out) (auto simp: v5_Connect_def v5_connect_result_def setConnErr_def Let_def split: option.splits)

section \<open>Subscribing again\<close>

text \<open>The subscriptions get through exactly when an attempt of the first five does while the client is still there.\<close>

lemma resubscribe_loop_ok:
  assumes "n \<le> 5"
  shows "snd (snd (resubscribe_loop n backoff ats)) \<longleftrightarrow>
    (\<exists>k. n \<le> k \<and> k \<le> 5 \<and> at_error (ats k) = None \<and> (\<forall>j. n \<le> j \<and> j < k \<longrightarrow> \<not> at_gone (ats j)))"
  using assms
proof (induction n backoff ats rule: resubscribe_loop.induct)
  case (1 n backoff ats)
  show ?case
  proof (cases "at_error (ats n)")
    case None
    with "1.prems" show ?thesis by (subst resubscribe_loop.simps) auto
  next
    case (Some e)
    have later: "n < k" if "n \<le> k" "at_error (ats k) = None" for k
      using that Some by (cases "k = n") auto
    show ?thesis
    proof (cases "at_gone (ats n) \<or> n = 5")
      case True
      have "resubscribe_loop 6 b ats = ([], [], False)" for b by (simp add: resubscribe_loop.simps)
      then have "\<not> snd (snd (resubscribe_loop n backoff ats))"
        using True Some "1.prems" by (subst resubscribe_loop.simps) (auto split: prod.split)
      moreover have "\<not> (n \<le> k \<and> k \<le> 5 \<and> at_error (ats k) = None \<and> (\<forall>j. n \<le> j \<and> j < k \<longrightarrow> \<not> at_gone (ats j)))" for k
        using True later [of k] by auto
      ultimately show ?thesis by blast
    next
      case False
      then have "snd (snd (resubscribe_loop n backoff ats)) = snd (snd (resubscribe_loop (n + 1) (client_backoff backoff) ats))"
        using Some "1.prems" by (subst resubscribe_loop.simps) (simp split: prod.split)
      also have "\<dots> \<longleftrightarrow> (\<exists>k. n + 1 \<le> k \<and> k \<le> 5 \<and> at_error (ats k) = None \<and> (\<forall>j. n + 1 \<le> j \<and> j < k \<longrightarrow> \<not> at_gone (ats j)))"
        using "1.IH" Some False "1.prems" by simp
      also have "\<dots> \<longleftrightarrow> (\<exists>k. n \<le> k \<and> k \<le> 5 \<and> at_error (ats k) = None \<and> (\<forall>j. n \<le> j \<and> j < k \<longrightarrow> \<not> at_gone (ats j)))"
        using Some False by (metis Suc_eq_plus1 not_less_eq_eq le_antisym option.distinct(1) Suc_leD)
      finally show ?thesis .
    qed
  qed
qed

lemma resubscribe_ok:
  "snd (snd (resubscribe ats)) \<longleftrightarrow>
    (\<exists>k. 1 \<le> k \<and> k \<le> 5 \<and> at_error (ats k) = None \<and> (\<forall>j. 1 \<le> j \<and> j < k \<longrightarrow> \<not> at_gone (ats j)))"
  by (simp add: resubscribe_def resubscribe_loop_ok)

text \<open>
  A broker that refuses every time: five errors, waits of 1, 2, 4, 8 and 16 seconds, and no sixth attempt. From then on
  the client is connected and hears nothing.
\<close>

lemma resubscribe_gives_up:
  assumes "\<And>n. at_error (ats n) = Some e" and "\<And>n. \<not> at_gone (ats n)"
  shows "resubscribe ats =
    ([(1, e), (2, e), (3, e), (4, e), (5, e)], [1000000000, 2000000000, 4000000000, 8000000000, 16000000000], False)"
  using assms by (simp add: resubscribe_def resubscribe_loop.simps client_backoff_def)

lemma retryResubscribe_gives_up:
  assumes "\<And>n. at_error (ats n) = Some e" and "\<And>n. \<not> at_gone (ats n)"
  shows "v3_on_connect ats = ([EvError e, EvUp False, EvError e, EvError e, EvError e, EvError e], False)"
  using assms by (simp add: v3_on_connect_def retryResubscribe_def retry_loop.simps client_backoff_def)

end
