(* ===== verification/Spec2Isabelle.thy ===== *)
theory Spec2Isabelle
  imports Spec History TreeViews TopicLog MsgRace Manager SysStats Sparkplug IdentityFacts LogBuf Recorder Hub PlcMappings
    HassRender HassFacts CollectFacts ApiRace BootFacts HttpFacts TopicApiFacts ConnStoreFacts PublishFacts McpPlc
    ClientFacts
begin

text \<open>
  This library models mqttview, a Go program that keeps connections to MQTT brokers, shows what arrives in a
  browser, records it on request, and lets compiled-in plugins follow it (Home Assistant discovery, a
  Beckhoff PLC). All paths below are under \<^verbatim>\<open>src/\<close>.

  \<^bold>\<open>How the program hangs together.\<close> A manager (\<^verbatim>\<open>internal/mqttc/manager.go\<close>) owns a set of connections. Each
  holds at most one MQTT client, a supervisor that retries, and four stores every message is put in: the
  history ring, the topic tree, the per-topic log and the broker statistics that are read out of the tree.
  Observers of the manager get each message and each change of state: the browser hub, the disk recorder and
  the plugin host. The HTTP interface works on the manager and on the account tables; every request is a
  user's only through a session, a Home Assistant identity or an identity provider.

  \<^bold>\<open>Shared ground.\<close> \<^verbatim>\<open>Prelude\<close> has strings as bytes, times as nanoseconds, splitting, trimming and UTF-8;
  \<^verbatim>\<open>Numbers\<close> has decimal numbers of 64 bits; \<^verbatim>\<open>Json\<close> has documents as trees and the storing of a tree into a
  struct. \<^verbatim>\<open>Ring\<close> is the locale of the fixed-size rings (interpreted in \<^verbatim>\<open>History\<close>, \<^verbatim>\<open>TopicLog\<close>, \<^verbatim>\<open>LogBuf\<close>) and
  \<^verbatim>\<open>Queue\<close> the locale of the bounded channels with a non-blocking send (interpreted in \<^verbatim>\<open>Recorder\<close>, \<^verbatim>\<open>Hub\<close>,
  \<^verbatim>\<open>Plugins\<close>); what a client of a ring or of a channel may rely on is proved once there.

  \<^bold>\<open>Messages and connections\<close> (\<^verbatim>\<open>internal/mqttc\<close>).
  \<^item> \<^verbatim>\<open>Topic\<close> (topic.go): validation and matching of filters, and that matching decides MQTT's relation.
  \<^item> \<^verbatim>\<open>Message\<close>, \<^verbatim>\<open>Spec\<close> (types.go): the definition of a connection and its normalisation, stage by stage; what an
    accepted definition satisfies.
  \<^item> \<^verbatim>\<open>History\<close> (history.go), \<^verbatim>\<open>TopicLog\<close> (topiclog.go): the rings; a read refines a filter over the list of what
    was stored, the byte budget is kept and accounted exactly, a topic shows an unbroken end of what it got.
  \<^item> \<^verbatim>\<open>TopicTree\<close>, \<^verbatim>\<open>TreeFacts\<close>, \<^verbatim>\<open>TreeValues\<close>, \<^verbatim>\<open>TreeViews\<close> (tree.go): the tree, its counters against a recount, the
    map from topics to last values it denotes, and what the searches and the graph view return.
  \<^item> \<^verbatim>\<open>SysStats\<close> (sysstats.go), \<^verbatim>\<open>Diagnose\<close> (diagnose.go): statistics of the broker, hints on failed connects.
  \<^item> \<^verbatim>\<open>Conn\<close>, \<^verbatim>\<open>ConnFacts\<close>, \<^verbatim>\<open>ConnRace\<close>, \<^verbatim>\<open>MsgRace\<close> (manager.go, client_v3.go): one connection run step by step, its
    client and its subscriptions; then connects and disconnects, and the handlers of messages, cut at every point
    where another goroutine can run, as step relations with invariants of their reachable states.
  \<^item> \<^verbatim>\<open>ClientV5\<close>, \<^verbatim>\<open>ClientFacts\<close> (client.go, client_v3.go, client_v5.go, websocket_v5.go): what the clients for MQTT 3
    and MQTT 5 hand to their libraries and make of what comes back. Their remembered subscriptions refine the client
    of \<^verbatim>\<open>Conn\<close>, TLS asked for is TLS used, a message keeps its properties, and subscribing again ends after five
    attempts.
  \<^item> \<^verbatim>\<open>Manager\<close> (manager.go): the set of connections, editing a running one, the retry loop with its waits.

  \<^bold>\<open>Payloads\<close> (\<^verbatim>\<open>internal/payload\<close>). \<^verbatim>\<open>Protowire\<close> reads protobuf fields, \<^verbatim>\<open>Sparkplug\<close> decodes Sparkplug B payloads and
  decides how a payload is shown; an encoder of the format is written as the specification and decoding
  inverts it.

  \<^bold>\<open>Accounts\<close> (\<^verbatim>\<open>internal/store\<close>, \<^verbatim>\<open>internal/auth\<close>, \<^verbatim>\<open>internal/api\<close>). \<^verbatim>\<open>AuthStore\<close> has the tables as lists and maps;
  \<^verbatim>\<open>AuthService\<close> the limiter, passwords, one-time and recovery codes and sessions; \<^verbatim>\<open>AuthApi\<close> the handlers;
  \<^verbatim>\<open>Identity\<close> the Home Assistant headers, OpenID Connect and SAML. \<^verbatim>\<open>AuthFacts\<close> and \<^verbatim>\<open>IdentityFacts\<close> hold the
  integrity of the tables under all operations, what a sign-in proves, how often a limiter lets one try,
  when a session is worth something, and that an administrator remains.

  \<^bold>\<open>Around the manager.\<close> \<^verbatim>\<open>LogBuf\<close> (internal/logbuf), \<^verbatim>\<open>Recorder\<close> (internal/recorder), \<^verbatim>\<open>Hub\<close> (internal/hub): the log
  view, the disk recorder with the table it writes, and the browsers; each accounts for every message it is
  given. \<^verbatim>\<open>Plugins\<close>, \<^verbatim>\<open>PluginFacts\<close> (internal/plugin): the plugin host, its subscriptions on every connection
  and its queues.

  \<^bold>\<open>Plugins\<close> (\<^verbatim>\<open>internal/plugins\<close>). The PLC plugin is in \<^verbatim>\<open>PlcModel\<close>, \<^verbatim>\<open>PlcJournal\<close>, \<^verbatim>\<open>PlcRegistry\<close>, \<^verbatim>\<open>PlcPlugin\<close>,
  \<^verbatim>\<open>PlcFacts\<close> and \<^verbatim>\<open>PlcMappings\<close>: reading points, meters and lights off their topics, the log of edges with its
  long poll, the commands that may be sent, and the names given to points. The Home Assistant plugin is in
  \<^verbatim>\<open>HassTemplate\<close> and \<^verbatim>\<open>HassRender\<close> (template.go), \<^verbatim>\<open>HassDiscovery\<close> (discovery.go, abbreviations.go), \<^verbatim>\<open>HassCommands\<close>
  and \<^verbatim>\<open>HassTopics\<close> (commands.go), \<^verbatim>\<open>HassRegistry\<close> and \<^verbatim>\<open>HassIndex\<close> (registry.go), \<^verbatim>\<open>HassPlugin\<close> and \<^verbatim>\<open>HassFacts\<close>
  (plugin.go): templates read what they name, a discovery topic is an identity, every action offered can be
  carried out, the routing indexes agree with a scan of all entities, topics of entities are followed until one is taken back, and
  only an operator's command reaches a device.

  \<^bold>\<open>The interface\<close> (\<^verbatim>\<open>internal/api\<close>, \<^verbatim>\<open>internal/httpx\<close>, \<^verbatim>\<open>internal/store\<close>, \<^verbatim>\<open>internal/secrets\<close>).
  \<^item> \<^verbatim>\<open>Secrets\<close> and \<^verbatim>\<open>Base64\<close> (secrets.go): the key file and sealing; \<^verbatim>\<open>ConnStore\<close> (store/connections.go) the table of
    connections with its sealed columns, \<^verbatim>\<open>PublishStore\<close> (store/publishing.go, store/audit.go, store/store.go) the
    publish history, saved messages, the audit log and the settings. \<^verbatim>\<open>ConnStoreFacts\<close> and \<^verbatim>\<open>PublishFacts\<close>: what
    is saved is loaded again, rows go with their connection, the history is the newest of what was published.
  \<^item> \<^verbatim>\<open>ConnApi\<close> (connections.go, httpx/json.go), \<^verbatim>\<open>PublishApi\<close> (publishing.go, retained.go, recordings.go) and
    \<^verbatim>\<open>TopicApi\<close> (topic_history.go): a handler takes a request and the state of the server and gives a status or
    a reply and the state after it; \<^verbatim>\<open>serve\<close> is a request with its role check in front. \<^verbatim>\<open>ApiFacts\<close> and \<^verbatim>\<open>ApiRuns\<close>
    prove that the manager and the tables stay in step under every handler, every event and any run of them,
    \<^verbatim>\<open>ApiClaims\<close> what follows for clients, \<^verbatim>\<open>TopicApiFacts\<close> what is shown of payloads and offered for charts. A
    handler is one step there; \<^verbatim>\<open>ApiRace\<close> cuts the update and the removal of a connection, which hold no lock between
    the table and the manager, and shows that overlapping they can leave the two out of step.
  \<^item> \<^verbatim>\<open>Collect\<close>, \<^verbatim>\<open>CollectFacts\<close> (collect.go): collection windows, alone as functions and overlapping as a step
    relation that the functions are sequences of.
  \<^item> \<^verbatim>\<open>HttpServer\<close>, \<^verbatim>\<open>HttpFacts\<close> (server.go, spa.go, plugins.go): the table of routes with the guard in front of each,
    the headers, and the page under another prefix.

  \<^bold>\<open>Coming up.\<close> \<^verbatim>\<open>Config\<close> (internal/config) merges file and environment and checks the result; \<^verbatim>\<open>Boot\<close> and \<^verbatim>\<open>BootFacts\<close>
  (cmd/mqttview) load the stored connections and seed the declared ones, and carry the invariant of \<^verbatim>\<open>ApiRuns\<close>
  from the first state the server has.

  \<^bold>\<open>The bridge for agents\<close> (\<^verbatim>\<open>cmd/mqttview-mcp\<close>). \<^verbatim>\<open>Mcp\<close> (client.go) is its HTTP client and \<^verbatim>\<open>McpTools\<close> (main.go) its
  tools, over a world that answers calls. \<^verbatim>\<open>McpFacts\<close> bounds what a tool asks for whatever the answers are, and
  shows that an expired session goes unnoticed; \<^verbatim>\<open>McpPlc\<close> puts the plugin of \<^verbatim>\<open>PlcPlugin\<close> behind it.

  \<^bold>\<open>What stands for the world.\<close> Code outside the repository is a parameter: the MQTT client and the network (the
  record \<^verbatim>\<open>Env\<close> and the events of a connection), hashing, encryption and signatures (\<^verbatim>\<open>Crypto\<close>, \<^verbatim>\<open>Box\<close>), files, URLs and YAML, the answers
  of identity providers, JSON text read into a tree and floats read and printed (\<^verbatim>\<open>Codec\<close>, \<^verbatim>\<open>HassCodec\<close>; a
  float64 is its 64 bits, and comparisons and signs are computed on them). An SQLite table is a list or a map with
  its keys; a statement is one step, which fails on its keys only, but for the
  publish history, whose writing may fail in any way. A section under a mutex is one step; where the code
  lets go of a mutex in between, the step relations of \<^verbatim>\<open>ConnRace\<close> and \<^verbatim>\<open>MsgRace\<close>, the waiter of \<^verbatim>\<open>PlcJournal\<close>, the writers of
  \<^verbatim>\<open>Recorder\<close> and \<^verbatim>\<open>Hub\<close> have a step for each part. A range over a map takes the order of the list that
  stands for the map, and theorems hold for every such order. Upper and lower case are ASCII.

  \<^bold>\<open>Bounds and loops.\<close> Every function is total. Recursions that are not on the data's structure have a measure
  (the bytes left in the wire reader, the path of a template, the size of a configuration). The retry
  loop is a function of the finite list of outcomes it meets. Integers that the code lets wrap
  are machine words or written with their wrap-around (identifiers, varints, sizes, milliseconds).

  \<^bold>\<open>Not modelled.\<close> Overlapping handlers of the interface beyond those of \<^verbatim>\<open>ApiRace\<close> and the windows of \<^verbatim>\<open>Collect\<close>, a full or
  broken database but for the publish history. Flags, signals and the listener of the server process, the router that finds the route of a request, the SQL of migrations,
  AES-GCM itself, the MQTT, TLS and WebSocket libraries, the broker used by tests, the TypeScript client, the Python integration and the shell packaging.
\<close>

end
